(* ===== verification/Prelude.thy ===== *)
theory Prelude
  imports Main "HOL-Library.Word" "HOL-Library.List_Lexorder" "HOL-Library.Char_ord"
    "HOL-Library.Product_Lexorder"
begin

text \<open>
  What every component of the fleetd development shares: the result type of fallible Rust code
  and its combinators, Rust's checked conversions between machine integers, the byte-string
  functions the validators call (\<open>str::trim\<close>, \<open>format!\<close> of an integer), the table operations
  that the SQL statements of the program reduce to, and two interfaces: the codec between an
  enum and its stored spelling, and a transition system with an invariant.

  A Rust \<open>String\<close> is a \<^typ>\<open>string\<close> of UTF-8 bytes, so \<^const>\<open>length\<close> is \<open>String::len\<close> and the
  order of \<open>HOL-Library.List_Lexorder\<close> is the order of \<open>String\<close> and of SQLite's BINARY
  collation.  An \<open>i64\<close> (every SQLite INTEGER) is an \<^typ>\<open>int\<close>: the program only adds to one
  through checked or saturating operations, which are written out below.  A \<open>u64\<close> or \<open>u32\<close> of
  the wire types is a word of that width.
\<close>

named_theorems result_simps "when a chain of fallible steps returns a value or an error"
named_theorems table_simps "membership in tables after a statement"
named_theorems checks "the definitions of the schema's constraints"

section \<open>Results\<close>

definition and_then :: "'e + 'a \<Rightarrow> ('a \<Rightarrow> 'e + 'b) \<Rightarrow> 'e + 'b" where
  "and_then m f = (case m of Inl e \<Rightarrow> Inl e | Inr x \<Rightarrow> f x)"

definition ensure :: "bool \<Rightarrow> 'e \<Rightarrow> 'e + unit" where
  "ensure b e = (if b then Inr () else Inl e)"

definition ok_or :: "'a option \<Rightarrow> 'e \<Rightarrow> 'e + 'a" where
  "ok_or v e = (case v of None \<Rightarrow> Inl e | Some x \<Rightarrow> Inr x)"

primrec try_fold :: "('x \<Rightarrow> 's \<Rightarrow> 'e + 's) \<Rightarrow> 'x list \<Rightarrow> 's \<Rightarrow> 'e + 's" where
  "try_fold f [] s = Inr s"
| "try_fold f (x # xs) s = and_then (f x s) (try_fold f xs)"

lemma and_then_Inl [simp]: "and_then (Inl e) f = Inl e"
  by (simp add: and_then_def)

lemma and_then_Inr [simp]: "and_then (Inr x) f = f x"
  by (simp add: and_then_def)

lemma and_then_eq_Inr [result_simps]: "and_then m f = Inr y \<longleftrightarrow> (\<exists>x. m = Inr x \<and> f x = Inr y)"
  by (cases m) (auto simp: and_then_def)

lemma and_then_eq_Inl [result_simps]:
  "and_then m f = Inl e \<longleftrightarrow> m = Inl e \<or> (\<exists>x. m = Inr x \<and> f x = Inl e)"
  by (cases m) (auto simp: and_then_def)

text \<open>The match on an error that replaces it.\<close>

definition map_err :: "('e \<Rightarrow> 'e) \<Rightarrow> 'e + 'a \<Rightarrow> 'e + 'a" where
  "map_err f r = (case r of Inl e \<Rightarrow> Inl (f e) | Inr x \<Rightarrow> Inr x)"

lemma map_err_eq_Inr [simp, result_simps]: "map_err f r = Inr x \<longleftrightarrow> r = Inr x"
  by (cases r) (simp_all add: map_err_def)

lemma map_err_simps [simp]: "map_err f (Inl e) = Inl (f e)" "map_err f (Inr x) = Inr x"
  by (simp_all add: map_err_def)

lemma and_then_assoc: "and_then (and_then m f) g = and_then m (\<lambda>x. and_then (f x) g)"
  by (cases m) auto

lemma ensure_True [simp]: "ensure True e = Inr ()"
  by (simp add: ensure_def)

lemma ensure_False [simp]: "ensure False e = Inl e"
  by (simp add: ensure_def)

lemma ensure_eq_Inr [result_simps]: "ensure b e = Inr u \<longleftrightarrow> b"
  by (simp add: ensure_def)

lemma ensure_eq_Inl [result_simps]: "ensure b e = Inl e' \<longleftrightarrow> \<not> b \<and> e' = e"
  by (auto simp: ensure_def)

lemma ok_or_None [simp]: "ok_or None e = Inl e"
  by (simp add: ok_or_def)

lemma ok_or_Some [simp]: "ok_or (Some x) e = Inr x"
  by (simp add: ok_or_def)

lemma ok_or_eq_Inr [result_simps]: "ok_or v e = Inr x \<longleftrightarrow> v = Some x"
  by (cases v) (auto simp: ok_or_def)

lemma ok_or_eq_Inl [result_simps]: "ok_or v e = Inl e' \<longleftrightarrow> v = None \<and> e' = e"
  by (cases v) (auto simp: ok_or_def)

text \<open>A property that every step of a loop keeps holds after the loop.\<close>

lemma try_fold_invariant:
  assumes "try_fold f xs s = Inr t" and "P s"
    and "\<And>x s t. x \<in> set xs \<Longrightarrow> f x s = Inr t \<Longrightarrow> P s \<Longrightarrow> P t"
  shows "P t"
  using assms
proof (induction xs arbitrary: s)
  case Nil
  then show ?case by simp
next
  case (Cons x xs)
  from Cons.prems(1) obtain u where u: "f x s = Inr u" and rest: "try_fold f xs u = Inr t"
    by (auto simp: result_simps)
  have "P u" using Cons.prems(3)[OF _ u Cons.prems(2)] by simp
  with rest show ?case
    using Cons.prems(3) by (intro Cons.IH[of u]) auto
qed

section \<open>Machine integers\<close>

type_synonym u32 = "32 word"
type_synonym u64 = "64 word"
type_synonym i64 = int

definition i64_max :: int where "i64_max = 2 ^ 63 - 1"

definition i64_min :: int where "i64_min = - (2 ^ 63)"

definition checked_add_i64 :: "i64 \<Rightarrow> i64 \<Rightarrow> i64 option" where
  "checked_add_i64 a b = (if i64_min \<le> a + b \<and> a + b \<le> i64_max then Some (a + b) else None)"

definition i64_try_from :: "u64 \<Rightarrow> i64 option" where
  "i64_try_from w = (if uint w \<le> i64_max then Some (uint w) else None)"

definition u64_try_from :: "i64 \<Rightarrow> u64 option" where
  "u64_try_from v = (if 0 \<le> v \<and> v < 2 ^ 64 then Some (word_of_int v) else None)"

definition checked_add_u64 :: "u64 \<Rightarrow> u64 \<Rightarrow> u64 option" where
  "checked_add_u64 a b = (if uint a + uint b < 2 ^ 64 then Some (a + b) else None)"

definition saturating_add_u64 :: "u64 \<Rightarrow> u64 \<Rightarrow> u64" where
  "saturating_add_u64 a b = (case checked_add_u64 a b of Some c \<Rightarrow> c | None \<Rightarrow> - 1)"

lemma checked_add_i64_Some: "checked_add_i64 a b = Some c \<Longrightarrow> c = a + b \<and> c \<le> i64_max"
  by (auto simp: checked_add_i64_def split: if_splits)

lemma i64_try_from_Some: "i64_try_from w = Some v \<Longrightarrow> v = uint w \<and> 0 \<le> v \<and> v \<le> i64_max"
  by (auto simp: i64_try_from_def split: if_splits)

lemma u64_try_from_Some: "u64_try_from v = Some w \<Longrightarrow> uint w = v \<and> 0 \<le> v"
  by (auto simp: u64_try_from_def uint_word_of_int split: if_splits)

lemma checked_add_u64_Some: "checked_add_u64 a b = Some c \<Longrightarrow> uint c = uint a + uint b"
proof -
  assume "checked_add_u64 a b = Some c"
  then have c: "c = a + b" and lt: "uint a + uint b < 2 ^ 64"
    by (auto simp: checked_add_u64_def split: if_splits)
  from lt show "uint c = uint a + uint b"
    by (simp add: c uint_word_ariths)
qed

section \<open>Byte strings\<close>

text \<open>
  \<open>str::trim\<close> removes the code points of the Unicode property White\_Space.  The validators only
  ask whether anything is left, that is, whether the string is a sequence of the UTF-8 encodings
  of those code points: U+0009 to U+000D, U+0020, U+0085, U+00A0, U+1680, U+2000 to U+200A,
  U+2028, U+2029, U+202F, U+205F and U+3000.
\<close>

fun white_space_bytes :: "nat list \<Rightarrow> nat" where
  "white_space_bytes (a # bs) =
     (if 9 \<le> a \<and> a \<le> 13 \<or> a = 32 then 1
      else (case bs of
        [] \<Rightarrow> 0
      | b # cs \<Rightarrow>
          if a = 194 \<and> (b = 133 \<or> b = 160) then 2
          else (case cs of
            [] \<Rightarrow> 0
          | c # _ \<Rightarrow>
              if a = 225 \<and> b = 154 \<and> c = 128
                \<or> a = 226 \<and> b = 128 \<and> (128 \<le> c \<and> c \<le> 138 \<or> c = 168 \<or> c = 169 \<or> c = 175)
                \<or> a = 226 \<and> b = 129 \<and> c = 159
                \<or> a = 227 \<and> b = 128 \<and> c = 128
              then 3 else 0)))"
| "white_space_bytes [] = 0"

fun all_white_space :: "nat list \<Rightarrow> bool" where
  "all_white_space [] = True"
| "all_white_space (a # bs) =
     (case white_space_bytes (a # bs) of
        0 \<Rightarrow> False
      | Suc n \<Rightarrow> all_white_space (drop n bs))"

definition trim_is_empty :: "string \<Rightarrow> bool" where
  "trim_is_empty s = all_white_space (map of_char s)"

lemma trim_is_empty_Nil [simp]: "trim_is_empty []"
  by (simp add: trim_is_empty_def)

text \<open>\<open>format!("{}", n)\<close> of an integer.\<close>

definition digit :: "nat \<Rightarrow> char" where
  "digit n = char_of (48 + n)"

fun show_nat :: "nat \<Rightarrow> string" where
  "show_nat n = (if n < 10 then [digit n] else show_nat (n div 10) @ [digit (n mod 10)])"

declare show_nat.simps [simp del]

definition show_int :: "int \<Rightarrow> string" where
  "show_int i = (if i < 0 then CHR ''-'' # show_nat (nat (- i)) else show_nat (nat i))"

lemma show_nat_nonempty [simp]: "show_nat n \<noteq> []"
  by (subst show_nat.simps) simp

section \<open>Tables\<close>

text \<open>
  A table is the list of its rows in rowid order.  \<open>UPDATE t SET f WHERE P\<close> is
  \<open>update_where P f\<close>, its row count is \<open>rows_affected P\<close>, \<open>fetch_optional\<close> of a SELECT is
  \<^const>\<open>find\<close>, \<open>ORDER BY k LIMIT n\<close> is \<^const>\<open>take\<close> of \<^const>\<open>sort_key\<close>, and a UNIQUE index is
  \<open>unique_on\<close>.
\<close>

definition update_where :: "('r \<Rightarrow> bool) \<Rightarrow> ('r \<Rightarrow> 'r) \<Rightarrow> 'r list \<Rightarrow> 'r list" where
  "update_where P f rs = map (\<lambda>r. if P r then f r else r) rs"

definition rows_affected :: "('r \<Rightarrow> bool) \<Rightarrow> 'r list \<Rightarrow> nat" where
  "rows_affected P rs = length (filter P rs)"

definition unique_on :: "('r \<Rightarrow> 'k) \<Rightarrow> 'r list \<Rightarrow> bool" where
  "unique_on key rs = distinct (map key rs)"

text \<open>\<open>SELECT MAX(x)\<close>: NULL over no rows.\<close>

definition sql_max :: "int list \<Rightarrow> int option" where
  "sql_max xs = (if xs = [] then None else Some (fold max (tl xs) (hd xs)))"

definition coalesce :: "'a option \<Rightarrow> 'a \<Rightarrow> 'a" where
  "coalesce v w = (case v of None \<Rightarrow> w | Some x \<Rightarrow> x)"

lemma coalesce_simps [simp]: "coalesce None w = w" "coalesce (Some x) w = x"
  by (simp_all add: coalesce_def)

lemma update_where_Nil [simp]: "update_where P f [] = []"
  by (simp add: update_where_def)

lemma update_where_Cons [simp]:
  "update_where P f (r # rs) = (if P r then f r else r) # update_where P f rs"
  by (simp add: update_where_def)

lemma in_update_where [table_simps]:
  "r \<in> set (update_where P f rs) \<longleftrightarrow> (\<exists>r0\<in>set rs. r = (if P r0 then f r0 else r0))"
  by (auto simp: update_where_def)

lemma ball_update_where:
  "(\<forall>r\<in>set (update_where P f rs). Q r) \<longleftrightarrow> (\<forall>r\<in>set rs. if P r then Q (f r) else Q r)"
  by (auto simp: update_where_def)

lemma update_whereI1: "r \<in> set rs \<Longrightarrow> P r \<Longrightarrow> f r \<in> set (update_where P f rs)"
  by (force simp: update_where_def)

lemma update_whereI2: "r \<in> set rs \<Longrightarrow> \<not> P r \<Longrightarrow> r \<in> set (update_where P f rs)"
  by (force simp: update_where_def)

lemma update_where_None [simp]: "(\<And>r. r \<in> set rs \<Longrightarrow> \<not> P r) \<Longrightarrow> update_where P f rs = rs"
  by (induction rs) (auto simp: update_where_def)

lemma map_update_where:
  "(\<And>r. key (f r) = key r) \<Longrightarrow> map key (update_where P f rs) = map key rs"
  by (simp add: update_where_def)

lemma filter_update_where:
  "(\<And>r. r \<in> set rs \<Longrightarrow> P r \<Longrightarrow> \<not> Q r \<and> \<not> Q (f r)) \<Longrightarrow>
     filter Q (update_where P f rs) = filter Q rs"
  by (induction rs) (auto simp: update_where_def)

lemma map_filter_update_where:
  "(\<And>r. key (f r) = key r) \<Longrightarrow> (\<And>r. Q (f r) = Q r) \<Longrightarrow>
     map key (filter Q (update_where P f rs)) = map key (filter Q rs)"
  by (induction rs) auto

lemma image_update_where:
  "(\<And>r. key (f r) = key r) \<Longrightarrow> key ` set (update_where P f rs) = key ` set rs"
  using map_update_where [of key f P rs] by (metis list.set_map)

lemma ex_key_update_where:
  "(\<And>r. key (f r) = key r) \<Longrightarrow>
     (\<exists>r\<in>set (update_where P f rs). key r = k) \<longleftrightarrow> (\<exists>r\<in>set rs. key r = k)"
  using image_update_where [of key f P rs] by (metis image_iff)

lemma rows_affected_pos: "rows_affected P rs > 0 \<longleftrightarrow> (\<exists>r\<in>set rs. P r)"
  by (auto simp: rows_affected_def filter_empty_conv)

lemma rows_affected_zero: "rows_affected P rs = 0 \<longleftrightarrow> (\<forall>r\<in>set rs. \<not> P r)"
  by (auto simp: rows_affected_def filter_empty_conv)

lemma unique_on_Nil [simp]: "unique_on key []"
  by (simp add: unique_on_def)

lemma unique_on_Cons [simp]:
  "unique_on key (r # rs) \<longleftrightarrow> key r \<notin> key ` set rs \<and> unique_on key rs"
  by (simp add: unique_on_def)

lemma unique_on_snoc [simp]:
  "unique_on key (rs @ [r]) \<longleftrightarrow> unique_on key rs \<and> key r \<notin> key ` set rs"
  by (auto simp: unique_on_def)

lemma unique_on_append:
  "unique_on key (rs @ qs) \<longleftrightarrow>
     unique_on key rs \<and> unique_on key qs \<and> key ` set rs \<inter> key ` set qs = {}"
  by (auto simp: unique_on_def)

lemma unique_on_update:
  "(\<And>r. key (f r) = key r) \<Longrightarrow> unique_on key (update_where P f rs) = unique_on key rs"
  by (simp add: unique_on_def map_update_where)

text \<open>Writing a value nobody else has into a UNIQUE column of one row.\<close>

lemma unique_on_set_column:
  assumes "unique_on key rs" and "unique_on col rs"
    and "\<forall>r\<in>set rs. col r = v \<longrightarrow> key r = k" and "\<And>r. col (f r) = v"
  shows "unique_on col (update_where (\<lambda>r. key r = k) f rs)"
  using assms(1-3)
proof (induction rs)
  case Nil
  then show ?case by (simp add: update_where_def)
next
  case (Cons r rs)
  then have IH: "unique_on col (update_where (\<lambda>r. key r = k) f rs)"
    and fresh: "key r \<notin> key ` set rs" "col r \<notin> col ` set rs" by (auto simp: unique_on_def)
  show ?case
  proof (cases "key r = k")
    case True
    then have "update_where (\<lambda>r. key r = k) f rs = rs" 
      using fresh by (intro update_where_None) (auto simp: image_iff)
    moreover have "v \<notin> col ` set rs" using Cons.prems(3) fresh True by (auto simp: image_iff)
    ultimately show ?thesis using IH True assms(4) by simp
  next
    case False
    then have "col r \<noteq> v" using Cons.prems(3) by auto
    then have "col r \<notin> col ` set (update_where (\<lambda>r. key r = k) f rs)"
      using fresh assms(4) by (auto simp: in_update_where split: if_splits)
    then show ?thesis using IH False by simp
  qed
qed

lemma unique_onD:
  "unique_on key rs \<Longrightarrow> r \<in> set rs \<Longrightarrow> r' \<in> set rs \<Longrightarrow> key r = key r' \<Longrightarrow> r = r'"
  unfolding unique_on_def by (rule inj_onD [of key "set rs"]) (auto simp: distinct_map)

lemma unique_on_filter: "unique_on key rs \<Longrightarrow> unique_on key (filter P rs)"
  by (simp add: unique_on_def distinct_map_filter)

lemma find_in: "find P rs = Some r \<Longrightarrow> r \<in> set rs \<and> P r"
  by (auto simp: find_Some_iff)

lemma find_not_in: "find P rs = None \<Longrightarrow> r \<in> set rs \<Longrightarrow> \<not> P r"
  by (auto simp: find_None_iff)

lemma find_append_table [table_simps]:
  "find P (rs @ qs) = (case find P rs of None \<Rightarrow> find P qs | Some r \<Rightarrow> Some r)"
  by (induction rs) auto

text \<open>Looking a row up by its key, after an UPDATE and after an INSERT.\<close>

lemma find_key_update_where [table_simps]:
  "(\<And>r. key (f r) = key r) \<Longrightarrow>
     find (\<lambda>r. key r = k) (update_where P f rs) =
       map_option (\<lambda>r. if P r then f r else r) (find (\<lambda>r. key r = k) rs)"
  by (induction rs) auto

lemma find_key_iff:
  "unique_on key rs \<Longrightarrow> find (\<lambda>r. key r = k) rs = Some r \<longleftrightarrow> r \<in> set rs \<and> key r = k"
  by (induction rs) (auto simp: image_iff)

lemma filter_key:
  "unique_on key rs \<Longrightarrow>
     filter (\<lambda>r. key r = k) rs = (case find (\<lambda>r. key r = k) rs of None \<Rightarrow> [] | Some r \<Rightarrow> [r])"
proof (induction rs)
  case (Cons r rs)
  show ?case
  proof (cases "key r = k")
    case True
    with Cons.prems have "filter (\<lambda>r. key r = k) rs = []"
      by (auto simp: filter_empty_conv image_iff)
    with True show ?thesis by simp
  qed (use Cons in simp)
qed simp

lemma concat_map_if: "concat (map (\<lambda>x. if P x then [g x] else []) xs) = map g (filter P xs)"
  by (induction xs) auto

lemma find_key_in: "find (\<lambda>r. key r = k) rs = Some r \<Longrightarrow> r \<in> set rs \<and> key r = k"
  by (rule find_in)

lemma find_unique:
  assumes "unique_on key rs" and "r \<in> set rs" and "P r" and "\<And>q. P q \<Longrightarrow> key q = key r"
  shows "find P rs = Some r"
proof -
  have "find P rs \<noteq> None" using assms(2,3) by (auto simp: find_None_iff)
  then obtain q where q: "find P rs = Some q" by auto
  then have "q \<in> set rs" "P q" by (auto dest: find_in)
  with assms have "q = r" by (auto dest: unique_onD)
  with q show ?thesis by simp
qed

lemma sql_max_Max: "xs \<noteq> [] \<Longrightarrow> sql_max xs = Some (Max (set xs))"
proof (cases xs)
  case (Cons y ys)
  have "Max (set (y # ys)) = fold max ys y" by (rule Max.set_eq_fold)
  with Cons show ?thesis by (simp add: sql_max_def del: list.set)
qed simp

lemma sql_max_Some: "sql_max xs = Some m \<Longrightarrow> x \<in> set xs \<Longrightarrow> x \<le> m"
  by (cases "xs = []") (auto simp: sql_max_Max)

lemma sql_max_in: "sql_max xs = Some m \<Longrightarrow> m \<in> set xs"
  by (cases "xs = []") (simp_all add: sql_max_Max, auto simp: sql_max_def)

text \<open>
  An UPDATE whose WHERE clause pins the columns of a unique key, and whose SET clause leaves them
  alone: it changes at most one row, and no row of another key.  Every settlement of a delivery
  and every fenced write to a session binding is one.
\<close>

locale addressed_update =
  fixes key :: "'r \<Rightarrow> 'k" and k :: 'k and P :: "'r \<Rightarrow> bool" and f :: "'r \<Rightarrow> 'r"
  assumes addresses: "P r \<Longrightarrow> key r = k" and keeps_key: "key (f r) = key r"
begin

lemma unique_kept: "unique_on key rs \<Longrightarrow> unique_on key (update_where P f rs)"
  by (simp add: unique_on_update keeps_key)

lemma same_row:
  "unique_on key rs \<Longrightarrow> r \<in> set rs \<Longrightarrow> P r \<Longrightarrow> q \<in> set rs \<Longrightarrow> P q \<Longrightarrow> q = r"
  using addresses [of r] addresses [of q] by (auto dest: unique_onD)

lemma at_most_one: "unique_on key rs \<Longrightarrow> rows_affected P rs \<le> 1"
proof (induction rs)
  case Nil
  then show ?case by (simp add: rows_affected_def)
next
  case (Cons r rs)
  then have fresh: "key r \<notin> key ` set rs" and u: "unique_on key rs" by (auto simp: unique_on_def)
  show ?case
  proof (cases "P r")
    case True
    then have "\<forall>q\<in>set rs. \<not> P q" using fresh addresses by (force dest: addresses)
    then show ?thesis by (simp add: rows_affected_def)
  next
    case False
    then show ?thesis using Cons.IH [OF u] by (simp add: rows_affected_def)
  qed
qed

lemma affects_one: "unique_on key rs \<Longrightarrow> rows_affected P rs = 1 \<longleftrightarrow> (\<exists>r\<in>set rs. P r)"
  using at_most_one [of rs] rows_affected_pos [of P rs] by linarith

lemma others_kept: "r \<in> set rs \<Longrightarrow> key r \<noteq> k \<Longrightarrow> r \<in> set (update_where P f rs)"
  by (auto intro: update_whereI2 dest: addresses)

lemma others_origin: "r \<in> set (update_where P f rs) \<Longrightarrow> key r \<noteq> k \<Longrightarrow> r \<in> set rs"
  using addresses keeps_key by (auto simp: in_update_where split: if_splits)

end

section \<open>Stored spellings of enums\<close>

text \<open>
  Every enum of the wire types carries \<open>ALL\<close>, \<open>as_str\<close> and \<open>parse\<close>; a stored column holds the
  spelling.  The contract is what a storage round trip needs: \<open>ALL\<close> misses no variant, no two
  variants are spelled alike, and \<open>parse\<close> searches \<open>ALL\<close>.
\<close>

locale enum_codec =
  fixes variants :: "'v list" and as_str :: "'v \<Rightarrow> string" and parse :: "string \<Rightarrow> 'v option"
  assumes complete: "v \<in> set variants"
    and spelled_apart: "as_str v = as_str w \<Longrightarrow> v = w"
    and parse_find: "parse s = find (\<lambda>v. as_str v = s) variants"
begin

lemma parse_as_str: "parse (as_str v) = Some v"
proof -
  have "find (\<lambda>w. as_str w = as_str v) variants \<noteq> None"
    using complete [of v] by (auto simp: find_None_iff)
  then obtain w where w: "find (\<lambda>w. as_str w = as_str v) variants = Some w" by auto
  then have "as_str w = as_str v" by (auto dest: find_in)
  then have "w = v" by (rule spelled_apart)
  with w show ?thesis by (simp add: parse_find)
qed

lemma parse_Some_iff: "parse s = Some v \<longleftrightarrow> s = as_str v"
  using parse_as_str by (auto simp: parse_find dest: find_in)

lemma parse_None_iff: "parse s = None \<longleftrightarrow> s \<notin> range as_str"
  using parse_Some_iff [of s] by (cases "parse s") auto

end

section \<open>Tables that only move forward\<close>

text \<open>Every row of the old table is still there, moved along a relation.\<close>

definition rows_kept :: "('r \<Rightarrow> 'r \<Rightarrow> bool) \<Rightarrow> 'r list \<Rightarrow> 'r list \<Rightarrow> bool" where
  "rows_kept R rs rs' \<longleftrightarrow> (\<forall>r\<in>set rs. \<exists>r'\<in>set rs'. R r r')"

lemma rows_kept_append: "(\<And>r. R r r) \<Longrightarrow> rows_kept R rs (rs @ qs)"
  unfolding rows_kept_def by (metis Un_iff set_append)

lemma rows_kept_refl: "(\<And>r. R r r) \<Longrightarrow> rows_kept R rs rs"
  unfolding rows_kept_def by blast

lemma rows_kept_update:
  assumes "\<And>r. R r r" and "\<And>r. r \<in> set rs \<Longrightarrow> P r \<Longrightarrow> R r (f r)"
  shows "rows_kept R rs (update_where P f rs)"
  unfolding rows_kept_def
proof
  fix r
  assume r: "r \<in> set rs"
  then have "(if P r then f r else r) \<in> set (update_where P f rs)"
    unfolding update_where_def set_map by (rule imageI)
  then show "\<exists>r'\<in>set (update_where P f rs). R r r'"
    by (rule bexI [rotated]) (simp add: assms r)
qed

section \<open>Transition systems\<close>

text \<open>The states a step relation reaches from an initial state.\<close>

inductive reachable :: "'s \<Rightarrow> ('s \<Rightarrow> 's \<Rightarrow> bool) \<Rightarrow> 's \<Rightarrow> bool" for init step where
  init: "reachable init step init"
| step: "reachable init step s \<Longrightarrow> step s s' \<Longrightarrow> reachable init step s'"

text \<open>An inductive invariant of a step relation.\<close>

locale transition_system =
  fixes init :: 's and step :: "'s \<Rightarrow> 's \<Rightarrow> bool" and inv :: "'s \<Rightarrow> bool"
  assumes init_inv: "inv init" and step_inv: "inv s \<Longrightarrow> step s s' \<Longrightarrow> inv s'"
begin

lemma reachable_inv: "reachable init step s \<Longrightarrow> inv s"
  by (induction rule: reachable.induct) (auto intro: init_inv step_inv)

lemma run_inv: "step\<^sup>*\<^sup>* s s' \<Longrightarrow> inv s \<Longrightarrow> inv s'"
  by (induction rule: rtranclp_induct) (auto intro: step_inv)

end

text \<open>A preorder on states that every step from a state of the invariant climbs.\<close>

locale evolving_system = transition_system +
  fixes le :: "'s \<Rightarrow> 's \<Rightarrow> bool"
  assumes le_refl: "le s s" and le_trans: "le s s' \<Longrightarrow> le s' s'' \<Longrightarrow> le s s''"
    and step_le: "inv s \<Longrightarrow> step s s' \<Longrightarrow> le s s'"
begin

lemma run_le: "step\<^sup>*\<^sup>* s s' \<Longrightarrow> inv s \<Longrightarrow> le s s'"
proof (induction rule: rtranclp_induct)
  case base
  show ?case by (rule le_refl)
next
  case (step s' s'')
  then show ?case using run_inv step_le le_trans by blast
qed

end

end
