(* ===== verification/Model.thy ===== *)
theory Model
  imports Prelude
begin

text \<open>
  The wire types the kernel and the execution layer share: \<open>crates/kernel/src/error.rs\<close>,
  \<open>crates/proto/src/model.rs\<close>, \<open>crates/proto/src/session.rs\<close> and the parts of
  \<open>crates/proto/src/harness_acp.rs\<close> that a durable row carries.  Every enum has its stored
  spelling, and the spelling round trips.

  A \<open>serde_json::Value\<close> is only stored, returned and compared, never inspected, so it is the
  \<^typ>\<open>string\<close> serde writes for it.
\<close>

type_synonym json = string

section \<open>Errors\<close>

text \<open>The errors SQLite itself raises, as far as the code tells them apart.\<close>

datatype database_error =
    UniqueViolation | ForeignKeyViolation | CheckViolation | TriggerAbort | RowNotFound | ColumnDecode

datatype fleet_error =
    NotFound string string
  | NotMember string string
  | Invalid string
  | Unauthorized
  | Forbidden string
  | Conflict string
  | ResourceExhausted string
  | LeaseConflict string
  | Database database_error
  | Migration
  | Serialization
  | Credential string
  | Io

type_synonym 'a result = "fleet_error + 'a"

text \<open>\<open>map_unique_conflict\<close>: a uniqueness violation of an insert, named after its field.\<close>

definition map_unique_conflict :: "'a result \<Rightarrow> string \<Rightarrow> 'a result" where
  "map_unique_conflict r field =
     (case r of
        Inr x \<Rightarrow> Inr x
      | Inl (Database UniqueViolation) \<Rightarrow> Inl (Conflict (field @ '' already exists''))
      | Inl e \<Rightarrow> Inl e)"

lemma map_unique_conflict_Inr [result_simps]: "map_unique_conflict r f = Inr x \<longleftrightarrow> r = Inr x"
  by (auto simp: map_unique_conflict_def split: sum.splits fleet_error.splits database_error.splits)

section \<open>Enums\<close>

datatype conversation_kind = Shared | Direct

definition conversation_kind_ALL :: "conversation_kind list" where
  "conversation_kind_ALL = [Shared, Direct]"

fun conversation_kind_as_str :: "conversation_kind \<Rightarrow> string" where
  "conversation_kind_as_str Shared = ''shared''"
| "conversation_kind_as_str Direct = ''direct''"

definition conversation_kind_parse :: "string \<Rightarrow> conversation_kind option" where
  "conversation_kind_parse s = find (\<lambda>v. conversation_kind_as_str v = s) conversation_kind_ALL"

datatype membership_delivery_mode = Inbox | StreamOnly

definition membership_delivery_mode_ALL :: "membership_delivery_mode list" where
  "membership_delivery_mode_ALL = [Inbox, StreamOnly]"

fun membership_delivery_mode_as_str :: "membership_delivery_mode \<Rightarrow> string" where
  "membership_delivery_mode_as_str Inbox = ''inbox''"
| "membership_delivery_mode_as_str StreamOnly = ''stream_only''"

definition membership_delivery_mode_parse :: "string \<Rightarrow> membership_delivery_mode option" where
  "membership_delivery_mode_parse s =
     find (\<lambda>v. membership_delivery_mode_as_str v = s) membership_delivery_mode_ALL"

datatype block_resolution = Requeue | Abandon

datatype invocation_state = Reserved | DispatchArmed | Terminal

definition invocation_state_ALL :: "invocation_state list" where
  "invocation_state_ALL = [Reserved, DispatchArmed, Terminal]"

fun invocation_state_as_str :: "invocation_state \<Rightarrow> string" where
  "invocation_state_as_str Reserved = ''reserved''"
| "invocation_state_as_str DispatchArmed = ''dispatch_armed''"
| "invocation_state_as_str Terminal = ''terminal''"

definition invocation_state_parse :: "string \<Rightarrow> invocation_state option" where
  "invocation_state_parse s = find (\<lambda>v. invocation_state_as_str v = s) invocation_state_ALL"

datatype delivery_state = Pending | Leased | Blocked | Acknowledged | Dead

definition delivery_state_ALL :: "delivery_state list" where
  "delivery_state_ALL = [Pending, Leased, Blocked, Acknowledged, Dead]"

fun delivery_state_as_str :: "delivery_state \<Rightarrow> string" where
  "delivery_state_as_str Pending = ''pending''"
| "delivery_state_as_str Leased = ''leased''"
| "delivery_state_as_str Blocked = ''blocked''"
| "delivery_state_as_str Acknowledged = ''acknowledged''"
| "delivery_state_as_str Dead = ''dead''"

definition delivery_state_parse :: "string \<Rightarrow> delivery_state option" where
  "delivery_state_parse s = find (\<lambda>v. delivery_state_as_str v = s) delivery_state_ALL"

datatype execution_certainty = NotStarted | OutcomeKnown | OutcomeUnknown

definition execution_certainty_ALL :: "execution_certainty list" where
  "execution_certainty_ALL = [NotStarted, OutcomeKnown, OutcomeUnknown]"

fun execution_certainty_as_str :: "execution_certainty \<Rightarrow> string" where
  "execution_certainty_as_str NotStarted = ''not_started''"
| "execution_certainty_as_str OutcomeKnown = ''outcome_known''"
| "execution_certainty_as_str OutcomeUnknown = ''outcome_unknown''"

definition execution_certainty_parse :: "string \<Rightarrow> execution_certainty option" where
  "execution_certainty_parse s =
     find (\<lambda>v. execution_certainty_as_str v = s) execution_certainty_ALL"

datatype session_binding_state = Opening | Ready | Active | Uncertain | Retired

definition session_binding_state_ALL :: "session_binding_state list" where
  "session_binding_state_ALL = [Opening, Ready, Active, Uncertain, Retired]"

fun session_binding_state_as_str :: "session_binding_state \<Rightarrow> string" where
  "session_binding_state_as_str Opening = ''opening''"
| "session_binding_state_as_str Ready = ''ready''"
| "session_binding_state_as_str Active = ''active''"
| "session_binding_state_as_str Uncertain = ''uncertain''"
| "session_binding_state_as_str Retired = ''retired''"

definition session_binding_state_parse :: "string \<Rightarrow> session_binding_state option" where
  "session_binding_state_parse s =
     find (\<lambda>v. session_binding_state_as_str v = s) session_binding_state_ALL"

datatype session_persistence = Confirmed | RuntimeClaimed | Unknown

definition session_persistence_ALL :: "session_persistence list" where
  "session_persistence_ALL = [Confirmed, RuntimeClaimed, Unknown]"

fun session_persistence_as_str :: "session_persistence \<Rightarrow> string" where
  "session_persistence_as_str Confirmed = ''confirmed''"
| "session_persistence_as_str RuntimeClaimed = ''runtime_claimed''"
| "session_persistence_as_str Unknown = ''unknown''"

definition session_persistence_parse :: "string \<Rightarrow> session_persistence option" where
  "session_persistence_parse s =
     find (\<lambda>v. session_persistence_as_str v = s) session_persistence_ALL"

datatype plugin_generation_disposition = StopStopped | StopRestart | StopFatal

definition plugin_generation_disposition_ALL :: "plugin_generation_disposition list" where
  "plugin_generation_disposition_ALL = [StopStopped, StopRestart, StopFatal]"

fun plugin_generation_disposition_as_str :: "plugin_generation_disposition \<Rightarrow> string" where
  "plugin_generation_disposition_as_str StopStopped = ''stopped''"
| "plugin_generation_disposition_as_str StopRestart = ''restart''"
| "plugin_generation_disposition_as_str StopFatal = ''fatal''"

definition plugin_generation_disposition_parse :: "string \<Rightarrow> plugin_generation_disposition option" where
  "plugin_generation_disposition_parse s =
     find (\<lambda>v. plugin_generation_disposition_as_str v = s) plugin_generation_disposition_ALL"

datatype plugin_shutdown_outcome = Graceful | Forced | Failed

definition plugin_shutdown_outcome_ALL :: "plugin_shutdown_outcome list" where
  "plugin_shutdown_outcome_ALL = [Graceful, Forced, Failed]"

fun plugin_shutdown_outcome_as_str :: "plugin_shutdown_outcome \<Rightarrow> string" where
  "plugin_shutdown_outcome_as_str Graceful = ''graceful''"
| "plugin_shutdown_outcome_as_str Forced = ''forced''"
| "plugin_shutdown_outcome_as_str Failed = ''failed''"

definition plugin_shutdown_outcome_parse :: "string \<Rightarrow> plugin_shutdown_outcome option" where
  "plugin_shutdown_outcome_parse s =
     find (\<lambda>v. plugin_shutdown_outcome_as_str v = s) plugin_shutdown_outcome_ALL"

text \<open>Every one of them meets the contract of a stored enum.\<close>

interpretation ck: enum_codec conversation_kind_ALL conversation_kind_as_str conversation_kind_parse
proof
  fix v w :: conversation_kind and s
  show "v \<in> set conversation_kind_ALL" by (cases v) (simp_all add: conversation_kind_ALL_def)
  show "conversation_kind_as_str v = conversation_kind_as_str w \<Longrightarrow> v = w"
    by (cases v; cases w) simp_all
qed (rule conversation_kind_parse_def)

interpretation dm: enum_codec membership_delivery_mode_ALL membership_delivery_mode_as_str
  membership_delivery_mode_parse
proof
  fix v w :: membership_delivery_mode and s
  show "v \<in> set membership_delivery_mode_ALL"
    by (cases v) (simp_all add: membership_delivery_mode_ALL_def)
  show "membership_delivery_mode_as_str v = membership_delivery_mode_as_str w \<Longrightarrow> v = w"
    by (cases v; cases w) simp_all
qed (rule membership_delivery_mode_parse_def)

interpretation ist: enum_codec invocation_state_ALL invocation_state_as_str invocation_state_parse
proof
  fix v w :: invocation_state and s
  show "v \<in> set invocation_state_ALL" by (cases v) (simp_all add: invocation_state_ALL_def)
  show "invocation_state_as_str v = invocation_state_as_str w \<Longrightarrow> v = w"
    by (cases v; cases w) simp_all
qed (rule invocation_state_parse_def)

interpretation ds: enum_codec delivery_state_ALL delivery_state_as_str delivery_state_parse
proof
  fix v w :: delivery_state and s
  show "v \<in> set delivery_state_ALL" by (cases v) (simp_all add: delivery_state_ALL_def)
  show "delivery_state_as_str v = delivery_state_as_str w \<Longrightarrow> v = w"
    by (cases v; cases w) simp_all
qed (rule delivery_state_parse_def)

interpretation ec: enum_codec execution_certainty_ALL execution_certainty_as_str
  execution_certainty_parse
proof
  fix v w :: execution_certainty and s
  show "v \<in> set execution_certainty_ALL" by (cases v) (simp_all add: execution_certainty_ALL_def)
  show "execution_certainty_as_str v = execution_certainty_as_str w \<Longrightarrow> v = w"
    by (cases v; cases w) simp_all
qed (rule execution_certainty_parse_def)

interpretation sb: enum_codec session_binding_state_ALL session_binding_state_as_str
  session_binding_state_parse
proof
  fix v w :: session_binding_state and s
  show "v \<in> set session_binding_state_ALL"
    by (cases v) (simp_all add: session_binding_state_ALL_def)
  show "session_binding_state_as_str v = session_binding_state_as_str w \<Longrightarrow> v = w"
    by (cases v; cases w) simp_all
qed (rule session_binding_state_parse_def)

interpretation sp: enum_codec session_persistence_ALL session_persistence_as_str
  session_persistence_parse
proof
  fix v w :: session_persistence and s
  show "v \<in> set session_persistence_ALL" by (cases v) (simp_all add: session_persistence_ALL_def)
  show "session_persistence_as_str v = session_persistence_as_str w \<Longrightarrow> v = w"
    by (cases v; cases w) simp_all
qed (rule session_persistence_parse_def)

interpretation pd: enum_codec plugin_generation_disposition_ALL plugin_generation_disposition_as_str
  plugin_generation_disposition_parse
proof
  fix v w :: plugin_generation_disposition and s
  show "v \<in> set plugin_generation_disposition_ALL"
    by (cases v) (simp_all add: plugin_generation_disposition_ALL_def)
  show "plugin_generation_disposition_as_str v = plugin_generation_disposition_as_str w \<Longrightarrow> v = w"
    by (cases v; cases w) simp_all
qed (rule plugin_generation_disposition_parse_def)

interpretation so: enum_codec plugin_shutdown_outcome_ALL plugin_shutdown_outcome_as_str
  plugin_shutdown_outcome_parse
proof
  fix v w :: plugin_shutdown_outcome and s
  show "v \<in> set plugin_shutdown_outcome_ALL" by (cases v) (simp_all add: plugin_shutdown_outcome_ALL_def)
  show "plugin_shutdown_outcome_as_str v = plugin_shutdown_outcome_as_str w \<Longrightarrow> v = w"
    by (cases v; cases w) simp_all
qed (rule plugin_shutdown_outcome_parse_def)

section \<open>Structs\<close>

record agent =
  agent_id' :: string
  agent_name :: string
  agent_metadata :: json
  agent_created_at_ms :: i64

record create_agent_input =
  new_agent_name :: string
  new_agent_metadata :: json

record channel =
  channel_id' :: string
  channel_name :: string
  channel_kind :: conversation_kind
  channel_metadata :: json
  channel_created_at_ms :: i64
  channel_archived_at_ms :: "i64 option"

record create_channel_member =
  new_member_agent_id :: string
  new_member_delivery_mode :: membership_delivery_mode

record create_channel_input =
  new_channel_name :: string
  new_channel_metadata :: json
  new_channel_member_ids :: "string list"
  new_channel_members :: "create_channel_member list"

record channel_member =
  member_channel_id :: string
  member_agent_id :: string
  member_agent_name :: string
  member_joined_at_ms :: i64
  member_delivery_mode :: membership_delivery_mode

record message =
  msg_seq :: i64
  msg_id :: string
  msg_channel_id :: string
  msg_sender_id :: string
  msg_recipient_id :: "string option"
  msg_kind :: string
  msg_payload :: json
  msg_correlation_id :: "string option"
  msg_causation_id :: "string option"
  msg_created_at_ms :: i64

record create_message =
  new_sender_id :: string
  new_idempotency_key :: "string option"
  new_recipient_id :: "string option"
  new_kind :: string
  new_payload :: json
  new_correlation_id :: "string option"
  new_causation_id :: "string option"

record message_page =
  page_messages :: "message list"
  page_next_cursor :: i64

record claim_deliveries_input =
  claim_limit :: u32
  claim_lease_duration_ms :: u64

record delivery =
  delivery_message :: message
  delivery_attempt :: i64
  delivery_lease_expires_at_ms :: i64
  delivery_last_error :: "string option"

record claim_batch =
  batch_lease_token :: string
  batch_lease_expires_at_ms :: i64
  batch_deliveries :: "delivery list"

record retry_delivery_input =
  retry_lease_token :: string
  retry_after_ms :: u64
  retry_error :: "string option"

record block_delivery_input =
  block_lease_token :: string
  block_reason :: string

record blocked_delivery =
  blocked_block_id :: i64
  blocked_agent_id :: string
  blocked_message :: message
  blocked_attempt :: i64
  blocked_reason :: string
  blocked_blocked_at_ms :: i64

record resolve_block_input =
  resolve_resolution :: block_resolution
  resolve_retry_after_ms :: u64
  resolve_note :: "string option"

record delivery_record =
  rec_agent_id :: string
  rec_message :: message
  rec_state :: delivery_state
  rec_attempt :: i64
  rec_available_at_ms :: i64
  rec_lease_expires_at_ms :: "i64 option"
  rec_lease_expired :: bool
  rec_last_error :: "string option"
  rec_created_at_ms :: i64
  rec_acknowledged_at_ms :: "i64 option"
  rec_unresolved_block_id :: "i64 option"

record invocation =
  inv_id :: string
  inv_agent_id :: string
  inv_message :: message
  inv_delivery_attempt :: i64
  inv_lease_token :: string
  inv_lease_expires_at_ms :: i64
  inv_fence_token :: string
  inv_state :: invocation_state
  inv_reserved_at_ms :: i64
  inv_dispatch_armed_at_ms :: "i64 option"
  inv_terminal_at_ms :: "i64 option"
  inv_execution_certainty :: "execution_certainty option"
  inv_terminal_reason :: "string option"
  inv_result_message_id :: "string option"

record arm_invocation_input =
  arm_lease_token :: string
  arm_fence_token :: string

record complete_invocation_input =
  complete_lease_token :: string
  complete_fence_token :: string
  complete_kind :: string
  complete_payload :: json

record invocation_completion =
  completion_invocation :: invocation
  completion_result :: message

record binding =
  bind_id :: string
  bind_generation :: u64
  bind_owner_epoch :: u64

record acquire_session_binding_input =
  acq_lane_policy :: string
  acq_lane_key :: string
  acq_owner_instance_id :: string
  acq_profile_digest :: string
  acq_compatibility_digest :: string
  acq_working_directory :: string
  acq_additional_directories :: "string list"

datatype session_acquisition_mode = Create | Resume string

record session_binding =
  sess_binding :: binding
  sess_agent_id :: string
  sess_lane_policy :: string
  sess_lane_key :: string
  sess_owner_instance_id :: string
  sess_profile_digest :: string
  sess_compatibility_digest :: string
  sess_working_directory :: string
  sess_additional_directories :: "string list"
  sess_session_ref :: "string option"
  sess_state :: session_binding_state
  sess_active_invocation_id :: "string option"
  sess_last_quiescent_invocation_id :: "string option"
  sess_session_persistence :: "session_persistence option"
  sess_uncertain_reason :: "string option"
  sess_retired_reason :: "string option"
  sess_created_at_ms :: i64
  sess_updated_at_ms :: i64
  sess_opened_at_ms :: "i64 option"
  sess_retired_at_ms :: "i64 option"

record session_acquisition =
  acquired_session :: session_binding
  acquired_mode :: session_acquisition_mode

end
