(* ===== verification/Schema.thy ===== *)
theory Schema
  imports Model
begin

text \<open>
  The durable store: the tables of \<open>crates/kernel/migrations\<close>, each as the list of its rows, the
  statements that insert into them, and the row constraints.  A TEXT column whose CHECK lists its
  values has the datatype of those values.

  Primary keys, UNIQUE indexes and foreign keys (the store opens SQLite with \<open>foreign_keys(true)\<close>)
  are enforced by the inserts, as SQLite does: a violating insert is an error, and the transaction
  around it is rolled back.  CHECK constraints are not enforced here: the components prove that no
  statement of the program violates one.

  A transaction is a function from the store to an error or a value and the new store.  An error
  leaves the caller with the store it had, which is the rollback.
\<close>

section \<open>Rows\<close>

record agent_row =
  a_id :: string
  a_name :: string
  a_metadata :: json
  a_created_at_ms :: i64

record channels_row =
  c_id :: string
  c_name :: string
  c_metadata :: json
  c_created_at_ms :: i64
  c_kind :: conversation_kind
  c_direct_pair_key :: "string option"
  c_archived_at_ms :: "i64 option"

record member_row =
  cm_channel_id :: string
  cm_agent_id :: string
  cm_joined_at_ms :: i64
  cm_delivery_mode :: membership_delivery_mode
  cm_read_through_seq :: i64

record message_row =
  m_seq :: i64
  m_id :: string
  m_channel_id :: string
  m_sender_id :: string
  m_recipient_id :: "string option"
  m_kind :: string
  m_payload :: json
  m_correlation_id :: "string option"
  m_causation_id :: "string option"
  m_created_at_ms :: i64
  m_idempotency_key :: "string option"

record delivery_row =
  d_message_seq :: i64
  d_agent_id :: string
  d_state :: delivery_state
  d_attempt :: i64
  d_available_at_ms :: i64
  d_lease_token :: "string option"
  d_lease_expires_at_ms :: "i64 option"
  d_last_error :: "string option"
  d_last_settled_lease_token :: "string option"
  d_last_settlement :: "string option"
  d_acknowledged_at_ms :: "i64 option"
  d_created_at_ms :: i64

record block_row =
  b_id :: i64
  b_message_seq :: i64
  b_agent_id :: string
  b_attempt :: i64
  b_lease_token :: string
  b_reason :: string
  b_blocked_at_ms :: i64
  b_resolved_at_ms :: "i64 option"
  b_resolution :: "string option"
  b_resolution_note :: "string option"
  b_retry_after_ms :: "i64 option"

record invocation_row =
  i_id :: string
  i_message_seq :: i64
  i_agent_id :: string
  i_delivery_attempt :: i64
  i_lease_token :: string
  i_lease_expires_at_ms :: i64
  i_fence_token :: string
  i_state :: invocation_state
  i_reserved_at_ms :: i64
  i_dispatch_armed_at_ms :: "i64 option"
  i_terminal_at_ms :: "i64 option"
  i_execution_certainty :: "execution_certainty option"
  i_terminal_reason :: "string option"
  i_result_message_seq :: "i64 option"

record binding_row =
  s_binding_id :: string
  s_binding_generation :: i64
  s_agent_id :: string
  s_lane_policy :: string
  s_lane_key :: string
  s_owner_epoch :: i64
  s_owner_instance_id :: string
  s_profile_digest :: string
  s_compatibility_digest :: string
  s_working_directory :: string
  s_additional_directories :: "string list"
  s_session_ref :: "string option"
  s_state :: session_binding_state
  s_active_invocation_id :: "string option"
  s_last_quiescent_invocation_id :: "string option"
  s_session_persistence :: "session_persistence option"
  s_uncertain_reason :: "string option"
  s_retired_reason :: "string option"
  s_created_at_ms :: i64
  s_updated_at_ms :: i64
  s_opened_at_ms :: "i64 option"
  s_retired_at_ms :: "i64 option"

datatype turn_state = TurnActive | TurnQuiescent | TurnUncertain

record turn_row =
  t_invocation_id :: string
  t_binding_id :: string
  t_binding_generation :: i64
  t_owner_epoch :: i64
  t_state :: turn_state
  t_started_at_ms :: i64
  t_terminal_at_ms :: "i64 option"
  t_session_persistence :: "session_persistence option"
  t_uncertain_reason :: "string option"

datatype plugin_generation_state = GenerationActive | GenerationStopped

record generation_row =
  g_id :: string
  g_agent_id :: string
  g_plugin_id :: string
  g_plugin_name :: string
  g_plugin_version :: string
  g_interfaces :: "(string \<times> string) list"
  g_process_id :: "i64 option"
  g_driver_version :: string
  g_acp_sdk_version :: string
  g_acp_protocol_version :: i64
  g_runtime_name :: string
  g_runtime_version :: string
  g_runtime_executable_digest :: string
  g_agent_capabilities :: json
  g_max_concurrent_turns :: i64
  g_max_frame_bytes :: i64
  g_profile_digest :: string
  g_compatibility_digest :: string
  g_raw_initialize_result :: json
  g_heartbeat_interval_ms :: i64
  g_state :: plugin_generation_state
  g_started_at_ms :: i64
  g_last_heartbeat_at_ms :: i64
  g_stopped_at_ms :: "i64 option"
  g_stop_disposition :: "plugin_generation_disposition option"
  g_stop_reason :: "string option"
  g_shutdown_outcome :: "plugin_shutdown_outcome option"
  g_shutdown_exit_code :: "i64 option"

record event_counts =
  n_prompt :: i64
  n_assistant :: i64
  n_reasoning :: i64
  n_tool :: i64
  n_plan :: i64
  n_usage :: i64
  n_metadata :: i64
  n_permission :: i64
  n_unknown :: i64

text \<open>The nine \<open>*_event_count\<close> columns are the record \<open>o_counts\<close>.\<close>

record observation_row =
  o_invocation_id :: string
  o_generation_id :: string
  o_binding_id :: string
  o_binding_generation :: i64
  o_owner_epoch :: i64
  o_started_at_ms :: i64
  o_updated_at_ms :: i64
  o_first_event_at_ms :: "i64 option"
  o_last_event_at_ms :: "i64 option"
  o_event_count :: i64
  o_observed_payload_bytes :: i64
  o_last_event_seq :: i64
  o_last_event_digest :: "string option"
  o_event_chain_digest :: "string option"
  o_counts :: event_counts
  o_terminal_at_ms :: "i64 option"
  o_stop_reason :: "string option"
  o_runtime_stop_reason :: "string option"
  o_execution_certainty :: "execution_certainty option"
  o_session_quiescent :: "bool option"
  o_session_persistence :: "session_persistence option"
  o_usage_json :: "json option"

section \<open>The store\<close>

text \<open>
  \<open>messages_sequence\<close> and \<open>delivery_blocks_sequence\<close> are the AUTOINCREMENT counters that SQLite
  keeps for the two tables whose rowid is one.
\<close>

record db =
  agents :: "agent_row list"
  channels :: "channels_row list"
  channel_members :: "member_row list"
  messages :: "message_row list"
  messages_sequence :: i64
  agent_deliveries :: "delivery_row list"
  delivery_blocks :: "block_row list"
  delivery_blocks_sequence :: i64
  invocations :: "invocation_row list"
  session_bindings :: "binding_row list"
  session_binding_turns :: "turn_row list"
  plugin_generations :: "generation_row list"
  invocation_observations :: "observation_row list"

type_synonym 'a transaction = "db \<Rightarrow> ('a \<times> db) result"

definition empty_db :: db where
  "empty_db = \<lparr>agents = [], channels = [], channel_members = [], messages = [],
     messages_sequence = 0, agent_deliveries = [], delivery_blocks = [],
     delivery_blocks_sequence = 0, invocations = [], session_bindings = [],
     session_binding_turns = [], plugin_generations = [], invocation_observations = []\<rparr>"

text \<open>Committing keeps the new store, an error rolls back to the old one.\<close>

definition committed :: "'a transaction \<Rightarrow> db \<Rightarrow> db" where
  "committed tx d = (case tx d of Inl e \<Rightarrow> d | Inr (x, d') \<Rightarrow> d')"

lemma committed_Inl [simp]: "tx d = Inl e \<Longrightarrow> committed tx d = d"
  by (simp add: committed_def)

lemma committed_Inr [simp]: "tx d = Inr (x, d') \<Longrightarrow> committed tx d = d'"
  by (simp add: committed_def)

lemma committed_invariant:
  assumes "P d" and "\<And>x d'. tx d = Inr (x, d') \<Longrightarrow> P d'"
  shows "P (committed tx d)"
  using assms by (cases "tx d") (auto simp: committed_def)

section \<open>Inserts\<close>

definition agent_exists :: "string \<Rightarrow> db \<Rightarrow> bool" where
  "agent_exists aid d = (\<exists>a\<in>set (agents d). a_id a = aid)"

definition channel_exists :: "string \<Rightarrow> db \<Rightarrow> bool" where
  "channel_exists cid d = (\<exists>c\<in>set (channels d). c_id c = cid)"

definition insert_agent_row :: "agent_row \<Rightarrow> db \<Rightarrow> db result" where
  "insert_agent_row r d =
     (if \<exists>a\<in>set (agents d). a_id a = a_id r \<or> a_name a = a_name r
      then Inl (Database UniqueViolation)
      else Inr (d\<lparr>agents := agents d @ [r]\<rparr>))"

definition insert_channel_row :: "channels_row \<Rightarrow> db \<Rightarrow> db result" where
  "insert_channel_row r d =
     (if (c_kind r = Shared) \<noteq> (c_direct_pair_key r = None) then Inl (Database TriggerAbort)
      else if \<exists>c\<in>set (channels d). c_id c = c_id r \<or> c_name c = c_name r
          \<or> c_direct_pair_key r \<noteq> None \<and> c_direct_pair_key c = c_direct_pair_key r
      then Inl (Database UniqueViolation)
      else Inr (d\<lparr>channels := channels d @ [r]\<rparr>))"

definition insert_member_row :: "member_row \<Rightarrow> db \<Rightarrow> db result" where
  "insert_member_row r d =
     (if (\<exists>c\<in>set (channels d). c_id c = cm_channel_id r \<and> c_kind c = Direct)
          \<and> rows_affected (\<lambda>m. cm_channel_id m = cm_channel_id r) (channel_members d) \<ge> 2
      then Inl (Database TriggerAbort)
      else if \<exists>m\<in>set (channel_members d).
          cm_channel_id m = cm_channel_id r \<and> cm_agent_id m = cm_agent_id r
      then Inl (Database UniqueViolation)
      else if \<not> channel_exists (cm_channel_id r) d \<or> \<not> agent_exists (cm_agent_id r) d
      then Inl (Database ForeignKeyViolation)
      else Inr (d\<lparr>channel_members := channel_members d @ [r]\<rparr>))"

text \<open>The seq of the new row comes from the AUTOINCREMENT counter.\<close>

definition insert_message_row :: "(i64 \<Rightarrow> message_row) \<Rightarrow> db \<Rightarrow> (i64 \<times> db) result" where
  "insert_message_row mk d =
     (let seq = messages_sequence d + 1; r = mk seq in
      if \<exists>m\<in>set (messages d). m_id m = m_id r
          \<or> m_idempotency_key r \<noteq> None \<and> m_sender_id m = m_sender_id r
            \<and> m_idempotency_key m = m_idempotency_key r
      then Inl (Database UniqueViolation)
      else if \<not> channel_exists (m_channel_id r) d \<or> \<not> agent_exists (m_sender_id r) d
          \<or> (case m_recipient_id r of None \<Rightarrow> False | Some a \<Rightarrow> \<not> agent_exists a d)
      then Inl (Database ForeignKeyViolation)
      else Inr (seq, d\<lparr>messages := messages d @ [r], messages_sequence := seq\<rparr>))"

definition message_seq_exists :: "i64 \<Rightarrow> db \<Rightarrow> bool" where
  "message_seq_exists seq d = (\<exists>m\<in>set (messages d). m_seq m = seq)"

definition insert_delivery_row :: "delivery_row \<Rightarrow> db \<Rightarrow> db result" where
  "insert_delivery_row r d =
     (if \<exists>q\<in>set (agent_deliveries d).
          d_message_seq q = d_message_seq r \<and> d_agent_id q = d_agent_id r
      then Inl (Database UniqueViolation)
      else if \<not> message_seq_exists (d_message_seq r) d \<or> \<not> agent_exists (d_agent_id r) d
      then Inl (Database ForeignKeyViolation)
      else Inr (d\<lparr>agent_deliveries := agent_deliveries d @ [r]\<rparr>))"

definition delivery_exists :: "i64 \<Rightarrow> string \<Rightarrow> db \<Rightarrow> bool" where
  "delivery_exists seq aid d =
     (\<exists>q\<in>set (agent_deliveries d). d_message_seq q = seq \<and> d_agent_id q = aid)"

definition insert_block_row :: "(i64 \<Rightarrow> block_row) \<Rightarrow> db \<Rightarrow> (i64 \<times> db) result" where
  "insert_block_row mk d =
     (let n = delivery_blocks_sequence d + 1; r = mk n in
      if \<exists>b\<in>set (delivery_blocks d). b_message_seq b = b_message_seq r
          \<and> b_agent_id b = b_agent_id r \<and> b_lease_token b = b_lease_token r
      then Inl (Database UniqueViolation)
      else if \<not> delivery_exists (b_message_seq r) (b_agent_id r) d
      then Inl (Database ForeignKeyViolation)
      else Inr (n, d\<lparr>delivery_blocks := delivery_blocks d @ [r], delivery_blocks_sequence := n\<rparr>))"

definition insert_invocation_row :: "invocation_row \<Rightarrow> db \<Rightarrow> db result" where
  "insert_invocation_row r d =
     (if \<exists>i\<in>set (invocations d). i_id i = i_id r \<or> i_fence_token i = i_fence_token r
          \<or> i_message_seq i = i_message_seq r \<and> i_agent_id i = i_agent_id r
            \<and> i_delivery_attempt i = i_delivery_attempt r
          \<or> i_result_message_seq r \<noteq> None \<and> i_result_message_seq i = i_result_message_seq r
      then Inl (Database UniqueViolation)
      else if \<not> delivery_exists (i_message_seq r) (i_agent_id r) d
      then Inl (Database ForeignKeyViolation)
      else Inr (d\<lparr>invocations := invocations d @ [r]\<rparr>))"

definition invocation_exists :: "string \<Rightarrow> db \<Rightarrow> bool" where
  "invocation_exists iid d = (\<exists>i\<in>set (invocations d). i_id i = iid)"

definition insert_binding_row :: "binding_row \<Rightarrow> db \<Rightarrow> db result" where
  "insert_binding_row r d =
     (if \<exists>s\<in>set (session_bindings d).
          s_binding_id s = s_binding_id r \<and> s_binding_generation s = s_binding_generation r
          \<or> s_agent_id s = s_agent_id r \<and> s_lane_policy s = s_lane_policy r
            \<and> s_lane_key s = s_lane_key r
            \<and> (s_binding_generation s = s_binding_generation r
               \<or> s_state s \<noteq> Retired \<and> s_state r \<noteq> Retired)
      then Inl (Database UniqueViolation)
      else if \<not> agent_exists (s_agent_id r) d then Inl (Database ForeignKeyViolation)
      else Inr (d\<lparr>session_bindings := session_bindings d @ [r]\<rparr>))"

definition binding_exists :: "string \<Rightarrow> i64 \<Rightarrow> db \<Rightarrow> bool" where
  "binding_exists bid gen d =
     (\<exists>s\<in>set (session_bindings d). s_binding_id s = bid \<and> s_binding_generation s = gen)"

definition insert_turn_row :: "turn_row \<Rightarrow> db \<Rightarrow> db result" where
  "insert_turn_row r d =
     (if \<exists>t\<in>set (session_binding_turns d). t_invocation_id t = t_invocation_id r
      then Inl (Database UniqueViolation)
      else if \<not> invocation_exists (t_invocation_id r) d
          \<or> \<not> binding_exists (t_binding_id r) (t_binding_generation r) d
      then Inl (Database ForeignKeyViolation)
      else Inr (d\<lparr>session_binding_turns := session_binding_turns d @ [r]\<rparr>))"

text \<open>
  The positivity CHECKs of a generation row are about evidence that the plugin reports and that no
  code validates before, so the insert enforces them.
\<close>

definition insert_generation_row :: "generation_row \<Rightarrow> db \<Rightarrow> db result" where
  "insert_generation_row r d =
     (if g_acp_protocol_version r \<le> 0 \<or> g_max_concurrent_turns r \<le> 0 \<or> g_max_frame_bytes r \<le> 0
          \<or> g_heartbeat_interval_ms r \<le> 0
      then Inl (Database CheckViolation)
      else if \<exists>g\<in>set (plugin_generations d). g_id g = g_id r then Inl (Database UniqueViolation)
      else if \<not> agent_exists (g_agent_id r) d then Inl (Database ForeignKeyViolation)
      else Inr (d\<lparr>plugin_generations := plugin_generations d @ [r]\<rparr>))"

definition generation_exists :: "string \<Rightarrow> db \<Rightarrow> bool" where
  "generation_exists gid d = (\<exists>g\<in>set (plugin_generations d). g_id g = gid)"

definition insert_observation_row :: "observation_row \<Rightarrow> db \<Rightarrow> db result" where
  "insert_observation_row r d =
     (if \<exists>q\<in>set (invocation_observations d). o_invocation_id q = o_invocation_id r
      then Inl (Database UniqueViolation)
      else if \<not> invocation_exists (o_invocation_id r) d \<or> \<not> generation_exists (o_generation_id r) d
          \<or> \<not> binding_exists (o_binding_id r) (o_binding_generation r) d
      then Inl (Database ForeignKeyViolation)
      else Inr (d\<lparr>invocation_observations := invocation_observations d @ [r]\<rparr>))"

section \<open>Constraints of a row\<close>

definition delivery_check :: "delivery_row \<Rightarrow> bool" where
  "delivery_check r \<longleftrightarrow>
     0 \<le> d_attempt r
     \<and> (if d_state r = Leased
        then d_lease_token r \<noteq> None \<and> d_lease_expires_at_ms r \<noteq> None
        else d_lease_token r = None \<and> d_lease_expires_at_ms r = None)
     \<and> (d_state r = Acknowledged \<longrightarrow> d_acknowledged_at_ms r \<noteq> None)
     \<and> d_last_settlement r \<in> {None, Some ''acknowledged'', Some ''retry'', Some ''blocked''}"

definition block_check :: "block_row \<Rightarrow> bool" where
  "block_check b \<longleftrightarrow>
     0 < b_attempt b
     \<and> (b_resolved_at_ms b = None) = (b_resolution b = None)
     \<and> b_resolution b \<in> {None, Some ''requeued'', Some ''abandoned''}
     \<and> (case b_retry_after_ms b of None \<Rightarrow> True | Some t \<Rightarrow> 0 \<le> t)"

definition invocation_check :: "invocation_row \<Rightarrow> bool" where
  "invocation_check i \<longleftrightarrow>
     0 < i_delivery_attempt i
     \<and> (case i_state i of
          Reserved \<Rightarrow> i_dispatch_armed_at_ms i = None \<and> i_terminal_at_ms i = None
            \<and> i_execution_certainty i = None \<and> i_terminal_reason i = None
        | DispatchArmed \<Rightarrow> i_dispatch_armed_at_ms i \<noteq> None \<and> i_terminal_at_ms i = None
            \<and> i_execution_certainty i = None \<and> i_terminal_reason i = None
        | Terminal \<Rightarrow> i_terminal_at_ms i \<noteq> None \<and> i_execution_certainty i \<noteq> None
            \<and> i_terminal_reason i \<noteq> None)
     \<and> (i_terminal_reason i = Some ''completed'') = (i_result_message_seq i \<noteq> None)"

definition binding_check :: "binding_row \<Rightarrow> bool" where
  "binding_check s \<longleftrightarrow>
     0 < s_binding_generation s \<and> 0 < s_owner_epoch s
     \<and> (case s_state s of
          Opening \<Rightarrow> s_session_ref s = None \<and> s_active_invocation_id s = None
            \<and> s_uncertain_reason s = None \<and> s_retired_reason s = None
            \<and> s_opened_at_ms s = None \<and> s_retired_at_ms s = None
        | Ready \<Rightarrow> s_session_ref s \<noteq> None \<and> s_active_invocation_id s = None
            \<and> s_uncertain_reason s = None \<and> s_retired_reason s = None
            \<and> s_opened_at_ms s \<noteq> None \<and> s_retired_at_ms s = None
        | Active \<Rightarrow> s_session_ref s \<noteq> None \<and> s_active_invocation_id s \<noteq> None
            \<and> s_uncertain_reason s = None \<and> s_retired_reason s = None
            \<and> s_opened_at_ms s \<noteq> None \<and> s_retired_at_ms s = None
        | Uncertain \<Rightarrow> s_session_ref s \<noteq> None \<and> s_active_invocation_id s \<noteq> None
            \<and> s_uncertain_reason s \<noteq> None \<and> s_retired_reason s = None
            \<and> s_opened_at_ms s \<noteq> None \<and> s_retired_at_ms s = None
        | Retired \<Rightarrow> s_active_invocation_id s = None \<and> s_retired_reason s \<noteq> None
            \<and> s_retired_at_ms s \<noteq> None)"

definition turn_check :: "turn_row \<Rightarrow> bool" where
  "turn_check t \<longleftrightarrow>
     0 < t_owner_epoch t
     \<and> (case t_state t of
          TurnActive \<Rightarrow> t_terminal_at_ms t = None \<and> t_session_persistence t = None
            \<and> t_uncertain_reason t = None
        | TurnQuiescent \<Rightarrow> t_terminal_at_ms t \<noteq> None \<and> t_session_persistence t \<noteq> None
            \<and> t_uncertain_reason t = None
        | TurnUncertain \<Rightarrow> t_terminal_at_ms t \<noteq> None \<and> t_session_persistence t = None
            \<and> t_uncertain_reason t \<noteq> None)"

definition generation_check :: "generation_row \<Rightarrow> bool" where
  "generation_check g \<longleftrightarrow>
     (case g_state g of
        GenerationActive \<Rightarrow> g_stopped_at_ms g = None \<and> g_stop_disposition g = None
          \<and> g_stop_reason g = None \<and> g_shutdown_outcome g = None \<and> g_shutdown_exit_code g = None
      | GenerationStopped \<Rightarrow> g_stopped_at_ms g \<noteq> None \<and> g_stop_disposition g \<noteq> None
          \<and> g_stop_reason g \<noteq> None \<and> g_shutdown_outcome g \<noteq> None)"

definition count_total :: "event_counts \<Rightarrow> i64" where
  "count_total c = n_prompt c + n_assistant c + n_reasoning c + n_tool c + n_plan c + n_usage c
     + n_metadata c + n_permission c + n_unknown c"

definition observation_check :: "observation_row \<Rightarrow> bool" where
  "observation_check q \<longleftrightarrow>
     0 < o_binding_generation q \<and> 0 < o_owner_epoch q
     \<and> 0 \<le> o_event_count q \<and> 0 \<le> o_observed_payload_bytes q \<and> 0 \<le> o_last_event_seq q
     \<and> (o_event_count q = 0 \<and> o_first_event_at_ms q = None \<and> o_last_event_at_ms q = None
          \<and> o_last_event_seq q = 0 \<and> o_last_event_digest q = None \<and> o_event_chain_digest q = None
        \<or> o_event_count q > 0 \<and> o_first_event_at_ms q \<noteq> None \<and> o_last_event_at_ms q \<noteq> None
          \<and> o_last_event_seq q > 0 \<and> o_last_event_digest q \<noteq> None \<and> o_event_chain_digest q \<noteq> None)
     \<and> (if o_terminal_at_ms q = None
        then o_stop_reason q = None \<and> o_runtime_stop_reason q = None \<and> o_execution_certainty q = None
          \<and> o_session_quiescent q = None \<and> o_session_persistence q = None \<and> o_usage_json q = None
        else o_stop_reason q \<noteq> None \<and> o_execution_certainty q \<noteq> None \<and> o_session_quiescent q \<noteq> None
          \<and> o_session_persistence q \<noteq> None \<and> o_usage_json q \<noteq> None)"

lemmas row_checks [checks] =
  generation_check_def observation_check_def
  delivery_check_def block_check_def invocation_check_def binding_check_def turn_check_def

end
