(* ===== verification/Channels.thy ===== *)
theory Channels
  imports Schema
begin

text \<open>
  Agents, channels and memberships: \<open>crates/kernel/src/store/mod.rs\<close> (the shared validators),
  \<open>agent.rs\<close>, \<open>channel.rs\<close> and \<open>membership.rs\<close>.  An operation takes the identifiers it would draw
  from \<open>Uuid::new_v4\<close> and the time it would read from \<open>now_ms\<close> as arguments.

  The invariant is what the rest of the kernel relies on: identities are unique, a membership
  names a known agent and a known channel, a direct conversation has exactly the two participants
  its pair key spells, and no read cursor is ahead of its channel.
\<close>

section \<open>Shared validators (store/mod.rs)\<close>

definition validate_name :: "string \<Rightarrow> string \<Rightarrow> unit result" where
  "validate_name entity name =
     (if trim_is_empty name then Inl (Invalid (entity @ '' name must not be empty'')) else Inr ())"

definition ensure_exists :: "('r \<Rightarrow> string) \<Rightarrow> 'r list \<Rightarrow> string \<Rightarrow> string \<Rightarrow> unit result" where
  "ensure_exists row_id table entity ident =
     (if rows_affected (\<lambda>r. row_id r = ident) table = 0 then Inl (NotFound entity ident)
      else Inr ())"

lemma ensure_exists_Inr [result_simps]:
  "ensure_exists row_id table entity ident = Inr u \<longleftrightarrow> (\<exists>r\<in>set table. row_id r = ident)"
  by (auto simp: ensure_exists_def rows_affected_zero)

section \<open>Agents (store/agent.rs)\<close>

definition agent_from_row :: "agent_row \<Rightarrow> agent" where
  "agent_from_row r = \<lparr>agent_id' = a_id r, agent_name = a_name r, agent_metadata = a_metadata r,
     agent_created_at_ms = a_created_at_ms r\<rparr>"

definition create_agent :: "string \<Rightarrow> i64 \<Rightarrow> create_agent_input \<Rightarrow> agent transaction" where
  "create_agent uuid now inp d =
     and_then (validate_name ''agent'' (new_agent_name inp)) (\<lambda>_.
     let row = \<lparr>a_id = uuid, a_name = new_agent_name inp, a_metadata = new_agent_metadata inp,
                a_created_at_ms = now\<rparr> in
     and_then (map_unique_conflict (insert_agent_row row d) ''agent name'') (\<lambda>d.
     Inr (agent_from_row row, d)))"

definition list_agents :: "db \<Rightarrow> agent list" where
  "list_agents d = map agent_from_row (sort_key (\<lambda>r. (a_created_at_ms r, a_id r)) (agents d))"

section \<open>Channels (store/channel.rs)\<close>

definition channel_from_row :: "channels_row \<Rightarrow> channel result" where
  "channel_from_row r =
     (let stored_kind = conversation_kind_as_str (c_kind r) in
      and_then (ok_or (conversation_kind_parse stored_kind)
          (Invalid (''stored channel has unknown conversation kind: '' @ stored_kind))) (\<lambda>kind.
      Inr \<lparr>channel_id' = c_id r, channel_name = c_name r, channel_kind = kind,
           channel_metadata = c_metadata r, channel_created_at_ms = c_created_at_ms r,
           channel_archived_at_ms = c_archived_at_ms r\<rparr>))"

definition channel_row :: "string \<Rightarrow> db \<Rightarrow> channels_row result" where
  "channel_row channel_id d =
     ok_or (find (\<lambda>c. c_id c = channel_id) (channels d)) (NotFound ''channel'' channel_id)"

definition require_mutable_shared_channel :: "channel \<Rightarrow> unit result" where
  "require_mutable_shared_channel c =
     (if channel_kind c \<noteq> Shared
      then Inl (Conflict ''direct conversation membership and name are immutable'')
      else if channel_archived_at_ms c \<noteq> None
      then Inl (Conflict (''channel is archived: '' @ channel_id' c))
      else Inr ())"

text \<open>\<open>seen.insert\<close> of one initial member, and pushing it.\<close>

definition push_member ::
  "create_channel_member \<Rightarrow> string list \<times> create_channel_member list
    \<Rightarrow> (string list \<times> create_channel_member list) result" where
  "push_member m = (\<lambda>(seen, members).
     if new_member_agent_id m \<in> set seen
     then Inl (Invalid (''duplicate initial channel member: '' @ new_member_agent_id m))
     else Inr (new_member_agent_id m # seen, members @ [m]))"

definition initial_member_row :: "string \<Rightarrow> i64 \<Rightarrow> create_channel_member \<Rightarrow> member_row" where
  "initial_member_row cid now m = \<lparr>cm_channel_id = cid, cm_agent_id = new_member_agent_id m,
     cm_joined_at_ms = now, cm_delivery_mode = new_member_delivery_mode m,
     cm_read_through_seq = 0\<rparr>"

definition insert_initial_members ::
  "string \<Rightarrow> i64 \<Rightarrow> create_channel_member list \<Rightarrow> db \<Rightarrow> db result" where
  "insert_initial_members cid now = try_fold (\<lambda>m. insert_member_row (initial_member_row cid now m))"

definition create_channel_with_members ::
  "string \<Rightarrow> i64 \<Rightarrow> string \<Rightarrow> json \<Rightarrow> create_channel_member list \<Rightarrow> channel transaction" where
  "create_channel_with_members uuid now name metadata members d =
     and_then (validate_name ''channel'' name) (\<lambda>_.
     and_then (try_fold push_member members ([], [])) (\<lambda>_.
     and_then (try_fold (\<lambda>m _. ensure_exists a_id (agents d) ''agent'' (new_member_agent_id m))
                 members ()) (\<lambda>_.
     let row = \<lparr>c_id = uuid, c_name = name, c_metadata = metadata, c_created_at_ms = now,
                c_kind = Shared, c_direct_pair_key = None, c_archived_at_ms = None\<rparr> in
     and_then (map_unique_conflict (insert_channel_row row d) ''channel name'') (\<lambda>d.
     and_then (insert_initial_members uuid now members d) (\<lambda>d.
     Inr (\<lparr>channel_id' = uuid, channel_name = name, channel_kind = Shared,
           channel_metadata = metadata, channel_created_at_ms = now,
           channel_archived_at_ms = None\<rparr>, d))))))"

definition create_channel :: "string \<Rightarrow> i64 \<Rightarrow> create_channel_input \<Rightarrow> channel transaction" where
  "create_channel uuid now inp d =
     and_then (try_fold push_member
         (map (\<lambda>a. \<lparr>new_member_agent_id = a, new_member_delivery_mode = Inbox\<rparr>)
            (new_channel_member_ids inp) @ new_channel_members inp) ([], [])) (\<lambda>(seen, members).
     create_channel_with_members uuid now (new_channel_name inp) (new_channel_metadata inp)
       members d)"

definition list_channels :: "db \<Rightarrow> channel list result" where
  "list_channels d =
     try_fold (\<lambda>r cs. and_then (channel_from_row r) (\<lambda>c. Inr (cs @ [c])))
       (sort_key (\<lambda>r. (c_created_at_ms r, c_id r)) (channels d)) []"

definition rename_channel :: "string \<Rightarrow> string \<Rightarrow> channel transaction" where
  "rename_channel channel_id name d =
     and_then (validate_name ''channel'' name) (\<lambda>_.
     and_then (channel_row channel_id d) (\<lambda>row.
     and_then (channel_from_row row) (\<lambda>c.
     and_then (require_mutable_shared_channel c) (\<lambda>_.
     and_then (map_unique_conflict
         (if \<exists>r\<in>set (channels d). c_name r = name \<and> c_id r \<noteq> channel_id
          then Inl (Database UniqueViolation)
          else Inr (d\<lparr>channels := update_where (\<lambda>r. c_id r = channel_id)
                       (\<lambda>r. r\<lparr>c_name := name\<rparr>) (channels d)\<rparr>)) ''channel name'') (\<lambda>d.
     Inr (c\<lparr>channel_name := name\<rparr>, d))))))"

definition archive_channel :: "i64 \<Rightarrow> string \<Rightarrow> channel transaction" where
  "archive_channel now channel_id d =
     and_then (channel_row channel_id d) (\<lambda>row.
     and_then (channel_from_row row) (\<lambda>c.
     if channel_kind c \<noteq> Shared
     then Inl (Conflict ''direct conversations cannot be archived'')
     else if channel_archived_at_ms c = None
     then Inr (c\<lparr>channel_archived_at_ms := Some now\<rparr>,
            d\<lparr>channels := update_where (\<lambda>r. c_id r = channel_id)
                (\<lambda>r. r\<lparr>c_archived_at_ms := Some now\<rparr>) (channels d)\<rparr>)
     else Inr (c, d)))"

section \<open>Direct conversations (store/channel.rs)\<close>

definition direct_pair_key :: "string \<Rightarrow> string \<Rightarrow> string" where
  "direct_pair_key first second = first @ '':'' @ second"

definition validate_direct_members ::
  "create_channel_member list \<Rightarrow> create_channel_member list result" where
  "validate_direct_members members =
     (if length members \<noteq> 2
      then Inl (Invalid ''direct conversation requires exactly two participants'')
      else let members = sort_key new_member_agent_id members in
        if new_member_agent_id (members ! 0) = new_member_agent_id (members ! 1)
        then Inl (Invalid ''direct conversation participants must be distinct'')
        else Inr members)"

definition ensure_direct_modes_match ::
  "string \<Rightarrow> create_channel_member list \<Rightarrow> db \<Rightarrow> unit result" where
  "ensure_direct_modes_match channel_id members d =
     (let existing = map (\<lambda>m. (cm_agent_id m, membership_delivery_mode_as_str (cm_delivery_mode m)))
            (sort_key cm_agent_id
              (filter (\<lambda>m. cm_channel_id m = channel_id) (channel_members d)));
          requested = map (\<lambda>m. (new_member_agent_id m,
            membership_delivery_mode_as_str (new_member_delivery_mode m))) members in
      if existing \<noteq> requested
      then Inl (Conflict ''direct conversation participant delivery modes are immutable'')
      else Inr ())"

definition insert_direct_pair ::
  "string \<Rightarrow> string \<Rightarrow> i64 \<Rightarrow> string \<Rightarrow> create_channel_member list \<Rightarrow> channel transaction" where
  "insert_direct_pair uuid name_uuid now pair_key members d =
     (let name = ''direct-'' @ name_uuid;
          row = \<lparr>c_id = uuid, c_name = name, c_metadata = ''{}'', c_created_at_ms = now,
                 c_kind = Direct, c_direct_pair_key = Some pair_key, c_archived_at_ms = None\<rparr> in
      and_then (insert_channel_row row d) (\<lambda>d.
      and_then (insert_initial_members uuid now members d) (\<lambda>d.
      Inr (\<lparr>channel_id' = uuid, channel_name = name, channel_kind = Direct,
            channel_metadata = ''{}'', channel_created_at_ms = now,
            channel_archived_at_ms = None\<rparr>, d))))"

definition open_direct_in_transaction ::
  "string \<Rightarrow> string \<Rightarrow> i64 \<Rightarrow> string \<Rightarrow> create_channel_member list
    \<Rightarrow> (channel \<times> bool) transaction" where
  "open_direct_in_transaction uuid name_uuid now pair_key members d =
     (case find (\<lambda>c. c_direct_pair_key c = Some pair_key) (channels d) of
        Some row \<Rightarrow>
          and_then (channel_from_row row) (\<lambda>c.
          and_then (ensure_direct_modes_match (channel_id' c) members d) (\<lambda>_.
          Inr ((c, False), d)))
      | None \<Rightarrow>
          and_then (insert_direct_pair uuid name_uuid now pair_key members d) (\<lambda>(c, d).
          Inr ((c, True), d)))"

definition open_direct_pair ::
  "string \<Rightarrow> string \<Rightarrow> i64 \<Rightarrow> create_channel_member list \<Rightarrow> (channel \<times> bool) transaction" where
  "open_direct_pair uuid name_uuid now members d =
     and_then (validate_direct_members members) (\<lambda>members.
     let pair_key = direct_pair_key (new_member_agent_id (members ! 0))
                      (new_member_agent_id (members ! 1)) in
     and_then (try_fold (\<lambda>m _. ensure_exists a_id (agents d) ''agent'' (new_member_agent_id m))
                 members ()) (\<lambda>_.
     open_direct_in_transaction uuid name_uuid now pair_key members d))"

section \<open>Memberships (store/membership.rs)\<close>

definition add_member_with_mode ::
  "i64 \<Rightarrow> string \<Rightarrow> string \<Rightarrow> membership_delivery_mode \<Rightarrow> unit transaction" where
  "add_member_with_mode now channel_id agent_id mode d =
     and_then (channel_row channel_id d) (\<lambda>row.
     and_then (channel_from_row row) (\<lambda>c.
     and_then (require_mutable_shared_channel c) (\<lambda>_.
     and_then (ensure_exists a_id (agents d) ''agent'' agent_id) (\<lambda>_.
     case find (\<lambda>m. cm_channel_id m = channel_id \<and> cm_agent_id m = agent_id)
            (channel_members d) of
       Some existing \<Rightarrow>
         if membership_delivery_mode_as_str (cm_delivery_mode existing)
            \<noteq> membership_delivery_mode_as_str mode
         then Inl (Conflict (''channel membership delivery mode is immutable: ''
                @ channel_id @ ''/'' @ agent_id))
         else Inr ((), d)
     | None \<Rightarrow>
         and_then (insert_member_row
           \<lparr>cm_channel_id = channel_id, cm_agent_id = agent_id, cm_joined_at_ms = now,
            cm_delivery_mode = mode,
            cm_read_through_seq = coalesce (sql_max (map m_seq
              (filter (\<lambda>m. m_channel_id m = channel_id) (messages d)))) 0\<rparr> d) (\<lambda>d.
         Inr ((), d))))))"

definition add_member :: "i64 \<Rightarrow> string \<Rightarrow> string \<Rightarrow> unit transaction" where
  "add_member now channel_id agent_id = add_member_with_mode now channel_id agent_id Inbox"

definition ensure_member :: "string \<Rightarrow> string \<Rightarrow> db \<Rightarrow> unit result" where
  "ensure_member channel_id agent_id d =
     (if rows_affected (\<lambda>m. cm_channel_id m = channel_id \<and> cm_agent_id m = agent_id)
           (channel_members d) = 0
      then Inl (NotMember agent_id channel_id) else Inr ())"

definition is_member :: "string \<Rightarrow> string \<Rightarrow> db \<Rightarrow> bool result" where
  "is_member channel_id agent_id d =
     (if rows_affected (\<lambda>c. c_id c = channel_id) (channels d) = 0
      then Inl (NotFound ''channel'' channel_id)
      else Inr (rows_affected (\<lambda>m. cm_channel_id m = channel_id \<and> cm_agent_id m = agent_id)
             (channel_members d) = 1))"

definition channel_member_from_row :: "member_row \<times> agent_row \<Rightarrow> channel_member result" where
  "channel_member_from_row = (\<lambda>(r, a).
     let stored_mode = membership_delivery_mode_as_str (cm_delivery_mode r) in
     and_then (ok_or (membership_delivery_mode_parse stored_mode)
         (Invalid (''stored channel membership has unknown delivery mode: '' @ stored_mode)))
       (\<lambda>mode. Inr \<lparr>member_channel_id = cm_channel_id r, member_agent_id = cm_agent_id r,
         member_agent_name = a_name a, member_joined_at_ms = cm_joined_at_ms r,
         member_delivery_mode = mode\<rparr>))"

definition list_channel_members :: "string \<Rightarrow> db \<Rightarrow> channel_member list result" where
  "list_channel_members channel_id d =
     (if rows_affected (\<lambda>c. c_id c = channel_id) (channels d) = 0
      then Inl (NotFound ''channel'' channel_id)
      else try_fold (\<lambda>r ms. and_then (channel_member_from_row r) (\<lambda>m. Inr (ms @ [m])))
        (sort_key (\<lambda>(cm, a). (cm_joined_at_ms cm, cm_agent_id cm))
          [(cm, a). cm \<leftarrow> channel_members d, a \<leftarrow> agents d,
             a_id a = cm_agent_id cm \<and> cm_channel_id cm = channel_id]) [])"

definition advance_member_read_cursor :: "string \<Rightarrow> string \<Rightarrow> i64 \<Rightarrow> i64 transaction" where
  "advance_member_read_cursor channel_id agent_id through_seq d =
     (if through_seq < 0
      then Inl (Invalid ''read cursor must be zero or a committed message sequence'')
      else
        and_then (ensure_exists c_id (channels d) ''channel'' channel_id) (\<lambda>_.
        and_then (ensure_member channel_id agent_id d) (\<lambda>_.
        let latest = sql_max (map m_seq (filter (\<lambda>m. m_channel_id m = channel_id) (messages d))) in
        if through_seq > coalesce latest 0
        then Inl (Invalid (''read cursor '' @ show_int through_seq
               @ '' is beyond the latest message in channel '' @ channel_id))
        else if through_seq > 0
          \<and> \<not> (\<exists>m\<in>set (messages d). m_channel_id m = channel_id \<and> m_seq m = through_seq)
        then Inl (Invalid (''read cursor '' @ show_int through_seq
               @ '' is not a committed message in channel '' @ channel_id))
        else
          let d = d\<lparr>channel_members := update_where
                (\<lambda>m. cm_channel_id m = channel_id \<and> cm_agent_id m = agent_id
                   \<and> cm_read_through_seq m < through_seq)
                (\<lambda>m. m\<lparr>cm_read_through_seq := through_seq\<rparr>) (channel_members d)\<rparr> in
          and_then (ok_or (find (\<lambda>m. cm_channel_id m = channel_id \<and> cm_agent_id m = agent_id)
              (channel_members d)) (Database RowNotFound)) (\<lambda>m.
          Inr (cm_read_through_seq m, d)))))"

section \<open>What the operations do\<close>

lemma channel_from_row_total [simp]:
  "channel_from_row r = Inr \<lparr>channel_id' = c_id r, channel_name = c_name r, channel_kind = c_kind r,
     channel_metadata = c_metadata r, channel_created_at_ms = c_created_at_ms r,
     channel_archived_at_ms = c_archived_at_ms r\<rparr>"
  by (simp add: channel_from_row_def ck.parse_as_str)

lemma ensure_member_Inr [result_simps]:
  "ensure_member cid aid d = Inr u \<longleftrightarrow>
     (\<exists>m\<in>set (channel_members d). cm_channel_id m = cid \<and> cm_agent_id m = aid)"
  by (auto simp: ensure_member_def rows_affected_zero)

lemma insert_member_row_effect:
  "insert_member_row r d = Inr d' \<Longrightarrow>
     d' = d\<lparr>channel_members := channel_members d @ [r]\<rparr>
     \<and> channel_exists (cm_channel_id r) d \<and> agent_exists (cm_agent_id r) d
     \<and> (cm_channel_id r, cm_agent_id r) \<notin> (\<lambda>m. (cm_channel_id m, cm_agent_id m)) ` set (channel_members d)"
  by (auto simp: insert_member_row_def split: if_splits)

lemma insert_channel_row_effect:
  "insert_channel_row r d = Inr d' \<Longrightarrow>
     d' = d\<lparr>channels := channels d @ [r]\<rparr>
     \<and> (c_kind r = Shared) = (c_direct_pair_key r = None)
     \<and> c_id r \<notin> c_id ` set (channels d) \<and> c_name r \<notin> c_name ` set (channels d)
     \<and> (c_direct_pair_key r \<noteq> None
        \<longrightarrow> c_direct_pair_key r \<notin> c_direct_pair_key ` set (channels d))"
  by (auto simp: insert_channel_row_def split: if_splits)

lemma insert_initial_members_effect:
  "insert_initial_members cid now ms d = Inr d' \<Longrightarrow>
     d' = d\<lparr>channel_members := channel_members d @ map (initial_member_row cid now) ms\<rparr>"
  unfolding insert_initial_members_def
proof (induction ms arbitrary: d)
  case (Cons m ms)
  then obtain d1 where "insert_member_row (initial_member_row cid now m) d = Inr d1"
    and rest: "try_fold (\<lambda>m. insert_member_row (initial_member_row cid now m)) ms d1 = Inr d'"
    by (auto simp: result_simps)
  with Cons.IH [OF rest] show ?case by (auto dest!: insert_member_row_effect)
qed simp

lemma create_channel_with_members_effect:
  assumes "create_channel_with_members uuid now name metadata members d = Inr (c, d')"
  obtains d1 where
    "insert_channel_row \<lparr>c_id = uuid, c_name = name, c_metadata = metadata, c_created_at_ms = now,
       c_kind = Shared, c_direct_pair_key = None, c_archived_at_ms = None\<rparr> d = Inr d1"
    and "insert_initial_members uuid now members d1 = Inr d'"
  using assms by (auto simp: create_channel_with_members_def result_simps Let_def)

lemma push_member_Inr [result_simps]:
  "push_member m (seen, acc) = Inr out \<longleftrightarrow>
     new_member_agent_id m \<notin> set seen \<and> out = (new_member_agent_id m # seen, acc @ [m])"
  by (auto simp: push_member_def)

lemma push_members_collects:
  "try_fold push_member ms (seen, acc) = Inr (seen', out) \<Longrightarrow> out = acc @ ms"
proof (induction ms arbitrary: seen acc)
  case (Cons m ms)
  then have "try_fold push_member ms (new_member_agent_id m # seen, acc @ [m]) = Inr (seen', out)"
    by (auto simp: result_simps)
  from Cons.IH [OF this] show ?case by simp
qed simp

lemma push_members_distinct:
  "try_fold push_member ms (seen, acc) = Inr out \<Longrightarrow>
     distinct (map new_member_agent_id ms) \<and> new_member_agent_id ` set ms \<inter> set seen = {}"
proof (induction ms arbitrary: seen acc)
  case Nil
  then show ?case by simp
next
  case (Cons m ms)
  from Cons.prems have fresh: "new_member_agent_id m \<notin> set seen"
    and rest: "try_fold push_member ms (new_member_agent_id m # seen, acc @ [m]) = Inr out"
    by (auto simp: result_simps)
  from Cons.IH [OF rest] fresh show ?case by auto
qed

lemma create_channel_unfold:
  "create_channel uuid now inp d = Inr (c, d') \<Longrightarrow>
     create_channel_with_members uuid now (new_channel_name inp) (new_channel_metadata inp)
       (map (\<lambda>a. \<lparr>new_member_agent_id = a, new_member_delivery_mode = Inbox\<rparr>)
         (new_channel_member_ids inp) @ new_channel_members inp) d = Inr (c, d')"
  by (auto simp: create_channel_def result_simps dest!: push_members_collects)

section \<open>The invariant of agents, channels and memberships\<close>

definition directory_inv :: "db \<Rightarrow> bool" where
  "directory_inv d \<longleftrightarrow>
     unique_on a_id (agents d) \<and> unique_on a_name (agents d)
     \<and> unique_on c_id (channels d) \<and> unique_on c_name (channels d)
     \<and> unique_on (\<lambda>m. (cm_channel_id m, cm_agent_id m)) (channel_members d)
     \<and> (\<forall>m\<in>set (channel_members d).
          channel_exists (cm_channel_id m) d \<and> agent_exists (cm_agent_id m) d)"

definition participants :: "string \<Rightarrow> db \<Rightarrow> string list" where
  "participants cid d =
     sort (map cm_agent_id (filter (\<lambda>m. cm_channel_id m = cid) (channel_members d)))"

definition direct_inv :: "db \<Rightarrow> bool" where
  "direct_inv d \<longleftrightarrow>
     (\<forall>c\<in>set (channels d).
        case c_kind c of
          Shared \<Rightarrow> c_direct_pair_key c = None
        | Direct \<Rightarrow> c_archived_at_ms c = None
            \<and> (\<exists>x y. x < y \<and> participants (c_id c) d = [x, y]
                 \<and> c_direct_pair_key c = Some (direct_pair_key x y)))
     \<and> unique_on c_direct_pair_key (filter (\<lambda>c. c_kind c = Direct) (channels d))"

definition cursor_inv :: "db \<Rightarrow> bool" where
  "cursor_inv d \<longleftrightarrow>
     (\<forall>m\<in>set (channel_members d). cm_read_through_seq m = 0
        \<or> (\<exists>q\<in>set (messages d). m_channel_id q = cm_channel_id m \<and> m_seq q = cm_read_through_seq m))"

definition channels_inv :: "db \<Rightarrow> bool" where
  "channels_inv d \<longleftrightarrow> directory_inv d \<and> direct_inv d \<and> cursor_inv d"

lemmas channels_inv_defs = channels_inv_def directory_inv_def direct_inv_def cursor_inv_def
lemmas exists_defs = agent_exists_def channel_exists_def

lemma participants_cong:
  "channel_members d' = channel_members d \<Longrightarrow> participants cid d' = participants cid d"
  by (simp add: participants_def)

lemma participants_append [simp]:
  "participants cid (d\<lparr>channel_members := channel_members d @ ms\<rparr>) =
     sort (map cm_agent_id (filter (\<lambda>m. cm_channel_id m = cid) (channel_members d))
           @ map cm_agent_id (filter (\<lambda>m. cm_channel_id m = cid) ms))"
  by (simp add: participants_def)

text \<open>The invariant reads four tables, and of messages only what they hold.\<close>

lemma direct_inv_cong:
  "channels d' = channels d \<Longrightarrow> channel_members d' = channel_members d \<Longrightarrow> direct_inv d' = direct_inv d"
  by (simp add: direct_inv_def participants_def cong: conversation_kind.case_cong)

lemma cursor_inv_mono:
  "cursor_inv d \<Longrightarrow> channel_members d' = channel_members d \<Longrightarrow> set (messages d) \<subseteq> set (messages d')
     \<Longrightarrow> cursor_inv d'"
  unfolding cursor_inv_def by auto

lemma channels_inv_cong:
  assumes "channels_inv d" and "agents d' = agents d" and "channels d' = channels d"
    and "channel_members d' = channel_members d" and "set (messages d) \<subseteq> set (messages d')"
  shows "channels_inv d'"
  using assms(1) cursor_inv_mono [OF _ assms(4,5)] direct_inv_cong [OF assms(3,4)]
  by (auto simp: channels_inv_def directory_inv_def exists_defs assms(2-4))

lemma directory_inv_insert_member:
  assumes "directory_inv d" and "insert_member_row r d = Inr d'"
  shows "directory_inv d'"
  using assms insert_member_row_effect [OF assms(2)]
  by (auto simp: directory_inv_def exists_defs)

lemma directory_inv_insert_members:
  assumes "directory_inv d" and "insert_initial_members cid now ms d = Inr d'"
  shows "directory_inv d'"
  using assms(2,1) unfolding insert_initial_members_def
  by (rule try_fold_invariant [where P = directory_inv]) (rule directory_inv_insert_member)

lemma directory_inv_insert_channel:
  assumes "directory_inv d" and "insert_channel_row r d = Inr d'"
  shows "directory_inv d'"
  using assms(1) insert_channel_row_effect [OF assms(2)]
  by (auto simp: directory_inv_def exists_defs)

lemma no_members_of_new_channel:
  assumes "directory_inv d" and "insert_channel_row r d = Inr d1" and "m \<in> set (channel_members d)"
  shows "cm_channel_id m \<noteq> c_id r"
proof -
  obtain c where "c \<in> set (channels d)" "c_id c = cm_channel_id m"
    using assms(1,3) by (auto simp: directory_inv_def exists_defs)
  moreover have "c_id r \<notin> c_id ` set (channels d)"
    using insert_channel_row_effect [OF assms(2)] by blast
  ultimately show ?thesis by (metis image_eqI)
qed

lemma channels_inv_empty: "channels_inv empty_db"
  by (simp add: channels_inv_defs empty_db_def)

lemma channels_inv_create_agent:
  assumes "channels_inv d" and "create_agent uuid now inp d = Inr (a, d')"
  shows "channels_inv d'"
proof -
  obtain row where row: "insert_agent_row row d = Inr d'"
    using assms(2) by (auto simp: create_agent_def result_simps Let_def)
  then have d': "d' = d\<lparr>agents := agents d @ [row]\<rparr>"
    and fresh: "\<forall>a\<in>set (agents d). a_id a \<noteq> a_id row \<and> a_name a \<noteq> a_name row"
    by (auto simp: insert_agent_row_def split: if_splits)
  have "directory_inv d'"
    using assms(1) fresh by (force simp: d' channels_inv_def directory_inv_def exists_defs)
  moreover have "direct_inv d'" "cursor_inv d'"
    using assms(1) direct_inv_cong [of d' d] cursor_inv_mono [of d d'] by (auto simp: d' channels_inv_def)
  ultimately show ?thesis by (simp add: channels_inv_def)
qed

text \<open>A new channel together with its initial members.\<close>

lemma cursor_inv_initial_members:
  "cursor_inv d \<Longrightarrow>
   cursor_inv (d\<lparr>channels := cs, channel_members := channel_members d @ map (initial_member_row cid now) ms\<rparr>)"
  by (auto simp: cursor_inv_def initial_member_row_def)

lemma participants_other_channel:
  "c \<noteq> cid \<Longrightarrow>
   participants c (d\<lparr>channels := cs,
     channel_members := channel_members d @ map (initial_member_row cid now) ms\<rparr>) = participants c d"
  by (simp add: participants_def initial_member_row_def filter_empty_conv comp_def)

lemma participants_new_channel:
  assumes "\<And>m. m \<in> set (channel_members d) \<Longrightarrow> cm_channel_id m \<noteq> cid"
  shows "participants cid (d\<lparr>channels := cs,
      channel_members := channel_members d @ map (initial_member_row cid now) ms\<rparr>) =
    sort (map new_member_agent_id ms)"
  using assms by (simp add: participants_def initial_member_row_def comp_def)

lemma channels_inv_new_channel:
  assumes inv: "channels_inv d" and ins: "insert_channel_row r d = Inr d1"
    and mem: "insert_initial_members (c_id r) now ms d1 = Inr d'"
    and direct: "c_kind r = Direct \<Longrightarrow> c_archived_at_ms r = None
      \<and> (\<exists>x y. x < y \<and> sort (map new_member_agent_id ms) = [x, y]
           \<and> c_direct_pair_key r = Some (direct_pair_key x y))"
  shows "channels_inv d'"
proof -
  note e = insert_channel_row_effect [OF ins]
  have d': "d' = d\<lparr>channels := channels d @ [r],
      channel_members := channel_members d @ map (initial_member_row (c_id r) now) ms\<rparr>"
    using e insert_initial_members_effect [OF mem] by simp
  have dir: "directory_inv d" and dct: "direct_inv d" using inv by (auto simp: channels_inv_def)
  have "directory_inv d'"
    using directory_inv_insert_members [OF directory_inv_insert_channel [OF dir ins] mem] .
  moreover have "cursor_inv d'" using inv by (simp add: d' channels_inv_def cursor_inv_initial_members)
  moreover have "direct_inv d'"
  proof -
    have old: "participants (c_id c) d' = participants (c_id c) d" if "c \<in> set (channels d)" for c
      using that e unfolding d' by (intro participants_other_channel) (metis image_eqI)
    have new: "participants (c_id r) d' = sort (map new_member_agent_id ms)"
      unfolding d' using no_members_of_new_channel [OF dir ins] by (rule participants_new_channel)
    have keys: "unique_on c_direct_pair_key (filter (\<lambda>c. c_kind c = Direct) (channels d'))"
    proof (cases "c_kind r = Direct")
      case True
      then have "c_direct_pair_key r \<notin> c_direct_pair_key ` set (channels d)"
        using e direct by auto
      then show ?thesis using dct by (auto simp: d' direct_inv_def)
    qed (use dct in \<open>simp add: d' direct_inv_def\<close>)
    have cs: "channels d' = channels d @ [r]" by (simp add: d')
    show ?thesis
      unfolding direct_inv_def using keys dct direct e new
      by (auto simp: cs old direct_inv_def split: conversation_kind.splits)
  qed
  ultimately show ?thesis by (simp add: channels_inv_def)
qed

lemma channels_inv_create_channel_with_members:
  assumes "channels_inv d" and "create_channel_with_members uuid now name md ms d = Inr (c, d')"
  shows "channels_inv d'"
  using assms(2)
proof (rule create_channel_with_members_effect)
  fix d1
  assume ins: "insert_channel_row \<lparr>c_id = uuid, c_name = name, c_metadata = md,
      c_created_at_ms = now, c_kind = Shared, c_direct_pair_key = None,
      c_archived_at_ms = None\<rparr> d = Inr d1"
    and mem: "insert_initial_members uuid now ms d1 = Inr d'"
  show ?thesis by (rule channels_inv_new_channel [OF assms(1) ins]) (use mem in auto)
qed

lemma channels_inv_create_channel:
  "channels_inv d \<Longrightarrow> create_channel uuid now inp d = Inr (c, d') \<Longrightarrow> channels_inv d'"
  by (rule channels_inv_create_channel_with_members [OF _ create_channel_unfold])

text \<open>Renaming and archiving touch one shared channel.\<close>

lemma channel_row_Inr [result_simps]:
  "channel_row cid d = Inr r \<longleftrightarrow> find (\<lambda>c. c_id c = cid) (channels d) = Some r"
  by (simp add: channel_row_def result_simps)

lemma require_mutable_shared_channel_Inr [result_simps]:
  "require_mutable_shared_channel c = Inr u \<longleftrightarrow>
     channel_kind c = Shared \<and> channel_archived_at_ms c = None"
  by (auto simp: require_mutable_shared_channel_def)

lemma rename_channel_effect:
  assumes "rename_channel cid name d = Inr (c, d')"
  obtains row where "row \<in> set (channels d)" and "c_id row = cid" and "c_kind row = Shared"
    and "\<forall>r\<in>set (channels d). c_name r = name \<longrightarrow> c_id r = cid"
    and "d' = d\<lparr>channels := update_where (\<lambda>r. c_id r = cid) (\<lambda>r. r\<lparr>c_name := name\<rparr>) (channels d)\<rparr>"
  using assms by (auto simp: rename_channel_def result_simps dest!: find_in split: if_splits)

lemma unique_name_after_rename:
  assumes "unique_on c_id cs" and "unique_on c_name cs"
    and "\<forall>r\<in>set cs. c_name r = name \<longrightarrow> c_id r = cid"
  shows "unique_on c_name (update_where (\<lambda>r. c_id r = cid) (\<lambda>r. r\<lparr>c_name := name\<rparr>) cs)"
  using assms by (rule unique_on_set_column) simp

lemma channels_inv_update_shared:
  assumes inv: "channels_inv d" and row: "row \<in> set (channels d)" "c_id row = cid" "c_kind row = Shared"
    and keeps: "\<And>r. c_id (f r) = c_id r" "\<And>r. c_kind (f r) = c_kind r"
      "\<And>r. c_direct_pair_key (f r) = c_direct_pair_key r"
    and names: "unique_on c_name (update_where (\<lambda>r. c_id r = cid) f (channels d))"
  shows "channels_inv (d\<lparr>channels := update_where (\<lambda>r. c_id r = cid) f (channels d)\<rparr>)"
    (is "channels_inv ?d")
proof -
  have u: "unique_on c_id (channels d)" using inv by (simp add: channels_inv_defs)
  have shared: "c_kind r = Shared" if "r \<in> set (channels d)" "c_id r = cid" for r
    using unique_onD [OF u that(1) row(1)] that row by simp
  have "directory_inv ?d"
    using inv names
    by (simp add: channels_inv_def directory_inv_def unique_on_update keeps exists_defs
        ex_key_update_where)
  moreover have "cursor_inv ?d" using inv by (simp add: channels_inv_def cursor_inv_def)
  moreover have "direct_inv ?d"
  proof -
    have "filter (\<lambda>c. c_kind c = Direct) (update_where (\<lambda>r. c_id r = cid) f (channels d)) =
        filter (\<lambda>c. c_kind c = Direct) (channels d)"
      using shared by (intro filter_update_where) (simp add: keeps)
    then show ?thesis
      using inv shared unfolding channels_inv_def direct_inv_def
      by (auto simp: ball_update_where keeps participants_def split: conversation_kind.splits)
  qed
  ultimately show ?thesis by (simp add: channels_inv_def)
qed

lemma channels_inv_rename_channel:
  assumes "channels_inv d" and "rename_channel cid name d = Inr (c, d')"
  shows "channels_inv d'"
  using assms(2)
proof (rule rename_channel_effect)
  fix row
  assume row: "row \<in> set (channels d)" "c_id row = cid" "c_kind row = Shared"
    and free: "\<forall>r\<in>set (channels d). c_name r = name \<longrightarrow> c_id r = cid"
    and d': "d' = d\<lparr>channels := update_where (\<lambda>r. c_id r = cid) (\<lambda>r. r\<lparr>c_name := name\<rparr>) (channels d)\<rparr>"
  have "unique_on c_name (update_where (\<lambda>r. c_id r = cid) (\<lambda>r. r\<lparr>c_name := name\<rparr>) (channels d))"
    using assms(1) free by (intro unique_name_after_rename) (auto simp: channels_inv_defs)
  then show ?thesis unfolding d' using assms(1) row by (intro channels_inv_update_shared) auto
qed

lemma channels_inv_archive_channel:
  assumes "channels_inv d" and "archive_channel now cid d = Inr (c, d')"
  shows "channels_inv d'"
proof -
  obtain row where row: "row \<in> set (channels d)" "c_id row = cid"
    and cases: "d' = d \<or> c_kind row = Shared \<and> d' = d\<lparr>channels := update_where (\<lambda>r. c_id r = cid)
      (\<lambda>r. r\<lparr>c_archived_at_ms := Some now\<rparr>) (channels d)\<rparr>"
    using assms(2) by (auto simp: archive_channel_def result_simps dest!: find_in split: if_splits)
  have "unique_on c_name (update_where (\<lambda>r. c_id r = cid)
      (\<lambda>r. r\<lparr>c_archived_at_ms := Some now\<rparr>) (channels d))"
    using assms(1) by (simp add: unique_on_update channels_inv_defs)
  then show ?thesis using cases assms(1) row by (auto intro!: channels_inv_update_shared)
qed

text \<open>Opening a direct conversation.\<close>

lemma validate_direct_members_Inr:
  assumes "validate_direct_members ms = Inr ms'"
  shows "\<exists>m1 m2. ms' = [m1, m2] \<and> new_member_agent_id m1 < new_member_agent_id m2
    \<and> set ms' = set ms"
proof -
  have l: "length ms = 2" and ms': "ms' = sort_key new_member_agent_id ms"
    and ne: "new_member_agent_id (ms' ! 0) \<noteq> new_member_agent_id (ms' ! 1)"
    using assms by (auto simp: validate_direct_members_def Let_def split: if_splits)
  from l ms' have "length ms' = 2" by simp
  then obtain m1 m2 where two: "ms' = [m1, m2]"
    by (auto simp: numeral_2_eq_2 length_Suc_conv)
  have "sorted (map new_member_agent_id ms')" by (simp add: ms')
  with ne have "new_member_agent_id m1 < new_member_agent_id m2" by (simp add: two)
  moreover have "set ms' = set ms" by (simp add: ms')
  ultimately show ?thesis using two by blast
qed

lemma channels_inv_open_direct_pair:
  assumes inv: "channels_inv d" and ok: "open_direct_pair uuid name_uuid now ms d = Inr (r, d')"
  shows "channels_inv d'"
proof -
  obtain ms' where v: "validate_direct_members ms = Inr ms'"
    and o: "open_direct_in_transaction uuid name_uuid now
      (direct_pair_key (new_member_agent_id (ms' ! 0)) (new_member_agent_id (ms' ! 1))) ms' d = Inr (r, d')"
    using ok by (auto simp: open_direct_pair_def result_simps Let_def)
  from validate_direct_members_Inr [OF v] obtain m1 m2 where
    two: "ms' = [m1, m2]" and lt: "new_member_agent_id m1 < new_member_agent_id m2" by auto
  let ?row = "\<lparr>c_id = uuid, c_name = ''direct-'' @ name_uuid, c_metadata = ''{}'',
    c_created_at_ms = now, c_kind = Direct,
    c_direct_pair_key = Some (direct_pair_key (new_member_agent_id m1) (new_member_agent_id m2)),
    c_archived_at_ms = None\<rparr>"
  consider "d' = d" | d1 where "insert_channel_row ?row d = Inr d1"
    "insert_initial_members uuid now ms' d1 = Inr d'"
    using o by (auto simp: open_direct_in_transaction_def insert_direct_pair_def result_simps
        Let_def two split: option.splits)
  then show ?thesis
  proof cases
    case 2
    show ?thesis
      by (rule channels_inv_new_channel [OF inv 2(1)]) (use 2(2) lt two in auto)
  qed (simp add: inv)
qed

text \<open>Memberships and read cursors.\<close>

lemma add_member_with_mode_effect:
  assumes "add_member_with_mode now cid aid mode d = Inr (u, d')"
  obtains "d' = d"
  | row where "row \<in> set (channels d)" "c_id row = cid" "c_kind row = Shared"
    "c_archived_at_ms row = None"
    "insert_member_row \<lparr>cm_channel_id = cid, cm_agent_id = aid, cm_joined_at_ms = now,
       cm_delivery_mode = mode, cm_read_through_seq = coalesce (sql_max (map m_seq
         (filter (\<lambda>m. m_channel_id m = cid) (messages d)))) 0\<rparr> d = Inr d'"
  using assms
  by (auto simp: add_member_with_mode_def result_simps dest!: find_in split: option.splits if_splits)

lemma coalesce_max_in: "coalesce (sql_max xs) 0 = 0 \<or> coalesce (sql_max xs) 0 \<in> set xs"
  using sql_max_in [of xs] by (cases "sql_max xs") auto

lemma channels_inv_add_member_with_mode:
  assumes inv: "channels_inv d" and ok: "add_member_with_mode now cid aid mode d = Inr (u, d')"
  shows "channels_inv d'"
  using ok
proof (rule add_member_with_mode_effect)
  fix row
  let ?seq = "coalesce (sql_max (map m_seq (filter (\<lambda>m. m_channel_id m = cid) (messages d)))) 0"
  let ?m = "\<lparr>cm_channel_id = cid, cm_agent_id = aid, cm_joined_at_ms = now, cm_delivery_mode = mode,
    cm_read_through_seq = ?seq\<rparr>"
  assume row: "row \<in> set (channels d)" "c_id row = cid" "c_kind row = Shared"
    and ins: "insert_member_row ?m d = Inr d'"
  have d': "d' = d\<lparr>channel_members := channel_members d @ [?m]\<rparr>"
    using insert_member_row_effect [OF ins] by simp
  have "directory_inv d'"
    using directory_inv_insert_member [OF _ ins] inv by (simp add: channels_inv_def)
  moreover have "direct_inv d'"
  proof -
    have "participants (c_id c) d' = participants (c_id c) d"
      if "c \<in> set (channels d)" "c_kind c = Direct" for c
    proof -
      have "c_id c \<noteq> cid" using that row inv by (auto simp: channels_inv_defs dest: unique_onD)
      then show ?thesis by (simp add: d' participants_def)
    qed
    then show ?thesis
      using inv unfolding channels_inv_def direct_inv_def
      by (auto simp: d' split: conversation_kind.splits)
  qed
  moreover have "cursor_inv d'"
    using inv coalesce_max_in [of "map m_seq (filter (\<lambda>m. m_channel_id m = cid) (messages d))"]
    by (auto simp: d' channels_inv_def cursor_inv_def)
  ultimately show ?thesis by (simp add: channels_inv_def)
qed (simp add: inv)

lemma advance_member_read_cursor_effect:
  assumes "advance_member_read_cursor cid aid seq d = Inr (v, d')"
  shows "0 \<le> seq"
    and "seq = 0 \<or> (\<exists>q\<in>set (messages d). m_channel_id q = cid \<and> m_seq q = seq)"
    and "d' = d\<lparr>channel_members := update_where (\<lambda>m. cm_channel_id m = cid \<and> cm_agent_id m = aid
        \<and> cm_read_through_seq m < seq) (\<lambda>m. m\<lparr>cm_read_through_seq := seq\<rparr>) (channel_members d)\<rparr>"
    and "\<exists>m\<in>set (channel_members d'). cm_channel_id m = cid \<and> cm_agent_id m = aid
        \<and> cm_read_through_seq m = v"
  using assms
  by (auto simp: advance_member_read_cursor_def result_simps Let_def dest!: find_in split: if_splits)

lemma channels_inv_advance_member_read_cursor:
  assumes inv: "channels_inv d" and ok: "advance_member_read_cursor cid aid seq d = Inr (v, d')"
  shows "channels_inv d'"
proof -
  note e = advance_member_read_cursor_effect [OF ok]
  have "directory_inv d'"
    using inv by (auto simp: e(3) channels_inv_def directory_inv_def unique_on_update exists_defs
        table_simps)
  moreover have "direct_inv d'"
  proof -
    have "participants c d' = participants c d" for c
      by (simp add: e(3) participants_def map_filter_update_where)
    moreover have "channels d' = channels d" by (simp add: e(3))
    ultimately show ?thesis
      using inv unfolding channels_inv_def direct_inv_def by (simp cong: conversation_kind.case_cong)
  qed
  moreover have "cursor_inv d'"
    using inv e(2) unfolding e(3) channels_inv_def cursor_inv_def
    by (simp add: ball_update_where)
  ultimately show ?thesis by (simp add: channels_inv_def)
qed

section \<open>Properties\<close>

text \<open>
  A durable read cursor never moves backwards and never passes the channel: after
  \<open>advance_member_read_cursor\<close> succeeds, the cursor of that member is the larger of the old value
  and the requested one, which is zero or the sequence of a committed message of that channel; the
  call returns the new value, and every other membership is as it was.
\<close>

theorem read_cursor_monotone:
  assumes "channels_inv d" and "advance_member_read_cursor cid aid seq d = Inr (v, d')"
  shows "\<exists>m\<in>set (channel_members d). cm_channel_id m = cid \<and> cm_agent_id m = aid
      \<and> v = max (cm_read_through_seq m) seq
      \<and> m\<lparr>cm_read_through_seq := v\<rparr> \<in> set (channel_members d')
      \<and> (seq = 0 \<or> (\<exists>q\<in>set (messages d). m_channel_id q = cid \<and> m_seq q = seq))
      \<and> (\<forall>r. cm_channel_id r \<noteq> cid \<or> cm_agent_id r \<noteq> aid
           \<longrightarrow> (r \<in> set (channel_members d') \<longleftrightarrow> r \<in> set (channel_members d)))"
proof -
  note e = advance_member_read_cursor_effect [OF assms(2)]
  from e(4) obtain m' where m': "m' \<in> set (channel_members d')" "cm_channel_id m' = cid"
      "cm_agent_id m' = aid" "cm_read_through_seq m' = v" by auto
  then obtain m where m: "m \<in> set (channel_members d)"
    and eq: "m' = (if cm_channel_id m = cid \<and> cm_agent_id m = aid \<and> cm_read_through_seq m < seq
      then m\<lparr>cm_read_through_seq := seq\<rparr> else m)"
    by (auto simp: e(3) in_update_where)
  have key: "cm_channel_id m = cid" "cm_agent_id m = aid"
    using eq m' by (auto split: if_splits)
  have v: "v = max (cm_read_through_seq m) seq" "m' = m\<lparr>cm_read_through_seq := v\<rparr>"
    using eq m' key by (auto split: if_splits)
  have "r \<in> set (channel_members d') \<longleftrightarrow> r \<in> set (channel_members d)"
    if "cm_channel_id r \<noteq> cid \<or> cm_agent_id r \<noteq> aid" for r
    using that by (auto simp: e(3) in_update_where)
  with m m' key v e(2) show ?thesis by blast
qed

lemma validate_direct_members_rev:
  "validate_direct_members ms = Inr ms' \<Longrightarrow> validate_direct_members (rev ms) = Inr ms'"
  by (auto simp: validate_direct_members_def Let_def numeral_2_eq_2 length_Suc_conv split: if_splits)

lemma ensure_direct_modes_match_new:
  assumes "\<And>m. m \<in> set (channel_members d) \<Longrightarrow> cm_channel_id m \<noteq> cid"
    and "new_member_agent_id m1 < new_member_agent_id m2"
  shows "ensure_direct_modes_match cid [m1, m2]
     (d\<lparr>channels := cs, channel_members :=
        channel_members d @ map (initial_member_row cid now) [m1, m2]\<rparr>) = Inr ()"
  using assms by (simp add: ensure_direct_modes_match_def initial_member_row_def order.strict_implies_order)

text \<open>
  A participant pair has one direct conversation, whatever the order the pair is named in:
  once \<open>open_direct_pair\<close> has succeeded, opening the same two members again, in either order and
  with whatever fresh identifiers and time, returns the same channel, reports that nothing was
  created and leaves the store as it is.
\<close>

theorem direct_pair_opens_once:
  assumes inv: "channels_inv d"
    and ok: "open_direct_pair uuid name_uuid now ms d = Inr ((c, b), d')"
    and ms2: "ms2 = ms \<or> ms2 = rev ms"
  shows "open_direct_pair uuid2 name_uuid2 now2 ms2 d' = Inr ((c, False), d')"
proof -
  let ?key = "\<lambda>ms'. direct_pair_key (new_member_agent_id (ms' ! 0)) (new_member_agent_id (ms' ! 1))"
  obtain ms' where v: "validate_direct_members ms = Inr ms'"
    and known: "try_fold (\<lambda>m _. ensure_exists a_id (agents d) ''agent'' (new_member_agent_id m)) ms' () = Inr ()"
    and o: "open_direct_in_transaction uuid name_uuid now (?key ms') ms' d = Inr ((c, b), d')"
    using ok by (auto simp: open_direct_pair_def result_simps Let_def)
  have v2: "validate_direct_members ms2 = Inr ms'" using ms2 v validate_direct_members_rev by blast
  from validate_direct_members_Inr [OF v] obtain m1 m2 where
    two: "ms' = [m1, m2]" and lt: "new_member_agent_id m1 < new_member_agent_id m2" by auto
  have "agents d' = agents d \<and>
    open_direct_in_transaction uuid2 name_uuid2 now2 (?key ms') ms' d' = Inr ((c, False), d')"
  proof (cases "find (\<lambda>c. c_direct_pair_key c = Some (?key ms')) (channels d)")
    case (Some row)
    then show ?thesis using o by (auto simp: open_direct_in_transaction_def result_simps)
  next
    case None
    let ?row = "\<lparr>c_id = uuid, c_name = ''direct-'' @ name_uuid, c_metadata = ''{}'',
      c_created_at_ms = now, c_kind = Direct, c_direct_pair_key = Some (?key ms'),
      c_archived_at_ms = None\<rparr>"
    obtain d1 where ins: "insert_channel_row ?row d = Inr d1"
      and mem: "insert_initial_members uuid now ms' d1 = Inr d'"
      and c: "channel_from_row ?row = Inr c"
      using o None by (auto simp: open_direct_in_transaction_def insert_direct_pair_def
          result_simps Let_def)
    have d': "d' = d\<lparr>channels := channels d @ [?row],
        channel_members := channel_members d @ map (initial_member_row uuid now) ms'\<rparr>"
      using insert_channel_row_effect [OF ins] insert_initial_members_effect [OF mem] by simp
    have found: "find (\<lambda>c. c_direct_pair_key c = Some (?key ms')) (channels d') = Some ?row"
      using None by (simp add: d' find_append_table)
    have fresh: "cm_channel_id m \<noteq> uuid" if "m \<in> set (channel_members d)" for m
      using no_members_of_new_channel [OF _ ins that] inv by (auto simp: channels_inv_def)
    have "ensure_direct_modes_match uuid ms' d' = Inr ()"
      unfolding d' two by (rule ensure_direct_modes_match_new [OF fresh lt])
    then have "open_direct_in_transaction uuid2 name_uuid2 now2 (?key ms') ms' d' = Inr ((c, False), d')"
      using c unfolding open_direct_in_transaction_def found by auto
    moreover have "agents d' = agents d" by (simp add: d')
    ultimately show ?thesis by simp
  qed
  then show ?thesis using known by (simp add: open_direct_pair_def v2 Let_def)
qed

end
