(* ===== verification/Messages.thy ===== *)
theory Messages
  imports Channels "HOL-Library.Multiset"
begin

text \<open>
  Messages: \<open>crates/kernel/src/store/message.rs\<close>.  Appending a message and snapshotting it into
  the inboxes of its addressees is one transaction; the sequence number comes from the store.

  The invariant: sequence numbers grow along the table and stay at or below the counter, message
  identities and idempotency keys are unique, and every delivery belongs to one message and one
  agent, once.  The properties: exactly the right inboxes get the message, an idempotent repeat
  returns the first message, and a page is the next slice of the channel.
\<close>

section \<open>Operations\<close>

record append_message_result =
  appended_message :: message
  appended_created :: bool

definition MAX_IDEMPOTENCY_KEY_LENGTH :: nat where
  "MAX_IDEMPOTENCY_KEY_LENGTH = 256"

definition message_from_row :: "message_row \<Rightarrow> message" where
  "message_from_row r = \<lparr>msg_seq = m_seq r, msg_id = m_id r, msg_channel_id = m_channel_id r,
     msg_sender_id = m_sender_id r, msg_recipient_id = m_recipient_id r, msg_kind = m_kind r,
     msg_payload = m_payload r, msg_correlation_id = m_correlation_id r,
     msg_causation_id = m_causation_id r, msg_created_at_ms = m_created_at_ms r\<rparr>"

definition validate_idempotency_key :: "string option \<Rightarrow> unit result" where
  "validate_idempotency_key key =
     (case key of
        None \<Rightarrow> Inr ()
      | Some k \<Rightarrow>
          if trim_is_empty k then Inl (Invalid ''idempotency key must not be empty'')
          else if length k > MAX_IDEMPOTENCY_KEY_LENGTH
          then Inl (Invalid (''idempotency key must not exceed ''
                 @ show_nat MAX_IDEMPOTENCY_KEY_LENGTH @ '' bytes''))
          else Inr ())"

definition message_matches_input :: "message \<Rightarrow> string \<Rightarrow> create_message \<Rightarrow> bool" where
  "message_matches_input m channel_id inp \<longleftrightarrow>
     msg_channel_id m = channel_id
     \<and> msg_sender_id m = new_sender_id inp
     \<and> msg_recipient_id m = new_recipient_id inp
     \<and> msg_kind m = new_kind inp
     \<and> msg_payload m = new_payload inp
     \<and> msg_correlation_id m = new_correlation_id inp
     \<and> msg_causation_id m = new_causation_id inp"

text \<open>A delivery as \<open>INSERT INTO agent_deliveries\<close> leaves it, the defaults of its table included.\<close>

definition new_delivery_row :: "i64 \<Rightarrow> string \<Rightarrow> i64 \<Rightarrow> delivery_row" where
  "new_delivery_row seq agent_id created_at =
     \<lparr>d_message_seq = seq, d_agent_id = agent_id, d_state = Pending, d_attempt = 0,
      d_available_at_ms = created_at, d_lease_token = None, d_lease_expires_at_ms = None,
      d_last_error = None, d_last_settled_lease_token = None, d_last_settlement = None,
      d_acknowledged_at_ms = None, d_created_at_ms = created_at\<rparr>"

definition snapshot_recipients :: "string \<Rightarrow> string \<Rightarrow> string option \<Rightarrow> db \<Rightarrow> string list" where
  "snapshot_recipients channel_id sender_id recipient_id d =
     (case recipient_id of
        Some recipient \<Rightarrow>
          map (\<lambda>m. recipient) (filter (\<lambda>m. cm_channel_id m = channel_id
            \<and> cm_agent_id m = recipient \<and> cm_delivery_mode m = Inbox) (channel_members d))
      | None \<Rightarrow>
          map cm_agent_id (filter (\<lambda>m. cm_channel_id m = channel_id
            \<and> cm_agent_id m \<noteq> sender_id \<and> cm_delivery_mode m = Inbox) (channel_members d)))"

definition insert_delivery_snapshot ::
  "string \<Rightarrow> string \<Rightarrow> string option \<Rightarrow> i64 \<Rightarrow> i64 \<Rightarrow> db \<Rightarrow> db result" where
  "insert_delivery_snapshot channel_id sender_id recipient_id seq created_at d =
     try_fold (\<lambda>agent_id. insert_delivery_row (new_delivery_row seq agent_id created_at))
       (snapshot_recipients channel_id sender_id recipient_id d) d"

text \<open>The row \<open>insert_message\<close> binds, at the sequence number SQLite gives it.\<close>

definition appended_row :: "string \<Rightarrow> i64 \<Rightarrow> string \<Rightarrow> create_message \<Rightarrow> i64 \<Rightarrow> message_row" where
  "appended_row uuid now channel_id inp seq = \<lparr>m_seq = seq, m_id = uuid, m_channel_id = channel_id,
     m_sender_id = new_sender_id inp, m_recipient_id = new_recipient_id inp,
     m_kind = new_kind inp, m_payload = new_payload inp,
     m_correlation_id = new_correlation_id inp, m_causation_id = new_causation_id inp,
     m_created_at_ms = now, m_idempotency_key = new_idempotency_key inp\<rparr>"

definition insert_message :: "string \<Rightarrow> i64 \<Rightarrow> string \<Rightarrow> create_message \<Rightarrow> message transaction" where
  "insert_message uuid now channel_id inp d =
     and_then (channel_row channel_id d) (\<lambda>row.
     and_then (channel_from_row row) (\<lambda>channel.
     if channel_archived_at_ms channel \<noteq> None
     then Inl (Conflict (''channel is archived: '' @ channel_id))
     else
       and_then (ensure_member channel_id (new_sender_id inp) d) (\<lambda>_.
       and_then (case new_recipient_id inp of
           None \<Rightarrow> Inr () | Some recipient \<Rightarrow> ensure_member channel_id recipient d) (\<lambda>_.
       and_then (insert_message_row (appended_row uuid now channel_id inp) d) (\<lambda>(seq, d).
       and_then (insert_delivery_snapshot channel_id (new_sender_id inp) (new_recipient_id inp)
           seq now d) (\<lambda>d.
       Inr (message_from_row (appended_row uuid now channel_id inp seq), d)))))))"

definition append_message_in_transaction ::
  "string \<Rightarrow> i64 \<Rightarrow> string \<Rightarrow> create_message \<Rightarrow> append_message_result transaction" where
  "append_message_in_transaction uuid now channel_id inp d =
     (if trim_is_empty (new_kind inp) then Inl (Invalid ''message kind must not be empty'')
      else
        and_then (validate_idempotency_key (new_idempotency_key inp)) (\<lambda>_.
        case (if new_idempotency_key inp = None then None
              else find (\<lambda>m. m_sender_id m = new_sender_id inp
                \<and> m_idempotency_key m = new_idempotency_key inp) (messages d)) of
          Some row \<Rightarrow>
            if \<not> message_matches_input (message_from_row row) channel_id inp
            then Inl (Conflict ''idempotency key was already used for a different message'')
            else Inr (\<lparr>appended_message = message_from_row row, appended_created = False\<rparr>, d)
        | None \<Rightarrow>
            and_then (insert_message uuid now channel_id inp d) (\<lambda>(m, d).
            Inr (\<lparr>appended_message = m, appended_created = True\<rparr>, d))))"

definition append_message_idempotent ::
  "string \<Rightarrow> i64 \<Rightarrow> string \<Rightarrow> create_message \<Rightarrow> append_message_result transaction" where
  "append_message_idempotent = append_message_in_transaction"

definition append_message :: "string \<Rightarrow> i64 \<Rightarrow> string \<Rightarrow> create_message \<Rightarrow> message transaction" where
  "append_message uuid now channel_id inp d =
     and_then (append_message_idempotent uuid now channel_id inp d) (\<lambda>(r, d).
     Inr (appended_message r, d))"

definition get_message :: "string \<Rightarrow> db \<Rightarrow> message result" where
  "get_message message_id d =
     and_then (ok_or (find (\<lambda>m. m_id m = message_id) (messages d))
       (NotFound ''message'' message_id)) (\<lambda>r. Inr (message_from_row r))"

definition clamp_page :: "u32 \<Rightarrow> nat" where
  "clamp_page limit = unat (max 1 (min 500 limit))"

definition list_messages :: "string \<Rightarrow> i64 \<Rightarrow> u32 \<Rightarrow> db \<Rightarrow> message_page result" where
  "list_messages channel_id after limit d =
     (if after < 0 then Inl (Invalid ''message cursor must not be negative'')
      else if rows_affected (\<lambda>c. c_id c = channel_id) (channels d) = 0
      then Inl (NotFound ''channel'' channel_id)
      else
        let msgs = map message_from_row (take (clamp_page limit) (sort_key m_seq
              (filter (\<lambda>m. m_channel_id m = channel_id \<and> m_seq m > after) (messages d)))) in
        Inr \<lparr>page_messages = msgs,
             page_next_cursor = (if msgs = [] then after else msg_seq (last msgs))\<rparr>)"

definition list_recent_messages_before :: "string \<Rightarrow> i64 \<Rightarrow> u32 \<Rightarrow> db \<Rightarrow> message list result" where
  "list_recent_messages_before channel_id before limit d =
     (if before \<le> 0 then Inl (Invalid ''message boundary must be greater than zero'')
      else if rows_affected (\<lambda>c. c_id c = channel_id) (channels d) = 0
      then Inl (NotFound ''channel'' channel_id)
      else Inr (rev (map message_from_row (take (clamp_page limit) (sort_key (\<lambda>m. - m_seq m)
              (filter (\<lambda>m. m_channel_id m = channel_id \<and> m_seq m < before) (messages d)))))))"

definition latest_channel_message_seq :: "string \<Rightarrow> db \<Rightarrow> i64 result" where
  "latest_channel_message_seq channel_id d =
     (if \<not> channel_exists channel_id d then Inl (NotFound ''channel'' channel_id)
      else Inr (coalesce (sql_max (map m_seq
             (filter (\<lambda>m. m_channel_id m = channel_id) (messages d)))) 0))"

section \<open>The invariant of messages and of the delivery table's keys\<close>

definition messages_inv :: "db \<Rightarrow> bool" where
  "messages_inv d \<longleftrightarrow>
     sorted_wrt (<) (map m_seq (messages d))
     \<and> (\<forall>m\<in>set (messages d). 0 < m_seq m \<and> m_seq m \<le> messages_sequence d)
     \<and> 0 \<le> messages_sequence d
     \<and> unique_on m_id (messages d)
     \<and> unique_on (\<lambda>m. (m_sender_id m, m_idempotency_key m))
         (filter (\<lambda>m. m_idempotency_key m \<noteq> None) (messages d))"

definition delivery_key :: "delivery_row \<Rightarrow> i64 \<times> string" where
  "delivery_key r = (d_message_seq r, d_agent_id r)"

text \<open>What no CHECK says: an attempt was counted before a delivery left \<open>Pending\<close>, and the settlement
  on record is an acknowledgement only of an acknowledged delivery.\<close>

definition delivery_standing :: "delivery_row \<Rightarrow> bool" where
  "delivery_standing r \<longleftrightarrow> (d_state r \<noteq> Pending \<longrightarrow> 0 < d_attempt r)
     \<and> (d_last_settlement r = Some ''acknowledged'' \<longrightarrow> d_state r = Acknowledged)"

definition deliveries_inv :: "db \<Rightarrow> bool" where
  "deliveries_inv d \<longleftrightarrow>
     unique_on delivery_key (agent_deliveries d)
     \<and> (\<forall>r\<in>set (agent_deliveries d).
          delivery_check r \<and> delivery_standing r
          \<and> message_seq_exists (d_message_seq r) d \<and> agent_exists (d_agent_id r) d)"

lemma messages_inv_empty: "messages_inv empty_db"
  by (simp add: messages_inv_def empty_db_def)

lemma deliveries_inv_empty: "deliveries_inv empty_db"
  by (simp add: deliveries_inv_def empty_db_def)

lemma messages_inv_cong:
  "messages d' = messages d \<Longrightarrow> messages_sequence d' = messages_sequence d \<Longrightarrow>
     messages_inv d' = messages_inv d"
  by (simp add: messages_inv_def)

lemma deliveries_inv_cong:
  assumes "deliveries_inv d" and "agent_deliveries d' = agent_deliveries d"
    and "set (messages d) \<subseteq> set (messages d')" and "set (agents d) \<subseteq> set (agents d')"
  shows "deliveries_inv d'"
  using assms unfolding deliveries_inv_def message_seq_exists_def agent_exists_def by fastforce

section \<open>What an append does\<close>

lemma insert_delivery_row_effect:
  "insert_delivery_row r d = Inr d' \<Longrightarrow>
     d' = d\<lparr>agent_deliveries := agent_deliveries d @ [r]\<rparr>
     \<and> delivery_key r \<notin> delivery_key ` set (agent_deliveries d)
     \<and> message_seq_exists (d_message_seq r) d \<and> agent_exists (d_agent_id r) d"
  by (auto simp: insert_delivery_row_def delivery_key_def split: if_splits)

lemma insert_deliveries_effect:
  "try_fold (\<lambda>a. insert_delivery_row (new_delivery_row seq a now)) as d = Inr d' \<Longrightarrow>
     d' = d\<lparr>agent_deliveries := agent_deliveries d @ map (\<lambda>a. new_delivery_row seq a now) as\<rparr>"
proof (induction as arbitrary: d)
  case (Cons a as)
  then obtain d1 where one: "insert_delivery_row (new_delivery_row seq a now) d = Inr d1"
    and rest: "try_fold (\<lambda>a. insert_delivery_row (new_delivery_row seq a now)) as d1 = Inr d'"
    by (auto simp: result_simps)
  from Cons.IH [OF rest] insert_delivery_row_effect [OF one] show ?case by simp
qed simp

lemma deliveries_inv_insert:
  assumes "deliveries_inv d" and "insert_delivery_row (new_delivery_row seq a now) d = Inr d'"
  shows "deliveries_inv d'"
  using assms(1) insert_delivery_row_effect [OF assms(2)]
  by (auto simp: deliveries_inv_def message_seq_exists_def agent_exists_def delivery_check_def
      delivery_standing_def new_delivery_row_def)

lemma insert_message_row_effect:
  "insert_message_row mk d = Inr (seq, d1) \<Longrightarrow>
     seq = messages_sequence d + 1
     \<and> d1 = d\<lparr>messages := messages d @ [mk seq], messages_sequence := seq\<rparr>
     \<and> m_id (mk seq) \<notin> m_id ` set (messages d)
     \<and> (m_idempotency_key (mk seq) \<noteq> None \<longrightarrow>
          (m_sender_id (mk seq), m_idempotency_key (mk seq))
            \<notin> (\<lambda>m. (m_sender_id m, m_idempotency_key m)) ` set (messages d))"
  by (auto simp: insert_message_row_def Let_def image_iff split: if_splits)

lemma appended_row_simps [simp]:
  "m_seq (appended_row u n c i s) = s" "m_id (appended_row u n c i s) = u"
  "m_channel_id (appended_row u n c i s) = c" "m_sender_id (appended_row u n c i s) = new_sender_id i"
  "m_recipient_id (appended_row u n c i s) = new_recipient_id i"
  "m_idempotency_key (appended_row u n c i s) = new_idempotency_key i"
  by (simp_all add: appended_row_def)

lemma insert_message_effect:
  assumes "insert_message uuid now cid inp d = Inr (m, d')"
  obtains row d1 where
    "row \<in> set (channels d)" "c_id row = cid" "c_archived_at_ms row = None"
    "\<exists>s\<in>set (channel_members d). cm_channel_id s = cid \<and> cm_agent_id s = new_sender_id inp"
    "\<forall>a. new_recipient_id inp = Some a \<longrightarrow>
       (\<exists>s\<in>set (channel_members d). cm_channel_id s = cid \<and> cm_agent_id s = a)"
    "insert_message_row (appended_row uuid now cid inp) d = Inr (messages_sequence d + 1, d1)"
    "insert_delivery_snapshot cid (new_sender_id inp) (new_recipient_id inp)
       (messages_sequence d + 1) now d1 = Inr d'"
    "m = message_from_row (appended_row uuid now cid inp (messages_sequence d + 1))"
proof -
  obtain row seq d1 where f: "find (\<lambda>c. c_id c = cid) (channels d) = Some row"
    and facts: "c_archived_at_ms row = None"
      "ensure_member cid (new_sender_id inp) d = Inr ()"
      "(case new_recipient_id inp of None \<Rightarrow> Inr () | Some r \<Rightarrow> ensure_member cid r d) = Inr ()"
      "insert_message_row (appended_row uuid now cid inp) d = Inr (seq, d1)"
      "insert_delivery_snapshot cid (new_sender_id inp) (new_recipient_id inp) seq now d1 = Inr d'"
      "m = message_from_row (appended_row uuid now cid inp seq)"
    using assms
    by (auto simp: insert_message_def and_then_eq_Inr channel_row_Inr split: if_splits)
  have seq: "seq = messages_sequence d + 1" using insert_message_row_effect [OF facts(4)] by simp
  show ?thesis
    by (rule that [of row d1]) (use f facts seq in \<open>auto simp: result_simps dest!: find_in\<close>)
qed

lemma snapshot_recipients_cong:
  "channel_members d' = channel_members d \<Longrightarrow>
     snapshot_recipients cid s r d' = snapshot_recipients cid s r d"
  by (simp add: snapshot_recipients_def cong: option.case_cong)

lemma insert_message_store:
  assumes "insert_message uuid now cid inp d = Inr (m, d')"
  shows "d' = d\<lparr>messages := messages d @ [appended_row uuid now cid inp (messages_sequence d + 1)],
      messages_sequence := messages_sequence d + 1,
      agent_deliveries := agent_deliveries d @
        map (\<lambda>a. new_delivery_row (messages_sequence d + 1) a now)
          (snapshot_recipients cid (new_sender_id inp) (new_recipient_id inp) d)\<rparr>"
  using assms
proof (rule insert_message_effect)
  fix row d1
  assume ins: "insert_message_row (appended_row uuid now cid inp) d = Inr (messages_sequence d + 1, d1)"
    and snap: "insert_delivery_snapshot cid (new_sender_id inp) (new_recipient_id inp)
       (messages_sequence d + 1) now d1 = Inr d'"
  show ?thesis
    using insert_message_row_effect [OF ins] snapshot_recipients_cong [of d1 d]
      insert_deliveries_effect [OF snap [unfolded insert_delivery_snapshot_def]]
    by simp
qed

lemma messages_inv_snoc:
  assumes inv: "messages_inv d" and ins: "insert_message_row mk d = Inr (seq, d1)" and "m_seq (mk seq) = seq"
  shows "messages_inv d1"
proof -
  note e = insert_message_row_effect [OF ins]
  have "sorted_wrt (<) (map m_seq (messages d @ [mk seq]))"
    using inv e assms(3) by (auto simp: messages_inv_def sorted_wrt_append)
  moreover have "unique_on (\<lambda>m. (m_sender_id m, m_idempotency_key m))
      (filter (\<lambda>m. m_idempotency_key m \<noteq> None) (messages d @ [mk seq]))"
    using inv e by (auto simp: messages_inv_def)
  ultimately show ?thesis using inv e assms(3) by (auto simp: messages_inv_def)
qed

lemma insert_message_invs:
  assumes ok: "insert_message uuid now cid inp d = Inr (m, d')"
  shows "channels_inv d \<Longrightarrow> channels_inv d'" and "messages_inv d \<Longrightarrow> messages_inv d'"
    and "deliveries_inv d \<Longrightarrow> deliveries_inv d'"
proof -
  note d' = insert_message_store [OF ok]
  obtain d1 where ins: "insert_message_row (appended_row uuid now cid inp) d = Inr (messages_sequence d + 1, d1)"
    and snap: "insert_delivery_snapshot cid (new_sender_id inp) (new_recipient_id inp)
       (messages_sequence d + 1) now d1 = Inr d'"
    using ok by (rule insert_message_effect)
  have d1: "d1 = d\<lparr>messages := messages d @ [appended_row uuid now cid inp (messages_sequence d + 1)],
      messages_sequence := messages_sequence d + 1\<rparr>"
    using insert_message_row_effect [OF ins] by simp
  show "channels_inv d \<Longrightarrow> channels_inv d'"
    by (erule channels_inv_cong) (auto simp: d')
  show "messages_inv d'" if "messages_inv d"
    using messages_inv_snoc [OF that ins] messages_inv_cong [of d' d1] by (simp add: d' d1)
  show "deliveries_inv d'" if "deliveries_inv d"
  proof -
    have "deliveries_inv d1" using that by (rule deliveries_inv_cong) (auto simp: d1)
    with snap show ?thesis
      unfolding insert_delivery_snapshot_def by (rule try_fold_invariant) (rule deliveries_inv_insert)
  qed
qed

lemma append_message_cases:
  assumes "append_message_in_transaction uuid now cid inp d = Inr (r, d')"
  obtains (replay) row where "row \<in> set (messages d)" "m_sender_id row = new_sender_id inp"
      "m_idempotency_key row = new_idempotency_key inp" "new_idempotency_key inp \<noteq> None"
      "r = \<lparr>appended_message = message_from_row row, appended_created = False\<rparr>" "d' = d"
      "message_matches_input (message_from_row row) cid inp"
  | (created) m where "insert_message uuid now cid inp d = Inr (m, d')"
      "r = \<lparr>appended_message = m, appended_created = True\<rparr>"
proof -
  define hit where "hit = (if new_idempotency_key inp = None then None
    else find (\<lambda>m. m_sender_id m = new_sender_id inp
      \<and> m_idempotency_key m = new_idempotency_key inp) (messages d))"
  show thesis
  proof (cases hit)
    case None
    then show thesis
      using assms created unfolding append_message_in_transaction_def hit_def [symmetric]
      by (auto simp: and_then_eq_Inr split: if_splits)
  next
    case (Some row)
    then have key: "new_idempotency_key inp \<noteq> None"
      and found: "find (\<lambda>m. m_sender_id m = new_sender_id inp
        \<and> m_idempotency_key m = new_idempotency_key inp) (messages d) = Some row"
      unfolding hit_def by (simp_all split: if_splits)
    then have row: "row \<in> set (messages d)" "m_sender_id row = new_sender_id inp"
      "m_idempotency_key row = new_idempotency_key inp" using find_in [OF found] by simp_all
    have res: "message_matches_input (message_from_row row) cid inp"
      "r = \<lparr>appended_message = message_from_row row, appended_created = False\<rparr>" "d' = d"
      using assms Some unfolding append_message_in_transaction_def hit_def [symmetric]
      by (simp_all add: and_then_eq_Inr split: if_splits)
    show thesis by (rule replay [OF row key res(2,3,1)])
  qed
qed

lemma append_message_invs:
  assumes "append_message_in_transaction uuid now cid inp d = Inr (r, d')"
  shows "channels_inv d \<Longrightarrow> channels_inv d'" and "messages_inv d \<Longrightarrow> messages_inv d'"
    and "deliveries_inv d \<Longrightarrow> deliveries_inv d'"
  by (use assms in \<open>cases rule: append_message_cases; simp add: insert_message_invs\<close>)+

section \<open>Properties\<close>

lemma snapshot_recipients_set:
  "set (snapshot_recipients cid sender recipient d) =
     {a. \<exists>s\<in>set (channel_members d). cm_channel_id s = cid \<and> cm_agent_id s = a
          \<and> cm_delivery_mode s = Inbox
          \<and> (case recipient of None \<Rightarrow> a \<noteq> sender | Some r \<Rightarrow> a = r)}"
  by (auto simp: snapshot_recipients_def split: option.splits)

lemma distinct_snapshot_recipients:
  assumes "channels_inv d"
  shows "distinct (snapshot_recipients cid sender recipient d)"
proof -
  let ?ms = "filter (\<lambda>s. cm_channel_id s = cid) (channel_members d)"
  have "unique_on (\<lambda>s. (cm_channel_id s, cm_agent_id s)) ?ms"
    using assms by (auto simp: channels_inv_defs intro: unique_on_filter)
  then have "unique_on cm_agent_id ?ms"
    by (auto simp: unique_on_def distinct_map inj_on_def)
  then have u: "unique_on cm_agent_id (filter Q ?ms)" for Q by (rule unique_on_filter)
  show ?thesis
  proof (cases recipient)
    case None
    then show ?thesis using u [of "\<lambda>s. cm_agent_id s \<noteq> sender \<and> cm_delivery_mode s = Inbox"]
      by (simp add: snapshot_recipients_def unique_on_def conj_ac)
  next
    case (Some r)
    let ?fs = "filter (\<lambda>s. cm_agent_id s = r \<and> cm_delivery_mode s = Inbox) ?ms"
    have "map (\<lambda>s. r) ?fs = map cm_agent_id ?fs" by (rule map_cong) auto
    moreover have "distinct (map cm_agent_id ?fs)"
      using u [of "\<lambda>s. cm_agent_id s = r \<and> cm_delivery_mode s = Inbox"] by (simp add: unique_on_def)
    ultimately have "distinct (map (\<lambda>s. r) ?fs)" by (simp only:)
    then show ?thesis using Some by (simp add: snapshot_recipients_def conj_ac)
  qed
qed

text \<open>
  C22.  A created message is delivered to exactly the right inboxes: it gets the next sequence
  number, and the deliveries it adds are one pending delivery with no attempt for each inbox member
  of the channel other than the sender, or, when it names a recipient, for that recipient alone if
  it takes inbox deliveries; members that only follow the stream get none, and no delivery that was
  there changes.
\<close>

theorem append_snapshot_exact:
  assumes "channels_inv d"
    and "append_message_in_transaction uuid now cid inp d = Inr (r, d')" and "appended_created r"
  shows "\<exists>as. msg_seq (appended_message r) = messages_sequence d + 1
    \<and> agent_deliveries d' = agent_deliveries d @
        map (\<lambda>a. new_delivery_row (messages_sequence d + 1) a now) as
    \<and> distinct as
    \<and> set as = {a. \<exists>s\<in>set (channel_members d). cm_channel_id s = cid \<and> cm_agent_id s = a
          \<and> cm_delivery_mode s = Inbox
          \<and> (case new_recipient_id inp of None \<Rightarrow> a \<noteq> new_sender_id inp | Some r \<Rightarrow> a = r)}"
  using assms(2)
proof (cases rule: append_message_cases)
  case (created m)
  have "msg_seq m = messages_sequence d + 1"
    using created(1) by (rule insert_message_effect) (simp add: message_from_row_def)
  then show ?thesis
    using insert_message_store [OF created(1)] created(2)
      distinct_snapshot_recipients [OF assms(1)] snapshot_recipients_set [of cid _ _ d]
    by (intro exI [of _ "snapshot_recipients cid (new_sender_id inp) (new_recipient_id inp) d"]) simp
qed (use assms(3) in simp)

lemma appended_in_store:
  assumes "append_message_in_transaction uuid now cid inp d = Inr (r, d')"
  shows "\<exists>row\<in>set (messages d'). appended_message r = message_from_row row
    \<and> m_sender_id row = new_sender_id inp \<and> m_idempotency_key row = new_idempotency_key inp
    \<and> message_matches_input (message_from_row row) cid inp"
  using assms
proof (cases rule: append_message_cases)
  case (created m)
  let ?row = "appended_row uuid now cid inp (messages_sequence d + 1)"
  have "m = message_from_row ?row" using created(1) by (rule insert_message_effect)
  moreover have "?row \<in> set (messages d')" using insert_message_store [OF created(1)] by simp
  moreover have "message_matches_input (message_from_row ?row) cid inp"
    by (simp add: message_matches_input_def message_from_row_def appended_row_def)
  ultimately show ?thesis using created(2) by (intro bexI [of _ ?row]) auto
qed auto

lemma find_idempotent:
  assumes "messages_inv d" and "row \<in> set (messages d)" and "m_idempotency_key row \<noteq> None"
  shows "find (\<lambda>m. m_sender_id m = m_sender_id row
    \<and> m_idempotency_key m = m_idempotency_key row) (messages d) = Some row"
proof -
  let ?P = "\<lambda>m. m_sender_id m = m_sender_id row \<and> m_idempotency_key m = m_idempotency_key row"
  obtain q where q: "find ?P (messages d) = Some q"
    using assms(2) by (cases "find ?P (messages d)") (auto simp: find_None_iff)
  then have "q \<in> set (messages d)" and "?P q" using find_in [OF q] by simp_all
  then have "q = row"
    using assms by (intro unique_onD [of "\<lambda>m. (m_sender_id m, m_idempotency_key m)"
          "filter (\<lambda>m. m_idempotency_key m \<noteq> None) (messages d)"])
      (auto simp: messages_inv_def)
  with q show ?thesis by simp
qed

lemma append_replays:
  assumes "append_message_in_transaction uuid now cid inp d = Inr (r, d1)"
    and "new_idempotency_key inp \<noteq> None" and "messages_inv d'" and "set (messages d1) \<subseteq> set (messages d')"
    and "new_sender_id inp' = new_sender_id inp" and "new_idempotency_key inp' = new_idempotency_key inp"
    and "\<not> trim_is_empty (new_kind inp')"
  shows "append_message_in_transaction uuid' now' cid' inp' d' =
      (if message_matches_input (appended_message r) cid' inp'
       then Inr (\<lparr>appended_message = appended_message r, appended_created = False\<rparr>, d')
       else Inl (Conflict ''idempotency key was already used for a different message''))
    \<and> message_matches_input (appended_message r) cid inp"
proof -
  obtain row where row: "row \<in> set (messages d1)" "appended_message r = message_from_row row"
    "m_sender_id row = new_sender_id inp" "m_idempotency_key row = new_idempotency_key inp"
    "message_matches_input (message_from_row row) cid inp"
    using appended_in_store [OF assms(1)] by auto
  have "find (\<lambda>m. m_sender_id m = new_sender_id inp
      \<and> m_idempotency_key m = new_idempotency_key inp) (messages d') = Some row"
    using find_idempotent [OF assms(3), of row] row assms(2,4) by auto
  moreover have "validate_idempotency_key (new_idempotency_key inp) = Inr ()"
    using assms(1) by (simp add: append_message_in_transaction_def and_then_eq_Inr split: if_splits)
  moreover obtain k where "new_idempotency_key inp = Some k" using assms(2) by blast
  ultimately show ?thesis
    using assms(5-7) row by (simp add: append_message_in_transaction_def)
qed


text \<open>Reading a channel.\<close>

definition channel_after :: "string \<Rightarrow> i64 \<Rightarrow> db \<Rightarrow> message_row list" where
  "channel_after cid after d = filter (\<lambda>m. m_channel_id m = cid \<and> after < m_seq m) (messages d)"

lemma clamp_page_bounds: "1 \<le> clamp_page limit \<and> clamp_page limit \<le> 500"
  unfolding clamp_page_def by (simp add: max_def min_def word_le_nat_alt unat_eq_zero)

lemma sort_key_sorted_table:
  "sorted_wrt (<) (map m_seq rs) \<Longrightarrow> sort_key m_seq rs = rs"
  by (rule sort_key_id_if_sorted) (simp add: strict_sorted_imp_sorted)

lemma sorted_filter_table:
  "sorted_wrt (<) (map m_seq rs) \<Longrightarrow> sorted_wrt (<) (map m_seq (filter P rs))"
  by (simp add: sorted_wrt_map sorted_wrt_filter)

lemma filter_after_last:
  assumes "sorted_wrt (<) (map m_seq rs)" and "take n rs \<noteq> []"
  shows "filter (\<lambda>m. m_seq (last (take n rs)) < m_seq m) rs = drop n rs"
proof -
  let ?k = "last (take n rs)"
  have split: "rs = butlast (take n rs) @ [?k] @ drop n rs"
    using assms(2) by (metis append_assoc append_butlast_last_id append_take_drop_id)
  have "sorted_wrt (\<lambda>a b. m_seq a < m_seq b) (butlast (take n rs) @ [?k] @ drop n rs)"
    using assms(1) split by (simp add: sorted_wrt_map)
  then have "\<forall>a\<in>set (butlast (take n rs)). m_seq a < m_seq ?k" "\<forall>b\<in>set (drop n rs). m_seq ?k < m_seq b"
    by (auto simp: sorted_wrt_append)
  then have "filter (\<lambda>m. m_seq ?k < m_seq m) (butlast (take n rs) @ [?k] @ drop n rs) = drop n rs"
    by (auto simp: filter_empty_conv not_less_iff_gr_or_eq)
  then show ?thesis using split by metis
qed

lemma list_messages_page:
  assumes "messages_inv d" and "list_messages cid after limit d = Inr p"
  shows "page_messages p = map message_from_row (take (clamp_page limit) (channel_after cid after d))"
    and "channel_after cid (page_next_cursor p) d = drop (clamp_page limit) (channel_after cid after d)"
proof -
  let ?n = "clamp_page limit" and ?L = "channel_after cid after d"
  have L: "sorted_wrt (<) (map m_seq ?L)"
    using assms(1) by (simp add: channel_after_def messages_inv_def sorted_filter_table)
  have "sort_key m_seq (filter (\<lambda>m. m_channel_id m = cid \<and> m_seq m > after) (messages d)) = ?L"
    using sort_key_sorted_table [OF L] by (simp add: channel_after_def)
  then have p: "page_messages p = map message_from_row (take ?n ?L)"
    "page_next_cursor p = (if take ?n ?L = [] then after else m_seq (last (take ?n ?L)))"
    using assms(2) by (auto simp: list_messages_def Let_def last_map message_from_row_def split: if_splits)
  have "channel_after cid (page_next_cursor p) d = drop ?n ?L"
  proof (cases "take ?n ?L = []")
    case True
    then show ?thesis using clamp_page_bounds [of limit] p(2) by simp
  next
    case False
    let ?k = "m_seq (last (take ?n ?L))"
    have "last (take ?n ?L) \<in> set ?L" using False by (meson in_set_takeD last_in_set)
    then have "after < ?k" by (simp add: channel_after_def)
    then have "channel_after cid ?k d = filter (\<lambda>m. ?k < m_seq m) ?L"
      by (auto simp: channel_after_def intro!: filter_cong)
    with filter_after_last [OF L False] False p(2) show ?thesis by simp
  qed
  with p(1) show "page_messages p = map message_from_row (take ?n ?L)" "channel_after cid (page_next_cursor p) d = drop ?n ?L"
    by auto
qed

text \<open>
  Paging a channel loses nothing and repeats nothing: a page holds the next messages of the
  channel after the cursor, oldest first and between one and five hundred at most, and what follows
  the returned cursor is exactly what follows the page.
\<close>

theorem pages_chain:
  assumes "messages_inv d" and "list_messages cid after limit d = Inr p"
  shows "\<exists>n. 1 \<le> n \<and> n \<le> 500
    \<and> page_messages p = map message_from_row (take n (channel_after cid after d))
    \<and> channel_after cid (page_next_cursor p) d = drop n (channel_after cid after d)"
  using list_messages_page [OF assms] clamp_page_bounds [of limit] by blast

end
