(* ===== verification/Delivery.thy ===== *)
theory Delivery
  imports Messages
begin

text \<open>
  The delivery row and its state machine: \<open>crates/kernel/src/delivery.rs\<close>.  A transition returns
  whether the row moved, together with the store; what else commits with it is decided by the
  components above.

  The five settlements share one contract, the locale \<open>settlement\<close>: they touch only the delivery
  they are addressed to, and that one only while the caller's lease holds it.
\<close>

section \<open>Validation\<close>

definition MAX_CLAIM_LIMIT :: u32 where "MAX_CLAIM_LIMIT = 100"

definition MAX_LEASE_DURATION_MS :: u64 where "MAX_LEASE_DURATION_MS = 3600000"

definition MAX_RETRY_DELAY_MS :: u64 where "MAX_RETRY_DELAY_MS = 86400000"

definition MAX_ERROR_LENGTH :: nat where "MAX_ERROR_LENGTH = 4096"

definition validate_claim :: "claim_deliveries_input \<Rightarrow> unit result" where
  "validate_claim inp =
     (if claim_limit inp = 0 \<or> claim_limit inp > MAX_CLAIM_LIMIT
      then Inl (Invalid (''claim limit must be between 1 and '' @ show_nat (unat MAX_CLAIM_LIMIT)))
      else if claim_lease_duration_ms inp = 0 \<or> claim_lease_duration_ms inp > MAX_LEASE_DURATION_MS
      then Inl (Invalid (''lease duration must be between 1 and ''
             @ show_nat (unat MAX_LEASE_DURATION_MS) @ '' milliseconds''))
      else Inr ())"

definition validate_token :: "string \<Rightarrow> unit result" where
  "validate_token lease_token =
     (if trim_is_empty lease_token then Inl (Invalid ''lease token must not be empty'') else Inr ())"

definition validate_evidence :: "string \<Rightarrow> string option \<Rightarrow> unit result" where
  "validate_evidence label value =
     (case value of
        None \<Rightarrow> Inr ()
      | Some v \<Rightarrow>
          if length v > MAX_ERROR_LENGTH
          then Inl (Invalid (label @ '' must not exceed '' @ show_nat MAX_ERROR_LENGTH @ '' bytes''))
          else if trim_is_empty v then Inl (Invalid (label @ '' must not be empty''))
          else Inr ())"

definition validate_retry :: "retry_delivery_input \<Rightarrow> unit result" where
  "validate_retry inp =
     and_then (validate_token (retry_lease_token inp)) (\<lambda>_.
     if retry_after_ms inp > MAX_RETRY_DELAY_MS
     then Inl (Invalid (''retry delay must not exceed '' @ show_nat (unat MAX_RETRY_DELAY_MS)
            @ '' milliseconds''))
     else if (case retry_error inp of None \<Rightarrow> False | Some e \<Rightarrow> length e > MAX_ERROR_LENGTH)
     then Inl (Invalid (''retry error must not exceed '' @ show_nat MAX_ERROR_LENGTH @ '' bytes''))
     else Inr ())"

definition validate_block :: "block_delivery_input \<Rightarrow> unit result" where
  "validate_block inp =
     and_then (validate_token (block_lease_token inp)) (\<lambda>_.
     validate_evidence ''block reason'' (Some (block_reason inp)))"

definition validate_resolution :: "i64 \<Rightarrow> resolve_block_input \<Rightarrow> unit result" where
  "validate_resolution block_id inp =
     (if block_id \<le> 0 then Inl (Invalid ''delivery block ID must be positive'')
      else if resolve_retry_after_ms inp > MAX_RETRY_DELAY_MS
      then Inl (Invalid (''retry delay must not exceed '' @ show_nat (unat MAX_RETRY_DELAY_MS)
             @ '' milliseconds''))
      else if resolve_resolution inp = Abandon \<and> resolve_retry_after_ms inp \<noteq> 0
      then Inl (Invalid ''abandoned blocks cannot have a retry delay'')
      else validate_evidence ''resolution note'' (resolve_note inp))"

definition ensure_agent :: "string \<Rightarrow> db \<Rightarrow> unit result" where
  "ensure_agent agent_id d =
     (if rows_affected (\<lambda>a. a_id a = agent_id) (agents d) = 0
      then Inl (NotFound ''agent'' agent_id) else Inr ())"

section \<open>Reading deliveries\<close>

text \<open>\<open>agent_deliveries d JOIN messages m ON m.seq = d.message_seq\<close>.\<close>

definition delivery_join :: "db \<Rightarrow> (delivery_row \<times> message_row) list" where
  "delivery_join d = [(r, m). r \<leftarrow> agent_deliveries d, m \<leftarrow> messages d, m_seq m = d_message_seq r]"

definition settle_miss :: "string \<Rightarrow> string \<Rightarrow> string \<Rightarrow> string \<Rightarrow> db \<Rightarrow> unit result" where
  "settle_miss agent_id message_id lease_token expected d =
     (case find (\<lambda>(r, m). d_agent_id r = agent_id \<and> m_id m = message_id) (delivery_join d) of
        None \<Rightarrow> Inl (NotFound ''delivery'' (agent_id @ ''/'' @ message_id))
      | Some (r, m) \<Rightarrow>
          if d_last_settled_lease_token r = Some lease_token \<and> d_last_settlement r = Some expected
          then Inr ()
          else Inl (LeaseConflict ''lease is expired, invalid, or owned by another worker''))"

definition delivery_from_row :: "delivery_row \<times> message_row \<Rightarrow> delivery result" where
  "delivery_from_row = (\<lambda>(r, m).
     and_then (ok_or (d_lease_expires_at_ms r) (Database ColumnDecode)) (\<lambda>expiry.
     Inr \<lparr>delivery_message = message_from_row m, delivery_attempt = d_attempt r,
          delivery_lease_expires_at_ms = expiry, delivery_last_error = d_last_error r\<rparr>))"

definition leased_batch :: "string \<Rightarrow> string \<Rightarrow> db \<Rightarrow> delivery list result" where
  "leased_batch agent_id lease_token d =
     try_fold (\<lambda>r ds. and_then (delivery_from_row r) (\<lambda>x. Inr (ds @ [x])))
       (sort_key (\<lambda>(r, m). m_seq m)
         (filter (\<lambda>(r, m). d_agent_id r = agent_id \<and> d_state r = Leased
            \<and> d_lease_token r = Some lease_token) (delivery_join d))) []"

definition delivery_record_from_row ::
  "i64 \<Rightarrow> (delivery_row \<times> message_row) \<times> i64 option \<Rightarrow> delivery_record result" where
  "delivery_record_from_row now = (\<lambda>((r, m), block).
     let stored = delivery_state_as_str (d_state r) in
     and_then (ok_or (delivery_state_parse stored)
         (Invalid (''stored delivery state is invalid: '' @ stored))) (\<lambda>state.
     Inr \<lparr>rec_agent_id = d_agent_id r, rec_message = message_from_row m, rec_state = state,
          rec_attempt = d_attempt r, rec_available_at_ms = d_available_at_ms r,
          rec_lease_expires_at_ms = d_lease_expires_at_ms r,
          rec_lease_expired = (state = Leased \<and> (case d_lease_expires_at_ms r of
             None \<Rightarrow> False | Some expiry \<Rightarrow> expiry \<le> now)),
          rec_last_error = d_last_error r, rec_created_at_ms = d_created_at_ms r,
          rec_acknowledged_at_ms = d_acknowledged_at_ms r, rec_unresolved_block_id = block\<rparr>))"

text \<open>The LEFT JOIN of a delivery with its unresolved blocks.\<close>

definition unresolved_block_ids :: "delivery_row \<Rightarrow> db \<Rightarrow> i64 list" where
  "unresolved_block_ids r d =
     map b_id (filter (\<lambda>b. b_message_seq b = d_message_seq r \<and> b_agent_id b = d_agent_id r
       \<and> b_resolved_at_ms b = None) (delivery_blocks d))"

definition list_deliveries ::
  "i64 \<Rightarrow> string option \<Rightarrow> delivery_state option \<Rightarrow> u32 \<Rightarrow> db \<Rightarrow> delivery_record list result" where
  "list_deliveries now agent_id state limit d =
     (if limit = 0 \<or> limit > 500
      then Inl (Invalid ''delivery list limit must be between 1 and 500'')
      else
        let rows = filter (\<lambda>(r, m). (agent_id = None \<or> agent_id = Some (d_agent_id r))
              \<and> (state = None \<or> state = Some (d_state r))) (delivery_join d);
            joined = [((r, m), b). (r, m) \<leftarrow> rows,
              b \<leftarrow> (if unresolved_block_ids r d = [] then [None]
                   else map Some (unresolved_block_ids r d))] in
        try_fold (\<lambda>x rs. and_then (delivery_record_from_row now x) (\<lambda>y. Inr (rs @ [y])))
          (take (unat limit) (sort_key (\<lambda>((r, m), b). (m_seq m, d_agent_id r)) joined)) [])"

text \<open>Which rows a claim may take, as the WHERE clause of \<open>lease_claimable\<close> has it.\<close>

definition claimable :: "string \<Rightarrow> i64 \<Rightarrow> delivery_row \<Rightarrow> bool" where
  "claimable agent_id now r \<longleftrightarrow>
     d_agent_id r = agent_id
     \<and> d_available_at_ms r \<le> now
     \<and> (d_state r = Pending
        \<or> d_state r = Leased
          \<and> (case d_lease_expires_at_ms r of None \<Rightarrow> False | Some expiry \<Rightarrow> expiry \<le> now))"

definition newest_claimable_delivery_message_after ::
  "i64 \<Rightarrow> string \<Rightarrow> string \<Rightarrow> i64 \<Rightarrow> string list \<Rightarrow> db \<Rightarrow> message option result" where
  "newest_claimable_delivery_message_after now agent_id channel_id after kinds d =
     (if after < 0 then Inl (Invalid ''delivery message cursor must not be negative'')
      else if kinds = [] then Inl (Invalid ''delivery message-kind selector must not be empty'')
      else
        Inr (case sort_key (\<lambda>(r, m). - m_seq m)
                 (filter (\<lambda>(r, m). claimable agent_id now r \<and> m_channel_id m = channel_id
                    \<and> m_seq m > after \<and> m_kind m \<in> set kinds) (delivery_join d)) of
               [] \<Rightarrow> None
             | (r, m) # _ \<Rightarrow> Some (message_from_row m)))"

section \<open>Leasing\<close>

text \<open>
  A \<open>rowid\<close> of the delivery table is identified by the primary key of its row.
\<close>

definition leasable_rows :: "string \<Rightarrow> i64 \<Rightarrow> u32 \<Rightarrow> string list option \<Rightarrow> db \<Rightarrow> delivery_row list" where
  "leasable_rows agent_id now limit kinds d =
     take (unat limit) (sort_key d_message_seq
       (map fst (filter (\<lambda>(r, m). claimable agent_id now r
          \<and> (case kinds of None \<Rightarrow> True | Some ks \<Rightarrow> m_kind m \<in> set ks)) (delivery_join d))))"

definition lease_row :: "string \<Rightarrow> i64 \<Rightarrow> delivery_row \<Rightarrow> delivery_row" where
  "lease_row lease_token expires r = r\<lparr>d_state := Leased, d_attempt := d_attempt r + 1,
     d_lease_token := Some lease_token, d_lease_expires_at_ms := Some expires\<rparr>"

definition lease_claimable ::
  "string \<Rightarrow> string \<Rightarrow> i64 \<Rightarrow> i64 \<Rightarrow> u32 \<Rightarrow> string list option \<Rightarrow> db \<Rightarrow> db" where
  "lease_claimable agent_id lease_token expires now limit kinds d =
     (let chosen = map delivery_key (leasable_rows agent_id now limit kinds d) in
      d\<lparr>agent_deliveries := update_where (\<lambda>r. delivery_key r \<in> set chosen)
          (lease_row lease_token expires) (agent_deliveries d)\<rparr>)"

section \<open>Settling\<close>

datatype delivery_address = MessageId string | Seq i64

datatype lease_window = Live | Expired

record leased_row =
  lr_key :: delivery_address
  lr_agent_id :: string
  lr_lease_token :: string
  lr_window :: lease_window
  lr_now :: i64

fun address_predicate :: "delivery_address \<Rightarrow> db \<Rightarrow> delivery_row \<Rightarrow> bool" where
  "address_predicate (MessageId mid) d r =
     (case find (\<lambda>m. m_id m = mid) (messages d) of
        None \<Rightarrow> False | Some m \<Rightarrow> d_message_seq r = m_seq m)"
| "address_predicate (Seq seq) d r = (d_message_seq r = seq)"

fun window_predicate :: "lease_window \<Rightarrow> i64 \<Rightarrow> i64 option \<Rightarrow> bool" where
  "window_predicate Live now (Some expires) = (expires > now)"
| "window_predicate Expired now (Some expires) = (expires \<le> now)"
| "window_predicate _ now None = False"

definition leased_row_matches :: "leased_row \<Rightarrow> db \<Rightarrow> delivery_row \<Rightarrow> bool" where
  "leased_row_matches lr d r \<longleftrightarrow>
     address_predicate (lr_key lr) d r
     \<and> d_agent_id r = lr_agent_id lr
     \<and> d_state r = Leased
     \<and> d_lease_token r = Some (lr_lease_token lr)
     \<and> window_predicate (lr_window lr) (lr_now lr) (d_lease_expires_at_ms r)"

definition leased_row_update ::
  "leased_row \<Rightarrow> (delivery_row \<Rightarrow> delivery_row) \<Rightarrow> db \<Rightarrow> bool \<times> db" where
  "leased_row_update lr set_row d =
     (rows_affected (leased_row_matches lr d) (agent_deliveries d) = 1,
      d\<lparr>agent_deliveries := update_where (leased_row_matches lr d) set_row (agent_deliveries d)\<rparr>)"

definition acknowledge_row :: "string \<Rightarrow> i64 \<Rightarrow> delivery_row \<Rightarrow> delivery_row" where
  "acknowledge_row lease_token now r = r\<lparr>d_state := Acknowledged, d_lease_token := None,
     d_lease_expires_at_ms := None, d_last_settled_lease_token := Some lease_token,
     d_last_settlement := Some ''acknowledged'', d_acknowledged_at_ms := Some now\<rparr>"

definition retry_row :: "retry_delivery_input \<Rightarrow> i64 \<Rightarrow> delivery_row \<Rightarrow> delivery_row" where
  "retry_row inp available_at r = r\<lparr>d_state := Pending, d_available_at_ms := available_at,
     d_lease_token := None, d_lease_expires_at_ms := None, d_last_error := retry_error inp,
     d_last_settled_lease_token := Some (retry_lease_token inp),
     d_last_settlement := Some ''retry'', d_acknowledged_at_ms := None\<rparr>"

definition blocked_row :: "string \<Rightarrow> string \<Rightarrow> delivery_row \<Rightarrow> delivery_row" where
  "blocked_row lease_token reason r = r\<lparr>d_state := Blocked, d_lease_token := None,
     d_lease_expires_at_ms := None, d_last_error := Some reason,
     d_last_settled_lease_token := Some lease_token, d_last_settlement := Some ''blocked'',
     d_acknowledged_at_ms := None\<rparr>"

definition mark_acknowledged :: "string \<Rightarrow> string \<Rightarrow> string \<Rightarrow> i64 \<Rightarrow> db \<Rightarrow> bool \<times> db" where
  "mark_acknowledged agent_id message_id lease_token now =
     leased_row_update \<lparr>lr_key = MessageId message_id, lr_agent_id = agent_id,
       lr_lease_token = lease_token, lr_window = Live, lr_now = now\<rparr>
       (acknowledge_row lease_token now)"

definition mark_retry ::
  "string \<Rightarrow> string \<Rightarrow> retry_delivery_input \<Rightarrow> i64 \<Rightarrow> i64 \<Rightarrow> db \<Rightarrow> bool \<times> db" where
  "mark_retry agent_id message_id inp available_at now =
     leased_row_update \<lparr>lr_key = MessageId message_id, lr_agent_id = agent_id,
       lr_lease_token = retry_lease_token inp, lr_window = Live, lr_now = now\<rparr>
       (retry_row inp available_at)"

definition mark_blocked :: "string \<Rightarrow> string \<Rightarrow> block_delivery_input \<Rightarrow> i64 \<Rightarrow> db \<Rightarrow> bool \<times> db" where
  "mark_blocked agent_id message_id inp now =
     leased_row_update \<lparr>lr_key = MessageId message_id, lr_agent_id = agent_id,
       lr_lease_token = block_lease_token inp, lr_window = Live, lr_now = now\<rparr>
       (blocked_row (block_lease_token inp) (block_reason inp))"

definition block_expired_lease ::
  "string \<Rightarrow> i64 \<Rightarrow> string \<Rightarrow> string \<Rightarrow> i64 \<Rightarrow> db \<Rightarrow> bool \<times> db" where
  "block_expired_lease agent_id seq lease_token reason now =
     leased_row_update \<lparr>lr_key = Seq seq, lr_agent_id = agent_id,
       lr_lease_token = lease_token, lr_window = Expired, lr_now = now\<rparr>
       (blocked_row lease_token reason)"

definition acknowledge_leased_seq :: "string \<Rightarrow> i64 \<Rightarrow> string \<Rightarrow> i64 \<Rightarrow> db \<Rightarrow> bool \<times> db" where
  "acknowledge_leased_seq agent_id seq lease_token now =
     leased_row_update \<lparr>lr_key = Seq seq, lr_agent_id = agent_id,
       lr_lease_token = lease_token, lr_window = Live, lr_now = now\<rparr>
       (acknowledge_row lease_token now)"

section \<open>Block records\<close>

definition new_block_row ::
  "i64 \<Rightarrow> string \<Rightarrow> i64 \<Rightarrow> string \<Rightarrow> string \<Rightarrow> i64 \<Rightarrow> i64 \<Rightarrow> block_row" where
  "new_block_row seq agent_id attempt lease_token reason blocked_at bid =
     \<lparr>b_id = bid, b_message_seq = seq, b_agent_id = agent_id, b_attempt = attempt,
      b_lease_token = lease_token, b_reason = reason, b_blocked_at_ms = blocked_at,
      b_resolved_at_ms = None, b_resolution = None, b_resolution_note = None,
      b_retry_after_ms = None\<rparr>"

definition record_block ::
  "i64 \<Rightarrow> string \<Rightarrow> i64 \<Rightarrow> string \<Rightarrow> string \<Rightarrow> i64 \<Rightarrow> db \<Rightarrow> db result" where
  "record_block seq agent_id attempt lease_token reason blocked_at d =
     and_then (insert_block_row (new_block_row seq agent_id attempt lease_token reason blocked_at) d)
       (\<lambda>(_, d). Inr d)"

definition insert_block_record ::
  "string \<Rightarrow> string \<Rightarrow> block_delivery_input \<Rightarrow> i64 \<Rightarrow> i64 transaction" where
  "insert_block_record agent_id message_id inp blocked_at d =
     (case filter (\<lambda>(r, m). d_agent_id r = agent_id \<and> m_id m = message_id \<and> d_state r = Blocked)
             (delivery_join d) of
        [(r, m)] \<Rightarrow> insert_block_row (new_block_row (d_message_seq r) (d_agent_id r) (d_attempt r)
            (block_lease_token inp) (block_reason inp) blocked_at) d
      | _ \<Rightarrow> Inl (LeaseConflict ''blocked delivery changed before evidence was recorded''))"

text \<open>\<open>blocked_delivery_select\<close>: the blocks joined with their messages.\<close>

definition blocked_delivery_select :: "db \<Rightarrow> (block_row \<times> message_row) list" where
  "blocked_delivery_select d =
     [(b, m). b \<leftarrow> delivery_blocks d, m \<leftarrow> messages d, m_seq m = b_message_seq b]"

definition blocked_delivery_from_row :: "block_row \<times> message_row \<Rightarrow> blocked_delivery" where
  "blocked_delivery_from_row = (\<lambda>(b, m).
     \<lparr>blocked_block_id = b_id b, blocked_agent_id = b_agent_id b,
      blocked_message = message_from_row m, blocked_attempt = b_attempt b,
      blocked_reason = b_reason b, blocked_blocked_at_ms = b_blocked_at_ms b\<rparr>)"

definition list_blocked_deliveries :: "string option \<Rightarrow> db \<Rightarrow> blocked_delivery list" where
  "list_blocked_deliveries agent_id d =
     map blocked_delivery_from_row (take 500 (sort_key (\<lambda>(b, m). (b_blocked_at_ms b, b_id b))
       (filter (\<lambda>(b, m). b_resolved_at_ms b = None
          \<and> (case agent_id of None \<Rightarrow> True | Some a \<Rightarrow> b_agent_id b = a))
         (blocked_delivery_select d))))"

definition blocked_delivery_by_id :: "i64 \<Rightarrow> db \<Rightarrow> blocked_delivery result" where
  "blocked_delivery_by_id block_id d =
     ok_or (map_option blocked_delivery_from_row
         (find (\<lambda>(b, m). b_id b = block_id) (blocked_delivery_select d)))
       (NotFound ''delivery block'' (show_int block_id))"

definition blocked_delivery_by_lease ::
  "string \<Rightarrow> string \<Rightarrow> string \<Rightarrow> db \<Rightarrow> (blocked_delivery \<times> string) option" where
  "blocked_delivery_by_lease agent_id message_id lease_token d =
     map_option (\<lambda>(b, m). (blocked_delivery_from_row (b, m), b_reason b))
       (find (\<lambda>(b, m). b_agent_id b = agent_id \<and> m_id m = message_id
          \<and> b_lease_token b = lease_token) (blocked_delivery_select d))"

fun resolution_name :: "block_resolution \<Rightarrow> string" where
  "resolution_name Requeue = ''requeued''"
| "resolution_name Abandon = ''abandoned''"

definition resolution_row :: "i64 \<Rightarrow> db \<Rightarrow> (block_row \<times> delivery_row) result" where
  "resolution_row block_id d =
     ok_or (find (\<lambda>(b, r). b_id b = block_id)
         [(b, r). b \<leftarrow> delivery_blocks d, r \<leftarrow> agent_deliveries d,
            d_message_seq r = b_message_seq b \<and> d_agent_id r = b_agent_id b])
       (NotFound ''delivery block'' (show_int block_id))"

definition resolution_is_replay :: "block_row \<Rightarrow> resolve_block_input \<Rightarrow> i64 \<Rightarrow> bool result" where
  "resolution_is_replay b inp retry_after =
     (if b_resolved_at_ms b = None then Inr False
      else if b_resolution b = Some (resolution_name (resolve_resolution inp))
        \<and> b_resolution_note b = resolve_note inp \<and> b_retry_after_ms b = Some retry_after
      then Inr True
      else Inl (Conflict ''delivery block was already resolved differently''))"

fun resolved_delivery ::
  "block_resolution \<Rightarrow> i64 \<Rightarrow> string option \<Rightarrow> delivery_row \<Rightarrow> delivery_row" where
  "resolved_delivery Requeue available_at note r = r\<lparr>d_state := Pending,
     d_available_at_ms := available_at,
     d_last_error := (case note of None \<Rightarrow> d_last_error r | Some n \<Rightarrow> Some n),
     d_last_settled_lease_token := None, d_last_settlement := None\<rparr>"
| "resolved_delivery Abandon available_at note r = r\<lparr>d_state := Dead,
     d_last_error := (case note of None \<Rightarrow> d_last_error r | Some n \<Rightarrow> Some n),
     d_last_settled_lease_token := None, d_last_settlement := None\<rparr>"

definition resolve_delivery_row ::
  "block_row \<Rightarrow> resolve_block_input \<Rightarrow> i64 \<Rightarrow> i64 \<Rightarrow> db \<Rightarrow> db result" where
  "resolve_delivery_row b inp retry_after now d =
     (let P = \<lambda>r. d_message_seq r = b_message_seq b \<and> d_agent_id r = b_agent_id b
            \<and> d_state r = Blocked in
      and_then (case resolve_resolution inp of
          Requeue \<Rightarrow> ok_or (checked_add_i64 now retry_after) (Invalid ''retry time overflowed'')
        | Abandon \<Rightarrow> Inr now) (\<lambda>available_at.
      if rows_affected P (agent_deliveries d) \<noteq> 1
      then Inl (Conflict ''delivery block changed during resolution'')
      else Inr (d\<lparr>agent_deliveries := update_where P
             (resolved_delivery (resolve_resolution inp) available_at (resolve_note inp))
             (agent_deliveries d)\<rparr>)))"

definition resolve_block_row :: "resolve_block_input \<Rightarrow> i64 \<Rightarrow> i64 \<Rightarrow> block_row \<Rightarrow> block_row" where
  "resolve_block_row inp retry_after now b = b\<lparr>b_resolved_at_ms := Some now,
     b_resolution := Some (resolution_name (resolve_resolution inp)),
     b_resolution_note := resolve_note inp, b_retry_after_ms := Some retry_after\<rparr>"

definition resolve_delivery_block_transaction ::
  "i64 \<Rightarrow> resolve_block_input \<Rightarrow> i64 \<Rightarrow> db \<Rightarrow> db result" where
  "resolve_delivery_block_transaction block_id inp now d =
     and_then (validate_resolution block_id inp) (\<lambda>_.
     and_then (ok_or (i64_try_from (resolve_retry_after_ms inp))
         (Invalid ''retry delay is too large'')) (\<lambda>retry_after.
     and_then (resolution_row block_id d) (\<lambda>(b, r).
     and_then (resolution_is_replay b inp retry_after) (\<lambda>replay.
     if replay then Inr d
     else if d_state r \<noteq> Blocked
     then Inl (Conflict ''delivery block is not the current unresolved block'')
     else
       and_then (resolve_delivery_row b inp retry_after now d) (\<lambda>d.
       let P = \<lambda>b. b_id b = block_id \<and> b_resolved_at_ms b = None in
       if rows_affected P (delivery_blocks d) \<noteq> 1
       then Inl (Conflict ''delivery block changed during resolution'')
       else Inr (d\<lparr>delivery_blocks := update_where P (resolve_block_row inp retry_after now)
              (delivery_blocks d)\<rparr>))))))"

text \<open>\<open>Store::resolve_delivery_block\<close>, the transaction alone.\<close>

definition store_resolve_delivery_block :: "i64 \<Rightarrow> i64 \<Rightarrow> resolve_block_input \<Rightarrow> unit transaction" where
  "store_resolve_delivery_block now block_id inp d =
     and_then (resolve_delivery_block_transaction block_id inp now d) (\<lambda>d. Inr ((), d))"

section \<open>The delivery of a key\<close>

definition delivery_at :: "i64 \<times> string \<Rightarrow> db \<Rightarrow> delivery_row option" where
  "delivery_at k d = find (\<lambda>r. delivery_key r = k) (agent_deliveries d)"

lemma delivery_at_cong: "agent_deliveries d' = agent_deliveries d \<Longrightarrow> delivery_at k d' = delivery_at k d"
  by (simp add: delivery_at_def)

lemma delivery_at_key: "delivery_at k d = Some r \<Longrightarrow> r \<in> set (agent_deliveries d) \<and> delivery_key r = k"
  unfolding delivery_at_def by (rule find_key_in)

lemma delivery_at_iff:
  "deliveries_inv d \<Longrightarrow>
     delivery_at k d = Some r \<longleftrightarrow> r \<in> set (agent_deliveries d) \<and> delivery_key r = k"
  unfolding delivery_at_def deliveries_inv_def by (rule find_key_iff) simp

lemma delivery_at_exists: "delivery_exists seq a d \<longleftrightarrow> delivery_at (seq, a) d \<noteq> None"
  by (auto simp: delivery_exists_def delivery_at_def delivery_key_def find_None_iff)

lemma delivery_at_update:
  assumes "\<And>r. delivery_key (f r) = delivery_key r"
  shows "delivery_at k (d\<lparr>agent_deliveries := update_where P f (agent_deliveries d)\<rparr>) =
    map_option (\<lambda>r. if P r then f r else r) (delivery_at k d)"
  using assms by (simp add: delivery_at_def find_key_update_where)

lemma delivery_at_check: "deliveries_inv d \<Longrightarrow> delivery_at k d = Some r \<Longrightarrow> delivery_check r"
  by (auto simp: deliveries_inv_def dest: delivery_at_key)

lemma delivery_key_simps [simp]:
  "delivery_key (lease_row t e r) = delivery_key r"
  "delivery_key (acknowledge_row t n r) = delivery_key r"
  "delivery_key (retry_row inp n r) = delivery_key r"
  "delivery_key (blocked_row t reason r) = delivery_key r"
  "delivery_key (resolved_delivery res n note r) = delivery_key r"
  by (cases res; simp add: delivery_key_def lease_row_def acknowledge_row_def retry_row_def
      blocked_row_def)+

lemma deliveries_inv_update:
  assumes inv: "deliveries_inv d" and key: "\<And>r. delivery_key (f r) = delivery_key r"
    and row: "\<And>r. r \<in> set (agent_deliveries d) \<Longrightarrow> P r \<Longrightarrow> delivery_check r \<Longrightarrow>
      delivery_standing r \<Longrightarrow> delivery_check (f r) \<and> delivery_standing (f r)"
  shows "deliveries_inv (d\<lparr>agent_deliveries := update_where P f (agent_deliveries d)\<rparr>)"
proof -
  have keys: "d_message_seq (f r) = d_message_seq r" "d_agent_id (f r) = d_agent_id r" for r
    using key [of r] by (auto simp: delivery_key_def)
  show ?thesis
    unfolding deliveries_inv_def
  proof (intro conjI ballI)
    show "unique_on delivery_key (agent_deliveries
        (d\<lparr>agent_deliveries := update_where P f (agent_deliveries d)\<rparr>))"
      using inv key by (simp add: deliveries_inv_def unique_on_update)
  next
    fix q
    assume "q \<in> set (agent_deliveries (d\<lparr>agent_deliveries := update_where P f (agent_deliveries d)\<rparr>))"
    then obtain r where r: "r \<in> set (agent_deliveries d)" "q = (if P r then f r else r)"
      by (auto simp: in_update_where)
    then have old: "delivery_check r" "delivery_standing r"
      "message_seq_exists (d_message_seq r) d" "agent_exists (d_agent_id r) d"
      using inv by (auto simp: deliveries_inv_def)
    show "delivery_check q" "delivery_standing q"
      using r old row [OF r(1)] by auto
    show "message_seq_exists (d_message_seq q) (d\<lparr>agent_deliveries := update_where P f (agent_deliveries d)\<rparr>)"
      "agent_exists (d_agent_id q) (d\<lparr>agent_deliveries := update_where P f (agent_deliveries d)\<rparr>)"
      using r old keys by (auto simp: message_seq_exists_def agent_exists_def)
  qed
qed

section \<open>The settlement contract\<close>

text \<open>The key of the one delivery a \<open>LeasedRow\<close> can match.\<close>

definition leased_row_target :: "leased_row \<Rightarrow> db \<Rightarrow> i64 \<times> string" where
  "leased_row_target lr d =
     (case lr_key lr of
        Seq seq \<Rightarrow> (seq, lr_agent_id lr)
      | MessageId mid \<Rightarrow> (case find (\<lambda>m. m_id m = mid) (messages d) of
            None \<Rightarrow> (0, lr_agent_id lr) | Some m \<Rightarrow> (m_seq m, lr_agent_id lr)))"

lemma leased_row_matches_target:
  "leased_row_matches lr d r \<Longrightarrow> delivery_key r = leased_row_target lr d"
  by (cases "lr_key lr")
    (auto simp: leased_row_matches_def leased_row_target_def delivery_key_def split: option.splits)

text \<open>
  The life of a delivery: the abstract state machine over its state and its attempt number that the
  operations implement.  An acknowledged or dead delivery has no way on, and only the resolution of
  a block leads out of \<open>Blocked\<close>.
\<close>

inductive life_step :: "delivery_state \<times> i64 \<Rightarrow> delivery_state \<times> i64 \<Rightarrow> bool" where
  lease: "life_step (Pending, n) (Leased, n + 1)"
| lease_again: "life_step (Leased, n) (Leased, n + 1)"
| settle: "st \<in> {Acknowledged, Pending, Blocked} \<Longrightarrow> life_step (Leased, n) (st, n)"
| resolve: "st \<in> {Pending, Dead} \<Longrightarrow> life_step (Blocked, n) (st, n)"

inductive_cases life_step_closed: "life_step (Acknowledged, n) q" "life_step (Dead, n) q"

lemma life_steps:
  "life_step\<^sup>*\<^sup>* (Pending, n) (Leased, n + 1)" "life_step\<^sup>*\<^sup>* (Leased, n) (Leased, n + 1)"
  "st \<in> {Acknowledged, Pending, Blocked} \<Longrightarrow> life_step\<^sup>*\<^sup>* (Leased, n) (st, n)"
  "st \<in> {Pending, Dead} \<Longrightarrow> life_step\<^sup>*\<^sup>* (Blocked, n) (st, n)"
  by (rule r_into_rtranclp, simp add: life_step.lease life_step.lease_again life_step.settle life_step.resolve)+

definition phase :: "delivery_row \<Rightarrow> delivery_state \<times> i64" where
  "phase r = (d_state r, d_attempt r)"

locale settlement =
  fixes lr :: leased_row and set_row :: "delivery_row \<Rightarrow> delivery_row"
  assumes set_row_key: "delivery_key (set_row r) = delivery_key r"
    and set_row_attempt: "d_attempt (set_row r) = d_attempt r"
    and set_row_settles: "d_state (set_row r) \<in> {Acknowledged, Pending, Blocked}"
    and set_row_check: "delivery_check r \<Longrightarrow> delivery_check (set_row r)"
    and set_row_recorded: "d_last_settlement (set_row r) = Some ''acknowledged'' \<Longrightarrow> d_state (set_row r) = Acknowledged"

sublocale settlement \<subseteq> target: addressed_update delivery_key "leased_row_target lr d"
  "leased_row_matches lr d" set_row for d
  by unfold_locales (auto intro: leased_row_matches_target set_row_key)

context settlement
begin

lemma settled_at:
  assumes "leased_row_update lr set_row d = (moved, d')"
  shows "delivery_at k d' =
    map_option (\<lambda>r. if leased_row_matches lr d r then set_row r else r) (delivery_at k d)"
  using assms by (auto simp: leased_row_update_def delivery_at_update set_row_key)

lemma settled_frame:
  assumes "leased_row_update lr set_row d = (moved, d')"
  shows "d' = d\<lparr>agent_deliveries := agent_deliveries d'\<rparr>"
  using assms by (auto simp: leased_row_update_def)

lemma settled_others:
  assumes "leased_row_update lr set_row d = (moved, d')" and "k \<noteq> leased_row_target lr d"
  shows "delivery_at k d' = delivery_at k d"
  using assms(2) leased_row_matches_target [of lr d]
  by (cases "delivery_at k d") (auto simp: settled_at [OF assms(1)] dest: delivery_at_key)

lemma settled_row:
  assumes "deliveries_inv d" and "leased_row_update lr set_row d = (True, d')"
  obtains r where "delivery_at (leased_row_target lr d) d = Some r" and "leased_row_matches lr d r"
    and "delivery_at (leased_row_target lr d) d' = Some (set_row r)"
proof -
  have "rows_affected (leased_row_matches lr d) (agent_deliveries d) = 1"
    using assms(2) by (simp add: leased_row_update_def)
  then obtain r where "r \<in> set (agent_deliveries d)" and m: "leased_row_matches lr d r"
    using target.affects_one assms(1) by (auto simp: deliveries_inv_def)
  then have "delivery_at (leased_row_target lr d) d = Some r"
    using assms(1) leased_row_matches_target by (simp add: delivery_at_iff)
  with m show thesis using that settled_at [OF assms(2)] by simp
qed

lemma settled_inv:
  assumes "deliveries_inv d" and "leased_row_update lr set_row d = (moved, d')"
  shows "deliveries_inv d'"
proof -
  have "d' = d\<lparr>agent_deliveries := update_where (leased_row_matches lr d) set_row (agent_deliveries d)\<rparr>"
    using assms(2) by (simp add: leased_row_update_def)
  then show ?thesis
    using assms(1) set_row_check set_row_recorded
    by (auto intro!: deliveries_inv_update simp: set_row_key set_row_attempt leased_row_matches_def delivery_standing_def)
qed

text \<open>A settlement that misses changes nothing.\<close>

lemma settled_miss:
  assumes "deliveries_inv d" and "leased_row_update lr set_row d = (False, d')"
  shows "d' = d"
proof -
  have "rows_affected (leased_row_matches lr d) (agent_deliveries d) \<noteq> 1"
    using assms(2) by (simp add: leased_row_update_def)
  then have "\<forall>r\<in>set (agent_deliveries d). \<not> leased_row_matches lr d r"
    using target.affects_one assms(1) by (auto simp: deliveries_inv_def)
  then have "update_where (leased_row_matches lr d) set_row (agent_deliveries d) = agent_deliveries d"
    by (intro update_where_None) auto
  then show ?thesis using assms(2) by (simp add: leased_row_update_def)
qed

text \<open>A lease settles a delivery once: the same settlement misses afterwards.\<close>

lemma settles_once:
  assumes "leased_row_update lr set_row d = (moved, d')"
  shows "leased_row_update lr set_row d' = (False, d')"
proof -
  have d': "d' = d\<lparr>agent_deliveries := update_where (leased_row_matches lr d) set_row (agent_deliveries d)\<rparr>"
    using assms by (simp add: leased_row_update_def)
  have addr: "address_predicate (lr_key lr) d' r = address_predicate (lr_key lr) d r" for r
    by (cases "lr_key lr") (simp_all add: d')
  have "\<not> leased_row_matches lr d' r" if r: "r \<in> set (agent_deliveries d')" for r
  proof -
    from r obtain q where q: "r = (if leased_row_matches lr d q then set_row q else q)"
      by (auto simp: d' in_update_where)
    show ?thesis
    proof (cases "leased_row_matches lr d q")
      case True
      then show ?thesis using q set_row_settles [of q] by (auto simp: leased_row_matches_def)
    next
      case False
      with q have "r = q" by simp
      with False show ?thesis by (simp add: leased_row_matches_def addr)
    qed
  qed
  then show ?thesis by (simp add: leased_row_update_def rows_affected_def filter_empty_conv)
qed

end

interpretation acknowledge: settlement lr "acknowledge_row lease_token now" for lr lease_token now
  by unfold_locales (simp_all, auto simp: acknowledge_row_def checks)

interpretation retry: settlement lr "retry_row inp available_at" for lr inp available_at
  by unfold_locales (simp_all, auto simp: retry_row_def checks)

interpretation block: settlement lr "blocked_row lease_token reason" for lr lease_token reason
  by unfold_locales (simp_all, auto simp: blocked_row_def checks)

lemmas settlement_defs = mark_acknowledged_def mark_retry_def mark_blocked_def
  block_expired_lease_def acknowledge_leased_seq_def

section \<open>Leasing, again\<close>

lemma delivery_join_mem:
  "(r, m) \<in> set (delivery_join d) \<longleftrightarrow>
     r \<in> set (agent_deliveries d) \<and> m \<in> set (messages d) \<and> m_seq m = d_message_seq r"
  by (auto simp: delivery_join_def)

lemma leasable_rows_claimable:
  "r \<in> set (leasable_rows a now limit kinds d) \<Longrightarrow>
     r \<in> set (agent_deliveries d) \<and> claimable a now r"
  by (auto simp: leasable_rows_def delivery_join_mem dest!: in_set_takeD)

lemma delivery_at_lease:
  "delivery_at k (lease_claimable a token expires now limit kinds d) =
     map_option (\<lambda>r. if k \<in> delivery_key ` set (leasable_rows a now limit kinds d)
       then lease_row token expires r else r) (delivery_at k d)"
proof -
  have "delivery_at k (lease_claimable a token expires now limit kinds d) =
      map_option (\<lambda>r. if delivery_key r \<in> delivery_key ` set (leasable_rows a now limit kinds d)
        then lease_row token expires r else r) (delivery_at k d)"
    by (simp add: lease_claimable_def Let_def delivery_at_update)
  then show ?thesis by (cases "delivery_at k d") (auto dest: delivery_at_key)
qed

lemma leased_was_claimable:
  assumes "deliveries_inv d" and "delivery_at k d = Some r"
    and "k \<in> delivery_key ` set (leasable_rows a now limit kinds d)"
  shows "claimable a now r"
proof -
  from assms(3) obtain q where q: "q \<in> set (leasable_rows a now limit kinds d)" "delivery_key q = k"
    by auto
  then have "delivery_at k d = Some q"
    using leasable_rows_claimable [OF q(1)] assms(1) by (simp add: delivery_at_iff)
  with assms(2) have "q = r" by simp
  then show ?thesis using leasable_rows_claimable [OF q(1)] by simp
qed

lemma deliveries_inv_lease:
  assumes "deliveries_inv d"
  shows "deliveries_inv (lease_claimable a token expires now limit kinds d)"
  unfolding lease_claimable_def Let_def using assms
proof (rule deliveries_inv_update)
  fix r
  assume r: "r \<in> set (agent_deliveries d)" "delivery_key r \<in> set (map delivery_key (leasable_rows a now limit kinds d))"
    "delivery_check r" "delivery_standing r"
  then have "claimable a now r" using leased_was_claimable [OF assms, of "delivery_key r"] assms by (simp add: delivery_at_iff)
  then show "delivery_check (lease_row token expires r) \<and> delivery_standing (lease_row token expires r)"
    using r(3,4) by (auto simp: lease_row_def checks delivery_standing_def claimable_def)
qed simp

section \<open>The invariant of block records\<close>

definition block_key :: "block_row \<Rightarrow> i64 \<times> string" where
  "block_key b = (b_message_seq b, b_agent_id b)"

text \<open>What the state of a delivery says about a block record of it.\<close>

definition block_link :: "block_row \<Rightarrow> delivery_row \<Rightarrow> bool" where
  "block_link b r \<longleftrightarrow>
     b_attempt b \<le> d_attempt r
     \<and> (b_resolution b = None \<longrightarrow> d_state r = Blocked \<and> d_attempt r = b_attempt b
          \<and> d_last_settled_lease_token r = Some (b_lease_token b))
     \<and> (b_resolution b = Some ''abandoned'' \<longrightarrow> d_state r = Dead)"

definition blocks_inv :: "db \<Rightarrow> bool" where
  "blocks_inv d \<longleftrightarrow>
     unique_on b_id (delivery_blocks d)
     \<and> (\<forall>b\<in>set (delivery_blocks d). b_id b \<le> delivery_blocks_sequence d)
     \<and> unique_on (\<lambda>b. (b_message_seq b, b_agent_id b, b_lease_token b)) (delivery_blocks d)
     \<and> (\<forall>b\<in>set (delivery_blocks d). block_check b
          \<and> (\<exists>r. delivery_at (block_key b) d = Some r \<and> block_link b r))
     \<and> (\<forall>k r. delivery_at k d = Some r \<and> d_state r = Blocked \<longrightarrow>
          (\<exists>b\<in>set (delivery_blocks d). block_key b = k \<and> b_resolution b = None))"

lemma blocks_inv_empty: "blocks_inv empty_db"
  by (simp add: blocks_inv_def empty_db_def delivery_at_def)

lemma blocks_inv_cong:
  assumes "blocks_inv d" and "delivery_blocks d' = delivery_blocks d"
    and "delivery_blocks_sequence d' = delivery_blocks_sequence d"
    and "agent_deliveries d' = agent_deliveries d"
  shows "blocks_inv d'"
  using assms(1) unfolding blocks_inv_def assms(2,3) delivery_at_cong [OF assms(4)] .

lemma blocked_has_block:
  assumes "blocks_inv d" and "delivery_at k d = Some r" and "d_state r = Blocked"
  shows "\<exists>b\<in>set (delivery_blocks d). block_key b = k \<and> b_resolution b = None"
  using assms unfolding blocks_inv_def by blast

lemma block_linked:
  assumes "blocks_inv d" and "b \<in> set (delivery_blocks d)"
  obtains r where "delivery_at (block_key b) d = Some r" and "block_link b r" and "block_check b"
  using assms unfolding blocks_inv_def by blast

text \<open>
  A transition that moves only deliveries that are neither blocked nor dead, and leaves none of
  them blocked, keeps the link between deliveries and block records.
\<close>

lemma blocks_inv_step:
  assumes inv: "blocks_inv d"
    and same: "delivery_blocks d' = delivery_blocks d"
      "delivery_blocks_sequence d' = delivery_blocks_sequence d"
    and old: "\<And>k r. delivery_at k d = Some r \<Longrightarrow>
      \<exists>r'. delivery_at k d' = Some r' \<and> d_attempt r \<le> d_attempt r'
        \<and> (r' = r \<or> d_state r \<notin> {Blocked, Dead})"
    and new: "\<And>k r'. delivery_at k d' = Some r' \<Longrightarrow> d_state r' = Blocked \<Longrightarrow> delivery_at k d = Some r'"
  shows "blocks_inv d'"
proof -
  have "\<exists>r. delivery_at (block_key b) d' = Some r \<and> block_link b r"
    if "b \<in> set (delivery_blocks d)" for b
  proof -
    from inv that obtain r where r: "delivery_at (block_key b) d = Some r" "block_link b r"
      by (rule block_linked)
    from old [OF r(1)] obtain r' where "delivery_at (block_key b) d' = Some r'"
      "d_attempt r \<le> d_attempt r'" "r' = r \<or> d_state r \<notin> {Blocked, Dead}" by blast
    with r(2) show ?thesis by (auto simp: block_link_def)
  qed
  moreover have "\<exists>b\<in>set (delivery_blocks d). block_key b = k \<and> b_resolution b = None"
    if "delivery_at k d' = Some r" "d_state r = Blocked" for k r
    using blocked_has_block [OF inv new [OF that] that(2)] .
  ultimately show ?thesis using inv unfolding blocks_inv_def same by blast
qed

lemma blocks_inv_lease:
  assumes "deliveries_inv d" and "blocks_inv d"
  shows "blocks_inv (lease_claimable a token expires now limit kinds d)"
  using assms(2)
proof (rule blocks_inv_step)
  fix k r
  assume r: "delivery_at k d = Some r"
  show "\<exists>r'. delivery_at k (lease_claimable a token expires now limit kinds d) = Some r'
      \<and> d_attempt r \<le> d_attempt r' \<and> (r' = r \<or> d_state r \<notin> {Blocked, Dead})"
    using r leased_was_claimable [OF assms(1) r, of a now limit kinds]
    by (auto simp: delivery_at_lease lease_row_def claimable_def)
next
  fix k r'
  assume "delivery_at k (lease_claimable a token expires now limit kinds d) = Some r'"
    and "d_state r' = Blocked"
  then show "delivery_at k d = Some r'"
    by (auto simp: delivery_at_lease lease_row_def split: if_splits)
qed (simp_all add: lease_claimable_def Let_def)

context settlement
begin

lemma settled_blocks_inv:
  assumes "blocks_inv d" and "leased_row_update lr set_row d = (moved, d')"
    and "\<And>r. d_state (set_row r) \<noteq> Blocked"
  shows "blocks_inv d'"
  using assms(1)
proof (rule blocks_inv_step)
  fix k r
  assume r: "delivery_at k d = Some r"
  show "\<exists>r'. delivery_at k d' = Some r' \<and> d_attempt r \<le> d_attempt r'
      \<and> (r' = r \<or> d_state r \<notin> {Blocked, Dead})"
    using r by (auto simp: settled_at [OF assms(2)] set_row_attempt leased_row_matches_def)
next
  fix k r'
  assume "delivery_at k d' = Some r'" and "d_state r' = Blocked"
  then show "delivery_at k d = Some r'"
    using assms(3) by (auto simp: settled_at [OF assms(2)] split: if_splits)
qed (use assms(2) in \<open>auto simp: leased_row_update_def\<close>)

end

lemma insert_block_row_effect:
  "insert_block_row mk d = Inr (n, d') \<Longrightarrow>
     n = delivery_blocks_sequence d + 1
     \<and> d' = d\<lparr>delivery_blocks := delivery_blocks d @ [mk n], delivery_blocks_sequence := n\<rparr>
     \<and> (b_message_seq (mk n), b_agent_id (mk n), b_lease_token (mk n))
         \<notin> (\<lambda>b. (b_message_seq b, b_agent_id b, b_lease_token b)) ` set (delivery_blocks d)"
  by (auto simp: insert_block_row_def Let_def image_iff split: if_splits)

text \<open>Blocking a leased delivery and recording why, in one transaction.\<close>

lemma block_recorded:
  assumes dinv: "deliveries_inv d" and binv: "blocks_inv d"
    and upd: "leased_row_update lr (blocked_row (lr_lease_token lr) reason) d = (True, d1)"
    and r: "delivery_at k d = Some r" and k: "k = leased_row_target lr d"
    and ins: "insert_block_row (new_block_row (fst k) (snd k) (d_attempt r) (lr_lease_token lr)
      reason' now) d1 = Inr (n, d2)"
  shows "blocks_inv d2"
proof -
  let ?b = "new_block_row (fst k) (snd k) (d_attempt r) (lr_lease_token lr) reason' now n"
  note e = insert_block_row_effect [OF ins]
  have m: "leased_row_matches lr d r"
    and at_k: "delivery_at k d1 = Some (blocked_row (lr_lease_token lr) reason r)"
    using block.settled_row [OF dinv upd] r k by auto
  have leased: "d_state r = Leased" using m by (simp add: leased_row_matches_def)
  have others: "delivery_at j d1 = delivery_at j d" if "j \<noteq> k" for j
    using block.settled_others [OF upd] that k by blast
  have frame: "delivery_blocks d1 = delivery_blocks d"
    "delivery_blocks_sequence d1 = delivery_blocks_sequence d"
    using upd by (auto simp: leased_row_update_def)
  have at2: "delivery_at j d2 = delivery_at j d1" for j using e by (simp add: delivery_at_def)
  have blocks: "delivery_blocks d2 = delivery_blocks d @ [?b]"
    and seq: "n = delivery_blocks_sequence d + 1" "delivery_blocks_sequence d2 = n"
    using e frame by simp_all
  have fresh: "(fst k, snd k, lr_lease_token lr)
      \<notin> (\<lambda>b. (b_message_seq b, b_agent_id b, b_lease_token b)) ` set (delivery_blocks d)"
    using e frame by (auto simp: new_block_row_def)
  have attempt: "0 < d_attempt r"
    using dinv r leased by (auto simp: deliveries_inv_def delivery_standing_def dest!: delivery_at_key)
  have old_link: "\<exists>q. delivery_at (block_key b) d2 = Some q \<and> block_link b q"
    if "b \<in> set (delivery_blocks d)" for b
  proof (cases "block_key b = k")
    case True
    from block_linked [OF binv that] obtain q where "delivery_at (block_key b) d = Some q" "block_link b q"
      by blast
    with True r leased have "block_link b r" "d_state r = Leased" by auto
    then have "block_link b (blocked_row (lr_lease_token lr) reason r)"
      by (auto simp: block_link_def blocked_row_def)
    with True at_k at2 show ?thesis by simp
  next
    case False
    with that binv show ?thesis by (auto simp: at2 others elim: block_linked)
  qed
  have new_link: "delivery_at (block_key ?b) d2 = Some (blocked_row (lr_lease_token lr) reason r)"
    "block_link ?b (blocked_row (lr_lease_token lr) reason r)" "block_check ?b"
    using at_k at2 attempt
    by (auto simp: block_key_def new_block_row_def block_link_def blocked_row_def block_check_def)
  have covered: "\<exists>b\<in>set (delivery_blocks d2). block_key b = j \<and> b_resolution b = None"
    if "delivery_at j d2 = Some q" "d_state q = Blocked" for j q
  proof (cases "j = k")
    case True
    then show ?thesis by (simp add: blocks block_key_def new_block_row_def)
  next
    case False
    then show ?thesis
      using blocked_has_block [OF binv, of j q] that by (auto simp: at2 others blocks)
  qed
  show ?thesis
    unfolding blocks_inv_def
  proof (intro conjI)
    show "unique_on b_id (delivery_blocks d2)"
      using binv seq by (force simp: blocks blocks_inv_def new_block_row_def)
    show "\<forall>b\<in>set (delivery_blocks d2). b_id b \<le> delivery_blocks_sequence d2"
      using binv seq by (force simp: blocks blocks_inv_def new_block_row_def)
    show "unique_on (\<lambda>b. (b_message_seq b, b_agent_id b, b_lease_token b)) (delivery_blocks d2)"
      using binv fresh by (auto simp: blocks blocks_inv_def new_block_row_def)
    show "\<forall>b\<in>set (delivery_blocks d2). block_check b
        \<and> (\<exists>r. delivery_at (block_key b) d2 = Some r \<and> block_link b r)"
      using old_link new_link block_linked [OF binv] unfolding blocks by auto
  qed (use covered in blast)
qed

section \<open>Resolving a block\<close>

lemma i64_retry: "i64_try_from w = Some v \<Longrightarrow> 0 \<le> v"
  using i64_try_from_Some by blast

lemma resolve_block_cases:
  assumes "deliveries_inv d" and "blocks_inv d"
    and ok: "resolve_delivery_block_transaction bid inp now d = Inr d'"
  obtains (replay) b where "b \<in> set (delivery_blocks d)" "b_id b = bid"
      "b_resolution b = Some (resolution_name (resolve_resolution inp))" "d' = d"
  | (resolved) b r available_at retry_after where "b \<in> set (delivery_blocks d)" "b_id b = bid"
      "b_resolution b = None" "delivery_at (block_key b) d = Some r" "d_state r = Blocked"
      "0 \<le> retry_after"
      "delivery_at (block_key b) d' = Some (resolved_delivery (resolve_resolution inp) available_at
         (resolve_note inp) r)"
      "d' = d\<lparr>agent_deliveries := update_where (\<lambda>q. delivery_key q = block_key b \<and> d_state q = Blocked)
           (resolved_delivery (resolve_resolution inp) available_at (resolve_note inp)) (agent_deliveries d),
         delivery_blocks := update_where (\<lambda>b. b_id b = bid \<and> b_resolved_at_ms b = None)
           (resolve_block_row inp retry_after now) (delivery_blocks d)\<rparr>"
proof -
  obtain retry_after b r is_replay where ra: "i64_try_from (resolve_retry_after_ms inp) = Some retry_after"
    and row: "resolution_row bid d = Inr (b, r)"
    and rep: "resolution_is_replay b inp retry_after = Inr is_replay"
    and rest: "(if is_replay then Inr d
     else if d_state r \<noteq> Blocked
     then Inl (Conflict ''delivery block is not the current unresolved block'')
     else
       and_then (resolve_delivery_row b inp retry_after now d) (\<lambda>d.
       let P = \<lambda>b. b_id b = bid \<and> b_resolved_at_ms b = None in
       if rows_affected P (delivery_blocks d) \<noteq> 1
       then Inl (Conflict ''delivery block changed during resolution'')
       else Inr (d\<lparr>delivery_blocks := update_where P (resolve_block_row inp retry_after now)
              (delivery_blocks d)\<rparr>))) = Inr d'"
    using ok unfolding resolve_delivery_block_transaction_def
    by (auto simp: and_then_eq_Inr ok_or_eq_Inr)
  have mem: "b \<in> set (delivery_blocks d)" "r \<in> set (agent_deliveries d)" "b_id b = bid"
    "delivery_key r = block_key b"
    using row unfolding resolution_row_def ok_or_eq_Inr
    by (auto dest!: find_in simp: delivery_key_def block_key_def)
  have chk: "block_check b" using assms(2) mem(1) by (auto elim: block_linked)
  have at_r: "delivery_at (block_key b) d = Some r"
    using mem assms(1) by (simp add: delivery_at_iff)
  show thesis
  proof (cases is_replay)
    case True
    then show thesis
      using rest rep replay [OF mem(1,3)] by (auto simp: resolution_is_replay_def split: if_splits)
  next
    case False
    then have unresolved: "b_resolved_at_ms b = None"
      using rep by (auto simp: resolution_is_replay_def split: if_splits)
    with chk have res: "b_resolution b = None" by (simp add: block_check_def)
    from False rest have blocked: "d_state r = Blocked" by (auto split: if_splits)
    obtain d1 where d1: "resolve_delivery_row b inp retry_after now d = Inr d1"
      and d': "d' = d1\<lparr>delivery_blocks := update_where (\<lambda>b. b_id b = bid \<and> b_resolved_at_ms b = None)
           (resolve_block_row inp retry_after now) (delivery_blocks d1)\<rparr>"
      using rest False blocked by (auto simp: and_then_eq_Inr Let_def split: if_splits)
    then obtain available_at where
      eq: "d1 = d\<lparr>agent_deliveries := update_where (\<lambda>q. delivery_key q = block_key b \<and> d_state q = Blocked)
        (resolved_delivery (resolve_resolution inp) available_at (resolve_note inp)) (agent_deliveries d)\<rparr>"
      by (auto simp: resolve_delivery_row_def Let_def and_then_eq_Inr delivery_key_def block_key_def
          split: if_splits)
    have "delivery_at (block_key b) d' = delivery_at (block_key b) d1"
      by (rule delivery_at_cong) (simp add: d')
    also have "\<dots> = Some (resolved_delivery (resolve_resolution inp) available_at (resolve_note inp) r)"
      unfolding eq using blocked mem(4) by (subst delivery_at_update) (simp_all add: at_r)
    finally show thesis
      using resolved [OF mem(1,3) res at_r blocked i64_retry [OF ra]] d' eq by simp
  qed
qed

lemma unresolved_block_unique:
  assumes "blocks_inv d" and "b \<in> set (delivery_blocks d)" and "c \<in> set (delivery_blocks d)"
    and "b_resolution b = None" and "b_resolution c = None" and "block_key b = block_key c"
  shows "b = c"
proof -
  obtain r where "delivery_at (block_key b) d = Some r" "block_link b r"
    using assms(1,2) by (rule block_linked)
  moreover obtain q where "delivery_at (block_key c) d = Some q" "block_link c q"
    using assms(1,3) by (rule block_linked)
  ultimately have "b_lease_token b = b_lease_token c" using assms(4-6) by (simp add: block_link_def)
  with assms show ?thesis
    by (intro unique_onD [of "\<lambda>b. (b_message_seq b, b_agent_id b, b_lease_token b)" "delivery_blocks d"])
      (auto simp: blocks_inv_def block_key_def)
qed

lemma resolved_delivery_settlement [simp]: "d_last_settlement (resolved_delivery res n note r) = None"
  by (cases res) simp_all

lemma resolved_delivery_facts [simp]:
  "d_attempt (resolved_delivery res n note r) = d_attempt r"
  "d_state (resolved_delivery res n note r) = (case res of Requeue \<Rightarrow> Pending | Abandon \<Rightarrow> Dead)"
  by (cases res; simp)+

lemma resolved_delivery_check:
  "delivery_check r \<Longrightarrow> d_state r = Blocked \<Longrightarrow> delivery_check (resolved_delivery res n note r)"
  by (cases res) (auto simp: delivery_check_def)

lemma resolution_name_known: "resolution_name res \<in> {''requeued'', ''abandoned''}"
  by (cases res) auto

lemma resolve_block_row_facts [simp]:
  "b_id (resolve_block_row inp ra now b) = b_id b"
  "b_lease_token (resolve_block_row inp ra now b) = b_lease_token b"
  "b_message_seq (resolve_block_row inp ra now b) = b_message_seq b"
  "b_agent_id (resolve_block_row inp ra now b) = b_agent_id b"
  "b_attempt (resolve_block_row inp ra now b) = b_attempt b"
  "block_key (resolve_block_row inp ra now b) = block_key b"
  "b_resolution (resolve_block_row inp ra now b) = Some (resolution_name (resolve_resolution inp))"
  by (simp_all add: resolve_block_row_def block_key_def)

lemma resolve_block_deliveries_inv:
  assumes "deliveries_inv d" and "blocks_inv d"
    and "resolve_delivery_block_transaction bid inp now d = Inr d'"
  shows "deliveries_inv d'"
  using assms
proof (cases rule: resolve_block_cases)
  case (resolved b r at ra)
  let ?d = "d\<lparr>agent_deliveries := update_where (\<lambda>q. delivery_key q = block_key b \<and> d_state q = Blocked)
    (resolved_delivery (resolve_resolution inp) at (resolve_note inp)) (agent_deliveries d)\<rparr>"
  have "deliveries_inv ?d"
    using assms(1)
    by (rule deliveries_inv_update)
      (auto simp: resolved_delivery_check delivery_standing_def split: block_resolution.splits)
  then show ?thesis by (rule deliveries_inv_cong) (simp_all add: resolved(8))
qed (use assms in simp)

lemma resolve_block_blocks_inv:
  assumes dinv: "deliveries_inv d" and binv: "blocks_inv d"
    and ok: "resolve_delivery_block_transaction bid inp now d = Inr d'"
  shows "blocks_inv d'"
  using dinv binv ok
proof (cases rule: resolve_block_cases)
  case (resolved b r at ra)
  let ?P = "\<lambda>c. b_id c = bid \<and> b_resolved_at_ms c = None"
  let ?b = "resolve_block_row inp ra now b"
  have blocks: "delivery_blocks d' = update_where ?P (resolve_block_row inp ra now) (delivery_blocks d)"
    by (simp add: resolved(8))
  have others: "delivery_at k d' = delivery_at k d" if "k \<noteq> block_key b" for k
    using that unfolding resolved(8) delivery_at_def
    by (cases "delivery_at k d") (auto simp: find_key_update_where delivery_at_def dest: find_key_in)
  have chk: "block_check c" if "c \<in> set (delivery_blocks d)" for c
    using binv that by (auto elim: block_linked)
  have only: "?P c \<longleftrightarrow> c = b" if "c \<in> set (delivery_blocks d)" for c
    using that resolved(1-3) binv chk [OF resolved(1)]
    by (auto simp: blocks_inv_def block_check_def dest: unique_onD)
  have mem: "c \<in> set (delivery_blocks d') \<longleftrightarrow> c = ?b \<or> c \<in> set (delivery_blocks d) \<and> c \<noteq> b" for c
    using only resolved(1) by (auto simp: blocks in_update_where)
  have link: "\<exists>q. delivery_at (block_key c) d' = Some q \<and> block_link c q"
    if c: "c \<in> set (delivery_blocks d)" "c \<noteq> b" for c
  proof (cases "block_key c = block_key b")
    case True
    with c have "b_resolution c \<noteq> None"
      using unresolved_block_unique [OF binv resolved(1) c(1) resolved(3)] by auto
    moreover have "block_link c r" using block_linked [OF binv c(1)] True resolved(4) by auto
    ultimately have "block_link c (resolved_delivery (resolve_resolution inp) at (resolve_note inp) r)"
      using resolved(5) by (auto simp: block_link_def)
    with True resolved(7) show ?thesis by simp
  next
    case False
    then show ?thesis using block_linked [OF binv c(1)] by (auto simp: others)
  qed
  have "block_link b r" using block_linked [OF binv resolved(1)] resolved(4) by auto
  then have new_link: "block_link ?b (resolved_delivery (resolve_resolution inp) at (resolve_note inp) r)"
    by (auto simp: block_link_def split: block_resolution.splits)
  have new_check: "block_check ?b"
    using chk [OF resolved(1)] resolved(6) resolution_name_known [of "resolve_resolution inp"]
    by (auto simp: block_check_def resolve_block_row_def)
  show ?thesis
    unfolding blocks_inv_def
  proof (intro conjI)
    show "unique_on b_id (delivery_blocks d')"
      "unique_on (\<lambda>b. (b_message_seq b, b_agent_id b, b_lease_token b)) (delivery_blocks d')"
      using binv by (simp_all add: blocks blocks_inv_def unique_on_update)
    show "\<forall>b\<in>set (delivery_blocks d'). b_id b \<le> delivery_blocks_sequence d'"
      using binv unfolding blocks_inv_def blocks by (auto simp: in_update_where resolved(8))
    show "\<forall>b\<in>set (delivery_blocks d'). block_check b
        \<and> (\<exists>r. delivery_at (block_key b) d' = Some r \<and> block_link b r)"
      using link new_link new_check chk resolved(7) by (auto simp: mem)
    show "\<forall>k r. delivery_at k d' = Some r \<and> d_state r = Blocked \<longrightarrow>
        (\<exists>b\<in>set (delivery_blocks d'). block_key b = k \<and> b_resolution b = None)"
    proof (intro allI impI)
      fix k q
      assume q: "delivery_at k d' = Some q \<and> d_state q = Blocked"
      then have "k \<noteq> block_key b"
        using resolved(7) by (cases "resolve_resolution inp") auto
      moreover from this q obtain c where "c \<in> set (delivery_blocks d)" "block_key c = k" "b_resolution c = None"
        using blocked_has_block [OF binv, of k q] others by auto
      ultimately show "\<exists>b\<in>set (delivery_blocks d'). block_key b = k \<and> b_resolution b = None"
        by (auto simp: mem)
    qed
  qed
qed (use binv in simp)

section \<open>Properties\<close>

definition message_at :: "i64 \<Rightarrow> db \<Rightarrow> message_row option" where
  "message_at seq d = find (\<lambda>m. m_seq m = seq) (messages d)"

lemma messages_unique_seq: "messages_inv d \<Longrightarrow> unique_on m_seq (messages d)"
  by (simp add: messages_inv_def unique_on_def strict_sorted_iff)

text \<open>Every delivery joins with its one message, so a filtered join is a filter of deliveries.\<close>

lemma join_is_filter:
  assumes "messages_inv d"
  shows "map fst (filter (\<lambda>(r, m). C r \<and> Q m) (delivery_join d)) =
    filter (\<lambda>r. C r \<and> (case message_at (d_message_seq r) d of None \<Rightarrow> False | Some m \<Rightarrow> Q m))
      (agent_deliveries d)"
proof -
  have row: "map fst (filter (\<lambda>(r, m). C r \<and> Q m) (map (Pair r)
      (filter (\<lambda>m. m_seq m = d_message_seq r) (messages d)))) =
    (if C r \<and> (case message_at (d_message_seq r) d of None \<Rightarrow> False | Some m \<Rightarrow> Q m) then [r] else [])"
    for r
    using messages_unique_seq [OF assms] by (auto simp: filter_key message_at_def split: option.splits)
  have "map fst (filter (\<lambda>(r, m). C r \<and> Q m) (concat (map (\<lambda>r. map (Pair r)
      (filter (\<lambda>m. m_seq m = d_message_seq r) (messages d))) rs))) =
    filter (\<lambda>r. C r \<and> (case message_at (d_message_seq r) d of None \<Rightarrow> False | Some m \<Rightarrow> Q m)) rs" for rs
    by (induction rs) (simp_all add: row)
  then show ?thesis by (simp add: delivery_join_def concat_map_if)
qed

definition matching :: "string list option \<Rightarrow> delivery_row \<Rightarrow> db \<Rightarrow> bool" where
  "matching kinds r d =
     (case message_at (d_message_seq r) d of
        None \<Rightarrow> False
      | Some m \<Rightarrow> (case kinds of None \<Rightarrow> True | Some ks \<Rightarrow> m_kind m \<in> set ks))"

lemma leasable_rows_filter:
  assumes "messages_inv d"
  shows "leasable_rows a now limit kinds d =
    take (unat limit) (sort_key d_message_seq
      (filter (\<lambda>r. claimable a now r \<and> matching kinds r d) (agent_deliveries d)))"
  using join_is_filter [OF assms, of "claimable a now"
      "\<lambda>m. case kinds of None \<Rightarrow> True | Some ks \<Rightarrow> m_kind m \<in> set ks"]
  by (simp add: leasable_rows_def matching_def)

lemma claimable_sorted:
  assumes "deliveries_inv d"
  shows "sorted_wrt (<) (map d_message_seq (sort_key d_message_seq
    (filter (\<lambda>r. claimable a now r \<and> Q r) (agent_deliveries d))))"
proof -
  let ?rs = "filter (\<lambda>r. claimable a now r \<and> Q r) (agent_deliveries d)"
  have "unique_on delivery_key ?rs" using assms by (auto simp: deliveries_inv_def intro: unique_on_filter)
  then have "distinct (map d_message_seq ?rs)"
    by (auto simp: unique_on_def distinct_map inj_on_def delivery_key_def claimable_def)
  then have "distinct (map d_message_seq (sort_key d_message_seq ?rs))"
    by (simp add: distinct_map)
  then show ?thesis by (simp add: strict_sorted_iff)
qed

lemma lease_facts:
  assumes "deliveries_inv d" and "messages_inv d"
  shows "length (leasable_rows a now limit kinds d) \<le> unat limit"
    and "sorted_wrt (<) (map d_message_seq (leasable_rows a now limit kinds d))"
    and "r \<in> set (leasable_rows a now limit kinds d) \<Longrightarrow>
      claimable a now r \<and> matching kinds r d \<and> delivery_at (delivery_key r) d = Some r
      \<and> delivery_at (delivery_key r) (lease_claimable a token expires now limit kinds d) =
        Some (lease_row token expires r)"
    and "delivery_at k d = Some q \<Longrightarrow> q \<notin> set (leasable_rows a now limit kinds d) \<Longrightarrow>
      delivery_at k (lease_claimable a token expires now limit kinds d) = Some q
      \<and> (claimable a now q \<and> matching kinds q d \<longrightarrow>
           length (leasable_rows a now limit kinds d) = unat limit
           \<and> (\<forall>r\<in>set (leasable_rows a now limit kinds d). d_message_seq r < d_message_seq q))"
proof -
  let ?all = "sort_key d_message_seq
    (filter (\<lambda>r. claimable a now r \<and> matching kinds r d) (agent_deliveries d))"
  note rows = leasable_rows_filter [OF assms(2), of a now limit kinds]
  have all: "sorted_wrt (<) (map d_message_seq ?all)" by (rule claimable_sorted [OF assms(1)])
  show "length (leasable_rows a now limit kinds d) \<le> unat limit" by (simp add: rows)
  show "sorted_wrt (<) (map d_message_seq (leasable_rows a now limit kinds d))"
    using all by (simp add: rows take_map [symmetric] sorted_wrt_take)
  show "claimable a now r \<and> matching kinds r d \<and> delivery_at (delivery_key r) d = Some r
      \<and> delivery_at (delivery_key r) (lease_claimable a token expires now limit kinds d) =
        Some (lease_row token expires r)"
    if "r \<in> set (leasable_rows a now limit kinds d)" for r
  proof -
    from that have "r \<in> set ?all" by (auto simp: rows dest: in_set_takeD)
    then have "r \<in> set (agent_deliveries d)" "claimable a now r" "matching kinds r d" by auto
    then have "delivery_at (delivery_key r) d = Some r" using assms(1) by (simp add: delivery_at_iff)
    then show ?thesis using that \<open>claimable a now r\<close> \<open>matching kinds r d\<close> by (simp add: delivery_at_lease)
  qed
  show "delivery_at k (lease_claimable a token expires now limit kinds d) = Some q
      \<and> (claimable a now q \<and> matching kinds q d \<longrightarrow>
           length (leasable_rows a now limit kinds d) = unat limit
           \<and> (\<forall>r\<in>set (leasable_rows a now limit kinds d). d_message_seq r < d_message_seq q))"
    if q: "delivery_at k d = Some q" "q \<notin> set (leasable_rows a now limit kinds d)" for k q
  proof (intro conjI impI)
    have "k \<notin> delivery_key ` set (leasable_rows a now limit kinds d)"
    proof
      assume "k \<in> delivery_key ` set (leasable_rows a now limit kinds d)"
      then obtain r where r: "r \<in> set (leasable_rows a now limit kinds d)" "delivery_key r = k" by auto
      then have "delivery_at k d = Some r"
        using leasable_rows_claimable [OF r(1)] assms(1) by (simp add: delivery_at_iff)
      with q r show False by simp
    qed
    then show "delivery_at k (lease_claimable a token expires now limit kinds d) = Some q"
      using q by (simp add: delivery_at_lease)
    assume "claimable a now q \<and> matching kinds q d"
    then have "q \<in> set ?all" using q by (auto dest: delivery_at_key)
    then have "q \<in> set (take (unat limit) ?all) \<union> set (drop (unat limit) ?all)"
      by (metis append_take_drop_id set_append)
    then have dropped: "q \<in> set (drop (unat limit) ?all)" using q(2) by (simp add: rows)
    then show "length (leasable_rows a now limit kinds d) = unat limit"
      by (cases "length ?all \<le> unat limit") (simp_all add: rows)
    have "sorted_wrt (\<lambda>x y. d_message_seq x < d_message_seq y)
        (take (unat limit) ?all @ drop (unat limit) ?all)"
      using all by (simp add: sorted_wrt_map)
    then show "\<forall>r\<in>set (leasable_rows a now limit kinds d). d_message_seq r < d_message_seq q"
      using dropped unfolding sorted_wrt_append rows by blast
  qed
qed

text \<open>
  A lease takes the oldest claimable work and nothing else.  The rows \<open>lease_claimable\<close>
  takes are at most the limit, in sequence order, each one claimable (available, and pending or
  under a lapsed lease) and of an accepted kind; each is leased under the new token with its
  attempt counted up; a claimable row that was left out means that the limit was reached by older
  ones; and no other delivery, in particular no blocked, acknowledged or dead one, changes.
\<close>

theorem lease_takes_oldest_claimable:
  assumes "deliveries_inv d" and "messages_inv d"
  shows "let rows = leasable_rows a now limit kinds d;
             d' = lease_claimable a token expires now limit kinds d in
    length rows \<le> unat limit \<and> sorted_wrt (<) (map d_message_seq rows)
    \<and> (\<forall>r\<in>set rows. claimable a now r \<and> matching kinds r d
         \<and> delivery_at (delivery_key r) d = Some r
         \<and> delivery_at (delivery_key r) d' = Some (lease_row token expires r))
    \<and> (\<forall>k q. delivery_at k d = Some q \<and> q \<notin> set rows \<longrightarrow>
         delivery_at k d' = Some q
         \<and> (claimable a now q \<and> matching kinds q d \<longrightarrow>
              length rows = unat limit \<and> (\<forall>r\<in>set rows. d_message_seq r < d_message_seq q)))"
proof -
  let ?rows = "leasable_rows a now limit kinds d"
  let ?d = "lease_claimable a token expires now limit kinds d"
  note facts = lease_facts [OF assms, where a = a and now = now and limit = limit and kinds = kinds]
  have "\<forall>r\<in>set ?rows. claimable a now r \<and> matching kinds r d
      \<and> delivery_at (delivery_key r) d = Some r
      \<and> delivery_at (delivery_key r) ?d = Some (lease_row token expires r)"
    using facts(3) by blast
  moreover have "\<forall>k q. delivery_at k d = Some q \<and> q \<notin> set ?rows \<longrightarrow>
         delivery_at k ?d = Some q
         \<and> (claimable a now q \<and> matching kinds q d \<longrightarrow>
              length ?rows = unat limit \<and> (\<forall>r\<in>set ?rows. d_message_seq r < d_message_seq q))"
    using facts(4) by blast
  ultimately show ?thesis using facts(1,2) unfolding Let_def by blast
qed

end
