(* ===== verification/Session_Fence.thy ===== *)
theory Session_Fence
  imports Delivery
begin

text \<open>
  Session lanes and owner fencing: the parts of \<open>crates/execution/src/session_binding.rs\<close> that
  touch the tables \<open>session_bindings\<close> and \<open>session_binding_turns\<close> only.  A lane is an agent, a lane
  policy and a lane key; its bindings are numbered by generation, and one generation by the epochs
  of its owners.  Every write to a binding goes through an \<open>OwnerFence\<close>; the locale \<open>fenced_write\<close> of
  \<open>Sessions\<close> states what such a write may do.
\<close>

section \<open>Validation\<close>

definition MAX_ID_BYTES :: nat where "MAX_ID_BYTES = 256"

definition MAX_LANE_KEY_BYTES :: nat where "MAX_LANE_KEY_BYTES = 4096"

definition MAX_PATH_BYTES :: nat where "MAX_PATH_BYTES = 4096"

definition MAX_SESSION_REF_BYTES :: nat where "MAX_SESSION_REF_BYTES = 4096"

definition MAX_REASON_BYTES :: nat where "MAX_REASON_BYTES = 4096"

definition MAX_ADDITIONAL_DIRECTORIES :: nat where "MAX_ADDITIONAL_DIRECTORIES = 64"

definition validate_bounded :: "string \<Rightarrow> string \<Rightarrow> nat \<Rightarrow> unit result" where
  "validate_bounded label value limit =
     (if trim_is_empty value then Inl (Invalid (label @ '' must not be empty''))
      else if length value > limit
      then Inl (Invalid (label @ '' must not exceed '' @ show_nat limit @ '' bytes''))
      else Inr ())"

definition as_i64 :: "string \<Rightarrow> u64 \<Rightarrow> i64 result" where
  "as_i64 label value =
     (if value = 0 then Inl (Invalid (label @ '' must be greater than zero''))
      else ok_or (i64_try_from value) (Invalid (label @ '' is too large'')))"

definition invalid_stored :: "string \<Rightarrow> fleet_error" where
  "invalid_stored message = Invalid (''stored '' @ message)"

definition positive_u64 :: "string \<Rightarrow> i64 \<Rightarrow> u64 result" where
  "positive_u64 label value =
     ok_or (case u64_try_from value of None \<Rightarrow> None | Some w \<Rightarrow> if w > 0 then Some w else None)
       (invalid_stored (label @ '' is not positive''))"

text \<open>\<open>Path::is_absolute\<close> on Unix.\<close>

definition is_absolute :: "string \<Rightarrow> bool" where
  "is_absolute path = (case path of [] \<Rightarrow> False | c # _ \<Rightarrow> c = CHR ''/'')"

definition validate_absolute_path :: "string \<Rightarrow> string \<Rightarrow> unit result" where
  "validate_absolute_path label value =
     and_then (validate_bounded label value MAX_PATH_BYTES) (\<lambda>_.
     if \<not> is_absolute value then Inl (Invalid (label @ '' must be an absolute path'')) else Inr ())"

definition validate_acquisition :: "string \<Rightarrow> acquire_session_binding_input \<Rightarrow> unit result" where
  "validate_acquisition agent_id inp =
     and_then (validate_bounded ''agent ID'' agent_id MAX_ID_BYTES) (\<lambda>_.
     and_then (validate_bounded ''lane policy'' (acq_lane_policy inp) MAX_ID_BYTES) (\<lambda>_.
     and_then (validate_bounded ''lane key'' (acq_lane_key inp) MAX_LANE_KEY_BYTES) (\<lambda>_.
     and_then (validate_bounded ''owner instance ID'' (acq_owner_instance_id inp) MAX_ID_BYTES) (\<lambda>_.
     and_then (validate_bounded ''profile digest'' (acq_profile_digest inp) MAX_ID_BYTES) (\<lambda>_.
     and_then (validate_bounded ''compatibility digest'' (acq_compatibility_digest inp) MAX_ID_BYTES) (\<lambda>_.
     and_then (validate_absolute_path ''working directory'' (acq_working_directory inp)) (\<lambda>_.
     if length (acq_additional_directories inp) > MAX_ADDITIONAL_DIRECTORIES
     then Inl (Invalid (''additional directories must not exceed ''
            @ show_nat MAX_ADDITIONAL_DIRECTORIES @ '' entries''))
     else try_fold (\<lambda>directory _. validate_absolute_path ''additional directory'' directory)
            (acq_additional_directories inp) ())))))))"

definition validate_binding :: "binding \<Rightarrow> unit result" where
  "validate_binding b =
     and_then (validate_bounded ''binding ID'' (bind_id b) MAX_ID_BYTES) (\<lambda>_.
     and_then (as_i64 ''binding generation'' (bind_generation b)) (\<lambda>_.
     and_then (as_i64 ''owner epoch'' (bind_owner_epoch b)) (\<lambda>_. Inr ())))"

section \<open>Owner fences\<close>

record owner_fence =
  f_binding_id :: string
  f_binding_generation :: i64
  f_agent_id :: string
  f_owner_epoch :: i64

definition owner_fence_new :: "string \<Rightarrow> binding \<Rightarrow> owner_fence result" where
  "owner_fence_new agent_id b =
     and_then (as_i64 ''binding generation'' (bind_generation b)) (\<lambda>generation.
     and_then (as_i64 ''owner epoch'' (bind_owner_epoch b)) (\<lambda>epoch.
     Inr \<lparr>f_binding_id = bind_id b, f_binding_generation = generation, f_agent_id = agent_id,
          f_owner_epoch = epoch\<rparr>))"

definition fence_predicate :: "owner_fence \<Rightarrow> binding_row \<Rightarrow> bool" where
  "fence_predicate f s \<longleftrightarrow>
     s_binding_id s = f_binding_id f
     \<and> s_binding_generation s = f_binding_generation f
     \<and> s_agent_id s = f_agent_id f
     \<and> s_owner_epoch s = f_owner_epoch f"

text \<open>\<open>OwnerFence::update\<close> followed by \<open>require_one\<close>.\<close>

definition fenced_update ::
  "owner_fence \<Rightarrow> (binding_row \<Rightarrow> bool) \<Rightarrow> (binding_row \<Rightarrow> binding_row) \<Rightarrow> string \<Rightarrow> db \<Rightarrow> db result" where
  "fenced_update f state_ok set_row message d =
     (let P = \<lambda>s. fence_predicate f s \<and> state_ok s in
      if rows_affected P (session_bindings d) \<noteq> 1 then Inl (Conflict message)
      else Inr (d\<lparr>session_bindings := update_where P set_row (session_bindings d)\<rparr>))"

section \<open>Reading bindings\<close>

definition binding_from_row :: "binding_row \<Rightarrow> session_binding result" where
  "binding_from_row s =
     and_then (positive_u64 ''binding generation'' (s_binding_generation s)) (\<lambda>generation.
     and_then (positive_u64 ''owner epoch'' (s_owner_epoch s)) (\<lambda>epoch.
     and_then (ok_or (session_binding_state_parse (session_binding_state_as_str (s_state s)))
         (invalid_stored ''session binding state is invalid'')) (\<lambda>state.
     and_then (case s_session_persistence s of
           None \<Rightarrow> Inr None
         | Some p \<Rightarrow> and_then (ok_or (session_persistence_parse (session_persistence_as_str p))
             (invalid_stored ''session persistence state is invalid'')) (\<lambda>p. Inr (Some p)))
       (\<lambda>persistence.
     Inr \<lparr>sess_binding = \<lparr>bind_id = s_binding_id s, bind_generation = generation,
            bind_owner_epoch = epoch\<rparr>,
          sess_agent_id = s_agent_id s, sess_lane_policy = s_lane_policy s,
          sess_lane_key = s_lane_key s, sess_owner_instance_id = s_owner_instance_id s,
          sess_profile_digest = s_profile_digest s,
          sess_compatibility_digest = s_compatibility_digest s,
          sess_working_directory = s_working_directory s,
          sess_additional_directories = s_additional_directories s,
          sess_session_ref = s_session_ref s, sess_state = state,
          sess_active_invocation_id = s_active_invocation_id s,
          sess_last_quiescent_invocation_id = s_last_quiescent_invocation_id s,
          sess_session_persistence = persistence, sess_uncertain_reason = s_uncertain_reason s,
          sess_retired_reason = s_retired_reason s, sess_created_at_ms = s_created_at_ms s,
          sess_updated_at_ms = s_updated_at_ms s, sess_opened_at_ms = s_opened_at_ms s,
          sess_retired_at_ms = s_retired_at_ms s\<rparr>))))"

definition current_binding_row :: "string \<Rightarrow> string \<Rightarrow> string \<Rightarrow> db \<Rightarrow> binding_row option" where
  "current_binding_row agent_id lane_policy lane_key d =
     find (\<lambda>s. s_agent_id s = agent_id \<and> s_lane_policy s = lane_policy \<and> s_lane_key s = lane_key
       \<and> s_state s \<noteq> Retired) (session_bindings d)"

definition latest_binding_row :: "string \<Rightarrow> string \<Rightarrow> string \<Rightarrow> db \<Rightarrow> binding_row option" where
  "latest_binding_row agent_id lane_policy lane_key d =
     (case sort_key (\<lambda>s. - s_binding_generation s)
             (filter (\<lambda>s. s_agent_id s = agent_id \<and> s_lane_policy s = lane_policy
                \<and> s_lane_key s = lane_key) (session_bindings d)) of
        [] \<Rightarrow> None | s # _ \<Rightarrow> Some s)"

definition exact_binding_row :: "string \<Rightarrow> binding \<Rightarrow> db \<Rightarrow> binding_row result" where
  "exact_binding_row agent_id b d =
     and_then (as_i64 ''binding generation'' (bind_generation b)) (\<lambda>generation.
     ok_or (find (\<lambda>s. s_binding_id s = bind_id b \<and> s_binding_generation s = generation
         \<and> s_agent_id s = agent_id) (session_bindings d))
       (NotFound ''session binding''
         (bind_id b @ '':'' @ show_nat (unat (bind_generation b)))))"

definition binding_by_identity :: "string \<Rightarrow> binding \<Rightarrow> db \<Rightarrow> session_binding result" where
  "binding_by_identity agent_id b d = and_then (exact_binding_row agent_id b d) binding_from_row"

definition bound_turn_row :: "string \<Rightarrow> db \<Rightarrow> turn_row result" where
  "bound_turn_row invocation_id d =
     ok_or (find (\<lambda>t. t_invocation_id t = invocation_id) (session_binding_turns d))
       (NotFound ''session binding turn'' invocation_id)"

definition get_session_binding :: "string \<Rightarrow> u64 \<Rightarrow> db \<Rightarrow> session_binding result" where
  "get_session_binding binding_id generation d =
     and_then (as_i64 ''binding generation'' generation) (\<lambda>g.
     and_then (ok_or (find (\<lambda>s. s_binding_id s = binding_id \<and> s_binding_generation s = g)
         (session_bindings d))
       (NotFound ''session binding'' (binding_id @ ''/'' @ show_nat (unat generation)))) binding_from_row)"

definition list_session_bindings :: "string option \<Rightarrow> db \<Rightarrow> session_binding list result" where
  "list_session_bindings agent_id d =
     try_fold (\<lambda>s xs. and_then (binding_from_row s) (\<lambda>x. Inr (xs @ [x])))
       (take 500 (sort_key (\<lambda>s. (- s_updated_at_ms s, s_binding_id s, - s_binding_generation s))
         (filter (\<lambda>s. case agent_id of None \<Rightarrow> True | Some a \<Rightarrow> s_agent_id s = a)
           (session_bindings d)))) []"

definition validate_owner :: "binding_row \<Rightarrow> binding \<Rightarrow> unit result" where
  "validate_owner s b =
     and_then (as_i64 ''binding generation'' (bind_generation b)) (\<lambda>generation.
     if s_binding_generation s \<noteq> generation
     then Inl (LeaseConflict ''session binding owner fence is stale'')
     else
       and_then (as_i64 ''owner epoch'' (bind_owner_epoch b)) (\<lambda>epoch.
       if s_owner_epoch s \<noteq> epoch
       then Inl (LeaseConflict ''session binding owner fence is stale'')
       else Inr ()))"

definition validate_turn_fence :: "turn_row \<Rightarrow> binding \<Rightarrow> unit result" where
  "validate_turn_fence t b =
     (if t_binding_id t \<noteq> bind_id b
      then Inl (LeaseConflict ''session turn fence does not match durable ownership'')
      else
        and_then (as_i64 ''binding generation'' (bind_generation b)) (\<lambda>generation.
        if t_binding_generation t \<noteq> generation
        then Inl (LeaseConflict ''session turn fence does not match durable ownership'')
        else
          and_then (as_i64 ''owner epoch'' (bind_owner_epoch b)) (\<lambda>epoch.
          if t_owner_epoch t \<noteq> epoch
          then Inl (LeaseConflict ''session turn fence does not match durable ownership'')
          else Inr ())))"

definition validate_session_reference :: "binding_row \<Rightarrow> string \<Rightarrow> unit result" where
  "validate_session_reference s session_ref =
     (if s_session_ref s \<noteq> Some session_ref
      then Inl (LeaseConflict ''native session reference does not match durable binding'')
      else Inr ())"

definition validate_binding_activation :: "binding_row \<Rightarrow> string \<Rightarrow> unit result" where
  "validate_binding_activation s invocation_id =
     (if s_state s = Ready \<and> s_active_invocation_id s = None
        \<or> s_state s = Active \<and> s_active_invocation_id s = Some invocation_id
      then Inr ()
      else Inl (Conflict ''session binding is not ready for this invocation''))"

definition validate_bound_turn :: "string \<Rightarrow> string \<Rightarrow> binding \<Rightarrow> bool \<Rightarrow> db \<Rightarrow> unit result" where
  "validate_bound_turn agent_id invocation_id b allow_quiescent_replay d =
     and_then (bound_turn_row invocation_id d) (\<lambda>t.
     and_then (validate_turn_fence t b) (\<lambda>_.
     if allow_quiescent_replay \<and> t_state t = TurnQuiescent then Inr ()
     else
       and_then (exact_binding_row agent_id b d) (\<lambda>s.
       and_then (validate_owner s b) (\<lambda>_.
       if (s_state s = Active \<or> s_state s = Uncertain)
         \<and> s_active_invocation_id s = Some invocation_id
       then Inr ()
       else Inl (Conflict ''invocation does not own the current session binding state'')))))"

section \<open>Acquiring a lane\<close>

definition configuration_matches :: "session_binding \<Rightarrow> acquire_session_binding_input \<Rightarrow> bool" where
  "configuration_matches s inp \<longleftrightarrow>
     sess_profile_digest s = acq_profile_digest inp
     \<and> sess_compatibility_digest s = acq_compatibility_digest inp
     \<and> sess_working_directory s = acq_working_directory inp
     \<and> sess_additional_directories s = acq_additional_directories inp"

definition acquisition_for_owned :: "session_binding \<Rightarrow> session_acquisition result" where
  "acquisition_for_owned s =
     and_then (case sess_state s of
         Opening \<Rightarrow> Inr Create
       | Ready \<Rightarrow> and_then (ok_or (sess_session_ref s)
             (invalid_stored ''ready binding omitted session reference'')) (\<lambda>r. Inr (Resume r))
       | Active \<Rightarrow> Inl (Conflict ''session binding already has an active invocation'')
       | Uncertain \<Rightarrow> Inl (Conflict ''session binding is uncertain'')
       | Retired \<Rightarrow> Inl (Conflict ''session binding is retired'')) (\<lambda>mode.
     Inr \<lparr>acquired_session = s, acquired_mode = mode\<rparr>)"

definition new_binding_row ::
  "string \<Rightarrow> i64 \<Rightarrow> string \<Rightarrow> acquire_session_binding_input \<Rightarrow> i64 \<Rightarrow> binding_row" where
  "new_binding_row binding_id generation agent_id inp now =
     \<lparr>s_binding_id = binding_id, s_binding_generation = generation, s_agent_id = agent_id,
      s_lane_policy = acq_lane_policy inp, s_lane_key = acq_lane_key inp, s_owner_epoch = 1,
      s_owner_instance_id = acq_owner_instance_id inp, s_profile_digest = acq_profile_digest inp,
      s_compatibility_digest = acq_compatibility_digest inp,
      s_working_directory = acq_working_directory inp,
      s_additional_directories = acq_additional_directories inp, s_session_ref = None,
      s_state = Opening, s_active_invocation_id = None, s_last_quiescent_invocation_id = None,
      s_session_persistence = None, s_uncertain_reason = None, s_retired_reason = None,
      s_created_at_ms = now, s_updated_at_ms = now, s_opened_at_ms = None, s_retired_at_ms = None\<rparr>"

definition insert_binding ::
  "string \<Rightarrow> u64 \<Rightarrow> string \<Rightarrow> acquire_session_binding_input \<Rightarrow> i64 \<Rightarrow> session_acquisition transaction" where
  "insert_binding binding_id generation agent_id inp now d =
     and_then (as_i64 ''binding generation'' generation) (\<lambda>g.
     and_then (insert_binding_row (new_binding_row binding_id g agent_id inp now) d) (\<lambda>d.
     and_then (binding_by_identity agent_id
         \<lparr>bind_id = binding_id, bind_generation = generation, bind_owner_epoch = 1\<rparr> d) (\<lambda>session.
     Inr (\<lparr>acquired_session = session, acquired_mode = Create\<rparr>, d))))"

definition retired_row :: "string \<Rightarrow> i64 \<Rightarrow> binding_row \<Rightarrow> binding_row" where
  "retired_row reason now s = s\<lparr>s_state := Retired, s_active_invocation_id := None,
     s_retired_reason := Some reason, s_retired_at_ms := Some now, s_updated_at_ms := now\<rparr>"

definition adopted_row :: "i64 \<Rightarrow> string \<Rightarrow> i64 \<Rightarrow> binding_row \<Rightarrow> binding_row" where
  "adopted_row epoch owner_instance_id now s = s\<lparr>s_owner_epoch := epoch,
     s_owner_instance_id := owner_instance_id, s_updated_at_ms := now\<rparr>"

definition opened_row :: "string \<Rightarrow> i64 \<Rightarrow> binding_row \<Rightarrow> binding_row" where
  "opened_row session_ref now s = s\<lparr>s_state := Ready, s_session_ref := Some session_ref,
     s_opened_at_ms := Some now, s_updated_at_ms := now\<rparr>"

definition activated_row :: "string \<Rightarrow> i64 \<Rightarrow> binding_row \<Rightarrow> binding_row" where
  "activated_row invocation_id now s = s\<lparr>s_state := Active,
     s_active_invocation_id := Some invocation_id, s_updated_at_ms := now\<rparr>"

definition quiescent_row :: "string \<Rightarrow> session_persistence \<Rightarrow> i64 \<Rightarrow> binding_row \<Rightarrow> binding_row" where
  "quiescent_row invocation_id persistence now s = s\<lparr>s_state := Ready,
     s_active_invocation_id := None, s_last_quiescent_invocation_id := Some invocation_id,
     s_session_persistence := Some persistence, s_updated_at_ms := now\<rparr>"

definition uncertain_row :: "string \<Rightarrow> i64 \<Rightarrow> binding_row \<Rightarrow> binding_row" where
  "uncertain_row reason now s = s\<lparr>s_state := Uncertain, s_uncertain_reason := Some reason,
     s_updated_at_ms := now\<rparr>"

definition insert_after_latest_retired ::
  "string \<Rightarrow> string \<Rightarrow> acquire_session_binding_input \<Rightarrow> i64 \<Rightarrow> session_acquisition transaction" where
  "insert_after_latest_retired uuid agent_id inp now d =
     (case latest_binding_row agent_id (acq_lane_policy inp) (acq_lane_key inp) d of
        None \<Rightarrow> insert_binding uuid 1 agent_id inp now d
      | Some row \<Rightarrow>
          and_then (binding_from_row row) (\<lambda>latest.
          if sess_state latest \<noteq> Retired
          then Inl (Conflict ''non-retired session binding was omitted from the current lane'')
          else
            and_then (ok_or (checked_add_u64 (bind_generation (sess_binding latest)) 1)
              (Conflict ''binding generation overflowed'')) (\<lambda>generation.
            insert_binding (bind_id (sess_binding latest)) generation agent_id inp now d)))"

definition rotate_binding ::
  "session_binding \<Rightarrow> string \<Rightarrow> acquire_session_binding_input \<Rightarrow> i64 \<Rightarrow> string
    \<Rightarrow> session_acquisition transaction" where
  "rotate_binding existing agent_id inp now reason d =
     and_then (owner_fence_new agent_id (sess_binding existing)) (\<lambda>fence.
     and_then (ok_or (checked_add_u64 (bind_generation (sess_binding existing)) 1)
       (Conflict ''binding generation overflowed'')) (\<lambda>generation.
     and_then (fenced_update fence (\<lambda>s. s_state s = Opening \<or> s_state s = Ready)
       (retired_row reason now) ''session binding changed during rotation'' d) (\<lambda>d.
     insert_binding (bind_id (sess_binding existing)) generation agent_id inp now d)))"

definition adopt_binding ::
  "session_binding \<Rightarrow> string \<Rightarrow> i64 \<Rightarrow> session_acquisition transaction" where
  "adopt_binding existing owner_instance_id now d =
     and_then (owner_fence_new (sess_agent_id existing) (sess_binding existing)) (\<lambda>fence.
     and_then (ok_or (checked_add_u64 (bind_owner_epoch (sess_binding existing)) 1)
       (Conflict ''owner epoch overflowed'')) (\<lambda>epoch.
     and_then (as_i64 ''owner epoch'' epoch) (\<lambda>e.
     and_then (fenced_update fence (\<lambda>s. s_state s = Ready) (adopted_row e owner_instance_id now)
       ''session binding changed during adoption'' d) (\<lambda>d.
     and_then (binding_by_identity (sess_agent_id existing)
         ((sess_binding existing)\<lparr>bind_owner_epoch := epoch\<rparr>) d) (\<lambda>session.
     and_then (ok_or (sess_session_ref session)
         (invalid_stored ''adopted ready binding omitted session reference'')) (\<lambda>session_ref.
     Inr (\<lparr>acquired_session = session, acquired_mode = Resume session_ref\<rparr>, d)))))))"

definition acquire_existing ::
  "binding_row \<Rightarrow> string \<Rightarrow> acquire_session_binding_input \<Rightarrow> i64 \<Rightarrow> session_acquisition transaction" where
  "acquire_existing row agent_id inp now d =
     and_then (binding_from_row row) (\<lambda>existing.
     if sess_owner_instance_id existing = acq_owner_instance_id inp then
       if \<not> configuration_matches existing inp
       then Inl (Conflict ''session acquisition replay changed immutable configuration'')
       else and_then (acquisition_for_owned existing) (\<lambda>a. Inr (a, d))
     else
       (case sess_state existing of
          Opening \<Rightarrow> rotate_binding existing agent_id inp now ''opening_superseded_by_new_owner'' d
        | Ready \<Rightarrow>
            if configuration_matches existing inp
            then adopt_binding existing (acq_owner_instance_id inp) now d
            else rotate_binding existing agent_id inp now ''incompatible_profile_rotation'' d
        | Active \<Rightarrow> Inl (Conflict ''active session binding cannot be adopted'')
        | Uncertain \<Rightarrow> Inl (Conflict
            ''uncertain session binding requires explicit reconciliation or retirement'')
        | Retired \<Rightarrow> Inl (Conflict ''retired binding was selected as the current lane'')))"

definition acquire_session_binding ::
  "string \<Rightarrow> i64 \<Rightarrow> string \<Rightarrow> acquire_session_binding_input \<Rightarrow> session_acquisition transaction" where
  "acquire_session_binding uuid now agent_id inp d =
     and_then (validate_acquisition agent_id inp) (\<lambda>_.
     and_then (ensure_agent agent_id d) (\<lambda>_.
     case current_binding_row agent_id (acq_lane_policy inp) (acq_lane_key inp) d of
       None \<Rightarrow> insert_after_latest_retired uuid agent_id inp now d
     | Some row \<Rightarrow> acquire_existing row agent_id inp now d))"

section \<open>Opening and retiring\<close>

definition record_session_opened ::
  "i64 \<Rightarrow> string \<Rightarrow> binding \<Rightarrow> string \<Rightarrow> session_binding transaction" where
  "record_session_opened now agent_id b session_ref d =
     and_then (validate_binding b) (\<lambda>_.
     and_then (validate_bounded ''session reference'' session_ref MAX_SESSION_REF_BYTES) (\<lambda>_.
     and_then (owner_fence_new agent_id b) (\<lambda>fence.
     and_then (exact_binding_row agent_id b d) (\<lambda>row.
     and_then (validate_owner row b) (\<lambda>_.
     and_then (case s_state row of
         Opening \<Rightarrow> fenced_update fence (\<lambda>s. s_state s = Opening) (opened_row session_ref now)
             ''session binding changed while opening'' d
       | Ready \<Rightarrow>
           if s_session_ref row = Some session_ref then Inr d
           else Inl (Conflict ''session opening was replayed with a different native reference'')
       | st \<Rightarrow> Inl (Conflict (''session reference cannot be recorded while binding is ''
             @ session_binding_state_as_str st))) (\<lambda>d.
     and_then (binding_by_identity agent_id b d) (\<lambda>session. Inr (session, d))))))))"

definition retire_session_binding ::
  "i64 \<Rightarrow> string \<Rightarrow> binding \<Rightarrow> string \<Rightarrow> session_binding transaction" where
  "retire_session_binding now agent_id b reason d =
     and_then (validate_binding b) (\<lambda>_.
     and_then (validate_bounded ''retirement reason'' reason MAX_REASON_BYTES) (\<lambda>_.
     and_then (owner_fence_new agent_id b) (\<lambda>fence.
     and_then (exact_binding_row agent_id b d) (\<lambda>row.
     and_then (validate_owner row b) (\<lambda>_.
     and_then
       (if s_state row = Active
        then Inl (Conflict ''active session binding must become uncertain before retirement'')
        else if s_state row = Retired then
          if s_retired_reason row \<noteq> Some reason
          then Inl (Conflict ''session binding was already retired for a different reason'')
          else Inr d
        else fenced_update fence (\<lambda>s. s_state s \<noteq> Active \<and> s_state s \<noteq> Retired)
               (retired_row reason now) ''session binding changed during retirement'' d) (\<lambda>d.
     and_then (binding_by_identity agent_id b d) (\<lambda>session. Inr (session, d))))))))"

section \<open>Turns\<close>

definition activate_binding_turn :: "string \<Rightarrow> string \<Rightarrow> binding \<Rightarrow> i64 \<Rightarrow> db \<Rightarrow> db result" where
  "activate_binding_turn agent_id invocation_id b now d =
     and_then (owner_fence_new agent_id b) (\<lambda>fence.
     case find (\<lambda>t. t_invocation_id t = invocation_id) (session_binding_turns d) of
       Some t \<Rightarrow>
         if t_binding_id t = f_binding_id fence
           \<and> t_binding_generation t = f_binding_generation fence
           \<and> t_owner_epoch t = f_owner_epoch fence \<and> t_state t = TurnActive
         then Inr d
         else Inl (Conflict ''invocation is already bound to different session ownership'')
     | None \<Rightarrow>
         and_then (insert_turn_row \<lparr>t_invocation_id = invocation_id,
             t_binding_id = f_binding_id fence, t_binding_generation = f_binding_generation fence,
             t_owner_epoch = f_owner_epoch fence, t_state = TurnActive, t_started_at_ms = now,
             t_terminal_at_ms = None, t_session_persistence = None,
             t_uncertain_reason = None\<rparr> d) (\<lambda>d.
         fenced_update fence (\<lambda>s. s_state s = Ready \<and> s_active_invocation_id s = None)
           (activated_row invocation_id now) ''session binding changed while turn was armed'' d))"

definition update_turn ::
  "string \<Rightarrow> (turn_row \<Rightarrow> turn_row) \<Rightarrow> string \<Rightarrow> db \<Rightarrow> db result" where
  "update_turn invocation_id set_turn message d =
     (let P = \<lambda>t. t_invocation_id t = invocation_id \<and> t_state t = TurnActive in
      if rows_affected P (session_binding_turns d) \<noteq> 1 then Inl (Conflict message)
      else Inr (d\<lparr>session_binding_turns := update_where P set_turn (session_binding_turns d)\<rparr>))"

definition settle_quiescent_turn ::
  "string \<Rightarrow> string \<Rightarrow> binding \<Rightarrow> session_persistence \<Rightarrow> i64 \<Rightarrow> db \<Rightarrow> db result" where
  "settle_quiescent_turn agent_id invocation_id b persistence now d =
     and_then (bound_turn_row invocation_id d) (\<lambda>t.
     if t_state t = TurnQuiescent then
       if t_session_persistence t \<noteq> Some persistence
       then Inl (Conflict ''session completion replay changed persistence evidence'')
       else Inr d
     else if t_state t \<noteq> TurnActive
     then Inl (Conflict ''non-active session turn cannot become quiescent'')
     else
       and_then (update_turn invocation_id (\<lambda>t. t\<lparr>t_state := TurnQuiescent,
           t_terminal_at_ms := Some now, t_session_persistence := Some persistence\<rparr>)
         ''session turn changed during completion'' d) (\<lambda>d.
       and_then (owner_fence_new agent_id b) (\<lambda>fence.
       fenced_update fence (\<lambda>s. s_state s = Active \<and> s_active_invocation_id s = Some invocation_id)
         (quiescent_row invocation_id persistence now)
         ''session binding changed during completion'' d)))"

definition mark_turn_uncertain ::
  "string \<Rightarrow> string \<Rightarrow> binding \<Rightarrow> string \<Rightarrow> i64 \<Rightarrow> db \<Rightarrow> db result" where
  "mark_turn_uncertain agent_id invocation_id b reason now d =
     and_then (update_turn invocation_id (\<lambda>t. t\<lparr>t_state := TurnUncertain,
         t_terminal_at_ms := Some now, t_uncertain_reason := Some reason\<rparr>)
       ''session turn changed while fencing uncertainty'' d) (\<lambda>d.
     and_then (owner_fence_new agent_id b) (\<lambda>fence.
     fenced_update fence (\<lambda>s. s_state s = Active \<and> s_active_invocation_id s = Some invocation_id)
       (uncertain_row reason now) ''session binding changed while fencing uncertainty'' d))"

definition mark_session_invocation_uncertain ::
  "i64 \<Rightarrow> string \<Rightarrow> string \<Rightarrow> binding \<Rightarrow> string \<Rightarrow> session_binding transaction" where
  "mark_session_invocation_uncertain now agent_id invocation_id b reason d =
     and_then (validate_binding b) (\<lambda>_.
     and_then (validate_bounded ''uncertain reason'' reason MAX_REASON_BYTES) (\<lambda>_.
     and_then (validate_bound_turn agent_id invocation_id b False d) (\<lambda>_.
     and_then (exact_binding_row agent_id b d) (\<lambda>row.
     and_then
       (if s_state row = Uncertain then
          if s_uncertain_reason row \<noteq> Some reason
          then Inl (Conflict ''session uncertainty was already recorded with different evidence'')
          else Inr d
        else if s_state row = Active then mark_turn_uncertain agent_id invocation_id b reason now d
        else Inl (Conflict (''session turn cannot become uncertain while binding is ''
               @ session_binding_state_as_str (s_state row)))) (\<lambda>d.
     and_then (binding_by_identity agent_id b d) (\<lambda>session. Inr (session, d)))))))"

text \<open>The turns of an invocation joined with their bindings.\<close>

definition turn_bindings :: "db \<Rightarrow> (turn_row \<times> binding_row) list" where
  "turn_bindings d =
     [(t, s). t \<leftarrow> session_binding_turns d, s \<leftarrow> session_bindings d,
        s_binding_id s = t_binding_id t \<and> s_binding_generation s = t_binding_generation t]"

definition mark_expired_session_turn_uncertain ::
  "string \<Rightarrow> string \<Rightarrow> i64 \<Rightarrow> db \<Rightarrow> db result" where
  "mark_expired_session_turn_uncertain invocation_id reason now d =
     (case find (\<lambda>(t, s). t_invocation_id t = invocation_id) (turn_bindings d) of
        None \<Rightarrow> Inr d
      | Some (t, s) \<Rightarrow>
          if s_active_invocation_id s \<noteq> Some invocation_id
          then Inl (Conflict ''expired session turn is not the binding's active invocation'')
          else if t_state t = TurnUncertain \<and> s_state s = Uncertain then Inr d
          else if t_state t \<noteq> TurnActive \<or> s_state s \<noteq> Active
          then Inl (Conflict ''expired invocation has inconsistent session binding state'')
          else
            and_then (positive_u64 ''binding generation'' (t_binding_generation t)) (\<lambda>generation.
            and_then (positive_u64 ''owner epoch'' (t_owner_epoch t)) (\<lambda>epoch.
            mark_turn_uncertain (s_agent_id s) invocation_id
              \<lparr>bind_id = t_binding_id t, bind_generation = generation, bind_owner_epoch = epoch\<rparr>
              reason now d)))"

definition ensure_invocation_not_active_on_session :: "string \<Rightarrow> db \<Rightarrow> unit result" where
  "ensure_invocation_not_active_on_session invocation_id d =
     (case find (\<lambda>t. t_invocation_id t = invocation_id) (session_binding_turns d) of
        None \<Rightarrow> Inr ()
      | Some t \<Rightarrow>
          if t_state t = TurnActive \<or> t_state t = TurnUncertain
          then Inl (Conflict ''session-bound invocation must be settled through its binding fence'')
          else Inr ())"

definition ensure_bound_turn_allows_delivery_settlement ::
  "string \<Rightarrow> string \<Rightarrow> string \<Rightarrow> bool \<Rightarrow> db \<Rightarrow> unit result" where
  "ensure_bound_turn_allows_delivery_settlement agent_id message_id lease_token
     allow_uncertain_block d =
     (case find (\<lambda>(i, m, t). i_agent_id i = agent_id \<and> m_id m = message_id
            \<and> i_lease_token i = lease_token \<and> i_state i \<noteq> Terminal)
          [(i, m, t). i \<leftarrow> invocations d, m \<leftarrow> messages d, t \<leftarrow> session_binding_turns d,
             m_seq m = i_message_seq i \<and> t_invocation_id t = i_id i] of
        None \<Rightarrow> Inr ()
      | Some (i, m, t) \<Rightarrow>
          (case t_state t of
             TurnQuiescent \<Rightarrow> Inr ()
           | TurnUncertain \<Rightarrow>
               if allow_uncertain_block then Inr ()
               else Inl (Conflict ''session-bound invocation must be settled through its binding fence'')
           | TurnActive \<Rightarrow>
               Inl (Conflict ''session-bound invocation must be settled through its binding fence'')))"

definition operator_retirement_reason :: "i64 \<Rightarrow> block_resolution \<Rightarrow> string" where
  "operator_retirement_reason block_id resolution =
     ''operator_resolved_delivery_block_'' @ show_int block_id @ ''_'' @
       (case resolution of Requeue \<Rightarrow> ''requeued'' | Abandon \<Rightarrow> ''abandoned'')"

definition retire_uncertain_session_for_delivery_block ::
  "i64 \<Rightarrow> block_resolution \<Rightarrow> i64 \<Rightarrow> bool transaction" where
  "retire_uncertain_session_for_delivery_block block_id resolution now d =
     (case find (\<lambda>(b, i, t, s). b_id b = block_id)
          [(b, i, t, s). b \<leftarrow> delivery_blocks d, i \<leftarrow> invocations d, (t, s) \<leftarrow> turn_bindings d,
             i_message_seq i = b_message_seq b \<and> i_agent_id i = b_agent_id b
             \<and> i_lease_token i = b_lease_token b \<and> t_invocation_id t = i_id i] of
        None \<Rightarrow> Inr (False, d)
      | Some (b, i, t, s) \<Rightarrow>
          let reason = operator_retirement_reason block_id resolution in
          if s_state s = Retired then
            if s_retired_reason s = Some reason then Inr (True, d)
            else Inl (Conflict ''delivery block session was already retired differently'')
          else if i_state i \<noteq> Terminal \<or> i_execution_certainty i \<noteq> Some OutcomeUnknown
            \<or> t_state t \<noteq> TurnUncertain \<or> s_state s \<noteq> Uncertain
            \<or> s_active_invocation_id s \<noteq> Some (i_id i)
          then Inl (Conflict ''delivery block does not identify one recoverable uncertain session'')
          else
            and_then (fenced_update \<lparr>f_binding_id = s_binding_id s,
                f_binding_generation = s_binding_generation s, f_agent_id = s_agent_id s,
                f_owner_epoch = s_owner_epoch s\<rparr>
              (\<lambda>q. s_state q = Uncertain \<and> s_active_invocation_id q = Some (i_id i))
              (retired_row reason now) ''uncertain session changed during operator recovery'' d) (\<lambda>d.
            Inr (True, d)))"

section \<open>What session writes leave alone\<close>

text \<open>The tables the kernel and the invocation fence own.\<close>

definition same_core :: "db \<Rightarrow> db \<Rightarrow> bool" where
  "same_core d d' \<longleftrightarrow>
     agents d' = agents d \<and> channels d' = channels d \<and> channel_members d' = channel_members d
     \<and> messages d' = messages d \<and> messages_sequence d' = messages_sequence d
     \<and> agent_deliveries d' = agent_deliveries d \<and> delivery_blocks d' = delivery_blocks d
     \<and> delivery_blocks_sequence d' = delivery_blocks_sequence d \<and> invocations d' = invocations d"

lemma same_core_refl [simp]: "same_core d d"
  by (simp add: same_core_def)

lemma same_core_trans [trans]: "same_core d d' \<Longrightarrow> same_core d' d'' \<Longrightarrow> same_core d d''"
  by (simp add: same_core_def)

text \<open>A write of the session tables alone.\<close>

definition session_only :: "db \<Rightarrow> db \<Rightarrow> bool" where
  "session_only d d' \<longleftrightarrow> same_core d d' \<and> plugin_generations d' = plugin_generations d
     \<and> invocation_observations d' = invocation_observations d"

lemma session_only_refl [simp]: "session_only d d"
  by (simp add: session_only_def)

lemma session_only_trans [trans]: "session_only d d' \<Longrightarrow> session_only d' d'' \<Longrightarrow> session_only d d''"
  by (simp add: session_only_def same_core_def)

lemma session_only_core: "session_only d d' \<Longrightarrow> same_core d d'"
  by (simp add: session_only_def)

lemma fenced_update_only: "fenced_update f ok set_row msg d = Inr d' \<Longrightarrow> session_only d d'"
  by (auto simp: fenced_update_def Let_def session_only_def same_core_def split: if_splits)

lemma update_turn_only: "update_turn iid set_turn msg d = Inr d' \<Longrightarrow> session_only d d'"
  by (auto simp: update_turn_def Let_def session_only_def same_core_def split: if_splits)

lemma insert_turn_row_only: "insert_turn_row t d = Inr d' \<Longrightarrow> session_only d d'"
  by (auto simp: insert_turn_row_def session_only_def same_core_def split: if_splits)

lemma insert_binding_row_only: "insert_binding_row s d = Inr d' \<Longrightarrow> session_only d d'"
  by (auto simp: insert_binding_row_def session_only_def same_core_def split: if_splits)

lemmas session_row_only = fenced_update_only update_turn_only insert_turn_row_only
  insert_binding_row_only

lemma mark_turn_uncertain_only: "mark_turn_uncertain a iid b reason now d = Inr d' \<Longrightarrow> session_only d d'"
  unfolding mark_turn_uncertain_def and_then_eq_Inr
  by (blast intro: session_only_trans session_row_only)

lemma mark_expired_only:
  "mark_expired_session_turn_uncertain iid reason now d = Inr d' \<Longrightarrow> session_only d d'"
  unfolding mark_expired_session_turn_uncertain_def
  by (auto simp: and_then_eq_Inr intro: mark_turn_uncertain_only split: option.splits if_splits)

lemma activate_binding_turn_only:
  assumes "activate_binding_turn a iid b now d = Inr d'"
  shows "session_only d d'"
proof -
  obtain fence where "d' = d \<or> (\<exists>t d1. insert_turn_row t d = Inr d1 \<and>
      fenced_update fence (\<lambda>s. s_state s = Ready \<and> s_active_invocation_id s = None)
        (activated_row iid now) ''session binding changed while turn was armed'' d1 = Inr d')"
    using assms unfolding activate_binding_turn_def and_then_eq_Inr
    by (auto simp: and_then_eq_Inr split: option.splits if_splits)
  then show ?thesis by (blast intro: session_only_trans session_row_only session_only_refl)
qed

lemma settle_quiescent_turn_only:
  assumes "settle_quiescent_turn a iid b p now d = Inr d'"
  shows "session_only d d'"
  using assms unfolding settle_quiescent_turn_def
  by (auto simp: and_then_eq_Inr split: if_splits
      intro: session_only_trans [OF update_turn_only fenced_update_only])

lemma retire_uncertain_only:
  assumes "retire_uncertain_session_for_delivery_block bid res now d = Inr (x, d')"
  shows "session_only d d'"
proof -
  have "d' = d \<or> (\<exists>f ok set_row msg. fenced_update f ok set_row msg d = Inr d')"
    using assms unfolding retire_uncertain_session_for_delivery_block_def
    by (auto simp: and_then_eq_Inr Let_def split: option.splits if_splits prod.splits)
  then show ?thesis by (blast intro: session_row_only session_only_refl)
qed

lemma record_session_opened_only:
  assumes "record_session_opened now a b r d = Inr (x, d')"
  shows "session_only d d'"
  using assms unfolding record_session_opened_def and_then_eq_Inr
  apply clarify
  subgoal for _ _ fence row
    by (cases "s_state row") (auto split: if_splits dest: fenced_update_only)
  done

lemma retire_session_binding_only:
  assumes "retire_session_binding now a b r d = Inr (x, d')"
  shows "session_only d d'"
proof -
  have "d' = d \<or> (\<exists>f ok set_row msg. fenced_update f ok set_row msg d = Inr d')"
    using assms unfolding retire_session_binding_def and_then_eq_Inr
    by (auto split: if_splits)
  then show ?thesis by (blast intro: session_row_only session_only_refl)
qed

lemma mark_session_invocation_uncertain_only:
  assumes "mark_session_invocation_uncertain now a iid b reason d = Inr (x, d')"
  shows "session_only d d'"
proof -
  have "d' = d \<or> mark_turn_uncertain a iid b reason now d = Inr d'"
    using assms unfolding mark_session_invocation_uncertain_def and_then_eq_Inr
    by (auto split: if_splits)
  then show ?thesis by (blast intro: mark_turn_uncertain_only session_only_refl)
qed

lemma insert_binding_only:
  "insert_binding bid g a inp now d = Inr (x, d') \<Longrightarrow> session_only d d'"
  unfolding insert_binding_def and_then_eq_Inr by (auto dest: insert_binding_row_only)

lemma acquire_session_binding_only:
  assumes "acquire_session_binding uuid now a inp d = Inr (x, d')"
  shows "session_only d d'"
proof -
  have rotate: "rotate_binding ex a inp now reason d = Inr (x, d') \<Longrightarrow> session_only d d'" for ex reason
    unfolding rotate_binding_def and_then_eq_Inr
    by (blast intro: session_only_trans insert_binding_only fenced_update_only)
  have adopt: "adopt_binding ex owner now d = Inr (x, d') \<Longrightarrow> session_only d d'" for ex owner
    unfolding adopt_binding_def and_then_eq_Inr by (auto dest: fenced_update_only)
  have existing: "acquire_existing row a inp now d = Inr (x, d') \<Longrightarrow> session_only d d'" for row
    unfolding acquire_existing_def and_then_eq_Inr
    by (auto simp: and_then_eq_Inr intro: rotate adopt split: if_splits session_binding_state.splits)
  have fresh: "insert_after_latest_retired uuid a inp now d = Inr (x, d') \<Longrightarrow> session_only d d'"
    unfolding insert_after_latest_retired_def
    by (auto simp: and_then_eq_Inr intro: insert_binding_only split: option.splits if_splits)
  show ?thesis
    using assms unfolding acquire_session_binding_def and_then_eq_Inr
    by (auto intro: existing fresh split: option.splits)
qed

lemmas fenced_update_core = session_only_core [OF fenced_update_only]
  and update_turn_core = session_only_core [OF update_turn_only]
  and insert_turn_row_core = session_only_core [OF insert_turn_row_only]
  and insert_binding_row_core = session_only_core [OF insert_binding_row_only]
  and mark_turn_uncertain_core = session_only_core [OF mark_turn_uncertain_only]
  and mark_expired_core = session_only_core [OF mark_expired_only]
  and activate_binding_turn_core = session_only_core [OF activate_binding_turn_only]
  and settle_quiescent_turn_core = session_only_core [OF settle_quiescent_turn_only]
  and retire_uncertain_core = session_only_core [OF retire_uncertain_only]
  and record_session_opened_core = session_only_core [OF record_session_opened_only]
  and retire_session_binding_core = session_only_core [OF retire_session_binding_only]
  and mark_session_invocation_uncertain_core = session_only_core [OF mark_session_invocation_uncertain_only]
  and insert_binding_core = session_only_core [OF insert_binding_only]
  and acquire_session_binding_core = session_only_core [OF acquire_session_binding_only]

end
