(* ===== verification/Invocation.thy ===== *)
theory Invocation
  imports Session_Fence
begin

text \<open>
  The invocation fence: \<open>crates/execution/src/invocation.rs\<close>.  An invocation is one managed attempt
  at a delivery.  It is reserved together with the lease, armed before anything effectful is sent,
  and ends terminal with an honest certainty.

  The invariant proved here is the contract of the execution layer.  While an invocation is open,
  its delivery is leased under the same token, with the same expiry and attempt.  Once it has been
  armed, its delivery goes on only by being acknowledged, or by being blocked until an operator
  decides.
\<close>

section \<open>Reading invocations\<close>

definition invalid_stored_state :: "string \<Rightarrow> string \<Rightarrow> fleet_error" where
  "invalid_stored_state entity value =
     Invalid (''stored '' @ entity @ '' state is invalid: '' @ value)"

definition invocation_state_of :: "string \<Rightarrow> invocation_state result" where
  "invocation_state_of state =
     ok_or (invocation_state_parse state) (invalid_stored_state ''invocation'' state)"

text \<open>\<open>invocation_select\<close>: an invocation, its message and its result message.\<close>

definition invocation_select :: "db \<Rightarrow> (invocation_row \<times> message_row \<times> message_row option) list" where
  "invocation_select d =
     [(i, m, r). i \<leftarrow> invocations d, m \<leftarrow> messages d,
        r \<leftarrow> (case i_result_message_seq i of
               None \<Rightarrow> [None] | Some seq \<Rightarrow> [find (\<lambda>m. m_seq m = seq) (messages d)]),
        m_seq m = i_message_seq i]"

definition invocation_from_row ::
  "invocation_row \<times> message_row \<times> message_row option \<Rightarrow> invocation result" where
  "invocation_from_row = (\<lambda>(i, m, r).
     and_then (invocation_state_of (invocation_state_as_str (i_state i))) (\<lambda>state.
     and_then (case i_execution_certainty i of
           None \<Rightarrow> Inr None
         | Some c \<Rightarrow>
             let value = execution_certainty_as_str c in
             and_then (ok_or (execution_certainty_parse value)
               (invalid_stored_state ''execution certainty'' value)) (\<lambda>c. Inr (Some c))) (\<lambda>certainty.
     Inr \<lparr>inv_id = i_id i, inv_agent_id = i_agent_id i, inv_message = message_from_row m,
          inv_delivery_attempt = i_delivery_attempt i, inv_lease_token = i_lease_token i,
          inv_lease_expires_at_ms = i_lease_expires_at_ms i, inv_fence_token = i_fence_token i,
          inv_state = state, inv_reserved_at_ms = i_reserved_at_ms i,
          inv_dispatch_armed_at_ms = i_dispatch_armed_at_ms i,
          inv_terminal_at_ms = i_terminal_at_ms i, inv_execution_certainty = certainty,
          inv_terminal_reason = i_terminal_reason i,
          inv_result_message_id = map_option m_id r\<rparr>)))"

definition invocation_by_id :: "string \<Rightarrow> db \<Rightarrow> invocation result" where
  "invocation_by_id invocation_id d =
     (case find (\<lambda>(i, m, r). i_id i = invocation_id) (invocation_select d) of
        None \<Rightarrow> Inl (NotFound ''invocation'' invocation_id)
      | Some row \<Rightarrow> invocation_from_row row)"

definition get_invocation :: "string \<Rightarrow> db \<Rightarrow> invocation result" where
  "get_invocation invocation_id d =
     and_then (ok_or (find (\<lambda>(i, m, r). i_id i = invocation_id) (invocation_select d))
       (NotFound ''invocation'' invocation_id)) invocation_from_row"

text \<open>\<open>ORDER BY i.reserved_at_ms DESC, i.id DESC LIMIT 500\<close>.\<close>

definition list_invocations :: "string option \<Rightarrow> db \<Rightarrow> invocation list result" where
  "list_invocations agent_id d =
     try_fold (\<lambda>row xs. and_then (invocation_from_row row) (\<lambda>x. Inr (xs @ [x])))
       (take 500 (rev (sort_key (\<lambda>(i, m, r). (i_reserved_at_ms i, i_id i))
         (filter (\<lambda>(i, m, r). case agent_id of None \<Rightarrow> True | Some a \<Rightarrow> i_agent_id i = a)
           (invocation_select d))))) []"

definition invocation_with_delivery ::
  "string \<Rightarrow> string \<Rightarrow> db \<Rightarrow> (invocation_row \<times> delivery_row \<times> message_row) result" where
  "invocation_with_delivery agent_id invocation_id d =
     ok_or (find (\<lambda>(i, r, m). i_id i = invocation_id \<and> i_agent_id i = agent_id)
         [(i, r, m). i \<leftarrow> invocations d, r \<leftarrow> agent_deliveries d, m \<leftarrow> messages d,
            d_message_seq r = i_message_seq i \<and> d_agent_id r = i_agent_id i
            \<and> m_seq m = i_message_seq i])
       (NotFound ''invocation'' invocation_id)"

definition message_by_seq :: "i64 \<Rightarrow> db \<Rightarrow> message result" where
  "message_by_seq seq d =
     and_then (ok_or (find (\<lambda>m. m_seq m = seq) (messages d))
       (NotFound ''message'' (show_int seq))) (\<lambda>m. Inr (message_from_row m))"

section \<open>Fences\<close>

definition require_nonempty :: "(string \<times> string) list \<Rightarrow> unit result" where
  "require_nonempty labelled =
     try_fold (\<lambda>(label, value) _.
       if trim_is_empty value then Inl (Invalid (label @ '' must not be empty'')) else Inr ())
       labelled ()"

definition validate_arm :: "string \<Rightarrow> arm_invocation_input \<Rightarrow> unit result" where
  "validate_arm invocation_id inp =
     require_nonempty [(''invocation ID'', invocation_id), (''lease token'', arm_lease_token inp),
       (''fence token'', arm_fence_token inp)]"

definition validate_completion :: "string \<Rightarrow> complete_invocation_input \<Rightarrow> unit result" where
  "validate_completion invocation_id inp =
     require_nonempty [(''invocation ID'', invocation_id), (''lease token'', complete_lease_token inp),
       (''fence token'', complete_fence_token inp), (''result kind'', complete_kind inp)]"

definition validate_static_fence :: "invocation_row \<Rightarrow> string \<Rightarrow> string \<Rightarrow> unit result" where
  "validate_static_fence i lease_token fence_token =
     (if i_lease_token i \<noteq> lease_token \<or> i_fence_token i \<noteq> fence_token
      then Inl (LeaseConflict ''invocation lease or fence token is invalid'')
      else Inr ())"

definition validate_live_lease :: "invocation_row \<Rightarrow> delivery_row \<Rightarrow> string \<Rightarrow> i64 \<Rightarrow> unit result" where
  "validate_live_lease i r lease_token now =
     (if i_lease_expires_at_ms i \<le> now
        \<or> (case d_lease_expires_at_ms r of None \<Rightarrow> True | Some expiry \<Rightarrow> expiry \<le> now)
        \<or> d_state r \<noteq> Leased
        \<or> d_lease_token r \<noteq> Some lease_token
      then Inl (LeaseConflict ''invocation lease is expired or no longer owns the delivery'')
      else Inr ())"

definition validate_invocation_fence ::
  "invocation_row \<Rightarrow> delivery_row \<Rightarrow> arm_invocation_input \<Rightarrow> i64 \<Rightarrow> unit result" where
  "validate_invocation_fence i r inp now =
     and_then (validate_static_fence i (arm_lease_token inp) (arm_fence_token inp)) (\<lambda>_.
     validate_live_lease i r (arm_lease_token inp) now)"

section \<open>Arming\<close>

definition armed_row :: "i64 \<Rightarrow> invocation_row \<Rightarrow> invocation_row" where
  "armed_row now i = i\<lparr>i_state := DispatchArmed, i_dispatch_armed_at_ms := Some now\<rparr>"

definition arm_invocation_transaction ::
  "string \<Rightarrow> string \<Rightarrow> arm_invocation_input \<Rightarrow> i64 \<Rightarrow> invocation transaction" where
  "arm_invocation_transaction agent_id invocation_id inp now d =
     and_then (validate_arm invocation_id inp) (\<lambda>_.
     and_then (invocation_with_delivery agent_id invocation_id d) (\<lambda>(i, r, m).
     and_then (validate_invocation_fence i r inp now) (\<lambda>_.
     and_then
       (case i_state i of
          Reserved \<Rightarrow>
            (let P = \<lambda>i. i_id i = invocation_id \<and> i_agent_id i = agent_id \<and> i_state i = Reserved in
             if rows_affected P (invocations d) \<noteq> 1
             then Inl (Conflict ''invocation changed while dispatch was armed'')
             else Inr (d\<lparr>invocations := update_where P (armed_row now) (invocations d)\<rparr>))
        | DispatchArmed \<Rightarrow> Inr d
        | Terminal \<Rightarrow> Inl (Conflict ''terminal invocation cannot be dispatched'')) (\<lambda>d.
     and_then (invocation_by_id invocation_id d) (\<lambda>inv. Inr (inv, d))))))"

definition arm_invocation ::
  "i64 \<Rightarrow> string \<Rightarrow> string \<Rightarrow> arm_invocation_input \<Rightarrow> invocation transaction" where
  "arm_invocation now agent_id invocation_id inp =
     arm_invocation_transaction agent_id invocation_id inp now"

section \<open>Completing\<close>

definition result_input ::
  "string \<Rightarrow> string \<Rightarrow> message_row \<Rightarrow> complete_invocation_input \<Rightarrow> create_message" where
  "result_input agent_id invocation_id m inp =
     \<lparr>new_sender_id = agent_id,
      new_idempotency_key = Some (''invocation/'' @ invocation_id @ ''/result''),
      new_recipient_id = Some (m_sender_id m), new_kind = complete_kind inp,
      new_payload = complete_payload inp, new_correlation_id = m_correlation_id m,
      new_causation_id = Some (m_id m)\<rparr>"

definition ensure_result_key_unused :: "string \<Rightarrow> string \<Rightarrow> db \<Rightarrow> unit result" where
  "ensure_result_key_unused agent_id invocation_id d =
     (if rows_affected (\<lambda>m. m_sender_id m = agent_id
           \<and> m_idempotency_key m = Some (''invocation/'' @ invocation_id @ ''/result''))
           (messages d) \<noteq> 0
      then Inl (Conflict ''invocation result key was already used outside completion'')
      else Inr ())"

definition acknowledge_invocation_delivery ::
  "invocation_row \<Rightarrow> string \<Rightarrow> string \<Rightarrow> i64 \<Rightarrow> db \<Rightarrow> db result" where
  "acknowledge_invocation_delivery i agent_id lease_token now d =
     (let (moved, d) = acknowledge_leased_seq agent_id (i_message_seq i) lease_token now d in
      if \<not> moved then Inl (LeaseConflict ''invocation no longer owns its input delivery'')
      else Inr d)"

definition message_matches_result :: "message \<Rightarrow> string \<Rightarrow> create_message \<Rightarrow> bool" where
  "message_matches_result m channel_id inp \<longleftrightarrow>
     msg_channel_id m = channel_id
     \<and> msg_sender_id m = new_sender_id inp
     \<and> msg_recipient_id m = new_recipient_id inp
     \<and> msg_kind m = new_kind inp
     \<and> msg_payload m = new_payload inp
     \<and> msg_correlation_id m = new_correlation_id inp
     \<and> msg_causation_id m = new_causation_id inp"

definition completed_replay ::
  "string \<Rightarrow> invocation_row \<Rightarrow> message_row \<Rightarrow> create_message \<Rightarrow> db \<Rightarrow> invocation_completion result" where
  "completed_replay invocation_id i m expected d =
     (case i_result_message_seq i of
        None \<Rightarrow> Inl (Conflict ''terminal invocation was not completed with a result'')
      | Some seq \<Rightarrow>
          if i_terminal_reason i \<noteq> Some ''completed''
          then Inl (Conflict ''terminal invocation was not completed with a result'')
          else
            and_then (message_by_seq seq d) (\<lambda>result.
            if \<not> message_matches_result result (m_channel_id m) expected
            then Inl (Conflict ''invocation was already completed with a different result'')
            else
              and_then (invocation_by_id invocation_id d) (\<lambda>inv.
              Inr \<lparr>completion_invocation = inv, completion_result = result\<rparr>)))"

definition completed_row :: "i64 \<Rightarrow> i64 \<Rightarrow> invocation_row \<Rightarrow> invocation_row" where
  "completed_row now result_seq i = i\<lparr>i_state := Terminal, i_terminal_at_ms := Some now,
     i_execution_certainty := Some OutcomeKnown, i_terminal_reason := Some ''completed'',
     i_result_message_seq := Some result_seq\<rparr>"

definition complete_invocation_transaction ::
  "string \<Rightarrow> i64 \<Rightarrow> string \<Rightarrow> string \<Rightarrow> complete_invocation_input \<Rightarrow> i64 \<Rightarrow> bool
    \<Rightarrow> (invocation_completion \<times> bool) transaction" where
  "complete_invocation_transaction uuid msg_now agent_id invocation_id inp now allow_active d =
     and_then (validate_completion invocation_id inp) (\<lambda>_.
     and_then (if allow_active then Inr () else ensure_invocation_not_active_on_session invocation_id d) (\<lambda>_.
     and_then (invocation_with_delivery agent_id invocation_id d) (\<lambda>(i, r, m).
     and_then (validate_static_fence i (complete_lease_token inp) (complete_fence_token inp)) (\<lambda>_.
     let expected = result_input agent_id invocation_id m inp in
     if i_state i = Terminal then
       and_then (completed_replay invocation_id i m expected d) (\<lambda>completion.
       Inr ((completion, False), d))
     else if i_state i \<noteq> DispatchArmed
     then Inl (Conflict ''invocation must be armed before completion'')
     else
       and_then (validate_live_lease i r (complete_lease_token inp) now) (\<lambda>_.
       and_then (ensure_result_key_unused agent_id invocation_id d) (\<lambda>_.
       and_then (insert_message uuid msg_now (m_channel_id m) expected d) (\<lambda>(result, d).
       and_then (acknowledge_invocation_delivery i agent_id (complete_lease_token inp) now d) (\<lambda>d.
       let P = \<lambda>i. i_id i = invocation_id \<and> i_agent_id i = agent_id \<and> i_state i = DispatchArmed in
       if rows_affected P (invocations d) \<noteq> 1
       then Inl (Conflict ''invocation changed during completion'')
       else
         let d = d\<lparr>invocations := update_where P (completed_row now (msg_seq result)) (invocations d)\<rparr> in
         and_then (invocation_by_id invocation_id d) (\<lambda>inv.
         Inr ((\<lparr>completion_invocation = inv, completion_result = result\<rparr>, True), d))))))))))"

definition complete_invocation ::
  "string \<Rightarrow> i64 \<Rightarrow> i64 \<Rightarrow> string \<Rightarrow> string \<Rightarrow> complete_invocation_input
    \<Rightarrow> (invocation_completion \<times> bool) transaction" where
  "complete_invocation uuid msg_now now agent_id invocation_id inp =
     complete_invocation_transaction uuid msg_now agent_id invocation_id inp now False"

section \<open>Recovering expired invocations\<close>

definition terminal_row ::
  "i64 \<Rightarrow> execution_certainty \<Rightarrow> string \<Rightarrow> invocation_row \<Rightarrow> invocation_row" where
  "terminal_row now certainty reason i = i\<lparr>i_state := Terminal, i_terminal_at_ms := Some now,
     i_execution_certainty := Some certainty, i_terminal_reason := Some reason\<rparr>"

text \<open>
  The delivery of an invocation, leased under its token with a lapsed lease: the condition the
  recovery queries share.
\<close>

definition lapsed_delivery :: "i64 \<Rightarrow> invocation_row \<Rightarrow> delivery_row \<Rightarrow> bool" where
  "lapsed_delivery now i r \<longleftrightarrow>
     d_message_seq r = i_message_seq i
     \<and> d_agent_id r = i_agent_id i
     \<and> d_state r = Leased
     \<and> d_lease_token r = Some (i_lease_token i)
     \<and> (case d_lease_expires_at_ms r of None \<Rightarrow> False | Some expiry \<Rightarrow> expiry \<le> now)"

definition terminalize_expired_reservations :: "string \<Rightarrow> i64 \<Rightarrow> db \<Rightarrow> u64 \<times> db" where
  "terminalize_expired_reservations agent_id now d =
     (let P = \<lambda>i. i_agent_id i = agent_id \<and> i_state i = Reserved \<and> i_lease_expires_at_ms i \<le> now
            \<and> (\<exists>r\<in>set (agent_deliveries d). lapsed_delivery now i r) in
      (of_nat (rows_affected P (invocations d)),
       d\<lparr>invocations := update_where P
           (terminal_row now NotStarted ''reservation_expired_before_dispatch'') (invocations d)\<rparr>))"

definition park_expired_armed_invocation ::
  "string \<Rightarrow> i64 \<Rightarrow> invocation_row \<times> delivery_row \<Rightarrow> db \<Rightarrow> db result" where
  "park_expired_armed_invocation agent_id now = (\<lambda>(i, r) d.
     let reason = ''invocation '' @ i_id i @ '' lease expired after dispatch was armed'' in
     let (moved, d) = block_expired_lease agent_id (i_message_seq i) (i_lease_token i) reason now d in
     if \<not> moved then Inl (Conflict ''expired invocation delivery changed during recovery'')
     else
       and_then (record_block (i_message_seq i) agent_id (d_attempt r) (i_lease_token i) reason now d) (\<lambda>d.
       let P = \<lambda>j. i_id j = i_id i \<and> i_state j = DispatchArmed in
       if rows_affected P (invocations d) \<noteq> 1
       then Inl (Conflict ''expired invocation changed during recovery'')
       else
         mark_expired_session_turn_uncertain (i_id i) reason now
           (d\<lparr>invocations := update_where P
              (terminal_row now OutcomeUnknown ''lease_expired_after_dispatch_armed'')
              (invocations d)\<rparr>)))"

definition expired_armed :: "string \<Rightarrow> i64 \<Rightarrow> db \<Rightarrow> (invocation_row \<times> delivery_row) list" where
  "expired_armed agent_id now d =
     sort_key (\<lambda>(i, r). (i_reserved_at_ms i, i_id i))
       [(i, r). i \<leftarrow> invocations d, r \<leftarrow> agent_deliveries d,
          lapsed_delivery now i r \<and> i_agent_id i = agent_id \<and> i_state i = DispatchArmed
          \<and> i_lease_expires_at_ms i \<le> now]"

definition recover_expired_invocations_transaction :: "string \<Rightarrow> i64 \<Rightarrow> u64 transaction" where
  "recover_expired_invocations_transaction agent_id now d =
     (let (recovered, d) = terminalize_expired_reservations agent_id now d in
      try_fold (\<lambda>row (recovered, d).
        and_then (park_expired_armed_invocation agent_id now row d) (\<lambda>d.
        Inr (saturating_add_u64 recovered 1, d)))
        (expired_armed agent_id now d) (recovered, d))"

text \<open>
  The agents with something to recover are read before the transaction begins, so another
  transaction may commit in between: the loop is stated for any list of agents.
\<close>

definition expired_agents :: "i64 \<Rightarrow> db \<Rightarrow> string list" where
  "expired_agents now d =
     sort (remdups [i_agent_id i. i \<leftarrow> invocations d, r \<leftarrow> agent_deliveries d,
       lapsed_delivery now i r \<and> (i_state i = Reserved \<or> i_state i = DispatchArmed)
       \<and> i_lease_expires_at_ms i \<le> now])"

definition recover_agents :: "string list \<Rightarrow> i64 \<Rightarrow> u64 transaction" where
  "recover_agents agent_ids now d =
     try_fold (\<lambda>agent_id (recovered, d).
       and_then (recover_expired_invocations_transaction agent_id now d) (\<lambda>(n, d).
       Inr (saturating_add_u64 recovered n, d))) agent_ids (0, d)"

definition recover_all_expired_invocations :: "i64 \<Rightarrow> u64 transaction" where
  "recover_all_expired_invocations now d =
     (if expired_agents now d = [] then Inr (0, d) else recover_agents (expired_agents now d) now d)"

section \<open>Reserving\<close>

definition reserved_row ::
  "string \<Rightarrow> string \<Rightarrow> delivery_row \<Rightarrow> message_row \<Rightarrow> string \<Rightarrow> string \<Rightarrow> i64 \<Rightarrow> i64 \<Rightarrow> invocation_row" where
  "reserved_row uuid fence r m agent_id lease_token expires now =
     \<lparr>i_id = uuid, i_message_seq = m_seq m, i_agent_id = agent_id,
      i_delivery_attempt = d_attempt r, i_lease_token = lease_token,
      i_lease_expires_at_ms = expires, i_fence_token = fence, i_state = Reserved,
      i_reserved_at_ms = now, i_dispatch_armed_at_ms = None, i_terminal_at_ms = None,
      i_execution_certainty = None, i_terminal_reason = None, i_result_message_seq = None\<rparr>"

definition reserve_row ::
  "string \<Rightarrow> string \<Rightarrow> delivery_row \<times> message_row \<Rightarrow> string \<Rightarrow> string \<Rightarrow> i64 \<Rightarrow> i64 \<Rightarrow> invocation transaction" where
  "reserve_row uuid fence = (\<lambda>(r, m) agent_id lease_token expires now d.
     let row = reserved_row uuid fence r m agent_id lease_token expires now in
     and_then (insert_invocation_row row d) (\<lambda>d.
     Inr (\<lparr>inv_id = uuid, inv_agent_id = agent_id, inv_message = message_from_row m,
           inv_delivery_attempt = d_attempt r, inv_lease_token = lease_token,
           inv_lease_expires_at_ms = expires, inv_fence_token = fence, inv_state = Reserved,
           inv_reserved_at_ms = now, inv_dispatch_armed_at_ms = None, inv_terminal_at_ms = None,
           inv_execution_certainty = None, inv_terminal_reason = None,
           inv_result_message_id = None\<rparr>, d)))"

definition leased_rows :: "string \<Rightarrow> string \<Rightarrow> db \<Rightarrow> (delivery_row \<times> message_row) list" where
  "leased_rows agent_id lease_token d =
     sort_key (\<lambda>(r, m). m_seq m)
       (filter (\<lambda>(r, m). d_agent_id r = agent_id \<and> d_state r = Leased
          \<and> d_lease_token r = Some lease_token) (delivery_join d))"

text \<open>
  \<open>uuids n\<close> and \<open>fences n\<close> are the identifier and the fence token drawn for the n-th row.
\<close>

definition reserve_rows ::
  "(nat \<Rightarrow> string) \<Rightarrow> (nat \<Rightarrow> string) \<Rightarrow> (delivery_row \<times> message_row) list \<Rightarrow> string \<Rightarrow> string
    \<Rightarrow> i64 \<Rightarrow> i64 \<Rightarrow> invocation list transaction" where
  "reserve_rows uuids fences rows agent_id lease_token expires now d =
     try_fold (\<lambda>(n, row) (invs, d).
       and_then (reserve_row (uuids n) (fences n) row agent_id lease_token expires now d) (\<lambda>(inv, d).
       Inr (invs @ [inv], d))) (zip [0..<length rows] rows) ([], d)"

definition reserve_invocations_filtered ::
  "string \<Rightarrow> (nat \<Rightarrow> string) \<Rightarrow> (nat \<Rightarrow> string) \<Rightarrow> i64 \<Rightarrow> string \<Rightarrow> claim_deliveries_input
    \<Rightarrow> string list option \<Rightarrow> invocation list transaction" where
  "reserve_invocations_filtered lease_token uuids fences now agent_id inp kinds d =
     and_then (validate_claim inp) (\<lambda>_.
     and_then (ensure_agent agent_id d) (\<lambda>_.
     and_then (ok_or (i64_try_from (claim_lease_duration_ms inp))
       (Invalid ''lease duration is too large'')) (\<lambda>duration.
     and_then (ok_or (checked_add_i64 now duration) (Invalid ''lease expiry overflowed'')) (\<lambda>expires.
     and_then (recover_expired_invocations_transaction agent_id now d) (\<lambda>(_, d).
     let d = lease_claimable agent_id lease_token expires now (claim_limit inp) kinds d in
     reserve_rows uuids fences (leased_rows agent_id lease_token d) agent_id lease_token expires now d)))))"

definition reserve_invocations ::
  "string \<Rightarrow> (nat \<Rightarrow> string) \<Rightarrow> (nat \<Rightarrow> string) \<Rightarrow> i64 \<Rightarrow> string \<Rightarrow> claim_deliveries_input
    \<Rightarrow> invocation list transaction" where
  "reserve_invocations lease_token uuids fences now agent_id inp =
     reserve_invocations_filtered lease_token uuids fences now agent_id inp None"

definition reserve_invocations_by_kind ::
  "string \<Rightarrow> (nat \<Rightarrow> string) \<Rightarrow> (nat \<Rightarrow> string) \<Rightarrow> i64 \<Rightarrow> string \<Rightarrow> claim_deliveries_input
    \<Rightarrow> string list \<Rightarrow> invocation list transaction" where
  "reserve_invocations_by_kind lease_token uuids fences now agent_id inp kinds d =
     (if kinds = [] then Inl (Invalid ''invocation message-kind selector must not be empty'')
      else reserve_invocations_filtered lease_token uuids fences now agent_id inp (Some kinds) d)"

section \<open>Settling from the delivery side\<close>

definition ensure_retry_is_safe :: "string \<Rightarrow> string \<Rightarrow> string \<Rightarrow> db \<Rightarrow> unit result" where
  "ensure_retry_is_safe agent_id message_id lease_token d =
     (case find (\<lambda>(i, m). i_agent_id i = agent_id \<and> m_id m = message_id
            \<and> i_lease_token i = lease_token \<and> i_state i \<noteq> Terminal)
          [(i, m). i \<leftarrow> invocations d, m \<leftarrow> messages d, m_seq m = i_message_seq i] of
        None \<Rightarrow> Inr ()
      | Some (i, m) \<Rightarrow>
          if i_state i = DispatchArmed
          then Inl (Conflict ''dispatch-armed invocation must be blocked or acknowledged'')
          else Inr ())"

definition terminalize_predicate :: "string \<Rightarrow> string \<Rightarrow> string \<Rightarrow> db \<Rightarrow> invocation_row \<Rightarrow> bool" where
  "terminalize_predicate agent_id message_id lease_token d i \<longleftrightarrow>
     i_agent_id i = agent_id
     \<and> (case find (\<lambda>m. m_id m = message_id) (messages d) of
          None \<Rightarrow> False | Some m \<Rightarrow> i_message_seq i = m_seq m)
     \<and> i_lease_token i = lease_token
     \<and> i_state i \<noteq> Terminal"

definition terminalize_invocation ::
  "string \<Rightarrow> string \<Rightarrow> string \<Rightarrow> execution_certainty \<Rightarrow> string \<Rightarrow> i64 \<Rightarrow> db \<Rightarrow> db result" where
  "terminalize_invocation agent_id message_id lease_token certainty reason now d =
     and_then (ensure_bound_turn_allows_delivery_settlement agent_id message_id lease_token
       (certainty = OutcomeUnknown \<and> reason = ''blocked'') d) (\<lambda>_.
     Inr (d\<lparr>invocations := update_where (terminalize_predicate agent_id message_id lease_token d)
            (terminal_row now certainty reason) (invocations d)\<rparr>))"

section \<open>The invariant\<close>

definition invocation_key :: "invocation_row \<Rightarrow> i64 \<times> string" where
  "invocation_key i = (i_message_seq i, i_agent_id i)"

text \<open>An open invocation owns its delivery: same token, same expiry, same attempt.\<close>

definition fence_ok :: "db \<Rightarrow> invocation_row \<Rightarrow> bool" where
  "fence_ok d i \<longleftrightarrow>
     (\<exists>r. delivery_at (invocation_key i) d = Some r
        \<and> d_state r = Leased
        \<and> d_lease_token r = Some (i_lease_token i)
        \<and> d_lease_expires_at_ms r = Some (i_lease_expires_at_ms i)
        \<and> d_attempt r = i_delivery_attempt i)"

text \<open>What the certainty of a terminal invocation rests on.\<close>

definition outcome_ok :: "db \<Rightarrow> invocation_row \<Rightarrow> bool" where
  "outcome_ok d i \<longleftrightarrow>
     (\<exists>r. delivery_at (invocation_key i) d = Some r
        \<and> i_delivery_attempt i \<le> d_attempt r
        \<and> (i_execution_certainty i = Some NotStarted \<longrightarrow> i_dispatch_armed_at_ms i = None)
        \<and> (i_execution_certainty i = Some OutcomeKnown \<longrightarrow>
             d_state r = Acknowledged \<and> d_last_settled_lease_token r = Some (i_lease_token i)
             \<and> d_attempt r = i_delivery_attempt i)
        \<and> (i_execution_certainty i = Some OutcomeUnknown \<longrightarrow>
             (\<exists>b\<in>set (delivery_blocks d). block_key b = invocation_key i
                \<and> b_lease_token b = i_lease_token i \<and> b_attempt b = i_delivery_attempt i)))"

definition result_key :: "string \<Rightarrow> string option" where
  "result_key invocation_id = Some (''invocation/'' @ invocation_id @ ''/result'')"

text \<open>\<open>answers d i m\<close>: \<open>m\<close> is the result of invocation \<open>i\<close>, sent back to whoever sent its input.\<close>

definition answers :: "db \<Rightarrow> invocation_row \<Rightarrow> message_row \<Rightarrow> bool" where
  "answers d i m \<longleftrightarrow>
     m_sender_id m = i_agent_id i \<and> m_idempotency_key m = result_key (i_id i)
     \<and> (\<exists>q\<in>set (messages d). m_seq q = i_message_seq i \<and> m_channel_id m = m_channel_id q
          \<and> m_recipient_id m = Some (m_sender_id q) \<and> m_causation_id m = Some (m_id q)
          \<and> m_correlation_id m = m_correlation_id q)"

definition result_ok :: "db \<Rightarrow> invocation_row \<Rightarrow> bool" where
  "result_ok d i \<longleftrightarrow>
     (\<forall>seq. i_result_message_seq i = Some seq \<longrightarrow> i_execution_certainty i = Some OutcomeKnown
        \<and> (\<exists>m\<in>set (messages d). m_seq m = seq \<and> answers d i m))"

definition invocation_ok :: "db \<Rightarrow> invocation_row \<Rightarrow> bool" where
  "invocation_ok d i \<longleftrightarrow>
     invocation_check i \<and> result_ok d i
     \<and> (if i_state i = Terminal then outcome_ok d i else fence_ok d i)"

definition attempt_key :: "invocation_row \<Rightarrow> i64 \<times> string \<times> i64" where
  "attempt_key i = (i_message_seq i, i_agent_id i, i_delivery_attempt i)"

definition invocations_inv :: "db \<Rightarrow> bool" where
  "invocations_inv d \<longleftrightarrow>
     unique_on i_id (invocations d)
     \<and> unique_on i_fence_token (invocations d)
     \<and> unique_on attempt_key (invocations d)
     \<and> (\<forall>i\<in>set (invocations d). invocation_ok d i)"

text \<open>The whole invariant of the kernel and of the invocation fence.\<close>

definition core_inv :: "db \<Rightarrow> bool" where
  "core_inv d \<longleftrightarrow>
     channels_inv d \<and> messages_inv d \<and> deliveries_inv d \<and> blocks_inv d \<and> invocations_inv d"

lemma core_invD:
  assumes "core_inv d"
  shows "channels_inv d" "messages_inv d" "deliveries_inv d" "blocks_inv d" "invocations_inv d"
  using assms by (simp_all add: core_inv_def)

lemma core_inv_empty: "core_inv empty_db"
  by (simp add: core_inv_def channels_inv_empty messages_inv_empty deliveries_inv_empty
      blocks_inv_empty) (simp add: invocations_inv_def empty_db_def)

lemma core_inv_same:
  assumes "core_inv d" and "same_core d d'"
  shows "core_inv d'"
proof -
  have t: "agents d' = agents d" "channels d' = channels d" "channel_members d' = channel_members d"
    "messages d' = messages d" "messages_sequence d' = messages_sequence d"
    "agent_deliveries d' = agent_deliveries d" "delivery_blocks d' = delivery_blocks d"
    "delivery_blocks_sequence d' = delivery_blocks_sequence d" "invocations d' = invocations d"
    using assms(2) by (simp_all add: same_core_def)
  have "delivery_at k d' = delivery_at k d" for k using t by (simp add: delivery_at_def)
  then have "invocation_ok d' i = invocation_ok d i" for i
    by (simp add: invocation_ok_def result_ok_def answers_def fence_ok_def outcome_ok_def t)
  then have "invocations_inv d'" using assms(1) by (simp add: core_inv_def invocations_inv_def t)
  moreover have "channels_inv d'"
    using core_invD(1) [OF assms(1)] by (rule channels_inv_cong) (simp_all add: t)
  moreover have "messages_inv d'" using core_invD(2) [OF assms(1)] messages_inv_cong [of d' d] t by simp
  moreover have "deliveries_inv d'"
    using core_invD(3) [OF assms(1)] by (rule deliveries_inv_cong) (simp_all add: t)
  moreover have "blocks_inv d'"
    using core_invD(4) [OF assms(1)] by (rule blocks_inv_cong) (simp_all add: t)
  ultimately show ?thesis by (simp add: core_inv_def)
qed

section \<open>How the kernel's tables evolve\<close>

text \<open>
  Nothing the certainty of a terminal invocation rests on is ever taken back: messages are only
  appended, block records stay and are resolved once, attempts only grow, and an acknowledged or
  dead delivery does not change again.
\<close>

definition block_kept :: "block_row \<Rightarrow> block_row \<Rightarrow> bool" where
  "block_kept b b' \<longleftrightarrow>
     b_id b' = b_id b \<and> block_key b' = block_key b \<and> b_lease_token b' = b_lease_token b
     \<and> b_attempt b' = b_attempt b \<and> b_reason b' = b_reason b
     \<and> (b_resolution b \<noteq> None \<longrightarrow> b' = b)"

definition delivery_kept :: "delivery_row \<Rightarrow> delivery_row \<Rightarrow> bool" where
  "delivery_kept r r' \<longleftrightarrow>
     life_step\<^sup>*\<^sup>* (phase r) (phase r') \<and> d_attempt r \<le> d_attempt r'
     \<and> (d_state r = Acknowledged \<or> d_state r = Dead \<longrightarrow> r' = r)"

definition evolves :: "db \<Rightarrow> db \<Rightarrow> bool" where
  "evolves d d' \<longleftrightarrow>
     (\<exists>ms. messages d' = messages d @ ms)
     \<and> (\<forall>b\<in>set (delivery_blocks d). \<exists>b'\<in>set (delivery_blocks d'). block_kept b b')
     \<and> (\<forall>k r. delivery_at k d = Some r \<longrightarrow>
          (\<exists>r'. delivery_at k d' = Some r' \<and> delivery_kept r r'))"

lemma kept_refl [simp]: "block_kept b b" "delivery_kept r r"
  by (simp_all add: block_kept_def delivery_kept_def)

lemma block_kept_in: "b \<in> S \<Longrightarrow> \<exists>x\<in>S. block_kept b x"
  by (rule bexI [of _ b]) simp_all

lemma block_kept_trans: "block_kept a b \<Longrightarrow> block_kept b c \<Longrightarrow> block_kept a c"
  by (auto simp: block_kept_def)

lemma delivery_kept_trans: "delivery_kept a b \<Longrightarrow> delivery_kept b c \<Longrightarrow> delivery_kept a c"
  unfolding delivery_kept_def by (auto intro: rtranclp_trans)

lemma evolves_refl [simp]: "evolves d d"
  unfolding evolves_def by (intro conjI ballI allI impI exI [of _ "[]"]) (auto intro: block_kept_in)

lemma evolves_trans: "evolves d d' \<Longrightarrow> evolves d' d'' \<Longrightarrow> evolves d d''"
  unfolding evolves_def
  by (intro conjI ballI allI impI; (elim conjE exE)?)
    (use append.assoc in metis, meson block_kept_trans, meson delivery_kept_trans)

lemma outcome_ok_evolves:
  assumes "outcome_ok d i" and "evolves d d'"
  shows "outcome_ok d' i"
proof -
  obtain r where r: "delivery_at (invocation_key i) d = Some r" "i_delivery_attempt i \<le> d_attempt r"
    "i_execution_certainty i = Some NotStarted \<longrightarrow> i_dispatch_armed_at_ms i = None"
    "i_execution_certainty i = Some OutcomeKnown \<longrightarrow>
      d_state r = Acknowledged \<and> d_last_settled_lease_token r = Some (i_lease_token i)
      \<and> d_attempt r = i_delivery_attempt i"
    and b: "i_execution_certainty i = Some OutcomeUnknown \<longrightarrow>
      (\<exists>b\<in>set (delivery_blocks d). block_key b = invocation_key i
         \<and> b_lease_token b = i_lease_token i \<and> b_attempt b = i_delivery_attempt i)"
    using assms(1) unfolding outcome_ok_def by blast
  obtain r' where r': "delivery_at (invocation_key i) d' = Some r'" "d_attempt r \<le> d_attempt r'"
    "d_state r = Acknowledged \<longrightarrow> r' = r"
    using assms(2) r(1) unfolding evolves_def delivery_kept_def by blast
  have "i_execution_certainty i = Some OutcomeUnknown \<longrightarrow>
      (\<exists>b\<in>set (delivery_blocks d'). block_key b = invocation_key i
         \<and> b_lease_token b = i_lease_token i \<and> b_attempt b = i_delivery_attempt i)"
  proof
    assume "i_execution_certainty i = Some OutcomeUnknown"
    with b obtain c where c: "c \<in> set (delivery_blocks d)" "block_key c = invocation_key i"
      "b_lease_token c = i_lease_token i" "b_attempt c = i_delivery_attempt i" by blast
    then obtain e where "e \<in> set (delivery_blocks d')" "block_key e = block_key c"
      "b_lease_token e = b_lease_token c" "b_attempt e = b_attempt c"
      using assms(2) unfolding evolves_def block_kept_def by blast
    with c show "\<exists>b\<in>set (delivery_blocks d'). block_key b = invocation_key i
         \<and> b_lease_token b = i_lease_token i \<and> b_attempt b = i_delivery_attempt i"
      by (intro bexI [of _ e]) simp_all
  qed
  with r r' show ?thesis unfolding outcome_ok_def by (intro exI [of _ r']) auto
qed

lemma answers_evolves: "answers d i m \<Longrightarrow> evolves d d' \<Longrightarrow> answers d' i m"
  unfolding answers_def evolves_def by fastforce

lemma answers_row [simp]:
  "answers d (i\<lparr>i_state := st\<rparr>) m = answers d i m" "answers d (i\<lparr>i_terminal_at_ms := x\<rparr>) m = answers d i m"
  "answers d (i\<lparr>i_execution_certainty := c\<rparr>) m = answers d i m" "answers d (i\<lparr>i_terminal_reason := y\<rparr>) m = answers d i m"
  "answers d (i\<lparr>i_result_message_seq := z\<rparr>) m = answers d i m"
  by (simp_all add: answers_def)

lemma result_ok_evolves: "result_ok d i \<Longrightarrow> evolves d d' \<Longrightarrow> result_ok d' i"
  unfolding result_ok_def using answers_evolves [of d i _ d'] by (fastforce simp: evolves_def)

lemma fence_ok_same:
  "fence_ok d i \<Longrightarrow> delivery_at (invocation_key i) d' = delivery_at (invocation_key i) d \<Longrightarrow> fence_ok d' i"
  by (simp add: fence_ok_def)

lemma invocation_ok_evolves:
  assumes "invocation_ok d i" and "evolves d d'"
    and "i_state i \<noteq> Terminal \<Longrightarrow> delivery_at (invocation_key i) d' = delivery_at (invocation_key i) d"
  shows "invocation_ok d' i"
  using assms outcome_ok_evolves result_ok_evolves fence_ok_same
  by (auto simp: invocation_ok_def)

text \<open>The steps of the kernel evolve the store.\<close>

context settlement
begin

lemma settled_evolves:
  assumes "leased_row_update lr set_row d = (moved, d')"
  shows "evolves d d'"
proof -
  have "messages d' = messages d" "delivery_blocks d' = delivery_blocks d"
    using assms by (auto simp: leased_row_update_def)
  moreover have "\<exists>r'. delivery_at k d' = Some r' \<and> delivery_kept r r'" if "delivery_at k d = Some r" for k r
    using that set_row_settles [of r]
    by (auto simp: delivery_kept_def settled_at [OF assms] set_row_attempt leased_row_matches_def phase_def life_steps)
  ultimately show ?thesis unfolding evolves_def by (auto intro: block_kept_in)
qed

end

lemma lease_evolves:
  assumes "deliveries_inv d"
  shows "evolves d (lease_claimable a token expires now limit kinds d)"
proof -
  have "\<exists>r'. delivery_at k (lease_claimable a token expires now limit kinds d) = Some r'
      \<and> delivery_kept r r'"
    if "delivery_at k d = Some r" for k r
    using that leased_was_claimable [OF assms that, of a now limit kinds]
    by (auto simp: delivery_kept_def delivery_at_lease lease_row_def claimable_def phase_def
        life_steps)
  then show ?thesis unfolding evolves_def by (auto simp: lease_claimable_def Let_def intro: block_kept_in)
qed

lemma insert_block_evolves: "insert_block_row mk d = Inr (n, d') \<Longrightarrow> evolves d d'"
  by (drule insert_block_row_effect) (auto simp: evolves_def delivery_at_def intro: block_kept_in kept_refl)

lemma insert_message_evolves:
  assumes "insert_message uuid now cid inp d = Inr (m, d')"
  shows "evolves d d'"
  using insert_message_store [OF assms]
  by (auto simp: evolves_def delivery_at_def find_append_table intro: block_kept_in kept_refl)

lemma insert_message_keeps_deliveries:
  assumes "insert_message uuid now cid inp d = Inr (m, d')" and "delivery_at k d = Some r"
  shows "delivery_at k d' = Some r"
  using insert_message_store [OF assms(1)] assms(2) by (simp add: delivery_at_def find_append_table)

lemma resolve_block_evolves:
  assumes "deliveries_inv d" and "blocks_inv d"
    and "resolve_delivery_block_transaction bid inp now d = Inr d'"
  shows "evolves d d'"
  using assms
proof (cases rule: resolve_block_cases)
  case (resolved b r at ra)
  have "\<exists>r'. delivery_at k d' = Some r' \<and> delivery_kept q r'" if "delivery_at k d = Some q" for k q
    using that unfolding resolved(8) delivery_at_def delivery_kept_def
    by (auto simp: find_key_update_where phase_def life_steps split: block_resolution.split)
  moreover have "\<exists>b'\<in>set (delivery_blocks d'). block_kept c b'"
    if "c \<in> set (delivery_blocks d)" for c
  proof -
    let ?c = "if b_id c = bid \<and> b_resolved_at_ms c = None then resolve_block_row inp ra now c else c"
    have "?c \<in> set (delivery_blocks d')" 
      using imageI [OF that, of "\<lambda>c. if b_id c = bid \<and> b_resolved_at_ms c = None
        then resolve_block_row inp ra now c else c"]
      by (simp add: resolved(8) update_where_def)
    moreover have "block_kept c ?c"
      using that assms(2) by (auto simp: block_kept_def blocks_inv_def block_check_def resolve_block_row_def block_key_def)
    ultimately show ?thesis by blast
  qed
  ultimately show ?thesis unfolding evolves_def by (simp add: resolved(8))
qed simp

section \<open>Updates of the invocation table\<close>

text \<open>An UPDATE of \<open>invocations\<close> never writes an identity column.\<close>

definition same_identity :: "invocation_row \<Rightarrow> invocation_row \<Rightarrow> bool" where
  "same_identity i j \<longleftrightarrow>
     i_id j = i_id i \<and> i_message_seq j = i_message_seq i \<and> i_agent_id j = i_agent_id i
     \<and> i_delivery_attempt j = i_delivery_attempt i \<and> i_lease_token j = i_lease_token i
     \<and> i_lease_expires_at_ms j = i_lease_expires_at_ms i \<and> i_fence_token j = i_fence_token i"

lemma same_identity_refl [simp]: "same_identity i i"
  by (simp add: same_identity_def)

lemma same_identity_trans: "same_identity i j \<Longrightarrow> same_identity j k \<Longrightarrow> same_identity i k"
  by (simp add: same_identity_def)

lemma identity_rows [simp]:
  "same_identity i (armed_row now i)" "same_identity i (completed_row now seq i)"
  "same_identity i (terminal_row now c reason i)"
  by (simp_all add: same_identity_def armed_row_def completed_row_def terminal_row_def)

lemma invocations_inv_update:
  assumes inv: "invocations_inv d"
    and upd: "invocations d' = update_where P f (invocations d)"
    and ident: "\<And>i. same_identity i (f i)"
    and ok: "\<And>i. i \<in> set (invocations d) \<Longrightarrow> invocation_ok d i \<Longrightarrow> invocation_ok d' (if P i then f i else i)"
  shows "invocations_inv d'"
proof -
  have keys: "i_id (f i) = i_id i" "i_fence_token (f i) = i_fence_token i"
    "attempt_key (f i) = attempt_key i" for i
    using ident [of i] by (simp_all add: same_identity_def attempt_key_def)
  have "\<forall>i\<in>set (invocations d'). invocation_ok d' i"
    using inv ok by (auto simp: upd in_update_where invocations_inv_def)
  then show ?thesis
    using inv by (simp add: invocations_inv_def upd unique_on_update keys)
qed

lemma open_invocation_unique:
  assumes "invocations_inv d" and "i \<in> set (invocations d)" and "j \<in> set (invocations d)"
    and "i_state i \<noteq> Terminal" and "i_state j \<noteq> Terminal" and "invocation_key i = invocation_key j"
  shows "i = j"
proof -
  have "fence_ok d i" "fence_ok d j" using assms by (auto simp: invocations_inv_def invocation_ok_def)
  then have "i_delivery_attempt i = i_delivery_attempt j" using assms(6) by (auto simp: fence_ok_def)
  with assms show ?thesis
    by (intro unique_onD [of attempt_key "invocations d"])
      (auto simp: invocations_inv_def attempt_key_def invocation_key_def)
qed

lemma invocation_okD:
  assumes "invocations_inv d" and "i \<in> set (invocations d)"
  shows "invocation_ok d i"
  using assms by (simp add: invocations_inv_def)

text \<open>
  Ending an invocation: its row becomes terminal with a certainty, and the store around it supports
  that certainty.
\<close>

lemma invocation_ok_terminal:
  assumes "invocation_ok d i" and "i_state i \<noteq> Terminal" and "evolves d d'" and "reason \<noteq> ''completed''"
    and "outcome_ok d' (terminal_row now c reason i)"
  shows "invocation_ok d' (terminal_row now c reason i)"
proof -
  have "result_ok d' i" using assms result_ok_evolves by (auto simp: invocation_ok_def)
  moreover have "i_result_message_seq i = None"
    using assms(1,2) by (cases "i_state i") (auto simp: invocation_ok_def invocation_check_def)
  ultimately show ?thesis
    using assms by (auto simp: invocation_ok_def invocation_check_def result_ok_def terminal_row_def)
qed

lemma terminal_row_facts [simp]:
  "invocation_key (terminal_row now c reason i) = invocation_key i"
  "i_state (terminal_row now c reason i) = Terminal"
  "i_execution_certainty (terminal_row now c reason i) = Some c"
  "i_dispatch_armed_at_ms (terminal_row now c reason i) = i_dispatch_armed_at_ms i"
  "i_delivery_attempt (terminal_row now c reason i) = i_delivery_attempt i"
  "i_lease_token (terminal_row now c reason i) = i_lease_token i"
  by (simp_all add: terminal_row_def invocation_key_def)

lemma open_row_kept:
  assumes "j \<in> set (update_where P f invs)" and "i_state j \<noteq> Terminal"
    and "\<And>i. i_state (f i) = Terminal"
  shows "j \<in> set invs \<and> \<not> P j"
proof -
  from assms(1) obtain i where "i \<in> set invs" "j = (if P i then f i else i)"
    unfolding in_update_where by blast
  with assms(2,3) show ?thesis by (cases "P i") auto
qed

lemma outcome_unknown_ok:
  assumes "delivery_at (invocation_key i) d = Some r" and "d_attempt r = i_delivery_attempt i"
    and "b \<in> set (delivery_blocks d)" and "block_key b = invocation_key i"
    and "b_lease_token b = i_lease_token i" and "b_attempt b = i_delivery_attempt i"
  shows "outcome_ok d (terminal_row now OutcomeUnknown reason i)"
  using assms unfolding outcome_ok_def by (intro exI [of _ r]) auto

lemma reserved_not_armed:
  "invocation_ok d i \<Longrightarrow> i_state i = Reserved \<Longrightarrow> i_dispatch_armed_at_ms i = None"
  by (auto simp: invocation_ok_def invocation_check_def)

section \<open>Arming keeps the invariant\<close>

lemma armed_row_ok:
  "invocation_ok d i \<Longrightarrow> i_state i = Reserved \<Longrightarrow> invocation_ok d (armed_row now i)"
  by (auto simp: invocation_ok_def invocation_check_def result_ok_def armed_row_def fence_ok_def
      invocation_key_def)

lemma core_inv_invocations_only:
  assumes "core_inv d" and "d' = d\<lparr>invocations := invs\<rparr>" and "invocations_inv d'"
  shows "core_inv d'"
proof -
  have "channels_inv d'" using core_invD(1) [OF assms(1)] by (rule channels_inv_cong) (simp_all add: assms(2))
  moreover have "messages_inv d'"
    using core_invD(2) [OF assms(1)] messages_inv_cong [of d' d] by (simp add: assms(2))
  moreover have "deliveries_inv d'"
    using core_invD(3) [OF assms(1)] by (rule deliveries_inv_cong) (simp_all add: assms(2))
  moreover have "blocks_inv d'"
    using core_invD(4) [OF assms(1)] by (rule blocks_inv_cong) (simp_all add: assms(2))
  ultimately show ?thesis using assms(3) by (simp add: core_inv_def)
qed

lemma invocation_ok_invocations [simp]:
  "invocation_ok (d\<lparr>invocations := invs\<rparr>) i = invocation_ok d i"
  by (simp add: invocation_ok_def result_ok_def answers_def outcome_ok_def fence_ok_def delivery_at_def)

lemma arm_invocation_effect:
  assumes "arm_invocation_transaction a iid inp now d = Inr (x, d')"
  shows "d' = d \<or> d' = d\<lparr>invocations := update_where
      (\<lambda>i. i_id i = iid \<and> i_agent_id i = a \<and> i_state i = Reserved) (armed_row now) (invocations d)\<rparr>"
proof -
  obtain i r m where row: "invocation_with_delivery a iid d = Inr (i, r, m)"
    using assms unfolding arm_invocation_transaction_def and_then_eq_Inr by auto
  show ?thesis
    using assms unfolding arm_invocation_transaction_def row
    by (cases "i_state i") (auto simp: and_then_eq_Inr Let_def split: if_splits)
qed

lemma core_inv_arm:
  assumes "core_inv d" and "arm_invocation_transaction a iid inp now d = Inr (x, d')"
  shows "core_inv d'"
proof -
  let ?P = "\<lambda>i. i_id i = iid \<and> i_agent_id i = a \<and> i_state i = Reserved"
  let ?d = "d\<lparr>invocations := update_where ?P (armed_row now) (invocations d)\<rparr>"
  have "invocations_inv ?d"
    using core_invD(5) [OF assms(1)]
    by (rule invocations_inv_update [where P = ?P and f = "armed_row now"])
      (auto simp: armed_row_ok)
  then have "core_inv ?d" by (rule core_inv_invocations_only [OF assms(1) refl])
  then show ?thesis using arm_invocation_effect [OF assms(2)] assms(1) by auto
qed

section \<open>Settling keeps the invariant\<close>

definition kernel_inv :: "db \<Rightarrow> bool" where
  "kernel_inv d \<longleftrightarrow> channels_inv d \<and> messages_inv d \<and> deliveries_inv d \<and> blocks_inv d"

lemma core_inv_split: "core_inv d \<longleftrightarrow> kernel_inv d \<and> invocations_inv d"
  by (auto simp: core_inv_def kernel_inv_def)

lemma kernel_inv_cong:
  assumes "kernel_inv d" and "d' = d\<lparr>invocations := invs\<rparr>"
  shows "kernel_inv d'"
proof -
  have "channels_inv d'"
    by (rule channels_inv_cong [of d]) (use assms in \<open>simp_all add: kernel_inv_def\<close>)
  moreover have "messages_inv d'"
    using assms messages_inv_cong [of d' d] by (simp add: kernel_inv_def)
  moreover have "deliveries_inv d'"
    by (rule deliveries_inv_cong [of d]) (use assms in \<open>simp_all add: kernel_inv_def\<close>)
  moreover have "blocks_inv d'"
    by (rule blocks_inv_cong [of d]) (use assms in \<open>simp_all add: kernel_inv_def\<close>)
  ultimately show ?thesis by (simp add: kernel_inv_def)
qed

text \<open>What stays of the kernel's tables when only deliveries and their blocks move.\<close>

lemma kernel_inv_deliveries:
  assumes "kernel_inv d" and "deliveries_inv d'" and "blocks_inv d'"
    and "agents d' = agents d" "channels d' = channels d" "channel_members d' = channel_members d"
      "messages d' = messages d" "messages_sequence d' = messages_sequence d"
  shows "kernel_inv d'"
proof -
  have "channels_inv d'"
    by (rule channels_inv_cong [of d]) (use assms in \<open>simp_all add: kernel_inv_def\<close>)
  moreover have "messages_inv d'"
    using assms messages_inv_cong [of d' d] by (simp add: kernel_inv_def)
  ultimately show ?thesis using assms by (simp add: kernel_inv_def)
qed

lemma terminalize_predicate_target:
  assumes "leased_row_matches lr d r" and "lr_key lr = MessageId mid" and "messages d2 = messages d"
  shows "terminalize_predicate (lr_agent_id lr) mid tok d2 i \<longleftrightarrow>
    invocation_key i = leased_row_target lr d \<and> i_lease_token i = tok \<and> i_state i \<noteq> Terminal"
proof -
  obtain m where "find (\<lambda>m. m_id m = mid) (messages d) = Some m"
    using assms(1,2) by (auto simp: leased_row_matches_def split: option.splits)
  then show ?thesis
    using assms(2,3) by (auto simp: terminalize_predicate_def leased_row_target_def invocation_key_def)
qed

context settlement
begin

text \<open>
  A settlement under a lease, together with the end of the invocation that lease belongs to.  All
  that a client has to show is that the store supports the certainty it records.
\<close>

lemma settle_and_terminalize:
  assumes core: "core_inv d" and upd: "leased_row_update lr set_row d = (True, d1)"
    and addr: "lr_key lr = MessageId mid"
    and after: "evolves d1 d2" "\<And>k. delivery_at k d2 = delivery_at k d1"
      "messages d2 = messages d" "invocations d2 = invocations d"
    and reason: "reason \<noteq> ''completed''"
    and d': "d' = d2\<lparr>invocations := update_where
      (terminalize_predicate (lr_agent_id lr) mid (lr_lease_token lr) d2) (terminal_row now c reason)
      (invocations d2)\<rparr>"
    and kernel: "kernel_inv d2"
    and support: "\<And>i. i \<in> set (invocations d) \<Longrightarrow> i_state i \<noteq> Terminal \<Longrightarrow>
      invocation_key i = leased_row_target lr d \<Longrightarrow> i_lease_token i = lr_lease_token lr \<Longrightarrow>
      outcome_ok d2 (terminal_row now c reason i)"
  shows "core_inv d'"
proof -
  obtain r where r: "delivery_at (leased_row_target lr d) d = Some r" "leased_row_matches lr d r"
    using settled_row [OF core_invD(3) [OF core] upd] by blast
  have ev: "evolves d d2" using settled_evolves [OF upd] after(1) by (rule evolves_trans)
  have "invocations_inv d'"
  proof (rule invocations_inv_update [OF core_invD(5) [OF core]])
    show "invocations d' = update_where (terminalize_predicate (lr_agent_id lr) mid (lr_lease_token lr) d2)
        (terminal_row now c reason) (invocations d)" by (simp add: d' after(4))
  next
    fix i
    assume i: "i \<in> set (invocations d)" "invocation_ok d i"
    show "invocation_ok d' (if terminalize_predicate (lr_agent_id lr) mid (lr_lease_token lr) d2 i
        then terminal_row now c reason i else i)"
    proof (cases "i_state i \<noteq> Terminal \<and> invocation_key i = leased_row_target lr d")
      case True
      then have "fence_ok d i" using i by (simp add: invocation_ok_def)
      then have tok: "i_lease_token i = lr_lease_token lr"
        using True r by (auto simp: fence_ok_def leased_row_matches_def)
      then have "terminalize_predicate (lr_agent_id lr) mid (lr_lease_token lr) d2 i"
        using True terminalize_predicate_target [OF r(2) addr after(3)] by simp
      moreover have "invocation_ok d2 (terminal_row now c reason i)"
        using i True tok support ev reason by (intro invocation_ok_terminal [of d]) auto
      ultimately show ?thesis by (simp add: d')
    next
      case False
      then have "\<not> terminalize_predicate (lr_agent_id lr) mid (lr_lease_token lr) d2 i"
        using terminalize_predicate_target [OF r(2) addr after(3)] by auto
      moreover have "invocation_ok d2 i"
      proof (rule invocation_ok_evolves [OF i(2) ev])
        assume "i_state i \<noteq> Terminal"
        with False have "invocation_key i \<noteq> leased_row_target lr d" by simp
        from settled_others [OF upd this] after(2)
        show "delivery_at (invocation_key i) d2 = delivery_at (invocation_key i) d" by (rule trans [rotated])
      qed
      ultimately show ?thesis by (simp add: d')
    qed
  qed simp
  moreover have "kernel_inv d'" using kernel d' by (rule kernel_inv_cong)
  ultimately show ?thesis by (simp add: core_inv_split)
qed

lemma settled_kernel_inv:
  assumes "kernel_inv d" and "leased_row_update lr set_row d = (moved, d')"
    and "\<And>r. d_state (set_row r) \<noteq> Blocked"
  shows "kernel_inv d'"
  using assms(1)
proof (rule kernel_inv_deliveries)
  show "deliveries_inv d'" using settled_inv [OF _ assms(2)] assms(1) by (simp add: kernel_inv_def)
  show "blocks_inv d'"
    using settled_blocks_inv [OF _ assms(2,3)] assms(1) by (simp add: kernel_inv_def)
qed (use assms(2) in \<open>auto simp: leased_row_update_def\<close>)

end

section \<open>Recovery keeps the invariant\<close>

lemma core_inv_terminalize_expired:
  assumes "core_inv d" and "terminalize_expired_reservations a now d = (n, d')"
  shows "core_inv d'"
proof -
  let ?P = "\<lambda>i. i_agent_id i = a \<and> i_state i = Reserved \<and> i_lease_expires_at_ms i \<le> now
     \<and> (\<exists>r\<in>set (agent_deliveries d). lapsed_delivery now i r)"
  have d': "d' = d\<lparr>invocations := update_where ?P
      (terminal_row now NotStarted ''reservation_expired_before_dispatch'') (invocations d)\<rparr>"
    using assms(2) by (simp add: terminalize_expired_reservations_def Let_def)
  have "invocations_inv d'"
  proof (rule invocations_inv_update [OF core_invD(5) [OF assms(1)]])
    fix i
    assume i: "i \<in> set (invocations d)" "invocation_ok d i"
    have "invocation_ok d (terminal_row now NotStarted ''reservation_expired_before_dispatch'' i)"
      if "i_state i = Reserved"
    proof (rule invocation_ok_terminal [OF i(2)])
      have "fence_ok d i" using i that by (simp add: invocation_ok_def)
      then show "outcome_ok d (terminal_row now NotStarted ''reservation_expired_before_dispatch'' i)"
        using reserved_not_armed [OF i(2) that] by (auto simp: outcome_ok_def fence_ok_def)
    qed (simp_all add: that)
    then show "invocation_ok d' (if ?P i then terminal_row now NotStarted
        ''reservation_expired_before_dispatch'' i else i)" using i(2) by (simp add: d')
  qed (simp_all add: d')
  then show ?thesis using core_inv_invocations_only [OF assms(1) d'] by simp
qed

definition parked_row :: "i64 \<Rightarrow> invocation_row \<Rightarrow> invocation_row" where
  "parked_row now = terminal_row now OutcomeUnknown ''lease_expired_after_dispatch_armed''"

lemma park_effect:
  assumes "park_expired_armed_invocation a now (i, r) d = Inr d'"
  obtains reason d1 d2 n k where
    "leased_row_update \<lparr>lr_key = Seq (i_message_seq i), lr_agent_id = a,
       lr_lease_token = i_lease_token i, lr_window = Expired, lr_now = now\<rparr>
       (blocked_row (i_lease_token i) reason) d = (True, d1)"
    and "insert_block_row (new_block_row (i_message_seq i) a (d_attempt r) (i_lease_token i) reason now) d1
      = Inr (n, d2)"
    and "k \<in> set (invocations d2)" "i_id k = i_id i" "i_state k = DispatchArmed"
    and "same_core (d2\<lparr>invocations := update_where (\<lambda>j. i_id j = i_id i \<and> i_state j = DispatchArmed)
      (parked_row now) (invocations d2)\<rparr>) d'"
proof -
  define reason where "reason = ''invocation '' @ i_id i @ '' lease expired after dispatch was armed''"
  let ?P = "\<lambda>j. i_id j = i_id i \<and> i_state j = DispatchArmed"
  obtain moved d1 where upd: "block_expired_lease a (i_message_seq i) (i_lease_token i) reason now d = (moved, d1)"
    by fastforce
  note ok = assms [unfolded park_expired_armed_invocation_def prod.case Let_def
      reason_def [symmetric] upd record_block_def]
  have moved: moved using ok by (cases moved) simp_all
  obtain n d2 where ins: "insert_block_row (new_block_row (i_message_seq i) a (d_attempt r)
      (i_lease_token i) reason now) d1 = Inr (n, d2)"
    and rows: "rows_affected ?P (invocations d2) = 1"
    and mark: "mark_expired_session_turn_uncertain (i_id i) reason now
      (d2\<lparr>invocations := update_where ?P (parked_row now) (invocations d2)\<rparr>) = Inr d'"
    using ok moved by (auto simp: and_then_eq_Inr parked_row_def split: if_splits)
  obtain k where "k \<in> set (invocations d2)" "?P k"
    using rows rows_affected_pos [of ?P "invocations d2"] by auto
  moreover have "leased_row_update \<lparr>lr_key = Seq (i_message_seq i), lr_agent_id = a,
      lr_lease_token = i_lease_token i, lr_window = Expired, lr_now = now\<rparr>
      (blocked_row (i_lease_token i) reason) d = (True, d1)"
    using upd moved by (simp add: block_expired_lease_def)
  ultimately show thesis using that [OF _ ins] mark_expired_core [OF mark] by blast
qed

lemma park_core_inv:
  assumes core: "core_inv d" and j: "j \<in> set (invocations d)" "i_id j = i_id i"
    "i_message_seq j = i_message_seq i" "i_agent_id j = a" "i_lease_token j = i_lease_token i"
    "i_delivery_attempt j = d_attempt r"
    and ok: "park_expired_armed_invocation a now (i, r) d = Inr d'"
  shows "core_inv d'"
    and "invocations d' = update_where (\<lambda>j. i_id j = i_id i \<and> i_state j = DispatchArmed)
      (parked_row now) (invocations d)"
    and "evolves d d'"
proof -
  let ?P = "\<lambda>j. i_id j = i_id i \<and> i_state j = DispatchArmed"
  let ?lr = "\<lparr>lr_key = Seq (i_message_seq i), lr_agent_id = a, lr_lease_token = i_lease_token i,
    lr_window = Expired, lr_now = now\<rparr>"
  from ok obtain reason d1 d2 n k where
    upd: "leased_row_update ?lr (blocked_row (i_lease_token i) reason) d = (True, d1)"
    and ins: "insert_block_row (new_block_row (i_message_seq i) a (d_attempt r) (i_lease_token i)
        reason now) d1 = Inr (n, d2)"
    and k: "k \<in> set (invocations d2)" "i_id k = i_id i" "i_state k = DispatchArmed"
    and same: "same_core (d2\<lparr>invocations := update_where ?P (parked_row now) (invocations d2)\<rparr>) d'"
    by (rule park_effect)
  let ?d3 = "d2\<lparr>invocations := update_where ?P (parked_row now) (invocations d2)\<rparr>"
  note ins_e = insert_block_row_effect [OF ins]
  have invs: "invocations d2 = invocations d"
    using upd ins_e by (auto simp: leased_row_update_def)
  then show "invocations d' = update_where ?P (parked_row now) (invocations d)"
    using same by (simp add: same_core_def)
  have jk: "j = k"
    using k j invs core_invD(5) [OF core] by (auto simp: invocations_inv_def dest: unique_onD)
  then have armed: "i_state j = DispatchArmed" using k by simp
  have key: "invocation_key j = (i_message_seq i, a)" using j by (simp add: invocation_key_def)
  have target: "leased_row_target ?lr d = invocation_key j" by (simp add: leased_row_target_def key)
  have "fence_ok d j" using invocation_okD [OF core_invD(5) [OF core] j(1)] armed by (simp add: invocation_ok_def)
  then obtain r0 where r0: "delivery_at (invocation_key j) d = Some r0" "d_attempt r0 = d_attempt r"
    using j(6) by (auto simp: fence_ok_def)
  have at1: "delivery_at (invocation_key j) d1 = Some (blocked_row (i_lease_token i) reason r0)"
    using block.settled_row [OF core_invD(3) [OF core] upd] r0 target by auto
  have at2: "delivery_at q d2 = delivery_at q d1" for q using ins_e by (simp add: delivery_at_def)
  have ev: "evolves d d2"
    using block.settled_evolves [OF upd] insert_block_evolves [OF ins] by (rule evolves_trans)
  then show "evolves d d'"
    using same by (simp add: evolves_def same_core_def delivery_at_def)
  have blocks: "blocks_inv d2"
    using block_recorded [OF core_invD(3,4) [OF core], of ?lr reason d1 "invocation_key j" r0 reason now n d2]
      upd ins r0 target by (simp add: key)
  have "deliveries_inv d1" using block.settled_inv [OF core_invD(3) [OF core] upd] .
  then have "deliveries_inv d2" by (rule deliveries_inv_cong) (use ins_e in auto)
  moreover have "agents d2 = agents d" "channels d2 = channels d" "channel_members d2 = channel_members d"
    "messages d2 = messages d" "messages_sequence d2 = messages_sequence d"
    using upd ins_e by (auto simp: leased_row_update_def)
  moreover have "kernel_inv d" using core by (simp add: core_inv_split)
  ultimately have kernel: "kernel_inv d2" using blocks kernel_inv_deliveries [of d d2] by simp
  have new_block: "new_block_row (i_message_seq i) a (d_attempt r) (i_lease_token i) reason now n
      \<in> set (delivery_blocks d2)" using ins_e by simp
  have "invocations_inv ?d3"
  proof (rule invocations_inv_update [OF core_invD(5) [OF core]])
    show "invocations ?d3 = update_where ?P (parked_row now) (invocations d)" by (simp add: invs)
    show "same_identity x (parked_row now x)" for x by (simp add: parked_row_def)
    fix x
    assume x: "x \<in> set (invocations d)" "invocation_ok d x"
    have "invocation_ok d2 (if ?P x then parked_row now x else x)"
    proof (cases "?P x")
      case True
      then have "x = j" using x j core_invD(5) [OF core] by (auto simp: invocations_inv_def dest: unique_onD)
      moreover have "outcome_ok d2 (parked_row now j)"
        unfolding parked_row_def using at1 at2 r0 j key
        by (intro outcome_unknown_ok [OF _ _ new_block, where r = "blocked_row (i_lease_token i) reason r0"])
          (auto simp: blocked_row_def new_block_row_def block_key_def)
      ultimately show ?thesis
        using x True ev unfolding parked_row_def by (auto intro!: invocation_ok_terminal [of d])
    next
      case False
      have "delivery_at (invocation_key x) d2 = delivery_at (invocation_key x) d"
        if "i_state x \<noteq> Terminal"
      proof -
        have "invocation_key x \<noteq> invocation_key j"
          using open_invocation_unique [OF core_invD(5) [OF core] x(1) j(1) that] armed False j(2) by auto
        then show ?thesis using block.settled_others [OF upd] target at2 by simp
      qed
      then have "invocation_ok d2 x" by (rule invocation_ok_evolves [OF x(2) ev])
      with False show ?thesis by (simp only: if_False)
    qed
    then show "invocation_ok ?d3 (if ?P x then parked_row now x else x)" by simp
  qed
  moreover have "kernel_inv ?d3" using kernel by (rule kernel_inv_cong) simp
  ultimately have "core_inv ?d3" by (simp add: core_inv_split)
  then show "core_inv d'" using same by (rule core_inv_same)
qed

lemma park_keeps_open:
  assumes "j \<in> set (update_where (\<lambda>j. i_id j = iid \<and> i_state j = DispatchArmed) (parked_row now) invs)"
    and "i_state j \<noteq> Terminal"
  shows "j \<in> set invs \<and> \<not> (i_id j = iid \<and> i_state j = DispatchArmed)"
  using open_row_kept [OF assms] by (simp add: parked_row_def)

lemma identity_kept:
  assumes "i \<in> set invs" and "\<And>x. same_identity x (f x)"
  shows "\<exists>j\<in>set (update_where P f invs). same_identity i j"
  using assms imageI [OF assms(1), of "\<lambda>x. if P x then f x else x"]
  by (intro bexI [of _ "if P i then f i else i"]) (auto simp: update_where_def)

lemma recover_rows:
  assumes "core_inv d"
    and "\<And>i r. (i, r) \<in> set rows \<Longrightarrow> i_agent_id i = a \<and> d_attempt r = i_delivery_attempt i
      \<and> (\<exists>j\<in>set (invocations d). same_identity i j)"
    and "try_fold (\<lambda>row (n, d). and_then (park_expired_armed_invocation a now row d) (\<lambda>d.
      Inr (saturating_add_u64 n 1, d))) rows (n, d) = Inr (n', d')"
  shows "core_inv d' \<and> evolves d d'
    \<and> (\<forall>j\<in>set (invocations d'). i_state j \<noteq> Terminal \<longrightarrow> j \<in> set (invocations d)
         \<and> (i_state j = DispatchArmed \<longrightarrow> i_id j \<notin> i_id ` fst ` set rows))"
  using assms
proof (induction rows arbitrary: d n)
  case Nil
  then show ?case by auto
next
  case (Cons row rows)
  obtain i r where row: "row = (i, r)" by fastforce
  from Cons.prems(3) obtain d1 where one: "park_expired_armed_invocation a now (i, r) d = Inr d1"
    and rest: "try_fold (\<lambda>row (n, d). and_then (park_expired_armed_invocation a now row d) (\<lambda>d.
      Inr (saturating_add_u64 n 1, d))) rows (saturating_add_u64 n 1, d1) = Inr (n', d')"
    by (auto simp: row and_then_eq_Inr)
  from Cons.prems(2) [of i r] obtain j where j: "j \<in> set (invocations d)" "same_identity i j"
    and attempt: "i_agent_id i = a" "d_attempt r = i_delivery_attempt i" by (auto simp: row)
  have park: "core_inv d1" "evolves d d1"
    "invocations d1 = update_where (\<lambda>j. i_id j = i_id i \<and> i_state j = DispatchArmed) (parked_row now) (invocations d)"
    using park_core_inv [OF Cons.prems(1) j(1) _ _ _ _ _ one] j(2) attempt
    by (simp_all add: same_identity_def)
  have kept: "i_agent_id x = a \<and> d_attempt y = i_delivery_attempt x
      \<and> (\<exists>j\<in>set (invocations d1). same_identity x j)" if "(x, y) \<in> set rows" for x y
  proof -
    from Cons.prems(2) [of x y] that obtain z where z: "z \<in> set (invocations d)" "same_identity x z"
      and facts: "i_agent_id x = a" "d_attempt y = i_delivery_attempt x" by auto
    have "same_identity v (parked_row now v)" for v by (simp add: parked_row_def)
    from identity_kept [OF z(1) this] obtain w where "w \<in> set (invocations d1)" "same_identity z w"
      unfolding park(3) by blast
    with z(2) facts show ?thesis by (blast intro: same_identity_trans)
  qed
  note IH = Cons.IH [OF park(1) kept rest]
  have "j \<in> set (invocations d) \<and> (i_state j = DispatchArmed \<longrightarrow> i_id j \<notin> i_id ` fst ` set (row # rows))"
    if j: "j \<in> set (invocations d')" "i_state j \<noteq> Terminal" for j
  proof -
    from IH j have 1: "j \<in> set (invocations d1)"
      "i_state j = DispatchArmed \<longrightarrow> i_id j \<notin> i_id ` fst ` set rows" by auto
    from park_keeps_open [OF 1(1) [unfolded park(3)] j(2)] 1(2) show ?thesis by (auto simp: row)
  qed
  then show ?case using IH evolves_trans [OF park(2)] by blast
qed

lemma expired_armed_mem:
  "(i, r) \<in> set (expired_armed a now d) \<longleftrightarrow>
     i \<in> set (invocations d) \<and> r \<in> set (agent_deliveries d) \<and> lapsed_delivery now i r
     \<and> i_agent_id i = a \<and> i_state i = DispatchArmed \<and> i_lease_expires_at_ms i \<le> now"
  by (auto simp: expired_armed_def)

text \<open>An open invocation whose lease has lapsed is one that recovery finds.\<close>

lemma open_lapsed:
  assumes "core_inv d" and "i \<in> set (invocations d)" and "i_state i \<noteq> Terminal"
    and "i_lease_expires_at_ms i \<le> now"
  obtains r where "r \<in> set (agent_deliveries d)" and "lapsed_delivery now i r"
    and "delivery_at (invocation_key i) d = Some r" and "d_attempt r = i_delivery_attempt i"
proof -
  have "fence_ok d i"
    using invocation_okD [OF core_invD(5) [OF assms(1)] assms(2)] assms(3) by (simp add: invocation_ok_def)
  then obtain r where r: "delivery_at (invocation_key i) d = Some r" "d_state r = Leased"
    "d_lease_token r = Some (i_lease_token i)" "d_lease_expires_at_ms r = Some (i_lease_expires_at_ms i)"
    "d_attempt r = i_delivery_attempt i" unfolding fence_ok_def by blast
  then have "r \<in> set (agent_deliveries d)" "delivery_key r = invocation_key i"
    by (auto dest: delivery_at_key)
  with r assms(4) that show thesis
    by (auto simp: lapsed_delivery_def delivery_key_def invocation_key_def)
qed

lemma recover_core_inv:
  assumes core: "core_inv d" and ok: "recover_expired_invocations_transaction a now d = Inr (n, d')"
  shows "core_inv d'" and "evolves d d'"
    and "\<And>j. j \<in> set (invocations d') \<Longrightarrow> i_state j \<noteq> Terminal \<Longrightarrow>
      j \<in> set (invocations d) \<and> (i_agent_id j = a \<longrightarrow> now < i_lease_expires_at_ms j)"
proof -
  obtain n1 d1 where res: "terminalize_expired_reservations a now d = (n1, d1)" by fastforce
  let ?P = "\<lambda>i. i_agent_id i = a \<and> i_state i = Reserved \<and> i_lease_expires_at_ms i \<le> now
     \<and> (\<exists>r\<in>set (agent_deliveries d). lapsed_delivery now i r)"
  have d1: "d1 = d\<lparr>invocations := update_where ?P
      (terminal_row now NotStarted ''reservation_expired_before_dispatch'') (invocations d)\<rparr>"
    using res by (simp add: terminalize_expired_reservations_def Let_def)
  have core1: "core_inv d1" using core_inv_terminalize_expired [OF core res] .
  have ev1: "evolves d d1" by (auto simp: evolves_def d1 delivery_at_def intro: block_kept_in)
  have fold: "try_fold (\<lambda>row (n, d). and_then (park_expired_armed_invocation a now row d) (\<lambda>d.
      Inr (saturating_add_u64 n 1, d))) (expired_armed a now d1) (n1, d1) = Inr (n, d')"
    using ok by (simp add: recover_expired_invocations_transaction_def res)
  have rows: "i_agent_id i = a \<and> d_attempt r = i_delivery_attempt i
      \<and> (\<exists>j\<in>set (invocations d1). same_identity i j)" if "(i, r) \<in> set (expired_armed a now d1)" for i r
  proof -
    from that have i: "i \<in> set (invocations d1)" "r \<in> set (agent_deliveries d1)" "lapsed_delivery now i r"
      "i_agent_id i = a" "i_state i = DispatchArmed" "i_lease_expires_at_ms i \<le> now"
      by (simp_all add: expired_armed_mem)
    then obtain q where "delivery_at (invocation_key i) d1 = Some q" "d_attempt q = i_delivery_attempt i"
      using open_lapsed [OF core1 i(1) _ i(6)] by auto
    moreover have "delivery_at (invocation_key i) d1 = Some r"
      using i(2,3) core_invD(3) [OF core1]
      by (simp add: delivery_at_iff lapsed_delivery_def delivery_key_def invocation_key_def)
    ultimately show ?thesis using i by (auto intro!: bexI [of _ i])
  qed
  note post = recover_rows [OF core1 rows fold]
  from post show "core_inv d'" by blast
  from post ev1 show "evolves d d'" by (blast intro: evolves_trans)
  fix j
  assume j: "j \<in> set (invocations d')" "i_state j \<noteq> Terminal"
  with post have j1: "j \<in> set (invocations d1)"
    and unparked: "i_state j = DispatchArmed \<longrightarrow> i_id j \<notin> i_id ` fst ` set (expired_armed a now d1)" by auto
  from j1 j(2) have j0: "j \<in> set (invocations d)" "\<not> ?P j"
    using open_row_kept [of j ?P "terminal_row now NotStarted ''reservation_expired_before_dispatch''"
        "invocations d"] by (simp_all add: d1)
  have "now < i_lease_expires_at_ms j" if "i_agent_id j = a"
  proof (rule ccontr)
    assume "\<not> now < i_lease_expires_at_ms j"
    then have le: "i_lease_expires_at_ms j \<le> now" by simp
    obtain r where r: "r \<in> set (agent_deliveries d1)" "lapsed_delivery now j r"
      using open_lapsed [OF core1 j1 j(2) le] by auto
    show False
    proof (cases "i_state j")
      case Reserved
      then show ?thesis using j0(2) r le that by (auto simp: d1)
    next
      case DispatchArmed
      then have "(j, r) \<in> set (expired_armed a now d1)" using r le that j1 by (simp add: expired_armed_mem)
      then show ?thesis using unparked DispatchArmed by (metis fst_conv imageI)
    qed (use j in simp)
  qed
  with j0 show "j \<in> set (invocations d) \<and> (i_agent_id j = a \<longrightarrow> now < i_lease_expires_at_ms j)" by blast
qed

section \<open>Completing keeps the invariant\<close>

lemma kernel_inv_insert_message:
  assumes "kernel_inv d" and ok: "insert_message uuid now cid inp d = Inr (m, d')"
  shows "kernel_inv d'"
proof -
  have d': "d' = d\<lparr>messages := messages d @ [appended_row uuid now cid inp (messages_sequence d + 1)],
      messages_sequence := messages_sequence d + 1,
      agent_deliveries := agent_deliveries d @
        map (\<lambda>a. new_delivery_row (messages_sequence d + 1) a now)
          (snapshot_recipients cid (new_sender_id inp) (new_recipient_id inp) d)\<rparr>"
    using insert_message_store [OF ok] .
  have "blocks_inv d'"
  proof (rule blocks_inv_step [of d])
    show "\<exists>r'. delivery_at k d' = Some r' \<and> d_attempt r \<le> d_attempt r'
        \<and> (r' = r \<or> d_state r \<notin> {Blocked, Dead})" if "delivery_at k d = Some r" for k r
      using insert_message_keeps_deliveries [OF ok that] by simp
    show "delivery_at k d = Some r'" if "delivery_at k d' = Some r'" "d_state r' = Blocked" for k r'
      using that by (auto simp: d' delivery_at_def find_append_table new_delivery_row_def
          split: option.splits dest!: find_in)
  qed (use assms(1) in \<open>simp_all add: kernel_inv_def d'\<close>)
  then show ?thesis using insert_message_invs [OF ok] assms(1) by (simp add: kernel_inv_def)
qed

lemma core_inv_insert_message:
  assumes "core_inv d" and ok: "insert_message uuid now cid inp d = Inr (m, d')"
  shows "core_inv d'"
proof -
  have "invocations_inv d'"
  proof (rule invocations_inv_update [OF core_invD(5) [OF assms(1)],
        where P = "\<lambda>_. False" and f = "\<lambda>i. i"])
    show "invocations d' = update_where (\<lambda>_. False) (\<lambda>i. i) (invocations d)"
      using insert_message_store [OF ok] by simp
    show "invocation_ok d' (if False then i else i)" if "invocation_ok d i" for i
    proof -
      have "delivery_at (invocation_key i) d' = delivery_at (invocation_key i) d" if "fence_ok d i"
      proof -
        from that obtain r where r: "delivery_at (invocation_key i) d = Some r" unfolding fence_ok_def by blast
        from insert_message_keeps_deliveries [OF ok r] r show ?thesis by simp
      qed
      then show ?thesis
        using invocation_ok_evolves [OF that insert_message_evolves [OF ok]] that
        by (auto simp: invocation_ok_def)
    qed
  qed simp
  then show ?thesis
    using assms(1) kernel_inv_insert_message [OF _ ok] by (simp add: core_inv_split)
qed

lemma core_inv_append:
  assumes "core_inv d" and "append_message_in_transaction uuid now cid inp d = Inr (r, d')"
  shows "core_inv d'"
  using assms(2)
  by (cases rule: append_message_cases) (use assms(1) core_inv_insert_message in blast)+

lemma invocation_with_delivery_Inr:
  assumes "invocation_with_delivery a iid d = Inr (i, r, m)"
  shows "i \<in> set (invocations d)" "i_id i = iid" "i_agent_id i = a"
    "r \<in> set (agent_deliveries d)" "delivery_key r = invocation_key i"
    "m \<in> set (messages d)" "m_seq m = i_message_seq i"
  using assms unfolding invocation_with_delivery_def ok_or_eq_Inr
  by (auto dest!: find_in simp: delivery_key_def invocation_key_def)

lemma complete_cases:
  assumes "complete_invocation_transaction uuid msg_now a iid inp now allow d = Inr ((c, created), d')"
  obtains (replay) "d' = d" "\<not> created"
  | (completed) i r m result d1 d2 where
      "invocation_with_delivery a iid d = Inr (i, r, m)"
      "i_lease_token i = complete_lease_token inp" "i_fence_token i = complete_fence_token inp"
      "i_state i = DispatchArmed"
      "validate_live_lease i r (complete_lease_token inp) now = Inr ()"
      "insert_message uuid msg_now (m_channel_id m) (result_input a iid m inp) d = Inr (result, d1)"
      "leased_row_update \<lparr>lr_key = Seq (i_message_seq i), lr_agent_id = a,
         lr_lease_token = i_lease_token i, lr_window = Live, lr_now = now\<rparr>
         (acknowledge_row (i_lease_token i) now) d1 = (True, d2)"
      "d' = d2\<lparr>invocations := update_where
         (\<lambda>i. i_id i = iid \<and> i_agent_id i = a \<and> i_state i = DispatchArmed)
         (completed_row now (msg_seq result)) (invocations d2)\<rparr>"
      "completion_result c = result" created
      "allow \<or> ensure_invocation_not_active_on_session iid d = Inr ()"
proof -
  obtain i r m where row: "invocation_with_delivery a iid d = Inr (i, r, m)"
    using assms unfolding complete_invocation_transaction_def and_then_eq_Inr by auto
  have static: "validate_static_fence i (complete_lease_token inp) (complete_fence_token inp) = Inr ()"
    and bound: "allow \<or> ensure_invocation_not_active_on_session iid d = Inr ()"
    using assms
    by (auto simp: complete_invocation_transaction_def row and_then_eq_Inr Let_def split: if_splits)
  then have tokens: "i_lease_token i = complete_lease_token inp" "i_fence_token i = complete_fence_token inp"
    by (auto simp: validate_static_fence_def split: if_splits)
  show thesis
  proof (cases "i_state i = DispatchArmed")
    case False
    then show thesis
      using assms replay
      by (cases "i_state i") (auto simp: complete_invocation_transaction_def row and_then_eq_Inr Let_def)
  next
    case True
    with assms obtain result d1 d2 where
      live: "validate_live_lease i r (complete_lease_token inp) now = Inr ()"
      and msg: "insert_message uuid msg_now (m_channel_id m) (result_input a iid m inp) d = Inr (result, d1)"
      and ack: "acknowledge_invocation_delivery i a (complete_lease_token inp) now d1 = Inr d2"
      and d': "d' = d2\<lparr>invocations := update_where
         (\<lambda>i. i_id i = iid \<and> i_agent_id i = a \<and> i_state i = DispatchArmed)
         (completed_row now (msg_seq result)) (invocations d2)\<rparr>" "completion_result c = result" created
      by (auto simp: complete_invocation_transaction_def row and_then_eq_Inr Let_def split: if_splits)
    have "leased_row_update \<lparr>lr_key = Seq (i_message_seq i), lr_agent_id = a,
         lr_lease_token = i_lease_token i, lr_window = Live, lr_now = now\<rparr>
         (acknowledge_row (i_lease_token i) now) d1 = (True, d2)"
      using ack unfolding acknowledge_invocation_delivery_def acknowledge_leased_seq_def tokens
      by (auto split: prod.splits if_splits)
    from completed [OF row tokens True live msg this d' bound] show thesis .
  qed
qed

lemma completed_row_facts [simp]:
  "invocation_key (completed_row now seq i) = invocation_key i"
  "i_state (completed_row now seq i) = Terminal"
  by (simp_all add: completed_row_def invocation_key_def)

lemma completed_row_ok:
  assumes "invocation_ok d i" and "evolves d d'"
    and "delivery_at (invocation_key i) d' = Some r" and "d_state r = Acknowledged"
    and "d_last_settled_lease_token r = Some (i_lease_token i)" and "d_attempt r = i_delivery_attempt i"
    and "m \<in> set (messages d')" and "m_seq m = seq" and "answers d' i m"
  shows "invocation_ok d' (completed_row now seq i)"
proof -
  have "outcome_ok d' (completed_row now seq i)"
    using assms(3-6) unfolding outcome_ok_def
    by (intro exI [of _ r]) (auto simp: completed_row_def invocation_key_def)
  moreover have "result_ok d' (completed_row now seq i)"
    using assms(7-9) by (auto simp: result_ok_def completed_row_def)
  moreover have "invocation_check (completed_row now seq i)"
    using assms(1) by (auto simp: invocation_ok_def invocation_check_def completed_row_def)
  ultimately show ?thesis by (simp add: invocation_ok_def)
qed

lemma core_inv_complete:
  assumes core: "core_inv d"
    and ok: "complete_invocation_transaction uuid msg_now a iid inp now allow d = Inr ((c, created), d')"
  shows "core_inv d'"
  using ok
proof (cases rule: complete_cases)
  case (completed i r m result d1 d2)
  let ?lr = "\<lparr>lr_key = Seq (i_message_seq i), lr_agent_id = a, lr_lease_token = i_lease_token i,
    lr_window = Live, lr_now = now\<rparr>"
  let ?P = "\<lambda>i. i_id i = iid \<and> i_agent_id i = a \<and> i_state i = DispatchArmed"
  note row = invocation_with_delivery_Inr [OF completed(1)]
  have core1: "core_inv d1" by (rule core_inv_insert_message [OF core completed(6)])
  have invs1: "invocations d1 = invocations d" using insert_message_store [OF completed(6)] by simp
  have invs2: "invocations d2 = invocations d1" and msgs2: "messages d2 = messages d1"
    using completed(7) by (auto simp: leased_row_update_def)
  have i1: "i \<in> set (invocations d1)" using row invs1 by simp
  have key: "leased_row_target ?lr d1 = invocation_key i"
    using row by (simp add: leased_row_target_def invocation_key_def)
  have "fence_ok d1 i" using invocation_okD [OF core_invD(5) [OF core1] i1] completed(4)
    by (simp add: invocation_ok_def)
  then obtain r1 where r1: "delivery_at (invocation_key i) d1 = Some r1" "d_attempt r1 = i_delivery_attempt i"
    by (auto simp: fence_ok_def)
  have at2: "delivery_at (invocation_key i) d2 = Some (acknowledge_row (i_lease_token i) now r1)"
    using acknowledge.settled_row [OF core_invD(3) [OF core1] completed(7)] r1 key by auto
  have ev: "evolves d1 d2" by (rule acknowledge.settled_evolves [OF completed(7)])
  let ?m = "appended_row uuid msg_now (m_channel_id m) (result_input a iid m inp) (messages_sequence d + 1)"
  have "result = message_from_row ?m" using completed(6) by (rule insert_message_effect)
  then have result: "?m \<in> set (messages d2)" "m_seq ?m = msg_seq result"
    using insert_message_store [OF completed(6)] msgs2 by (simp_all add: message_from_row_def)
  have "m \<in> set (messages d2)" using insert_message_store [OF completed(6)] msgs2 row(6) by simp
  then have answer: "answers d2 i ?m"
    using row by (auto simp: answers_def appended_row_def result_input_def result_key_def)
  have "invocations_inv d'"
  proof (rule invocations_inv_update [OF core_invD(5) [OF core1]])
    show "invocations d' = update_where ?P (completed_row now (msg_seq result)) (invocations d1)"
      by (simp add: completed(8) invs2)
    fix x
    assume x: "x \<in> set (invocations d1)" "invocation_ok d1 x"
    have "invocation_ok d2 (if ?P x then completed_row now (msg_seq result) x else x)"
    proof (cases "?P x")
      case True
      then have xi: "x = i"
        using x i1 row core_invD(5) [OF core1] by (auto simp: invocations_inv_def dest: unique_onD)
      have "invocation_ok d2 (completed_row now (msg_seq result) i)"
        using x(2) [unfolded xi] ev at2
        by (rule completed_row_ok)
          (use result r1 answer in \<open>auto simp: acknowledge_row_def\<close>)
      then show ?thesis using True xi by simp
    next
      case False
      have "invocation_ok d2 x"
      proof (rule invocation_ok_evolves [OF x(2) ev])
        assume "i_state x \<noteq> Terminal"
        then have "invocation_key x \<noteq> leased_row_target ?lr d1"
          using open_invocation_unique [OF core_invD(5) [OF core1] x(1) i1] completed(4) False row key by auto
        then show "delivery_at (invocation_key x) d2 = delivery_at (invocation_key x) d1"
          by (rule acknowledge.settled_others [OF completed(7)])
      qed
      with False show ?thesis by (simp only: if_False)
    qed
    then show "invocation_ok d' (if ?P x then completed_row now (msg_seq result) x else x)"
      by (simp add: completed(8))
  qed simp
  moreover have "kernel_inv d'"
  proof (rule kernel_inv_cong)
    show "kernel_inv d2"
      using acknowledge.settled_kernel_inv [OF _ completed(7)] core1
      by (simp add: core_inv_split acknowledge_row_def)
  qed (rule completed(8))
  ultimately show ?thesis by (simp add: core_inv_split)
qed (use core in simp)

section \<open>Reserving keeps the invariant\<close>

definition token_fresh :: "string \<Rightarrow> db \<Rightarrow> bool" where
  "token_fresh token d \<longleftrightarrow> (\<forall>r\<in>set (agent_deliveries d). d_lease_token r \<noteq> Some token)"

lemma park_token_fresh:
  assumes "park_expired_armed_invocation a now (i, r) d = Inr d'" and "token_fresh token d"
  shows "token_fresh token d'"
  using assms(1)
proof (rule park_effect)
  fix reason d1 d2 n k
  assume upd: "leased_row_update \<lparr>lr_key = Seq (i_message_seq i), lr_agent_id = a,
      lr_lease_token = i_lease_token i, lr_window = Expired, lr_now = now\<rparr>
      (blocked_row (i_lease_token i) reason) d = (True, d1)"
    and ins: "insert_block_row (new_block_row (i_message_seq i) a (d_attempt r) (i_lease_token i)
      reason now) d1 = Inr (n, d2)"
    and same: "same_core (d2\<lparr>invocations := update_where (\<lambda>j. i_id j = i_id i \<and> i_state j = DispatchArmed)
      (parked_row now) (invocations d2)\<rparr>) d'"
  then obtain P where d1: "agent_deliveries d1 =
      update_where P (blocked_row (i_lease_token i) reason) (agent_deliveries d)"
    by (auto simp: leased_row_update_def)
  have "token_fresh token d1"
    using assms(2) unfolding token_fresh_def d1 ball_update_where by (simp add: blocked_row_def)
  then show ?thesis
    using insert_block_row_effect [OF ins] same by (simp add: token_fresh_def same_core_def)
qed

lemma recover_token_fresh:
  assumes "recover_expired_invocations_transaction a now d = Inr (n, d')" and "token_fresh token d"
  shows "token_fresh token d'"
proof -
  obtain n1 d1 where res: "terminalize_expired_reservations a now d = (n1, d1)" by fastforce
  have "token_fresh token d1"
    using res assms(2) by (auto simp: terminalize_expired_reservations_def Let_def token_fresh_def)
  moreover have "try_fold (\<lambda>row (n, d). and_then (park_expired_armed_invocation a now row d) (\<lambda>d.
      Inr (saturating_add_u64 n 1, d))) (expired_armed a now d1) (n1, d1) = Inr (n, d')"
    using assms(1) by (simp add: recover_expired_invocations_transaction_def res)
  ultimately have "(\<lambda>(n, d). token_fresh token d) (n, d')"
    by (elim try_fold_invariant) (auto simp: and_then_eq_Inr dest: park_token_fresh)
  then show ?thesis by simp
qed

lemma lease_core_inv:
  assumes core: "core_inv d"
    and live: "\<And>j. j \<in> set (invocations d) \<Longrightarrow> i_state j \<noteq> Terminal \<Longrightarrow> i_agent_id j = a \<Longrightarrow>
      now < i_lease_expires_at_ms j"
  shows "core_inv (lease_claimable a token expires now limit kinds d)" (is "core_inv ?d")
proof -
  have frame: "agents ?d = agents d" "channels ?d = channels d" "channel_members ?d = channel_members d"
    "messages ?d = messages d" "messages_sequence ?d = messages_sequence d" "invocations ?d = invocations d"
    by (simp_all add: lease_claimable_def Let_def)
  have ev: "evolves d ?d" by (rule lease_evolves [OF core_invD(3) [OF core]])
  have "invocations_inv ?d"
  proof (rule invocations_inv_update [OF core_invD(5) [OF core], where P = "\<lambda>_. False" and f = "\<lambda>i. i"])
    show "invocations ?d = update_where (\<lambda>_. False) (\<lambda>i. i) (invocations d)" by (simp add: frame)
    fix i
    assume i: "i \<in> set (invocations d)" "invocation_ok d i"
    have "invocation_ok ?d i"
    proof (rule invocation_ok_evolves [OF i(2) ev])
      assume "open": "i_state i \<noteq> Terminal"
      then have "fence_ok d i" using i(2) by (simp add: invocation_ok_def)
      then obtain r where r: "delivery_at (invocation_key i) d = Some r" "d_state r = Leased"
        "d_lease_expires_at_ms r = Some (i_lease_expires_at_ms i)" unfolding fence_ok_def by blast
      have "invocation_key i \<notin> delivery_key ` set (leasable_rows a now limit kinds d)"
      proof
        assume "invocation_key i \<in> delivery_key ` set (leasable_rows a now limit kinds d)"
        from leased_was_claimable [OF core_invD(3) [OF core] r(1) this]
        have "d_agent_id r = a" "i_lease_expires_at_ms i \<le> now" using r by (auto simp: claimable_def)
        moreover have "i_agent_id i = a"
          using delivery_at_key [OF r(1)] \<open>d_agent_id r = a\<close> by (auto simp: delivery_key_def invocation_key_def)
        ultimately show False using live [OF i(1) "open"] by simp
      qed
      then show "delivery_at (invocation_key i) ?d = delivery_at (invocation_key i) d"
        using r(1) by (simp add: delivery_at_lease)
    qed
    then show "invocation_ok ?d (if False then i else i)" by simp
  qed simp
  moreover have "kernel_inv ?d"
    using kernel_inv_deliveries [of d ?d] core frame deliveries_inv_lease blocks_inv_lease core_invD [OF core]
    by (simp add: core_inv_split)
  ultimately show ?thesis by (simp add: core_inv_split)
qed

lemma insert_invocation_row_effect:
  "insert_invocation_row i d = Inr d' \<Longrightarrow>
     d' = d\<lparr>invocations := invocations d @ [i]\<rparr>
     \<and> i_id i \<notin> i_id ` set (invocations d)
     \<and> i_fence_token i \<notin> i_fence_token ` set (invocations d)
     \<and> attempt_key i \<notin> attempt_key ` set (invocations d)"
  by (auto simp: insert_invocation_row_def attempt_key_def split: if_splits)

lemma core_inv_reserve_row:
  assumes core: "core_inv d" and ok: "reserve_row uuid fence (r, m) a token expires now d = Inr (x, d')"
    and r: "delivery_at (m_seq m, a) d = Some r" "d_state r = Leased" "d_lease_token r = Some token"
      "d_lease_expires_at_ms r = Some expires"
  shows "core_inv d' \<and> agent_deliveries d' = agent_deliveries d"
proof -
  let ?i = "reserved_row uuid fence r m a token expires now"
  have ins: "insert_invocation_row ?i d = Inr d'"
    using ok by (auto simp: reserve_row_def Let_def and_then_eq_Inr)
  note e = insert_invocation_row_effect [OF ins]
  have d': "d' = d\<lparr>invocations := invocations d @ [?i]\<rparr>" using e by blast
  have "fence_ok d ?i"
    using r by (auto simp: fence_ok_def reserved_row_def invocation_key_def)
  moreover have "0 < d_attempt r"
    using core_invD(3) [OF core] r by (auto simp: deliveries_inv_def delivery_standing_def dest!: delivery_at_key)
  ultimately have "invocation_ok d ?i"
    by (auto simp: invocation_ok_def invocation_check_def result_ok_def reserved_row_def)
  then have "invocations_inv d'"
    using core_invD(5) [OF core] e by (simp add: invocations_inv_def d')
  then show ?thesis using core_inv_invocations_only [OF core d'] by (simp add: d')
qed

lemma leased_rows_mem:
  assumes "core_inv d" and "(r, m) \<in> set (leased_rows a token d)"
  shows "delivery_at (m_seq m, a) d = Some r" "d_state r = Leased" "d_lease_token r = Some token"
  using assms core_invD(3) [OF assms(1)]
  by (auto simp: leased_rows_def delivery_join_mem delivery_at_iff delivery_key_def)

lemma leased_expiry:
  assumes "token_fresh token d" and "r \<in> set (agent_deliveries (lease_claimable a token expires now limit kinds d))"
    and "d_lease_token r = Some token"
  shows "d_lease_expires_at_ms r = Some expires"
proof -
  obtain q where "q \<in> set (agent_deliveries d)" "r = lease_row token expires q \<or> r = q"
    using assms(2) by (auto simp: lease_claimable_def Let_def in_update_where)
  with assms(1,3) show ?thesis by (auto simp: token_fresh_def lease_row_def)
qed

lemma core_inv_reserve_rows:
  assumes "core_inv d" and "reserve_rows uuids fences rows a token expires now d = Inr (xs, d')"
    and rows: "\<And>r m. (r, m) \<in> set rows \<Longrightarrow> delivery_at (m_seq m, a) d = Some r \<and> d_state r = Leased
      \<and> d_lease_token r = Some token \<and> d_lease_expires_at_ms r = Some expires"
  shows "core_inv d'"
proof -
  have "(\<lambda>(xs, e). core_inv e \<and> agent_deliveries e = agent_deliveries d) (xs, d')"
    using assms(2) unfolding reserve_rows_def
  proof (rule try_fold_invariant)
    fix x s t
    assume x: "x \<in> set (zip [0..<length rows] rows)"
      and step: "(case x of (n, row) \<Rightarrow> \<lambda>(invs, d).
        and_then (reserve_row (uuids n) (fences n) row a token expires now d)
          (\<lambda>(inv, d). Inr (invs @ [inv], d))) s = Inr t"
      and inv: "(\<lambda>(xs, e). core_inv e \<and> agent_deliveries e = agent_deliveries d) s"
    obtain n r m ys e where xs: "x = (n, r, m)" "s = (ys, e)" by (metis surj_pair)
    with x have "(r, m) \<in> set rows" by (auto dest: set_zip_rightD)
    from rows [OF this] inv xs have "delivery_at (m_seq m, a) e = Some r" "d_state r = Leased"
      "d_lease_token r = Some token" "d_lease_expires_at_ms r = Some expires"
      by (auto simp: delivery_at_def)
    from core_inv_reserve_row [OF _ _ this] step inv xs
    show "(\<lambda>(xs, e). core_inv e \<and> agent_deliveries e = agent_deliveries d) t"
      by (force simp: and_then_eq_Inr)
  qed (use assms(1) in simp)
  then show ?thesis by simp
qed

lemma core_inv_reserve:
  assumes core: "core_inv d" and fresh: "token_fresh token d"
    and ok: "reserve_invocations_filtered token uuids fences now a inp kinds d = Inr (xs, d')"
  shows "core_inv d'"
proof -
  obtain n d1 expires where rec: "recover_expired_invocations_transaction a now d = Inr (n, d1)"
    and res: "reserve_rows uuids fences
      (leased_rows a token (lease_claimable a token expires now (claim_limit inp) kinds d1))
      a token expires now (lease_claimable a token expires now (claim_limit inp) kinds d1) = Inr (xs, d')"
    using ok by (auto simp: reserve_invocations_filtered_def and_then_eq_Inr Let_def)
  let ?d = "lease_claimable a token expires now (claim_limit inp) kinds d1"
  have core2: "core_inv ?d"
    using recover_core_inv [OF core rec] by (intro lease_core_inv) auto
  have fresh1: "token_fresh token d1" using recover_token_fresh [OF rec fresh] .
  show ?thesis
    using core2 res
  proof (rule core_inv_reserve_rows)
    fix r m
    assume "(r, m) \<in> set (leased_rows a token ?d)"
    from leased_rows_mem [OF core2 this] leased_expiry [OF fresh1] delivery_at_key
    show "delivery_at (m_seq m, a) ?d = Some r \<and> d_state r = Leased
      \<and> d_lease_token r = Some token \<and> d_lease_expires_at_ms r = Some expires" by blast
  qed
qed

lemma core_inv_recover_agents:
  assumes "core_inv d" and "recover_agents as now d = Inr (n, d')"
  shows "core_inv d'"
proof -
  have "(\<lambda>(n, e). core_inv e) (n, d')"
    using assms(2) unfolding recover_agents_def
    by (rule try_fold_invariant) (use assms(1) recover_core_inv(1) in \<open>auto simp: and_then_eq_Inr\<close>)
  then show ?thesis by simp
qed

end
