(* ===== verification/Settlement.thy ===== *)
theory Settlement
  imports Invocation
begin

text \<open>
  Claiming and settling deliveries: \<open>crates/execution/src/settlement.rs\<close>.  Each operation composes
  a transition of the delivery row with what it means for the invocation fence and for the native
  session, in one transaction.  Where the source rolls back and reads the settled row, the store
  that is returned is the one the operation started from.
\<close>

section \<open>Operations\<close>

definition claim_deliveries ::
  "string \<Rightarrow> i64 \<Rightarrow> string \<Rightarrow> claim_deliveries_input \<Rightarrow> claim_batch transaction" where
  "claim_deliveries lease_token now agent_id inp d =
     and_then (validate_claim inp) (\<lambda>_.
     and_then (ok_or (i64_try_from (claim_lease_duration_ms inp))
       (Invalid ''lease duration is too large'')) (\<lambda>duration.
     and_then (ok_or (checked_add_i64 now duration) (Invalid ''lease expiry overflowed'')) (\<lambda>expires.
     and_then (ensure_agent agent_id d) (\<lambda>_.
     and_then (recover_expired_invocations_transaction agent_id now d) (\<lambda>(_, d).
     let d = lease_claimable agent_id lease_token expires now (claim_limit inp) None d in
     and_then (leased_batch agent_id lease_token d) (\<lambda>deliveries.
     Inr (\<lparr>batch_lease_token = lease_token, batch_lease_expires_at_ms = expires,
           batch_deliveries = deliveries\<rparr>, d)))))))"

definition acknowledge_delivery :: "i64 \<Rightarrow> string \<Rightarrow> string \<Rightarrow> string \<Rightarrow> unit transaction" where
  "acknowledge_delivery now agent_id message_id lease_token d =
     and_then (validate_token lease_token) (\<lambda>_.
     let (moved, d1) = mark_acknowledged agent_id message_id lease_token now d in
     if moved then
       and_then (terminalize_invocation agent_id message_id lease_token OutcomeKnown
         ''acknowledged'' now d1) (\<lambda>d. Inr ((), d))
     else
       and_then (settle_miss agent_id message_id lease_token ''acknowledged'' d) (\<lambda>_. Inr ((), d)))"

definition retry_delivery ::
  "i64 \<Rightarrow> string \<Rightarrow> string \<Rightarrow> retry_delivery_input \<Rightarrow> unit transaction" where
  "retry_delivery now agent_id message_id inp d =
     and_then (validate_retry inp) (\<lambda>_.
     and_then (ok_or (i64_try_from (retry_after_ms inp)) (Invalid ''retry delay is too large'')) (\<lambda>delay.
     and_then (ok_or (checked_add_i64 now delay) (Invalid ''retry time overflowed'')) (\<lambda>available_at.
     and_then (ensure_retry_is_safe agent_id message_id (retry_lease_token inp) d) (\<lambda>_.
     let (moved, d1) = mark_retry agent_id message_id inp available_at now d in
     if moved then
       and_then (terminalize_invocation agent_id message_id (retry_lease_token inp) NotStarted
         ''retry'' now d1) (\<lambda>d. Inr ((), d))
     else
       and_then (settle_miss agent_id message_id (retry_lease_token inp) ''retry'' d) (\<lambda>_.
       Inr ((), d))))))"

definition block_delivery ::
  "i64 \<Rightarrow> string \<Rightarrow> string \<Rightarrow> block_delivery_input \<Rightarrow> (blocked_delivery \<times> bool) transaction" where
  "block_delivery now agent_id message_id inp d =
     and_then (validate_block inp) (\<lambda>_.
     let (moved, d1) = mark_blocked agent_id message_id inp now d in
     if moved then
       and_then (insert_block_record agent_id message_id inp now d1) (\<lambda>(block_id, d).
       and_then (terminalize_invocation agent_id message_id (block_lease_token inp) OutcomeUnknown
         ''blocked'' now d) (\<lambda>d.
       and_then (blocked_delivery_by_id block_id d) (\<lambda>blocked.
       Inr ((blocked, True), d))))
     else
       (case blocked_delivery_by_lease agent_id message_id (block_lease_token inp) d1 of
          Some (blocked, reason) \<Rightarrow>
            if reason \<noteq> block_reason inp
            then Inl (Conflict ''lease was already blocked with different evidence'')
            else Inr ((blocked, False), d1)
        | None \<Rightarrow>
            and_then (settle_miss agent_id message_id (block_lease_token inp) ''blocked'' d) (\<lambda>_.
            Inl (LeaseConflict ''blocked settlement evidence is missing''))))"

definition resolve_delivery_block :: "i64 \<Rightarrow> i64 \<Rightarrow> resolve_block_input \<Rightarrow> unit transaction" where
  "resolve_delivery_block now block_id inp d =
     and_then (resolve_delivery_block_transaction block_id inp now d) (\<lambda>d.
     and_then (retire_uncertain_session_for_delivery_block block_id (resolve_resolution inp) now d)
       (\<lambda>(_, d). Inr ((), d)))"

section \<open>The invariant\<close>

lemma terminalize_invocation_Inr:
  assumes "terminalize_invocation a mid token c reason now d = Inr d'"
  shows "d' = d\<lparr>invocations := update_where (terminalize_predicate a mid token d)
    (terminal_row now c reason) (invocations d)\<rparr>"
  using assms by (auto simp: terminalize_invocation_def and_then_eq_Inr)

lemma core_inv_acknowledge:
  assumes core: "core_inv d" and ok: "acknowledge_delivery now a mid token d = Inr (u, d')"
  shows "core_inv d'"
proof -
  let ?lr = "\<lparr>lr_key = MessageId mid, lr_agent_id = a, lr_lease_token = token, lr_window = Live, lr_now = now\<rparr>"
  obtain moved d1 where upd: "leased_row_update ?lr (acknowledge_row token now) d = (moved, d1)" by fastforce
  have "d' = d \<or> moved \<and> terminalize_invocation a mid token OutcomeKnown ''acknowledged'' now d1 = Inr d'"
    using ok by (auto simp: acknowledge_delivery_def mark_acknowledged_def upd and_then_eq_Inr split: if_splits)
  then show ?thesis
  proof
    assume "moved \<and> terminalize_invocation a mid token OutcomeKnown ''acknowledged'' now d1 = Inr d'"
    then have upd1: "leased_row_update ?lr (acknowledge_row token now) d = (True, d1)"
      and d': "d' = d1\<lparr>invocations := update_where (terminalize_predicate a mid token d1)
        (terminal_row now OutcomeKnown ''acknowledged'') (invocations d1)\<rparr>"
      using upd by (auto dest: terminalize_invocation_Inr)
    show ?thesis
    proof (rule acknowledge.settle_and_terminalize [OF core upd1])
      show "kernel_inv d1"
        using core acknowledge.settled_kernel_inv [OF _ upd1] by (simp add: core_inv_split acknowledge_row_def)
      fix i
      assume i: "i \<in> set (invocations d)" "i_state i \<noteq> Terminal"
        "invocation_key i = leased_row_target ?lr d" "i_lease_token i = lr_lease_token ?lr"
      have "fence_ok d i" using invocation_okD [OF core_invD(5) [OF core] i(1)] i(2) by (simp add: invocation_ok_def)
      moreover obtain r where "delivery_at (leased_row_target ?lr d) d = Some r"
        "delivery_at (leased_row_target ?lr d) d1 = Some (acknowledge_row token now r)"
        using acknowledge.settled_row [OF core_invD(3) [OF core] upd1] by blast
      ultimately show "outcome_ok d1 (terminal_row now OutcomeKnown ''acknowledged'' i)"
        using i by (auto simp: outcome_ok_def fence_ok_def acknowledge_row_def)
    qed (use upd1 d' in \<open>auto simp: leased_row_update_def\<close>)
  qed (simp add: core)
qed

text \<open>The retry guard: an invocation that \<open>ensure_retry_is_safe\<close> lets through was never armed.\<close>

lemma retry_safe_not_armed:
  assumes "core_inv d" and "ensure_retry_is_safe a mid token d = Inr ()"
    and "i \<in> set (invocations d)" and "i_state i \<noteq> Terminal" and "i_agent_id i = a"
    and "m \<in> set (messages d)" and "m_id m = mid" and "m_seq m = i_message_seq i"
    and "i_lease_token i = token"
  shows "i_state i = Reserved"
proof -
  let ?join = "[(i, m). i \<leftarrow> invocations d, m \<leftarrow> messages d, m_seq m = i_message_seq i]"
  let ?Q = "\<lambda>(i, m). i_agent_id i = a \<and> m_id m = mid \<and> i_lease_token i = token \<and> i_state i \<noteq> Terminal"
  have mem: "(i, m) \<in> set ?join" "?Q (i, m)" using assms by auto
  then obtain j n where jn: "find ?Q ?join = Some (j, n)"
    by (cases "find ?Q ?join") (auto simp: find_None_iff)
  then have j: "j \<in> set (invocations d)" "n \<in> set (messages d)" "m_seq n = i_message_seq j"
    "?Q (j, n)" using find_in [OF jn] by auto
  have "n = m" using j assms core_invD(2) [OF assms(1)] by (auto simp: messages_inv_def dest: unique_onD)
  then have "j = i"
    using open_invocation_unique [OF core_invD(5) [OF assms(1)] j(1) assms(3)] j assms
    by (auto simp: invocation_key_def)
  then have "i_state i \<noteq> DispatchArmed"
    using assms(2) jn by (auto simp: ensure_retry_is_safe_def split: if_splits)
  with assms(4) show ?thesis by (cases "i_state i") auto
qed

lemma target_message:
  assumes "leased_row_matches lr d r" and "lr_key lr = MessageId mid"
  obtains m where "m \<in> set (messages d)" and "m_id m = mid" and "leased_row_target lr d = (m_seq m, lr_agent_id lr)"
  using assms by (auto simp: leased_row_matches_def leased_row_target_def split: option.splits dest!: find_in)

lemma core_inv_retry:
  assumes core: "core_inv d" and ok: "retry_delivery now a mid inp d = Inr (u, d')"
  shows "core_inv d'"
proof -
  let ?tok = "retry_lease_token inp"
  let ?lr = "\<lparr>lr_key = MessageId mid, lr_agent_id = a, lr_lease_token = ?tok, lr_window = Live, lr_now = now\<rparr>"
  obtain at where safe: "ensure_retry_is_safe a mid ?tok d = Inr ()"
    and body: "(let (moved, d1) = mark_retry a mid inp at now d in
     if moved then
       and_then (terminalize_invocation a mid ?tok NotStarted ''retry'' now d1) (\<lambda>d. Inr ((), d))
     else
       and_then (settle_miss a mid ?tok ''retry'' d) (\<lambda>_. Inr ((), d))) = Inr (u, d')"
    using ok unfolding retry_delivery_def and_then_eq_Inr by auto
  obtain moved d1 where upd: "leased_row_update ?lr (retry_row inp at) d = (moved, d1)" by fastforce
  have "d' = d \<or> moved \<and> terminalize_invocation a mid ?tok NotStarted ''retry'' now d1 = Inr d'"
    using body by (auto simp: mark_retry_def upd and_then_eq_Inr split: if_splits)
  then show ?thesis
  proof
    assume "moved \<and> terminalize_invocation a mid ?tok NotStarted ''retry'' now d1 = Inr d'"
    then have upd1: "leased_row_update ?lr (retry_row inp at) d = (True, d1)"
      and d': "d' = d1\<lparr>invocations := update_where (terminalize_predicate a mid ?tok d1)
        (terminal_row now NotStarted ''retry'') (invocations d1)\<rparr>"
      using upd by (auto dest: terminalize_invocation_Inr)
    obtain r where r: "delivery_at (leased_row_target ?lr d) d = Some r" "leased_row_matches ?lr d r"
      "delivery_at (leased_row_target ?lr d) d1 = Some (retry_row inp at r)"
      using retry.settled_row [OF core_invD(3) [OF core] upd1] by blast
    obtain m where m: "m \<in> set (messages d)" "m_id m = mid" "leased_row_target ?lr d = (m_seq m, a)"
      using target_message [OF r(2)] by auto
    show ?thesis
    proof (rule retry.settle_and_terminalize [OF core upd1])
      show "kernel_inv d1"
        using core retry.settled_kernel_inv [OF _ upd1] by (simp add: core_inv_split retry_row_def)
      fix i
      assume i: "i \<in> set (invocations d)" "i_state i \<noteq> Terminal"
        "invocation_key i = leased_row_target ?lr d" "i_lease_token i = lr_lease_token ?lr"
      note iok = invocation_okD [OF core_invD(5) [OF core] i(1)]
      have "i_state i = Reserved"
        by (rule retry_safe_not_armed [OF core safe i(1,2) _ m(1,2)])
          (use i m in \<open>auto simp: invocation_key_def\<close>)
      then have "i_dispatch_armed_at_ms i = None" by (rule reserved_not_armed [OF iok])
      moreover have "fence_ok d i" using iok i(2) by (simp add: invocation_ok_def)
      ultimately show "outcome_ok d1 (terminal_row now NotStarted ''retry'' i)"
        using i r by (auto simp: outcome_ok_def fence_ok_def retry_row_def)
    qed (use upd1 d' in \<open>auto simp: leased_row_update_def\<close>)
  qed (simp add: core)
qed

lemma insert_block_record_Inr:
  assumes "insert_block_record a mid inp now d = Inr (n, d')"
  obtains r m where "r \<in> set (agent_deliveries d)" and "m \<in> set (messages d)" and "m_id m = mid"
    and "m_seq m = d_message_seq r" and "d_agent_id r = a"
    and "insert_block_row (new_block_row (d_message_seq r) (d_agent_id r) (d_attempt r)
      (block_lease_token inp) (block_reason inp) now) d = Inr (n, d')"
proof -
  let ?Q = "\<lambda>(r, m). d_agent_id r = a \<and> m_id m = mid \<and> d_state r = Blocked"
  obtain r m where one: "filter ?Q (delivery_join d) = [(r, m)]"
    and ins: "insert_block_row (new_block_row (d_message_seq r) (d_agent_id r) (d_attempt r)
      (block_lease_token inp) (block_reason inp) now) d = Inr (n, d')"
    using assms by (auto simp: insert_block_record_def split: list.splits)
  have "(r, m) \<in> set (filter ?Q (delivery_join d))" using one by simp
  then show thesis using that [of r m] ins by (auto simp: delivery_join_mem)
qed

lemma block_delivery_cases:
  assumes core: "core_inv d" and ok: "block_delivery now a mid inp d = Inr ((x, created), d')"
  obtains (replay) "d' = d" "\<not> created" "blocked_delivery_by_lease a mid (block_lease_token inp) d
      = Some (x, block_reason inp)"
  | (blocked) d1 d2 n where
      "leased_row_update \<lparr>lr_key = MessageId mid, lr_agent_id = a,
         lr_lease_token = block_lease_token inp, lr_window = Live, lr_now = now\<rparr>
         (blocked_row (block_lease_token inp) (block_reason inp)) d = (True, d1)"
      "insert_block_record a mid inp now d1 = Inr (n, d2)"
      "terminalize_invocation a mid (block_lease_token inp) OutcomeUnknown ''blocked'' now d2 = Inr d'"
      "blocked_delivery_by_id n d' = Inr x" created
proof -
  let ?lr = "\<lparr>lr_key = MessageId mid, lr_agent_id = a, lr_lease_token = block_lease_token inp,
    lr_window = Live, lr_now = now\<rparr>"
  obtain moved d1 where upd: "leased_row_update ?lr
      (blocked_row (block_lease_token inp) (block_reason inp)) d = (moved, d1)" by fastforce
  show thesis
  proof (cases moved)
    case True
    then show thesis
      using ok blocked [of d1] upd
      by (auto simp: block_delivery_def mark_blocked_def and_then_eq_Inr)
  next
    case False
    then have "d1 = d" using block.settled_miss [OF core_invD(3) [OF core]] upd by simp
    with False show thesis
      using ok replay upd
      by (auto simp: block_delivery_def mark_blocked_def and_then_eq_Inr split: option.splits if_splits)
  qed
qed

lemma core_inv_block:
  assumes core: "core_inv d" and ok: "block_delivery now a mid inp d = Inr ((x, created), d')"
  shows "core_inv d'"
  using core ok
proof (cases rule: block_delivery_cases)
  case (blocked d1 d2 n)
  let ?tok = "block_lease_token inp"
  let ?lr = "\<lparr>lr_key = MessageId mid, lr_agent_id = a, lr_lease_token = ?tok, lr_window = Live, lr_now = now\<rparr>"
  let ?k = "leased_row_target ?lr d"
  obtain r where r: "delivery_at ?k d = Some r" "leased_row_matches ?lr d r"
    "delivery_at ?k d1 = Some (blocked_row ?tok (block_reason inp) r)"
    using block.settled_row [OF core_invD(3) [OF core] blocked(1)] by blast
  have dinv1: "deliveries_inv d1" by (rule block.settled_inv [OF core_invD(3) [OF core] blocked(1)])
  have msgs1: "messages d1 = messages d" and invs1: "invocations d1 = invocations d"
    using blocked(1) by (auto simp: leased_row_update_def)
  obtain m where m: "m \<in> set (messages d)" "m_id m = mid" "?k = (m_seq m, a)"
    using target_message [OF r(2)] by auto
  obtain q p where q: "q \<in> set (agent_deliveries d1)" "p \<in> set (messages d1)" "m_id p = mid"
    "m_seq p = d_message_seq q" "d_agent_id q = a"
    and ins: "insert_block_row (new_block_row (d_message_seq q) (d_agent_id q) (d_attempt q) ?tok
      (block_reason inp) now) d1 = Inr (n, d2)"
    using blocked(2) by (rule insert_block_record_Inr)
  have "p = m" using q m msgs1 core_invD(2) [OF core] by (auto simp: messages_inv_def dest: unique_onD)
  then have "delivery_at ?k d1 = Some q"
    using q m dinv1 by (simp add: delivery_at_iff delivery_key_def)
  then have "q = blocked_row ?tok (block_reason inp) r" using r by simp
  then have attempt: "d_attempt q = d_attempt r" by (simp add: blocked_row_def)
  have kq: "d_message_seq q = fst ?k" "d_agent_id q = snd ?k" using q m \<open>p = m\<close> by simp_all
  note e = insert_block_row_effect [OF ins]
  have at2: "delivery_at k d2 = delivery_at k d1" for k using e by (simp add: delivery_at_def)
  have blocks: "blocks_inv d2"
    using block_recorded [OF core_invD(3,4) [OF core], of ?lr "block_reason inp" d1 ?k r
        "block_reason inp" now n d2] blocked(1) ins r attempt kq by simp
  have "deliveries_inv d2" using dinv1 by (rule deliveries_inv_cong) (use e in auto)
  moreover have "agents d2 = agents d" "channels d2 = channels d" "channel_members d2 = channel_members d"
    "messages d2 = messages d" "messages_sequence d2 = messages_sequence d"
    using blocked(1) e by (auto simp: leased_row_update_def)
  ultimately have kernel: "kernel_inv d2"
    using blocks core kernel_inv_deliveries [of d d2] by (simp add: core_inv_split)
  have new_block: "new_block_row (d_message_seq q) (d_agent_id q) (d_attempt q) ?tok (block_reason inp) now n
      \<in> set (delivery_blocks d2)" using e by simp
  show ?thesis
  proof (rule block.settle_and_terminalize [OF core blocked(1)])
    fix i
    assume i: "i \<in> set (invocations d)" "i_state i \<noteq> Terminal" "invocation_key i = ?k"
      "i_lease_token i = lr_lease_token ?lr"
    have "fence_ok d i" using invocation_okD [OF core_invD(5) [OF core] i(1)] i(2) by (simp add: invocation_ok_def)
    then have "d_attempt r = i_delivery_attempt i" using i r by (auto simp: fence_ok_def)
    then show "outcome_ok d2 (terminal_row now OutcomeUnknown ''blocked'' i)"
      using i r at2 attempt kq
      by (intro outcome_unknown_ok [OF _ _ new_block, where r = "blocked_row ?tok (block_reason inp) r"])
        (simp_all add: blocked_row_def new_block_row_def block_key_def)
  next
    show "d' = d2\<lparr>invocations := update_where
        (terminalize_predicate (lr_agent_id ?lr) mid (lr_lease_token ?lr) d2)
        (terminal_row now OutcomeUnknown ''blocked'') (invocations d2)\<rparr>"
      using terminalize_invocation_Inr [OF blocked(3)] by simp
  qed (use e kernel at2 insert_block_evolves [OF ins] msgs1 invs1 in auto)
qed (use core in simp)

lemma core_inv_resolve_transaction:
  assumes core: "core_inv d" and ok: "resolve_delivery_block_transaction bid inp now d = Inr d'"
  shows "core_inv d'"
proof -
  have "\<exists>ds bs. d' = d\<lparr>agent_deliveries := ds, delivery_blocks := bs\<rparr>"
    using core_invD(3,4) [OF core] ok
  proof (cases rule: resolve_block_cases)
    case replay
    then have "d' = d\<lparr>agent_deliveries := agent_deliveries d, delivery_blocks := delivery_blocks d\<rparr>" by simp
    then show ?thesis by blast
  qed blast
  then have frame: "agents d' = agents d" "channels d' = channels d" "channel_members d' = channel_members d"
    "messages d' = messages d" "messages_sequence d' = messages_sequence d" "invocations d' = invocations d"
    by auto
  have ev: "evolves d d'" by (rule resolve_block_evolves [OF core_invD(3,4) [OF core] ok])
  have "invocations_inv d'"
  proof (rule invocations_inv_update [OF core_invD(5) [OF core], where P = "\<lambda>_. False" and f = "\<lambda>i. i"])
    show "invocations d' = update_where (\<lambda>_. False) (\<lambda>i. i) (invocations d)" by (simp add: frame)
    fix i
    assume i: "invocation_ok d i"
    have "invocation_ok d' i"
    proof (rule invocation_ok_evolves [OF i ev])
      assume "i_state i \<noteq> Terminal"
      then have "fence_ok d i" using i by (simp add: invocation_ok_def)
      then obtain r where r: "delivery_at (invocation_key i) d = Some r" "d_state r = Leased"
        unfolding fence_ok_def by blast
      from core_invD(3,4) [OF core] ok
      have "delivery_at (invocation_key i) d' = Some r"
      proof (cases rule: resolve_block_cases)
        case (resolved b q at ra)
        then show ?thesis using r by (simp add: delivery_at_def find_key_update_where)
      qed (use r in simp)
      with r show "delivery_at (invocation_key i) d' = delivery_at (invocation_key i) d" by simp
    qed
    then show "invocation_ok d' (if False then i else i)" by simp
  qed simp
  moreover have "kernel_inv d'"
    using kernel_inv_deliveries [of d d'] core frame core_invD [OF core]
      resolve_block_deliveries_inv [OF core_invD(3,4) [OF core] ok]
      resolve_block_blocks_inv [OF core_invD(3,4) [OF core] ok]
    by (simp add: core_inv_split)
  ultimately show ?thesis by (simp add: core_inv_split)
qed

lemma core_inv_resolve:
  assumes "core_inv d" and "resolve_delivery_block now bid inp d = Inr (u, d')"
  shows "core_inv d'"
  using assms(2) core_inv_resolve_transaction [OF assms(1)] retire_uncertain_core core_inv_same
  by (auto simp: resolve_delivery_block_def and_then_eq_Inr) blast

lemma claim_deliveries_Inr:
  assumes "claim_deliveries token now a inp d = Inr (batch, d')"
  obtains n d1 where "recover_expired_invocations_transaction a now d = Inr (n, d1)"
    and "d' = lease_claimable a token (batch_lease_expires_at_ms batch) now (claim_limit inp) None d1"
    and "leased_batch a token d' = Inr (batch_deliveries batch)"
    and "validate_claim inp = Inr ()"
    and "batch_lease_expires_at_ms batch = now + uint (claim_lease_duration_ms inp)"
  using assms
  by (auto simp: claim_deliveries_def and_then_eq_Inr ok_or_eq_Inr Let_def
      dest!: checked_add_i64_Some i64_try_from_Some)

lemma core_inv_claim:
  assumes core: "core_inv d" and ok: "claim_deliveries token now a inp d = Inr (batch, d')"
  shows "core_inv d'"
  using ok
proof (rule claim_deliveries_Inr)
  fix n d1
  assume rec: "recover_expired_invocations_transaction a now d = Inr (n, d1)"
    and d': "d' = lease_claimable a token (batch_lease_expires_at_ms batch) now (claim_limit inp) None d1"
  show ?thesis unfolding d' using recover_core_inv [OF core rec] by (intro lease_core_inv) auto
qed

end
