(* ===== verification/Observations.thy ===== *)
theory Observations
  imports Invocation
begin

text \<open>
  Bounded durable observations of workers and managed turns: \<open>crates/execution/src/operations.rs\<close>
  and its read models in \<open>crates/proto/src/operations.rs\<close>.  A plugin generation is one worker
  process; an observation folds the events of one armed invocation into counters and a digest chain.

  SHA-256 and the JSON that serde writes for the interface list belong to other crates: they are the
  arguments \<open>sha256\<close> (bytes to lower-case hex) and \<open>interfaces_json\<close>.  The columns
  \<open>interfaces_json\<close> and \<open>usage_json\<close> hold what was encoded.
\<close>

section \<open>Numbers\<close>

definition sat_i64 :: "int \<Rightarrow> i64" where
  "sat_i64 v = max i64_min (min i64_max v)"

definition to_u64 :: "i64 \<Rightarrow> u64 result" where
  "to_u64 value = ok_or (u64_try_from value) (Database ColumnDecode)"

definition to_u32 :: "i64 \<Rightarrow> u32 result" where
  "to_u32 value = (if 0 \<le> value \<and> value < 2 ^ 32 then Inr (word_of_int value) else Inl (Database ColumnDecode))"

definition to_be_bytes :: "i64 \<Rightarrow> string" where
  "to_be_bytes v = map (\<lambda>k. char_of (v mod 2 ^ 64 div 256 ^ k mod 256)) [7, 6, 5, 4, 3, 2, 1, 0]"

section \<open>Read models\<close>

datatype plugin_generation_health = HealthActive | HealthStale | HealthStopped

record observed_plugin_interface =
  opi_id :: string
  opi_version :: string

record plugin_generation_view =
  pg_id :: string
  pg_agent_id :: string
  pg_plugin_id :: string
  pg_plugin_name :: string
  pg_plugin_version :: string
  pg_interfaces :: "observed_plugin_interface list"
  pg_process_id :: "u32 option"
  pg_driver_version :: string
  pg_acp_sdk_version :: string
  pg_acp_protocol_version :: u32
  pg_runtime_name :: string
  pg_runtime_version :: string
  pg_runtime_executable_digest :: string
  pg_agent_capabilities :: json
  pg_max_concurrent_turns :: u32
  pg_max_frame_bytes :: u64
  pg_profile_digest :: string
  pg_compatibility_digest :: string
  pg_raw_initialize_result :: json
  pg_heartbeat_interval_ms :: u64
  pg_state :: plugin_generation_state
  pg_health :: plugin_generation_health
  pg_started_at_ms :: i64
  pg_last_heartbeat_at_ms :: i64
  pg_stopped_at_ms :: "i64 option"
  pg_stop_disposition :: "plugin_generation_disposition option"
  pg_stop_reason :: "string option"
  pg_shutdown_outcome :: "plugin_shutdown_outcome option"
  pg_shutdown_exit_code :: "i64 option"

datatype event_class =
    EvPrompt | EvAssistant | EvReasoning | EvTool | EvPlan | EvUsage | EvMetadata | EvPermission
  | EvUnknown

definition event_class_parse :: "string \<Rightarrow> event_class" where
  "event_class_parse classification =
     (if classification = ''user_message_content'' then EvPrompt
      else if classification = ''agent_message_content'' then EvAssistant
      else if classification = ''reasoning_content'' then EvReasoning
      else if classification = ''tool_call'' \<or> classification = ''tool_call_update'' then EvTool
      else if classification = ''plan_update'' then EvPlan
      else if classification = ''usage'' then EvUsage
      else if classification = ''metadata'' then EvMetadata
      else if classification = ''permission_request'' then EvPermission
      else EvUnknown)"

record invocation_event_counts =
  iec_prompt :: u64
  iec_assistant :: u64
  iec_reasoning :: u64
  iec_tool :: u64
  iec_plan :: u64
  iec_usage :: u64
  iec_metadata :: u64
  iec_permission :: u64
  iec_unknown :: u64

record invocation_observation_view =
  io_invocation_id :: string
  io_agent_id :: string
  io_source_message_id :: string
  io_result_message_id :: "string option"
  io_generation_id :: string
  io_binding_id :: string
  io_binding_generation :: u64
  io_owner_epoch :: u64
  io_started_at_ms :: i64
  io_updated_at_ms :: i64
  io_first_event_at_ms :: "i64 option"
  io_last_event_at_ms :: "i64 option"
  io_event_count :: u64
  io_observed_payload_bytes :: u64
  io_last_event_seq :: u64
  io_event_chain_digest :: "string option"
  io_counts :: invocation_event_counts
  io_terminal_at_ms :: "i64 option"
  io_stop_reason :: "string option"
  io_runtime_stop_reason :: "string option"
  io_execution_certainty :: "execution_certainty option"
  io_session_quiescent :: "bool option"
  io_session_persistence :: "session_persistence option"
  io_usage :: "json option"

section \<open>Plugin generations\<close>

definition MIN_STALE_AFTER_MS :: i64 where "MIN_STALE_AFTER_MS = 15000"

definition MAX_EVIDENCE_JSON_BYTES :: int where "MAX_EVIDENCE_JSON_BYTES = 1024 * 1024"

definition generation_health ::
  "i64 \<Rightarrow> plugin_generation_state \<Rightarrow> i64 \<Rightarrow> u64 \<Rightarrow> plugin_generation_health" where
  "generation_health now state heartbeat_at heartbeat_interval =
     (if state = GenerationStopped then HealthStopped
      else
        let interval = (case i64_try_from heartbeat_interval of Some v \<Rightarrow> v | None \<Rightarrow> i64_max);
            stale_after = max (sat_i64 (interval * 3)) MIN_STALE_AFTER_MS in
        if sat_i64 (now - heartbeat_at) > stale_after then HealthStale else HealthActive)"

definition generation_from_row :: "i64 \<Rightarrow> generation_row \<Rightarrow> plugin_generation_view result" where
  "generation_from_row now g =
     and_then (to_u64 (g_heartbeat_interval_ms g)) (\<lambda>interval.
     and_then (case g_process_id g of None \<Rightarrow> Inr None
         | Some v \<Rightarrow> and_then (to_u32 v) (\<lambda>w. Inr (Some w))) (\<lambda>process_id.
     and_then (to_u32 (g_acp_protocol_version g)) (\<lambda>protocol.
     and_then (to_u32 (g_max_concurrent_turns g)) (\<lambda>turns.
     and_then (to_u64 (g_max_frame_bytes g)) (\<lambda>frame.
     Inr \<lparr>pg_id = g_id g, pg_agent_id = g_agent_id g, pg_plugin_id = g_plugin_id g,
          pg_plugin_name = g_plugin_name g, pg_plugin_version = g_plugin_version g,
          pg_interfaces = map (\<lambda>(i, v). \<lparr>opi_id = i, opi_version = v\<rparr>) (g_interfaces g),
          pg_process_id = process_id, pg_driver_version = g_driver_version g,
          pg_acp_sdk_version = g_acp_sdk_version g, pg_acp_protocol_version = protocol,
          pg_runtime_name = g_runtime_name g, pg_runtime_version = g_runtime_version g,
          pg_runtime_executable_digest = g_runtime_executable_digest g,
          pg_agent_capabilities = g_agent_capabilities g, pg_max_concurrent_turns = turns,
          pg_max_frame_bytes = frame, pg_profile_digest = g_profile_digest g,
          pg_compatibility_digest = g_compatibility_digest g,
          pg_raw_initialize_result = g_raw_initialize_result g, pg_heartbeat_interval_ms = interval,
          pg_state = g_state g,
          pg_health = generation_health now (g_state g) (g_last_heartbeat_at_ms g) interval,
          pg_started_at_ms = g_started_at_ms g, pg_last_heartbeat_at_ms = g_last_heartbeat_at_ms g,
          pg_stopped_at_ms = g_stopped_at_ms g, pg_stop_disposition = g_stop_disposition g,
          pg_stop_reason = g_stop_reason g, pg_shutdown_outcome = g_shutdown_outcome g,
          pg_shutdown_exit_code = g_shutdown_exit_code g\<rparr>)))))"

definition plugin_generation :: "i64 \<Rightarrow> string \<Rightarrow> db \<Rightarrow> plugin_generation_view result" where
  "plugin_generation now generation_id d =
     and_then (ok_or (find (\<lambda>g. g_id g = generation_id) (plugin_generations d))
         (NotFound ''plugin generation'' generation_id)) (generation_from_row now)"

record new_plugin_generation =
  npg_id :: string
  npg_agent_id :: string
  npg_plugin_id :: string
  npg_plugin_name :: string
  npg_plugin_version :: string
  npg_interfaces :: "(string \<times> string) list"
  npg_process_id :: "u32 option"
  npg_driver_version :: string
  npg_acp_sdk_version :: string
  npg_acp_protocol_version :: u32
  npg_runtime_name :: string
  npg_runtime_version :: string
  npg_runtime_executable_digest :: string
  npg_agent_capabilities :: json
  npg_max_concurrent_turns :: u32
  npg_max_frame_bytes :: u64
  npg_profile_digest :: string
  npg_raw_initialize_result :: json
  npg_compatibility_digest :: string
  npg_heartbeat_interval_ms :: u64

definition validate_generation :: "new_plugin_generation \<Rightarrow> unit result" where
  "validate_generation g =
     (if trim_is_empty (npg_id g) \<or> trim_is_empty (npg_agent_id g)
        \<or> trim_is_empty (npg_compatibility_digest g) \<or> npg_heartbeat_interval_ms g = 0
        \<or> npg_interfaces g = []
      then Inl (Invalid
        ''generation identity, agent, interfaces, compatibility, and poll interval are required'')
      else Inr ())"

definition bounded_json :: "json \<Rightarrow> string \<Rightarrow> json result" where
  "bounded_json encoded label =
     (if int (length encoded) > MAX_EVIDENCE_JSON_BYTES
      then Inl (Invalid (label @ '' exceeds '' @ show_int MAX_EVIDENCE_JSON_BYTES @ '' bytes''))
      else Inr encoded)"

definition new_generation_row :: "new_plugin_generation \<Rightarrow> i64 \<Rightarrow> i64 \<Rightarrow> i64 \<Rightarrow> generation_row" where
  "new_generation_row g heartbeat_interval max_frame now =
     \<lparr>g_id = npg_id g, g_agent_id = npg_agent_id g, g_plugin_id = npg_plugin_id g,
      g_plugin_name = npg_plugin_name g, g_plugin_version = npg_plugin_version g,
      g_interfaces = npg_interfaces g, g_process_id = map_option uint (npg_process_id g),
      g_driver_version = npg_driver_version g, g_acp_sdk_version = npg_acp_sdk_version g,
      g_acp_protocol_version = uint (npg_acp_protocol_version g),
      g_runtime_name = npg_runtime_name g, g_runtime_version = npg_runtime_version g,
      g_runtime_executable_digest = npg_runtime_executable_digest g,
      g_agent_capabilities = npg_agent_capabilities g,
      g_max_concurrent_turns = uint (npg_max_concurrent_turns g), g_max_frame_bytes = max_frame,
      g_profile_digest = npg_profile_digest g, g_compatibility_digest = npg_compatibility_digest g,
      g_raw_initialize_result = npg_raw_initialize_result g,
      g_heartbeat_interval_ms = heartbeat_interval, g_state = GenerationActive,
      g_started_at_ms = now, g_last_heartbeat_at_ms = now, g_stopped_at_ms = None,
      g_stop_disposition = None, g_stop_reason = None, g_shutdown_outcome = None,
      g_shutdown_exit_code = None\<rparr>"

definition record_plugin_generation ::
  "((string \<times> string) list \<Rightarrow> json) \<Rightarrow> i64 \<Rightarrow> new_plugin_generation \<Rightarrow> plugin_generation_view transaction" where
  "record_plugin_generation interfaces_json now g d =
     and_then (validate_generation g) (\<lambda>_.
     and_then (bounded_json (interfaces_json (npg_interfaces g)) ''plugin interfaces'') (\<lambda>_.
     and_then (bounded_json (npg_agent_capabilities g) ''agent capabilities'') (\<lambda>_.
     and_then (bounded_json (npg_raw_initialize_result g) ''raw initialize result'') (\<lambda>_.
     and_then (ok_or (i64_try_from (npg_heartbeat_interval_ms g))
         (Invalid ''heartbeat interval is too large'')) (\<lambda>interval.
     and_then (ok_or (i64_try_from (npg_max_frame_bytes g))
         (Invalid ''maximum frame size is too large'')) (\<lambda>frame.
     and_then (map_err (\<lambda>e.
           if e = Database ForeignKeyViolation then NotFound ''agent'' (npg_agent_id g)
           else if e = Database UniqueViolation
           then Conflict (''plugin generation already exists: '' @ npg_id g)
           else e) (insert_generation_row (new_generation_row g interval frame now) d)) (\<lambda>d.
     and_then (plugin_generation now (npg_id g) d) (\<lambda>pg. Inr (pg, d)))))))))"

text \<open>The update that every sign of life of a generation makes.\<close>

definition heartbeat :: "i64 \<Rightarrow> string \<Rightarrow> db \<Rightarrow> db" where
  "heartbeat now generation_id d = d\<lparr>plugin_generations := update_where
     (\<lambda>g. g_id g = generation_id \<and> g_state g = GenerationActive)
     (\<lambda>g. g\<lparr>g_last_heartbeat_at_ms := now\<rparr>) (plugin_generations d)\<rparr>"

definition heartbeat_plugin_generation :: "i64 \<Rightarrow> string \<Rightarrow> unit transaction" where
  "heartbeat_plugin_generation now generation_id d =
     (if rows_affected (\<lambda>g. g_id g = generation_id \<and> g_state g = GenerationActive)
           (plugin_generations d) \<noteq> 1
      then Inl (Conflict (''plugin generation is not active: '' @ generation_id))
      else Inr ((), heartbeat now generation_id d))"

record stop_plugin_generation_input =
  stop_disposition :: plugin_generation_disposition
  stop_reason :: string
  stop_shutdown_outcome :: plugin_shutdown_outcome
  stop_shutdown_exit_code :: "i64 option"

definition validate_reason :: "string \<Rightarrow> unit result" where
  "validate_reason reason =
     (if trim_is_empty reason \<or> length reason > MAX_REASON_BYTES
      then Inl (Invalid (''generation stop reason must contain between 1 and ''
             @ show_nat MAX_REASON_BYTES @ '' bytes''))
      else Inr ())"

definition stopped_row :: "i64 \<Rightarrow> stop_plugin_generation_input \<Rightarrow> generation_row \<Rightarrow> generation_row" where
  "stopped_row now stop g = g\<lparr>g_state := GenerationStopped, g_last_heartbeat_at_ms := now,
     g_stopped_at_ms := Some now, g_stop_disposition := Some (stop_disposition stop),
     g_stop_reason := Some (stop_reason stop), g_shutdown_outcome := Some (stop_shutdown_outcome stop),
     g_shutdown_exit_code := stop_shutdown_exit_code stop\<rparr>"

definition stop_plugin_generation ::
  "i64 \<Rightarrow> string \<Rightarrow> stop_plugin_generation_input \<Rightarrow> plugin_generation_view transaction" where
  "stop_plugin_generation now generation_id stop d =
     and_then (validate_reason (stop_reason stop)) (\<lambda>_.
     let P = \<lambda>g. g_id g = generation_id \<and> g_state g = GenerationActive in
     if rows_affected P (plugin_generations d) = 0 then
       and_then (plugin_generation now generation_id d) (\<lambda>existing.
       if pg_stop_disposition existing = Some (stop_disposition stop)
         \<and> pg_stop_reason existing = Some (stop_reason stop)
         \<and> pg_shutdown_outcome existing = Some (stop_shutdown_outcome stop)
         \<and> pg_shutdown_exit_code existing = stop_shutdown_exit_code stop
       then Inr (existing, d)
       else Inl (Conflict (''plugin generation already stopped with different evidence: ''
              @ generation_id)))
     else
       let d = d\<lparr>plugin_generations := update_where P (stopped_row now stop) (plugin_generations d)\<rparr> in
       and_then (plugin_generation now generation_id d) (\<lambda>pg. Inr (pg, d)))"

section \<open>Folding events\<close>

definition event_digest ::
  "(string \<Rightarrow> string) \<Rightarrow> i64 \<Rightarrow> i64 \<Rightarrow> string \<Rightarrow> string \<Rightarrow> string" where
  "event_digest sha256 event_seq observed_at classification raw =
     ''sha256:'' @ sha256 (to_be_bytes event_seq @ to_be_bytes observed_at @ classification
       @ [char_of (0 :: nat)] @ raw)"

definition chain_digest :: "(string \<Rightarrow> string) \<Rightarrow> string option \<Rightarrow> string \<Rightarrow> string" where
  "chain_digest sha256 previous event =
     ''sha256:'' @ sha256 ((case previous of None \<Rightarrow> ''sha256:genesis'' | Some p \<Rightarrow> p)
       @ [char_of (0 :: nat)] @ event)"

definition no_counts :: event_counts where
  "no_counts = \<lparr>n_prompt = 0, n_assistant = 0, n_reasoning = 0, n_tool = 0, n_plan = 0, n_usage = 0,
     n_metadata = 0, n_permission = 0, n_unknown = 0\<rparr>"

definition event_increments :: "string \<Rightarrow> event_counts" where
  "event_increments classification =
     (case event_class_parse classification of
        EvPrompt \<Rightarrow> no_counts\<lparr>n_prompt := 1\<rparr>
      | EvAssistant \<Rightarrow> no_counts\<lparr>n_assistant := 1\<rparr>
      | EvReasoning \<Rightarrow> no_counts\<lparr>n_reasoning := 1\<rparr>
      | EvTool \<Rightarrow> no_counts\<lparr>n_tool := 1\<rparr>
      | EvPlan \<Rightarrow> no_counts\<lparr>n_plan := 1\<rparr>
      | EvUsage \<Rightarrow> no_counts\<lparr>n_usage := 1\<rparr>
      | EvMetadata \<Rightarrow> no_counts\<lparr>n_metadata := 1\<rparr>
      | EvPermission \<Rightarrow> no_counts\<lparr>n_permission := 1\<rparr>
      | EvUnknown \<Rightarrow> no_counts\<lparr>n_unknown := 1\<rparr>)"

definition add_counts :: "event_counts \<Rightarrow> event_counts \<Rightarrow> event_counts" where
  "add_counts a b = \<lparr>n_prompt = n_prompt a + n_prompt b, n_assistant = n_assistant a + n_assistant b,
     n_reasoning = n_reasoning a + n_reasoning b, n_tool = n_tool a + n_tool b,
     n_plan = n_plan a + n_plan b, n_usage = n_usage a + n_usage b,
     n_metadata = n_metadata a + n_metadata b, n_permission = n_permission a + n_permission b,
     n_unknown = n_unknown a + n_unknown b\<rparr>"

record event_fold =
  fold_generation_id :: string
  fold_invocation_id :: string
  fold_previous_seq :: i64
  fold_event_seq :: i64
  fold_observed_at_ms :: i64
  fold_payload_bytes :: i64
  fold_event_digest :: string
  fold_chain_digest :: string
  fold_counts :: event_counts

definition folded_row :: "i64 \<Rightarrow> event_fold \<Rightarrow> observation_row \<Rightarrow> observation_row" where
  "folded_row now e q = q\<lparr>o_updated_at_ms := now,
     o_first_event_at_ms := Some (coalesce (o_first_event_at_ms q) (fold_observed_at_ms e)),
     o_last_event_at_ms := Some (fold_observed_at_ms e), o_event_count := o_event_count q + 1,
     o_observed_payload_bytes := o_observed_payload_bytes q + fold_payload_bytes e,
     o_last_event_seq := fold_event_seq e, o_last_event_digest := Some (fold_event_digest e),
     o_event_chain_digest := Some (fold_chain_digest e),
     o_counts := add_counts (o_counts q) (fold_counts e)\<rparr>"

definition apply_event_fold :: "i64 \<Rightarrow> event_fold \<Rightarrow> db \<Rightarrow> db result" where
  "apply_event_fold now e d =
     (let P = \<lambda>q. o_invocation_id q = fold_invocation_id e \<and> o_generation_id q = fold_generation_id e
            \<and> o_last_event_seq q = fold_previous_seq e in
      if rows_affected P (invocation_observations d) \<noteq> 1
      then Inl (Conflict ''invocation observation changed concurrently'')
      else Inr (heartbeat now (fold_generation_id e)
             (d\<lparr>invocation_observations :=
                update_where P (folded_row now e) (invocation_observations d)\<rparr>)))"

definition record_invocation_event ::
  "(string \<Rightarrow> string) \<Rightarrow> i64 \<Rightarrow> string \<Rightarrow> string \<Rightarrow> u64 \<Rightarrow> i64 \<Rightarrow> string \<Rightarrow> json \<Rightarrow> unit transaction" where
  "record_invocation_event sha256 now generation_id invocation_id event_seq observed_at
     classification raw d =
     (if event_seq = 0 \<or> observed_at \<le> 0 \<or> trim_is_empty classification
      then Inl (Invalid ''invocation event sequence, time, and classification must be valid'')
      else
        and_then (ok_or (i64_try_from event_seq) (Invalid ''event sequence is too large'')) (\<lambda>seq.
        and_then (if int (length raw) > i64_max then Inl (Invalid ''event payload is too large'')
                  else Inr (int (length raw))) (\<lambda>raw_len.
        let digest = event_digest sha256 seq observed_at classification raw in
        case find (\<lambda>(q, g). o_invocation_id q = invocation_id \<and> o_generation_id q = generation_id)
               [(q, g). q \<leftarrow> invocation_observations d, g \<leftarrow> plugin_generations d,
                  g_id g = o_generation_id q] of
          None \<Rightarrow> Inl (NotFound ''invocation observation'' invocation_id)
        | Some (q, g) \<Rightarrow>
            if g_state g \<noteq> GenerationActive
            then Inl (Conflict ''invocation generation is no longer active'')
            else if o_terminal_at_ms q \<noteq> None
            then Inl (Conflict ''invocation observation is already terminal'')
            else if seq = o_last_event_seq q then
              if o_last_event_digest q = Some digest then Inr ((), d)
              else Inl (Conflict ''event sequence was reused with different evidence'')
            else if seq \<noteq> sat_i64 (o_last_event_seq q + 1)
            then Inl (Conflict (''event sequence is not contiguous: expected ''
                   @ show_int (sat_i64 (o_last_event_seq q + 1)) @ '', received '' @ show_int seq))
            else
              and_then (apply_event_fold now
                \<lparr>fold_generation_id = generation_id, fold_invocation_id = invocation_id,
                 fold_previous_seq = o_last_event_seq q, fold_event_seq = seq,
                 fold_observed_at_ms = observed_at, fold_payload_bytes = raw_len,
                 fold_event_digest = digest,
                 fold_chain_digest = chain_digest sha256 (o_event_chain_digest q) digest,
                 fold_counts = event_increments classification\<rparr> d) (\<lambda>d. Inr ((), d)))))"

section \<open>The terminal summary\<close>

datatype harness_execution_certainty = HarnessNotStarted | HarnessOutcomeKnown | HarnessOutcomeUnknown

fun execution_certainty_from :: "harness_execution_certainty \<Rightarrow> execution_certainty" where
  "execution_certainty_from HarnessNotStarted = NotStarted"
| "execution_certainty_from HarnessOutcomeKnown = OutcomeKnown"
| "execution_certainty_from HarnessOutcomeUnknown = OutcomeUnknown"

record turn_terminal =
  tt_invocation_id :: string
  tt_last_event_seq :: u64
  tt_stop_reason :: string
  tt_runtime_stop_reason :: "string option"
  tt_execution_certainty :: harness_execution_certainty
  tt_session_quiescent :: bool
  tt_session_persistence :: session_persistence
  tt_usage :: json

definition terminal_matches :: "observation_row \<Rightarrow> turn_terminal \<Rightarrow> json \<Rightarrow> bool" where
  "terminal_matches q t usage_json \<longleftrightarrow>
     o_stop_reason q = Some (tt_stop_reason t)
     \<and> o_runtime_stop_reason q = tt_runtime_stop_reason t
     \<and> o_execution_certainty q = Some (execution_certainty_from (tt_execution_certainty t))
     \<and> o_session_quiescent q = Some (tt_session_quiescent t)
     \<and> o_session_persistence q = Some (tt_session_persistence t)
     \<and> o_usage_json q = Some usage_json"

definition terminal_observation_row ::
  "i64 \<Rightarrow> turn_terminal \<Rightarrow> json \<Rightarrow> observation_row \<Rightarrow> observation_row" where
  "terminal_observation_row now t usage_json q = q\<lparr>o_updated_at_ms := now, o_terminal_at_ms := Some now,
     o_stop_reason := Some (tt_stop_reason t), o_runtime_stop_reason := tt_runtime_stop_reason t,
     o_execution_certainty := Some (execution_certainty_from (tt_execution_certainty t)),
     o_session_quiescent := Some (tt_session_quiescent t),
     o_session_persistence := Some (tt_session_persistence t), o_usage_json := Some usage_json\<rparr>"

definition record_invocation_terminal ::
  "i64 \<Rightarrow> string \<Rightarrow> turn_terminal \<Rightarrow> unit transaction" where
  "record_invocation_terminal now generation_id t d =
     and_then (ok_or (i64_try_from (tt_last_event_seq t))
         (Invalid ''terminal event sequence is too large'')) (\<lambda>last_event_seq.
     and_then (bounded_json (tt_usage t) ''terminal usage'') (\<lambda>usage_json.
     case find (\<lambda>q. o_invocation_id q = tt_invocation_id t \<and> o_generation_id q = generation_id)
            (invocation_observations d) of
       None \<Rightarrow> Inl (NotFound ''invocation observation'' (tt_invocation_id t))
     | Some q \<Rightarrow>
         if o_last_event_seq q \<noteq> last_event_seq
         then Inl (Conflict ''terminal event sequence does not match durable observations'')
         else if o_terminal_at_ms q \<noteq> None then
           if terminal_matches q t usage_json then Inr ((), d)
           else Inl (Conflict ''invocation terminal was already recorded with different evidence'')
         else
           Inr ((), heartbeat now generation_id (d\<lparr>invocation_observations := update_where
             (\<lambda>q. o_invocation_id q = tt_invocation_id t \<and> o_generation_id q = generation_id
                \<and> o_terminal_at_ms q = None)
             (terminal_observation_row now t usage_json) (invocation_observations d)\<rparr>))))"

section \<open>Beginning an observation\<close>

definition new_observation_row ::
  "string \<Rightarrow> string \<Rightarrow> string \<Rightarrow> i64 \<Rightarrow> i64 \<Rightarrow> i64 \<Rightarrow> observation_row" where
  "new_observation_row invocation_id generation_id binding_id g epoch now =
     \<lparr>o_invocation_id = invocation_id, o_generation_id = generation_id, o_binding_id = binding_id,
      o_binding_generation = g, o_owner_epoch = epoch, o_started_at_ms = now, o_updated_at_ms = now,
      o_first_event_at_ms = None, o_last_event_at_ms = None, o_event_count = 0,
      o_observed_payload_bytes = 0, o_last_event_seq = 0, o_last_event_digest = None,
      o_event_chain_digest = None, o_counts = no_counts, o_terminal_at_ms = None,
      o_stop_reason = None, o_runtime_stop_reason = None, o_execution_certainty = None,
      o_session_quiescent = None, o_session_persistence = None, o_usage_json = None\<rparr>"

text \<open>
  The insert selects the generation row, so it inserts one row for each generation that matches;
  the generation id is the primary key of its table.
\<close>

definition begin_invocation_observation ::
  "string \<Rightarrow> string \<Rightarrow> string \<Rightarrow> binding \<Rightarrow> i64 \<Rightarrow> db \<Rightarrow> db result" where
  "begin_invocation_observation agent_id invocation_id generation_id b now d =
     and_then (ok_or (i64_try_from (bind_generation b)) (Invalid ''binding generation is too large'')) (\<lambda>g.
     and_then (ok_or (i64_try_from (bind_owner_epoch b)) (Invalid ''owner epoch is too large'')) (\<lambda>epoch.
     case find (\<lambda>p. g_id p = generation_id \<and> g_agent_id p = agent_id \<and> g_state p = GenerationActive)
            (plugin_generations d) of
       None \<Rightarrow> Inl (Conflict (''plugin generation is not active for agent '' @ agent_id @ '': ''
                 @ generation_id))
     | Some p \<Rightarrow>
         map_err (\<lambda>e.
             if e = Database UniqueViolation
             then Conflict (''invocation observation already exists: '' @ invocation_id) else e)
           (insert_observation_row
             (new_observation_row invocation_id (g_id p) (bind_id b) g epoch now) d)))"

section \<open>Evidence pages\<close>

datatype evidence_order = Newest | Oldest

record evidence_page =
  ep_agent_id :: "string option"
  ep_after :: "(i64 \<times> string) option"
  ep_limit :: u32
  ep_settled :: bool
  ep_order :: evidence_order

definition MAX_EVIDENCE_PAGE :: u32 where "MAX_EVIDENCE_PAGE = 500"

definition newest_page :: "string option \<Rightarrow> evidence_page" where
  "newest_page agent_id = \<lparr>ep_agent_id = agent_id, ep_after = None, ep_limit = MAX_EVIDENCE_PAGE,
     ep_settled = False, ep_order = Newest\<rparr>"

definition evidence_validate :: "evidence_page \<Rightarrow> u32 result" where
  "evidence_validate page =
     (if (case ep_after page of None \<Rightarrow> False | Some (changed_at, _) \<Rightarrow> changed_at < 0)
      then Inl (Invalid ''evidence cursor must not be negative'')
      else Inr (max 1 (min (ep_limit page) MAX_EVIDENCE_PAGE)))"

text \<open>
  \<open>evidence_sql\<close>: the filter, the comparison with the cursor and the order, over the columns
  \<open>agent\<close>, \<open>changed\<close>, \<open>ident\<close> and \<open>settled\<close> that one evidence table has.
\<close>

definition beyond_cursor :: "evidence_page \<Rightarrow> i64 \<times> string \<Rightarrow> bool" where
  "beyond_cursor page key =
     (case ep_after page of
        None \<Rightarrow> True
      | Some after \<Rightarrow> (case ep_order page of Newest \<Rightarrow> key < after | Oldest \<Rightarrow> key > after))"

definition evidence_sql ::
  "('r \<Rightarrow> string) \<Rightarrow> ('r \<Rightarrow> i64) \<Rightarrow> ('r \<Rightarrow> string) \<Rightarrow> ('r \<Rightarrow> bool) \<Rightarrow> evidence_page \<Rightarrow> u32
    \<Rightarrow> 'r list \<Rightarrow> 'r list" where
  "evidence_sql agent changed ident settled page limit rows =
     (let matching = filter (\<lambda>r. (case ep_agent_id page of None \<Rightarrow> True | Some a \<Rightarrow> agent r = a)
            \<and> (ep_settled page \<longrightarrow> settled r) \<and> beyond_cursor page (changed r, ident r)) rows;
          ascending = sort_key (\<lambda>r. (changed r, ident r)) matching in
      take (unat limit) (case ep_order page of Newest \<Rightarrow> rev ascending | Oldest \<Rightarrow> ascending))"

definition list_plugin_generations :: "i64 \<Rightarrow> evidence_page \<Rightarrow> db \<Rightarrow> plugin_generation_view list result" where
  "list_plugin_generations now page d =
     and_then (evidence_validate page) (\<lambda>limit.
     try_fold (\<lambda>g gs. and_then (generation_from_row now g) (\<lambda>x. Inr (gs @ [x])))
       (evidence_sql g_agent_id g_last_heartbeat_at_ms g_id (\<lambda>g. g_state g = GenerationStopped)
         page limit (plugin_generations d)) [])"

text \<open>\<open>observation_select\<close>: an observation, its invocation, its source and its result message.\<close>

definition observation_select ::
  "db \<Rightarrow> (observation_row \<times> invocation_row \<times> message_row \<times> message_row option) list" where
  "observation_select d =
     [(q, i, m, case i_result_message_seq i of
                  None \<Rightarrow> None | Some seq \<Rightarrow> find (\<lambda>m. m_seq m = seq) (messages d)).
        q \<leftarrow> invocation_observations d, i \<leftarrow> invocations d, m \<leftarrow> messages d,
        i_id i = o_invocation_id q \<and> m_seq m = i_message_seq i]"

definition counts_from_row :: "event_counts \<Rightarrow> invocation_event_counts result" where
  "counts_from_row c =
     and_then (to_u64 (n_prompt c)) (\<lambda>prompt.
     and_then (to_u64 (n_assistant c)) (\<lambda>assistant.
     and_then (to_u64 (n_reasoning c)) (\<lambda>reasoning.
     and_then (to_u64 (n_tool c)) (\<lambda>tool.
     and_then (to_u64 (n_plan c)) (\<lambda>plan.
     and_then (to_u64 (n_usage c)) (\<lambda>usage.
     and_then (to_u64 (n_metadata c)) (\<lambda>metadata.
     and_then (to_u64 (n_permission c)) (\<lambda>permission.
     and_then (to_u64 (n_unknown c)) (\<lambda>unknown.
     Inr \<lparr>iec_prompt = prompt, iec_assistant = assistant, iec_reasoning = reasoning, iec_tool = tool,
          iec_plan = plan, iec_usage = usage, iec_metadata = metadata, iec_permission = permission,
          iec_unknown = unknown\<rparr>)))))))))"

definition observation_from_row ::
  "observation_row \<times> invocation_row \<times> message_row \<times> message_row option
    \<Rightarrow> invocation_observation_view result" where
  "observation_from_row = (\<lambda>(q, i, source, res).
     and_then (to_u64 (o_binding_generation q)) (\<lambda>generation.
     and_then (to_u64 (o_owner_epoch q)) (\<lambda>epoch.
     and_then (to_u64 (o_event_count q)) (\<lambda>event_count.
     and_then (to_u64 (o_observed_payload_bytes q)) (\<lambda>bytes.
     and_then (to_u64 (o_last_event_seq q)) (\<lambda>last_seq.
     and_then (counts_from_row (o_counts q)) (\<lambda>counts.
     Inr \<lparr>io_invocation_id = o_invocation_id q, io_agent_id = i_agent_id i,
          io_source_message_id = m_id source, io_result_message_id = map_option m_id res,
          io_generation_id = o_generation_id q, io_binding_id = o_binding_id q,
          io_binding_generation = generation, io_owner_epoch = epoch,
          io_started_at_ms = o_started_at_ms q, io_updated_at_ms = o_updated_at_ms q,
          io_first_event_at_ms = o_first_event_at_ms q, io_last_event_at_ms = o_last_event_at_ms q,
          io_event_count = event_count, io_observed_payload_bytes = bytes,
          io_last_event_seq = last_seq, io_event_chain_digest = o_event_chain_digest q,
          io_counts = counts, io_terminal_at_ms = o_terminal_at_ms q,
          io_stop_reason = o_stop_reason q, io_runtime_stop_reason = o_runtime_stop_reason q,
          io_execution_certainty = o_execution_certainty q,
          io_session_quiescent = o_session_quiescent q,
          io_session_persistence = o_session_persistence q, io_usage = o_usage_json q\<rparr>)))))))"

definition list_invocation_observations :: "evidence_page \<Rightarrow> db \<Rightarrow> invocation_observation_view list result" where
  "list_invocation_observations page d =
     and_then (evidence_validate page) (\<lambda>limit.
     try_fold (\<lambda>r os. and_then (observation_from_row r) (\<lambda>x. Inr (os @ [x])))
       (evidence_sql (\<lambda>(q, i, _). i_agent_id i) (\<lambda>(q, _). o_updated_at_ms q)
         (\<lambda>(q, _). o_invocation_id q) (\<lambda>(q, _). o_terminal_at_ms q \<noteq> None)
         page limit (observation_select d)) [])"

section \<open>Traces\<close>

definition invocation_observation :: "string \<Rightarrow> db \<Rightarrow> invocation_observation_view option result" where
  "invocation_observation invocation_id d =
     (case find (\<lambda>(q, _). o_invocation_id q = invocation_id) (observation_select d) of
        None \<Rightarrow> Inr None
      | Some r \<Rightarrow> and_then (observation_from_row r) (\<lambda>x. Inr (Some x)))"

record invocation_trace_view =
  trace_invocation :: invocation
  trace_observation :: "invocation_observation_view option"
  trace_session :: "session_binding option"
  trace_plugin_generation :: "plugin_generation_view option"
  trace_result :: "message option"

definition invocation_trace :: "i64 \<Rightarrow> string \<Rightarrow> db \<Rightarrow> invocation_trace_view result" where
  "invocation_trace now invocation_id d =
     and_then (get_invocation invocation_id d) (\<lambda>inv.
     and_then (invocation_observation invocation_id d) (\<lambda>obs.
     and_then (case obs of
         None \<Rightarrow> Inr (None, None)
       | Some x \<Rightarrow>
           and_then (get_session_binding (io_binding_id x) (io_binding_generation x) d) (\<lambda>session.
           and_then (plugin_generation now (io_generation_id x) d) (\<lambda>pg.
           Inr (Some session, Some pg)))) (\<lambda>(session, pg).
     and_then (case inv_result_message_id inv of
         None \<Rightarrow> Inr None
       | Some mid \<Rightarrow> and_then (get_message mid d) (\<lambda>m. Inr (Some m))) (\<lambda>res.
     Inr \<lparr>trace_invocation = inv, trace_observation = obs, trace_session = session,
          trace_plugin_generation = pg, trace_result = res\<rparr>))))"

section \<open>Seats\<close>

datatype agent_seat_state =
    SeatUnmanaged | SeatIdle | SeatWorking | SeatInterrupted | SeatRecoveryRequired | SeatOffline

datatype agent_seat_reason =
    NoWorkerObserved | ReadyWorker | ReadySession | OpeningSession | ReservedInvocation
  | ActiveInvocation | ReservedGenerationUnavailable | ArmedGenerationUnavailable
  | ArmedLeaseExpired | UncertainSession | SessionWithoutWorker | GenerationIsStale
  | GenerationIsStopped

record agent_seat =
  seat_agent_id :: string
  seat_state_of :: agent_seat_state
  seat_reason :: agent_seat_reason
  seat_generation_id :: "string option"
  seat_generation_health :: "plugin_generation_health option"
  seat_binding_id :: "string option"
  seat_binding_generation :: "u64 option"
  seat_owner_epoch :: "u64 option"
  seat_session_state :: "session_binding_state option"
  seat_invocation_id :: "string option"
  seat_invocation_state :: "invocation_state option"
  seat_source_message_id :: "string option"
  seat_delivery_state :: "delivery_state option"
  seat_lease_expires_at_ms :: "i64 option"
  seat_lease_expired :: bool
  seat_last_progress_at_ms :: "i64 option"
  seat_unresolved_block_id :: "i64 option"

definition seat_state ::
  "session_binding_state option \<Rightarrow> invocation_state option \<Rightarrow> plugin_generation_health option \<Rightarrow> bool
    \<Rightarrow> agent_seat_state \<times> agent_seat_reason" where
  "seat_state session_state invocation_state health lease_expired =
     (let working = (health = Some HealthActive) in
      if session_state = Some Uncertain then (SeatRecoveryRequired, UncertainSession)
      else if invocation_state = Some DispatchArmed then
        if lease_expired then (SeatInterrupted, ArmedLeaseExpired)
        else if \<not> working then (SeatInterrupted, ArmedGenerationUnavailable)
        else (SeatWorking, ActiveInvocation)
      else if invocation_state = Some Reserved then
        if \<not> working then (SeatInterrupted, ReservedGenerationUnavailable)
        else (SeatWorking, ReservedInvocation)
      else
        (case health of
           Some HealthActive \<Rightarrow>
             if session_state = Some Opening then (SeatWorking, OpeningSession)
             else if session_state = Some Active then (SeatIdle, ReadySession)
             else (SeatIdle, ReadyWorker)
         | Some HealthStale \<Rightarrow> (SeatOffline, GenerationIsStale)
         | Some HealthStopped \<Rightarrow> (SeatOffline, GenerationIsStopped)
         | None \<Rightarrow>
             if session_state \<noteq> None \<and> session_state \<noteq> Some Retired
             then (SeatInterrupted, SessionWithoutWorker)
             else (SeatUnmanaged, NoWorkerObserved)))"

text \<open>The row of \<open>agent_seat_select\<close>: an agent and what its outer joins find.\<close>

record seat_row =
  sr_agent :: agent_row
  sr_session :: "binding_row option"
  sr_invocation :: "invocation_row option"
  sr_observation :: "observation_row option"
  sr_generation :: "generation_row option"
  sr_source :: "message_row option"
  sr_delivery :: "delivery_row option"
  sr_block :: "block_row option"

definition head_option :: "'a list \<Rightarrow> 'a option" where
  "head_option xs = (case xs of [] \<Rightarrow> None | x # _ \<Rightarrow> Some x)"

definition seat_session :: "string \<Rightarrow> db \<Rightarrow> binding_row option" where
  "seat_session agent_id d = head_option
     (sort_key (\<lambda>s. (if s_state s = Retired then 1 else 0 :: int, - s_updated_at_ms s, s_binding_id s,
         - s_binding_generation s))
       (filter (\<lambda>s. s_agent_id s = agent_id) (session_bindings d)))"

definition seat_invocation :: "string \<Rightarrow> binding_row option \<Rightarrow> db \<Rightarrow> invocation_row option" where
  "seat_invocation agent_id session d =
     (case (case session of None \<Rightarrow> None | Some s \<Rightarrow> s_active_invocation_id s) of
        Some iid \<Rightarrow> find (\<lambda>i. i_id i = iid) (invocations d)
      | None \<Rightarrow> head_option (rev (sort_key (\<lambda>i. (i_reserved_at_ms i, i_id i))
          (filter (\<lambda>i. i_agent_id i = agent_id \<and> i_state i \<noteq> Terminal) (invocations d)))))"

definition seat_generation ::
  "string \<Rightarrow> observation_row option \<Rightarrow> db \<Rightarrow> generation_row option" where
  "seat_generation agent_id obs d =
     (case obs of
        Some q \<Rightarrow> find (\<lambda>g. g_id g = o_generation_id q) (plugin_generations d)
      | None \<Rightarrow> head_option (sort_key (\<lambda>g. (- g_started_at_ms g, g_id g))
          (filter (\<lambda>g. g_agent_id g = agent_id) (plugin_generations d))))"

definition agent_seat_select :: "string option \<Rightarrow> db \<Rightarrow> seat_row list" where
  "agent_seat_select agent_id d =
     take 500 (concat (map (\<lambda>a.
       let session = seat_session (a_id a) d;
           inv = seat_invocation (a_id a) session d;
           obs = (case inv of None \<Rightarrow> None
             | Some i \<Rightarrow> find (\<lambda>q. o_invocation_id q = i_id i) (invocation_observations d));
           generation = seat_generation (a_id a) obs d;
           source = (case inv of None \<Rightarrow> None
             | Some i \<Rightarrow> find (\<lambda>m. m_seq m = i_message_seq i) (messages d));
           del = (case inv of None \<Rightarrow> None
             | Some i \<Rightarrow> find (\<lambda>r. d_message_seq r = i_message_seq i \<and> d_agent_id r = i_agent_id i)
                 (agent_deliveries d));
           blocks = (case del of None \<Rightarrow> []
             | Some r \<Rightarrow> filter (\<lambda>b. b_message_seq b = d_message_seq r \<and> b_agent_id b = d_agent_id r
                 \<and> b_resolved_at_ms b = None) (delivery_blocks d)) in
       map (\<lambda>b. \<lparr>sr_agent = a, sr_session = session, sr_invocation = inv, sr_observation = obs,
             sr_generation = generation, sr_source = source, sr_delivery = del, sr_block = b\<rparr>)
         (if blocks = [] then [None] else map Some blocks))
       (sort_key (\<lambda>a. (a_created_at_ms a, a_id a))
         (filter (\<lambda>a. case agent_id of None \<Rightarrow> True | Some x \<Rightarrow> a_id a = x) (agents d)))))"

definition generation_health_from_seat_row :: "i64 \<Rightarrow> seat_row \<Rightarrow> plugin_generation_health option result" where
  "generation_health_from_seat_row now r =
     (case sr_generation r of
        None \<Rightarrow> Inr None
      | Some g \<Rightarrow>
          and_then (to_u64 (g_heartbeat_interval_ms g)) (\<lambda>interval.
          Inr (Some (generation_health now (g_state g) (g_last_heartbeat_at_ms g) interval))))"

definition or_else :: "'a option \<Rightarrow> 'a option \<Rightarrow> 'a option" where
  "or_else a b = (case a of Some x \<Rightarrow> Some x | None \<Rightarrow> b)"

definition optional_u64 :: "i64 option \<Rightarrow> u64 option result" where
  "optional_u64 v = (case v of None \<Rightarrow> Inr None | Some x \<Rightarrow> and_then (to_u64 x) (\<lambda>w. Inr (Some w)))"

definition agent_seat_from_row :: "i64 \<Rightarrow> i64 \<Rightarrow> seat_row \<Rightarrow> agent_seat result" where
  "agent_seat_from_row health_now now r =
     and_then (generation_health_from_seat_row health_now r) (\<lambda>health.
     let session_state = map_option s_state (sr_session r);
         invocation_state = map_option i_state (sr_invocation r);
         delivery_state = map_option d_state (sr_delivery r);
         lease_expires = map_option i_lease_expires_at_ms (sr_invocation r);
         delivery_lease_expires = (case sr_delivery r of None \<Rightarrow> None | Some q \<Rightarrow> d_lease_expires_at_ms q);
         lease_expired = ((case lease_expires of None \<Rightarrow> False | Some t \<Rightarrow> t \<le> now)
           \<or> delivery_state = Some Leased
             \<and> (case delivery_lease_expires of None \<Rightarrow> False | Some t \<Rightarrow> t \<le> now));
         (state, reason) = seat_state session_state invocation_state health lease_expired in
     and_then (optional_u64 (map_option s_binding_generation (sr_session r))) (\<lambda>generation.
     and_then (optional_u64 (map_option s_owner_epoch (sr_session r))) (\<lambda>epoch.
     Inr \<lparr>seat_agent_id = a_id (sr_agent r), seat_state_of = state, seat_reason = reason,
          seat_generation_id = map_option g_id (sr_generation r), seat_generation_health = health,
          seat_binding_id = map_option s_binding_id (sr_session r),
          seat_binding_generation = generation, seat_owner_epoch = epoch,
          seat_session_state = session_state, seat_invocation_id = map_option i_id (sr_invocation r),
          seat_invocation_state = invocation_state,
          seat_source_message_id = map_option m_id (sr_source r),
          seat_delivery_state = delivery_state, seat_lease_expires_at_ms = lease_expires,
          seat_lease_expired = lease_expired,
          seat_last_progress_at_ms =
            or_else (case sr_observation r of None \<Rightarrow> None | Some q \<Rightarrow> o_last_event_at_ms q)
              (or_else (map_option o_updated_at_ms (sr_observation r))
                (or_else (case sr_invocation r of None \<Rightarrow> None | Some i \<Rightarrow> i_dispatch_armed_at_ms i)
                  (map_option i_reserved_at_ms (sr_invocation r)))),
          seat_unresolved_block_id = map_option b_id (sr_block r)\<rparr>)))"

definition list_agent_seats :: "i64 \<Rightarrow> i64 \<Rightarrow> string option \<Rightarrow> db \<Rightarrow> agent_seat list result" where
  "list_agent_seats health_now now agent_id d =
     try_fold (\<lambda>r ss. and_then (agent_seat_from_row health_now now r) (\<lambda>s. Inr (ss @ [s])))
       (agent_seat_select agent_id d) []"

section \<open>What the operations leave alone\<close>

definition same_sessions :: "db \<Rightarrow> db \<Rightarrow> bool" where
  "same_sessions d d' \<longleftrightarrow>
     session_bindings d' = session_bindings d \<and> session_binding_turns d' = session_binding_turns d"

lemma heartbeat_frame [simp]:
  "same_core d (heartbeat now gid d)" "same_sessions d (heartbeat now gid d)"
  "invocation_observations (heartbeat now gid d) = invocation_observations d"
  by (simp_all add: heartbeat_def same_core_def same_sessions_def)

lemma record_plugin_generation_Inr:
  assumes "record_plugin_generation ij now g d = Inr (x, d')"
  obtains interval frame where
    "insert_generation_row (new_generation_row g interval frame now) d = Inr d'"
  using assms unfolding record_plugin_generation_def and_then_eq_Inr by auto

lemma stop_plugin_generation_Inr:
  assumes "stop_plugin_generation now gid stop d = Inr (x, d')"
  shows "d' = d \<or> d' = d\<lparr>plugin_generations := update_where
      (\<lambda>g. g_id g = gid \<and> g_state g = GenerationActive) (stopped_row now stop) (plugin_generations d)\<rparr>"
  using assms unfolding stop_plugin_generation_def and_then_eq_Inr
  by (auto simp: and_then_eq_Inr Let_def split: if_splits)

lemma record_invocation_terminal_Inr:
  assumes "record_invocation_terminal now gid t d = Inr (u, d')"
  obtains (replay) q where "q \<in> set (invocation_observations d)" "o_invocation_id q = tt_invocation_id t"
      "o_generation_id q = gid" "o_terminal_at_ms q \<noteq> None" "terminal_matches q t (tt_usage t)" "d' = d"
  | (recorded) q where "q \<in> set (invocation_observations d)" "o_invocation_id q = tt_invocation_id t"
      "o_generation_id q = gid" "o_terminal_at_ms q = None" "o_last_event_seq q = uint (tt_last_event_seq t)"
      "d' = heartbeat now gid (d\<lparr>invocation_observations := update_where
         (\<lambda>q. o_invocation_id q = tt_invocation_id t \<and> o_generation_id q = gid \<and> o_terminal_at_ms q = None)
         (terminal_observation_row now t (tt_usage t)) (invocation_observations d)\<rparr>)"
proof -
  have usage: "bounded_json (tt_usage t) ''terminal usage'' = Inr (tt_usage t)"
    using assms by (auto simp: record_invocation_terminal_def and_then_eq_Inr bounded_json_def split: if_splits)
  obtain n where n: "i64_try_from (tt_last_event_seq t) = Some n"
    using assms by (auto simp: record_invocation_terminal_def and_then_eq_Inr ok_or_eq_Inr)
  then have n': "n = uint (tt_last_event_seq t)" by (simp add: i64_try_from_Some)
  let ?Q = "\<lambda>q. o_invocation_id q = tt_invocation_id t \<and> o_generation_id q = gid"
  obtain q where q: "find ?Q (invocation_observations d) = Some q"
    using assms by (auto simp: record_invocation_terminal_def n usage split: option.splits)
  then have mem: "q \<in> set (invocation_observations d)" "o_invocation_id q = tt_invocation_id t"
    "o_generation_id q = gid" by (auto dest: find_in)
  show thesis
    using assms recorded [OF mem] replay [OF mem]
    by (cases "o_terminal_at_ms q")
      (auto simp: record_invocation_terminal_def n usage q n' split: if_splits)
qed

lemma observation_ops_frame:
  "record_plugin_generation ij now g d = Inr (x, d') \<Longrightarrow> same_core d d' \<and> same_sessions d d'"
  "heartbeat_plugin_generation now gid d = Inr (u, d') \<Longrightarrow> same_core d d' \<and> same_sessions d d'"
  "stop_plugin_generation now gid stop d = Inr (x, d') \<Longrightarrow> same_core d d' \<and> same_sessions d d'"
  by (auto elim!: record_plugin_generation_Inr dest!: stop_plugin_generation_Inr
      simp: insert_generation_row_def heartbeat_plugin_generation_def same_core_def same_sessions_def
        heartbeat_def split: if_splits)

lemma insert_observation_row_frame:
  "insert_observation_row q d = Inr d' \<Longrightarrow> same_core d d' \<and> same_sessions d d'"
  by (auto simp: insert_observation_row_def same_core_def same_sessions_def split: if_splits)

lemma apply_event_fold_frame:
  "apply_event_fold now e d = Inr d' \<Longrightarrow> same_core d d' \<and> same_sessions d d'"
  by (auto simp: apply_event_fold_def Let_def same_core_def same_sessions_def heartbeat_def split: if_splits)

lemma record_invocation_event_frame:
  assumes "record_invocation_event sha now gid iid seq at cls raw d = Inr (u, d')"
  shows "same_core d d' \<and> same_sessions d d'"
proof -
  have "d' = d \<or> (\<exists>e. apply_event_fold now e d = Inr d')"
    using assms unfolding record_invocation_event_def
    by (auto simp: and_then_eq_Inr Let_def split: if_splits option.splits)
  then show ?thesis using apply_event_fold_frame by (auto simp: same_sessions_def)
qed

lemma record_invocation_terminal_frame:
  assumes "record_invocation_terminal now gid t d = Inr (u, d')"
  shows "same_core d d' \<and> same_sessions d d'"
  using assms
  by (cases rule: record_invocation_terminal_Inr)
    (auto simp: same_core_def same_sessions_def heartbeat_def)

section \<open>The invariant\<close>

definition observation_ok :: "observation_row \<Rightarrow> bool" where
  "observation_ok q \<longleftrightarrow>
     observation_check q \<and> o_event_count q = o_last_event_seq q \<and> o_last_event_seq q \<le> i64_max
     \<and> count_total (o_counts q) = o_event_count q"

definition observations_inv :: "db \<Rightarrow> bool" where
  "observations_inv d \<longleftrightarrow>
     unique_on g_id (plugin_generations d)
     \<and> (\<forall>g\<in>set (plugin_generations d). generation_check g)
     \<and> unique_on o_invocation_id (invocation_observations d)
     \<and> (\<forall>q\<in>set (invocation_observations d). observation_ok q)"

lemma observations_inv_cong:
  "observations_inv d \<Longrightarrow> plugin_generations d' = plugin_generations d
    \<Longrightarrow> invocation_observations d' = invocation_observations d \<Longrightarrow> observations_inv d'"
  by (simp add: observations_inv_def)

lemma observations_inv_generations:
  assumes "observations_inv d"
    and "plugin_generations d' = update_where P f (plugin_generations d)"
    and "invocation_observations d' = invocation_observations d"
    and "\<And>g. g_id (f g) = g_id g" and "\<And>g. P g \<Longrightarrow> generation_check g \<Longrightarrow> generation_check (f g)"
  shows "observations_inv d'"
  using assms by (auto simp: observations_inv_def unique_on_update ball_update_where)

lemma observations_inv_heartbeat: "observations_inv d \<Longrightarrow> observations_inv (heartbeat now gid d)"
  by (rule observations_inv_generations [where P = "\<lambda>g. g_id g = gid \<and> g_state g = GenerationActive"
        and f = "\<lambda>g. g\<lparr>g_last_heartbeat_at_ms := now\<rparr>"])
    (auto simp: heartbeat_def generation_check_def split: plugin_generation_state.splits)

lemma observations_inv_rows:
  assumes "observations_inv d"
    and "plugin_generations d' = plugin_generations d"
    and "invocation_observations d' = update_where P f (invocation_observations d)"
    and "\<And>q. o_invocation_id (f q) = o_invocation_id q" and "\<And>q. P q \<Longrightarrow> observation_ok q \<Longrightarrow> observation_ok (f q)"
  shows "observations_inv d'"
  using assms by (auto simp: observations_inv_def unique_on_update ball_update_where)

lemma observations_inv_record_generation:
  assumes "observations_inv d" and "record_plugin_generation ij now g d = Inr (x, d')"
  shows "observations_inv d'"
  using assms(2)
proof (rule record_plugin_generation_Inr)
  fix interval frame
  let ?g = "new_generation_row g interval frame now"
  assume "insert_generation_row ?g d = Inr d'"
  then have d': "d' = d\<lparr>plugin_generations := plugin_generations d @ [?g]\<rparr>"
    and new: "g_id ?g \<notin> g_id ` set (plugin_generations d)"
    by (auto simp: insert_generation_row_def split: if_splits)
  have "generation_check ?g" by (simp add: generation_check_def new_generation_row_def)
  then show ?thesis using assms(1) new by (simp add: observations_inv_def d')
qed

lemma observations_inv_stop:
  assumes "observations_inv d" and "stop_plugin_generation now gid stop d = Inr (x, d')"
  shows "observations_inv d'"
  using stop_plugin_generation_Inr [OF assms(2)]
proof
  assume "d' = d\<lparr>plugin_generations := update_where
      (\<lambda>g. g_id g = gid \<and> g_state g = GenerationActive) (stopped_row now stop) (plugin_generations d)\<rparr>"
  then show ?thesis
    by (intro observations_inv_generations [OF assms(1), where f = "stopped_row now stop"
          and P = "\<lambda>g. g_id g = gid \<and> g_state g = GenerationActive"])
      (simp_all add: stopped_row_def generation_check_def)
qed (use assms(1) in simp)

lemma count_total_simps [simp]:
  "count_total (add_counts a b) = count_total a + count_total b"
  "count_total (event_increments c) = 1" "count_total no_counts = 0"
  by (simp_all add: count_total_def add_counts_def event_increments_def no_counts_def
      split: event_class.splits)

lemma observations_inv_begin:
  assumes "observations_inv d"
    and "insert_observation_row (new_observation_row iid gid bid g epoch now) d = Inr d'"
    and "0 < g" and "0 < epoch"
  shows "observations_inv d'"
proof -
  let ?q = "new_observation_row iid gid bid g epoch now"
  have d': "d' = d\<lparr>invocation_observations := invocation_observations d @ [?q]\<rparr>"
    and new: "o_invocation_id ?q \<notin> o_invocation_id ` set (invocation_observations d)"
    using assms(2) by (auto simp: insert_observation_row_def split: if_splits)
  have "observation_ok ?q"
    using assms(3,4)
    by (simp add: observation_ok_def observation_check_def new_observation_row_def i64_max_def)
  then show ?thesis using assms(1) new by (simp add: observations_inv_def d')
qed

lemma observation_ok_terminal:
  assumes "observation_ok q" and "o_terminal_at_ms q = None"
  shows "observation_ok (terminal_observation_row now t usage q)"
  using assms by (auto simp: observation_ok_def observation_check_def terminal_observation_row_def)

lemma observations_inv_terminal:
  assumes "observations_inv d" and "record_invocation_terminal now gid t d = Inr (u, d')"
  shows "observations_inv d'"
  using assms(2)
proof (cases rule: record_invocation_terminal_Inr)
  case (recorded q)
  have "observations_inv (d\<lparr>invocation_observations := update_where
         (\<lambda>q. o_invocation_id q = tt_invocation_id t \<and> o_generation_id q = gid \<and> o_terminal_at_ms q = None)
         (terminal_observation_row now t (tt_usage t)) (invocation_observations d)\<rparr>)"
    by (rule observations_inv_rows [OF assms(1), where f = "terminal_observation_row now t (tt_usage t)"
        and P = "\<lambda>q. o_invocation_id q = tt_invocation_id t \<and> o_generation_id q = gid \<and> o_terminal_at_ms q = None"])
      (simp_all add: observation_ok_terminal, simp add: terminal_observation_row_def)
  then show ?thesis unfolding recorded(6) by (rule observations_inv_heartbeat)
qed (use assms(1) in simp)

section \<open>The event log\<close>

text \<open>The observation of an invocation, and the event of a harness as the worker reports it.\<close>

definition observation_at :: "string \<Rightarrow> db \<Rightarrow> observation_row option" where
  "observation_at iid d = find (\<lambda>q. o_invocation_id q = iid) (invocation_observations d)"

record harness_event =
  ev_now :: i64
  ev_seq :: u64
  ev_observed_at_ms :: i64
  ev_classification :: string
  ev_raw :: json

definition ev_digest :: "(string \<Rightarrow> string) \<Rightarrow> harness_event \<Rightarrow> string" where
  "ev_digest sha e = event_digest sha (uint (ev_seq e)) (ev_observed_at_ms e) (ev_classification e) (ev_raw e)"

text \<open>What one new event does to the observation.\<close>

definition log_event :: "(string \<Rightarrow> string) \<Rightarrow> harness_event \<Rightarrow> observation_row \<Rightarrow> observation_row" where
  "log_event sha e q = folded_row (ev_now e)
     \<lparr>fold_generation_id = o_generation_id q, fold_invocation_id = o_invocation_id q,
      fold_previous_seq = o_last_event_seq q, fold_event_seq = uint (ev_seq e),
      fold_observed_at_ms = ev_observed_at_ms e, fold_payload_bytes = int (length (ev_raw e)),
      fold_event_digest = ev_digest sha e,
      fold_chain_digest = chain_digest sha (o_event_chain_digest q) (ev_digest sha e),
      fold_counts = event_increments (ev_classification e)\<rparr> q"

lemma log_event_simps [simp]:
  "o_invocation_id (log_event sha e q) = o_invocation_id q"
  "o_generation_id (log_event sha e q) = o_generation_id q"
  "o_terminal_at_ms (log_event sha e q) = o_terminal_at_ms q"
  "o_last_event_seq (log_event sha e q) = uint (ev_seq e)"
  "o_event_count (log_event sha e q) = o_event_count q + 1"
  "o_last_event_digest (log_event sha e q) = Some (ev_digest sha e)"
  "o_event_chain_digest (log_event sha e q) = Some (chain_digest sha (o_event_chain_digest q) (ev_digest sha e))"
  "o_observed_payload_bytes (log_event sha e q) = o_observed_payload_bytes q + int (length (ev_raw e))"
  "o_counts (log_event sha e q) = add_counts (o_counts q) (event_increments (ev_classification e))"
  by (simp_all add: log_event_def folded_row_def)

lemma observation_ok_log:
  assumes "observation_ok q" and "uint (ev_seq e) = o_last_event_seq q + 1" and "uint (ev_seq e) \<le> i64_max"
  shows "observation_ok (log_event sha e q)"
  using assms unfolding observation_ok_def observation_check_def
  by (auto simp: log_event_def folded_row_def)

definition record_event ::
  "(string \<Rightarrow> string) \<Rightarrow> string \<Rightarrow> string \<Rightarrow> harness_event \<Rightarrow> db \<Rightarrow> db result" where
  "record_event sha gid iid e d = and_then
     (record_invocation_event sha (ev_now e) gid iid (ev_seq e) (ev_observed_at_ms e)
       (ev_classification e) (ev_raw e) d) (\<lambda>(_, d). Inr d)"

lemma record_event_cases:
  assumes inv: "observations_inv d" and ok: "record_event sha gid iid e d = Inr d'"
  obtains (resent) q where "observation_at iid d = Some q" "o_generation_id q = gid"
      "uint (ev_seq e) = o_last_event_seq q" "o_last_event_digest q = Some (ev_digest sha e)" "d' = d"
  | (logged) q where "observation_at iid d = Some q" "o_generation_id q = gid" "o_terminal_at_ms q = None"
      "uint (ev_seq e) = o_last_event_seq q + 1" "uint (ev_seq e) \<le> i64_max"
      "\<exists>g\<in>set (plugin_generations d). g_id g = gid \<and> g_state g = GenerationActive"
      "d' = heartbeat (ev_now e) gid (d\<lparr>invocation_observations := update_where
         (\<lambda>p. o_invocation_id p = iid) (log_event sha e) (invocation_observations d)\<rparr>)"
proof -
  let ?Q = "\<lambda>(q, g). o_invocation_id q = iid \<and> o_generation_id q = gid"
  let ?join = "[(q, g). q \<leftarrow> invocation_observations d, g \<leftarrow> plugin_generations d, g_id g = o_generation_id q]"
  let ?D = "ev_digest sha e"
  have ok': "record_invocation_event sha (ev_now e) gid iid (ev_seq e) (ev_observed_at_ms e)
      (ev_classification e) (ev_raw e) d = Inr ((), d')"
    using ok by (auto simp: record_event_def and_then_eq_Inr)
  obtain n where n: "i64_try_from (ev_seq e) = Some n"
    using ok' by (auto simp: record_invocation_event_def and_then_eq_Inr ok_or_eq_Inr split: if_splits)
  then have n': "n = uint (ev_seq e)" "0 \<le> n" "n \<le> i64_max" by (simp_all add: i64_try_from_Some)
  note rec = ok' [unfolded record_invocation_event_def n ok_or_Some and_then_Inr Let_def n'(1)
      ev_digest_def [symmetric]]
  obtain q g where find: "find ?Q ?join = Some (q, g)"
    using rec by (auto simp: and_then_eq_Inr split: option.splits if_splits)
  from find_in [OF find] have q: "q \<in> set (invocation_observations d)" "o_invocation_id q = iid"
    "o_generation_id q = gid" "g \<in> set (plugin_generations d)" "g_id g = gid" by auto
  have u: "unique_on o_invocation_id (invocation_observations d)" and qok: "observation_ok q"
    using inv q(1) by (auto simp: observations_inv_def)
  have at: "observation_at iid d = Some q"
    unfolding observation_at_def using find_key_iff [OF u] q by blast
  show thesis
  proof (cases "uint (ev_seq e) = o_last_event_seq q")
    case True
    then show thesis
      using rec resent [OF at q(3) True] by (auto simp: find and_then_eq_Inr split: if_splits)
  next
    case False
    let ?P = "\<lambda>p. o_invocation_id p = iid \<and> o_generation_id p = gid \<and> o_last_event_seq p = o_last_event_seq q"
    let ?e = "\<lparr>fold_generation_id = gid, fold_invocation_id = iid, fold_previous_seq = o_last_event_seq q,
       fold_event_seq = uint (ev_seq e), fold_observed_at_ms = ev_observed_at_ms e,
       fold_payload_bytes = int (length (ev_raw e)), fold_event_digest = ?D,
       fold_chain_digest = chain_digest sha (o_event_chain_digest q) ?D,
       fold_counts = event_increments (ev_classification e)\<rparr>"
    have live: "g_state g = GenerationActive" "o_terminal_at_ms q = None"
      and seq: "uint (ev_seq e) = sat_i64 (o_last_event_seq q + 1)"
      and fold: "apply_event_fold (ev_now e) ?e d = Inr d'"
      using rec False by (auto simp: find and_then_eq_Inr split: if_splits)
    have next_seq: "uint (ev_seq e) = o_last_event_seq q + 1"
      using seq False qok
      by (auto simp: sat_i64_def observation_ok_def observation_check_def i64_min_def min_def max_def
          split: if_splits)
    have same: "p = q" if "p \<in> set (invocation_observations d)" "o_invocation_id p = iid" for p
      using unique_onD [OF u that(1) q(1)] that(2) q(2) by simp
    have "update_where ?P (folded_row (ev_now e) ?e) (invocation_observations d) =
        update_where (\<lambda>p. o_invocation_id p = iid) (log_event sha e) (invocation_observations d)"
      unfolding update_where_def
    proof (rule map_cong [OF refl])
      fix p
      assume p: "p \<in> set (invocation_observations d)"
      show "(if ?P p then folded_row (ev_now e) ?e p else p) =
          (if o_invocation_id p = iid then log_event sha e p else p)"
      proof (cases "o_invocation_id p = iid")
        case True
        then have "p = q" by (rule same [OF p])
        then show ?thesis using q by (simp add: log_event_def)
      qed simp
    qed
    then have "d' = heartbeat (ev_now e) gid (d\<lparr>invocation_observations := update_where
         (\<lambda>p. o_invocation_id p = iid) (log_event sha e) (invocation_observations d)\<rparr>)"
      using fold by (auto simp: apply_event_fold_def Let_def split: if_splits)
    then show thesis using logged [OF at q(3) live(2) next_seq] live(1) q n' by auto
  qed
qed

lemma record_event_effect:
  assumes inv: "observations_inv d" and ok: "record_event sha gid iid e d = Inr d'"
  shows "observations_inv d'"
    and "observation_at iid d = Some q \<Longrightarrow> observation_at iid d' =
      Some (if uint (ev_seq e) = o_last_event_seq q then q else log_event sha e q)"
    and "observation_at iid d = Some q \<Longrightarrow> uint (ev_seq e) = o_last_event_seq q \<or>
      uint (ev_seq e) = o_last_event_seq q + 1"
    and "other \<noteq> iid \<Longrightarrow> observation_at other d' = observation_at other d"
proof -
  have "observations_inv d' \<and> (\<forall>q. observation_at iid d = Some q \<longrightarrow> observation_at iid d' =
      Some (if uint (ev_seq e) = o_last_event_seq q then q else log_event sha e q)
      \<and> (uint (ev_seq e) = o_last_event_seq q \<or> uint (ev_seq e) = o_last_event_seq q + 1))
    \<and> (\<forall>other. other \<noteq> iid \<longrightarrow> observation_at other d' = observation_at other d)"
    using inv ok
  proof (cases rule: record_event_cases)
    case (logged q)
    let ?d = "d\<lparr>invocation_observations := update_where
         (\<lambda>p. o_invocation_id p = iid) (log_event sha e) (invocation_observations d)\<rparr>"
    have u: "unique_on o_invocation_id (invocation_observations d)"
      and all: "\<forall>p\<in>set (invocation_observations d). observation_ok p"
      using inv by (auto simp: observations_inv_def)
    have q: "q \<in> set (invocation_observations d)" "o_invocation_id q = iid"
      using logged(1) by (auto simp: observation_at_def dest: find_in)
    have "observation_ok (log_event sha e p)" if "p \<in> set (invocation_observations d)" "o_invocation_id p = iid" for p
    proof -
      have "p = q" using unique_onD [OF u that(1) q(1)] that(2) q(2) by simp
      then show ?thesis using observation_ok_log [OF _ logged(4,5)] all q(1) by simp
    qed
    then have "observations_inv ?d"
      using inv by (auto simp: observations_inv_def unique_on_update ball_update_where)
    then have "observations_inv d'" unfolding logged(7) by (rule observations_inv_heartbeat)
    moreover have "observation_at other d' = (if other = iid then map_option (log_event sha e)
        (observation_at other d) else observation_at other d)" for other
      unfolding logged(7) observation_at_def
      by (cases "find (\<lambda>q. o_invocation_id q = other) (invocation_observations d)")
        (auto simp: find_key_update_where dest: find_in)
    ultimately show ?thesis using logged by auto
  qed (use inv in auto)
  then show "observations_inv d'"
    "observation_at iid d = Some q \<Longrightarrow> observation_at iid d' =
      Some (if uint (ev_seq e) = o_last_event_seq q then q else log_event sha e q)"
    "observation_at iid d = Some q \<Longrightarrow> uint (ev_seq e) = o_last_event_seq q \<or>
      uint (ev_seq e) = o_last_event_seq q + 1"
    "other \<noteq> iid \<Longrightarrow> observation_at other d' = observation_at other d" by blast+
qed

text \<open>The events of a sequence of reports that are not resends of the last one.\<close>

fun new_events :: "i64 \<Rightarrow> harness_event list \<Rightarrow> harness_event list" where
  "new_events n [] = []"
| "new_events n (e # es) =
     (if uint (ev_seq e) = n then new_events n es else e # new_events (uint (ev_seq e)) es)"

lemma record_events_log:
  assumes "observations_inv d" and "observation_at iid d = Some q"
    and "try_fold (record_event sha gid iid) es d = Inr d'"
  shows "observation_at iid d' = Some (fold (log_event sha) (new_events (o_last_event_seq q) es) q)
    \<and> map (\<lambda>e. uint (ev_seq e)) (new_events (o_last_event_seq q) es) =
        map (\<lambda>k. o_last_event_seq q + 1 + int k) [0..<length (new_events (o_last_event_seq q) es)]"
  using assms
proof (induction es arbitrary: d q)
  case (Cons e es)
  from Cons.prems(3) obtain d1 where one: "record_event sha gid iid e d = Inr d1"
    and rest: "try_fold (record_event sha gid iid) es d1 = Inr d'" by (auto simp: and_then_eq_Inr)
  note eff = record_event_effect [OF Cons.prems(1) one]
  show ?case
  proof (cases "uint (ev_seq e) = o_last_event_seq q")
    case True
    then show ?thesis using Cons.IH [OF eff(1) _ rest] eff(2) [OF Cons.prems(2)] by simp
  next
    case False
    let ?q = "log_event sha e q"
    have seq: "uint (ev_seq e) = o_last_event_seq q + 1" using eff(3) [OF Cons.prems(2)] False by simp
    have at: "observation_at iid d1 = Some ?q" using eff(2) [OF Cons.prems(2)] False by simp
    from Cons.IH [OF eff(1) at rest] seq show ?thesis
      by (simp add: False upt_conv_Cons map_Suc_upt [symmetric] comp_def del: upt_Suc)
  qed
qed simp

text \<open>
  C24: the observation of an invocation is exactly the log of its events.  However often the worker
  reports an event again, recording a sequence of reports leaves the row with every new event
  counted once, the sequence numbers contiguous, the payload bytes summed, each class counted and
  the digest chain the fold of the event digests, in order; no other observation moves.
\<close>

theorem event_log_exact:
  assumes inv: "observations_inv d" and at: "observation_at iid d = Some q"
    and ok: "try_fold (record_event sha gid iid) es d = Inr d'"
  shows "\<exists>q' log. log = new_events (o_last_event_seq q) es \<and> observation_at iid d' = Some q'
    \<and> map (\<lambda>e. uint (ev_seq e)) log = map (\<lambda>k. o_last_event_seq q + 1 + int k) [0..<length log]
    \<and> o_last_event_seq q' = o_last_event_seq q + int (length log)
    \<and> o_event_count q' = o_event_count q + int (length log)
    \<and> o_observed_payload_bytes q' = o_observed_payload_bytes q + sum_list (map (\<lambda>e. int (length (ev_raw e))) log)
    \<and> o_counts q' = foldl (\<lambda>c e. add_counts c (event_increments (ev_classification e))) (o_counts q) log
    \<and> o_event_chain_digest q' =
        foldl (\<lambda>p e. Some (chain_digest sha p (ev_digest sha e))) (o_event_chain_digest q) log
    \<and> (\<forall>other. other \<noteq> iid \<longrightarrow> observation_at other d' = observation_at other d)"
proof -
  let ?log = "new_events (o_last_event_seq q) es"
  note log = record_events_log [OF inv at ok]
  have "observations_inv d' \<and> (\<forall>other. other \<noteq> iid \<longrightarrow> observation_at other d' = observation_at other d)"
    using ok by (rule try_fold_invariant) (use inv record_event_effect(1,4) in auto)
  moreover have "o_last_event_seq (fold (log_event sha) l p) =
      (if l = [] then o_last_event_seq p else last (map (\<lambda>e. uint (ev_seq e)) l))" for l p
    by (induction l arbitrary: p) auto
  then have "o_last_event_seq (fold (log_event sha) ?log q) = o_last_event_seq q + int (length ?log)"
    using log by (cases "?log = []") (simp_all add: last_map last_upt of_nat_diff Suc_leI)
  moreover have "o_event_count (fold (log_event sha) l p) = o_event_count p + int (length l)
    \<and> o_observed_payload_bytes (fold (log_event sha) l p) =
        o_observed_payload_bytes p + sum_list (map (\<lambda>e. int (length (ev_raw e))) l)
    \<and> o_counts (fold (log_event sha) l p) =
        foldl (\<lambda>c e. add_counts c (event_increments (ev_classification e))) (o_counts p) l
    \<and> o_event_chain_digest (fold (log_event sha) l p) =
        foldl (\<lambda>p e. Some (chain_digest sha p (ev_digest sha e))) (o_event_chain_digest p) l" for l p
    by (induction l arbitrary: p) simp_all
  ultimately show ?thesis using log by blast
qed

end
