(* ===== verification/Session_Turns.thy ===== *)
theory Session_Turns
  imports Settlement Observations
begin

text \<open>
  The operations of \<open>crates/execution/src/session_binding.rs\<close> that tie an invocation to a native
  session: arming it on a ready binding and completing it there, each in one transaction with the
  invocation fence and, when arming, with the observation row of
  \<open>crates/execution/src/operations.rs\<close>.
\<close>

section \<open>Operations\<close>

record bound_invocation =
  bound_invocation :: invocation
  bound_session :: session_binding

definition arm_session_invocation ::
  "i64 \<Rightarrow> string \<Rightarrow> string \<Rightarrow> binding \<Rightarrow> string \<Rightarrow> string \<Rightarrow> arm_invocation_input
    \<Rightarrow> bound_invocation transaction" where
  "arm_session_invocation now agent_id invocation_id b session_ref generation_id inp d =
     and_then (validate_binding b) (\<lambda>_.
     and_then (validate_bounded ''session reference'' session_ref MAX_SESSION_REF_BYTES) (\<lambda>_.
     and_then (exact_binding_row agent_id b d) (\<lambda>row.
     and_then (validate_owner row b) (\<lambda>_.
     and_then (validate_session_reference row session_ref) (\<lambda>_.
     and_then (validate_binding_activation row invocation_id) (\<lambda>_.
     and_then (arm_invocation_transaction agent_id invocation_id inp now d) (\<lambda>(invocation, d).
     and_then (activate_binding_turn agent_id invocation_id b now d) (\<lambda>d.
     and_then (begin_invocation_observation agent_id invocation_id generation_id b now d) (\<lambda>d.
     and_then (binding_by_identity agent_id b d) (\<lambda>session.
     Inr (\<lparr>bound_invocation = invocation, bound_session = session\<rparr>, d)))))))))))"

definition complete_session_invocation ::
  "string \<Rightarrow> i64 \<Rightarrow> i64 \<Rightarrow> string \<Rightarrow> string \<Rightarrow> binding \<Rightarrow> session_persistence
    \<Rightarrow> complete_invocation_input \<Rightarrow> (invocation_completion \<times> bool) transaction" where
  "complete_session_invocation uuid msg_now now agent_id invocation_id b persistence inp d =
     and_then (validate_binding b) (\<lambda>_.
     and_then (validate_bound_turn agent_id invocation_id b True d) (\<lambda>_.
     and_then (complete_invocation_transaction uuid msg_now agent_id invocation_id inp now True d)
       (\<lambda>(completion, d).
     and_then (settle_quiescent_turn agent_id invocation_id b persistence now d) (\<lambda>d.
     Inr (completion, d)))))"

section \<open>The invariant of the core\<close>

lemma begin_invocation_observation_Inr:
  assumes "begin_invocation_observation a iid gid b now d = Inr d'"
  obtains p g e where "insert_observation_row (new_observation_row iid (g_id p) (bind_id b) g e now) d = Inr d'"
    and "p \<in> set (plugin_generations d)" and "g_id p = gid" and "g_agent_id p = a" and "g_state p = GenerationActive"
    and "g = uint (bind_generation b)" and "e = uint (bind_owner_epoch b)"
proof (cases "find (\<lambda>p. g_id p = gid \<and> g_agent_id p = a \<and> g_state p = GenerationActive)
    (plugin_generations d)")
  case (Some p)
  with assms find_in [OF Some] that show thesis
    by (auto simp: begin_invocation_observation_def and_then_eq_Inr ok_or_eq_Inr dest!: i64_try_from_Some)
qed (use assms in \<open>auto simp: begin_invocation_observation_def and_then_eq_Inr\<close>)

lemma arm_session_invocation_Inr:
  assumes "arm_session_invocation now a iid b sref gid inp d = Inr (x, d')"
  obtains row inv d1 d2 where "exact_binding_row a b d = Inr row" and "validate_owner row b = Inr ()"
    and "validate_binding_activation row iid = Inr ()"
    and "arm_invocation_transaction a iid inp now d = Inr (inv, d1)"
    and "activate_binding_turn a iid b now d1 = Inr d2"
    and "begin_invocation_observation a iid gid b now d2 = Inr d'" and "validate_binding b = Inr ()"
  using assms by (auto simp: arm_session_invocation_def and_then_eq_Inr)

lemma begin_invocation_observation_core:
  assumes "begin_invocation_observation a iid gid b now d = Inr d'"
  shows "same_core d d'" and "same_sessions d d'"
  using assms by (auto elim!: begin_invocation_observation_Inr dest: insert_observation_row_frame)

lemma core_inv_arm_session:
  assumes "core_inv d" and "arm_session_invocation now a iid b sref gid inp d = Inr (x, d')"
  shows "core_inv d'"
  using assms(2)
proof (rule arm_session_invocation_Inr)
  fix row inv d1 d2
  assume arm: "arm_invocation_transaction a iid inp now d = Inr (inv, d1)"
    and act: "activate_binding_turn a iid b now d1 = Inr d2"
    and obs: "begin_invocation_observation a iid gid b now d2 = Inr d'"
  have "core_inv d1" using assms(1) arm by (rule core_inv_arm)
  then show ?thesis
    using same_core_trans [OF activate_binding_turn_core [OF act] begin_invocation_observation_core(1) [OF obs]]
    by (rule core_inv_same)
qed

lemma complete_session_invocation_Inr:
  assumes "complete_session_invocation uuid msg_now now a iid b p inp d = Inr ((c, created), d')"
  obtains d1 where "validate_bound_turn a iid b True d = Inr ()"
    and "complete_invocation_transaction uuid msg_now a iid inp now True d = Inr ((c, created), d1)"
    and "settle_quiescent_turn a iid b p now d1 = Inr d'"
  using assms by (auto simp: complete_session_invocation_def and_then_eq_Inr)

lemma core_inv_complete_session:
  assumes "core_inv d"
    and "complete_session_invocation uuid msg_now now a iid b p inp d = Inr ((c, created), d')"
  shows "core_inv d'"
  using assms(2)
proof (rule complete_session_invocation_Inr)
  fix d1
  assume "complete_invocation_transaction uuid msg_now a iid inp now True d = Inr ((c, created), d1)"
    and settle: "settle_quiescent_turn a iid b p now d1 = Inr d'"
  then have "core_inv d1" using core_inv_complete [OF assms(1)] by blast
  then show ?thesis using settle_quiescent_turn_core [OF settle] by (rule core_inv_same)
qed

end
