(* ===== verification/History.thy ===== *)
theory History
  imports Session_Turns
begin

text \<open>
  What no operation takes back.  \<open>history d d'\<close> relates the store before and after an operation:
  agents and messages are only appended, memberships and channels stay and only their read cursor,
  name and archive time move, attempts only grow, an acknowledged or dead delivery and a terminal
  invocation never change again, a block record is resolved at most once, and the moment an
  invocation was armed is never erased.
\<close>

section \<open>The relation\<close>

definition invocation_kept :: "invocation_row \<Rightarrow> invocation_row \<Rightarrow> bool" where
  "invocation_kept i j \<longleftrightarrow>
     same_identity i j \<and> (i_state i = Terminal \<longrightarrow> j = i)
     \<and> (i_dispatch_armed_at_ms i \<noteq> None \<longrightarrow> i_dispatch_armed_at_ms j = i_dispatch_armed_at_ms i)
     \<and> (i_state i = DispatchArmed \<longrightarrow> i_state j \<noteq> Reserved)"

definition channel_kept :: "channels_row \<Rightarrow> channels_row \<Rightarrow> bool" where
  "channel_kept c c' \<longleftrightarrow>
     c_id c' = c_id c \<and> c_metadata c' = c_metadata c \<and> c_created_at_ms c' = c_created_at_ms c
     \<and> c_kind c' = c_kind c \<and> c_direct_pair_key c' = c_direct_pair_key c
     \<and> (c_kind c = Direct \<or> c_archived_at_ms c \<noteq> None \<longrightarrow> c' = c)"

definition member_kept :: "member_row \<Rightarrow> member_row \<Rightarrow> bool" where
  "member_kept m m' \<longleftrightarrow>
     m' = m\<lparr>cm_read_through_seq := cm_read_through_seq m'\<rparr>
     \<and> cm_read_through_seq m \<le> cm_read_through_seq m'"

definition directory_kept :: "db \<Rightarrow> db \<Rightarrow> bool" where
  "directory_kept d d' \<longleftrightarrow>
     (\<exists>as. agents d' = agents d @ as)
     \<and> rows_kept channel_kept (channels d) (channels d')
     \<and> rows_kept member_kept (channel_members d) (channel_members d')"

definition history :: "db \<Rightarrow> db \<Rightarrow> bool" where
  "history d d' \<longleftrightarrow>
     directory_kept d d' \<and> evolves d d'
     \<and> rows_kept invocation_kept (invocations d) (invocations d')"

lemma row_kept_refl [simp]: "invocation_kept i i" "channel_kept c c" "member_kept m m"
  by (simp_all add: invocation_kept_def channel_kept_def member_kept_def)

lemma invocation_kept_trans: "invocation_kept i j \<Longrightarrow> invocation_kept j k \<Longrightarrow> invocation_kept i k"
  by (cases "i_state i"; cases "i_state j")
    (auto simp: invocation_kept_def intro: same_identity_trans)

lemma channel_kept_trans: "channel_kept a b \<Longrightarrow> channel_kept b c \<Longrightarrow> channel_kept a c"
  by (auto simp: channel_kept_def)

lemma member_kept_trans: "member_kept a b \<Longrightarrow> member_kept b c \<Longrightarrow> member_kept a c"
  unfolding member_kept_def by (cases a; cases b; cases c) auto

lemma member_keptD:
  "member_kept m m' \<Longrightarrow> cm_channel_id m' = cm_channel_id m \<and> cm_agent_id m' = cm_agent_id m
    \<and> cm_read_through_seq m \<le> cm_read_through_seq m'"
  by (cases m; cases m') (simp add: member_kept_def)

lemma invocations_kept_trans:
  "rows_kept invocation_kept a b \<Longrightarrow> rows_kept invocation_kept b c \<Longrightarrow> rows_kept invocation_kept a c"
  unfolding rows_kept_def by (meson invocation_kept_trans)

lemma channels_kept_trans:
  "rows_kept channel_kept a b \<Longrightarrow> rows_kept channel_kept b c \<Longrightarrow> rows_kept channel_kept a c"
  unfolding rows_kept_def by (meson channel_kept_trans)

lemma members_kept_trans:
  "rows_kept member_kept a b \<Longrightarrow> rows_kept member_kept b c \<Longrightarrow> rows_kept member_kept a c"
  unfolding rows_kept_def by (meson member_kept_trans)

lemma rows_kept_simps [simp]:
  "rows_kept invocation_kept is is" "rows_kept channel_kept cs cs" "rows_kept member_kept ms ms"
  "rows_kept invocation_kept is (is @ is')" "rows_kept channel_kept cs (cs @ cs')"
  "rows_kept member_kept ms (ms @ ms')"
  by (simp_all add: rows_kept_refl rows_kept_append)

lemma directory_kept_refl [simp]: "directory_kept d d"
  by (simp add: directory_kept_def)

lemma directory_kept_trans:
  assumes "directory_kept d d'" and "directory_kept d' d''"
  shows "directory_kept d d''"
proof -
  obtain as bs where "agents d' = agents d @ as" "agents d'' = agents d' @ bs"
    using assms by (auto simp: directory_kept_def)
  then have "agents d'' = agents d @ (as @ bs)" by simp
  then show ?thesis
    using assms channels_kept_trans members_kept_trans unfolding directory_kept_def by blast
qed

lemma history_refl: "history d d"
  by (simp add: history_def)

lemma history_trans:
  assumes "history d d'" and "history d' d''"
  shows "history d d''"
  using assms directory_kept_trans [of d d' d''] evolves_trans [of d d' d'']
    invocations_kept_trans [of "invocations d" "invocations d'" "invocations d''"]
  by (simp add: history_def)

text \<open>An operation outside the tables of the core, and one on the directory only.\<close>

lemma history_same_core: "same_core d d' \<Longrightarrow> history d d'"
  unfolding same_core_def history_def directory_kept_def evolves_def delivery_at_def
  by (auto intro: block_kept_in)

text \<open>The tables that the directory operations leave alone.\<close>

definition same_traffic :: "db \<Rightarrow> db \<Rightarrow> bool" where
  "same_traffic d d' \<longleftrightarrow>
     messages d' = messages d \<and> messages_sequence d' = messages_sequence d
     \<and> agent_deliveries d' = agent_deliveries d \<and> delivery_blocks d' = delivery_blocks d
     \<and> delivery_blocks_sequence d' = delivery_blocks_sequence d \<and> invocations d' = invocations d
     \<and> session_bindings d' = session_bindings d \<and> session_binding_turns d' = session_binding_turns d
     \<and> plugin_generations d' = plugin_generations d
     \<and> invocation_observations d' = invocation_observations d"

definition same_directory :: "db \<Rightarrow> db \<Rightarrow> bool" where
  "same_directory d d' \<longleftrightarrow>
     agents d' = agents d \<and> channels d' = channels d \<and> channel_members d' = channel_members d"

lemma history_directory: "same_traffic d d' \<Longrightarrow> directory_kept d d' \<Longrightarrow> history d d'"
  unfolding same_traffic_def history_def evolves_def delivery_at_def
  by (auto intro: block_kept_in)

lemma history_traffic:
  "same_directory d d' \<Longrightarrow> evolves d d' \<Longrightarrow> rows_kept invocation_kept (invocations d) (invocations d')
    \<Longrightarrow> history d d'"
  by (simp add: history_def same_directory_def directory_kept_def)

lemma core_inv_directory:
  assumes core: "core_inv d" and "same_traffic d d'" and "channels_inv d'" and kept: "directory_kept d d'"
  shows "core_inv d'"
proof -
  have t: "messages d' = messages d" "messages_sequence d' = messages_sequence d"
    "agent_deliveries d' = agent_deliveries d" "delivery_blocks d' = delivery_blocks d"
    "delivery_blocks_sequence d' = delivery_blocks_sequence d" "invocations d' = invocations d"
    using assms(2) by (simp_all add: same_traffic_def)
  have "invocation_ok d' i = invocation_ok d i" for i
    by (simp add: invocation_ok_def result_ok_def answers_def fence_ok_def outcome_ok_def t delivery_at_def)
  then have "invocations_inv d'" using core by (simp add: core_inv_def invocations_inv_def t)
  moreover have "deliveries_inv d'"
    using core_invD(3) [OF core] by (rule deliveries_inv_cong) (use kept in \<open>auto simp: t directory_kept_def\<close>)
  moreover have "blocks_inv d'"
    using core_invD(4) [OF core] by (rule blocks_inv_cong) (simp_all add: t)
  moreover have "messages_inv d'" using core_invD(2) [OF core] messages_inv_cong [of d' d] t by simp
  ultimately show ?thesis using assms(3) by (simp add: core_inv_def)
qed

section \<open>Directory operations\<close>

lemma insert_initial_members_frame:
  assumes "insert_channel_row row d = Inr d1" and "insert_initial_members cid now ms d1 = Inr d'"
  shows "same_traffic d d'" and "directory_kept d d'"
  using insert_channel_row_effect [OF assms(1)] insert_initial_members_effect [OF assms(2)]
  by (auto simp: same_traffic_def directory_kept_def)

lemma create_agent_frame:
  assumes "create_agent uuid now inp d = Inr (x, d')"
  shows "same_traffic d d'" and "directory_kept d d'"
  using assms
  by (auto simp: create_agent_def insert_agent_row_def result_simps Let_def same_traffic_def
      directory_kept_def split: if_splits)

lemma create_channel_frame:
  assumes "create_channel uuid now inp d = Inr (x, d')"
  shows "same_traffic d d'" and "directory_kept d d'"
  using create_channel_unfold [OF assms]
  by (auto elim!: create_channel_with_members_effect dest: insert_initial_members_frame)

lemma rename_channel_frame:
  assumes "rename_channel cid name d = Inr (x, d')" and "channels_inv d"
  shows "same_traffic d d'" and "directory_kept d d'"
proof -
  obtain row where row: "row \<in> set (channels d)" "c_id row = cid" "c_kind row = Shared"
      "c_archived_at_ms row = None"
    and d': "d' = d\<lparr>channels := update_where (\<lambda>r. c_id r = cid) (\<lambda>r. r\<lparr>c_name := name\<rparr>) (channels d)\<rparr>"
    using assms(1) by (auto simp: rename_channel_def result_simps require_mutable_shared_channel_def
        dest!: find_in split: if_splits)
  have "unique_on c_id (channels d)" using assms(2) by (simp add: channels_inv_def directory_inv_def)
  then have same: "r = row" if "r \<in> set (channels d)" "c_id r = cid" for r
    using that row(1,2) by (simp add: unique_onD)
  have "channel_kept r (r\<lparr>c_name := name\<rparr>)" if "r \<in> set (channels d)" "c_id r = cid" for r
    unfolding same [OF that] using row by (simp add: channel_kept_def)
  then have "rows_kept channel_kept (channels d) (channels d')"
    unfolding d' by (simp add: rows_kept_update)
  then show "same_traffic d d'" "directory_kept d d'" by (simp_all add: d' same_traffic_def directory_kept_def)
qed

lemma archive_channel_frame:
  assumes "archive_channel now cid d = Inr (x, d')" and "channels_inv d"
  shows "same_traffic d d'" and "directory_kept d d'"
proof -
  obtain row where row: "row \<in> set (channels d)" "c_id row = cid" "c_kind row = Shared"
    and d': "d' = d \<or> c_archived_at_ms row = None
      \<and> d' = d\<lparr>channels := update_where (\<lambda>r. c_id r = cid) (\<lambda>r. r\<lparr>c_archived_at_ms := Some now\<rparr>) (channels d)\<rparr>"
    using assms(1) by (auto simp: archive_channel_def result_simps dest!: find_in split: if_splits)
  have "unique_on c_id (channels d)" using assms(2) by (simp add: channels_inv_def directory_inv_def)
  then have same: "r = row" if "r \<in> set (channels d)" "c_id r = cid" for r
    using that row(1,2) by (simp add: unique_onD)
  have "channel_kept r (r\<lparr>c_archived_at_ms := Some now\<rparr>)"
    if "c_archived_at_ms row = None" "r \<in> set (channels d)" "c_id r = cid" for r
    unfolding same [OF that(2,3)] using row that(1) by (simp add: channel_kept_def)
  then have "rows_kept channel_kept (channels d) (channels d')"
    using d' by (elim disjE) (simp_all add: rows_kept_update)
  then show "same_traffic d d'" "directory_kept d d'"
    using d' by (auto simp: same_traffic_def directory_kept_def)
qed

lemma open_direct_pair_frame:
  assumes "open_direct_pair uuid name_uuid now ms d = Inr (x, d')"
  shows "same_traffic d d'" and "directory_kept d d'"
proof -
  have "d' = d \<or> (\<exists>row d1 ms'. insert_channel_row row d = Inr d1
      \<and> insert_initial_members uuid now ms' d1 = Inr d')"
    using assms
    by (auto simp: open_direct_pair_def open_direct_in_transaction_def insert_direct_pair_def
        and_then_eq_Inr Let_def split: option.splits)
  then show "same_traffic d d'" "directory_kept d d'"
    using insert_initial_members_frame by (auto simp: same_traffic_def)
qed

lemma add_member_frame:
  assumes "add_member_with_mode now cid aid mode d = Inr (u, d')"
  shows "same_traffic d d'" and "directory_kept d d'"
proof -
  have "d' = d \<or> (\<exists>row. insert_member_row row d = Inr d')"
    using assms by (rule add_member_with_mode_effect) blast+
  then show "same_traffic d d'" "directory_kept d d'"
    by (auto dest!: insert_member_row_effect simp: same_traffic_def directory_kept_def)
qed

lemma advance_cursor_frame:
  assumes "advance_member_read_cursor cid aid seq d = Inr (v, d')"
  shows "same_traffic d d'" and "directory_kept d d'"
proof -
  note d' = advance_member_read_cursor_effect(3) [OF assms]
  have "rows_kept member_kept (channel_members d) (channel_members d')"
    unfolding d' by (auto simp: member_kept_def intro!: rows_kept_update)
  then show "same_traffic d d'" "directory_kept d d'" by (simp_all add: d' same_traffic_def directory_kept_def)
qed

section \<open>Messages, deliveries and invocations\<close>

lemma invocation_rows_kept [simp]:
  "i_state i \<noteq> Terminal \<Longrightarrow> invocation_kept i (terminal_row now c reason i)"
  "i_state i \<noteq> Terminal \<Longrightarrow> invocation_kept i (parked_row now i)"
  "i_state i = DispatchArmed \<Longrightarrow> invocation_kept i (completed_row now seq i)"
  by (auto simp: invocation_kept_def parked_row_def terminal_row_def completed_row_def same_identity_def)

lemma history_append:
  assumes "append_message_in_transaction uuid now cid inp d = Inr (r, d')"
  shows "history d d'"
  using assms
proof (cases rule: append_message_cases)
  case (created m)
  then show ?thesis
    using insert_message_store [OF created(1)] insert_message_evolves [OF created(1)]
    by (auto intro!: history_traffic simp: same_directory_def)
qed (simp add: history_refl)

lemma history_arm:
  assumes "core_inv d" and "arm_invocation_transaction a iid inp now d = Inr (x, d')"
  shows "history d d'"
proof -
  have "invocation_kept i (armed_row now i)" if "i \<in> set (invocations d)" "i_state i = Reserved" for i
    using reserved_not_armed [OF invocation_okD [OF core_invD(5) [OF assms(1)] that(1)] that(2)] that(2)
    by (simp add: invocation_kept_def armed_row_def same_identity_def)
  then have "rows_kept invocation_kept (invocations d) (update_where
      (\<lambda>i. i_id i = iid \<and> i_agent_id i = a \<and> i_state i = Reserved) (armed_row now) (invocations d))"
    by (intro rows_kept_update) auto
  then show ?thesis
    using arm_invocation_effect [OF assms(2)] history_refl
    by (auto simp: same_directory_def evolves_def delivery_at_def intro!: history_traffic block_kept_in)
qed

lemma history_complete:
  assumes core: "core_inv d"
    and ok: "complete_invocation_transaction uuid msg_now a iid inp now allow d = Inr ((c, created), d')"
  shows "history d d'"
  using ok
proof (cases rule: complete_cases)
  case (completed i r m result d1 d2)
  have "evolves d1 d2" by (rule acknowledge.settled_evolves [OF completed(7)])
  then have "evolves d d2" using insert_message_evolves [OF completed(6)] by (blast intro: evolves_trans)
  then have ev: "evolves d d'" by (simp add: completed(8) evolves_def delivery_at_def)
  have frame: "invocations d2 = invocations d" "same_directory d d'"
    using insert_message_store [OF completed(6)] completed(7,8)
    by (auto simp: leased_row_update_def same_directory_def)
  have "rows_kept invocation_kept (invocations d) (invocations d')"
    unfolding completed(8) by (simp add: frame) (auto intro!: rows_kept_update)
  with frame(2) ev show ?thesis by (intro history_traffic)
qed (simp add: history_refl)

context settlement
begin

lemma settled_history:
  assumes "leased_row_update lr set_row d = (moved, d1)"
  shows "history d d1"
proof -
  have "same_directory d d1" "invocations d1 = invocations d"
    using assms by (auto simp: leased_row_update_def same_directory_def)
  then show ?thesis using settled_evolves [OF assms] by (auto intro!: history_traffic)
qed

end

lemma history_terminalize:
  assumes "terminalize_invocation a mid token c reason now d = Inr d'"
  shows "history d d'"
  unfolding terminalize_invocation_Inr [OF assms]
  by (rule history_traffic)
    (auto simp: same_directory_def evolves_def delivery_at_def terminalize_predicate_def
      intro!: rows_kept_update block_kept_in)

lemma history_insert_block: "insert_block_row mk d = Inr (n, d') \<Longrightarrow> history d d'"
  using insert_block_evolves [of mk d n d']
  by (auto dest!: insert_block_row_effect intro!: history_traffic simp: same_directory_def)

lemma history_terminalize_expired:
  assumes "terminalize_expired_reservations a now d = (n, d')"
  shows "history d d'"
proof -
  have d': "d' = snd (terminalize_expired_reservations a now d)" using assms by simp
  show ?thesis
    unfolding d' terminalize_expired_reservations_def Let_def snd_conv
    by (rule history_traffic)
      (auto simp: same_directory_def evolves_def delivery_at_def intro!: rows_kept_update block_kept_in)
qed

lemma history_park:
  assumes "park_expired_armed_invocation a now (i, r) d = Inr d'"
  shows "history d d'"
  using assms
proof (rule park_effect)
  fix reason d1 d2 n k
  let ?P = "\<lambda>j. i_id j = i_id i \<and> i_state j = DispatchArmed"
  assume upd: "leased_row_update \<lparr>lr_key = Seq (i_message_seq i), lr_agent_id = a,
      lr_lease_token = i_lease_token i, lr_window = Expired, lr_now = now\<rparr>
      (blocked_row (i_lease_token i) reason) d = (True, d1)"
    and ins: "insert_block_row (new_block_row (i_message_seq i) a (d_attempt r) (i_lease_token i)
      reason now) d1 = Inr (n, d2)"
    and same: "same_core (d2\<lparr>invocations := update_where ?P (parked_row now) (invocations d2)\<rparr>) d'"
  have "history d2 (d2\<lparr>invocations := update_where ?P (parked_row now) (invocations d2)\<rparr>)"
    by (rule history_traffic)
      (auto simp: same_directory_def evolves_def delivery_at_def intro!: rows_kept_update block_kept_in)
  then show ?thesis
    using block.settled_history [OF upd] history_insert_block [OF ins] history_same_core [OF same]
    by (blast intro: history_trans)
qed

lemma history_recover:
  assumes "recover_expired_invocations_transaction a now d = Inr (n, d')"
  shows "history d d'"
proof -
  obtain n1 d1 where res: "terminalize_expired_reservations a now d = (n1, d1)" by fastforce
  have "try_fold (\<lambda>row (n, d). and_then (park_expired_armed_invocation a now row d) (\<lambda>d.
      Inr (saturating_add_u64 n 1, d))) (expired_armed a now d1) (n1, d1) = Inr (n, d')"
    using assms by (simp add: recover_expired_invocations_transaction_def res)
  then have "(\<lambda>(n, e). history d e) (n, d')"
  proof (rule try_fold_invariant)
    fix row s t
    assume step: "(case s of (n, d) \<Rightarrow> and_then (park_expired_armed_invocation a now row d)
        (\<lambda>d. Inr (saturating_add_u64 n 1, d))) = Inr t" and s: "(\<lambda>(n, e). history d e) s"
    obtain i r m e where "row = (i, r)" "s = (m, e)" by (metis surj_pair)
    with step s show "(\<lambda>(n, e). history d e) t"
      by (auto simp: and_then_eq_Inr dest: history_park intro: history_trans)
  qed (simp add: history_terminalize_expired [OF res])
  then show ?thesis by simp
qed

lemma history_recover_agents:
  assumes "recover_agents as now d = Inr (n, d')"
  shows "history d d'"
proof -
  have "(\<lambda>(n, e). history d e) (n, d')"
    using assms unfolding recover_agents_def
    by (rule try_fold_invariant)
      (auto simp: and_then_eq_Inr history_refl intro: history_trans [OF _ history_recover])
  then show ?thesis by simp
qed

lemma history_lease:
  assumes "deliveries_inv d"
  shows "history d (lease_claimable a token expires now limit kinds d)"
  using lease_evolves [OF assms]
  by (rule history_traffic [rotated]) (simp_all add: lease_claimable_def Let_def same_directory_def)

lemma history_claim:
  assumes core: "core_inv d" and ok: "claim_deliveries token now a inp d = Inr (batch, d')"
  shows "history d d'"
  using ok
proof (rule claim_deliveries_Inr)
  fix n d1
  assume rec: "recover_expired_invocations_transaction a now d = Inr (n, d1)"
    and d': "d' = lease_claimable a token (batch_lease_expires_at_ms batch) now (claim_limit inp) None d1"
  have "history d1 d'"
    unfolding d' using core_invD(3) [OF recover_core_inv(1) [OF core rec]] by (rule history_lease)
  then show ?thesis using history_recover [OF rec] by (blast intro: history_trans)
qed

lemma history_reserve_row:
  assumes "reserve_row uuid fence row a token expires now d = Inr (x, d')"
  shows "history d d'"
proof -
  obtain i where "insert_invocation_row i d = Inr d'"
    using assms by (auto simp: reserve_row_def Let_def and_then_eq_Inr split: prod.splits)
  then have "d' = d\<lparr>invocations := invocations d @ [i]\<rparr>" by (auto dest: insert_invocation_row_effect)
  then show ?thesis
    by (auto intro!: history_traffic block_kept_in simp: same_directory_def evolves_def delivery_at_def)
qed

lemma history_reserve:
  assumes core: "core_inv d"
    and ok: "reserve_invocations_filtered token uuids fences now a inp kinds d = Inr (xs, d')"
  shows "history d d'"
proof -
  obtain n d1 expires where rec: "recover_expired_invocations_transaction a now d = Inr (n, d1)"
    and res: "reserve_rows uuids fences
      (leased_rows a token (lease_claimable a token expires now (claim_limit inp) kinds d1))
      a token expires now (lease_claimable a token expires now (claim_limit inp) kinds d1) = Inr (xs, d')"
    using ok by (auto simp: reserve_invocations_filtered_def and_then_eq_Inr Let_def)
  let ?d = "lease_claimable a token expires now (claim_limit inp) kinds d1"
  have "history d1 ?d" using core_invD(3) [OF recover_core_inv(1) [OF core rec]] by (rule history_lease)
  then have start: "history d ?d" using history_recover [OF rec] by (blast intro: history_trans)
  have "(\<lambda>(xs, e). history d e) (xs, d')"
    using res unfolding reserve_rows_def
    by (rule try_fold_invariant)
      (auto simp: and_then_eq_Inr start intro: history_trans [OF _ history_reserve_row])
  then show ?thesis by simp
qed

lemma history_acknowledge:
  assumes "acknowledge_delivery now a mid token d = Inr (u, d')"
  shows "history d d'"
proof -
  obtain moved d1 where upd: "mark_acknowledged a mid token now d = (moved, d1)" by fastforce
  have "d' = d \<or> terminalize_invocation a mid token OutcomeKnown ''acknowledged'' now d1 = Inr d'"
    using assms by (auto simp: acknowledge_delivery_def upd and_then_eq_Inr split: if_splits)
  moreover have "history d d1"
    using acknowledge.settled_history upd unfolding mark_acknowledged_def by blast
  ultimately show ?thesis using history_terminalize history_refl by (blast intro: history_trans)
qed

lemma history_retry:
  assumes "retry_delivery now a mid inp d = Inr (u, d')"
  shows "history d d'"
proof -
  obtain at where body: "(let (moved, d1) = mark_retry a mid inp at now d in
     if moved then and_then (terminalize_invocation a mid (retry_lease_token inp) NotStarted ''retry'' now d1)
       (\<lambda>d. Inr ((), d))
     else and_then (settle_miss a mid (retry_lease_token inp) ''retry'' d) (\<lambda>_. Inr ((), d))) = Inr (u, d')"
    using assms unfolding retry_delivery_def and_then_eq_Inr by auto
  obtain moved d1 where upd: "mark_retry a mid inp at now d = (moved, d1)" by fastforce
  have "d' = d \<or> terminalize_invocation a mid (retry_lease_token inp) NotStarted ''retry'' now d1 = Inr d'"
    using body by (auto simp: upd and_then_eq_Inr split: if_splits)
  moreover have "history d d1"
    using retry.settled_history upd unfolding mark_retry_def by blast
  ultimately show ?thesis using history_terminalize history_refl by (blast intro: history_trans)
qed

lemma history_block:
  assumes "core_inv d" and "block_delivery now a mid inp d = Inr ((x, created), d')"
  shows "history d d'"
  using assms
proof (cases rule: block_delivery_cases)
  case (blocked d1 d2 n)
  from blocked(2) have "history d1 d2" by (rule insert_block_record_Inr) (rule history_insert_block)
  then show ?thesis
    using block.settled_history [OF blocked(1)] history_terminalize [OF blocked(3)]
    by (blast intro: history_trans)
qed (simp add: history_refl)

lemma history_resolve_transaction:
  assumes core: "core_inv d" and ok: "resolve_delivery_block_transaction bid inp now d = Inr d'"
  shows "history d d'"
proof -
  have "same_directory d d' \<and> invocations d' = invocations d"
    using core_invD(3,4) [OF core] ok
    by (cases rule: resolve_block_cases) (auto simp: same_directory_def)
  then show ?thesis
    using resolve_block_evolves [OF core_invD(3,4) [OF core] ok] by (auto intro!: history_traffic)
qed

lemma history_resolve:
  assumes "core_inv d" and "resolve_delivery_block now bid inp d = Inr (u, d')"
  shows "history d d'"
proof -
  obtain d1 y where "resolve_delivery_block_transaction bid inp now d = Inr d1"
    "retire_uncertain_session_for_delivery_block bid (resolve_resolution inp) now d1 = Inr (y, d')"
    using assms(2) by (auto simp: resolve_delivery_block_def and_then_eq_Inr)
  then show ?thesis
    using history_resolve_transaction [OF assms(1)] history_same_core [OF retire_uncertain_core]
    by (blast intro: history_trans)
qed

lemma history_arm_session:
  assumes "core_inv d" and "arm_session_invocation now a iid b sref gid inp d = Inr (x, d')"
  shows "history d d'"
  using assms(2)
proof (rule arm_session_invocation_Inr)
  fix row inv d1 d2
  assume arm: "arm_invocation_transaction a iid inp now d = Inr (inv, d1)"
    and act: "activate_binding_turn a iid b now d1 = Inr d2"
    and obs: "begin_invocation_observation a iid gid b now d2 = Inr d'"
  then show ?thesis
    using history_arm [OF assms(1) arm] activate_binding_turn_core [OF act] begin_invocation_observation_core(1) [OF obs]
    by (blast intro: history_trans history_same_core)
qed

lemma history_complete_session:
  assumes "core_inv d"
    and "complete_session_invocation uuid msg_now now a iid b p inp d = Inr ((c, created), d')"
  shows "history d d'"
  using assms(2)
  by (rule complete_session_invocation_Inr)
    (blast intro: history_trans history_complete [OF assms(1)] history_same_core settle_quiescent_turn_core)

end
