(* ===== verification/Fleet.thy ===== *)
theory Fleet
  imports History
begin

text \<open>
  The fleet as a transition system: one step is one committed transaction of one operation, with
  whatever arguments, clock and identifiers it was given.  A failed operation rolls back and is no
  step.  Only the lease token of a reservation is constrained: it is a random UUID, and no delivery
  is leased under it yet.
\<close>

section \<open>Steps\<close>

inductive fleet_step :: "db \<Rightarrow> db \<Rightarrow> bool" where
  agent_created: "create_agent uuid now ca d = Inr (ag, d') \<Longrightarrow> fleet_step d d'"
| channel_created: "create_channel uuid now cc d = Inr (ch, d') \<Longrightarrow> fleet_step d d'"
| channel_renamed: "rename_channel cid name d = Inr (ch, d') \<Longrightarrow> fleet_step d d'"
| channel_archived: "archive_channel now cid d = Inr (ch, d') \<Longrightarrow> fleet_step d d'"
| direct_opened: "open_direct_pair uuid name_uuid now ms d = Inr (opened, d') \<Longrightarrow> fleet_step d d'"
| member_added: "add_member_with_mode now cid aid mode d = Inr (u, d') \<Longrightarrow> fleet_step d d'"
| cursor_advanced: "advance_member_read_cursor cid aid seq d = Inr (v, d') \<Longrightarrow> fleet_step d d'"
| message_appended: "append_message_idempotent uuid now cid cm d = Inr (r, d') \<Longrightarrow> fleet_step d d'"
| deliveries_claimed: "claim_deliveries token now aid cl d = Inr (batch, d') \<Longrightarrow> fleet_step d d'"
| delivery_acknowledged: "acknowledge_delivery now aid mid token d = Inr (u, d') \<Longrightarrow> fleet_step d d'"
| delivery_retried: "retry_delivery now aid mid rd d = Inr (u, d') \<Longrightarrow> fleet_step d d'"
| delivery_blocked: "block_delivery now aid mid bd d = Inr (b, d') \<Longrightarrow> fleet_step d d'"
| block_resolved: "resolve_delivery_block now bid rb d = Inr (u, d') \<Longrightarrow> fleet_step d d'"
| block_resolved_alone: "store_resolve_delivery_block now bid rb d = Inr (u, d') \<Longrightarrow> fleet_step d d'"
| invocations_reserved: "token_fresh token d \<Longrightarrow>
    reserve_invocations token uuids fences now aid cl d = Inr (invs, d') \<Longrightarrow> fleet_step d d'"
| kinds_reserved: "token_fresh token d \<Longrightarrow>
    reserve_invocations_by_kind token uuids fences now aid cl kinds d = Inr (invs, d') \<Longrightarrow> fleet_step d d'"
| invocation_armed: "arm_invocation now aid iid ai d = Inr (i, d') \<Longrightarrow> fleet_step d d'"
| invocation_completed: "complete_invocation uuid msg_now now aid iid ci d = Inr (c, d') \<Longrightarrow> fleet_step d d'"
| invocations_recovered: "recover_agents aids now d = Inr (n, d') \<Longrightarrow> fleet_step d d'"
| session_acquired: "acquire_session_binding uuid now aid asb d = Inr (acq, d') \<Longrightarrow> fleet_step d d'"
| session_opened: "record_session_opened now aid bnd sref d = Inr (s, d') \<Longrightarrow> fleet_step d d'"
| session_armed: "arm_session_invocation now aid iid bnd sref gid ai d = Inr (bi, d') \<Longrightarrow> fleet_step d d'"
| session_completed: "complete_session_invocation uuid msg_now now aid iid bnd p ci d = Inr (c, d') \<Longrightarrow>
    fleet_step d d'"
| session_uncertain: "mark_session_invocation_uncertain now aid iid bnd reason d = Inr (s, d') \<Longrightarrow>
    fleet_step d d'"
| session_retired: "retire_session_binding now aid bnd reason d = Inr (s, d') \<Longrightarrow> fleet_step d d'"
| generation_recorded: "record_plugin_generation ij now npg d = Inr (pg, d') \<Longrightarrow> fleet_step d d'"
| generation_heartbeat: "heartbeat_plugin_generation now gid d = Inr (u, d') \<Longrightarrow> fleet_step d d'"
| generation_stopped: "stop_plugin_generation now gid stop d = Inr (pg, d') \<Longrightarrow> fleet_step d d'"
| event_recorded: "record_invocation_event sha now gid iid n at cls raw d = Inr (u, d') \<Longrightarrow> fleet_step d d'"
| terminal_recorded: "record_invocation_terminal now gid t d = Inr (u, d') \<Longrightarrow> fleet_step d d'"

section \<open>Every step keeps the invariant and the history\<close>

lemma directory_step:
  assumes "core_inv d" and "same_traffic d d'" and "directory_kept d d'" and "channels_inv d'"
  shows "core_inv d' \<and> history d d'"
  using core_inv_directory [OF assms(1,2,4,3)] history_directory [OF assms(2,3)] ..

lemma session_step: "core_inv d \<Longrightarrow> same_core d d' \<Longrightarrow> core_inv d' \<and> history d d'"
  using core_inv_same history_same_core by blast

lemma reserve_step:
  assumes "core_inv d" and "token_fresh token d"
    and "reserve_invocations_filtered token uuids fences now aid cl kinds d = Inr (invs, d')"
  shows "core_inv d' \<and> history d d'"
  using core_inv_reserve [OF assms] history_reserve [OF assms(1,3)] ..

lemma fleet_step_core:
  assumes "fleet_step d d'" and core: "core_inv d"
  shows "core_inv d' \<and> history d d'"
  using assms(1)
proof (cases rule: fleet_step.cases)
  case agent_created
  then show ?thesis
    using directory_step [OF core create_agent_frame] channels_inv_create_agent core_invD(1) [OF core] by blast
next
  case channel_created
  then show ?thesis
    using directory_step [OF core create_channel_frame] channels_inv_create_channel core_invD(1) [OF core] by blast
next
  case channel_renamed
  then show ?thesis
    using directory_step [OF core rename_channel_frame] channels_inv_rename_channel core_invD(1) [OF core] by blast
next
  case channel_archived
  then show ?thesis
    using directory_step [OF core archive_channel_frame] channels_inv_archive_channel core_invD(1) [OF core] by blast
next
  case direct_opened
  then show ?thesis
    using directory_step [OF core open_direct_pair_frame] channels_inv_open_direct_pair core_invD(1) [OF core] by blast
next
  case member_added
  then show ?thesis
    using directory_step [OF core add_member_frame] channels_inv_add_member_with_mode core_invD(1) [OF core] by blast
next
  case cursor_advanced
  then show ?thesis
    using directory_step [OF core advance_cursor_frame] channels_inv_advance_member_read_cursor
      core_invD(1) [OF core] by blast
next
  case message_appended
  then show ?thesis
    using core_inv_append [OF core] history_append by (auto simp: append_message_idempotent_def)
next
  case deliveries_claimed
  then show ?thesis using core_inv_claim [OF core] history_claim [OF core] by blast
next
  case delivery_acknowledged
  then show ?thesis using core_inv_acknowledge [OF core] history_acknowledge by blast
next
  case delivery_retried
  then show ?thesis using core_inv_retry [OF core] history_retry by blast
next
  case (delivery_blocked now aid mid bd b)
  then show ?thesis using core_inv_block [OF core] history_block [OF core] by (cases b) blast
next
  case block_resolved
  then show ?thesis using core_inv_resolve [OF core] history_resolve [OF core] by blast
next
  case block_resolved_alone
  then show ?thesis
    using core_inv_resolve_transaction [OF core] history_resolve_transaction [OF core]
    by (auto simp: store_resolve_delivery_block_def and_then_eq_Inr)
next
  case invocations_reserved
  then show ?thesis using reserve_step [OF core] by (auto simp: reserve_invocations_def)
next
  case kinds_reserved
  then show ?thesis
    using reserve_step [OF core] by (auto simp: reserve_invocations_by_kind_def split: if_splits)
next
  case invocation_armed
  then show ?thesis using core_inv_arm [OF core] history_arm [OF core] by (auto simp: arm_invocation_def)
next
  case (invocation_completed uuid msg_now now aid iid ci c)
  then show ?thesis
    using core_inv_complete [OF core] history_complete [OF core]
    by (cases c) (auto simp: complete_invocation_def)
next
  case invocations_recovered
  then show ?thesis using core_inv_recover_agents [OF core] history_recover_agents by blast
next
  case session_armed
  then show ?thesis using core_inv_arm_session [OF core] history_arm_session [OF core] by blast
next
  case (session_completed uuid msg_now now aid iid bnd p ci c)
  obtain x created where "c = (x, created)" by fastforce
  with session_completed have "complete_session_invocation uuid msg_now now aid iid bnd p ci d
      = Inr ((x, created), d')" by simp
  from core_inv_complete_session [OF core this] history_complete_session [OF core this] show ?thesis ..
next
  case session_acquired
  from acquire_session_binding_core [OF this] show ?thesis by (rule session_step [OF core])
next
  case session_opened
  from record_session_opened_core [OF this] show ?thesis by (rule session_step [OF core])
next
  case session_uncertain
  from mark_session_invocation_uncertain_core [OF this] show ?thesis by (rule session_step [OF core])
next
  case session_retired
  from retire_session_binding_core [OF this] show ?thesis by (rule session_step [OF core])
next
  case generation_recorded
  from observation_ops_frame(1) [OF this] show ?thesis using session_step [OF core] by simp
next
  case generation_heartbeat
  from observation_ops_frame(2) [OF this] show ?thesis using session_step [OF core] by simp
next
  case generation_stopped
  from observation_ops_frame(3) [OF this] show ?thesis using session_step [OF core] by simp
next
  case event_recorded
  from record_invocation_event_frame [OF this] show ?thesis using session_step [OF core] by simp
next
  case terminal_recorded
  from record_invocation_terminal_frame [OF this] show ?thesis using session_step [OF core] by simp
qed

interpretation core: evolving_system empty_db fleet_step core_inv history
proof
  show "core_inv empty_db" by (rule core_inv_empty)
  show "core_inv d \<Longrightarrow> fleet_step d d' \<Longrightarrow> core_inv d'" for d d' using fleet_step_core by blast
  show "core_inv d \<Longrightarrow> fleet_step d d' \<Longrightarrow> history d d'" for d d' using fleet_step_core by blast
qed (rule history_refl, erule (1) history_trans)

abbreviation fleet_reachable :: "db \<Rightarrow> bool" where
  "fleet_reachable \<equiv> reachable empty_db fleet_step"

end
