(* ===== verification/Example.thy ===== *)
theory Example
  imports Fleet
begin

text \<open>
  One concrete run of the fleet, on which the witnesses evaluate the properties.  An operator and a
  worker share a channel; the operator sends a task; the worker reserves and arms it and vanishes;
  recovery blocks the delivery; the operator requeues it.  Every state is written out, and each
  transition is evaluated.
\<close>

section \<open>Inputs\<close>

definition ex_agent :: "string \<Rightarrow> create_agent_input" where
  "ex_agent name = \<lparr>new_agent_name = name, new_agent_metadata = ''{}''\<rparr>"

definition ex_channel :: create_channel_input where
  "ex_channel = \<lparr>new_channel_name = ''ops'', new_channel_metadata = ''{}'',
     new_channel_member_ids = [''o'', ''w''], new_channel_members = []\<rparr>"

definition ex_message :: create_message where
  "ex_message = \<lparr>new_sender_id = ''o'', new_idempotency_key = Some ''k'', new_recipient_id = None,
     new_kind = ''task'', new_payload = ''1'', new_correlation_id = None, new_causation_id = None\<rparr>"

definition ex_claim :: claim_deliveries_input where
  "ex_claim = \<lparr>claim_limit = 1, claim_lease_duration_ms = 2000\<rparr>"

definition ex_arm :: arm_invocation_input where
  "ex_arm = \<lparr>arm_lease_token = ''t'', arm_fence_token = ''f''\<rparr>"

definition ex_complete :: complete_invocation_input where
  "ex_complete = \<lparr>complete_lease_token = ''t'', complete_fence_token = ''f'', complete_kind = ''done'',
     complete_payload = ''2''\<rparr>"

definition ex_block :: block_delivery_input where
  "ex_block = \<lparr>block_lease_token = ''t'', block_reason = ''lost''\<rparr>"

definition ex_requeue :: resolve_block_input where
  "ex_requeue = \<lparr>resolve_resolution = Requeue, resolve_retry_after_ms = 0, resolve_note = None\<rparr>"

section \<open>States\<close>

definition ex_agents :: db where
  "ex_agents = empty_db\<lparr>agents :=
     [\<lparr>a_id = ''o'', a_name = ''operator'', a_metadata = ''{}'', a_created_at_ms = 1\<rparr>,
      \<lparr>a_id = ''w'', a_name = ''worker'', a_metadata = ''{}'', a_created_at_ms = 2\<rparr>]\<rparr>"

definition ex_member :: "string \<Rightarrow> member_row" where
  "ex_member a = \<lparr>cm_channel_id = ''c'', cm_agent_id = a, cm_joined_at_ms = 3,
     cm_delivery_mode = Inbox, cm_read_through_seq = 0\<rparr>"

definition ex_channels :: db where
  "ex_channels = ex_agents\<lparr>channels :=
     [\<lparr>c_id = ''c'', c_name = ''ops'', c_metadata = ''{}'', c_created_at_ms = 3, c_kind = Shared,
       c_direct_pair_key = None, c_archived_at_ms = None\<rparr>],
     channel_members := [ex_member ''o'', ex_member ''w'']\<rparr>"

definition ex_task :: message_row where
  "ex_task = \<lparr>m_seq = 1, m_id = ''m'', m_channel_id = ''c'', m_sender_id = ''o'',
     m_recipient_id = None, m_kind = ''task'', m_payload = ''1'', m_correlation_id = None,
     m_causation_id = None, m_created_at_ms = 5, m_idempotency_key = Some ''k''\<rparr>"

definition ex_delivery :: delivery_row where
  "ex_delivery = \<lparr>d_message_seq = 1, d_agent_id = ''w'', d_state = Pending, d_attempt = 0,
     d_available_at_ms = 5, d_lease_token = None, d_lease_expires_at_ms = None, d_last_error = None,
     d_last_settled_lease_token = None, d_last_settlement = None, d_acknowledged_at_ms = None,
     d_created_at_ms = 5\<rparr>"

definition ex_sent :: db where
  "ex_sent = ex_channels\<lparr>messages := [ex_task], messages_sequence := 1,
     agent_deliveries := [ex_delivery]\<rparr>"

definition ex_reservation :: invocation_row where
  "ex_reservation = \<lparr>i_id = ''i'', i_message_seq = 1, i_agent_id = ''w'', i_delivery_attempt = 1,
     i_lease_token = ''t'', i_lease_expires_at_ms = 2010, i_fence_token = ''f'', i_state = Reserved,
     i_reserved_at_ms = 10, i_dispatch_armed_at_ms = None, i_terminal_at_ms = None,
     i_execution_certainty = None, i_terminal_reason = None, i_result_message_seq = None\<rparr>"

definition ex_lease :: delivery_row where
  "ex_lease = ex_delivery\<lparr>d_state := Leased, d_attempt := 1, d_lease_token := Some ''t'',
     d_lease_expires_at_ms := Some 2010\<rparr>"

definition ex_claimed :: db where
  "ex_claimed = ex_sent\<lparr>agent_deliveries := [ex_lease]\<rparr>"

definition ex_reserved :: db where
  "ex_reserved = ex_claimed\<lparr>invocations := [ex_reservation]\<rparr>"

definition ex_attempt :: invocation_row where
  "ex_attempt = ex_reservation\<lparr>i_state := DispatchArmed, i_dispatch_armed_at_ms := Some 20\<rparr>"

definition ex_armed :: db where
  "ex_armed = ex_reserved\<lparr>invocations := [ex_attempt]\<rparr>"

definition ex_reason :: string where
  "ex_reason = ''invocation i lease expired after dispatch was armed''"

definition ex_parked_attempt :: invocation_row where
  "ex_parked_attempt = ex_attempt\<lparr>i_state := Terminal, i_terminal_at_ms := Some 3000,
     i_execution_certainty := Some OutcomeUnknown,
     i_terminal_reason := Some ''lease_expired_after_dispatch_armed''\<rparr>"

definition ex_block_row :: block_row where
  "ex_block_row = \<lparr>b_id = 1, b_message_seq = 1, b_agent_id = ''w'', b_attempt = 1,
     b_lease_token = ''t'', b_reason = ex_reason, b_blocked_at_ms = 3000, b_resolved_at_ms = None,
     b_resolution = None, b_resolution_note = None, b_retry_after_ms = None\<rparr>"

definition ex_parked :: db where
  "ex_parked = ex_armed\<lparr>agent_deliveries := [ex_delivery\<lparr>d_state := Blocked, d_attempt := 1,
       d_last_error := Some ex_reason, d_last_settled_lease_token := Some ''t'',
       d_last_settlement := Some ''blocked''\<rparr>],
     delivery_blocks := [ex_block_row], delivery_blocks_sequence := 1,
     invocations := [ex_parked_attempt]\<rparr>"

definition ex_requeued :: db where
  "ex_requeued = ex_parked\<lparr>agent_deliveries := [ex_delivery\<lparr>d_attempt := 1, d_available_at_ms := 4000,
       d_last_error := Some ex_reason\<rparr>],
     delivery_blocks := [ex_block_row\<lparr>b_resolved_at_ms := Some 4000, b_resolution := Some ''requeued'',
       b_retry_after_ms := Some 0\<rparr>]\<rparr>"

section \<open>The run\<close>

lemma ex_run:
  "committed (create_agent ''w'' 2 (ex_agent ''worker''))
     (committed (create_agent ''o'' 1 (ex_agent ''operator'')) empty_db) = ex_agents"
  "committed (create_channel ''c'' 3 ex_channel) ex_agents = ex_channels"
  "committed (append_message_idempotent ''m'' 5 ''c'' ex_message) ex_channels = ex_sent"
  "committed (claim_deliveries ''t'' 10 ''w'' ex_claim) ex_sent = ex_claimed"
  "committed (reserve_invocations ''t'' (\<lambda>_. ''i'') (\<lambda>_. ''f'') 10 ''w'' ex_claim) ex_sent = ex_reserved"
  "committed (arm_invocation 20 ''w'' ''i'' ex_arm) ex_reserved = ex_armed"
  "committed (recover_agents [''w''] 3000) ex_armed = ex_parked"
  "committed (resolve_delivery_block 4000 1 ex_requeue) ex_parked = ex_requeued"
  by code_simp+

lemma reachable_committed:
  assumes "fleet_reachable d" and "\<And>x d'. tx d = Inr (x, d') \<Longrightarrow> fleet_step d d'"
  shows "fleet_reachable (committed tx d)"
  using assms by (intro committed_invariant [of fleet_reachable]) (auto intro: reachable.step)

lemma ex_token_fresh: "token_fresh ''t'' ex_sent"
  by code_simp

lemma ex_reachable:
  "fleet_reachable ex_channels" "fleet_reachable ex_sent" "fleet_reachable ex_claimed"
  "fleet_reachable ex_reserved" "fleet_reachable ex_armed" "fleet_reachable ex_parked"
proof -
  have "fleet_reachable ex_agents"
    unfolding ex_run(1) [symmetric]
    by (intro reachable_committed) (auto intro: reachable.init fleet_step.agent_created)
  then show "fleet_reachable ex_channels"
    unfolding ex_run(2) [symmetric] by (intro reachable_committed) (auto intro: fleet_step.channel_created)
  then show sent: "fleet_reachable ex_sent"
    unfolding ex_run(3) [symmetric] by (intro reachable_committed) (auto intro: fleet_step.message_appended)
  then show "fleet_reachable ex_claimed"
    unfolding ex_run(4) [symmetric] by (intro reachable_committed) (auto intro: fleet_step.deliveries_claimed)
  from sent show "fleet_reachable ex_reserved"
    unfolding ex_run(5) [symmetric]
    by (intro reachable_committed) (auto intro: fleet_step.invocations_reserved ex_token_fresh)
  then show "fleet_reachable ex_armed"
    unfolding ex_run(6) [symmetric] by (intro reachable_committed) (auto intro: fleet_step.invocation_armed)
  then show "fleet_reachable ex_parked"
    unfolding ex_run(7) [symmetric] by (intro reachable_committed) (auto intro: fleet_step.invocations_recovered)
qed

text \<open>Two of the transitions, as steps.\<close>

lemma committed_step:
  assumes "committed tx d = d'" and "d' \<noteq> d" and "\<And>x e. tx d = Inr (x, e) \<Longrightarrow> fleet_step d e"
  shows "fleet_step d d'"
  using assms by (auto simp: committed_def split: sum.splits)

lemma ex_steps: "fleet_step ex_armed ex_parked" "fleet_step ex_parked ex_requeued"
proof -
  have "ex_parked \<noteq> ex_armed" "ex_requeued \<noteq> ex_parked" by code_simp+
  then show "fleet_step ex_armed ex_parked" "fleet_step ex_parked ex_requeued"
    using committed_step [OF ex_run(7)] committed_step [OF ex_run(8)]
    by (auto intro: fleet_step.invocations_recovered fleet_step.block_resolved)
qed

lemmas ex_core = core.reachable_inv [OF ex_reachable(1)] core.reachable_inv [OF ex_reachable(2)]
  core.reachable_inv [OF ex_reachable(3)] core.reachable_inv [OF ex_reachable(4)]
  core.reachable_inv [OF ex_reachable(5)] core.reachable_inv [OF ex_reachable(6)]

end
