(* ===== verification/Sessions.thy ===== *)
theory Sessions
  imports History
begin

text \<open>
  The contract of the session lanes.  A lane never has two live bindings; every write to a binding
  goes through the exact owner fence, keeps the identity of the row and never lowers its epoch; a
  retired binding never changes again.  A turn is active exactly while its binding is active on it,
  and its invocation is armed exactly then.

  The locale \<open>fenced_write\<close> states what one fenced update may do; \<open>idle_write\<close> extends it for the
  updates outside a turn, \<open>turn_write\<close> for those that end one.
\<close>

section \<open>The invariant of the bindings\<close>

definition binding_key :: "binding_row \<Rightarrow> string \<times> i64" where
  "binding_key s = (s_binding_id s, s_binding_generation s)"

definition lane :: "binding_row \<Rightarrow> string \<times> string \<times> string" where
  "lane s = (s_agent_id s, s_lane_policy s, s_lane_key s)"

definition binding_identity :: "binding_row \<Rightarrow> (string \<times> i64) \<times> (string \<times> string \<times> string) \<times> i64" where
  "binding_identity s = (binding_key s, lane s, s_created_at_ms s)"

definition turn_key :: "turn_row \<Rightarrow> string \<times> i64" where
  "turn_key t = (t_binding_id t, t_binding_generation t)"

definition bindings_inv :: "db \<Rightarrow> bool" where
  "bindings_inv d \<longleftrightarrow>
     unique_on binding_key (session_bindings d)
     \<and> unique_on (\<lambda>s. (lane s, s_binding_generation s)) (session_bindings d)
     \<and> (\<forall>s\<in>set (session_bindings d). binding_check s)
     \<and> (\<forall>s\<in>set (session_bindings d). \<forall>q\<in>set (session_bindings d).
          lane s = lane q \<and> s_state s \<noteq> Retired \<and> s_state q \<noteq> Retired \<longrightarrow> s = q)"

text \<open>What no operation takes back of a binding and of a turn.\<close>

definition binding_kept :: "binding_row \<Rightarrow> binding_row \<Rightarrow> bool" where
  "binding_kept s s' \<longleftrightarrow>
     binding_identity s' = binding_identity s \<and> s_owner_epoch s \<le> s_owner_epoch s'
     \<and> (s_state s = Retired \<longrightarrow> s' = s)"

definition turn_kept :: "turn_row \<Rightarrow> turn_row \<Rightarrow> bool" where
  "turn_kept t t' \<longleftrightarrow>
     t_invocation_id t' = t_invocation_id t \<and> turn_key t' = turn_key t
     \<and> t_owner_epoch t' = t_owner_epoch t \<and> (t_state t \<noteq> TurnActive \<longrightarrow> t' = t)"

lemma session_kept_refl [simp]: "binding_kept s s" "turn_kept t t"
  by (simp_all add: binding_kept_def turn_kept_def)

lemma binding_kept_trans: "binding_kept a b \<Longrightarrow> binding_kept b c \<Longrightarrow> binding_kept a c"
  by (auto simp: binding_kept_def)

lemma turn_kept_trans: "turn_kept a b \<Longrightarrow> turn_kept b c \<Longrightarrow> turn_kept a c"
  by (cases "t_state a = TurnActive") (auto simp: turn_kept_def)

definition session_history :: "db \<Rightarrow> db \<Rightarrow> bool" where
  "session_history d d' \<longleftrightarrow>
     rows_kept binding_kept (session_bindings d) (session_bindings d')
     \<and> rows_kept turn_kept (session_binding_turns d) (session_binding_turns d')"

lemma session_history_refl: "session_history d d"
  by (simp add: session_history_def rows_kept_refl)

lemma session_history_trans: "session_history d d' \<Longrightarrow> session_history d' d'' \<Longrightarrow> session_history d d''"
  unfolding session_history_def rows_kept_def by (meson binding_kept_trans turn_kept_trans)

section \<open>Fenced writes\<close>

locale fenced_write =
  fixes f :: owner_fence and state_ok :: "binding_row \<Rightarrow> bool" and set_row :: "binding_row \<Rightarrow> binding_row"
  assumes keeps_identity: "binding_identity (set_row s) = binding_identity s"
    and not_retired: "state_ok s \<Longrightarrow> s_state s \<noteq> Retired"
    and keeps_check: "fence_predicate f s \<Longrightarrow> state_ok s \<Longrightarrow> binding_check s \<Longrightarrow> binding_check (set_row s)"
    and epoch_grows: "fence_predicate f s \<Longrightarrow> s_owner_epoch s \<le> s_owner_epoch (set_row s)"
begin

lemma keeps_key: "binding_key (set_row s) = binding_key s" "lane (set_row s) = lane s"
    "s_binding_generation (set_row s) = s_binding_generation s" "s_agent_id (set_row s) = s_agent_id s"
  using keeps_identity [of s] by (simp_all add: binding_identity_def binding_key_def lane_def)

text \<open>A write addresses the one row of its fence.\<close>

lemma fenced_row:
  assumes "fenced_update f state_ok set_row msg d = Inr d'"
  obtains s where "s \<in> set (session_bindings d)" and "fence_predicate f s" and "state_ok s"
    and "d' = d\<lparr>session_bindings := update_where (\<lambda>s. fence_predicate f s \<and> state_ok s) set_row
      (session_bindings d)\<rparr>"
proof -
  have one: "rows_affected (\<lambda>s. fence_predicate f s \<and> state_ok s) (session_bindings d) = 1"
    and d': "d' = d\<lparr>session_bindings := update_where (\<lambda>s. fence_predicate f s \<and> state_ok s) set_row
      (session_bindings d)\<rparr>"
    using assms by (auto simp: fenced_update_def Let_def split: if_splits)
  from one obtain s where "s \<in> set (session_bindings d)" "fence_predicate f s \<and> state_ok s"
    using rows_affected_pos [of "\<lambda>s. fence_predicate f s \<and> state_ok s" "session_bindings d"] by auto
  with d' that show thesis by blast
qed

lemma stale_fence_refused:
  assumes "\<And>s. s \<in> set (session_bindings d) \<Longrightarrow> \<not> (fence_predicate f s \<and> state_ok s)"
  shows "fenced_update f state_ok set_row msg d = Inl (Conflict msg)"
  using assms rows_affected_zero [of "\<lambda>s. fence_predicate f s \<and> state_ok s" "session_bindings d"]
  by (simp add: fenced_update_def Let_def)

lemma written_bindings_inv:
  assumes inv: "bindings_inv d" and ok: "fenced_update f state_ok set_row msg d = Inr d'"
  shows "bindings_inv d'"
  using ok
proof (rule fenced_row)
  let ?P = "\<lambda>s. fence_predicate f s \<and> state_ok s"
  let ?g = "\<lambda>s. if ?P s then set_row s else s"
  assume d': "d' = d\<lparr>session_bindings := update_where ?P set_row (session_bindings d)\<rparr>"
  have excl: "s = q" if p: "s \<in> set (session_bindings d')" "q \<in> set (session_bindings d')" "lane s = lane q"
    "s_state s \<noteq> Retired" "s_state q \<noteq> Retired" for s q
  proof -
    obtain s0 q0 where rows: "s0 \<in> set (session_bindings d)" "s = ?g s0"
      "q0 \<in> set (session_bindings d)" "q = ?g q0"
      using p(1,2) by (auto simp: d' update_where_def)
    have "lane s0 = lane q0" "s_state s0 \<noteq> Retired" "s_state q0 \<noteq> Retired"
      using p(3-) not_retired by (auto simp: rows keeps_key split: if_splits)
    then have "s0 = q0" using inv rows by (simp add: bindings_inv_def)
    then show ?thesis by (simp add: rows)
  qed
  then show ?thesis
    using inv keeps_check unfolding bindings_inv_def
    by (auto simp: d' unique_on_update keeps_key ball_update_where)
qed

lemma written_history:
  assumes "fenced_update f state_ok set_row msg d = Inr d'"
  shows "session_history d d'"
  using assms
proof (rule fenced_row)
  assume "d' = d\<lparr>session_bindings := update_where (\<lambda>s. fence_predicate f s \<and> state_ok s) set_row
      (session_bindings d)\<rparr>"
  then show ?thesis
    using not_retired epoch_grows
    by (auto simp: session_history_def binding_kept_def keeps_identity
        intro!: rows_kept_refl rows_kept_update)
qed

end

section \<open>The turns\<close>

definition turn_links :: "db \<Rightarrow> bool" where
  "turn_links d \<longleftrightarrow>
     unique_on t_invocation_id (session_binding_turns d)
     \<and> (\<forall>t\<in>set (session_binding_turns d). turn_check t)
     \<and> (\<forall>t\<in>set (session_binding_turns d). t_state t = TurnActive \<longrightarrow>
          (\<exists>s\<in>set (session_bindings d). binding_key s = turn_key t \<and> s_state s = Active
             \<and> s_active_invocation_id s = Some (t_invocation_id t) \<and> s_owner_epoch s = t_owner_epoch t))
     \<and> (\<forall>s\<in>set (session_bindings d). s_state s = Active \<longrightarrow>
          (\<exists>t\<in>set (session_binding_turns d). s_active_invocation_id s = Some (t_invocation_id t)
             \<and> turn_key t = binding_key s \<and> t_state t = TurnActive \<and> t_owner_epoch t = s_owner_epoch s))
     \<and> (\<forall>s\<in>set (session_bindings d). s_state s = Uncertain \<longrightarrow>
          (\<exists>t\<in>set (session_binding_turns d). s_active_invocation_id s = Some (t_invocation_id t)
             \<and> turn_key t = binding_key s \<and> t_state t = TurnUncertain))"

text \<open>A write outside a turn: it neither takes a binding out of a turn nor puts it into one.\<close>

locale idle_write = fenced_write +
  assumes idle: "state_ok s \<Longrightarrow> s_state s \<noteq> Active"
    and stays_idle: "state_ok s \<Longrightarrow> s_state (set_row s) \<noteq> Active \<and> s_state (set_row s) \<noteq> Uncertain"
begin

lemma idle_turn_links:
  assumes links: "turn_links d" and ok: "fenced_update f state_ok set_row msg d = Inr d'"
  shows "turn_links d'"
  using ok
proof (rule fenced_row)
  let ?P = "\<lambda>s. fence_predicate f s \<and> state_ok s"
  assume d': "d' = d\<lparr>session_bindings := update_where ?P set_row (session_bindings d)\<rparr>"
  have kept: "s \<in> set (session_bindings d')" if "s \<in> set (session_bindings d)" "s_state s = Active" for s
    using that idle by (auto simp: d' intro!: update_whereI2)
  have old: "s \<in> set (session_bindings d)" if "s \<in> set (session_bindings d')"
    "s_state s = Active \<or> s_state s = Uncertain" for s
    using that stays_idle by (auto simp: d' in_update_where)
  show ?thesis
    using links kept old unfolding turn_links_def by (simp add: d') blast
qed

lemma idle_write_step:
  assumes "bindings_inv d" and "turn_links d" and "fenced_update f state_ok set_row msg d = Inr d'"
  shows "bindings_inv d' \<and> turn_links d' \<and> session_history d d'"
  using written_bindings_inv idle_turn_links written_history assms by blast

end

interpretation opened: idle_write f "\<lambda>s. s_state s = Opening" "opened_row r now" for f r now
  by unfold_locales
    (auto simp: opened_row_def binding_identity_def binding_key_def lane_def binding_check_def)

interpretation adopted: idle_write f "\<lambda>s. s_state s = Ready" "adopted_row (f_owner_epoch f + 1) owner now"
  for f owner now
  by unfold_locales
    (auto simp: adopted_row_def binding_identity_def binding_key_def lane_def binding_check_def
      fence_predicate_def)

interpretation rotated: idle_write f "\<lambda>s. s_state s = Opening \<or> s_state s = Ready" "retired_row reason now"
  for f reason now
  by unfold_locales
    (auto simp: retired_row_def binding_identity_def binding_key_def lane_def binding_check_def)

interpretation retired: idle_write f "\<lambda>s. s_state s \<noteq> Active \<and> s_state s \<noteq> Retired" "retired_row reason now"
  for f reason now
  by unfold_locales
    (auto simp: retired_row_def binding_identity_def binding_key_def lane_def binding_check_def)

interpretation reconciled: idle_write f "\<lambda>s. s_state s = Uncertain \<and> s_active_invocation_id s = Some iid"
  "retired_row reason now" for f iid reason now
  by unfold_locales
    (auto simp: retired_row_def binding_identity_def binding_key_def lane_def binding_check_def)

interpretation activated: fenced_write f "\<lambda>s. s_state s = Ready \<and> s_active_invocation_id s = None"
  "activated_row iid now" for f iid now
  by unfold_locales
    (auto simp: activated_row_def binding_identity_def binding_key_def lane_def binding_check_def)

text \<open>The end of a turn: its row is closed and its binding leaves the active state, under one fence.\<close>

locale turn_write = fenced_write f "\<lambda>s. s_state s = Active \<and> s_active_invocation_id s = Some iid" set_row
  for f iid set_row +
  fixes set_turn :: "turn_row \<Rightarrow> turn_row"
  assumes turn_identity: "t_invocation_id (set_turn t) = t_invocation_id t" "turn_key (set_turn t) = turn_key t"
      "t_owner_epoch (set_turn t) = t_owner_epoch t"
    and turn_closed: "t_state (set_turn t) \<noteq> TurnActive"
    and turn_valid: "t_state t = TurnActive \<Longrightarrow> turn_check t \<Longrightarrow> turn_check (set_turn t)"
    and binding_closed: "s_state (set_row s) = Ready \<or> s_state (set_row s) = Uncertain
      \<and> s_active_invocation_id (set_row s) = s_active_invocation_id s \<and> t_state (set_turn t) = TurnUncertain"
begin

lemma ended_turn_links:
  assumes inv: "bindings_inv d" and links: "turn_links d"
    and turn: "update_turn iid set_turn m1 d = Inr d1"
    and ok: "fenced_update f (\<lambda>s. s_state s = Active \<and> s_active_invocation_id s = Some iid) set_row m2 d1 = Inr d'"
  shows "turn_links d'"
  using ok
proof (rule fenced_row)
  let ?T = "\<lambda>t. t_invocation_id t = iid \<and> t_state t = TurnActive"
  let ?P = "\<lambda>s. fence_predicate f s \<and> s_state s = Active \<and> s_active_invocation_id s = Some iid"
  fix s
  assume s1: "s \<in> set (session_bindings d1)" and sP: "fence_predicate f s"
    "s_state s = Active \<and> s_active_invocation_id s = Some iid"
    and d': "d' = d1\<lparr>session_bindings := update_where ?P set_row (session_bindings d1)\<rparr>"
  have d1: "d1 = d\<lparr>session_binding_turns := update_where ?T set_turn (session_binding_turns d)\<rparr>"
    using turn by (auto simp: update_turn_def Let_def split: if_splits)
  have ukey: "unique_on binding_key (session_bindings d)" using inv by (simp add: bindings_inv_def)
  have uturn: "unique_on t_invocation_id (session_binding_turns d)" using links by (simp add: turn_links_def)
  have s: "s \<in> set (session_bindings d)" using s1 by (simp add: d1)
  obtain t0 where t0: "t0 \<in> set (session_binding_turns d)" "t_invocation_id t0 = iid"
    "turn_key t0 = binding_key s" "t_state t0 = TurnActive"
    using links s sP(2) unfolding turn_links_def by force
  have same_turn: "t = t0" if "t \<in> set (session_binding_turns d)" "t_invocation_id t = iid" for t
    using unique_onD [OF uturn that(1) t0(1)] that(2) t0(2) by simp
  have new_turns: "session_binding_turns d' = update_where ?T set_turn (session_binding_turns d)"
    by (simp add: d' d1)
  have new_bindings: "session_bindings d' = update_where ?P set_row (session_bindings d)"
    by (simp add: d' d1)
  have other_turn: "t \<in> set (session_binding_turns d')"
    if "t \<in> set (session_binding_turns d)" "t_invocation_id t \<noteq> iid \<or> t_state t \<noteq> TurnActive" for t
    using that by (auto simp: new_turns intro!: update_whereI2)
  have old_turn: "t \<in> set (session_binding_turns d) \<and> t_invocation_id t \<noteq> iid"
    if "t \<in> set (session_binding_turns d')" "t_state t = TurnActive" for t
    using that turn_closed by (auto simp: new_turns in_update_where split: if_splits) metis
  have "unique_on t_invocation_id (session_binding_turns d')"
    by (simp add: new_turns unique_on_update uturn turn_identity)
  moreover have "\<forall>t\<in>set (session_binding_turns d'). turn_check t"
    using links turn_valid unfolding new_turns ball_update_where turn_links_def by simp
  moreover have "\<exists>q\<in>set (session_bindings d'). binding_key q = turn_key t \<and> s_state q = Active
      \<and> s_active_invocation_id q = Some (t_invocation_id t) \<and> s_owner_epoch q = t_owner_epoch t"
    if "t \<in> set (session_binding_turns d')" "t_state t = TurnActive" for t
  proof -
    from old_turn [OF that] have t: "t \<in> set (session_binding_turns d)" "t_invocation_id t \<noteq> iid" by auto
    then obtain q where q: "q \<in> set (session_bindings d)" "binding_key q = turn_key t" "s_state q = Active"
      "s_active_invocation_id q = Some (t_invocation_id t)" "s_owner_epoch q = t_owner_epoch t"
      using links \<open>t_state t = TurnActive\<close> unfolding turn_links_def by blast
    then have "q \<in> set (session_bindings d')" using t(2) by (auto simp: new_bindings intro!: update_whereI2)
    with q show ?thesis by blast
  qed
  moreover have "\<exists>t\<in>set (session_binding_turns d'). s_active_invocation_id q = Some (t_invocation_id t)
      \<and> turn_key t = binding_key q \<and> t_state t = TurnActive \<and> t_owner_epoch t = s_owner_epoch q"
    if p: "q \<in> set (session_bindings d')" "s_state q = Active" for q
  proof -
    have left: "s_state (set_row r) \<noteq> Active" for r using binding_closed [of r t0] by auto
    obtain r where r: "r \<in> set (session_bindings d)" "q = (if ?P r then set_row r else r)"
      using p(1) unfolding new_bindings in_update_where by blast
    have "\<not> ?P r" using r(2) p(2) left by auto
    then have q: "q \<in> set (session_bindings d)" "\<not> ?P q" using r by auto
    then obtain t where t: "t \<in> set (session_binding_turns d)" "s_active_invocation_id q = Some (t_invocation_id t)"
      "turn_key t = binding_key q" "t_state t = TurnActive" "t_owner_epoch t = s_owner_epoch q"
      using links p(2) unfolding turn_links_def by blast
    have "t_invocation_id t \<noteq> iid"
    proof
      assume "t_invocation_id t = iid"
      then have "binding_key q = binding_key s" using same_turn t t0 by metis
      then have "q = s" using unique_onD [OF ukey q(1) s] by simp
      with q(2) sP show False by simp
    qed
    with t show ?thesis using other_turn by blast
  qed
  moreover have "\<exists>t\<in>set (session_binding_turns d'). s_active_invocation_id q = Some (t_invocation_id t)
      \<and> turn_key t = binding_key q \<and> t_state t = TurnUncertain"
    if p: "q \<in> set (session_bindings d')" "s_state q = Uncertain" for q
  proof (cases "q \<in> set (session_bindings d)")
    case True
    then obtain t where "t \<in> set (session_binding_turns d)" "s_active_invocation_id q = Some (t_invocation_id t)"
      "turn_key t = binding_key q" "t_state t = TurnUncertain"
      using links p(2) unfolding turn_links_def by blast
    then show ?thesis using other_turn by (metis turn_state.distinct(3))
  next
    case False
    then obtain q0 where q0: "q0 \<in> set (session_bindings d)" "?P q0" "q = set_row q0"
      using p(1) unfolding new_bindings in_update_where by metis
    have "binding_key q0 = binding_key s"
      using q0(2) sP by (simp add: fence_predicate_def binding_key_def)
    then have "q0 = s" using unique_onD [OF ukey q0(1) s] by simp
    then have "s_active_invocation_id q = Some iid" "binding_key q = turn_key t0" "t_state (set_turn t0) = TurnUncertain"
      using binding_closed [of s t0] p(2) q0(3) sP keeps_key t0(3) by auto
    moreover have "set_turn t0 \<in> set (session_binding_turns d')"
      using t0 by (auto simp: new_turns intro!: update_whereI1)
    ultimately show ?thesis
      by (intro bexI [of _ "set_turn t0"]) (simp_all add: turn_identity t0(2))
  qed
  ultimately show ?thesis unfolding turn_links_def by blast
qed

lemma ended_turn_step:
  assumes "bindings_inv d" and "turn_links d" and turn: "update_turn iid set_turn m1 d = Inr d1"
    and ok: "fenced_update f (\<lambda>s. s_state s = Active \<and> s_active_invocation_id s = Some iid) set_row m2 d1 = Inr d'"
  shows "bindings_inv d' \<and> turn_links d' \<and> session_history d d'"
proof -
  have d1: "session_bindings d1 = session_bindings d"
    "session_binding_turns d1 = update_where (\<lambda>t. t_invocation_id t = iid \<and> t_state t = TurnActive) set_turn
      (session_binding_turns d)"
    using turn by (auto simp: update_turn_def Let_def split: if_splits)
  then have "bindings_inv d1" using assms(1) by (simp add: bindings_inv_def)
  then have "bindings_inv d'" using ok by (rule written_bindings_inv)
  moreover have "session_history d d1"
    unfolding session_history_def d1
    by (auto intro!: rows_kept_refl rows_kept_update simp: turn_kept_def turn_identity)
  ultimately show ?thesis
    using ended_turn_links [OF assms] written_history [OF ok] by (blast intro: session_history_trans)
qed

end

interpretation quiescent: turn_write f iid "quiescent_row iid p now"
  "\<lambda>t. t\<lparr>t_state := TurnQuiescent, t_terminal_at_ms := Some now, t_session_persistence := Some p\<rparr>" for f iid p now
  by unfold_locales
    (auto simp: quiescent_row_def binding_identity_def binding_key_def lane_def binding_check_def turn_key_def
      turn_check_def)

interpretation uncertain: turn_write f iid "uncertain_row reason now"
  "\<lambda>t. t\<lparr>t_state := TurnUncertain, t_terminal_at_ms := Some now, t_uncertain_reason := Some reason\<rparr>"
  for f iid reason now
  by unfold_locales
    (auto simp: uncertain_row_def binding_identity_def binding_key_def lane_def binding_check_def turn_key_def
      turn_check_def)

text \<open>The start of a turn: a new row, and its binding goes from ready to active on it.\<close>

lemma started_turn_step:
  assumes inv: "bindings_inv d" and links: "turn_links d"
    and ins: "insert_turn_row t d = Inr d1" and t: "t_state t = TurnActive" "turn_check t" "t_invocation_id t = iid"
      "turn_key t = (f_binding_id f, f_binding_generation f)" "t_owner_epoch t = f_owner_epoch f"
    and ok: "fenced_update f (\<lambda>s. s_state s = Ready \<and> s_active_invocation_id s = None)
      (activated_row iid now) msg d1 = Inr d'"
  shows "bindings_inv d' \<and> turn_links d' \<and> session_history d d'"
  using ok
proof (rule activated.fenced_row)
  let ?P = "\<lambda>s. fence_predicate f s \<and> s_state s = Ready \<and> s_active_invocation_id s = None"
  fix s
  assume s: "s \<in> set (session_bindings d1)" "fence_predicate f s" "s_state s = Ready \<and> s_active_invocation_id s = None"
    and d': "d' = d1\<lparr>session_bindings := update_where ?P (activated_row iid now) (session_bindings d1)\<rparr>"
  have d1: "d1 = d\<lparr>session_binding_turns := session_binding_turns d @ [t]\<rparr>"
    and new: "iid \<notin> t_invocation_id ` set (session_binding_turns d)"
    using ins t(3) by (auto simp: insert_turn_row_def split: if_splits)
  have turns: "session_binding_turns d' = session_binding_turns d @ [t]"
    and bindings: "session_bindings d' = update_where ?P (activated_row iid now) (session_bindings d)"
    by (simp_all add: d' d1)
  have kept: "q \<in> set (session_bindings d')" if "q \<in> set (session_bindings d)" "s_state q \<noteq> Ready" for q
    using that by (auto simp: bindings intro!: update_whereI2)
  have hit: "activated_row iid now s \<in> set (session_bindings d')"
    using s by (auto simp: bindings d1 intro!: update_whereI1)
  have origin: "q \<in> set (session_bindings d) \<or> (\<exists>r. fence_predicate f r \<and> q = activated_row iid now r)"
    if "q \<in> set (session_bindings d')" for q
    using that unfolding bindings in_update_where by metis
  have key: "binding_key r = turn_key t" "s_owner_epoch r = t_owner_epoch t" if "fence_predicate f r" for r
    using that t by (simp_all add: fence_predicate_def binding_key_def)
  have "\<exists>q\<in>set (session_bindings d'). binding_key q = turn_key u \<and> s_state q = Active
      \<and> s_active_invocation_id q = Some (t_invocation_id u) \<and> s_owner_epoch q = t_owner_epoch u"
    if u: "u \<in> set (session_binding_turns d')" "t_state u = TurnActive" for u
  proof (cases "u = t")
    case True
    then show ?thesis
      using hit key [OF s(2)] t(3)
      by (intro bexI [of _ "activated_row iid now s"]) (simp_all add: activated_row_def binding_key_def)
  next
    case False
    then have "u \<in> set (session_binding_turns d)" using u by (simp add: turns)
    then obtain q where "q \<in> set (session_bindings d)" "binding_key q = turn_key u" "s_state q = Active"
      "s_active_invocation_id q = Some (t_invocation_id u)" "s_owner_epoch q = t_owner_epoch u"
      using links u(2) unfolding turn_links_def by blast
    then show ?thesis using kept by (intro bexI [of _ q]) simp_all
  qed
  moreover have "\<exists>u\<in>set (session_binding_turns d'). s_active_invocation_id q = Some (t_invocation_id u)
      \<and> turn_key u = binding_key q \<and> t_state u = TurnActive \<and> t_owner_epoch u = s_owner_epoch q"
    if q: "q \<in> set (session_bindings d')" "s_state q = Active" for q
    using origin [OF q(1)]
  proof
    assume "q \<in> set (session_bindings d)"
    then show ?thesis using links q(2) unfolding turn_links_def turns by fastforce
  next
    assume "\<exists>r. fence_predicate f r \<and> q = activated_row iid now r"
    then show ?thesis
      using key t by (auto simp: turns activated_row_def binding_key_def)
  qed
  moreover have "\<exists>u\<in>set (session_binding_turns d'). s_active_invocation_id q = Some (t_invocation_id u)
      \<and> turn_key u = binding_key q \<and> t_state u = TurnUncertain"
    if q: "q \<in> set (session_bindings d')" "s_state q = Uncertain" for q
  proof -
    have "q \<in> set (session_bindings d)" using origin [OF q(1)] q(2) by (auto simp: activated_row_def)
    then show ?thesis using links q(2) unfolding turn_links_def turns by fastforce
  qed
  moreover have "unique_on t_invocation_id (session_binding_turns d')"
    "\<forall>u\<in>set (session_binding_turns d'). turn_check u"
    using links new t unfolding turns turn_links_def by auto
  ultimately have "turn_links d'" unfolding turn_links_def by blast
  moreover have "bindings_inv d1" using inv by (simp add: bindings_inv_def d1)
  then have "bindings_inv d'" using ok by (rule activated.written_bindings_inv)
  moreover have "session_history d d1"
    by (simp add: session_history_def d1 rows_kept_refl rows_kept_append)
  then have "session_history d d'" using activated.written_history [OF ok] by (rule session_history_trans)
  ultimately show ?thesis by blast
qed

lemma inserted_binding_step:
  assumes inv: "bindings_inv d" and links: "turn_links d" and ins: "insert_binding_row s d = Inr d'"
    and s: "s_state s = Opening" "binding_check s"
  shows "bindings_inv d' \<and> turn_links d' \<and> session_history d d'"
proof -
  have d': "d' = d\<lparr>session_bindings := session_bindings d @ [s]\<rparr>"
    and fresh: "binding_key s \<notin> binding_key ` set (session_bindings d)"
      "(lane s, s_binding_generation s) \<notin> (\<lambda>s. (lane s, s_binding_generation s)) ` set (session_bindings d)"
      "\<And>q. q \<in> set (session_bindings d) \<Longrightarrow> lane q = lane s \<Longrightarrow> s_state q = Retired"
    using ins s(1) by (auto simp: insert_binding_row_def binding_key_def lane_def split: if_splits)
  have "bindings_inv d'" using inv fresh s unfolding bindings_inv_def by (auto simp: d')
  moreover have "turn_links d'" using links s(1) unfolding turn_links_def by (auto simp: d')
  moreover have "session_history d d'"
    by (simp add: session_history_def d' rows_kept_refl rows_kept_append)
  ultimately show ?thesis by blast
qed

section \<open>The fate of a turn\<close>

text \<open>What the state of a turn says about its invocation.\<close>

fun turn_fate :: "turn_state \<Rightarrow> invocation_row \<Rightarrow> bool" where
  "turn_fate TurnActive i \<longleftrightarrow> i_state i = DispatchArmed"
| "turn_fate TurnQuiescent i \<longleftrightarrow> i_state i = Terminal \<and> i_execution_certainty i = Some OutcomeKnown"
| "turn_fate TurnUncertain i \<longleftrightarrow>
     i_state i = DispatchArmed \<or> i_state i = Terminal \<and> i_execution_certainty i = Some OutcomeUnknown"

definition turn_fates :: "db \<Rightarrow> bool" where
  "turn_fates d \<longleftrightarrow>
     (\<forall>t\<in>set (session_binding_turns d). \<exists>i\<in>set (invocations d).
        i_id i = t_invocation_id t \<and> i_dispatch_armed_at_ms i \<noteq> None \<and> turn_fate (t_state t) i
        \<and> (\<exists>s\<in>set (session_bindings d). binding_key s = turn_key t \<and> s_agent_id s = i_agent_id i))"

definition sessions_inv :: "db \<Rightarrow> bool" where
  "sessions_inv d \<longleftrightarrow> bindings_inv d \<and> turn_links d \<and> turn_fates d"

lemma sessions_inv_empty: "sessions_inv empty_db"
  by (simp add: sessions_inv_def bindings_inv_def turn_links_def turn_fates_def empty_db_def)

lemma same_sessions_links:
  assumes "same_sessions d d'"
  shows "bindings_inv d' = bindings_inv d" "turn_links d' = turn_links d" "session_history d d'"
  using assms by (simp_all add: same_sessions_def bindings_inv_def turn_links_def session_history_def rows_kept_refl)

lemma binding_agent_kept:
  assumes "rows_kept binding_kept bs bs'" and "s \<in> set bs"
  shows "\<exists>s'\<in>set bs'. binding_key s' = binding_key s \<and> s_agent_id s' = s_agent_id s"
  using assms unfolding rows_kept_def binding_kept_def binding_identity_def lane_def by fastforce

lemma turn_fates_step:
  assumes fates: "turn_fates d" and kept: "session_history d d'"
    and turn: "\<And>t'. t' \<in> set (session_binding_turns d') \<Longrightarrow> \<exists>t\<in>set (session_binding_turns d).
      t_invocation_id t' = t_invocation_id t \<and> turn_key t' = turn_key t
      \<and> (\<forall>i\<in>set (invocations d). i_id i = t_invocation_id t \<and> turn_fate (t_state t) i \<longrightarrow>
           (\<exists>j\<in>set (invocations d'). invocation_kept i j \<and> turn_fate (t_state t') j))"
  shows "turn_fates d'"
  unfolding turn_fates_def
proof
  fix t'
  assume "t' \<in> set (session_binding_turns d')"
  from turn [OF this] obtain t where t: "t \<in> set (session_binding_turns d)"
    "t_invocation_id t' = t_invocation_id t" "turn_key t' = turn_key t"
    "\<forall>i\<in>set (invocations d). i_id i = t_invocation_id t \<and> turn_fate (t_state t) i \<longrightarrow>
       (\<exists>j\<in>set (invocations d'). invocation_kept i j \<and> turn_fate (t_state t') j)" by blast
  from fates t(1) obtain i s where i: "i \<in> set (invocations d)" "i_id i = t_invocation_id t"
    "i_dispatch_armed_at_ms i \<noteq> None" "turn_fate (t_state t) i"
    and s: "s \<in> set (session_bindings d)" "binding_key s = turn_key t" "s_agent_id s = i_agent_id i"
    unfolding turn_fates_def by blast
  from t(4) i obtain j where j: "j \<in> set (invocations d')" "invocation_kept i j" "turn_fate (t_state t') j" by blast
  from kept have "rows_kept binding_kept (session_bindings d) (session_bindings d')"
    by (simp add: session_history_def)
  from binding_agent_kept [OF this s(1)] obtain s' where "s' \<in> set (session_bindings d')"
    "binding_key s' = turn_key t'" "s_agent_id s' = i_agent_id i" using s t(3) by auto
  moreover have "i_id j = t_invocation_id t'" "i_dispatch_armed_at_ms j \<noteq> None" "i_agent_id j = i_agent_id i"
    using j(2) i t(2) by (auto simp: invocation_kept_def same_identity_def)
  ultimately show "\<exists>i\<in>set (invocations d'). i_id i = t_invocation_id t' \<and> i_dispatch_armed_at_ms i \<noteq> None
      \<and> turn_fate (t_state t') i
      \<and> (\<exists>s\<in>set (session_bindings d'). binding_key s = turn_key t' \<and> s_agent_id s = i_agent_id i)"
    using j by (intro bexI [of _ j]) auto
qed

text \<open>An operation on the session rows that closes no turn.\<close>

lemma sessions_step:
  assumes "sessions_inv d" and "bindings_inv d' \<and> turn_links d' \<and> session_history d d'"
    and "session_binding_turns d' = session_binding_turns d" and "same_core d d'"
  shows "sessions_inv d' \<and> session_history d d'"
proof -
  have invs: "invocations d' = invocations d" using assms(4) by (simp add: same_core_def)
  have "turn_fates d'"
  proof (rule turn_fates_step [of d])
    fix t
    assume "t \<in> set (session_binding_turns d')"
    then show "\<exists>u\<in>set (session_binding_turns d). t_invocation_id t = t_invocation_id u
        \<and> turn_key t = turn_key u \<and> (\<forall>i\<in>set (invocations d). i_id i = t_invocation_id u \<and> turn_fate (t_state u) i \<longrightarrow>
           (\<exists>j\<in>set (invocations d'). invocation_kept i j \<and> turn_fate (t_state t) j))"
      unfolding invs assms(3) using row_kept_refl(1) by (intro bexI [of _ t]) blast+
  qed (use assms in \<open>simp_all add: sessions_inv_def\<close>)
  with assms(2) show ?thesis by (simp add: sessions_inv_def)
qed

text \<open>An operation outside the session rows that keeps armed invocations, except those it may settle.\<close>

lemma sessions_frame:
  assumes inv: "sessions_inv d" and same: "same_sessions d d'"
    and kept: "rows_kept invocation_kept (invocations d) (invocations d')"
    and armed: "\<And>i t. i \<in> set (invocations d) \<Longrightarrow> i_state i = DispatchArmed \<Longrightarrow>
      t \<in> set (session_binding_turns d) \<Longrightarrow> t_invocation_id t = i_id i \<Longrightarrow> t_state t \<noteq> TurnQuiescent \<Longrightarrow>
      \<exists>j\<in>set (invocations d'). invocation_kept i j \<and> turn_fate (t_state t) j"
  shows "sessions_inv d' \<and> session_history d d'"
proof -
  have turns: "session_binding_turns d' = session_binding_turns d" using same by (simp add: same_sessions_def)
  have "turn_fates d'"
  proof (rule turn_fates_step [of d])
    show "turn_fates d" using inv by (simp add: sessions_inv_def)
    show "session_history d d'" using same by (rule same_sessions_links)
    fix t
    assume t: "t \<in> set (session_binding_turns d')"
    have "\<exists>j\<in>set (invocations d'). invocation_kept i j \<and> turn_fate (t_state t) j"
      if i: "i \<in> set (invocations d)" "i_id i = t_invocation_id t" "turn_fate (t_state t) i" for i
    proof (cases "i_state i = DispatchArmed")
      case True
      then have "t_state t \<noteq> TurnQuiescent" using i(3) by auto
      then show ?thesis using armed [OF i(1) True] t i(2) turns by simp
    next
      case False
      then have "i_state i = Terminal" using i(3) by (cases "t_state t") auto
      then have "i \<in> set (invocations d')"
        using kept i(1) unfolding rows_kept_def invocation_kept_def by metis
      then show ?thesis using i(3) row_kept_refl(1) by blast
    qed
    with t show "\<exists>u\<in>set (session_binding_turns d). t_invocation_id t = t_invocation_id u
        \<and> turn_key t = turn_key u \<and> (\<forall>i\<in>set (invocations d). i_id i = t_invocation_id u \<and> turn_fate (t_state u) i \<longrightarrow>
           (\<exists>j\<in>set (invocations d'). invocation_kept i j \<and> turn_fate (t_state t) j))"
      using turns by (intro bexI [of _ t]) auto
  qed
  with inv same_sessions_links [OF same] show ?thesis by (simp add: sessions_inv_def)
qed

lemma sessions_frame_same:
  "sessions_inv d \<Longrightarrow> same_sessions d d' \<Longrightarrow> invocations d' = invocations d
    \<Longrightarrow> sessions_inv d' \<and> session_history d d'"
proof (rule sessions_frame)
  fix i t
  assume "invocations d' = invocations d" "i \<in> set (invocations d)" "i_state i = DispatchArmed"
    "t_state t \<noteq> TurnQuiescent"
  then show "\<exists>j\<in>set (invocations d'). invocation_kept i j \<and> turn_fate (t_state t) j"
    by (intro bexI [of _ i]) (cases "t_state t"; simp)+
qed simp_all

end
