(* ===== verification/Session_Fleet.thy ===== *)
theory Session_Fleet
  imports Fleet Sessions
begin

text \<open>
  Every operation of the fleet keeps the contract of the session lanes: the invariant
  \<open>sessions_inv\<close> of \<open>Sessions\<close>, and the relation \<open>session_history\<close> between the session rows before
  and after.
\<close>

section \<open>Operations on bindings\<close>

text \<open>What an operation on bindings keeps, when it touches no turn.\<close>

definition lanes_step :: "db \<Rightarrow> db \<Rightarrow> bool" where
  "lanes_step d d' \<longleftrightarrow> bindings_inv d' \<and> turn_links d' \<and> session_history d d'
     \<and> session_binding_turns d' = session_binding_turns d"

lemma lanes_step_trans: "lanes_step d d' \<Longrightarrow> lanes_step d' d'' \<Longrightarrow> lanes_step d d''"
  unfolding lanes_step_def using session_history_trans by metis

lemma lanes_step_refl: "bindings_inv d \<Longrightarrow> turn_links d \<Longrightarrow> lanes_step d d"
  by (simp add: lanes_step_def session_history_refl)

lemma fenced_update_turns:
  "fenced_update f ok set_row msg d = Inr d' \<Longrightarrow> session_binding_turns d' = session_binding_turns d"
  by (auto simp: fenced_update_def Let_def split: if_splits)

lemma sessions_lanes_step:
  "sessions_inv d \<Longrightarrow> lanes_step d d' \<Longrightarrow> same_core d d' \<Longrightarrow> sessions_inv d' \<and> session_history d d'"
  by (rule sessions_step) (simp_all add: lanes_step_def)

lemma insert_binding_step:
  assumes "bindings_inv d" and "turn_links d" and "insert_binding bid g a inp now d = Inr (x, d')"
  shows "lanes_step d d'"
proof -
  obtain n where n: "as_i64 ''binding generation'' g = Inr n"
    and ins: "insert_binding_row (new_binding_row bid n a inp now) d = Inr d'"
    using assms(3) by (auto simp: insert_binding_def and_then_eq_Inr)
  have "0 < n" using n by (auto simp: as_i64_def ok_or_eq_Inr i64_try_from_def uint_0_iff less_le split: if_splits)
  then have "binding_check (new_binding_row bid n a inp now)" by (simp add: binding_check_def new_binding_row_def)
  moreover have "s_state (new_binding_row bid n a inp now) = Opening" by (simp add: new_binding_row_def)
  moreover have "session_binding_turns d' = session_binding_turns d"
    using ins by (auto simp: insert_binding_row_def split: if_splits)
  ultimately show ?thesis using inserted_binding_step [OF assms(1,2) ins] by (simp add: lanes_step_def)
qed

lemma rotate_binding_step:
  assumes "bindings_inv d" and "turn_links d" and "rotate_binding old a inp now reason d = Inr (x, d')"
  shows "lanes_step d d'"
proof -
  obtain f g d1 where
    upd: "fenced_update f (\<lambda>s. s_state s = Opening \<or> s_state s = Ready) (retired_row reason now)
      ''session binding changed during rotation'' d = Inr d1"
    and ins: "insert_binding (bind_id (sess_binding old)) g a inp now d1 = Inr (x, d')"
    using assms(3) by (auto simp: rotate_binding_def and_then_eq_Inr)
  have "lanes_step d d1"
    using rotated.idle_write_step [OF assms(1,2) upd] fenced_update_turns [OF upd] by (simp add: lanes_step_def)
  moreover from this have "lanes_step d1 d'" using insert_binding_step [OF _ _ ins] by (simp add: lanes_step_def)
  ultimately show ?thesis by (rule lanes_step_trans)
qed

lemma owner_fence_new_Inr:
  assumes "owner_fence_new a b = Inr f"
  shows "f_binding_id f = bind_id b" "f_binding_generation f = uint (bind_generation b)" "f_agent_id f = a"
    "f_owner_epoch f = uint (bind_owner_epoch b)" "0 < f_owner_epoch f" "0 < f_binding_generation f"
  using assms
  by (auto simp: owner_fence_new_def and_then_eq_Inr as_i64_def ok_or_eq_Inr i64_try_from_def uint_0_iff less_le
      split: if_splits)

lemma adopt_binding_step:
  assumes "bindings_inv d" and "turn_links d" and "adopt_binding old owner now d = Inr (x, d')"
  shows "lanes_step d d'"
proof -
  obtain f epoch e where f: "owner_fence_new (sess_agent_id old) (sess_binding old) = Inr f"
    and epoch: "checked_add_u64 (bind_owner_epoch (sess_binding old)) 1 = Some epoch"
    and e: "as_i64 ''owner epoch'' epoch = Inr e"
    and upd: "fenced_update f (\<lambda>s. s_state s = Ready) (adopted_row e owner now)
      ''session binding changed during adoption'' d = Inr d'"
    using assms(3) by (auto simp: adopt_binding_def and_then_eq_Inr ok_or_eq_Inr)
  have "e = f_owner_epoch f + 1"
    using e checked_add_u64_Some [OF epoch] owner_fence_new_Inr(4) [OF f]
    by (auto simp: as_i64_def ok_or_eq_Inr i64_try_from_def split: if_splits)
  then show ?thesis
    using adopted.idle_write_step [OF assms(1,2)] upd fenced_update_turns [OF upd] by (simp add: lanes_step_def)
qed

lemma acquire_session_binding_step:
  assumes "bindings_inv d" and "turn_links d" and "acquire_session_binding uuid now a inp d = Inr (x, d')"
  shows "lanes_step d d'"
proof -
  have existing: "acquire_existing row a inp now d = Inr (x, d') \<Longrightarrow> lanes_step d d'" for row
    using lanes_step_refl [OF assms(1,2)] unfolding acquire_existing_def and_then_eq_Inr
    by (auto simp: and_then_eq_Inr intro: rotate_binding_step [OF assms(1,2)] adopt_binding_step [OF assms(1,2)]
        split: if_splits session_binding_state.splits)
  have fresh: "insert_after_latest_retired uuid a inp now d = Inr (x, d') \<Longrightarrow> lanes_step d d'"
    unfolding insert_after_latest_retired_def
    by (auto simp: and_then_eq_Inr intro: insert_binding_step [OF assms(1,2)] split: option.splits if_splits)
  show ?thesis
    using assms(3) unfolding acquire_session_binding_def and_then_eq_Inr
    by (auto intro: existing fresh split: option.splits)
qed

lemma record_session_opened_step:
  assumes "bindings_inv d" and "turn_links d" and "record_session_opened now a b r d = Inr (x, d')"
  shows "lanes_step d d'"
proof -
  have "d' = d \<or> (\<exists>f. fenced_update f (\<lambda>s. s_state s = Opening) (opened_row r now)
      ''session binding changed while opening'' d = Inr d')"
    using assms(3) unfolding record_session_opened_def and_then_eq_Inr
    apply clarify
    subgoal for _ _ f row by (cases "s_state row") (auto split: if_splits)
    done
  then show ?thesis
    using opened.idle_write_step [OF assms(1,2)] fenced_update_turns lanes_step_refl [OF assms(1,2)]
    unfolding lanes_step_def by blast
qed

lemma retire_session_binding_step:
  assumes "bindings_inv d" and "turn_links d" and "retire_session_binding now a b r d = Inr (x, d')"
  shows "lanes_step d d'"
proof -
  obtain f where "d' = d \<or> fenced_update f (\<lambda>s. s_state s \<noteq> Active \<and> s_state s \<noteq> Retired) (retired_row r now)
      ''session binding changed during retirement'' d = Inr d'"
    using assms(3) unfolding retire_session_binding_def and_then_eq_Inr by (auto split: if_splits)
  then show ?thesis
    using retired.idle_write_step [OF assms(1,2)] fenced_update_turns lanes_step_refl [OF assms(1,2)]
    unfolding lanes_step_def by blast
qed

lemma retire_uncertain_step:
  assumes "bindings_inv d" and "turn_links d"
    and "retire_uncertain_session_for_delivery_block bid res now d = Inr (x, d')"
  shows "lanes_step d d'"
proof -
  obtain f iid reason where "d' = d \<or> fenced_update f (\<lambda>q. s_state q = Uncertain \<and> s_active_invocation_id q = Some iid)
      (retired_row reason now) ''uncertain session changed during operator recovery'' d = Inr d'"
    using assms(3) unfolding retire_uncertain_session_for_delivery_block_def
    by (auto simp: and_then_eq_Inr Let_def split: option.splits if_splits prod.splits)
  then show ?thesis
    using reconciled.idle_write_step [OF assms(1,2)] fenced_update_turns lanes_step_refl [OF assms(1,2)]
    unfolding lanes_step_def by blast
qed

section \<open>Uncertain turns\<close>

text \<open>What it means for the rows that the turn of one invocation ended uncertain.\<close>

definition made_uncertain :: "string \<Rightarrow> db \<Rightarrow> db \<Rightarrow> bool" where
  "made_uncertain iid d d' \<longleftrightarrow> bindings_inv d' \<and> turn_links d' \<and> session_history d d'
     \<and> (\<forall>t'\<in>set (session_binding_turns d'). \<exists>t\<in>set (session_binding_turns d).
          t_invocation_id t' = t_invocation_id t \<and> turn_key t' = turn_key t
          \<and> (if t_invocation_id t = iid then t_state t \<noteq> TurnQuiescent \<and> t_state t' = TurnUncertain else t' = t))"

lemma update_turn_active:
  assumes "turn_links d" and "update_turn iid f msg d = Inr d'"
    and "t \<in> set (session_binding_turns d)" and "t_invocation_id t = iid"
  shows "t_state t = TurnActive"
proof -
  let ?T = "\<lambda>t. t_invocation_id t = iid \<and> t_state t = TurnActive"
  have "rows_affected ?T (session_binding_turns d) = 1"
    using assms(2) by (auto simp: update_turn_def Let_def split: if_splits)
  then obtain t0 where t0: "t0 \<in> set (session_binding_turns d)" "?T t0"
    using rows_affected_pos [of ?T "session_binding_turns d"] by auto
  have "unique_on t_invocation_id (session_binding_turns d)" using assms(1) by (simp add: turn_links_def)
  from unique_onD [OF this assms(3) t0(1)] assms(4) t0(2) show ?thesis by simp
qed

lemma mark_turn_uncertain_step:
  assumes inv: "bindings_inv d" "turn_links d" and ok: "mark_turn_uncertain a iid b reason now d = Inr d'"
  shows "made_uncertain iid d d'"
proof -
  let ?T = "\<lambda>t. t_invocation_id t = iid \<and> t_state t = TurnActive"
  let ?f = "\<lambda>t. t\<lparr>t_state := TurnUncertain, t_terminal_at_ms := Some now, t_uncertain_reason := Some reason\<rparr>"
  obtain d1 fence where turn: "update_turn iid ?f ''session turn changed while fencing uncertainty'' d = Inr d1"
    and upd: "fenced_update fence (\<lambda>s. s_state s = Active \<and> s_active_invocation_id s = Some iid)
      (uncertain_row reason now) ''session binding changed while fencing uncertainty'' d1 = Inr d'"
    using ok by (auto simp: mark_turn_uncertain_def and_then_eq_Inr)
  have turns: "session_binding_turns d' = update_where ?T ?f (session_binding_turns d)"
    using turn fenced_update_turns [OF upd] by (auto simp: update_turn_def Let_def split: if_splits)
  note only = update_turn_active [OF inv(2) turn]
  have "\<exists>t\<in>set (session_binding_turns d). t_invocation_id t' = t_invocation_id t \<and> turn_key t' = turn_key t
      \<and> (if t_invocation_id t = iid then t_state t \<noteq> TurnQuiescent \<and> t_state t' = TurnUncertain else t' = t)"
    if t': "t' \<in> set (session_binding_turns d')" for t'
  proof -
    obtain t where t: "t \<in> set (session_binding_turns d)" "t' = (if ?T t then ?f t else t)"
      using t' unfolding turns in_update_where by blast
    then show ?thesis using only [OF t(1)] by (intro bexI [of _ t]) (auto simp: turn_key_def)
  qed
  then show ?thesis using uncertain.ended_turn_step [OF inv turn upd] unfolding made_uncertain_def by blast
qed

lemma not_uncertain_twice:
  assumes "bindings_inv d" and "turn_links d"
    and "\<And>t. t \<in> set (session_binding_turns d) \<Longrightarrow> t_invocation_id t = iid \<Longrightarrow> t_state t = TurnUncertain"
  shows "made_uncertain iid d d"
  using assms unfolding made_uncertain_def by (auto simp: session_history_refl)

lemma mark_expired_step:
  assumes inv: "bindings_inv d" "turn_links d"
    and bound: "\<And>t. t \<in> set (session_binding_turns d) \<Longrightarrow> \<exists>s\<in>set (session_bindings d). binding_key s = turn_key t"
    and ok: "mark_expired_session_turn_uncertain iid reason now d = Inr d'"
  shows "made_uncertain iid d d'"
proof (cases "find (\<lambda>(t, s). t_invocation_id t = iid) (turn_bindings d)")
  case None
  have "t_invocation_id t \<noteq> iid" if t: "t \<in> set (session_binding_turns d)" for t
  proof -
    obtain s where "s \<in> set (session_bindings d)" "binding_key s = turn_key t" using bound [OF t] by blast
    then have "(t, s) \<in> set (turn_bindings d)"
      using t by (auto simp: turn_bindings_def binding_key_def turn_key_def)
    from find_not_in [OF None this] show ?thesis by simp
  qed
  moreover have "d' = d" using ok None by (simp add: mark_expired_session_turn_uncertain_def)
  ultimately show ?thesis using not_uncertain_twice [OF inv] by blast
next
  case (Some ts)
  obtain t s where ts: "ts = (t, s)" by fastforce
  have t: "t \<in> set (session_binding_turns d)" "t_invocation_id t = iid"
    using find_in [OF Some] by (auto simp: ts turn_bindings_def)
  have "t_state t = TurnUncertain \<and> d' = d \<or> (\<exists>a b. mark_turn_uncertain a iid b reason now d = Inr d')"
    using ok by (auto simp: mark_expired_session_turn_uncertain_def Some ts and_then_eq_Inr split: if_splits)
  then show ?thesis
  proof
    assume p: "t_state t = TurnUncertain \<and> d' = d"
    have u: "unique_on t_invocation_id (session_binding_turns d)" using inv(2) by (simp add: turn_links_def)
    have "v = t" if "v \<in> set (session_binding_turns d)" "t_invocation_id v = iid" for v
      using unique_onD [OF u that(1) t(1)] that(2) t(2) by simp
    then show ?thesis using p not_uncertain_twice [OF inv] by blast
  qed (use mark_turn_uncertain_step [OF inv] in blast)
qed

lemma sessions_made_uncertain:
  assumes inv: "sessions_inv d" and same: "same_sessions d d1" and marked: "made_uncertain iid d1 d'"
    and invs: "invocations d' = update_where (\<lambda>j. i_id j = iid \<and> i_state j = DispatchArmed) f (invocations d)"
    and f: "\<And>i. i_state i = DispatchArmed \<Longrightarrow> invocation_kept i (f i) \<and> turn_fate TurnUncertain (f i)"
  shows "sessions_inv d' \<and> session_history d d'"
proof -
  have eq: "session_binding_turns d1 = session_binding_turns d" "session_bindings d1 = session_bindings d"
    using same by (simp_all add: same_sessions_def)
  have hist: "session_history d d'" using marked by (simp add: made_uncertain_def session_history_def eq)
  have "turn_fates d'"
  proof (rule turn_fates_step [OF _ hist])
    show "turn_fates d" using inv by (simp add: sessions_inv_def)
    fix t'
    assume "t' \<in> set (session_binding_turns d')"
    then obtain t where t: "t \<in> set (session_binding_turns d)" "t_invocation_id t' = t_invocation_id t"
      "turn_key t' = turn_key t"
      "if t_invocation_id t = iid then t_state t \<noteq> TurnQuiescent \<and> t_state t' = TurnUncertain else t' = t"
      using marked unfolding made_uncertain_def eq by blast
    have "\<exists>j\<in>set (invocations d'). invocation_kept i j \<and> turn_fate (t_state t') j"
      if i: "i \<in> set (invocations d)" "i_id i = t_invocation_id t" "turn_fate (t_state t) i" for i
    proof (cases "i_id i = iid \<and> i_state i = DispatchArmed")
      case True
      then have "f i \<in> set (invocations d')" using i(1) by (auto simp: invs intro!: update_whereI1)
      then show ?thesis using f True t(4) i(2) by auto
    next
      case False
      then have "i \<in> set (invocations d')" using i(1) by (auto simp: invs intro!: update_whereI2)
      moreover have "turn_fate (t_state t') i"
        using t(4) i(2,3) False by (cases "t_state t") (auto split: if_splits)
      ultimately show ?thesis using row_kept_refl(1) by blast
    qed
    with t show "\<exists>t\<in>set (session_binding_turns d). t_invocation_id t' = t_invocation_id t \<and> turn_key t' = turn_key t
        \<and> (\<forall>i\<in>set (invocations d). i_id i = t_invocation_id t \<and> turn_fate (t_state t) i \<longrightarrow>
           (\<exists>j\<in>set (invocations d'). invocation_kept i j \<and> turn_fate (t_state t') j))" by blast
  qed
  with hist marked show ?thesis by (simp add: sessions_inv_def made_uncertain_def)
qed

lemma sessions_mark_uncertain:
  assumes inv: "sessions_inv d" and ok: "mark_session_invocation_uncertain now a iid b reason d = Inr (x, d')"
  shows "sessions_inv d' \<and> session_history d d'"
proof -
  have "d' = d \<or> mark_turn_uncertain a iid b reason now d = Inr d'"
    using ok unfolding mark_session_invocation_uncertain_def and_then_eq_Inr by (auto split: if_splits)
  then show ?thesis
  proof
    assume mark: "mark_turn_uncertain a iid b reason now d = Inr d'"
    have "invocations d' = invocations d" using mark_turn_uncertain_core [OF mark] by (simp add: same_core_def)
    moreover have "update_where P (\<lambda>i. i) rows = rows" for P and rows :: "invocation_row list"
      by (simp add: update_where_def)
    ultimately show ?thesis
      using sessions_made_uncertain [OF inv _ mark_turn_uncertain_step [OF _ _ mark], where f = "\<lambda>i. i"] inv
      by (simp add: same_sessions_def sessions_inv_def)
  qed (use inv session_history_refl in blast)
qed

section \<open>Operations on deliveries and invocations\<close>

text \<open>A write outside the session and evidence tables.\<close>

definition same_satellites :: "db \<Rightarrow> db \<Rightarrow> bool" where
  "same_satellites d d' \<longleftrightarrow> same_sessions d d' \<and> plugin_generations d' = plugin_generations d
     \<and> invocation_observations d' = invocation_observations d"

lemma same_satellites_refl [simp]: "same_satellites d d"
  by (simp add: same_satellites_def same_sessions_def)

lemma same_satellites_trans: "same_satellites d d' \<Longrightarrow> same_satellites d' d'' \<Longrightarrow> same_satellites d d''"
  by (simp add: same_satellites_def same_sessions_def)

lemma leased_row_update_frame:
  assumes "leased_row_update lr f d = (moved, d')"
  shows "same_satellites d d'" "invocations d' = invocations d" "messages d' = messages d"
  using assms by (auto simp: leased_row_update_def same_satellites_def same_sessions_def)

lemma insert_block_row_frame:
  assumes "insert_block_row mk d = Inr (n, d')"
  shows "same_satellites d d'" "invocations d' = invocations d" "messages d' = messages d"
  using insert_block_row_effect [OF assms] by (auto simp: same_satellites_def same_sessions_def)

lemma insert_message_frame:
  assumes "insert_message uuid now cid inp d = Inr (m, d')"
  shows "same_satellites d d'" "invocations d' = invocations d"
  using insert_message_store [OF assms] by (simp_all add: same_satellites_def same_sessions_def)

lemma append_message_frame:
  assumes "append_message_in_transaction uuid now cid inp d = Inr (r, d')"
  shows "same_satellites d d'" "invocations d' = invocations d"
  using assms by (cases rule: append_message_cases; simp add: insert_message_frame)+

lemma lease_claimable_frame:
  "same_satellites d (lease_claimable a token expires now limit kinds d)"
  "invocations (lease_claimable a token expires now limit kinds d) = invocations d"
  by (simp_all add: lease_claimable_def Let_def same_satellites_def same_sessions_def)

lemma resolve_transaction_frame:
  assumes "core_inv d" and "resolve_delivery_block_transaction bid inp now d = Inr d'"
  shows "same_satellites d d'" "invocations d' = invocations d"
  using core_invD(3,4) [OF assms(1)] assms(2)
  by (cases rule: resolve_block_cases; simp add: same_satellites_def same_sessions_def)+

lemma sessions_same:
  "sessions_inv d \<Longrightarrow> same_satellites d d' \<Longrightarrow> invocations d' = invocations d \<Longrightarrow> sessions_inv d' \<and> session_history d d'"
  by (rule sessions_frame_same) (simp_all add: same_satellites_def)

lemma sessions_then:
  assumes "sessions_inv d1 \<and> session_history d d1" and "sessions_inv d1 \<Longrightarrow> sessions_inv d2 \<and> session_history d1 d2"
  shows "sessions_inv d2 \<and> session_history d d2"
  using assms session_history_trans by blast

text \<open>Ending the invocation of a lease from the delivery side: its turn, if it has one, must allow it.\<close>

lemma settlement_allowed:
  assumes unique: "\<And>i j. i \<in> set (invocations d) \<Longrightarrow> j \<in> set (invocations d) \<Longrightarrow> i_state i \<noteq> Terminal \<Longrightarrow>
      i_state j \<noteq> Terminal \<Longrightarrow> invocation_key i = invocation_key j \<Longrightarrow> i = j"
    and "unique_on m_id (messages d)" and "unique_on t_invocation_id (session_binding_turns d)"
    and ok: "ensure_bound_turn_allows_delivery_settlement a mid token allow d = Inr ()"
    and i: "i \<in> set (invocations d)" "terminalize_predicate a mid token d i"
    and t: "t \<in> set (session_binding_turns d)" "t_invocation_id t = i_id i"
  shows "t_state t = TurnQuiescent \<or> allow \<and> t_state t = TurnUncertain"
proof -
  let ?L = "[(i, m, t). i \<leftarrow> invocations d, m \<leftarrow> messages d, t \<leftarrow> session_binding_turns d,
     m_seq m = i_message_seq i \<and> t_invocation_id t = i_id i]"
  let ?P = "\<lambda>(i, m, t). i_agent_id i = a \<and> m_id m = mid \<and> i_lease_token i = token \<and> i_state i \<noteq> Terminal"
  obtain m where m: "m \<in> set (messages d)" "m_id m = mid" "m_seq m = i_message_seq i"
    and i': "i_agent_id i = a" "i_lease_token i = token" "i_state i \<noteq> Terminal"
    using i(2) by (auto simp: terminalize_predicate_def dest!: find_in split: option.splits)
  have mem: "(i, m, t) \<in> set ?L" and P: "?P (i, m, t)" using i(1) m t i' by auto
  obtain hit' where "find ?P ?L = Some hit'"
  proof (cases "find ?P ?L")
    case None
    from find_not_in [OF None mem] P show thesis by contradiction
  qed
  moreover obtain j n u where "hit' = (j, n, u)" by (rule prod_cases3)
  ultimately have hit: "find ?P ?L = Some (j, n, u)" by simp
  from find_in [OF hit] have j: "j \<in> set (invocations d)" "n \<in> set (messages d)" "u \<in> set (session_binding_turns d)"
    "m_seq n = i_message_seq j" "t_invocation_id u = i_id j" "i_agent_id j = a" "m_id n = mid"
    "i_state j \<noteq> Terminal" by auto
  have "n = m" using unique_onD [OF assms(2) j(2) m(1)] j(7) m(2) by simp
  then have "j = i" using unique [OF j(1) i(1) j(8) i'(3)] j m i' by (simp add: invocation_key_def)
  then have "u = t" using unique_onD [OF assms(3) j(3) t(1)] j(5) t(2) by simp
  with ok [unfolded ensure_bound_turn_allows_delivery_settlement_def hit option.case prod.case] show ?thesis
    by (cases "t_state t") (simp_all split: if_splits)
qed

lemma sessions_terminalize:
  assumes core: "core_inv d" and inv: "sessions_inv d" and frame: "same_satellites d d1"
    "invocations d1 = invocations d" "messages d1 = messages d"
    and ok: "terminalize_invocation a mid token c reason now d1 = Inr d'"
  shows "sessions_inv d' \<and> session_history d d'"
proof -
  let ?allow = "c = OutcomeUnknown \<and> reason = ''blocked''"
  note d' = terminalize_invocation_Inr [OF ok]
  have allowed: "ensure_bound_turn_allows_delivery_settlement a mid token ?allow d1 = Inr ()"
    using ok by (auto simp: terminalize_invocation_def and_then_eq_Inr)
  have turns: "session_binding_turns d1 = session_binding_turns d"
    using frame(1) by (simp add: same_satellites_def same_sessions_def)
  have "unique_on m_id (messages d1)" using core_invD(2) [OF core] frame(3) by (simp add: messages_inv_def)
  moreover have "unique_on t_invocation_id (session_binding_turns d1)"
    using inv turns by (simp add: sessions_inv_def turn_links_def)
  ultimately have settled: "t_state t = TurnQuiescent \<or> ?allow \<and> t_state t = TurnUncertain"
    if "i \<in> set (invocations d1)" "terminalize_predicate a mid token d1 i"
      "t \<in> set (session_binding_turns d1)" "t_invocation_id t = i_id i" for i t
    using settlement_allowed [OF _ _ _ allowed that] open_invocation_unique [OF core_invD(5) [OF core]]
    unfolding frame(2) by blast
  have same: "same_sessions d d'" using frame(1) by (simp add: d' same_satellites_def same_sessions_def)
  have kept: "rows_kept invocation_kept (invocations d) (invocations d')"
    using history_terminalize [OF ok] frame(2) by (simp add: history_def)
  show ?thesis
    using inv same kept
  proof (rule sessions_frame)
    fix i t
    assume i: "i \<in> set (invocations d)" "i_state i = DispatchArmed"
      and t: "t \<in> set (session_binding_turns d)" "t_invocation_id t = i_id i" "t_state t \<noteq> TurnQuiescent"
    let ?f = "terminal_row now c reason"
    show "\<exists>j\<in>set (invocations d'). invocation_kept i j \<and> turn_fate (t_state t) j"
    proof (cases "terminalize_predicate a mid token d1 i")
      case True
      then have "?allow \<and> t_state t = TurnUncertain" using settled [of i t] i t frame(2) turns by simp
      moreover have "?f i \<in> set (invocations d')" using True i(1) frame(2) by (auto simp: d' intro!: update_whereI1)
      ultimately show ?thesis using i(2) by (intro bexI [of _ "?f i"]) simp_all
    next
      case False
      then have "i \<in> set (invocations d')" using i(1) frame(2) by (auto simp: d' intro!: update_whereI2)
      then show ?thesis using i(2) t(3) by (intro bexI [of _ i]) (cases "t_state t"; simp)+
    qed
  qed
qed

lemma sessions_acknowledge:
  assumes "core_inv d" and "sessions_inv d" and ok: "acknowledge_delivery now a mid token d = Inr (u, d')"
  shows "sessions_inv d' \<and> session_history d d'"
proof -
  obtain moved d1 where upd: "mark_acknowledged a mid token now d = (moved, d1)" by fastforce
  have "d' = d \<or> terminalize_invocation a mid token OutcomeKnown ''acknowledged'' now d1 = Inr d'"
    using ok by (auto simp: acknowledge_delivery_def upd and_then_eq_Inr split: if_splits)
  then show ?thesis
    using sessions_terminalize [OF assms(1,2) leased_row_update_frame [OF upd [unfolded mark_acknowledged_def]]]
      assms(2) session_history_refl by blast
qed

lemma sessions_retry:
  assumes "core_inv d" and "sessions_inv d" and ok: "retry_delivery now a mid inp d = Inr (u, d')"
  shows "sessions_inv d' \<and> session_history d d'"
proof -
  obtain at where body: "(let (moved, d1) = mark_retry a mid inp at now d in
     if moved then and_then (terminalize_invocation a mid (retry_lease_token inp) NotStarted ''retry'' now d1)
       (\<lambda>d. Inr ((), d))
     else and_then (settle_miss a mid (retry_lease_token inp) ''retry'' d) (\<lambda>_. Inr ((), d))) = Inr (u, d')"
    using ok unfolding retry_delivery_def and_then_eq_Inr by auto
  obtain moved d1 where upd: "mark_retry a mid inp at now d = (moved, d1)" by fastforce
  have "d' = d \<or> terminalize_invocation a mid (retry_lease_token inp) NotStarted ''retry'' now d1 = Inr d'"
    using body by (auto simp: upd and_then_eq_Inr split: if_splits)
  then show ?thesis
    using sessions_terminalize [OF assms(1,2) leased_row_update_frame [OF upd [unfolded mark_retry_def]]]
      assms(2) session_history_refl by blast
qed

lemma sessions_block:
  assumes core: "core_inv d" and inv: "sessions_inv d" and ok: "block_delivery now a mid inp d = Inr ((x, created), d')"
  shows "sessions_inv d' \<and> session_history d d'"
  using core ok
proof (cases rule: block_delivery_cases)
  case (blocked d1 d2 n)
  obtain mk where ins: "insert_block_row mk d1 = Inr (n, d2)" using blocked(2) by (rule insert_block_record_Inr)
  have "same_satellites d d2" "invocations d2 = invocations d" "messages d2 = messages d"
    using leased_row_update_frame [OF blocked(1)] insert_block_row_frame [OF ins]
    by (auto intro: same_satellites_trans)
  from sessions_terminalize [OF core inv this blocked(3)] show ?thesis .
qed (use inv session_history_refl in blast)

lemma sessions_resolve:
  assumes core: "core_inv d" and inv: "sessions_inv d" and ok: "resolve_delivery_block now bid inp d = Inr (u, d')"
  shows "sessions_inv d' \<and> session_history d d'"
proof -
  obtain d1 y where res: "resolve_delivery_block_transaction bid inp now d = Inr d1"
    and ret: "retire_uncertain_session_for_delivery_block bid (resolve_resolution inp) now d1 = Inr (y, d')"
    using ok by (auto simp: resolve_delivery_block_def and_then_eq_Inr)
  show ?thesis
  proof (rule sessions_then)
    show "sessions_inv d1 \<and> session_history d d1"
      using sessions_same [OF inv] resolve_transaction_frame [OF core res] by blast
    assume inv1: "sessions_inv d1"
    then have "bindings_inv d1" "turn_links d1" by (simp_all add: sessions_inv_def)
    from sessions_lanes_step [OF inv1 retire_uncertain_step [OF this ret] retire_uncertain_core [OF ret]]
    show "sessions_inv d' \<and> session_history d1 d'" .
  qed
qed

lemma sessions_arm:
  assumes core: "core_inv d" and inv: "sessions_inv d" and ok: "arm_invocation_transaction a iid inp now d = Inr (x, d')"
  shows "sessions_inv d' \<and> session_history d d'"
proof (rule sessions_frame [OF inv])
  show "same_sessions d d'" using arm_invocation_effect [OF ok] by (auto simp: same_sessions_def)
  show "rows_kept invocation_kept (invocations d) (invocations d')"
    using history_arm [OF core ok] by (simp add: history_def)
  fix i t
  assume i: "i \<in> set (invocations d)" "i_state i = DispatchArmed" and "t_state t \<noteq> TurnQuiescent"
  moreover have "i \<in> set (invocations d')"
    using arm_invocation_effect [OF ok] i by (auto intro!: update_whereI2)
  ultimately show "\<exists>j\<in>set (invocations d'). invocation_kept i j \<and> turn_fate (t_state t) j"
    by (intro bexI [of _ i]) (cases "t_state t"; simp)+
qed

lemma complete_frame:
  assumes "complete_invocation_transaction uuid msg_now a iid inp now allow d = Inr ((c, created), d')"
  shows "same_satellites d d' \<and> (\<forall>i\<in>set (invocations d).
    \<not> (i_id i = iid \<and> i_state i = DispatchArmed) \<longrightarrow> i \<in> set (invocations d'))"
  using assms
proof (cases rule: complete_cases)
  case (completed i r m result d1 d2)
  have "same_satellites d d2" "invocations d2 = invocations d"
    using insert_message_frame [OF completed(6)] leased_row_update_frame [OF completed(7)]
    by (auto intro: same_satellites_trans)
  then show ?thesis
    by (auto simp: completed(8) same_satellites_def same_sessions_def intro!: update_whereI2)
qed simp

lemma sessions_complete:
  assumes core: "core_inv d" and inv: "sessions_inv d"
    and ok: "complete_invocation uuid msg_now now a iid inp d = Inr ((c, created), d')"
  shows "sessions_inv d' \<and> session_history d d'"
proof (rule sessions_frame [OF inv])
  note tx = ok [unfolded complete_invocation_def]
  show "same_sessions d d'" using complete_frame [OF tx] by (simp add: same_satellites_def)
  show "rows_kept invocation_kept (invocations d) (invocations d')"
    using history_complete [OF core tx] by (simp add: history_def)
  fix i t
  assume i: "i \<in> set (invocations d)" "i_state i = DispatchArmed"
    and t: "t \<in> set (session_binding_turns d)" "t_invocation_id t = i_id i" "t_state t \<noteq> TurnQuiescent"
  have free: "ensure_invocation_not_active_on_session iid d = Inr ()"
    using tx by (auto simp: complete_invocation_transaction_def and_then_eq_Inr)
  have "i_id i \<noteq> iid"
  proof
    assume "i_id i = iid"
    then have "find (\<lambda>u. t_invocation_id u = iid) (session_binding_turns d) = Some t"
      using inv t by (simp add: find_key_iff sessions_inv_def turn_links_def)
    with free t(3) show False
      by (cases "t_state t") (simp_all add: ensure_invocation_not_active_on_session_def)
  qed
  then have "i \<in> set (invocations d')" using complete_frame [OF tx] i(1) by blast
  with i t show "\<exists>j\<in>set (invocations d'). invocation_kept i j \<and> turn_fate (t_state t) j"
    by (intro bexI [of _ i]) (cases "t_state t"; simp)+
qed

section \<open>Recovery\<close>

lemma sessions_inv_bound:
  "sessions_inv d \<Longrightarrow> t \<in> set (session_binding_turns d) \<Longrightarrow> \<exists>s\<in>set (session_bindings d). binding_key s = turn_key t"
  unfolding sessions_inv_def turn_fates_def by blast

lemma park_marks:
  assumes "park_expired_armed_invocation a now (i, r) d = Inr d'"
  obtains reason d0 where "mark_expired_session_turn_uncertain (i_id i) reason now d0 = Inr d'"
    and "same_satellites d d0"
    and "invocations d0 = update_where (\<lambda>j. i_id j = i_id i \<and> i_state j = DispatchArmed) (parked_row now) (invocations d)"
proof -
  define reason where "reason = ''invocation '' @ i_id i @ '' lease expired after dispatch was armed''"
  let ?P = "\<lambda>j. i_id j = i_id i \<and> i_state j = DispatchArmed"
  obtain moved d1 where upd: "block_expired_lease a (i_message_seq i) (i_lease_token i) reason now d = (moved, d1)"
    by fastforce
  note ok = assms [unfolded park_expired_armed_invocation_def prod.case Let_def
      reason_def [symmetric] upd record_block_def]
  obtain n d2 where ins: "insert_block_row (new_block_row (i_message_seq i) a (d_attempt r)
      (i_lease_token i) reason now) d1 = Inr (n, d2)"
    and mark: "mark_expired_session_turn_uncertain (i_id i) reason now
      (d2\<lparr>invocations := update_where ?P (parked_row now) (invocations d2)\<rparr>) = Inr d'"
    using ok by (cases moved) (auto simp: and_then_eq_Inr parked_row_def split: if_splits)
  have frame: "same_satellites d d2" "invocations d2 = invocations d"
    using leased_row_update_frame [OF upd [unfolded block_expired_lease_def]] insert_block_row_frame [OF ins]
    by (auto intro: same_satellites_trans)
  show thesis
    by (rule that [OF mark]) (use frame in \<open>simp_all add: same_satellites_def same_sessions_def\<close>)
qed

lemma sessions_park:
  assumes inv: "sessions_inv d" and ok: "park_expired_armed_invocation a now (i, r) d = Inr d'"
  shows "sessions_inv d' \<and> session_history d d'"
  using ok
proof (rule park_marks)
  fix reason d0
  assume mark: "mark_expired_session_turn_uncertain (i_id i) reason now d0 = Inr d'"
    and same: "same_satellites d d0"
    and invs: "invocations d0 = update_where (\<lambda>j. i_id j = i_id i \<and> i_state j = DispatchArmed)
      (parked_row now) (invocations d)"
  have sess: "same_sessions d d0" using same by (simp add: same_satellites_def)
  have eq: "session_binding_turns d0 = session_binding_turns d" "session_bindings d0 = session_bindings d"
    using sess by (simp_all add: same_sessions_def)
  have "made_uncertain (i_id i) d0 d'"
    using _ _ _ mark
  proof (rule mark_expired_step)
    show "bindings_inv d0" "turn_links d0" using inv same_sessions_links [OF sess] by (simp_all add: sessions_inv_def)
    show "t \<in> set (session_binding_turns d0) \<Longrightarrow> \<exists>s\<in>set (session_bindings d0). binding_key s = turn_key t" for t
      using sessions_inv_bound [OF inv] by (simp add: eq)
  qed
  then show ?thesis
  proof (rule sessions_made_uncertain [OF inv sess])
    show "invocations d' = update_where (\<lambda>j. i_id j = i_id i \<and> i_state j = DispatchArmed) (parked_row now) (invocations d)"
      using mark_expired_core [OF mark] invs by (simp add: same_core_def)
  qed (simp add: parked_row_def terminal_row_def invocation_kept_def same_identity_def)
qed

lemma sessions_terminalize_expired:
  assumes "sessions_inv d" and "terminalize_expired_reservations a now d = (n, d')"
  shows "sessions_inv d' \<and> session_history d d'"
proof (rule sessions_frame [OF assms(1)])
  have d': "d' = snd (terminalize_expired_reservations a now d)" using assms(2) by simp
  show "same_sessions d d'"
    unfolding d' by (simp add: terminalize_expired_reservations_def Let_def same_sessions_def)
  show "rows_kept invocation_kept (invocations d) (invocations d')"
    using history_terminalize_expired [OF assms(2)] by (simp add: history_def)
  fix i t
  assume i: "i \<in> set (invocations d)" "i_state i = DispatchArmed" and "t_state t \<noteq> TurnQuiescent"
  moreover have "i \<in> set (invocations d')"
    unfolding d' using i by (auto simp: terminalize_expired_reservations_def Let_def intro!: update_whereI2)
  ultimately show "\<exists>j\<in>set (invocations d'). invocation_kept i j \<and> turn_fate (t_state t) j"
    by (intro bexI [of _ i]) (cases "t_state t"; simp)+
qed

lemma sessions_recover:
  assumes inv: "sessions_inv d" and ok: "recover_expired_invocations_transaction a now d = Inr (n, d')"
  shows "sessions_inv d' \<and> session_history d d'"
proof -
  obtain n1 d1 where res: "terminalize_expired_reservations a now d = (n1, d1)" by fastforce
  have "try_fold (\<lambda>row (n, d). and_then (park_expired_armed_invocation a now row d) (\<lambda>d.
      Inr (saturating_add_u64 n 1, d))) (expired_armed a now d1) (n1, d1) = Inr (n, d')"
    using ok by (simp add: recover_expired_invocations_transaction_def res)
  then have "(\<lambda>(n, e). sessions_inv e \<and> session_history d e) (n, d')"
  proof (rule try_fold_invariant)
    fix row s t
    assume step: "(case s of (n, d) \<Rightarrow> and_then (park_expired_armed_invocation a now row d)
        (\<lambda>d. Inr (saturating_add_u64 n 1, d))) = Inr t" and s: "(\<lambda>(n, e). sessions_inv e \<and> session_history d e) s"
    obtain i r m e where rs: "row = (i, r)" "s = (m, e)" by (metis surj_pair)
    with step obtain e' where park: "park_expired_armed_invocation a now (i, r) e = Inr e'"
      "t = (saturating_add_u64 m 1, e')" by (auto simp: and_then_eq_Inr)
    have "sessions_inv e' \<and> session_history d e'"
      using sessions_then [OF _ sessions_park [OF _ park(1)]] s rs by auto
    then show "(\<lambda>(n, e). sessions_inv e \<and> session_history d e) t" by (simp add: park(2))
  qed (simp add: sessions_terminalize_expired [OF inv res])
  then show ?thesis by simp
qed

lemma sessions_recover_agents:
  assumes inv: "sessions_inv d" and ok: "recover_agents as now d = Inr (n, d')"
  shows "sessions_inv d' \<and> session_history d d'"
proof -
  have "(\<lambda>(n, e). sessions_inv e \<and> session_history d e) (n, d')"
    using ok unfolding recover_agents_def
  proof (rule try_fold_invariant)
    fix aid s t
    assume step: "(case s of (recovered, d) \<Rightarrow> and_then (recover_expired_invocations_transaction aid now d)
        (\<lambda>(n, d). Inr (saturating_add_u64 recovered n, d))) = Inr t"
      and s: "(\<lambda>(n, e). sessions_inv e \<and> session_history d e) s"
    obtain m e where se: "s = (m, e)" by fastforce
    with step obtain k e' where rec: "recover_expired_invocations_transaction aid now e = Inr (k, e')"
      "t = (saturating_add_u64 m k, e')" by (auto simp: and_then_eq_Inr)
    have "sessions_inv e' \<and> session_history d e'"
      using sessions_then [OF _ sessions_recover [OF _ rec(1)]] s se by auto
    then show "(\<lambda>(n, e). sessions_inv e \<and> session_history d e) t" by (simp add: rec(2))
  qed (simp add: inv session_history_refl)
  then show ?thesis by simp
qed

lemma sessions_claim:
  assumes inv: "sessions_inv d" and ok: "claim_deliveries token now a inp d = Inr (batch, d')"
  shows "sessions_inv d' \<and> session_history d d'"
  using ok
proof (rule claim_deliveries_Inr)
  fix n d1
  assume rec: "recover_expired_invocations_transaction a now d = Inr (n, d1)"
    and d': "d' = lease_claimable a token (batch_lease_expires_at_ms batch) now (claim_limit inp) None d1"
  from sessions_then [OF sessions_recover [OF inv rec] sessions_same [OF _ lease_claimable_frame]]
  show ?thesis by (simp add: d')
qed

lemma sessions_insert_invocation:
  assumes inv: "sessions_inv d" and ok: "reserve_row uuid fence row a token expires now d = Inr (x, d')"
  shows "sessions_inv d' \<and> session_history d d'"
proof -
  obtain i where "insert_invocation_row i d = Inr d'"
    using ok by (auto simp: reserve_row_def Let_def and_then_eq_Inr split: prod.splits)
  then have d': "d' = d\<lparr>invocations := invocations d @ [i]\<rparr>" by (auto dest: insert_invocation_row_effect)
  show ?thesis
  proof (rule sessions_frame [OF inv])
    fix i t
    assume "i \<in> set (invocations d)" "i_state i = DispatchArmed" "t_state t \<noteq> TurnQuiescent"
    then show "\<exists>j\<in>set (invocations d'). invocation_kept i j \<and> turn_fate (t_state t) j"
      by (intro bexI [of _ i]) (cases "t_state t"; simp add: d')+
  qed (simp_all add: d' same_sessions_def)
qed

lemma sessions_reserve:
  assumes inv: "sessions_inv d"
    and ok: "reserve_invocations_filtered token uuids fences now a inp kinds d = Inr (xs, d')"
  shows "sessions_inv d' \<and> session_history d d'"
proof -
  obtain n d1 expires where rec: "recover_expired_invocations_transaction a now d = Inr (n, d1)"
    and res: "reserve_rows uuids fences
      (leased_rows a token (lease_claimable a token expires now (claim_limit inp) kinds d1))
      a token expires now (lease_claimable a token expires now (claim_limit inp) kinds d1) = Inr (xs, d')"
    using ok by (auto simp: reserve_invocations_filtered_def and_then_eq_Inr Let_def)
  let ?d = "lease_claimable a token expires now (claim_limit inp) kinds d1"
  have start: "sessions_inv ?d \<and> session_history d ?d"
    by (rule sessions_then [OF sessions_recover [OF inv rec] sessions_same [OF _ lease_claimable_frame]])
  have "(\<lambda>(xs, e). sessions_inv e \<and> session_history d e) (xs, d')"
    using res unfolding reserve_rows_def
  proof (rule try_fold_invariant)
    fix y s t
    assume step: "(case y of (n, row) \<Rightarrow> \<lambda>(invs, d). and_then (reserve_row (uuids n) (fences n) row a token expires now d)
        (\<lambda>(inv, d). Inr (invs @ [inv], d))) s = Inr t" and s: "(\<lambda>(xs, e). sessions_inv e \<and> session_history d e) s"
    obtain k row ys e where "y = (k, row)" "s = (ys, e)" by (metis surj_pair)
    with step s show "(\<lambda>(xs, e). sessions_inv e \<and> session_history d e) t"
      by (auto simp: and_then_eq_Inr dest: sessions_insert_invocation intro: session_history_trans)
  qed (use start in simp)
  then show ?thesis by simp
qed

section \<open>Bound turns\<close>

lemma arm_invocation_armed:
  assumes "arm_invocation_transaction a iid inp now d = Inr (x, d')"
  shows "\<exists>i\<in>set (invocations d'). i_id i = iid \<and> i_agent_id i = a \<and> i_state i = DispatchArmed"
proof -
  obtain i r m where row: "invocation_with_delivery a iid d = Inr (i, r, m)"
    using assms unfolding arm_invocation_transaction_def and_then_eq_Inr by auto
  note i = invocation_with_delivery_Inr(1-3) [OF row]
  let ?P = "\<lambda>i. i_id i = iid \<and> i_agent_id i = a \<and> i_state i = Reserved"
  have "i_state i = DispatchArmed \<and> d' = d
      \<or> ?P i \<and> d' = d\<lparr>invocations := update_where ?P (armed_row now) (invocations d)\<rparr>"
    using assms i unfolding arm_invocation_transaction_def row
    by (cases "i_state i") (auto simp: and_then_eq_Inr Let_def split: if_splits)
  then show ?thesis
  proof
    assume "?P i \<and> d' = d\<lparr>invocations := update_where ?P (armed_row now) (invocations d)\<rparr>"
    then have "armed_row now i \<in> set (invocations d')" using i(1) by (auto intro!: update_whereI1)
    then show ?thesis using i by (intro bexI [of _ "armed_row now i"]) (simp_all add: armed_row_def)
  qed (use i in blast)
qed

lemma activate_binding_turn_Inr:
  assumes "activate_binding_turn a iid b now d = Inr d'"
  obtains (bound) t where "t \<in> set (session_binding_turns d)" "t_invocation_id t = iid" "d' = d"
  | (started) f t d1 where "owner_fence_new a b = Inr f" "insert_turn_row t d = Inr d1" "t_state t = TurnActive"
      "turn_check t" "t_invocation_id t = iid" "turn_key t = (f_binding_id f, f_binding_generation f)"
      "t_owner_epoch t = f_owner_epoch f"
      "fenced_update f (\<lambda>s. s_state s = Ready \<and> s_active_invocation_id s = None)
        (activated_row iid now) ''session binding changed while turn was armed'' d1 = Inr d'"
proof -
  obtain f where f: "owner_fence_new a b = Inr f" using assms by (auto simp: activate_binding_turn_def and_then_eq_Inr)
  let ?t = "\<lparr>t_invocation_id = iid, t_binding_id = f_binding_id f, t_binding_generation = f_binding_generation f,
    t_owner_epoch = f_owner_epoch f, t_state = TurnActive, t_started_at_ms = now, t_terminal_at_ms = None,
    t_session_persistence = None, t_uncertain_reason = None\<rparr>"
  show thesis
  proof (cases "find (\<lambda>t. t_invocation_id t = iid) (session_binding_turns d)")
    case None
    with assms f obtain d1 where "insert_turn_row ?t d = Inr d1"
      "fenced_update f (\<lambda>s. s_state s = Ready \<and> s_active_invocation_id s = None)
        (activated_row iid now) ''session binding changed while turn was armed'' d1 = Inr d'"
      by (auto simp: activate_binding_turn_def and_then_eq_Inr)
    then show thesis
      using started [OF f, of ?t d1] owner_fence_new_Inr(5) [OF f] by (simp add: turn_check_def turn_key_def)
  next
    case (Some t)
    then show thesis
      using assms f bound [of t] find_in [OF Some] by (auto simp: activate_binding_turn_def and_then_eq_Inr split: if_splits)
  qed
qed

lemma sessions_activate:
  assumes core: "core_inv d" and inv: "sessions_inv d"
    and armed: "i \<in> set (invocations d)" "i_id i = iid" "i_agent_id i = a" "i_state i = DispatchArmed"
    and ok: "activate_binding_turn a iid b now d = Inr d'"
  shows "sessions_inv d' \<and> session_history d d'"
  using ok
proof (cases rule: activate_binding_turn_Inr)
  case (started f t d1)
  have invs: "invocations d' = invocations d" using activate_binding_turn_core [OF ok] by (simp add: same_core_def)
  have step: "bindings_inv d' \<and> turn_links d' \<and> session_history d d'"
    using started_turn_step [OF _ _ started(2-8)] inv by (simp add: sessions_inv_def)
  have turns: "session_binding_turns d' = session_binding_turns d @ [t]"
    using started(2) fenced_update_turns [OF started(8)] by (auto simp: insert_turn_row_def split: if_splits)
  have "\<exists>s\<in>set (session_bindings d'). binding_key s = turn_key t \<and> s_agent_id s = a"
    using started(8)
  proof (rule activated.fenced_row)
    fix s
    assume s: "s \<in> set (session_bindings d1)" "fence_predicate f s" "s_state s = Ready \<and> s_active_invocation_id s = None"
      and "d' = d1\<lparr>session_bindings := update_where (\<lambda>s. fence_predicate f s \<and> s_state s = Ready
        \<and> s_active_invocation_id s = None) (activated_row iid now) (session_bindings d1)\<rparr>"
    then have "activated_row iid now s \<in> set (session_bindings d')" by (auto intro!: update_whereI1)
    then show ?thesis
      using s(2) started(6) owner_fence_new_Inr(3) [OF started(1)]
      by (intro bexI [of _ "activated_row iid now s"])
        (simp_all add: activated_row_def binding_key_def fence_predicate_def)
  qed
  moreover have "i_dispatch_armed_at_ms i \<noteq> None"
    using invocation_okD [OF core_invD(5) [OF core] armed(1)] armed(4)
    by (simp add: invocation_ok_def invocation_check_def)
  ultimately have new: "\<exists>i\<in>set (invocations d'). i_id i = t_invocation_id t \<and> i_dispatch_armed_at_ms i \<noteq> None
      \<and> turn_fate (t_state t) i \<and> (\<exists>s\<in>set (session_bindings d'). binding_key s = turn_key t \<and> s_agent_id s = i_agent_id i)"
    using armed started(3,5) by (intro bexI [of _ i]) (auto simp: invs)
  have kept: "rows_kept binding_kept (session_bindings d) (session_bindings d')"
    using step by (simp add: session_history_def)
  have old: "\<exists>i\<in>set (invocations d'). i_id i = t_invocation_id u \<and> i_dispatch_armed_at_ms i \<noteq> None
      \<and> turn_fate (t_state u) i \<and> (\<exists>s\<in>set (session_bindings d'). binding_key s = turn_key u \<and> s_agent_id s = i_agent_id i)"
    if u: "u \<in> set (session_binding_turns d)" for u
  proof -
    obtain j s where j: "j \<in> set (invocations d)" "i_id j = t_invocation_id u" "i_dispatch_armed_at_ms j \<noteq> None"
      "turn_fate (t_state u) j" and s: "s \<in> set (session_bindings d)" "binding_key s = turn_key u"
      "s_agent_id s = i_agent_id j"
      using inv u unfolding sessions_inv_def turn_fates_def by blast
    from binding_agent_kept [OF kept s(1)] s(2,3) j show ?thesis unfolding invs by auto
  qed
  have "turn_fates d'" unfolding turn_fates_def turns using new old by auto
  with step show ?thesis by (simp add: sessions_inv_def)
qed (use inv session_history_refl in blast)

lemma sessions_arm_session:
  assumes core: "core_inv d" and inv: "sessions_inv d"
    and ok: "arm_session_invocation now a iid b sref gid inp d = Inr (x, d')"
  shows "sessions_inv d' \<and> session_history d d'"
  using ok
proof (rule arm_session_invocation_Inr)
  fix row i d1 d2
  assume arm: "arm_invocation_transaction a iid inp now d = Inr (i, d1)"
    and act: "activate_binding_turn a iid b now d1 = Inr d2"
    and obs: "begin_invocation_observation a iid gid b now d2 = Inr d'"
  have one: "sessions_inv d1 \<and> session_history d d1" by (rule sessions_arm [OF core inv arm])
  obtain j where "j \<in> set (invocations d1)" "i_id j = iid" "i_agent_id j = a" "i_state j = DispatchArmed"
    using arm_invocation_armed [OF arm] by blast
  from sessions_activate [OF core_inv_arm [OF core arm] _ this act] one
  have two: "sessions_inv d2 \<and> session_history d d2" using session_history_trans by blast
  have "same_sessions d2 d'" "invocations d' = invocations d2"
    using begin_invocation_observation_core [OF obs] by (auto simp: same_core_def)
  from sessions_then [OF two sessions_frame_same [OF _ this]] show ?thesis .
qed

lemma turn_of_invocation:
  assumes "core_inv d" and "sessions_inv d" and "i \<in> set (invocations d)"
    and "t \<in> set (session_binding_turns d)" and "t_invocation_id t = i_id i"
  shows "turn_fate (t_state t) i"
proof -
  obtain j where j: "j \<in> set (invocations d)" "i_id j = i_id i" "turn_fate (t_state t) j"
    using assms(2,4,5) unfolding sessions_inv_def turn_fates_def by force
  have "unique_on i_id (invocations d)" using core_invD(5) [OF assms(1)] by (simp add: invocations_inv_def)
  from unique_onD [OF this j(1) assms(3) j(2)] j(3) show ?thesis by simp
qed

lemma complete_session_cases:
  assumes core: "core_inv d" and inv: "sessions_inv d"
    and ok: "complete_session_invocation uuid msg_now now a iid b p inp d = Inr ((c, created), d')"
  obtains (replay) "d' = d"
  | (finished) i d1 seq f d2 where
      "i \<in> set (invocations d)" "i_id i = iid" "i_agent_id i = a" "i_state i = DispatchArmed"
      "same_satellites d d1"
      "invocations d1 = update_where (\<lambda>i. i_id i = iid \<and> i_agent_id i = a \<and> i_state i = DispatchArmed)
        (completed_row now seq) (invocations d)"
      "update_turn iid (\<lambda>t. t\<lparr>t_state := TurnQuiescent, t_terminal_at_ms := Some now,
        t_session_persistence := Some p\<rparr>) ''session turn changed during completion'' d1 = Inr d2"
      "fenced_update f (\<lambda>s. s_state s = Active \<and> s_active_invocation_id s = Some iid)
        (quiescent_row iid p now) ''session binding changed during completion'' d2 = Inr d'"
proof -
  from ok obtain d1 where tx: "complete_invocation_transaction uuid msg_now a iid inp now True d = Inr ((c, created), d1)"
    and settle: "settle_quiescent_turn a iid b p now d1 = Inr d'" by (rule complete_session_invocation_Inr)
  obtain t where t: "find (\<lambda>t. t_invocation_id t = iid) (session_binding_turns d1) = Some t"
    using settle by (auto simp: settle_quiescent_turn_def bound_turn_row_def and_then_eq_Inr ok_or_eq_Inr)
  have "session_binding_turns d1 = session_binding_turns d"
    using complete_frame [OF tx] by (simp add: same_satellites_def same_sessions_def)
  then have t': "t \<in> set (session_binding_turns d)" "t_invocation_id t = iid" using find_in [OF t] by auto
  have close: "t_state t = TurnQuiescent \<and> d' = d1 \<or> t_state t = TurnActive \<and> (\<exists>f d2.
      update_turn iid (\<lambda>t. t\<lparr>t_state := TurnQuiescent, t_terminal_at_ms := Some now,
        t_session_persistence := Some p\<rparr>) ''session turn changed during completion'' d1 = Inr d2
      \<and> fenced_update f (\<lambda>s. s_state s = Active \<and> s_active_invocation_id s = Some iid)
        (quiescent_row iid p now) ''session binding changed during completion'' d2 = Inr d')"
    using settle by (auto simp: settle_quiescent_turn_def bound_turn_row_def t ok_or_def and_then_eq_Inr split: if_splits)
  obtain i r m where row: "invocation_with_delivery a iid d = Inr (i, r, m)"
    using tx unfolding complete_invocation_transaction_def and_then_eq_Inr by auto
  note i = invocation_with_delivery_Inr(1-3) [OF row]
  have fate: "turn_fate (t_state t) i" using turn_of_invocation [OF core inv i(1) t'(1)] t'(2) i(2) by simp
  show thesis
  proof (cases "i_state i = DispatchArmed")
    case True
    then have active: "t_state t = TurnActive" using fate close by auto
    from tx show thesis
    proof (cases rule: complete_cases)
      case replay
      have "i_state i = Terminal"
        using tx replay(2) True by (auto simp: complete_invocation_transaction_def row and_then_eq_Inr Let_def split: if_splits)
      then show thesis using True by simp
    next
      case (completed i' r' m' result d3 d4)
      have "invocations d4 = invocations d" using insert_message_frame [OF completed(6)] leased_row_update_frame [OF completed(7)] by simp
      then have "invocations d1 = update_where (\<lambda>i. i_id i = iid \<and> i_agent_id i = a \<and> i_state i = DispatchArmed)
          (completed_row now (msg_seq result)) (invocations d)" by (simp add: completed(8))
      then show thesis using finished [OF i True] complete_frame [OF tx] close active by auto
    qed
  next
    case False
    then have "t_state t \<noteq> TurnActive" using fate by auto
    then have "d' = d1" using close by simp
    moreover have "d1 = d"
      using tx
    proof (cases rule: complete_cases)
      case (completed i' r' m' result d3 d4)
      then show ?thesis using row False by simp
    qed
    ultimately show thesis using replay by simp
  qed
qed

lemma sessions_complete_session:
  assumes core: "core_inv d" and inv: "sessions_inv d"
    and ok: "complete_session_invocation uuid msg_now now a iid b p inp d = Inr ((c, created), d')"
  shows "sessions_inv d' \<and> session_history d d'"
  using core inv ok
proof (cases rule: complete_session_cases)
  case (finished i d1 seq f d2)
  let ?T = "\<lambda>t. t_invocation_id t = iid \<and> t_state t = TurnActive"
  let ?P = "\<lambda>i. i_id i = iid \<and> i_agent_id i = a \<and> i_state i = DispatchArmed"
  let ?f = "\<lambda>t. t\<lparr>t_state := TurnQuiescent, t_terminal_at_ms := Some now, t_session_persistence := Some p\<rparr>"
  have sess: "same_sessions d d1" using finished(5) by (simp add: same_satellites_def)
  have step: "bindings_inv d' \<and> turn_links d' \<and> session_history d1 d'"
    using quiescent.ended_turn_step [OF _ _ finished(7,8)] inv same_sessions_links [OF sess]
    by (simp add: sessions_inv_def)
  have hist: "session_history d d'" using step same_sessions_links(3) [OF sess] session_history_trans by blast
  have turns: "session_binding_turns d' = update_where ?T ?f (session_binding_turns d)"
    using finished(7) fenced_update_turns [OF finished(8)] sess
    by (auto simp: update_turn_def Let_def same_sessions_def split: if_splits)
  have invs: "invocations d' = update_where ?P (completed_row now seq) (invocations d)"
    using update_turn_core [OF finished(7)] fenced_update_core [OF finished(8)] finished(6) by (simp add: same_core_def)
  have "turn_fates d'"
  proof (rule turn_fates_step [OF _ hist])
    show "turn_fates d" using inv by (simp add: sessions_inv_def)
    fix t'
    assume "t' \<in> set (session_binding_turns d')"
    then obtain t where t: "t \<in> set (session_binding_turns d)" "t' = (if ?T t then ?f t else t)"
      unfolding turns in_update_where by blast
    have "\<exists>k\<in>set (invocations d'). invocation_kept j k \<and> turn_fate (t_state t') k"
      if j: "j \<in> set (invocations d)" "i_id j = t_invocation_id t" "turn_fate (t_state t) j" for j
    proof (cases "i_id j = iid")
      case True
      have "j = i"
        using unique_onD [of i_id "invocations d" j i] core_invD(5) [OF core] j(1) finished(1,2) True
        by (simp add: invocations_inv_def)
      have "turn_links d1" using inv same_sessions_links(2) [OF sess] by (simp add: sessions_inv_def)
      from update_turn_active [OF this finished(7)] have "?T t"
        using t(1) j(2) True sess by (simp add: same_sessions_def)
      moreover have "completed_row now seq j \<in> set (invocations d')"
        using finished(1-4) \<open>j = i\<close> by (auto simp: invs intro!: update_whereI1)
      ultimately show ?thesis
        using \<open>j = i\<close> finished(4) by (intro bexI [of _ "completed_row now seq j"]) 
          (simp_all add: t(2) completed_row_def invocation_kept_def same_identity_def)
    next
      case False
      then have "j \<in> set (invocations d')" using j(1) by (auto simp: invs intro!: update_whereI2)
      then show ?thesis using j t False by (intro bexI [of _ j]) auto
    qed
    with t show "\<exists>t\<in>set (session_binding_turns d). t_invocation_id t' = t_invocation_id t \<and> turn_key t' = turn_key t
        \<and> (\<forall>i\<in>set (invocations d). i_id i = t_invocation_id t \<and> turn_fate (t_state t) i \<longrightarrow>
           (\<exists>j\<in>set (invocations d'). invocation_kept i j \<and> turn_fate (t_state t') j))"
      by (intro bexI [of _ t]) (auto simp: turn_key_def)
  qed
  with step hist show ?thesis by (simp add: sessions_inv_def)
qed (use inv session_history_refl in blast)

section \<open>Every step\<close>

lemma sessions_directory:
  "sessions_inv d \<Longrightarrow> same_traffic d d' \<Longrightarrow> sessions_inv d' \<and> session_history d d'"
  by (rule sessions_frame_same) (simp_all add: same_traffic_def same_sessions_def)

lemma sessions_evidence:
  "sessions_inv d \<Longrightarrow> same_core d d' \<and> same_sessions d d' \<Longrightarrow> sessions_inv d' \<and> session_history d d'"
  by (rule sessions_frame_same) (simp_all add: same_core_def)

lemma fleet_step_sessions:
  assumes "fleet_step d d'" and core: "core_inv d" and inv: "sessions_inv d"
  shows "sessions_inv d' \<and> session_history d d'"
  using assms(1)
proof (cases rule: fleet_step.cases)
  case agent_created
  from sessions_directory [OF inv create_agent_frame(1) [OF this]] show ?thesis .
next
  case channel_created
  from sessions_directory [OF inv create_channel_frame(1) [OF this]] show ?thesis .
next
  case channel_renamed
  from sessions_directory [OF inv rename_channel_frame(1) [OF this core_invD(1) [OF core]]] show ?thesis .
next
  case channel_archived
  from sessions_directory [OF inv archive_channel_frame(1) [OF this core_invD(1) [OF core]]] show ?thesis .
next
  case direct_opened
  from sessions_directory [OF inv open_direct_pair_frame(1) [OF this]] show ?thesis .
next
  case member_added
  from sessions_directory [OF inv add_member_frame(1) [OF this]] show ?thesis .
next
  case cursor_advanced
  from sessions_directory [OF inv advance_cursor_frame(1) [OF this]] show ?thesis .
next
  case message_appended
  from sessions_same [OF inv append_message_frame [OF this [unfolded append_message_idempotent_def]]] show ?thesis .
next
  case deliveries_claimed
  from sessions_claim [OF inv this] show ?thesis .
next
  case delivery_acknowledged
  from sessions_acknowledge [OF core inv this] show ?thesis .
next
  case delivery_retried
  from sessions_retry [OF core inv this] show ?thesis .
next
  case (delivery_blocked now aid mid bd b)
  then show ?thesis using sessions_block [OF core inv] by (cases b) blast
next
  case block_resolved
  from sessions_resolve [OF core inv this] show ?thesis .
next
  case (block_resolved_alone now bid rb u)
  then have "resolve_delivery_block_transaction bid rb now d = Inr d'"
    by (auto simp: store_resolve_delivery_block_def and_then_eq_Inr)
  from sessions_same [OF inv resolve_transaction_frame [OF core this]] show ?thesis .
next
  case invocations_reserved
  then show ?thesis using sessions_reserve [OF inv] by (auto simp: reserve_invocations_def)
next
  case kinds_reserved
  then show ?thesis using sessions_reserve [OF inv] by (auto simp: reserve_invocations_by_kind_def split: if_splits)
next
  case invocation_armed
  from sessions_arm [OF core inv this [unfolded arm_invocation_def]] show ?thesis .
next
  case (invocation_completed uuid msg_now now aid iid ci c)
  then show ?thesis using sessions_complete [OF core inv] by (cases c) blast
next
  case invocations_recovered
  from sessions_recover_agents [OF inv this] show ?thesis .
next
  case session_armed
  from sessions_arm_session [OF core inv this] show ?thesis .
next
  case (session_completed uuid msg_now now aid iid bnd p ci c)
  then show ?thesis using sessions_complete_session [OF core inv] by (cases c) blast
next
  case session_acquired
  from sessions_lanes_step [OF inv acquire_session_binding_step [OF _ _ this] acquire_session_binding_core [OF this]]
  show ?thesis using inv by (simp add: sessions_inv_def)
next
  case session_opened
  from sessions_lanes_step [OF inv record_session_opened_step [OF _ _ this] record_session_opened_core [OF this]]
  show ?thesis using inv by (simp add: sessions_inv_def)
next
  case session_retired
  from sessions_lanes_step [OF inv retire_session_binding_step [OF _ _ this] retire_session_binding_core [OF this]]
  show ?thesis using inv by (simp add: sessions_inv_def)
next
  case session_uncertain
  from sessions_mark_uncertain [OF inv this] show ?thesis .
next
  case generation_recorded
  from sessions_evidence [OF inv observation_ops_frame(1) [OF this]] show ?thesis .
next
  case generation_heartbeat
  from sessions_evidence [OF inv observation_ops_frame(2) [OF this]] show ?thesis .
next
  case generation_stopped
  from sessions_evidence [OF inv observation_ops_frame(3) [OF this]] show ?thesis .
next
  case event_recorded
  from sessions_evidence [OF inv record_invocation_event_frame [OF this]] show ?thesis .
next
  case terminal_recorded
  from sessions_evidence [OF inv record_invocation_terminal_frame [OF this]] show ?thesis .
qed

end
