(* ===== verification/Evidence.thy ===== *)
theory Evidence
  imports Session_Fleet
begin

text \<open>
  The evidence tables over whole runs.  Every native turn has exactly one observation, made under
  the same binding fence and owned by a generation of the agent; the observation of a turn only
  grows and its terminal summary is final; a stopped generation never changes.
\<close>

section \<open>The invariant and what is kept\<close>

definition generation_kept :: "generation_row \<Rightarrow> generation_row \<Rightarrow> bool" where
  "generation_kept g g' \<longleftrightarrow> g_id g' = g_id g \<and> g_agent_id g' = g_agent_id g
     \<and> g_started_at_ms g' = g_started_at_ms g \<and> (g_state g = GenerationStopped \<longrightarrow> g' = g)"

definition observation_kept :: "observation_row \<Rightarrow> observation_row \<Rightarrow> bool" where
  "observation_kept q q' \<longleftrightarrow>
     o_invocation_id q' = o_invocation_id q \<and> o_generation_id q' = o_generation_id q
     \<and> o_binding_id q' = o_binding_id q \<and> o_binding_generation q' = o_binding_generation q
     \<and> o_owner_epoch q' = o_owner_epoch q \<and> o_started_at_ms q' = o_started_at_ms q
     \<and> o_last_event_seq q \<le> o_last_event_seq q' \<and> o_observed_payload_bytes q \<le> o_observed_payload_bytes q'
     \<and> (o_terminal_at_ms q \<noteq> None \<longrightarrow> q' = q)"

definition evidence_history :: "db \<Rightarrow> db \<Rightarrow> bool" where
  "evidence_history d d' \<longleftrightarrow>
     rows_kept generation_kept (plugin_generations d) (plugin_generations d')
     \<and> rows_kept observation_kept (invocation_observations d) (invocation_observations d')"

text \<open>The identity of a turn and of an observation: the invocation and the fence it was made under.\<close>

definition turn_ids :: "db \<Rightarrow> (string \<times> (string \<times> i64) \<times> i64) set" where
  "turn_ids d = (\<lambda>t. (t_invocation_id t, turn_key t, t_owner_epoch t)) ` set (session_binding_turns d)"

definition observation_id :: "observation_row \<Rightarrow> string \<times> (string \<times> i64) \<times> i64" where
  "observation_id q = (o_invocation_id q, (o_binding_id q, o_binding_generation q), o_owner_epoch q)"

definition evidence_inv :: "db \<Rightarrow> bool" where
  "evidence_inv d \<longleftrightarrow> observations_inv d \<and> observation_id ` set (invocation_observations d) = turn_ids d
     \<and> (\<forall>q\<in>set (invocation_observations d). \<exists>g\<in>set (plugin_generations d). g_id g = o_generation_id q)"

lemma evidence_kept_refl [simp]: "generation_kept g g" "observation_kept q q"
  by (simp_all add: generation_kept_def observation_kept_def)

lemma generation_kept_trans: "generation_kept a b \<Longrightarrow> generation_kept b c \<Longrightarrow> generation_kept a c"
  by (auto simp: generation_kept_def)

lemma observation_kept_trans: "observation_kept a b \<Longrightarrow> observation_kept b c \<Longrightarrow> observation_kept a c"
  by (auto simp: observation_kept_def)

lemma evidence_history_refl: "evidence_history d d"
  by (simp add: evidence_history_def rows_kept_refl)

lemma evidence_history_trans: "evidence_history d d' \<Longrightarrow> evidence_history d' d'' \<Longrightarrow> evidence_history d d''"
  unfolding evidence_history_def rows_kept_def by (meson generation_kept_trans observation_kept_trans)

lemma evidence_inv_empty: "evidence_inv empty_db"
  by (simp add: evidence_inv_def observations_inv_def turn_ids_def empty_db_def)

section \<open>Operations outside the evidence tables\<close>

definition evidence_frame :: "db \<Rightarrow> db \<Rightarrow> bool" where
  "evidence_frame d d' \<longleftrightarrow> plugin_generations d' = plugin_generations d
     \<and> invocation_observations d' = invocation_observations d \<and> turn_ids d' = turn_ids d"

lemma evidence_frame_refl [simp]: "evidence_frame d d"
  by (simp add: evidence_frame_def)

lemma evidence_frame_trans: "evidence_frame d d' \<Longrightarrow> evidence_frame d' d'' \<Longrightarrow> evidence_frame d d''"
  by (simp add: evidence_frame_def)

lemma evidence_framed:
  assumes "evidence_inv d" and "evidence_frame d d'"
  shows "evidence_inv d' \<and> evidence_history d d'"
  using assms observations_inv_cong [of d d']
  by (simp add: evidence_inv_def evidence_frame_def evidence_history_def rows_kept_refl)

lemma evidence_frame_satellites: "same_satellites d d' \<Longrightarrow> evidence_frame d d'"
  by (simp add: evidence_frame_def same_satellites_def same_sessions_def turn_ids_def)

lemma evidence_frame_traffic: "same_traffic d d' \<Longrightarrow> evidence_frame d d'"
  by (simp add: evidence_frame_def same_traffic_def turn_ids_def)

lemma evidence_frame_lanes: "session_only d d' \<Longrightarrow> lanes_step d d' \<Longrightarrow> evidence_frame d d'"
  by (simp add: evidence_frame_def session_only_def lanes_step_def turn_ids_def)

lemma update_turn_ids:
  assumes "update_turn iid f msg d = Inr d'"
    and "\<And>t. t_invocation_id (f t) = t_invocation_id t" "\<And>t. turn_key (f t) = turn_key t"
      "\<And>t. t_owner_epoch (f t) = t_owner_epoch t"
  shows "turn_ids d' = turn_ids d"
proof -
  have "session_binding_turns d' = update_where (\<lambda>t. t_invocation_id t = iid \<and> t_state t = TurnActive) f
      (session_binding_turns d)"
    using assms(1) by (auto simp: update_turn_def Let_def split: if_splits)
  then have "map (\<lambda>t. (t_invocation_id t, turn_key t, t_owner_epoch t)) (session_binding_turns d') =
      map (\<lambda>t. (t_invocation_id t, turn_key t, t_owner_epoch t)) (session_binding_turns d)"
    by (simp add: map_update_where assms(2-))
  then show ?thesis unfolding turn_ids_def set_map [symmetric] by simp
qed

lemma fenced_update_ids: "fenced_update f ok set_row msg d = Inr d' \<Longrightarrow> turn_ids d' = turn_ids d"
  by (auto simp: turn_ids_def dest: fenced_update_turns)

lemma mark_turn_uncertain_frame:
  assumes "mark_turn_uncertain a iid b reason now d = Inr d'"
  shows "evidence_frame d d'"
proof -
  obtain d1 f where turn: "update_turn iid (\<lambda>t. t\<lparr>t_state := TurnUncertain, t_terminal_at_ms := Some now,
      t_uncertain_reason := Some reason\<rparr>) ''session turn changed while fencing uncertainty'' d = Inr d1"
    and upd: "fenced_update f (\<lambda>s. s_state s = Active \<and> s_active_invocation_id s = Some iid)
      (uncertain_row reason now) ''session binding changed while fencing uncertainty'' d1 = Inr d'"
    using assms by (auto simp: mark_turn_uncertain_def and_then_eq_Inr)
  have "turn_ids d1 = turn_ids d" using turn by (rule update_turn_ids) (simp_all add: turn_key_def)
  then show ?thesis
    using fenced_update_ids [OF upd] mark_turn_uncertain_only [OF assms]
    by (simp add: evidence_frame_def session_only_def)
qed

lemma mark_expired_frame:
  "mark_expired_session_turn_uncertain iid reason now d = Inr d' \<Longrightarrow> evidence_frame d d'"
  unfolding mark_expired_session_turn_uncertain_def
  by (auto simp: and_then_eq_Inr intro: mark_turn_uncertain_frame split: option.splits if_splits)

lemma park_frame:
  assumes "park_expired_armed_invocation a now row d = Inr d'"
  shows "evidence_frame d d'"
proof -
  obtain i r where row: "row = (i, r)" by fastforce
  from assms [unfolded row] show ?thesis
    by (rule park_marks) (blast intro: evidence_frame_trans evidence_frame_satellites mark_expired_frame)
qed

lemma recover_frame:
  assumes "recover_expired_invocations_transaction a now d = Inr (n, d')"
  shows "evidence_frame d d'"
proof -
  obtain n1 d1 where res: "terminalize_expired_reservations a now d = (n1, d1)" by fastforce
  have d1: "d1 = snd (terminalize_expired_reservations a now d)" using res by simp
  have start: "evidence_frame d d1"
    unfolding d1 by (simp add: terminalize_expired_reservations_def Let_def evidence_frame_def turn_ids_def)
  have "try_fold (\<lambda>row (n, d). and_then (park_expired_armed_invocation a now row d) (\<lambda>d.
      Inr (saturating_add_u64 n 1, d))) (expired_armed a now d1) (n1, d1) = Inr (n, d')"
    using assms by (simp add: recover_expired_invocations_transaction_def res)
  then have "(\<lambda>(n, e). evidence_frame d e) (n, d')"
    by (rule try_fold_invariant)
      (auto simp: start and_then_eq_Inr intro: evidence_frame_trans [OF _ park_frame])
  then show ?thesis by simp
qed

lemma recover_agents_frame:
  assumes "recover_agents as now d = Inr (n, d')"
  shows "evidence_frame d d'"
proof -
  have "(\<lambda>(n, e). evidence_frame d e) (n, d')"
    using assms unfolding recover_agents_def
    by (rule try_fold_invariant) (auto simp: and_then_eq_Inr intro: evidence_frame_trans [OF _ recover_frame])
  then show ?thesis by simp
qed

lemma claim_frame:
  assumes "claim_deliveries token now a inp d = Inr (batch, d')"
  shows "evidence_frame d d'"
  using assms
proof (rule claim_deliveries_Inr)
  fix n d1
  assume "recover_expired_invocations_transaction a now d = Inr (n, d1)"
    and "d' = lease_claimable a token (batch_lease_expires_at_ms batch) now (claim_limit inp) None d1"
  then show ?thesis
    using evidence_frame_trans [OF recover_frame evidence_frame_satellites [OF lease_claimable_frame(1)]] by blast
qed

lemma reserve_frame:
  assumes "reserve_invocations_filtered token uuids fences now a inp kinds d = Inr (xs, d')"
  shows "evidence_frame d d'"
proof -
  obtain n d1 expires where rec: "recover_expired_invocations_transaction a now d = Inr (n, d1)"
    and res: "reserve_rows uuids fences
      (leased_rows a token (lease_claimable a token expires now (claim_limit inp) kinds d1))
      a token expires now (lease_claimable a token expires now (claim_limit inp) kinds d1) = Inr (xs, d')"
    using assms by (auto simp: reserve_invocations_filtered_def and_then_eq_Inr Let_def)
  let ?d = "lease_claimable a token expires now (claim_limit inp) kinds d1"
  have start: "evidence_frame d ?d"
    using recover_frame [OF rec] evidence_frame_satellites [OF lease_claimable_frame(1)] by (rule evidence_frame_trans)
  have row: "evidence_frame e e'" if ok: "reserve_row uuid fence r a token expires now e = Inr (y, e')" for e e' uuid fence r y
  proof -
    obtain i where "insert_invocation_row i e = Inr e'"
      using ok by (auto simp: reserve_row_def Let_def and_then_eq_Inr split: prod.splits)
    then have "e' = e\<lparr>invocations := invocations e @ [i]\<rparr>" by (auto dest: insert_invocation_row_effect)
    then show ?thesis by (simp add: evidence_frame_def turn_ids_def)
  qed
  have "(\<lambda>(xs, e). evidence_frame d e) (xs, d')"
    using res unfolding reserve_rows_def
    by (rule try_fold_invariant) (auto simp: and_then_eq_Inr start intro: evidence_frame_trans [OF _ row])
  then show ?thesis by simp
qed

lemma terminalize_frame: "terminalize_invocation a mid token c reason now d = Inr d' \<Longrightarrow> evidence_frame d d'"
  by (auto dest: terminalize_invocation_Inr simp: evidence_frame_def turn_ids_def)

lemma leased_evidence_frame: "leased_row_update lr f d = (moved, d') \<Longrightarrow> evidence_frame d d'"
  by (rule evidence_frame_satellites) (rule leased_row_update_frame)

lemma acknowledge_frame:
  assumes "acknowledge_delivery now a mid token d = Inr (u, d')"
  shows "evidence_frame d d'"
proof -
  obtain moved d1 where upd: "mark_acknowledged a mid token now d = (moved, d1)" by fastforce
  have "d' = d \<or> terminalize_invocation a mid token OutcomeKnown ''acknowledged'' now d1 = Inr d'"
    using assms by (auto simp: acknowledge_delivery_def upd and_then_eq_Inr split: if_splits)
  then show ?thesis
    using evidence_frame_trans [OF leased_evidence_frame [OF upd [unfolded mark_acknowledged_def]] terminalize_frame]
    by auto
qed

lemma retry_frame:
  assumes "retry_delivery now a mid inp d = Inr (u, d')"
  shows "evidence_frame d d'"
proof -
  obtain at where body: "(let (moved, d1) = mark_retry a mid inp at now d in
     if moved then and_then (terminalize_invocation a mid (retry_lease_token inp) NotStarted ''retry'' now d1)
       (\<lambda>d. Inr ((), d))
     else and_then (settle_miss a mid (retry_lease_token inp) ''retry'' d) (\<lambda>_. Inr ((), d))) = Inr (u, d')"
    using assms unfolding retry_delivery_def and_then_eq_Inr by auto
  obtain moved d1 where upd: "mark_retry a mid inp at now d = (moved, d1)" by fastforce
  have "d' = d \<or> terminalize_invocation a mid (retry_lease_token inp) NotStarted ''retry'' now d1 = Inr d'"
    using body by (auto simp: upd and_then_eq_Inr split: if_splits)
  then show ?thesis
    using evidence_frame_trans [OF leased_evidence_frame [OF upd [unfolded mark_retry_def]] terminalize_frame] by auto
qed

lemma block_frame:
  assumes "core_inv d" and "block_delivery now a mid inp d = Inr ((x, created), d')"
  shows "evidence_frame d d'"
  using assms
proof (cases rule: block_delivery_cases)
  case (blocked d1 d2 n)
  obtain mk where ins: "insert_block_row mk d1 = Inr (n, d2)" using blocked(2) by (rule insert_block_record_Inr)
  show ?thesis
    using leased_evidence_frame [OF blocked(1)] evidence_frame_satellites [OF insert_block_row_frame(1) [OF ins]]
      terminalize_frame [OF blocked(3)] by (blast intro: evidence_frame_trans)
qed simp

lemma complete_session_frame:
  assumes "complete_session_invocation uuid msg_now now a iid b p inp d = Inr ((c, created), d')"
  shows "evidence_frame d d'"
  using assms
proof (rule complete_session_invocation_Inr)
  fix d1
  let ?f = "\<lambda>t. t\<lparr>t_state := TurnQuiescent, t_terminal_at_ms := Some now, t_session_persistence := Some p\<rparr>"
  assume tx: "complete_invocation_transaction uuid msg_now a iid inp now True d = Inr ((c, created), d1)"
    and settle: "settle_quiescent_turn a iid b p now d1 = Inr d'"
  have "d' = d1 \<or> (\<exists>f d2. update_turn iid ?f ''session turn changed during completion'' d1 = Inr d2
      \<and> fenced_update f (\<lambda>s. s_state s = Active \<and> s_active_invocation_id s = Some iid)
        (quiescent_row iid p now) ''session binding changed during completion'' d2 = Inr d')"
    using settle by (auto simp: settle_quiescent_turn_def and_then_eq_Inr split: if_splits)
  then have "turn_ids d' = turn_ids d1"
    using update_turn_ids [of iid ?f _ d1] fenced_update_ids by (auto simp: turn_key_def)
  then have "evidence_frame d1 d'"
    using settle_quiescent_turn_only [OF settle] by (simp add: evidence_frame_def session_only_def)
  then show ?thesis
    using evidence_frame_satellites complete_frame [OF tx] by (blast intro: evidence_frame_trans)
qed

section \<open>Operations on the evidence tables\<close>

lemma heartbeat_kept: "evidence_history d (heartbeat now gid d)"
  by (auto simp: evidence_history_def heartbeat_def generation_kept_def intro!: rows_kept_update rows_kept_refl)

lemma evidence_rows:
  assumes inv: "evidence_inv d" and "observations_inv d'" and hist: "evidence_history d d'"
    and "same_sessions d d'"
    and ids: "observation_id ` set (invocation_observations d') = observation_id ` set (invocation_observations d)"
    and gens: "o_generation_id ` set (invocation_observations d') \<subseteq> o_generation_id ` set (invocation_observations d)"
  shows "evidence_inv d' \<and> evidence_history d d'"
proof -
  have "turn_ids d' = turn_ids d" using assms(4) by (simp add: same_sessions_def turn_ids_def)
  moreover have "\<exists>g\<in>set (plugin_generations d'). g_id g = o_generation_id q"
    if "q \<in> set (invocation_observations d')" for q
  proof -
    from gens that obtain p where p: "p \<in> set (invocation_observations d)" "o_generation_id p = o_generation_id q" by force
    with inv obtain g where g: "g \<in> set (plugin_generations d)" "g_id g = o_generation_id q"
      by (force simp: evidence_inv_def)
    with hist show ?thesis unfolding evidence_history_def rows_kept_def generation_kept_def by metis
  qed
  ultimately show ?thesis using assms by (simp add: evidence_inv_def)
qed

lemma evidence_generations:
  assumes "evidence_inv d" and "observations_inv d'" and "evidence_history d d'" and "same_sessions d d'"
    and "invocation_observations d' = invocation_observations d"
  shows "evidence_inv d' \<and> evidence_history d d'"
  using evidence_rows [OF assms(1-4)] by (simp add: assms(5))

lemma evidence_record_generation:
  assumes inv: "evidence_inv d" and ok: "record_plugin_generation ij now g d = Inr (x, d')"
  shows "evidence_inv d' \<and> evidence_history d d'"
proof (rule evidence_generations [OF inv])
  show "observations_inv d'" using inv observations_inv_record_generation [OF _ ok] by (simp add: evidence_inv_def)
  show "same_sessions d d'" using observation_ops_frame(1) [OF ok] by simp
  have d': "\<exists>row. d' = d\<lparr>plugin_generations := plugin_generations d @ [row]\<rparr>"
    using ok by (rule record_plugin_generation_Inr) (auto simp: insert_generation_row_def split: if_splits)
  then show "evidence_history d d'" "invocation_observations d' = invocation_observations d"
    by (auto simp: evidence_history_def rows_kept_append rows_kept_refl)
qed

lemma evidence_heartbeat:
  assumes inv: "evidence_inv d" and ok: "heartbeat_plugin_generation now gid d = Inr (u, d')"
  shows "evidence_inv d' \<and> evidence_history d d'"
proof (rule evidence_generations [OF inv])
  have d': "d' = heartbeat now gid d" using ok by (auto simp: heartbeat_plugin_generation_def split: if_splits)
  show "observations_inv d'" unfolding d' using inv observations_inv_heartbeat by (simp add: evidence_inv_def)
qed (use ok in \<open>auto simp: heartbeat_plugin_generation_def heartbeat_kept split: if_splits\<close>)

lemma evidence_stop:
  assumes inv: "evidence_inv d" and ok: "stop_plugin_generation now gid stop d = Inr (x, d')"
  shows "evidence_inv d' \<and> evidence_history d d'"
proof (rule evidence_generations [OF inv])
  show "observations_inv d'" using inv observations_inv_stop [OF _ ok] by (simp add: evidence_inv_def)
  show "same_sessions d d'" using observation_ops_frame(3) [OF ok] by simp
  have "rows_kept generation_kept (plugin_generations d) (update_where
      (\<lambda>g. g_id g = gid \<and> g_state g = GenerationActive) (stopped_row now stop) (plugin_generations d))"
    by (rule rows_kept_update) (auto simp: generation_kept_def stopped_row_def)
  then show "evidence_history d d'" "invocation_observations d' = invocation_observations d"
    using stop_plugin_generation_Inr [OF ok] by (auto simp: evidence_history_def rows_kept_refl)
qed

lemma map_observations:
  assumes "\<And>q. observation_id (f q) = observation_id q" and "\<And>q. o_generation_id (f q) = o_generation_id q"
  shows "observation_id ` set (update_where P f qs) = observation_id ` set qs"
    and "o_generation_id ` set (update_where P f qs) = o_generation_id ` set qs"
  unfolding set_map [symmetric] by (simp_all add: map_update_where assms)

lemma evidence_event:
  assumes inv: "evidence_inv d" and ok: "record_invocation_event sha now gid iid n at cls raw d = Inr (u, d')"
  shows "evidence_inv d' \<and> evidence_history d d'"
proof -
  let ?e = "\<lparr>ev_now = now, ev_seq = n, ev_observed_at_ms = at, ev_classification = cls, ev_raw = raw\<rparr>"
  have oinv: "observations_inv d" using inv by (simp add: evidence_inv_def)
  have ev: "record_event sha gid iid ?e d = Inr d'" using ok by (simp add: record_event_def)
  have inv': "observations_inv d'" using oinv ev by (rule record_event_effect(1))
  have same: "same_sessions d d'" using record_invocation_event_frame [OF ok] by simp
  from oinv ev show ?thesis
  proof (cases rule: record_event_cases)
    case resent
    then show ?thesis using inv evidence_history_refl by simp
  next
    case (logged q)
    let ?d = "d\<lparr>invocation_observations := update_where (\<lambda>p. o_invocation_id p = iid) (log_event sha ?e)
      (invocation_observations d)\<rparr>"
    have q: "q \<in> set (invocation_observations d)" "o_invocation_id q = iid"
      using logged(1) by (auto simp: observation_at_def dest: find_in)
    have u: "unique_on o_invocation_id (invocation_observations d)" using oinv by (simp add: observations_inv_def)
    have "observation_kept p (log_event sha ?e p)" if p: "p \<in> set (invocation_observations d)" "o_invocation_id p = iid" for p
    proof -
      have "p = q" using unique_onD [OF u p(1) q(1)] p(2) q(2) by simp
      then show ?thesis using logged(3,4)
        by (simp add: observation_kept_def) (simp add: log_event_def folded_row_def)
    qed
    then have "evidence_history d ?d"
      by (auto simp: evidence_history_def intro!: rows_kept_refl rows_kept_update)
    then have "evidence_history d d'" using heartbeat_kept unfolding logged(7) by (auto intro: evidence_history_trans)
    moreover have "observation_id (log_event sha ?e p) = observation_id p" for p
      by (simp add: observation_id_def log_event_def folded_row_def)
    ultimately show ?thesis
      using evidence_rows [OF inv inv' _ same] by (simp add: logged(7) map_observations)
  qed
qed

lemma evidence_terminal:
  assumes inv: "evidence_inv d" and ok: "record_invocation_terminal now gid t d = Inr (u, d')"
  shows "evidence_inv d' \<and> evidence_history d d'"
  using ok
proof (cases rule: record_invocation_terminal_Inr)
  case (recorded q)
  let ?P = "\<lambda>q. o_invocation_id q = tt_invocation_id t \<and> o_generation_id q = gid \<and> o_terminal_at_ms q = None"
  let ?f = "terminal_observation_row now t (tt_usage t)"
  have "evidence_history d (d\<lparr>invocation_observations := update_where ?P ?f (invocation_observations d)\<rparr>)"
    by (auto simp: evidence_history_def observation_kept_def terminal_observation_row_def
        intro!: rows_kept_refl rows_kept_update)
  then have "evidence_history d d'" unfolding recorded(6) using heartbeat_kept by (rule evidence_history_trans)
  moreover have "observations_inv d'" using inv observations_inv_terminal [OF _ ok] by (simp add: evidence_inv_def)
  moreover have "same_sessions d d'" using record_invocation_terminal_frame [OF ok] by simp
  moreover have "observation_id (?f p) = observation_id p" "o_generation_id (?f p) = o_generation_id p" for p
    by (simp_all add: observation_id_def terminal_observation_row_def)
  ultimately show ?thesis using evidence_rows [OF inv] by (simp add: recorded(6) map_observations)
qed (use inv evidence_history_refl in simp)

lemma evidence_arm_session:
  assumes inv: "evidence_inv d" and ok: "arm_session_invocation now a iid b sref gid inp d = Inr (x, d')"
  shows "evidence_inv d' \<and> evidence_history d d'"
  using ok
proof (rule arm_session_invocation_Inr)
  fix row i d1 d2
  assume arm: "arm_invocation_transaction a iid inp now d = Inr (i, d1)"
    and act: "activate_binding_turn a iid b now d1 = Inr d2"
    and obs: "begin_invocation_observation a iid gid b now d2 = Inr d'"
  have one: "evidence_frame d d1" using arm_invocation_effect [OF arm] by (auto simp: evidence_frame_def turn_ids_def)
  obtain p g e where ins: "insert_observation_row (new_observation_row iid (g_id p) (bind_id b) g e now) d2 = Inr d'"
    and p: "p \<in> set (plugin_generations d2)" and ge: "g = uint (bind_generation b)" "e = uint (bind_owner_epoch b)"
    using obs by (rule begin_invocation_observation_Inr)
  let ?q = "new_observation_row iid (g_id p) (bind_id b) g e now"
  have d': "d' = d2\<lparr>invocation_observations := invocation_observations d2 @ [?q]\<rparr>"
    and new: "iid \<notin> o_invocation_id ` set (invocation_observations d2)"
    using ins by (auto simp: insert_observation_row_def new_observation_row_def split: if_splits)
  have ids: "observation_id ` set (invocation_observations d) = turn_ids d" using inv by (simp add: evidence_inv_def)
  have frame: "plugin_generations d2 = plugin_generations d" "invocation_observations d2 = invocation_observations d"
    using one activate_binding_turn_only [OF act] by (simp_all add: evidence_frame_def session_only_def)
  from act show ?thesis
  proof (cases rule: activate_binding_turn_Inr)
    case (bound t)
    then have "iid \<in> fst ` turn_ids d1" by (force simp: turn_ids_def)
    then have "iid \<in> fst ` observation_id ` set (invocation_observations d)" using one ids by (simp add: evidence_frame_def)
    then have "iid \<in> o_invocation_id ` set (invocation_observations d)" by (auto simp: observation_id_def image_iff)
    then show ?thesis using new frame by simp
  next
    case (started f t d3)
    note fence = owner_fence_new_Inr [OF started(1)]
    have "session_binding_turns d2 = session_binding_turns d1 @ [t]"
      using started(2) fenced_update_turns [OF started(8)] by (auto simp: insert_turn_row_def split: if_splits)
    then have "turn_ids d2 = insert (iid, (bind_id b, g), e) (turn_ids d)"
      using one started(5-7) fence ge by (simp add: turn_ids_def evidence_frame_def)
    moreover have "turn_ids d' = turn_ids d2" by (simp add: d' turn_ids_def)
    moreover have "observation_id ?q = (iid, (bind_id b, g), e)" by (simp add: observation_id_def new_observation_row_def)
    ultimately have "observation_id ` set (invocation_observations d') = turn_ids d'" by (simp add: d' frame ids)
    moreover have "observations_inv d2"
      using inv frame observations_inv_cong [of d d2] by (simp add: evidence_inv_def)
    then have "observations_inv d'" using ins by (rule observations_inv_begin) (use fence ge in simp_all)
    moreover have "\<forall>q\<in>set (invocation_observations d'). \<exists>g\<in>set (plugin_generations d'). g_id g = o_generation_id q"
      using inv p by (auto simp: d' frame evidence_inv_def new_observation_row_def)
    ultimately have "evidence_inv d'" by (simp add: evidence_inv_def)
    then show ?thesis by (simp add: evidence_history_def d' frame rows_kept_append rows_kept_refl)
  qed
qed

section \<open>Every step\<close>

lemma fleet_step_evidence:
  assumes "fleet_step d d'" and core: "core_inv d" and sess: "sessions_inv d" and inv: "evidence_inv d"
  shows "evidence_inv d' \<and> evidence_history d d'"
  using assms(1)
proof (cases rule: fleet_step.cases)
  case agent_created
  from evidence_framed [OF inv evidence_frame_traffic [OF create_agent_frame(1) [OF this]]] show ?thesis .
next
  case channel_created
  from evidence_framed [OF inv evidence_frame_traffic [OF create_channel_frame(1) [OF this]]] show ?thesis .
next
  case channel_renamed
  from evidence_framed [OF inv evidence_frame_traffic [OF rename_channel_frame(1) [OF this core_invD(1) [OF core]]]]
  show ?thesis .
next
  case channel_archived
  from evidence_framed [OF inv evidence_frame_traffic [OF archive_channel_frame(1) [OF this core_invD(1) [OF core]]]]
  show ?thesis .
next
  case direct_opened
  from evidence_framed [OF inv evidence_frame_traffic [OF open_direct_pair_frame(1) [OF this]]] show ?thesis .
next
  case member_added
  from evidence_framed [OF inv evidence_frame_traffic [OF add_member_frame(1) [OF this]]] show ?thesis .
next
  case cursor_advanced
  from evidence_framed [OF inv evidence_frame_traffic [OF advance_cursor_frame(1) [OF this]]] show ?thesis .
next
  case message_appended
  from append_message_frame(1) [OF this [unfolded append_message_idempotent_def]]
  show ?thesis using evidence_framed [OF inv evidence_frame_satellites] by blast
next
  case deliveries_claimed
  from evidence_framed [OF inv claim_frame [OF this]] show ?thesis .
next
  case delivery_acknowledged
  from evidence_framed [OF inv acknowledge_frame [OF this]] show ?thesis .
next
  case delivery_retried
  from evidence_framed [OF inv retry_frame [OF this]] show ?thesis .
next
  case (delivery_blocked now aid mid bd b)
  then show ?thesis using evidence_framed [OF inv block_frame [OF core]] by (cases b) blast
next
  case (block_resolved now bid rb u)
  then obtain d1 y where res: "resolve_delivery_block_transaction bid rb now d = Inr d1"
    and ret: "retire_uncertain_session_for_delivery_block bid (resolve_resolution rb) now d1 = Inr (y, d')"
    by (auto simp: resolve_delivery_block_def and_then_eq_Inr)
  have "bindings_inv d1" "turn_links d1"
    using sessions_same [OF sess resolve_transaction_frame [OF core res]] by (simp_all add: sessions_inv_def)
  from evidence_frame_lanes [OF retire_uncertain_only [OF ret] retire_uncertain_step [OF this ret]]
  show ?thesis
    using evidence_framed [OF inv] evidence_frame_satellites [OF resolve_transaction_frame(1) [OF core res]]
    by (blast intro: evidence_frame_trans)
next
  case (block_resolved_alone now bid rb u)
  then have "resolve_delivery_block_transaction bid rb now d = Inr d'"
    by (auto simp: store_resolve_delivery_block_def and_then_eq_Inr)
  from evidence_framed [OF inv evidence_frame_satellites [OF resolve_transaction_frame(1) [OF core this]]] show ?thesis .
next
  case invocations_reserved
  then show ?thesis using evidence_framed [OF inv reserve_frame] by (auto simp: reserve_invocations_def)
next
  case kinds_reserved
  then show ?thesis
    using evidence_framed [OF inv reserve_frame] by (auto simp: reserve_invocations_by_kind_def split: if_splits)
next
  case invocation_armed
  from arm_invocation_effect [OF this [unfolded arm_invocation_def]] have "evidence_frame d d'"
    by (auto simp: evidence_frame_def turn_ids_def)
  from evidence_framed [OF inv this] show ?thesis .
next
  case (invocation_completed uuid msg_now now aid iid ci c)
  obtain x created where c: "c = (x, created)" by fastforce
  from complete_frame [OF invocation_completed [unfolded complete_invocation_def c]]
  show ?thesis using evidence_framed [OF inv evidence_frame_satellites] by blast
next
  case invocations_recovered
  from evidence_framed [OF inv recover_agents_frame [OF this]] show ?thesis .
next
  case session_armed
  from evidence_arm_session [OF inv this] show ?thesis .
next
  case (session_completed uuid msg_now now aid iid bnd p ci c)
  then show ?thesis using evidence_framed [OF inv complete_session_frame] by (cases c) blast
next
  case session_acquired
  from evidence_frame_lanes [OF acquire_session_binding_only [OF this] acquire_session_binding_step [OF _ _ this]]
  show ?thesis using sess evidence_framed [OF inv] by (simp add: sessions_inv_def)
next
  case session_opened
  from evidence_frame_lanes [OF record_session_opened_only [OF this] record_session_opened_step [OF _ _ this]]
  show ?thesis using sess evidence_framed [OF inv] by (simp add: sessions_inv_def)
next
  case session_retired
  from evidence_frame_lanes [OF retire_session_binding_only [OF this] retire_session_binding_step [OF _ _ this]]
  show ?thesis using sess evidence_framed [OF inv] by (simp add: sessions_inv_def)
next
  case (session_uncertain now aid iid bnd reason s)
  then have "d' = d \<or> mark_turn_uncertain aid iid bnd reason now d = Inr d'"
    unfolding mark_session_invocation_uncertain_def and_then_eq_Inr by (auto split: if_splits)
  then have "evidence_frame d d'" using mark_turn_uncertain_frame by auto
  from evidence_framed [OF inv this] show ?thesis .
next
  case generation_recorded
  from evidence_record_generation [OF inv this] show ?thesis .
next
  case generation_heartbeat
  from evidence_heartbeat [OF inv this] show ?thesis .
next
  case generation_stopped
  from evidence_stop [OF inv this] show ?thesis .
next
  case event_recorded
  from evidence_event [OF inv this] show ?thesis .
next
  case terminal_recorded
  from evidence_terminal [OF inv this] show ?thesis .
qed

text \<open>The whole store: the invariant of every reachable state, and what every run keeps.\<close>

definition fleet_inv :: "db \<Rightarrow> bool" where
  "fleet_inv d \<longleftrightarrow> core_inv d \<and> sessions_inv d \<and> evidence_inv d"

definition fleet_history :: "db \<Rightarrow> db \<Rightarrow> bool" where
  "fleet_history d d' \<longleftrightarrow> history d d' \<and> session_history d d' \<and> evidence_history d d'"

lemma fleet_step_inv:
  assumes "fleet_inv d" and "fleet_step d d'"
  shows "fleet_inv d' \<and> fleet_history d d'"
  using assms fleet_step_core [OF assms(2)] fleet_step_sessions [OF assms(2)] fleet_step_evidence [OF assms(2)]
  by (simp add: fleet_inv_def fleet_history_def)

interpretation fleet: evolving_system empty_db fleet_step fleet_inv fleet_history
proof
  show "fleet_inv empty_db"
    by (simp add: fleet_inv_def core_inv_empty sessions_inv_empty evidence_inv_empty)
  show "fleet_history d d" for d
    by (simp add: fleet_history_def history_refl session_history_refl evidence_history_refl)
  show "fleet_history d d' \<Longrightarrow> fleet_history d' d'' \<Longrightarrow> fleet_history d d''" for d d' d''
    using history_trans session_history_trans evidence_history_trans unfolding fleet_history_def by blast
qed (use fleet_step_inv in blast)+

section \<open>Reachable stores and runs\<close>

lemma reachable_fleet: "fleet_reachable d \<Longrightarrow> core_inv d" "fleet_reachable d \<Longrightarrow> sessions_inv d"
    "fleet_reachable d \<Longrightarrow> evidence_inv d"
  using fleet.reachable_inv by (auto simp: fleet_inv_def)

lemma run_history: "fleet_reachable d \<Longrightarrow> fleet_step\<^sup>*\<^sup>* d d' \<Longrightarrow> fleet_history d d'"
  using fleet.run_le fleet.reachable_inv by blast

lemma run_reachable: "fleet_step\<^sup>*\<^sup>* d d' \<Longrightarrow> fleet_reachable d \<Longrightarrow> fleet_reachable d'"
  by (induction rule: rtranclp_induct) (auto intro: reachable.step)

end
