(* ===== verification/Session_Example.thy ===== *)
theory Session_Example
  imports Example Evidence
begin

text \<open>
  The concrete run goes on with a native session: the worker opens a session, records its plugin
  generation and arms the attempt on the session; then the turn completes, or it is marked uncertain
  and recovery blocks the delivery.
\<close>

section \<open>Inputs\<close>

definition ex_acquire :: acquire_session_binding_input where
  "ex_acquire = \<lparr>acq_lane_policy = ''channel'', acq_lane_key = ''c'', acq_owner_instance_id = ''host'',
     acq_profile_digest = ''p'', acq_compatibility_digest = ''q'', acq_working_directory = ''/w'',
     acq_additional_directories = []\<rparr>"

definition ex_generation :: new_plugin_generation where
  "ex_generation = \<lparr>npg_id = ''g'', npg_agent_id = ''w'', npg_plugin_id = ''x'', npg_plugin_name = ''x'',
     npg_plugin_version = ''1'', npg_interfaces = [(''h'', ''1'')], npg_process_id = None,
     npg_driver_version = ''1'', npg_acp_sdk_version = ''1'', npg_acp_protocol_version = 1,
     npg_runtime_name = ''r'', npg_runtime_version = ''1'', npg_runtime_executable_digest = ''e'',
     npg_agent_capabilities = ''{}'', npg_max_concurrent_turns = 1, npg_max_frame_bytes = 4096,
     npg_profile_digest = ''p'', npg_raw_initialize_result = ''{}'', npg_compatibility_digest = ''q'',
     npg_heartbeat_interval_ms = 1000\<rparr>"

definition ex_binding :: binding where
  "ex_binding = \<lparr>bind_id = ''s'', bind_generation = 1, bind_owner_epoch = 1\<rparr>"

section \<open>States\<close>

definition ex_session :: binding_row where
  "ex_session = \<lparr>s_binding_id = ''s'', s_binding_generation = 1, s_agent_id = ''w'',
     s_lane_policy = ''channel'', s_lane_key = ''c'', s_owner_epoch = 1, s_owner_instance_id = ''host'',
     s_profile_digest = ''p'', s_compatibility_digest = ''q'', s_working_directory = ''/w'',
     s_additional_directories = [], s_session_ref = None, s_state = Opening,
     s_active_invocation_id = None, s_last_quiescent_invocation_id = None, s_session_persistence = None,
     s_uncertain_reason = None, s_retired_reason = None, s_created_at_ms = 11, s_updated_at_ms = 11,
     s_opened_at_ms = None, s_retired_at_ms = None\<rparr>"

definition ex_acquired :: db where
  "ex_acquired = ex_reserved\<lparr>session_bindings := [ex_session]\<rparr>"

definition ex_ready :: binding_row where
  "ex_ready = ex_session\<lparr>s_session_ref := Some ''native'', s_state := Ready, s_updated_at_ms := 12,
     s_opened_at_ms := Some 12\<rparr>"

definition ex_opened :: db where
  "ex_opened = ex_reserved\<lparr>session_bindings := [ex_ready]\<rparr>"

definition ex_hosted :: db where
  "ex_hosted = ex_opened\<lparr>plugin_generations := [new_generation_row ex_generation 1000 4096 13]\<rparr>"

definition ex_turn :: turn_row where
  "ex_turn = \<lparr>t_invocation_id = ''i'', t_binding_id = ''s'', t_binding_generation = 1, t_owner_epoch = 1,
     t_state = TurnActive, t_started_at_ms = 20, t_terminal_at_ms = None, t_session_persistence = None,
     t_uncertain_reason = None\<rparr>"

definition ex_observation :: observation_row where
  "ex_observation = new_observation_row ''i'' ''g'' ''s'' 1 1 20"

definition ex_bound :: db where
  "ex_bound = ex_hosted\<lparr>invocations := [ex_attempt],
     session_bindings := [ex_ready\<lparr>s_state := Active, s_active_invocation_id := Some ''i'',
       s_updated_at_ms := 20\<rparr>],
     session_binding_turns := [ex_turn], invocation_observations := [ex_observation]\<rparr>"

definition ex_answer :: message_row where
  "ex_answer = \<lparr>m_seq = 2, m_id = ''r'', m_channel_id = ''c'', m_sender_id = ''w'',
     m_recipient_id = Some ''o'', m_kind = ''done'', m_payload = ''2'', m_correlation_id = None,
     m_causation_id = Some ''m'', m_created_at_ms = 40,
     m_idempotency_key = result_key ''i''\<rparr>"

definition ex_answered :: db where
  "ex_answered = ex_bound\<lparr>messages := [ex_task, ex_answer], messages_sequence := 2,
     agent_deliveries := [ex_lease\<lparr>d_state := Acknowledged, d_lease_token := None,
         d_lease_expires_at_ms := None, d_last_settled_lease_token := Some ''t'',
         d_last_settlement := Some ''acknowledged'', d_acknowledged_at_ms := Some 40\<rparr>,
       new_delivery_row 2 ''o'' 40],
     invocations := [ex_attempt\<lparr>i_state := Terminal, i_terminal_at_ms := Some 40,
       i_execution_certainty := Some OutcomeKnown, i_terminal_reason := Some ''completed'',
       i_result_message_seq := Some 2\<rparr>],
     session_bindings := [ex_ready\<lparr>s_last_quiescent_invocation_id := Some ''i'',
       s_session_persistence := Some Confirmed, s_updated_at_ms := 40\<rparr>],
     session_binding_turns := [ex_turn\<lparr>t_state := TurnQuiescent, t_terminal_at_ms := Some 40,
       t_session_persistence := Some Confirmed\<rparr>]\<rparr>"

definition ex_lost :: db where
  "ex_lost = ex_bound\<lparr>
     session_bindings := [ex_ready\<lparr>s_state := Uncertain, s_active_invocation_id := Some ''i'',
       s_uncertain_reason := Some ''lost'', s_updated_at_ms := 50\<rparr>],
     session_binding_turns := [ex_turn\<lparr>t_state := TurnUncertain, t_terminal_at_ms := Some 50,
       t_uncertain_reason := Some ''lost''\<rparr>]\<rparr>"

definition ex_lost_parked :: db where
  "ex_lost_parked = ex_lost\<lparr>agent_deliveries := agent_deliveries ex_parked,
     delivery_blocks := [ex_block_row], delivery_blocks_sequence := 1, invocations := [ex_parked_attempt]\<rparr>"

section \<open>The run\<close>

lemma ex_session_run:
  "committed (acquire_session_binding ''s'' 11 ''w'' ex_acquire) ex_reserved = ex_acquired"
  "committed (record_session_opened 12 ''w'' ex_binding ''native'') ex_acquired = ex_opened"
  "committed (record_plugin_generation (\<lambda>_. ''[]'') 13 ex_generation) ex_opened = ex_hosted"
  "committed (arm_session_invocation 20 ''w'' ''i'' ex_binding ''native'' ''g'' ex_arm) ex_hosted = ex_bound"
  "committed (complete_session_invocation ''r'' 40 40 ''w'' ''i'' ex_binding Confirmed ex_complete) ex_bound
     = ex_answered"
  "committed (mark_session_invocation_uncertain 50 ''w'' ''i'' ex_binding ''lost'') ex_bound = ex_lost"
  "committed (recover_agents [''w''] 3000) ex_lost = ex_lost_parked"
  by code_simp+

lemma ex_session_reachable:
  "fleet_reachable ex_opened" "fleet_reachable ex_bound" "fleet_reachable ex_answered"
  "fleet_reachable ex_lost" "fleet_reachable ex_lost_parked" "fleet_reachable ex_hosted"
proof -
  have "fleet_reachable ex_acquired"
    unfolding ex_session_run(1) [symmetric]
    using ex_reachable(4) by (intro reachable_committed) (auto intro: fleet_step.session_acquired)
  then show opened: "fleet_reachable ex_opened"
    unfolding ex_session_run(2) [symmetric] by (intro reachable_committed) (auto intro: fleet_step.session_opened)
  then show hosted: "fleet_reachable ex_hosted"
    unfolding ex_session_run(3) [symmetric] by (intro reachable_committed) (auto intro: fleet_step.generation_recorded)
  from hosted show bound: "fleet_reachable ex_bound"
    unfolding ex_session_run(4) [symmetric] by (intro reachable_committed) (auto intro: fleet_step.session_armed)
  then show "fleet_reachable ex_answered"
    unfolding ex_session_run(5) [symmetric] by (intro reachable_committed) (auto intro: fleet_step.session_completed)
  from bound show lost: "fleet_reachable ex_lost"
    unfolding ex_session_run(6) [symmetric] by (intro reachable_committed) (auto intro: fleet_step.session_uncertain)
  then show "fleet_reachable ex_lost_parked"
    unfolding ex_session_run(7) [symmetric] by (intro reachable_committed) (auto intro: fleet_step.invocations_recovered)
qed

lemmas ex_session_core = core.reachable_inv [OF ex_session_reachable(1)]
  core.reachable_inv [OF ex_session_reachable(2)] core.reachable_inv [OF ex_session_reachable(3)]
  core.reachable_inv [OF ex_session_reachable(4)] core.reachable_inv [OF ex_session_reachable(5)]

end
