(* ===== verification/Witnesses.thy ===== *)
theory Witnesses
  imports Session_Example
begin

text \<open>
  The properties of the component theories on the states of the concrete run.
\<close>

section \<open>Channels\<close>

definition ex_read :: db where
  "ex_read = ex_sent\<lparr>channel_members := [ex_member ''o'', (ex_member ''w'')\<lparr>cm_read_through_seq := 1\<rparr>]\<rparr>"

theorem read_cursor_monotone_witness:
  "channels_inv ex_sent \<and> advance_member_read_cursor ''c'' ''w'' 1 ex_sent = Inr (1, ex_read)
   \<and> (\<exists>m\<in>set (channel_members ex_sent). cm_agent_id m = ''w'' \<and> cm_read_through_seq m \<le> 1
        \<and> m\<lparr>cm_read_through_seq := 1\<rparr> \<in> set (channel_members ex_read))"
proof -
  have "advance_member_read_cursor ''c'' ''w'' 1 ex_sent = Inr (1, ex_read)" by code_simp
  then show ?thesis using read_cursor_monotone [of ex_sent "''c''" "''w''" 1 1 ex_read] core_invD(1) [OF ex_core(2)] by auto
qed

definition ex_pair :: "create_channel_member list" where
  "ex_pair = [\<lparr>new_member_agent_id = ''w'', new_member_delivery_mode = Inbox\<rparr>,
     \<lparr>new_member_agent_id = ''o'', new_member_delivery_mode = Inbox\<rparr>]"

definition ex_dm :: channel where
  "ex_dm = \<lparr>channel_id' = ''dm'', channel_name = ''direct-n'', channel_kind = Direct, channel_metadata = ''{}'',
     channel_created_at_ms = 4, channel_archived_at_ms = None\<rparr>"

definition ex_direct :: db where
  "ex_direct = ex_channels\<lparr>
     channels := channels ex_channels @ [\<lparr>c_id = ''dm'', c_name = ''direct-n'', c_metadata = ''{}'',
       c_created_at_ms = 4, c_kind = Direct, c_direct_pair_key = Some ''o:w'', c_archived_at_ms = None\<rparr>],
     channel_members := channel_members ex_channels @
       [(ex_member ''o'')\<lparr>cm_channel_id := ''dm'', cm_joined_at_ms := 4\<rparr>,
        (ex_member ''w'')\<lparr>cm_channel_id := ''dm'', cm_joined_at_ms := 4\<rparr>]\<rparr>"

theorem direct_pair_opens_once_witness:
  "channels_inv ex_channels \<and> open_direct_pair ''dm'' ''n'' 4 ex_pair ex_channels = Inr ((ex_dm, True), ex_direct)
   \<and> open_direct_pair ''dm2'' ''n2'' 9 (rev ex_pair) ex_direct = Inr ((ex_dm, False), ex_direct)"
proof -
  have "open_direct_pair ''dm'' ''n'' 4 ex_pair ex_channels = Inr ((ex_dm, True), ex_direct)" by code_simp
  then show ?thesis
    using direct_pair_opens_once [OF core_invD(1) [OF ex_core(1)], where ?ms2.0 = "rev ex_pair"] core_invD(1) [OF ex_core(1)]
    by blast
qed

section \<open>Messages\<close>

definition ex_appended :: append_message_result where
  "ex_appended = \<lparr>appended_message = message_from_row ex_task, appended_created = True\<rparr>"

lemma ex_append: "append_message_in_transaction ''m'' 5 ''c'' ex_message ex_channels = Inr (ex_appended, ex_sent)"
  by code_simp

theorem append_snapshot_exact_witness:
  "append_message_in_transaction ''m'' 5 ''c'' ex_message ex_channels = Inr (ex_appended, ex_sent)
   \<and> appended_created ex_appended
   \<and> (\<exists>as. agent_deliveries ex_sent = map (\<lambda>a. new_delivery_row 1 a 5) as \<and> set as = {''w''})"
proof -
  have members: "{a. \<exists>s\<in>set (channel_members ex_channels). cm_channel_id s = ''c'' \<and> cm_agent_id s = a
      \<and> cm_delivery_mode s = Inbox \<and> a \<noteq> ''o''} = {''w''}"
    by (auto simp: ex_channels_def ex_member_def)
  have seq: "messages_sequence ex_channels = 0" "agent_deliveries ex_channels = []" by code_simp+
  have "appended_created ex_appended" by (simp add: ex_appended_def)
  with append_snapshot_exact [OF core_invD(1) [OF ex_core(1)] ex_append this] show ?thesis
    using ex_append members seq by (simp add: ex_message_def) blast
qed


definition ex_page :: message_page where
  "ex_page = \<lparr>page_messages = [message_from_row ex_task], page_next_cursor = 1\<rparr>"

theorem pages_chain_witness:
  "messages_inv ex_answered \<and> list_messages ''c'' 0 1 ex_answered = Inr ex_page
   \<and> (\<exists>n\<ge>1. page_messages ex_page = map message_from_row (take n (channel_after ''c'' 0 ex_answered))
        \<and> channel_after ''c'' 1 ex_answered = drop n (channel_after ''c'' 0 ex_answered))"
proof -
  have "list_messages ''c'' 0 1 ex_answered = Inr ex_page" by code_simp
  then show ?thesis
    using pages_chain [OF core_invD(2) [OF ex_session_core(3)]] core_invD(2) [OF ex_session_core(3)]
    by (fastforce simp: ex_page_def)
qed

section \<open>Deliveries\<close>

theorem lease_takes_oldest_claimable_witness:
  "deliveries_inv ex_sent \<and> messages_inv ex_sent \<and> leasable_rows ''w'' 10 1 None ex_sent = [ex_delivery]
   \<and> delivery_at (1, ''w'') (lease_claimable ''w'' ''t'' 2010 10 1 None ex_sent) = Some ex_lease"
proof -
  have rows: "leasable_rows ''w'' 10 1 None ex_sent = [ex_delivery]" by code_simp
  have "delivery_key ex_delivery = (1, ''w'')" "lease_row ''t'' 2010 ex_delivery = ex_lease" by code_simp+
  then show ?thesis
    using lease_takes_oldest_claimable [OF core_invD(3) [OF ex_core(2)] core_invD(2) [OF ex_core(2)],
        of "''w''" 10 1 None "''t''" 2010] rows core_invD(2,3) [OF ex_core(2)]
    by (simp add: Let_def)
qed

section \<open>Observations\<close>

definition ex_event :: "u64 \<Rightarrow> harness_event" where
  "ex_event n = \<lparr>ev_now = 30, ev_seq = n, ev_observed_at_ms = 29, ev_classification = ''tool_call'', ev_raw = ''{}''\<rparr>"

definition ex_observed :: db where
  "ex_observed = ex_bound\<lparr>invocation_observations := [ex_observation\<lparr>o_updated_at_ms := 30,
       o_first_event_at_ms := Some 29, o_last_event_at_ms := Some 29, o_event_count := 2,
       o_observed_payload_bytes := 4, o_last_event_seq := 2, o_last_event_digest := Some ''sha256:h'',
       o_event_chain_digest := Some ''sha256:h'', o_counts := (o_counts ex_observation)\<lparr>n_tool := 2\<rparr>\<rparr>],
     plugin_generations := [(new_generation_row ex_generation 1000 4096 13)\<lparr>g_last_heartbeat_at_ms := 30\<rparr>]\<rparr>"

theorem event_log_exact_witness:
  "observations_inv ex_bound \<and> observation_at ''i'' ex_bound = Some ex_observation
   \<and> try_fold (record_event (\<lambda>_. ''h'') ''g'' ''i'') [ex_event 1, ex_event 1, ex_event 2] ex_bound = Inr ex_observed
   \<and> (\<exists>q. observation_at ''i'' ex_observed = Some q \<and> o_event_count q = 2)"
proof -
  have ok: "observations_inv ex_bound" "observation_at ''i'' ex_bound = Some ex_observation" by code_simp+
  have run: "try_fold (record_event (\<lambda>_. ''h'') ''g'' ''i'') [ex_event 1, ex_event 1, ex_event 2] ex_bound = Inr ex_observed"
    by code_simp
  have "length (new_events (o_last_event_seq ex_observation) [ex_event 1, ex_event 1, ex_event 2]) = 2"
    "o_event_count ex_observation = 0" by code_simp+
  with event_log_exact [OF ok run] ok run show ?thesis by auto
qed

end
