(* ===== verification/Replay.thy ===== *)
theory Replay
  imports Evidence
begin

text \<open>
  Settlements under a lease are safe to repeat.  Whatever has happened since, sending a completion
  or an acknowledgement again under the same tokens returns what the first one returned and changes
  nothing; and the same call under another token is refused.
\<close>

section \<open>Reading an invocation\<close>

lemma message_at_run:
  assumes "evolves d d'" and "find (\<lambda>m. m_seq m = n) (messages d) = Some m"
  shows "find (\<lambda>m. m_seq m = n) (messages d') = Some m"
  using assms by (auto simp: evolves_def find_append_table)

lemma message_of_invocation:
  assumes "core_inv d" and "i \<in> set (invocations d)"
  obtains r m where "delivery_at (invocation_key i) d = Some r"
    and "find (\<lambda>m. m_seq m = i_message_seq i) (messages d) = Some m"
proof -
  have "invocation_ok d i" using core_invD(5) [OF assms(1)] assms(2) by (rule invocation_okD)
  then obtain r where r: "delivery_at (invocation_key i) d = Some r"
    by (auto simp: invocation_ok_def fence_ok_def outcome_ok_def split: if_splits)
  then have "message_seq_exists (i_message_seq i) d"
    using core_invD(3) [OF assms(1)] delivery_at_key [OF r]
    by (auto simp: deliveries_inv_def delivery_key_def invocation_key_def)
  then have "find (\<lambda>m. m_seq m = i_message_seq i) (messages d) \<noteq> None"
    by (auto simp: message_seq_exists_def find_None_iff)
  with r that show thesis by blast
qed

lemmas seq_unique = messages_unique_seq [OF core_invD(2)]

lemma invocation_with_delivery_eq:
  assumes core: "core_inv d" and i: "i \<in> set (invocations d)"
    and r: "delivery_at (invocation_key i) d = Some r"
    and m: "find (\<lambda>m. m_seq m = i_message_seq i) (messages d) = Some m"
  shows "invocation_with_delivery (i_agent_id i) (i_id i) d = Inr (i, r, m)"
proof -
  let ?P = "\<lambda>(j, q, n). i_id j = i_id i \<and> i_agent_id j = i_agent_id i"
  let ?L = "[(i, r, m). i \<leftarrow> invocations d, r \<leftarrow> agent_deliveries d, m \<leftarrow> messages d,
      d_message_seq r = i_message_seq i \<and> d_agent_id r = i_agent_id i \<and> m_seq m = i_message_seq i]"
  have r': "r \<in> set (agent_deliveries d)" "delivery_key r = invocation_key i" using delivery_at_key [OF r] by auto
  have mem: "(i, r, m) \<in> set ?L"
    using i r' find_in [OF m] by (auto simp: delivery_key_def invocation_key_def)
  have u: "unique_on i_id (invocations d)" "unique_on delivery_key (agent_deliveries d)"
    using core_invD [OF core] by (simp_all add: invocations_inv_def deliveries_inv_def)
  obtain hit where hit: "find ?P ?L = Some hit"
  proof (cases "find ?P ?L")
    case None
    from find_not_in [OF None mem] show thesis by simp
  qed
  obtain j q n where h: "hit = (j, q, n)" by (rule prod_cases3)
  from find_in [OF hit] have j: "j \<in> set (invocations d)" "q \<in> set (agent_deliveries d)" "n \<in> set (messages d)"
    "i_id j = i_id i" "d_message_seq q = i_message_seq j" "d_agent_id q = i_agent_id j" "m_seq n = i_message_seq j"
    by (auto simp: h)
  have ji: "j = i" using unique_onD [OF u(1) j(1) i j(4)] .
  moreover have "q = r" using unique_onD [OF u(2) j(2) r'(1)] r'(2) j(5,6) ji by (simp add: delivery_key_def invocation_key_def)
  moreover have "n = m" using unique_onD [OF seq_unique [OF core] j(3)] find_in [OF m] j(7) ji by simp
  ultimately show ?thesis using hit h by (simp add: invocation_with_delivery_def)
qed

text \<open>The result message of an invocation, when it has one.\<close>

definition result_row :: "db \<Rightarrow> invocation_row \<Rightarrow> message_row option" where
  "result_row d i = (case i_result_message_seq i of None \<Rightarrow> None
     | Some n \<Rightarrow> find (\<lambda>m. m_seq m = n) (messages d))"

lemma invocation_by_id_eq:
  assumes core: "core_inv d" and i: "i \<in> set (invocations d)"
    and m: "find (\<lambda>m. m_seq m = i_message_seq i) (messages d) = Some m"
  shows "invocation_by_id (i_id i) d = invocation_from_row (i, m, result_row d i)"
proof -
  let ?P = "\<lambda>(j, n, r). i_id j = i_id i"
  have mem: "(i, m, result_row d i) \<in> set (invocation_select d)"
    using i find_in [OF m] by (auto simp: invocation_select_def result_row_def split: option.split)
  obtain hit where hit: "find ?P (invocation_select d) = Some hit"
  proof (cases "find ?P (invocation_select d)")
    case None
    from find_not_in [OF None mem] show thesis by simp
  qed
  obtain j n r where h: "hit = (j, n, r)" by (rule prod_cases3)
  from find_in [OF hit] have j: "j \<in> set (invocations d)" "n \<in> set (messages d)" "i_id j = i_id i"
    "m_seq n = i_message_seq j" "r = result_row d j"
    by (auto simp: h invocation_select_def result_row_def split: option.splits if_splits)
  have "unique_on i_id (invocations d)" using core_invD(5) [OF core] by (simp add: invocations_inv_def)
  from unique_onD [OF this j(1) i j(3)] have ji: "j = i" .
  moreover have "n = m" using unique_onD [OF seq_unique [OF core] j(2)] find_in [OF m] j(4) ji by simp
  ultimately show ?thesis using hit h j(5) by (simp add: invocation_by_id_def)
qed

section \<open>Completions\<close>

text \<open>\<open>completed_as d a iid inp c\<close>: invocation \<open>iid\<close> of \<open>a\<close> stands completed by \<open>inp\<close> with completion \<open>c\<close>.\<close>

definition completed_as :: "db \<Rightarrow> string \<Rightarrow> string \<Rightarrow> complete_invocation_input \<Rightarrow> invocation_completion \<Rightarrow> bool" where
  "completed_as d a iid inp c \<longleftrightarrow> (\<exists>i m n q.
     i \<in> set (invocations d) \<and> i_id i = iid \<and> i_agent_id i = a \<and> i_state i = Terminal
     \<and> i_lease_token i = complete_lease_token inp \<and> i_fence_token i = complete_fence_token inp
     \<and> i_terminal_reason i = Some ''completed'' \<and> i_result_message_seq i = Some n
     \<and> find (\<lambda>m. m_seq m = i_message_seq i) (messages d) = Some m
     \<and> find (\<lambda>m. m_seq m = n) (messages d) = Some q
     \<and> completion_result c = message_from_row q
     \<and> message_matches_result (message_from_row q) (m_channel_id m) (result_input a iid m inp)
     \<and> invocation_from_row (i, m, Some q) = Inr (completion_invocation c))"

lemma completed_as_run:
  assumes "completed_as d a iid inp c" and "history d d'"
  shows "completed_as d' a iid inp c"
proof -
  obtain i m n q where i: "i \<in> set (invocations d)" "i_state i = Terminal"
    and rest: "i_id i = iid" "i_agent_id i = a" "i_lease_token i = complete_lease_token inp"
      "i_fence_token i = complete_fence_token inp" "i_terminal_reason i = Some ''completed''"
      "i_result_message_seq i = Some n" "completion_result c = message_from_row q"
      "message_matches_result (message_from_row q) (m_channel_id m) (result_input a iid m inp)"
      "invocation_from_row (i, m, Some q) = Inr (completion_invocation c)"
    and m: "find (\<lambda>m. m_seq m = i_message_seq i) (messages d) = Some m"
    and q: "find (\<lambda>m. m_seq m = n) (messages d) = Some q"
    using assms(1) unfolding completed_as_def by auto
  have ev: "evolves d d'" using assms(2) by (simp add: history_def)
  have "i \<in> set (invocations d')"
    using assms(2) i unfolding history_def rows_kept_def invocation_kept_def by metis
  then show ?thesis
    unfolding completed_as_def using i(2) rest message_at_run [OF ev m] message_at_run [OF ev q]
    by (intro exI [of _ i] exI [of _ m] exI [of _ n] exI [of _ q]) simp
qed

lemma completed_as_replays:
  assumes core: "core_inv d" and sess: "sessions_inv d" and fin: "completed_as d a iid inp c"
    and valid: "validate_completion iid inp2 = Inr ()"
    and tokens: "complete_lease_token inp2 = complete_lease_token inp" "complete_fence_token inp2 = complete_fence_token inp"
  shows "complete_invocation_transaction uuid msg_now a iid inp2 now allow d =
    (if complete_kind inp2 = complete_kind inp \<and> complete_payload inp2 = complete_payload inp then Inr ((c, False), d)
     else Inl (Conflict ''invocation was already completed with a different result''))"
proof -
  obtain i m n q where i: "i \<in> set (invocations d)" "i_id i = iid" "i_agent_id i = a" "i_state i = Terminal"
    "i_lease_token i = complete_lease_token inp" "i_fence_token i = complete_fence_token inp"
    "i_terminal_reason i = Some ''completed''" "i_result_message_seq i = Some n"
    and m: "find (\<lambda>m. m_seq m = i_message_seq i) (messages d) = Some m"
    and q: "find (\<lambda>m. m_seq m = n) (messages d) = Some q" "completion_result c = message_from_row q"
    and res: "message_matches_result (message_from_row q) (m_channel_id m) (result_input a iid m inp)"
      "invocation_from_row (i, m, Some q) = Inr (completion_invocation c)"
    using fin unfolding completed_as_def by auto
  obtain r where r: "delivery_at (invocation_key i) d = Some r" using message_of_invocation [OF core i(1)] by blast
  have row: "invocation_with_delivery a iid d = Inr (i, r, m)"
    using invocation_with_delivery_eq [OF core i(1) r m] i by simp
  have "invocation_by_id iid d = Inr (completion_invocation c)"
    using invocation_by_id_eq [OF core i(1) m] i q(1) res(2) by (simp add: result_row_def)
  then have replay: "completed_replay iid i m (result_input a iid m inp2) d =
      (if complete_kind inp2 = complete_kind inp \<and> complete_payload inp2 = complete_payload inp then Inr c
       else Inl (Conflict ''invocation was already completed with a different result''))"
    using i q res(1) by (auto simp: completed_replay_def message_by_seq_def message_matches_result_def result_input_def)
  have free: "ensure_invocation_not_active_on_session iid d = Inr ()"
  proof (cases "find (\<lambda>t. t_invocation_id t = iid) (session_binding_turns d)")
    case (Some t)
    from find_in [OF this] have "turn_fate (t_state t) i" using turn_of_invocation [OF core sess i(1)] i(2) by auto
    moreover have "i_execution_certainty i = Some OutcomeKnown"
      using invocation_okD [OF core_invD(5) [OF core] i(1)] i(8) by (auto simp: invocation_ok_def result_ok_def)
    ultimately have "t_state t = TurnQuiescent" using i(4) by (cases "t_state t") auto
    then show ?thesis by (simp add: ensure_invocation_not_active_on_session_def Some)
  qed (simp add: ensure_invocation_not_active_on_session_def)
  show ?thesis
    using i tokens by (simp add: complete_invocation_transaction_def valid free row replay validate_static_fence_def Let_def)
qed

lemma complete_reads:
  assumes "complete_invocation_transaction uuid msg_now a iid inp now allow d = Inr ((c, created), d')"
  shows "invocation_by_id iid d' = Inr (completion_invocation c)" and "validate_completion iid inp = Inr ()"
  using assms
  by (auto simp: complete_invocation_transaction_def completed_replay_def and_then_eq_Inr Let_def
      split: if_splits option.splits prod.splits)

lemma complete_completed_as:
  assumes core: "core_inv d"
    and ok: "complete_invocation_transaction uuid msg_now a iid inp now allow d = Inr ((c, created), d')"
  shows "completed_as d' a iid inp c"
proof -
  obtain i r m where row: "invocation_with_delivery a iid d = Inr (i, r, m)"
    using ok unfolding complete_invocation_transaction_def and_then_eq_Inr by auto
  note i = invocation_with_delivery_Inr [OF row]
  have core': "core_inv d'" by (rule core_inv_complete [OF core ok])
  have m: "find (\<lambda>m. m_seq m = i_message_seq i) (messages d) = Some m"
    using find_key_iff [OF seq_unique [OF core]] i(6,7) by blast
  have ev: "evolves d d'" using history_complete [OF core ok] by (simp add: history_def)
  note m' = message_at_run [OF ev m]
  have "\<exists>j n q. j \<in> set (invocations d') \<and> i_id j = iid \<and> i_agent_id j = a \<and> i_state j = Terminal
      \<and> i_message_seq j = i_message_seq i \<and> i_lease_token j = complete_lease_token inp
      \<and> i_fence_token j = complete_fence_token inp \<and> i_terminal_reason j = Some ''completed''
      \<and> i_result_message_seq j = Some n \<and> find (\<lambda>m. m_seq m = n) (messages d') = Some q
      \<and> completion_result c = message_from_row q
      \<and> message_matches_result (message_from_row q) (m_channel_id m) (result_input a iid m inp)"
  proof (cases "i_state i = DispatchArmed")
    case False
    then have "i_lease_token i = complete_lease_token inp \<and> i_fence_token i = complete_fence_token inp
        \<and> i_state i = Terminal \<and> d' = d \<and> completed_replay iid i m (result_input a iid m inp) d = Inr c"
      using ok by (auto simp: complete_invocation_transaction_def row and_then_eq_Inr Let_def
          validate_static_fence_def split: if_splits)
    then show ?thesis
      using i by (auto simp: completed_replay_def message_by_seq_def and_then_eq_Inr ok_or_eq_Inr split: option.splits if_splits)
  next
    case True
    from ok show ?thesis
    proof (cases rule: complete_cases)
      case replay
      then show ?thesis
        using ok True by (auto simp: complete_invocation_transaction_def row and_then_eq_Inr Let_def split: if_splits)
    next
      case (completed i' r' m' result d1 d2)
      let ?q = "appended_row uuid msg_now (m_channel_id m) (result_input a iid m inp) (messages_sequence d + 1)"
      have same: "i' = i" "m' = m" using completed(1) row by auto
      have "invocations d2 = invocations d" "messages d2 = messages d1"
        using insert_message_frame [OF completed(6)] leased_row_update_frame [OF completed(7)] by simp_all
      then have j: "completed_row now (msg_seq result) i \<in> set (invocations d')"
        using i(1-3) True by (auto simp: completed(8) intro!: update_whereI1)
      have q: "?q \<in> set (messages d')" "result = message_from_row ?q"
        using insert_message_store [OF completed(6)] completed(6) \<open>messages d2 = messages d1\<close>
        by (auto simp: completed(8) same elim!: insert_message_effect)
      then have "find (\<lambda>m. m_seq m = msg_seq result) (messages d') = Some ?q"
        using find_key_iff [OF seq_unique [OF core']] by (simp add: message_from_row_def)
      moreover have "message_matches_result (message_from_row ?q) (m_channel_id m) (result_input a iid m inp)"
        by (simp add: message_matches_result_def message_from_row_def appended_row_def)
      ultimately show ?thesis
        using j i completed(2,3,9) q(2) unfolding same
        by (intro exI [of _ "completed_row now (msg_seq result) i"] exI [of _ "msg_seq result"] exI [of _ ?q])
          (simp add: completed_row_def)
    qed
  qed
  then obtain j n q where j: "j \<in> set (invocations d')" "i_id j = iid" "i_message_seq j = i_message_seq i"
    "i_result_message_seq j = Some n" "find (\<lambda>m. m_seq m = n) (messages d') = Some q"
    and rest: "i_agent_id j = a" "i_state j = Terminal" "i_lease_token j = complete_lease_token inp"
      "i_fence_token j = complete_fence_token inp" "i_terminal_reason j = Some ''completed''"
      "completion_result c = message_from_row q"
      "message_matches_result (message_from_row q) (m_channel_id m) (result_input a iid m inp)" by blast
  have "invocation_from_row (j, m, Some q) = Inr (completion_invocation c)"
    using invocation_by_id_eq [OF core' j(1)] m' j complete_reads(1) [OF ok] by (simp add: result_row_def)
  then show ?thesis
    unfolding completed_as_def using j rest m'
    by (intro exI [of _ j] exI [of _ m] exI [of _ n] exI [of _ q]) simp
qed

section \<open>Acknowledgements\<close>

lemma settle_miss_settled:
  assumes core: "core_inv d" and r: "delivery_at (n, a) d = Some r" and m: "m \<in> set (messages d)" "m_seq m = n"
  shows "settle_miss a (m_id m) t e d =
    (if d_last_settled_lease_token r = Some t \<and> d_last_settlement r = Some e then Inr ()
     else Inl (LeaseConflict ''lease is expired, invalid, or owned by another worker''))"
proof -
  let ?P = "\<lambda>(q, k). d_agent_id q = a \<and> m_id k = m_id m"
  have r': "r \<in> set (agent_deliveries d)" "d_message_seq r = n" "d_agent_id r = a"
    using delivery_at_key [OF r] by (auto simp: delivery_key_def)
  have mem: "(r, m) \<in> set (delivery_join d)" using r' m by (auto simp: delivery_join_def)
  obtain hit where hit: "find ?P (delivery_join d) = Some hit"
  proof (cases "find ?P (delivery_join d)")
    case None
    from find_not_in [OF None mem] r'(3) show thesis by simp
  qed
  obtain q k where h: "hit = (q, k)" by (rule prod.exhaust)
  from find_in [OF hit] have q: "q \<in> set (agent_deliveries d)" "k \<in> set (messages d)" "d_agent_id q = a"
    "m_id k = m_id m" "d_message_seq q = m_seq k" by (auto simp: h delivery_join_def)
  have "unique_on m_id (messages d)" "unique_on delivery_key (agent_deliveries d)"
    using core_invD(2,3) [OF core] by (simp_all add: messages_inv_def deliveries_inv_def)
  then have "k = m" "q = r"
    using unique_onD [of m_id "messages d" k m] unique_onD [of delivery_key "agent_deliveries d" q r] q r' m
    by (auto simp: delivery_key_def)
  then show ?thesis by (simp add: settle_miss_def hit h)
qed

definition acknowledged_as :: "db \<Rightarrow> string \<Rightarrow> string \<Rightarrow> string \<Rightarrow> bool" where
  "acknowledged_as d a mid t \<longleftrightarrow> (\<exists>m r. m \<in> set (messages d) \<and> m_id m = mid \<and> delivery_at (m_seq m, a) d = Some r
     \<and> d_state r = Acknowledged \<and> d_last_settled_lease_token r = Some t \<and> d_last_settlement r = Some ''acknowledged'')"

lemma acknowledged_as_run: "acknowledged_as d a mid t \<Longrightarrow> evolves d d' \<Longrightarrow> acknowledged_as d' a mid t"
  unfolding acknowledged_as_def evolves_def delivery_kept_def by fastforce

lemma settle_miss_acknowledged:
  assumes core: "core_inv d" and ok: "settle_miss a mid t ''acknowledged'' d = Inr ()"
  shows "acknowledged_as d a mid t"
proof -
  obtain r m where "find (\<lambda>(r, m). d_agent_id r = a \<and> m_id m = mid) (delivery_join d) = Some (r, m)"
    and last: "d_last_settled_lease_token r = Some t" "d_last_settlement r = Some ''acknowledged''"
    using ok by (auto simp: settle_miss_def split: option.splits if_splits)
  from find_in [OF this(1)] have r: "r \<in> set (agent_deliveries d)" "m \<in> set (messages d)" "m_id m = mid"
    "d_agent_id r = a" "d_message_seq r = m_seq m" by (auto simp: delivery_join_def)
  have "delivery_at (m_seq m, a) d = Some r"
    using core_invD(3) [OF core] r by (simp add: delivery_at_iff delivery_key_def)
  moreover have "d_state r = Acknowledged"
    using core_invD(3) [OF core] r(1) last by (auto simp: deliveries_inv_def delivery_standing_def)
  ultimately show ?thesis unfolding acknowledged_as_def using r last by blast
qed

lemma mark_acknowledged_settles:
  assumes core: "core_inv d" and ok: "mark_acknowledged a mid t now d = (True, d')"
  shows "acknowledged_as d' a mid t"
proof -
  let ?lr = "\<lparr>lr_key = MessageId mid, lr_agent_id = a, lr_lease_token = t, lr_window = Live, lr_now = now\<rparr>"
  obtain r where "leased_row_matches ?lr d r"
    and at: "delivery_at (leased_row_target ?lr d) d' = Some (acknowledge_row t now r)"
    using acknowledge.settled_row [OF core_invD(3) [OF core]] ok unfolding mark_acknowledged_def by blast
  then obtain m where "find (\<lambda>m. m_id m = mid) (messages d) = Some m"
    by (auto simp: leased_row_matches_def split: option.splits)
  moreover have "messages d' = messages d"
    using ok by (auto simp: mark_acknowledged_def leased_row_update_def)
  ultimately have "m \<in> set (messages d')" "m_id m = mid" "leased_row_target ?lr d = (m_seq m, a)"
    using find_in [of "\<lambda>m. m_id m = mid" "messages d" m] by (auto simp: leased_row_target_def)
  with at show ?thesis unfolding acknowledged_as_def by (auto simp: acknowledge_row_def)
qed

lemma acknowledge_acknowledged_as:
  assumes core: "core_inv d" and ok: "acknowledge_delivery now a mid t d = Inr (u, d')"
  shows "acknowledged_as d' a mid t"
proof (cases "mark_acknowledged a mid t now d")
  case (Pair moved d1)
  show ?thesis
  proof (cases moved)
    case True
    then have "terminalize_invocation a mid t OutcomeKnown ''acknowledged'' now d1 = Inr d'"
      using ok Pair by (auto simp: acknowledge_delivery_def and_then_eq_Inr)
    from history_terminalize [OF this] show ?thesis
      using acknowledged_as_run [OF mark_acknowledged_settles [OF core]] Pair True by (auto simp: history_def)
  next
    case False
    then show ?thesis using ok Pair settle_miss_acknowledged [OF core] by (auto simp: acknowledge_delivery_def and_then_eq_Inr)
  qed
qed

lemma mark_acknowledged_misses:
  assumes core: "core_inv d" and ack: "acknowledged_as d a mid t"
  shows "fst (mark_acknowledged a mid t' now d) = False"
proof -
  obtain m r where m: "m \<in> set (messages d)" "m_id m = mid" and r: "delivery_at (m_seq m, a) d = Some r" "d_state r = Acknowledged"
    using ack unfolding acknowledged_as_def by blast
  let ?lr = "\<lparr>lr_key = MessageId mid, lr_agent_id = a, lr_lease_token = t', lr_window = Live, lr_now = now\<rparr>"
  have u: "unique_on m_id (messages d)" "unique_on delivery_key (agent_deliveries d)"
    using core_invD(2,3) [OF core] by (simp_all add: messages_inv_def deliveries_inv_def)
  have "find (\<lambda>m. m_id m = mid) (messages d) = Some m" using find_key_iff [OF u(1)] m by blast
  then have target: "leased_row_target ?lr d = (m_seq m, a)" by (simp add: leased_row_target_def)
  have "\<not> leased_row_matches ?lr d q" if q: "q \<in> set (agent_deliveries d)" for q
  proof
    assume hit: "leased_row_matches ?lr d q"
    then have "delivery_key q = (m_seq m, a)" using leased_row_matches_target target by metis
    then have "q = r" using unique_onD [OF u(2) q] delivery_at_key [OF r(1)] by simp
    with hit r(2) show False by (simp add: leased_row_matches_def)
  qed
  then show ?thesis by (simp add: mark_acknowledged_def leased_row_update_def rows_affected_def filter_empty_conv)
qed

lemma acknowledged_as_replays:
  assumes core: "core_inv d" and ack: "acknowledged_as d a mid t" and valid: "validate_token t' = Inr ()"
  shows "acknowledge_delivery now a mid t' d = (if t' = t then Inr ((), d)
    else Inl (LeaseConflict ''lease is expired, invalid, or owned by another worker''))"
proof -
  obtain m r where m: "m \<in> set (messages d)" "m_id m = mid" and r: "delivery_at (m_seq m, a) d = Some r"
    "d_last_settled_lease_token r = Some t" "d_last_settlement r = Some ''acknowledged''"
    using ack unfolding acknowledged_as_def by blast
  have "settle_miss a mid t' ''acknowledged'' d = (if t' = t then Inr ()
      else Inl (LeaseConflict ''lease is expired, invalid, or owned by another worker''))"
    using settle_miss_settled [OF core r(1) m(1) refl] m(2) r(2,3) by auto
  moreover obtain d1 where "mark_acknowledged a mid t' now d = (False, d1)"
    using mark_acknowledged_misses [OF core ack] by (metis prod.collapse)
  ultimately show ?thesis using valid by (simp add: acknowledge_delivery_def)
qed

end
