(* ===== verification/Edge_Cases.thy ===== *)
theory Edge_Cases
  imports Session_Example
begin

text \<open>
  Corners of the session and settlement operations, evaluated on states the concrete run reaches:
  the operations behave here in ways their documentation or the shape of the code does not suggest.
\<close>

section \<open>Retiring an uncertain session\<close>

text \<open>
  The owner may retire a binding whose turn is uncertain, which clears its active invocation.  The
  attempt of that turn is still armed, and the recovery of the agent expects the binding to name it.
\<close>

definition ex_retired_early :: db where
  "ex_retired_early = committed (retire_session_binding 60 ''w'' ex_binding ''reconciled'') ex_lost"

definition ex_retired_late :: db where
  "ex_retired_late = committed (retire_session_binding 3500 ''w'' ex_binding ''reconciled'') ex_lost_parked"


theorem retired_uncertain_session_keeps_block:
  "fleet_reachable ex_retired_late
   \<and> resolve_delivery_block 4000 1 ex_requeue ex_retired_late
      = Inl (Conflict ''delivery block session was already retired differently'')"
proof -
  have "fleet_reachable ex_retired_late"
    unfolding ex_retired_late_def using ex_session_reachable(5)
    by (intro reachable_committed) (auto intro: fleet_step.session_retired)
  moreover have "resolve_delivery_block 4000 1 ex_requeue ex_retired_late
      = Inl (Conflict ''delivery block session was already retired differently'')" by code_simp
  ultimately show ?thesis by blast
qed

section \<open>Arming a session turn again\<close>

lemma arm_session_observes:
  assumes ok: "arm_session_invocation now a iid b sref gid inp d = Inr (x, d')"
  shows "iid \<notin> o_invocation_id ` set (invocation_observations d)" and "iid \<in> o_invocation_id ` set (invocation_observations d')"
proof -
  obtain i d1 d2 where arm: "arm_invocation_transaction a iid inp now d = Inr (i, d1)"
    and act: "activate_binding_turn a iid b now d1 = Inr d2"
    and obs: "begin_invocation_observation a iid gid b now d2 = Inr d'"
    using arm_session_invocation_Inr [OF ok] by metis
  obtain p :: generation_row and g e where "insert_observation_row (new_observation_row iid (g_id p) (bind_id b) g e now) d2 = Inr d'"
    using begin_invocation_observation_Inr [OF obs] by metis
  moreover have "invocation_observations d2 = invocation_observations d"
    using arm_invocation_effect [OF arm] activate_binding_turn_only [OF act] by (auto simp: session_only_def)
  ultimately show "iid \<notin> o_invocation_id ` set (invocation_observations d)" "iid \<in> o_invocation_id ` set (invocation_observations d')"
    by (auto simp: insert_observation_row_def new_observation_row_def split: if_splits)
qed

text \<open>
  C25: an invocation is armed on a native session at most once.  Once \<open>arm_session_invocation\<close>
  committed for it, every later call for it is refused, an exact repetition included.
\<close>

theorem session_armed_once:
  assumes "fleet_reachable d" and "arm_session_invocation now a iid b sref gid inp d = Inr (x, d1)"
    and "fleet_step\<^sup>*\<^sup>* d1 d2"
  shows "\<exists>e. arm_session_invocation now2 a2 iid b2 sref2 gid2 inp2 d2 = Inl e"
proof (cases "arm_session_invocation now2 a2 iid b2 sref2 gid2 inp2 d2")
  case (Inr y)
  obtain z d3 where y: "y = (z, d3)" by (rule prod.exhaust)
  have "fleet_reachable d1" using assms(1,2) by (auto intro: reachable.step fleet_step.session_armed)
  from run_history [OF this assms(3)] have "rows_kept observation_kept (invocation_observations d1) (invocation_observations d2)"
    by (simp add: fleet_history_def evidence_history_def)
  then have "iid \<in> o_invocation_id ` set (invocation_observations d2)"
    using arm_session_observes(2) [OF assms(2)] unfolding rows_kept_def observation_kept_def image_iff by metis
  with arm_session_observes(1) [OF Inr [unfolded y]] show ?thesis ..
qed simp

theorem session_armed_once_witness:
  "\<exists>b. arm_session_invocation 20 ''w'' ''i'' ex_binding ''native'' ''g'' ex_arm ex_hosted = Inr (b, ex_bound)
     \<and> activate_binding_turn ''w'' ''i'' ex_binding 21 ex_bound = Inr ex_bound
     \<and> (\<exists>e. arm_session_invocation 21 ''w'' ''i'' ex_binding ''native'' ''g'' ex_arm ex_bound = Inl e)"
proof -
  have "map_sum id snd (arm_session_invocation 20 ''w'' ''i'' ex_binding ''native'' ''g'' ex_arm ex_hosted) = Inr ex_bound"
    by code_simp
  then obtain b where b: "arm_session_invocation 20 ''w'' ''i'' ex_binding ''native'' ''g'' ex_arm ex_hosted = Inr (b, ex_bound)"
    by (cases "arm_session_invocation 20 ''w'' ''i'' ex_binding ''native'' ''g'' ex_arm ex_hosted") auto
  moreover have "activate_binding_turn ''w'' ''i'' ex_binding 21 ex_bound = Inr ex_bound" by code_simp
  ultimately show ?thesis using session_armed_once [OF ex_session_reachable(6) b rtranclp.rtrancl_refl] by blast
qed

section \<open>Resolving a block in the store alone\<close>

text \<open>
  The store's own resolution requeues the delivery and leaves the session uncertain, so the lane
  cannot be acquired again until the same decision is repeated through the settlement operation.
\<close>

definition ex_resolved_alone :: db where
  "ex_resolved_alone = committed (store_resolve_delivery_block 4000 1 ex_requeue) ex_lost_parked"

theorem store_resolution_leaves_session_uncertain:
  "map d_state (agent_deliveries ex_resolved_alone) = [Pending]
   \<and> map s_state (session_bindings ex_resolved_alone) = [Uncertain]
   \<and> acquire_session_binding ''z'' 5000 ''w'' ex_acquire ex_resolved_alone
      = Inl (Conflict ''session binding is uncertain'')"
proof (intro conjI)
  show "map d_state (agent_deliveries ex_resolved_alone) = [Pending]" by code_simp
  show "map s_state (session_bindings ex_resolved_alone) = [Uncertain]" by code_simp
  show "acquire_session_binding ''z'' 5000 ''w'' ex_acquire ex_resolved_alone
      = Inl (Conflict ''session binding is uncertain'')" by code_simp
qed

section \<open>The reason of an idle seat\<close>

theorem ready_session_reason_of_active_session:
  "seat_state (Some Ready) None (Some HealthActive) False = (SeatIdle, ReadyWorker)"
  "seat_state (Some Active) None (Some HealthActive) False = (SeatIdle, ReadySession)"
  by code_simp+

end
