(* ===== verification/Registry.thy ===== *)
theory Registry
  imports Messages
begin

text \<open>
  Credentials (\<open>crates/kernel/src/auth\<close>): the table of credential digests beside the core tables,
  how a bearer token is made and reduced to a digest, how it becomes a principal again, and the
  issuing, rotating and provisioning of agent and operator credentials.  The tables that triggers and
  seat configurations add are declared here too, so that one record is the whole control database.

  SHA-256 (\<open>sha256\<close>), the base64 codec (\<open>base64\<close>, \<open>unbase64\<close>) and the system's entropy are not code
  of the repository: they are arguments.
\<close>

section \<open>Tables\<close>

datatype principal_kind = OperatorKind | AgentKind | TriggerKind

record credential_row =
  k_id :: string
  k_principal_kind :: principal_kind
  k_agent_id :: "string option"
  k_trigger_id :: "string option"
  k_token_digest :: string
  k_created_at_ms :: i64
  k_revoked_at_ms :: "i64 option"

datatype trigger_state = TriggerActive | TriggerRetired

record trigger_row =
  tr_id :: string
  tr_name :: string
  tr_channel_id :: string
  tr_sender_id :: string
  tr_accepted_kinds :: "string list"
  tr_state :: trigger_state
  tr_created_at_ms :: i64
  tr_updated_at_ms :: i64
  tr_last_occurrence_id :: "string option"
  tr_last_fired_at_ms :: "i64 option"
  tr_accepted_occurrences :: i64
  tr_retired_at_ms :: "i64 option"
  tr_retired_reason :: "string option"

datatype agent_seat_desired_state = Running | Stopped

record seat_configuration_row =
  sc_agent_id :: string
  sc_profile_id :: string
  sc_instructions :: string
  sc_desired_state :: agent_seat_desired_state
  sc_revision :: i64
  sc_created_at_ms :: i64
  sc_updated_at_ms :: i64

text \<open>The core tables of \<^typ>\<open>db\<close> and the tables of the three later migrations.\<close>

record control_db =
  core_db :: db
  auth_credentials :: "credential_row list"
  triggers :: "trigger_row list"
  agent_seat_configurations :: "seat_configuration_row list"

type_synonym 'a control = "control_db \<Rightarrow> ('a \<times> control_db) result"

definition empty_control :: control_db where
  "empty_control = \<lparr>core_db = empty_db, auth_credentials = [], triggers = [], agent_seat_configurations = []\<rparr>"

definition trigger_exists :: "string \<Rightarrow> control_db \<Rightarrow> bool" where
  "trigger_exists tid s = (\<exists>t\<in>set (triggers s). tr_id t = tid)"

text \<open>
  \<open>INSERT INTO auth_credentials\<close>: the primary key, the unique digest, and the references of the two
  optional columns.
\<close>

definition insert_credential_row :: "credential_row \<Rightarrow> control_db \<Rightarrow> control_db result" where
  "insert_credential_row r s =
     (if \<exists>k\<in>set (auth_credentials s). k_id k = k_id r \<or> k_token_digest k = k_token_digest r
      then Inl (Database UniqueViolation)
      else if (case k_agent_id r of None \<Rightarrow> False | Some a \<Rightarrow> \<not> agent_exists a (core_db s))
          \<or> (case k_trigger_id r of None \<Rightarrow> False | Some t \<Rightarrow> \<not> trigger_exists t s)
      then Inl (Database ForeignKeyViolation)
      else Inr (s\<lparr>auth_credentials := auth_credentials s @ [r]\<rparr>))"

text \<open>The CHECK of the table: exactly one binding, or none for an operator.\<close>

definition credential_check :: "credential_row \<Rightarrow> bool" where
  "credential_check r \<longleftrightarrow>
     k_principal_kind r = OperatorKind \<and> k_agent_id r = None \<and> k_trigger_id r = None
     \<or> k_principal_kind r = AgentKind \<and> k_agent_id r \<noteq> None \<and> k_trigger_id r = None
     \<or> k_principal_kind r = TriggerKind \<and> k_agent_id r = None \<and> k_trigger_id r \<noteq> None"

section \<open>Tokens (auth/token.rs)\<close>

definition OPERATOR_TOKEN_PREFIX :: string where "OPERATOR_TOKEN_PREFIX = ''fl_op_''"
definition AGENT_TOKEN_PREFIX :: string where "AGENT_TOKEN_PREFIX = ''fl_ag_''"
definition TRIGGER_TOKEN_PREFIX :: string where "TRIGGER_TOKEN_PREFIX = ''fl_tr_''"
definition TOKEN_BYTES :: nat where "TOKEN_BYTES = 32"
definition MAX_TOKEN_LENGTH :: nat where "MAX_TOKEN_LENGTH = 128"

record issued_credential =
  issued_id :: string
  issued_token :: string
  issued_created_at_ms :: i64

text \<open>What \<open>getrandom::fill\<close> gives: the bytes, or the text of its error.\<close>

type_synonym entropy = "string + string"

definition generate_token :: "(string \<Rightarrow> string) \<Rightarrow> entropy \<Rightarrow> string \<Rightarrow> string result" where
  "generate_token base64 entropy prefix =
     (case entropy of
        Inl error \<Rightarrow> Inl (Credential (''secure entropy unavailable: '' @ error))
      | Inr bytes \<Rightarrow> Inr (prefix @ base64 bytes))"

definition issue_credential ::
  "(string \<Rightarrow> string) \<Rightarrow> entropy \<Rightarrow> string \<Rightarrow> i64 \<Rightarrow> string \<Rightarrow> issued_credential result" where
  "issue_credential base64 entropy uuid now prefix =
     and_then (generate_token base64 entropy prefix) (\<lambda>token.
     Inr \<lparr>issued_id = uuid, issued_token = token, issued_created_at_ms = now\<rparr>)"

definition token_digest :: "(string \<Rightarrow> string) \<Rightarrow> string \<Rightarrow> string" where
  "token_digest sha256 token = sha256 token"

fun starts_with :: "string \<Rightarrow> string \<Rightarrow> bool" where
  "starts_with s [] = True"
| "starts_with [] (p # ps) = False"
| "starts_with (c # s) (p # ps) = (c = p \<and> starts_with s ps)"

definition validate_bearer_token ::
  "(string \<Rightarrow> string option) \<Rightarrow> string \<Rightarrow> string \<Rightarrow> string \<Rightarrow> unit result" where
  "validate_bearer_token unbase64 token prefix source =
     (if length token > MAX_TOKEN_LENGTH \<or> \<not> starts_with token prefix
      then Inl (Credential (source @ '' contains an invalid credential''))
      else
        and_then (ok_or (unbase64 (drop (length prefix) token))
          (Credential (source @ '' contains invalid encoding''))) (\<lambda>decoded.
        if length decoded \<noteq> TOKEN_BYTES
        then Inl (Credential (source @ '' contains invalid entropy''))
        else Inr ()))"

section \<open>Principals (auth/principal.rs)\<close>

datatype principal =
    Operator string
  | Agent string string
  | TriggerPrincipal string string

fun is_operator :: "principal \<Rightarrow> bool" where
  "is_operator (Operator c) = True"
| "is_operator (Agent c a) = False"
| "is_operator (TriggerPrincipal c t) = False"

fun principal_agent_id :: "principal \<Rightarrow> string option" where
  "principal_agent_id (Operator c) = None"
| "principal_agent_id (TriggerPrincipal c t) = None"
| "principal_agent_id (Agent c a) = Some a"

fun principal_trigger_id :: "principal \<Rightarrow> string option" where
  "principal_trigger_id (Operator c) = None"
| "principal_trigger_id (Agent c a) = None"
| "principal_trigger_id (TriggerPrincipal c t) = Some t"

fun credential_id :: "principal \<Rightarrow> string" where
  "credential_id (Operator c) = c"
| "credential_id (Agent c a) = c"
| "credential_id (TriggerPrincipal c t) = c"

section \<open>Authentication (auth/mod.rs)\<close>

definition principal_from_row :: "string \<Rightarrow> credential_row \<Rightarrow> principal result" where
  "principal_from_row cid row =
     (case (k_principal_kind row, k_agent_id row, k_trigger_id row) of
        (OperatorKind, None, None) \<Rightarrow> Inr (Operator cid)
      | (AgentKind, Some a, None) \<Rightarrow> Inr (Agent cid a)
      | (TriggerKind, None, Some t) \<Rightarrow> Inr (TriggerPrincipal cid t)
      | _ \<Rightarrow> Inl (Credential ''credential principal invariant is invalid''))"

definition authenticate :: "(string \<Rightarrow> string) \<Rightarrow> string \<Rightarrow> control_db \<Rightarrow> principal result" where
  "authenticate sha256 token s =
     (if token = [] \<or> length token > MAX_TOKEN_LENGTH then Inl Unauthorized
      else
        and_then (ok_or (find (\<lambda>k. k_token_digest k = token_digest sha256 token \<and> k_revoked_at_ms k = None)
          (auth_credentials s)) Unauthorized) (\<lambda>row.
        principal_from_row (k_id row) row))"

definition revalidate_principal :: "principal \<Rightarrow> control_db \<Rightarrow> bool result" where
  "revalidate_principal expected s =
     (case find (\<lambda>k. k_id k = credential_id expected \<and> k_revoked_at_ms k = None) (auth_credentials s) of
        None \<Rightarrow> Inr False
      | Some row \<Rightarrow>
          and_then (principal_from_row (credential_id expected) row) (\<lambda>actual. Inr (actual = expected)))"

section \<open>Agent credentials (auth/agent.rs)\<close>

record registered_agent =
  registered_agent :: agent
  registered_credential :: issued_credential

definition new_credential ::
  "principal_kind \<Rightarrow> string option \<Rightarrow> string option \<Rightarrow> issued_credential \<Rightarrow> string \<Rightarrow> credential_row" where
  "new_credential kind agent trigger issued digest =
     \<lparr>k_id = issued_id issued, k_principal_kind = kind, k_agent_id = agent, k_trigger_id = trigger,
      k_token_digest = digest, k_created_at_ms = issued_created_at_ms issued, k_revoked_at_ms = None\<rparr>"

definition insert_agent_credential ::
  "string \<Rightarrow> issued_credential \<Rightarrow> string \<Rightarrow> control_db \<Rightarrow> control_db result" where
  "insert_agent_credential agent issued digest =
     insert_credential_row (new_credential AgentKind (Some agent) None issued digest)"

definition register_agent ::
  "(string \<Rightarrow> string) \<Rightarrow> issued_credential result \<Rightarrow> string \<Rightarrow> create_agent_input \<Rightarrow> registered_agent control" where
  "register_agent sha256 issue uuid inp s =
     and_then (validate_name ''agent'' (new_agent_name inp)) (\<lambda>_.
     and_then issue (\<lambda>issued.
     let digest = token_digest sha256 (issued_token issued);
         row = \<lparr>a_id = uuid, a_name = new_agent_name inp, a_metadata = new_agent_metadata inp,
                a_created_at_ms = issued_created_at_ms issued\<rparr> in
     and_then (map_unique_conflict (insert_agent_row row (core_db s)) ''agent name'') (\<lambda>d.
     and_then (insert_agent_credential uuid issued digest (s\<lparr>core_db := d\<rparr>)) (\<lambda>s.
     Inr (\<lparr>registered_agent = agent_from_row row, registered_credential = issued\<rparr>, s)))))"

text \<open>The UPDATE that ends every active credential of the rows it names.\<close>

definition revoke_credentials :: "(credential_row \<Rightarrow> bool) \<Rightarrow> i64 \<Rightarrow> control_db \<Rightarrow> control_db" where
  "revoke_credentials P now s = s\<lparr>auth_credentials := update_where
     (\<lambda>k. P k \<and> k_revoked_at_ms k = None) (\<lambda>k. k\<lparr>k_revoked_at_ms := Some now\<rparr>) (auth_credentials s)\<rparr>"

definition rotate_agent_credential ::
  "(string \<Rightarrow> string) \<Rightarrow> issued_credential result \<Rightarrow> string \<Rightarrow> issued_credential control" where
  "rotate_agent_credential sha256 issue agent s =
     and_then issue (\<lambda>issued.
     let digest = token_digest sha256 (issued_token issued) in
     if rows_affected (\<lambda>a. a_id a = agent) (agents (core_db s)) = 0 then Inl (NotFound ''agent'' agent)
     else
       and_then (insert_agent_credential agent issued digest
           (revoke_credentials (\<lambda>k. k_principal_kind k = AgentKind \<and> k_agent_id k = Some agent)
             (issued_created_at_ms issued) s)) (\<lambda>s.
       Inr (issued, s)))"

section \<open>The operator credential (auth/operator.rs)\<close>

text \<open>
  \<open>str::trim\<close> on the bytes of a UTF-8 string: the leading encodings of white space, and the longest
  suffix that is nothing else.
\<close>

function trim_start :: "string \<Rightarrow> string" where
  "trim_start s = (case white_space_bytes (map of_char s) of 0 \<Rightarrow> s | Suc n \<Rightarrow> trim_start (drop (Suc n) s))"
  by auto
termination
proof (relation "measure length")
  fix s :: string and n
  assume "white_space_bytes (map of_char s) = Suc n"
  then show "(drop (Suc n) s, s) \<in> measure length" by (cases s) auto
qed simp

declare trim_start.simps [simp del]

fun trim_end :: "string \<Rightarrow> string" where
  "trim_end [] = []"
| "trim_end (c # cs) = (if trim_is_empty (c # cs) then [] else c # trim_end cs)"

definition trim :: "string \<Rightarrow> string" where
  "trim s = trim_end (trim_start s)"

text \<open>
  The token file: its contents, or nothing.  Permissions, directories and the atomic rename are the
  system's; a file that is missing is created with a fresh token and a newline.
\<close>

definition ensure_token_file :: "string result \<Rightarrow> string option \<Rightarrow> (string \<times> string) result" where
  "ensure_token_file generated file =
     (case file of
        Some contents \<Rightarrow> Inr (trim contents, contents)
      | None \<Rightarrow> and_then generated (\<lambda>token. Inr (trim (token @ [CHR 10]), token @ [CHR 10])))"

definition rotate_operator_digest :: "string \<Rightarrow> i64 \<Rightarrow> string \<Rightarrow> unit control" where
  "rotate_operator_digest uuid now digest s =
     and_then (insert_credential_row
         (new_credential OperatorKind None None
           \<lparr>issued_id = uuid, issued_token = [], issued_created_at_ms = now\<rparr> digest)
         (revoke_credentials (\<lambda>k. k_principal_kind k = OperatorKind) now s)) (\<lambda>s.
     Inr ((), s))"

text \<open>
  The lookup reads the pool before the transaction of \<open>rotate_operator_digest\<close> begins: \<open>seen\<close> is the
  database it reads, \<open>s\<close> the one the transaction starts from.  The value is whether the credential was
  rotated, and the contents the file has afterwards.
\<close>

definition ensure_operator_credential ::
  "(string \<Rightarrow> string) \<Rightarrow> (string \<Rightarrow> string option) \<Rightarrow> string result \<Rightarrow> string \<Rightarrow> i64 \<Rightarrow> string \<Rightarrow> string option
    \<Rightarrow> control_db \<Rightarrow> (bool \<times> string) control" where
  "ensure_operator_credential sha256 unbase64 generated uuid now path file seen s =
     and_then (ensure_token_file generated file) (\<lambda>(token, contents).
     and_then (validate_bearer_token unbase64 token OPERATOR_TOKEN_PREFIX ''operator token file'') (\<lambda>_.
     let digest = token_digest sha256 token in
     case find (\<lambda>k. k_principal_kind k = OperatorKind \<and> k_token_digest k = digest) (auth_credentials seen) of
       Some k \<Rightarrow>
         if k_revoked_at_ms k = None then Inr ((False, contents), s)
         else Inl (Credential (''operator token file '' @ path @ '' holds a credential that was explicitly ''
                @ ''revoked; delete the file to provision a replacement''))
     | None \<Rightarrow>
         and_then (rotate_operator_digest uuid now digest s) (\<lambda>(_, s).
         Inr ((True, contents), s))))"

end
