(* ===== verification/Triggers.thy ===== *)
theory Triggers
  imports Registry
begin

text \<open>
  Inbound triggers: the durable registration (\<open>crates/kernel/src/store/trigger.rs\<close>), the credential
  that may fire it (\<open>crates/kernel/src/auth/trigger.rs\<close>), and the firing
  (\<open>crates/execution/src/trigger.rs\<close>), which derives everything that establishes identity from the
  registration.  The \<open>accepted_kinds_json\<close> column is the list it encodes.
\<close>

section \<open>The stored enum\<close>

definition trigger_state_ALL :: "trigger_state list" where
  "trigger_state_ALL = [TriggerActive, TriggerRetired]"

fun trigger_state_as_str :: "trigger_state \<Rightarrow> string" where
  "trigger_state_as_str TriggerActive = ''active''"
| "trigger_state_as_str TriggerRetired = ''retired''"

definition trigger_state_parse :: "string \<Rightarrow> trigger_state option" where
  "trigger_state_parse s = find (\<lambda>v. trigger_state_as_str v = s) trigger_state_ALL"

interpretation trs: enum_codec trigger_state_ALL trigger_state_as_str trigger_state_parse
proof
  fix v w :: trigger_state and s
  show "v \<in> set trigger_state_ALL" by (cases v) (simp_all add: trigger_state_ALL_def)
  show "trigger_state_as_str v = trigger_state_as_str w \<Longrightarrow> v = w" by (cases v; cases w) simp_all
qed (rule trigger_state_parse_def)

section \<open>Registrations (store/trigger.rs)\<close>

definition MAX_ACCEPTED_KINDS :: nat where "MAX_ACCEPTED_KINDS = 32"
definition MAX_KIND_BYTES :: nat where "MAX_KIND_BYTES = 256"

record trigger =
  trigger_id' :: string
  trigger_name :: string
  trigger_channel_id :: string
  trigger_sender_id :: string
  trigger_accepted_kinds :: "string list"
  trigger_state' :: trigger_state
  trigger_created_at_ms :: i64
  trigger_updated_at_ms :: i64
  trigger_last_occurrence_id :: "string option"
  trigger_last_fired_at_ms :: "i64 option"
  trigger_accepted_occurrences :: u64
  trigger_retired_at_ms :: "i64 option"
  trigger_retired_reason :: "string option"

record register_trigger_input =
  register_name :: string
  register_channel_id :: string
  register_sender_id :: string
  register_accepted_kinds :: "string list"

definition trigger_from_row :: "trigger_row \<Rightarrow> trigger result" where
  "trigger_from_row r =
     and_then (ok_or (u64_try_from (tr_accepted_occurrences r))
       (Invalid ''stored trigger occurrence count is negative'')) (\<lambda>occurrences.
     Inr \<lparr>trigger_id' = tr_id r, trigger_name = tr_name r, trigger_channel_id = tr_channel_id r,
          trigger_sender_id = tr_sender_id r, trigger_accepted_kinds = tr_accepted_kinds r,
          trigger_state' = tr_state r, trigger_created_at_ms = tr_created_at_ms r,
          trigger_updated_at_ms = tr_updated_at_ms r, trigger_last_occurrence_id = tr_last_occurrence_id r,
          trigger_last_fired_at_ms = tr_last_fired_at_ms r, trigger_accepted_occurrences = occurrences,
          trigger_retired_at_ms = tr_retired_at_ms r, trigger_retired_reason = tr_retired_reason r\<rparr>)"

definition trigger_in_transaction :: "string \<Rightarrow> control_db \<Rightarrow> trigger result" where
  "trigger_in_transaction tid s =
     and_then (ok_or (find (\<lambda>r. tr_id r = tid) (triggers s)) (NotFound ''trigger'' tid)) trigger_from_row"

definition get_trigger :: "string \<Rightarrow> control_db \<Rightarrow> trigger result" where
  "get_trigger tid s =
     and_then (ok_or (find (\<lambda>r. tr_id r = tid) (triggers s)) (NotFound ''trigger'' tid)) trigger_from_row"

definition list_triggers :: "string option \<Rightarrow> control_db \<Rightarrow> trigger list result" where
  "list_triggers channel s =
     try_fold (\<lambda>r ts. and_then (trigger_from_row r) (\<lambda>t. Inr (ts @ [t])))
       (sort_key (\<lambda>r. (tr_created_at_ms r, tr_id r))
         (filter (\<lambda>r. case channel of None \<Rightarrow> True | Some c \<Rightarrow> tr_channel_id r = c) (triggers s))) []"

text \<open>The loop of \<open>normalize_kinds\<close>, and its sort.\<close>

definition push_kind :: "string \<Rightarrow> string list \<Rightarrow> string list result" where
  "push_kind kind kept =
     (if trim_is_empty kind \<or> length kind > MAX_KIND_BYTES
      then Inl (Invalid ''a declared message kind must contain between 1 and 256 bytes'')
      else if kind \<in> set kept then Inl (Invalid (''duplicate declared message kind '' @ kind))
      else Inr (kept @ [kind]))"

definition normalize_kinds :: "string list \<Rightarrow> string list result" where
  "normalize_kinds kinds =
     (if kinds = [] then Inl (Invalid ''a trigger must declare at least one message kind'')
      else if length kinds > MAX_ACCEPTED_KINDS
      then Inl (Invalid ''a trigger may declare at most 32 message kinds'')
      else and_then (try_fold push_kind kinds []) (\<lambda>kept. Inr (sort kept)))"

definition new_trigger :: "string \<Rightarrow> i64 \<Rightarrow> register_trigger_input \<Rightarrow> trigger result" where
  "new_trigger uuid now inp =
     and_then (validate_name ''trigger'' (register_name inp)) (\<lambda>_.
     and_then (normalize_kinds (register_accepted_kinds inp)) (\<lambda>kinds.
     Inr \<lparr>trigger_id' = uuid, trigger_name = register_name inp, trigger_channel_id = register_channel_id inp,
          trigger_sender_id = register_sender_id inp, trigger_accepted_kinds = kinds,
          trigger_state' = TriggerActive, trigger_created_at_ms = now, trigger_updated_at_ms = now,
          trigger_last_occurrence_id = None, trigger_last_fired_at_ms = None,
          trigger_accepted_occurrences = 0, trigger_retired_at_ms = None, trigger_retired_reason = None\<rparr>))"

text \<open>The row of the INSERT, the columns it leaves out at their defaults.\<close>

definition new_trigger_row :: "trigger \<Rightarrow> trigger_row" where
  "new_trigger_row t =
     \<lparr>tr_id = trigger_id' t, tr_name = trigger_name t, tr_channel_id = trigger_channel_id t,
      tr_sender_id = trigger_sender_id t, tr_accepted_kinds = trigger_accepted_kinds t,
      tr_state = trigger_state' t, tr_created_at_ms = trigger_created_at_ms t,
      tr_updated_at_ms = trigger_updated_at_ms t, tr_last_occurrence_id = None, tr_last_fired_at_ms = None,
      tr_accepted_occurrences = 0, tr_retired_at_ms = None, tr_retired_reason = None\<rparr>"

definition insert_trigger_row :: "trigger_row \<Rightarrow> control_db \<Rightarrow> control_db result" where
  "insert_trigger_row r s =
     (if \<exists>t\<in>set (triggers s). tr_id t = tr_id r \<or> tr_name t = tr_name r then Inl (Database UniqueViolation)
      else if \<not> channel_exists (tr_channel_id r) (core_db s) \<or> \<not> agent_exists (tr_sender_id r) (core_db s)
      then Inl (Database ForeignKeyViolation)
      else Inr (s\<lparr>triggers := triggers s @ [r]\<rparr>))"

definition insert_trigger :: "trigger \<Rightarrow> control_db \<Rightarrow> control_db result" where
  "insert_trigger t s = map_unique_conflict (insert_trigger_row (new_trigger_row t) s) ''trigger name''"

definition retired_trigger :: "string \<Rightarrow> i64 \<Rightarrow> trigger_row \<Rightarrow> trigger_row" where
  "retired_trigger reason now r = r\<lparr>tr_state := TriggerRetired, tr_updated_at_ms := now,
     tr_retired_at_ms := Some now, tr_retired_reason := Some reason\<rparr>"

definition retire_trigger_row :: "string \<Rightarrow> string \<Rightarrow> i64 \<Rightarrow> control_db \<Rightarrow> bool \<times> control_db" where
  "retire_trigger_row tid reason now s =
     (let P = \<lambda>r. tr_id r = tid \<and> tr_state r = TriggerActive in
      (rows_affected P (triggers s) > 0,
       s\<lparr>triggers := update_where P (retired_trigger reason now) (triggers s)\<rparr>))"

definition fired_trigger :: "string \<Rightarrow> i64 \<Rightarrow> trigger_row \<Rightarrow> trigger_row" where
  "fired_trigger occurrence now r = r\<lparr>tr_last_occurrence_id := Some occurrence, tr_last_fired_at_ms := Some now,
     tr_updated_at_ms := now, tr_accepted_occurrences := tr_accepted_occurrences r + 1\<rparr>"

definition record_trigger_occurrence :: "string \<Rightarrow> string \<Rightarrow> i64 \<Rightarrow> control_db \<Rightarrow> bool \<times> control_db" where
  "record_trigger_occurrence tid occurrence now s =
     (let P = \<lambda>r. tr_id r = tid \<and> tr_state r = TriggerActive in
      (rows_affected P (triggers s) > 0,
       s\<lparr>triggers := update_where P (fired_trigger occurrence now) (triggers s)\<rparr>))"

text \<open>The CHECKs of the table.\<close>

definition trigger_check :: "trigger_row \<Rightarrow> bool" where
  "trigger_check r \<longleftrightarrow>
     0 \<le> tr_accepted_occurrences r
     \<and> (tr_accepted_occurrences r = 0 \<and> tr_last_occurrence_id r = None \<and> tr_last_fired_at_ms r = None
        \<or> 0 < tr_accepted_occurrences r \<and> tr_last_occurrence_id r \<noteq> None \<and> tr_last_fired_at_ms r \<noteq> None)
     \<and> (tr_state r = TriggerActive \<and> tr_retired_at_ms r = None \<and> tr_retired_reason r = None
        \<or> tr_state r = TriggerRetired \<and> tr_retired_at_ms r \<noteq> None)"

section \<open>Credentials of triggers (auth/trigger.rs)\<close>

definition MAX_RETIREMENT_REASON_BYTES :: nat where "MAX_RETIREMENT_REASON_BYTES = 512"

record registered_trigger =
  registered_trigger :: trigger
  registered_trigger_credential :: issued_credential

definition register_trigger ::
  "(string \<Rightarrow> string) \<Rightarrow> issued_credential result \<Rightarrow> string \<Rightarrow> register_trigger_input \<Rightarrow> registered_trigger control" where
  "register_trigger sha256 issue uuid inp s =
     and_then issue (\<lambda>issued.
     let digest = token_digest sha256 (issued_token issued) in
     and_then (new_trigger uuid (issued_created_at_ms issued) inp) (\<lambda>t.
     and_then (insert_trigger t s) (\<lambda>s.
     and_then (insert_credential_row (new_credential TriggerKind None (Some (trigger_id' t)) issued digest) s) (\<lambda>s.
     Inr (\<lparr>registered_trigger = t, registered_trigger_credential = issued\<rparr>, s)))))"

definition revoke_trigger_credentials :: "string \<Rightarrow> i64 \<Rightarrow> control_db \<Rightarrow> control_db" where
  "revoke_trigger_credentials tid =
     revoke_credentials (\<lambda>k. k_principal_kind k = TriggerKind \<and> k_trigger_id k = Some tid)"

text \<open>
  Retiring commits before it reads the registration back, so a missing trigger is reported after the
  (empty) transaction committed; the value and the database it leaves are a pair here.
\<close>

definition retire_trigger :: "i64 \<Rightarrow> string \<Rightarrow> string \<Rightarrow> control_db \<Rightarrow> trigger result \<times> control_db" where
  "retire_trigger now tid reason s =
     (if trim_is_empty reason \<or> length reason > MAX_RETIREMENT_REASON_BYTES
      then (Inl (Invalid ''a retirement reason must contain between 1 and 512 bytes''), s)
      else
        let (moved, s1) = retire_trigger_row tid reason now s;
            s2 = (if moved then revoke_trigger_credentials tid now s1 else s1) in
        (get_trigger tid s2, s2))"

text \<open>\<open>rotate_trigger_credential\<close> reads the registration before its transaction begins: \<open>seen\<close>.\<close>

definition rotate_trigger_credential ::
  "(string \<Rightarrow> string) \<Rightarrow> issued_credential result \<Rightarrow> string \<Rightarrow> control_db \<Rightarrow> issued_credential control" where
  "rotate_trigger_credential sha256 issue tid seen s =
     and_then issue (\<lambda>issued.
     let digest = token_digest sha256 (issued_token issued) in
     and_then (get_trigger tid seen) (\<lambda>t.
     if trigger_state' t \<noteq> TriggerActive
     then Inl (Conflict (''trigger '' @ tid @ '' is retired and cannot hold a credential''))
     else
       and_then (insert_credential_row (new_credential TriggerKind None (Some tid) issued digest)
         (revoke_trigger_credentials tid (issued_created_at_ms issued) s)) (\<lambda>s.
       Inr (issued, s))))"

section \<open>Firing (execution/trigger.rs)\<close>

definition MAX_OCCURRENCE_ID_BYTES :: nat where "MAX_OCCURRENCE_ID_BYTES = 128"
definition MAX_AGENT_ID_BYTES :: nat where "MAX_AGENT_ID_BYTES = 256"
definition MAX_PAYLOAD_BYTES :: int where "MAX_PAYLOAD_BYTES = 64 * 1024"

record trigger_occurrence =
  occurrence_id :: string
  occurrence_recipient_id :: string
  occurrence_kind :: string
  occurrence_payload :: json

record trigger_fired =
  fired_trigger_id :: string
  fired_occurrence_id :: string
  fired_message_id :: string
  fired_created :: bool

text \<open>\<open>{:x}\<close> of a digest: two lower-case digits for every byte.\<close>

definition hex_digit :: "int \<Rightarrow> char" where
  "hex_digit n = char_of (if n < 10 then 48 + n else 87 + n)"

definition hex_bytes :: "string \<Rightarrow> string" where
  "hex_bytes bs = concat (map (\<lambda>c. [hex_digit (of_char c div 16), hex_digit (of_char c mod 16)]) bs)"

definition durable_key :: "(string \<Rightarrow> string) \<Rightarrow> string \<Rightarrow> string \<Rightarrow> string" where
  "durable_key sha256 tid occurrence = ''trigger:'' @ tid @ '':occurrence:'' @ hex_bytes (sha256 occurrence)"

definition validate_occurrence :: "trigger_occurrence \<Rightarrow> unit result" where
  "validate_occurrence occ =
     (if trim_is_empty (occurrence_id occ) \<or> length (occurrence_id occ) > MAX_OCCURRENCE_ID_BYTES
      then Inl (Invalid ''occurrence_id must contain between 1 and 128 bytes'')
      else if trim_is_empty (occurrence_recipient_id occ) \<or> length (occurrence_recipient_id occ) > MAX_AGENT_ID_BYTES
      then Inl (Invalid ''recipient_id must contain between 1 and 256 bytes'')
      else if int (length (occurrence_payload occ)) > MAX_PAYLOAD_BYTES
      then Inl (Invalid ''payload must not exceed 65536 encoded bytes'')
      else Inr ())"

definition fired_message :: "(string \<Rightarrow> string) \<Rightarrow> string \<Rightarrow> trigger \<Rightarrow> trigger_occurrence \<Rightarrow> create_message" where
  "fired_message sha256 tid t occ =
     \<lparr>new_sender_id = trigger_sender_id t,
      new_idempotency_key = Some (durable_key sha256 tid (occurrence_id occ)),
      new_recipient_id = Some (occurrence_recipient_id occ), new_kind = occurrence_kind occ,
      new_payload = occurrence_payload occ, new_correlation_id = None, new_causation_id = None\<rparr>"

definition fire ::
  "(string \<Rightarrow> string) \<Rightarrow> string \<Rightarrow> i64 \<Rightarrow> i64 \<Rightarrow> string \<Rightarrow> trigger_occurrence \<Rightarrow> trigger_fired control" where
  "fire sha256 uuid msg_now now tid occ s =
     and_then (validate_occurrence occ) (\<lambda>_.
     and_then (trigger_in_transaction tid s) (\<lambda>t.
     if trigger_state' t \<noteq> TriggerActive
     then Inl (Conflict (''trigger '' @ tid @ '' is retired and may not create work''))
     else if occurrence_kind occ \<notin> set (trigger_accepted_kinds t)
     then Inl (Forbidden (''trigger '' @ trigger_name t @ '' did not declare the message kind '' @ occurrence_kind occ))
     else if occurrence_recipient_id occ = trigger_sender_id t
     then Inl (Invalid (''recipient_id must identify a peer, not the trigger'' @ [CHR 0x27] @ ''s own sender''))
     else
       and_then (append_message_in_transaction uuid msg_now (trigger_channel_id t)
           (fired_message sha256 tid t occ) (core_db s)) (\<lambda>(appended, d).
       let s1 = s\<lparr>core_db := d\<rparr>;
           (recorded, s2) = (if appended_created appended
             then record_trigger_occurrence tid (occurrence_id occ) now s1 else (True, s1)) in
       if \<not> recorded then Inl (Conflict (''trigger '' @ tid @ '' was retired while it was firing''))
       else Inr (\<lparr>fired_trigger_id = tid, fired_occurrence_id = occurrence_id occ,
              fired_message_id = msg_id (appended_message appended),
              fired_created = appended_created appended\<rparr>, s2))))"

end
