(* ===== verification/Seats.thy ===== *)
theory Seats
  imports Registry
begin

text \<open>
  The desired execution of an agent (\<open>crates/execution/src/seat_configuration.rs\<close>): one row per
  configured agent, whose revision counts its changes and is what a supervisor restarts on.
\<close>

section \<open>The stored enum\<close>

definition agent_seat_desired_state_ALL :: "agent_seat_desired_state list" where
  "agent_seat_desired_state_ALL = [Running, Stopped]"

fun agent_seat_desired_state_as_str :: "agent_seat_desired_state \<Rightarrow> string" where
  "agent_seat_desired_state_as_str Running = ''running''"
| "agent_seat_desired_state_as_str Stopped = ''stopped''"

definition agent_seat_desired_state_parse :: "string \<Rightarrow> agent_seat_desired_state option" where
  "agent_seat_desired_state_parse s =
     find (\<lambda>v. agent_seat_desired_state_as_str v = s) agent_seat_desired_state_ALL"

interpretation sds: enum_codec agent_seat_desired_state_ALL agent_seat_desired_state_as_str
  agent_seat_desired_state_parse
proof
  fix v w :: agent_seat_desired_state and s
  show "v \<in> set agent_seat_desired_state_ALL" by (cases v) (simp_all add: agent_seat_desired_state_ALL_def)
  show "agent_seat_desired_state_as_str v = agent_seat_desired_state_as_str w \<Longrightarrow> v = w"
    by (cases v; cases w) simp_all
qed (rule agent_seat_desired_state_parse_def)

section \<open>Operations\<close>

definition MAX_PROFILE_ID_BYTES :: nat where "MAX_PROFILE_ID_BYTES = 128"
definition MAX_INSTRUCTIONS_BYTES :: int where "MAX_INSTRUCTIONS_BYTES = 32 * 1024"

record configure_agent_seat =
  configure_profile_id :: string
  configure_instructions :: string
  configure_desired_state :: agent_seat_desired_state

record agent_seat_configuration =
  seat_agent_id :: string
  seat_profile_id :: string
  seat_instructions :: string
  seat_desired_state :: agent_seat_desired_state
  seat_revision :: u64
  seat_created_at_ms :: i64
  seat_updated_at_ms :: i64

definition profile_byte :: "char \<Rightarrow> bool" where
  "profile_byte c = (let b = (of_char c :: nat) in
     48 \<le> b \<and> b \<le> 57 \<or> 65 \<le> b \<and> b \<le> 90 \<or> 97 \<le> b \<and> b \<le> 122 \<or> c = CHR ''.'' \<or> c = CHR ''_'' \<or> c = CHR ''-'')"

definition validate_configuration :: "configure_agent_seat \<Rightarrow> unit result" where
  "validate_configuration requested =
     (if trim_is_empty (configure_profile_id requested)
        \<or> length (configure_profile_id requested) > MAX_PROFILE_ID_BYTES
        \<or> \<not> list_all profile_byte (configure_profile_id requested)
      then Inl (Invalid ''profile_id must contain 1 to 128 ASCII letters, digits, dots, dashes, or underscores'')
      else if int (length (configure_instructions requested)) > MAX_INSTRUCTIONS_BYTES
      then Inl (Invalid ''instructions must not exceed 32768 bytes'')
      else Inr ())"

definition configuration_from_row :: "seat_configuration_row \<Rightarrow> agent_seat_configuration result" where
  "configuration_from_row r =
     and_then (ok_or (u64_try_from (sc_revision r)) (Invalid ''stored agent seat revision is invalid'')) (\<lambda>revision.
     Inr \<lparr>seat_agent_id = sc_agent_id r, seat_profile_id = sc_profile_id r,
          seat_instructions = sc_instructions r, seat_desired_state = sc_desired_state r,
          seat_revision = revision, seat_created_at_ms = sc_created_at_ms r,
          seat_updated_at_ms = sc_updated_at_ms r\<rparr>)"

definition list_seat_configurations :: "control_db \<Rightarrow> agent_seat_configuration list result" where
  "list_seat_configurations s =
     try_fold (\<lambda>r cs. and_then (configuration_from_row r) (\<lambda>c. Inr (cs @ [c])))
       (sort_key sc_agent_id (agent_seat_configurations s)) []"

definition get_seat_configuration :: "string \<Rightarrow> control_db \<Rightarrow> agent_seat_configuration option result" where
  "get_seat_configuration agent s =
     (case find (\<lambda>r. sc_agent_id r = agent) (agent_seat_configurations s) of
        None \<Rightarrow> Inr None
      | Some r \<Rightarrow> and_then (configuration_from_row r) (\<lambda>c. Inr (Some c)))"

text \<open>The INSERT ... ON CONFLICT DO UPDATE ... WHERE of \<open>configure\<close>.\<close>

definition upsert_configuration ::
  "i64 \<Rightarrow> string \<Rightarrow> configure_agent_seat \<Rightarrow> seat_configuration_row list \<Rightarrow> seat_configuration_row list" where
  "upsert_configuration now agent requested rows =
     (if \<exists>r\<in>set rows. sc_agent_id r = agent
      then update_where
        (\<lambda>r. sc_agent_id r = agent
           \<and> (sc_profile_id r \<noteq> configure_profile_id requested
              \<or> sc_instructions r \<noteq> configure_instructions requested
              \<or> sc_desired_state r \<noteq> configure_desired_state requested))
        (\<lambda>r. r\<lparr>sc_profile_id := configure_profile_id requested,
               sc_instructions := configure_instructions requested,
               sc_desired_state := configure_desired_state requested,
               sc_revision := sc_revision r + 1, sc_updated_at_ms := now\<rparr>) rows
      else rows @ [\<lparr>sc_agent_id = agent, sc_profile_id = configure_profile_id requested,
             sc_instructions = configure_instructions requested,
             sc_desired_state = configure_desired_state requested, sc_revision = 1,
             sc_created_at_ms = now, sc_updated_at_ms = now\<rparr>])"

text \<open>\<open>SELECT ... WHERE agent_id = ?\<close> with \<open>fetch_one\<close>.\<close>

definition configuration_row :: "string \<Rightarrow> control_db \<Rightarrow> agent_seat_configuration result" where
  "configuration_row agent s =
     and_then (ok_or (find (\<lambda>r. sc_agent_id r = agent) (agent_seat_configurations s)) (Database RowNotFound))
       configuration_from_row"

definition configure :: "i64 \<Rightarrow> string \<Rightarrow> configure_agent_seat \<Rightarrow> agent_seat_configuration control" where
  "configure now agent requested s =
     and_then (validate_configuration requested) (\<lambda>_.
     if rows_affected (\<lambda>a. a_id a = agent) (agents (core_db s)) = 0 then Inl (NotFound ''agent'' agent)
     else
       let s = s\<lparr>agent_seat_configurations := upsert_configuration now agent requested (agent_seat_configurations s)\<rparr> in
       and_then (configuration_row agent s) (\<lambda>configured. Inr (configured, s)))"

definition restart :: "i64 \<Rightarrow> string \<Rightarrow> agent_seat_configuration control" where
  "restart now agent s =
     (let P = \<lambda>r. sc_agent_id r = agent \<and> sc_desired_state r = Running in
      if rows_affected P (agent_seat_configurations s) = 0 then
        (case find (\<lambda>r. sc_agent_id r = agent) (agent_seat_configurations s) of
           None \<Rightarrow> Inl (NotFound ''agent seat configuration'' agent)
         | Some r \<Rightarrow> Inl (Conflict (''agent seat '' @ agent @ '' is stopped; start it before restarting'')))
      else
        let s = s\<lparr>agent_seat_configurations := update_where P
              (\<lambda>r. r\<lparr>sc_revision := sc_revision r + 1, sc_updated_at_ms := now\<rparr>) (agent_seat_configurations s)\<rparr> in
        and_then (configuration_row agent s) (\<lambda>configured. Inr (configured, s)))"

section \<open>The invariant\<close>

definition seats_inv :: "control_db \<Rightarrow> bool" where
  "seats_inv s \<longleftrightarrow> unique_on sc_agent_id (agent_seat_configurations s)
     \<and> (\<forall>r\<in>set (agent_seat_configurations s). 0 < sc_revision r \<and> agent_exists (sc_agent_id r) (core_db s))"

text \<open>A configuration only counts up, and what it says changes only with its revision.\<close>

definition configuration_kept :: "seat_configuration_row \<Rightarrow> seat_configuration_row \<Rightarrow> bool" where
  "configuration_kept r r' \<longleftrightarrow> sc_agent_id r' = sc_agent_id r \<and> sc_created_at_ms r' = sc_created_at_ms r
     \<and> (r' = r \<or> sc_revision r < sc_revision r')"

lemma configuration_kept_refl [simp]: "configuration_kept r r"
  by (simp add: configuration_kept_def)

lemma configuration_kept_trans:
  "configuration_kept r r' \<Longrightarrow> configuration_kept r' r'' \<Longrightarrow> configuration_kept r r''"
  by (auto simp: configuration_kept_def)

lemma upsert_inv:
  assumes "unique_on sc_agent_id rows" and "\<forall>r\<in>set rows. 0 < sc_revision r \<and> Q (sc_agent_id r)" and "Q agent"
  shows "unique_on sc_agent_id (upsert_configuration now agent requested rows)
    \<and> (\<forall>r\<in>set (upsert_configuration now agent requested rows). 0 < sc_revision r \<and> Q (sc_agent_id r))
    \<and> rows_kept configuration_kept rows (upsert_configuration now agent requested rows)"
proof (cases "\<exists>r\<in>set rows. sc_agent_id r = agent")
  case True
  then show ?thesis
    using assms unfolding upsert_configuration_def
    by (auto simp: unique_on_update in_update_where configuration_kept_def intro!: rows_kept_update; force)
next
  case False
  then have "upsert_configuration now agent requested rows = rows @
      [\<lparr>sc_agent_id = agent, sc_profile_id = configure_profile_id requested,
        sc_instructions = configure_instructions requested,
        sc_desired_state = configure_desired_state requested, sc_revision = 1,
        sc_created_at_ms = now, sc_updated_at_ms = now\<rparr>]"
    by (auto simp: upsert_configuration_def)
  then show ?thesis using assms False by (auto intro: rows_kept_append)
qed

lemma configure_step:
  assumes "seats_inv s" and "configure now agent requested s = Inr (c, s')"
  shows "seats_inv s'" and "rows_kept configuration_kept (agent_seat_configurations s) (agent_seat_configurations s')"
    and "core_db s' = core_db s" "auth_credentials s' = auth_credentials s" "triggers s' = triggers s"
proof -
  have s': "s' = s\<lparr>agent_seat_configurations := upsert_configuration now agent requested (agent_seat_configurations s)\<rparr>"
    and a: "agent_exists agent (core_db s)"
    using assms(2) by (auto simp: configure_def and_then_eq_Inr Let_def agent_exists_def rows_affected_zero split: if_splits)
  show "seats_inv s'" "rows_kept configuration_kept (agent_seat_configurations s) (agent_seat_configurations s')"
    using upsert_inv [of "agent_seat_configurations s" "\<lambda>a. agent_exists a (core_db s)" agent] assms(1) a
    by (simp_all add: seats_inv_def s')
  show "core_db s' = core_db s" "auth_credentials s' = auth_credentials s" "triggers s' = triggers s" by (simp_all add: s')
qed

lemma restart_step:
  assumes "seats_inv s" and "restart now agent s = Inr (c, s')"
  shows "seats_inv s'" and "rows_kept configuration_kept (agent_seat_configurations s) (agent_seat_configurations s')"
    and "core_db s' = core_db s" "auth_credentials s' = auth_credentials s" "triggers s' = triggers s"
proof -
  let ?P = "\<lambda>r. sc_agent_id r = agent \<and> sc_desired_state r = Running"
  have s': "s' = s\<lparr>agent_seat_configurations := update_where ?P
      (\<lambda>r. r\<lparr>sc_revision := sc_revision r + 1, sc_updated_at_ms := now\<rparr>) (agent_seat_configurations s)\<rparr>"
    using assms(2) by (auto simp: restart_def and_then_eq_Inr Let_def split: if_splits option.splits)
  show "seats_inv s'"
    using assms(1) by (auto simp: seats_inv_def s' unique_on_update in_update_where; force)
  show "rows_kept configuration_kept (agent_seat_configurations s) (agent_seat_configurations s')"
    by (auto simp: s' configuration_kept_def intro!: rows_kept_update)
  show "core_db s' = core_db s" "auth_credentials s' = auth_credentials s" "triggers s' = triggers s" by (simp_all add: s')
qed

end
