(* ===== verification/Control.thy ===== *)
theory Control
  imports Triggers Seats Evidence
begin

text \<open>
  The control database as a transition system: the steps of the fleet on the core tables, and the
  operations on credentials, triggers and seat configurations beside them.  Every step runs the core
  tables through steps of the fleet, so what is proved of the fleet holds here too.
\<close>

section \<open>Steps\<close>

text \<open>
  The two operations that read before their transaction begins (\<open>ensure_operator_credential\<close> and
  \<open>rotate_trigger_credential\<close>) may have read any database: \<open>seen\<close> is free.
\<close>

inductive control_step :: "(string \<Rightarrow> string) \<Rightarrow> control_db \<Rightarrow> control_db \<Rightarrow> bool" for sha256 where
  fleet: "fleet_step (core_db s) d \<Longrightarrow> control_step sha256 s (s\<lparr>core_db := d\<rparr>)"
| agent_registered: "register_agent sha256 issue uuid inp s = Inr (r, s') \<Longrightarrow> control_step sha256 s s'"
| agent_rotated: "rotate_agent_credential sha256 issue agent s = Inr (c, s') \<Longrightarrow> control_step sha256 s s'"
| operator_ensured: "ensure_operator_credential sha256 unbase64 generated uuid now path file seen s = Inr (r, s') \<Longrightarrow>
    control_step sha256 s s'"
| trigger_registered: "register_trigger sha256 issue uuid reg s = Inr (t, s') \<Longrightarrow> control_step sha256 s s'"
| trigger_retired: "retire_trigger now tid reason s = (t, s') \<Longrightarrow> control_step sha256 s s'"
| trigger_rotated: "rotate_trigger_credential sha256 issue tid seen s = Inr (c, s') \<Longrightarrow> control_step sha256 s s'"
| trigger_fired: "fire sha256 uuid msg_now now tid occ s = Inr (f, s') \<Longrightarrow> control_step sha256 s s'"
| seat_configured: "configure now agent requested s = Inr (c, s') \<Longrightarrow> control_step sha256 s s'"
| seat_restarted: "restart now agent s = Inr (c, s') \<Longrightarrow> control_step sha256 s s'"

section \<open>Invariant and history\<close>

definition credentials_inv :: "control_db \<Rightarrow> bool" where
  "credentials_inv s \<longleftrightarrow> unique_on k_id (auth_credentials s) \<and> unique_on k_token_digest (auth_credentials s)
     \<and> (\<forall>k\<in>set (auth_credentials s). credential_check k
          \<and> (\<forall>a. k_agent_id k = Some a \<longrightarrow> agent_exists a (core_db s))
          \<and> (\<forall>t. k_trigger_id k = Some t \<longrightarrow> trigger_exists t s))"

definition kinds_ok :: "string list \<Rightarrow> bool" where
  "kinds_ok kinds \<longleftrightarrow> kinds \<noteq> [] \<and> length kinds \<le> MAX_ACCEPTED_KINDS \<and> sorted kinds \<and> distinct kinds
     \<and> (\<forall>k\<in>set kinds. \<not> trim_is_empty k \<and> length k \<le> MAX_KIND_BYTES)"

definition triggers_inv :: "control_db \<Rightarrow> bool" where
  "triggers_inv s \<longleftrightarrow> unique_on tr_id (triggers s) \<and> unique_on tr_name (triggers s)
     \<and> (\<forall>t\<in>set (triggers s). trigger_check t \<and> kinds_ok (tr_accepted_kinds t)
          \<and> channel_exists (tr_channel_id t) (core_db s) \<and> agent_exists (tr_sender_id t) (core_db s))"

definition control_inv :: "control_db \<Rightarrow> bool" where
  "control_inv s \<longleftrightarrow> fleet_inv (core_db s) \<and> credentials_inv s \<and> triggers_inv s \<and> seats_inv s"

definition credential_kept :: "credential_row \<Rightarrow> credential_row \<Rightarrow> bool" where
  "credential_kept k k' \<longleftrightarrow> k' = k \<or> k_revoked_at_ms k = None \<and> (\<exists>now. k' = k\<lparr>k_revoked_at_ms := Some now\<rparr>)"

definition trigger_kept :: "trigger_row \<Rightarrow> trigger_row \<Rightarrow> bool" where
  "trigger_kept t t' \<longleftrightarrow> tr_id t' = tr_id t \<and> tr_name t' = tr_name t \<and> tr_channel_id t' = tr_channel_id t
     \<and> tr_sender_id t' = tr_sender_id t \<and> tr_accepted_kinds t' = tr_accepted_kinds t
     \<and> tr_accepted_occurrences t \<le> tr_accepted_occurrences t' \<and> (tr_state t = TriggerRetired \<longrightarrow> t' = t)"

definition control_history :: "control_db \<Rightarrow> control_db \<Rightarrow> bool" where
  "control_history s s' \<longleftrightarrow> fleet_history (core_db s) (core_db s')
     \<and> rows_kept credential_kept (auth_credentials s) (auth_credentials s')
     \<and> rows_kept trigger_kept (triggers s) (triggers s')
     \<and> rows_kept configuration_kept (agent_seat_configurations s) (agent_seat_configurations s')"

lemma control_kept_refl [simp]: "credential_kept k k" "trigger_kept t t"
  by (simp_all add: credential_kept_def trigger_kept_def)

lemma credential_kept_trans: "credential_kept k k' \<Longrightarrow> credential_kept k' k'' \<Longrightarrow> credential_kept k k''"
  by (auto simp: credential_kept_def)

lemma trigger_kept_trans: "trigger_kept t t' \<Longrightarrow> trigger_kept t' t'' \<Longrightarrow> trigger_kept t t''"
  by (auto simp: trigger_kept_def)

lemma rows_kept_trans:
  "(\<And>r r' r''. R r r' \<Longrightarrow> R r' r'' \<Longrightarrow> R r r'') \<Longrightarrow> rows_kept R rs rs' \<Longrightarrow> rows_kept R rs' rs'' \<Longrightarrow> rows_kept R rs rs''"
  unfolding rows_kept_def by meson

lemma control_history_refl [simp]: "control_history s s"
  using fleet.le_refl by (simp add: control_history_def rows_kept_refl)

lemma control_history_trans: "control_history s s' \<Longrightarrow> control_history s' s'' \<Longrightarrow> control_history s s''"
  unfolding control_history_def
  using fleet.le_trans rows_kept_trans [of credential_kept] rows_kept_trans [of trigger_kept]
    rows_kept_trans [of configuration_kept] credential_kept_trans trigger_kept_trans configuration_kept_trans
  by metis

section \<open>What references need\<close>

lemma history_agents: "fleet_history d d' \<Longrightarrow> agent_exists a d \<Longrightarrow> agent_exists a d'"
  by (auto simp: fleet_history_def history_def directory_kept_def agent_exists_def)

lemma history_channels: "fleet_history d d' \<Longrightarrow> channel_exists c d \<Longrightarrow> channel_exists c d'"
  unfolding fleet_history_def history_def directory_kept_def channel_exists_def rows_kept_def channel_kept_def
  by metis

text \<open>A step of the core tables keeps everything beside them.\<close>

lemma control_core_step:
  assumes inv: "control_inv s" and core: "fleet_inv d" "fleet_history (core_db s) d"
  shows "control_inv (s\<lparr>core_db := d\<rparr>) \<and> control_history s (s\<lparr>core_db := d\<rparr>)"
  using inv core history_agents [OF core(2)] history_channels [OF core(2)]
  by (auto simp: control_inv_def control_history_def credentials_inv_def triggers_inv_def seats_inv_def
      trigger_exists_def intro!: rows_kept_refl)

lemma fleet_step_control:
  assumes "control_inv s" and "fleet_step (core_db s) d"
  shows "control_inv (s\<lparr>core_db := d\<rparr>) \<and> control_history s (s\<lparr>core_db := d\<rparr>)"
  using control_core_step fleet_step_inv assms unfolding control_inv_def by blast

section \<open>Credentials\<close>

lemma insert_credential_step:
  assumes inv: "control_inv s" and ok: "insert_credential_row r s = Inr s'" and check: "credential_check r"
  shows "control_inv s' \<and> control_history s s'"
proof -
  have s': "s' = s\<lparr>auth_credentials := auth_credentials s @ [r]\<rparr>"
    and fresh: "\<forall>k\<in>set (auth_credentials s). k_id k \<noteq> k_id r \<and> k_token_digest k \<noteq> k_token_digest r"
    and refs: "\<forall>a. k_agent_id r = Some a \<longrightarrow> agent_exists a (core_db s)" "\<forall>t. k_trigger_id r = Some t \<longrightarrow> trigger_exists t s"
    using ok by (auto simp: insert_credential_row_def split: if_splits option.splits)
  have "credentials_inv s'"
    using inv fresh refs check by (auto simp: control_inv_def credentials_inv_def s' trigger_exists_def image_iff)
  moreover have "triggers_inv s'" "seats_inv s'" "fleet_inv (core_db s')"
    using inv by (simp_all add: control_inv_def triggers_inv_def seats_inv_def s')
  moreover have "control_history s s'"
    using fleet.le_refl by (simp add: control_history_def s' rows_kept_refl rows_kept_append)
  ultimately show ?thesis by (simp add: control_inv_def)
qed

lemma credential_check_revoked [simp]: "credential_check (k\<lparr>k_revoked_at_ms := v\<rparr>) = credential_check k"
  by (simp add: credential_check_def)

lemma revoke_credentials_step:
  assumes inv: "control_inv s"
  shows "control_inv (revoke_credentials P now s) \<and> control_history s (revoke_credentials P now s)"
proof -
  have "credentials_inv (revoke_credentials P now s)"
    using inv by (auto simp: control_inv_def credentials_inv_def revoke_credentials_def unique_on_update
        in_update_where trigger_exists_def split: if_splits)
  moreover have "triggers_inv (revoke_credentials P now s)" "seats_inv (revoke_credentials P now s)"
    "fleet_inv (core_db (revoke_credentials P now s))"
    using inv by (simp_all add: control_inv_def triggers_inv_def seats_inv_def revoke_credentials_def)
  moreover have "rows_kept credential_kept (auth_credentials s) (auth_credentials (revoke_credentials P now s))"
    by (auto simp: revoke_credentials_def credential_kept_def intro!: rows_kept_update)
  then have "control_history s (revoke_credentials P now s)"
    using fleet.le_refl by (simp add: control_history_def revoke_credentials_def rows_kept_refl)
  ultimately show ?thesis by (simp add: control_inv_def)
qed

lemma rotated_step:
  assumes inv: "control_inv s" and ok: "insert_credential_row r (revoke_credentials P now s) = Inr s'"
    and check: "credential_check r"
  shows "control_inv s' \<and> control_history s s'"
  using revoke_credentials_step [OF inv, of P now] insert_credential_step [OF _ ok check]
  by (blast intro: control_history_trans)

lemma new_credential_check [simp]:
  "credential_check (new_credential AgentKind (Some a) None i h)"
  "credential_check (new_credential TriggerKind None (Some t) i h)"
  "credential_check (new_credential OperatorKind None None i h)"
  by (simp_all add: credential_check_def new_credential_def)

lemma register_agent_core:
  assumes "register_agent sha256 issue uuid inp s = Inr (r, s')"
  obtains issued a d where "issue = Inr issued" "create_agent uuid (issued_created_at_ms issued) inp (core_db s) = Inr (a, d)"
    and "insert_agent_credential uuid issued (token_digest sha256 (issued_token issued)) (s\<lparr>core_db := d\<rparr>) = Inr s'"
    and "r = \<lparr>registered_agent = a, registered_credential = issued\<rparr>"
  using assms by (auto simp: register_agent_def create_agent_def and_then_eq_Inr Let_def)

lemma register_agent_step:
  assumes inv: "control_inv s" and ok: "register_agent sha256 issue uuid inp s = Inr (r, s')"
  shows "control_inv s' \<and> control_history s s'"
proof -
  obtain issued a d where c: "create_agent uuid (issued_created_at_ms issued) inp (core_db s) = Inr (a, d)"
    and k: "insert_agent_credential uuid issued (token_digest sha256 (issued_token issued)) (s\<lparr>core_db := d\<rparr>) = Inr s'"
    using register_agent_core [OF ok] by metis
  have "control_inv (s\<lparr>core_db := d\<rparr>) \<and> control_history s (s\<lparr>core_db := d\<rparr>)"
    using fleet_step_control [OF inv fleet_step.agent_created [OF c]] .
  then show ?thesis
    using insert_credential_step [OF _ k [unfolded insert_agent_credential_def]] by (auto intro: control_history_trans)
qed

lemma ensure_operator_step:
  assumes inv: "control_inv s"
    and ok: "ensure_operator_credential sha256 unbase64 generated uuid now path file seen s = Inr (r, s')"
  shows "control_inv s' \<and> control_history s s'"
proof -
  from ok consider "s' = s" | digest where "rotate_operator_digest uuid now digest s = Inr ((), s')"
    by (auto simp: ensure_operator_credential_def and_then_eq_Inr Let_def split: option.splits if_splits prod.splits)
  then show ?thesis
  proof cases
    case 1
    then show ?thesis using inv by simp
  next
    case 2
    then show ?thesis
      using rotated_step [OF inv] by (auto simp: rotate_operator_digest_def and_then_eq_Inr)
  qed
qed

section \<open>Triggers\<close>

lemma push_kind_Inr:
  "push_kind k acc = Inr out \<longleftrightarrow> \<not> trim_is_empty k \<and> length k \<le> MAX_KIND_BYTES \<and> k \<notin> set acc \<and> out = acc @ [k]"
  unfolding push_kind_def by auto

lemma push_kinds_ok:
  assumes "try_fold push_kind kinds acc = Inr out" and "distinct acc"
    and "\<forall>k\<in>set acc. \<not> trim_is_empty k \<and> length k \<le> MAX_KIND_BYTES"
  shows "out = acc @ kinds \<and> distinct out \<and> (\<forall>k\<in>set out. \<not> trim_is_empty k \<and> length k \<le> MAX_KIND_BYTES)"
  using assms
proof (induction kinds arbitrary: acc)
  case (Cons k kinds)
  from Cons.prems(1) have "try_fold push_kind kinds (acc @ [k]) = Inr out"
    and k: "\<not> trim_is_empty k" "length k \<le> MAX_KIND_BYTES" "k \<notin> set acc"
    by (simp_all add: push_kind_Inr and_then_eq_Inr)
  from Cons.IH [OF this(1)] k Cons.prems(2,3) show ?case by auto
qed simp

lemma normalize_kinds_ok:
  assumes "normalize_kinds kinds = Inr out"
  shows "kinds_ok out" and "set out = set kinds"
proof -
  obtain kept where kept: "try_fold push_kind kinds [] = Inr kept" "out = sort kept"
    and bounds: "kinds \<noteq> []" "length kinds \<le> MAX_ACCEPTED_KINDS"
    using assms by (auto simp: normalize_kinds_def and_then_eq_Inr split: if_splits)
  have all: "kept = kinds" "distinct kept" "\<forall>k\<in>set kept. \<not> trim_is_empty k \<and> length k \<le> MAX_KIND_BYTES"
    using push_kinds_ok [OF kept(1)] by auto
  show "set out = set kinds" using kept(2) all(1) by simp
  moreover have "distinct out" "length out = length kinds" "sorted out" using kept(2) all(1,2) by simp_all
  moreover have "out \<noteq> []" using bounds(1) \<open>length out = length kinds\<close> by fastforce
  ultimately show "kinds_ok out" using bounds(2) all(1,3) by (simp add: kinds_ok_def)
qed

text \<open>Adding or moving registrations, with everything else in place.\<close>

lemma control_triggers_step:
  assumes inv: "control_inv s" and ids: "\<And>t. trigger_exists t s \<Longrightarrow> trigger_exists t (s\<lparr>triggers := ts\<rparr>)"
    and ts: "triggers_inv (s\<lparr>triggers := ts\<rparr>)" "rows_kept trigger_kept (triggers s) ts"
  shows "control_inv (s\<lparr>triggers := ts\<rparr>) \<and> control_history s (s\<lparr>triggers := ts\<rparr>)"
  using inv ids ts fleet.le_refl
  by (auto simp: control_inv_def control_history_def credentials_inv_def seats_inv_def intro!: rows_kept_refl)

lemma insert_trigger_step:
  assumes inv: "control_inv s" and t: "new_trigger uuid now inp = Inr t" and ok: "insert_trigger t s = Inr s'"
  shows "control_inv s' \<and> control_history s s'"
proof -
  let ?r = "new_trigger_row t"
  have s': "s' = s\<lparr>triggers := triggers s @ [?r]\<rparr>"
    and fresh: "\<forall>q\<in>set (triggers s). tr_id q \<noteq> tr_id ?r \<and> tr_name q \<noteq> tr_name ?r"
    and refs: "channel_exists (tr_channel_id ?r) (core_db s)" "agent_exists (tr_sender_id ?r) (core_db s)"
    using ok by (auto simp: insert_trigger_def insert_trigger_row_def map_unique_conflict_Inr split: if_splits)
  obtain kinds where k: "normalize_kinds (register_accepted_kinds inp) = Inr kinds" "trigger_accepted_kinds t = kinds"
    "trigger_state' t = TriggerActive"
    using t by (auto simp: new_trigger_def and_then_eq_Inr)
  have row: "trigger_check ?r" "kinds_ok (tr_accepted_kinds ?r)"
    using k normalize_kinds_ok(1) [OF k(1)] by (simp_all add: new_trigger_row_def trigger_check_def)
  have "triggers_inv (s\<lparr>triggers := triggers s @ [?r]\<rparr>)"
    using inv fresh refs row by (auto simp: control_inv_def triggers_inv_def image_iff)
  then show ?thesis
    unfolding s' using inv by (intro control_triggers_step) (auto simp: trigger_exists_def intro: rows_kept_append)
qed

lemma register_trigger_step:
  assumes inv: "control_inv s" and ok: "register_trigger sha256 issue uuid reg s = Inr (r, s')"
  shows "control_inv s' \<and> control_history s s'"
proof -
  obtain issued t s1 where t: "new_trigger uuid (issued_created_at_ms issued) reg = Inr t" "insert_trigger t s = Inr s1"
    and k: "insert_credential_row (new_credential TriggerKind None (Some (trigger_id' t)) issued
        (token_digest sha256 (issued_token issued))) s1 = Inr s'"
    using ok by (auto simp: register_trigger_def and_then_eq_Inr Let_def)
  show ?thesis
    using insert_trigger_step [OF inv t] insert_credential_step [OF _ k] by (auto intro: control_history_trans)
qed

lemma update_trigger_step:
  assumes inv: "control_inv s"
    and f: "\<And>r. r \<in> set (triggers s) \<Longrightarrow> P r \<Longrightarrow> trigger_check (f r)"
      "\<And>r. P r \<Longrightarrow> trigger_kept r (f r)" "\<And>r. tr_id (f r) = tr_id r" "\<And>r. tr_name (f r) = tr_name r"
      "\<And>r. tr_accepted_kinds (f r) = tr_accepted_kinds r" "\<And>r. tr_channel_id (f r) = tr_channel_id r"
      "\<And>r. tr_sender_id (f r) = tr_sender_id r"
  shows "control_inv (s\<lparr>triggers := update_where P f (triggers s)\<rparr>)
    \<and> control_history s (s\<lparr>triggers := update_where P f (triggers s)\<rparr>)"
proof (rule control_triggers_step [OF inv])
  show "trigger_exists t (s\<lparr>triggers := update_where P f (triggers s)\<rparr>)" if "trigger_exists t s" for t
    using that ex_key_update_where [of tr_id f P "triggers s" t] f(3) by (simp add: trigger_exists_def)
  show "triggers_inv (s\<lparr>triggers := update_where P f (triggers s)\<rparr>)"
    using inv f by (auto simp: control_inv_def triggers_inv_def unique_on_update in_update_where)
  show "rows_kept trigger_kept (triggers s) (update_where P f (triggers s))"
    using f(2) by (auto intro!: rows_kept_update)
qed

lemma retire_trigger_step:
  assumes inv: "control_inv s" and ok: "retire_trigger now tid reason s = (r, s')"
  shows "control_inv s' \<and> control_history s s'"
proof (cases "trim_is_empty reason \<or> length reason > MAX_RETIREMENT_REASON_BYTES")
  case True
  then show ?thesis using ok inv by (auto simp: retire_trigger_def)
next
  case False
  let ?P = "\<lambda>r. tr_id r = tid \<and> tr_state r = TriggerActive"
  let ?s1 = "s\<lparr>triggers := update_where ?P (retired_trigger reason now) (triggers s)\<rparr>"
  have one: "control_inv ?s1 \<and> control_history s ?s1"
  proof (rule update_trigger_step [OF inv])
    show "trigger_check (retired_trigger reason now r)" if "r \<in> set (triggers s)" "?P r" for r
      using inv that by (auto simp: control_inv_def triggers_inv_def retired_trigger_def trigger_check_def)
    show "trigger_kept r (retired_trigger reason now r)" if "?P r" for r
      using that by (simp add: trigger_kept_def retired_trigger_def)
  qed (simp_all add: retired_trigger_def)
  have "s' = ?s1 \<or> s' = revoke_trigger_credentials tid now ?s1"
    using ok False by (auto simp: retire_trigger_def retire_trigger_row_def Let_def split: if_splits)
  then show ?thesis
    using one revoke_credentials_step [of ?s1] unfolding revoke_trigger_credentials_def by (auto intro: control_history_trans)
qed

lemma fire_cases:
  assumes "fire sha256 uuid msg_now now tid occ s = Inr (f, s')"
  obtains t r d where "find (\<lambda>t. tr_id t = tid) (triggers s) = Some t" "tr_state t = TriggerActive"
    "occurrence_kind occ \<in> set (tr_accepted_kinds t)" "occurrence_recipient_id occ \<noteq> tr_sender_id t"
    "append_message_in_transaction uuid msg_now (tr_channel_id t)
       \<lparr>new_sender_id = tr_sender_id t, new_idempotency_key = Some (durable_key sha256 tid (occurrence_id occ)),
        new_recipient_id = Some (occurrence_recipient_id occ), new_kind = occurrence_kind occ,
        new_payload = occurrence_payload occ, new_correlation_id = None, new_causation_id = None\<rparr> (core_db s) = Inr (r, d)"
    "validate_occurrence occ = Inr ()"
    "f = \<lparr>fired_trigger_id = tid, fired_occurrence_id = occurrence_id occ,
       fired_message_id = msg_id (appended_message r), fired_created = appended_created r\<rparr>"
    "s' = (if appended_created r then s\<lparr>core_db := d, triggers := update_where
         (\<lambda>r. tr_id r = tid \<and> tr_state r = TriggerActive) (fired_trigger (occurrence_id occ) now) (triggers s)\<rparr>
       else s\<lparr>core_db := d\<rparr>)"
  using assms
  by (auto simp: fire_def trigger_in_transaction_def trigger_from_row_def fired_message_def
      record_trigger_occurrence_def and_then_eq_Inr ok_or_eq_Inr Let_def split: if_splits prod.splits)

lemma fire_step:
  assumes inv: "control_inv s" and ok: "fire sha256 uuid msg_now now tid occ s = Inr (f, s')"
  shows "control_inv s' \<and> control_history s s'"
  using ok
proof (cases rule: fire_cases)
  case (1 t r d)
  let ?s1 = "s\<lparr>core_db := d\<rparr>"
  have "fleet_step (core_db s) d" using 1(5) by (intro fleet_step.message_appended) (simp add: append_message_idempotent_def)
  from fleet_step_control [OF inv this] have one: "control_inv ?s1" "control_history s ?s1" by blast+
  let ?P = "\<lambda>r. tr_id r = tid \<and> tr_state r = TriggerActive"
  let ?s2 = "?s1\<lparr>triggers := update_where ?P (fired_trigger (occurrence_id occ) now) (triggers ?s1)\<rparr>"
  have two: "control_inv ?s2 \<and> control_history ?s1 ?s2"
  proof (rule update_trigger_step [OF one(1)])
    show "trigger_check (fired_trigger (occurrence_id occ) now r)" if "r \<in> set (triggers ?s1)" "?P r" for r
      using inv that by (auto simp: control_inv_def triggers_inv_def fired_trigger_def trigger_check_def)
    show "trigger_kept r (fired_trigger (occurrence_id occ) now r)" if "?P r" for r
      using that by (simp add: trigger_kept_def fired_trigger_def)
  qed (simp_all add: fired_trigger_def)
  have "s' = ?s1 \<or> s' = ?s2" unfolding 1(8) by simp
  then show ?thesis using one two control_history_trans by blast
qed

section \<open>The system\<close>

lemma control_seats_step:
  assumes "control_inv s" and "seats_inv s'"
    and "rows_kept configuration_kept (agent_seat_configurations s) (agent_seat_configurations s')"
    and "core_db s' = core_db s" and "auth_credentials s' = auth_credentials s" and "triggers s' = triggers s"
  shows "control_inv s' \<and> control_history s s'"
  using assms fleet.le_refl
  by (simp add: control_inv_def control_history_def credentials_inv_def triggers_inv_def trigger_exists_def rows_kept_refl)

lemma control_step_inv:
  assumes "control_step sha256 s s'" and inv: "control_inv s"
  shows "control_inv s' \<and> control_history s s'"
  using assms(1)
proof cases
  case (fleet d)
  then show ?thesis using fleet_step_control [OF inv] by blast
next
  case agent_registered
  then show ?thesis using register_agent_step [OF inv] by blast
next
  case (agent_rotated issue agent c)
  then obtain issued where "insert_credential_row (new_credential AgentKind (Some agent) None issued
      (token_digest sha256 (issued_token issued)))
      (revoke_credentials (\<lambda>k. k_principal_kind k = AgentKind \<and> k_agent_id k = Some agent)
        (issued_created_at_ms issued) s) = Inr s'"
    by (auto simp: rotate_agent_credential_def insert_agent_credential_def and_then_eq_Inr Let_def split: if_splits)
  from rotated_step [OF inv this] show ?thesis by simp
next
  case operator_ensured
  then show ?thesis using ensure_operator_step [OF inv] by blast
next
  case trigger_registered
  then show ?thesis using register_trigger_step [OF inv] by blast
next
  case trigger_retired
  then show ?thesis using retire_trigger_step [OF inv] by blast
next
  case (trigger_rotated issue tid seen c)
  then obtain issued where "insert_credential_row (new_credential TriggerKind None (Some tid) issued
      (token_digest sha256 (issued_token issued)))
      (revoke_credentials (\<lambda>k. k_principal_kind k = TriggerKind \<and> k_trigger_id k = Some tid)
        (issued_created_at_ms issued) s) = Inr s'"
    by (auto simp: rotate_trigger_credential_def revoke_trigger_credentials_def and_then_eq_Inr Let_def split: if_splits)
  from rotated_step [OF inv this] show ?thesis by simp
next
  case trigger_fired
  then show ?thesis using fire_step [OF inv] by blast
next
  case seat_configured
  have "seats_inv s" using inv by (simp add: control_inv_def)
  from configure_step [OF this seat_configured] show ?thesis by (rule control_seats_step [OF inv])
next
  case seat_restarted
  have "seats_inv s" using inv by (simp add: control_inv_def)
  from restart_step [OF this seat_restarted] show ?thesis by (rule control_seats_step [OF inv])
qed

lemma control_inv_empty: "control_inv empty_control"
  using fleet.init_inv
  by (simp add: control_inv_def empty_control_def credentials_inv_def triggers_inv_def seats_inv_def)

interpretation control: evolving_system empty_control "control_step sha256" control_inv control_history
  for sha256
proof
  show "control_inv empty_control" by (rule control_inv_empty)
  show "control_inv s \<Longrightarrow> control_step sha256 s s' \<Longrightarrow> control_inv s'" for s s' using control_step_inv by blast
  show "control_inv s \<Longrightarrow> control_step sha256 s s' \<Longrightarrow> control_history s s'" for s s' using control_step_inv by blast
qed (auto intro: control_history_trans)

abbreviation control_reachable :: "(string \<Rightarrow> string) \<Rightarrow> control_db \<Rightarrow> bool" where
  "control_reachable sha256 \<equiv> reachable empty_control (control_step sha256)"

lemma control_run:
  assumes "control_reachable sha256 s" and "(control_step sha256)\<^sup>*\<^sup>* s s'"
  shows "control_inv s'" and "control_history s s'"
  using control.reachable_inv [OF assms(1)] control.run_inv [OF assms(2)] control.run_le [OF assms(2)] by blast+

section \<open>Refinement of the fleet\<close>

lemma control_step_core:
  assumes "control_step sha256 s s'"
  shows "fleet_step\<^sup>*\<^sup>* (core_db s) (core_db s')"
  using assms
proof cases
  case (fleet d)
  then show ?thesis by simp
next
  case (agent_registered issue uuid inp r)
  then obtain issued a d where "create_agent uuid (issued_created_at_ms issued) inp (core_db s) = Inr (a, d)"
    and "insert_agent_credential uuid issued (token_digest sha256 (issued_token issued)) (s\<lparr>core_db := d\<rparr>) = Inr s'"
    by (metis register_agent_core)
  then have "fleet_step (core_db s) (core_db s')"
    by (auto simp: insert_agent_credential_def insert_credential_row_def intro: fleet_step.agent_created
        split: if_splits option.splits)
  then show ?thesis ..
next
  case (trigger_fired uuid msg_now now tid occ f)
  then show ?thesis
  proof (cases rule: fire_cases)
    case (1 t r d)
    then have "fleet_step (core_db s) d"
      by (intro fleet_step.message_appended) (simp add: append_message_idempotent_def)
    moreover have "core_db s' = d" unfolding 1(8) by simp
    ultimately show ?thesis by simp
  qed
next
  case agent_rotated
  then have "core_db s' = core_db s"
    by (auto simp: rotate_agent_credential_def insert_agent_credential_def insert_credential_row_def
        revoke_credentials_def and_then_eq_Inr Let_def split: if_splits option.splits)
  then show ?thesis by simp
next
  case operator_ensured
  then have "core_db s' = core_db s"
    by (auto simp: ensure_operator_credential_def rotate_operator_digest_def insert_credential_row_def
        revoke_credentials_def and_then_eq_Inr Let_def split: if_splits option.splits prod.splits)
  then show ?thesis by simp
next
  case trigger_registered
  then have "core_db s' = core_db s"
    by (auto simp: register_trigger_def insert_trigger_def insert_trigger_row_def insert_credential_row_def
        map_unique_conflict_Inr and_then_eq_Inr Let_def split: if_splits option.splits)
  then show ?thesis by simp
next
  case trigger_retired
  then have "core_db s' = core_db s"
    by (auto simp: retire_trigger_def retire_trigger_row_def revoke_trigger_credentials_def
        revoke_credentials_def Let_def split: if_splits)
  then show ?thesis by simp
next
  case trigger_rotated
  then have "core_db s' = core_db s"
    by (auto simp: rotate_trigger_credential_def revoke_trigger_credentials_def insert_credential_row_def
        revoke_credentials_def and_then_eq_Inr Let_def split: if_splits option.splits)
  then show ?thesis by simp
next
  case seat_configured
  then have "core_db s' = core_db s" by (auto simp: configure_def and_then_eq_Inr Let_def split: if_splits)
  then show ?thesis by simp
next
  case seat_restarted
  then have "core_db s' = core_db s"
    by (auto simp: restart_def and_then_eq_Inr Let_def split: if_splits option.splits)
  then show ?thesis by simp
qed

text \<open>
  C27: the control database refines the fleet.  Whatever credential, trigger and seat operations run
  beside it, the core tables of a reachable control database are a reachable store of the fleet, so
  every invariant of the fleet holds of them.
\<close>

theorem control_refines_fleet:
  assumes "control_reachable sha256 s"
  shows "fleet_reachable (core_db s)"
  using assms
proof (induction rule: reachable.induct)
  case init
  then show ?case by (simp add: empty_control_def reachable.init)
next
  case (step s s')
  then show ?case using run_reachable control_step_core by blast
qed

end
