(* ===== verification/Authority.thy ===== *)
theory Authority
  imports Control
begin

text \<open>
  What the credentials and the registrations of triggers promise: a revoked token is dead for good, a
  rotated agent answers only to its new token, a retired trigger creates no more work, and a firing
  creates exactly the message its registration allows, once.
\<close>

section \<open>Tokens\<close>

lemma control_credentials: "control_inv s \<Longrightarrow> unique_on k_token_digest (auth_credentials s)"
  by (simp add: control_inv_def credentials_inv_def)

text \<open>A credential that was revoked stays where it is, and its digest is taken.\<close>

lemma revoked_token_dead:
  assumes inv: "control_inv s'" and hist: "control_history s s'"
    and k: "k \<in> set (auth_credentials s)" "k_token_digest k = token_digest sha256 token" "k_revoked_at_ms k \<noteq> None"
  shows "authenticate sha256 token s' = Inl Unauthorized"
proof -
  from hist k(1) obtain k' where k': "k' \<in> set (auth_credentials s')" "credential_kept k k'"
    unfolding control_history_def rows_kept_def by blast
  then have same: "k_token_digest k' = token_digest sha256 token" "k_revoked_at_ms k' \<noteq> None"
    using k by (auto simp: credential_kept_def)
  have "find (\<lambda>k. k_token_digest k = token_digest sha256 token \<and> k_revoked_at_ms k = None) (auth_credentials s') = None"
    unfolding find_None_iff using unique_onD [OF control_credentials [OF inv] _ k'(1)] same by metis
  then show ?thesis by (simp add: authenticate_def)
qed

lemma authenticate_row:
  assumes "authenticate sha256 token s = Inr p"
  obtains k where "k \<in> set (auth_credentials s)" "k_token_digest k = token_digest sha256 token" "k_revoked_at_ms k = None"
    "credential_id p = k_id k" "principal_agent_id p = k_agent_id k" "principal_trigger_id p = k_trigger_id k"
    "principal_agent_id p \<noteq> None \<longrightarrow> k_principal_kind k = AgentKind"
    "principal_trigger_id p \<noteq> None \<longrightarrow> k_principal_kind k = TriggerKind"
proof -
  obtain k where f: "find (\<lambda>k. k_token_digest k = token_digest sha256 token \<and> k_revoked_at_ms k = None)
      (auth_credentials s) = Some k" and p: "principal_from_row (k_id k) k = Inr p"
    using assms by (auto simp: authenticate_def and_then_eq_Inr ok_or_eq_Inr split: if_splits)
  from find_in [OF f] p show thesis
    by (intro that [of k]) (auto simp: principal_from_row_def split: principal_kind.splits option.splits)
qed

lemma revoked_row:
  "k \<in> set (auth_credentials s) \<Longrightarrow> P k \<Longrightarrow> k_revoked_at_ms k = None \<Longrightarrow>
     k\<lparr>k_revoked_at_ms := Some now\<rparr> \<in> set (auth_credentials (revoke_credentials P now s))"
  by (auto simp: revoke_credentials_def intro!: update_whereI1)

lemma insert_credential_mem:
  assumes "insert_credential_row r s = Inr s'"
  shows "set (auth_credentials s') = insert r (set (auth_credentials s))"
  using assms by (auto simp: insert_credential_row_def split: if_splits option.splits)

lemma rotate_agent_cases:
  assumes "rotate_agent_credential sha256 issue a s = Inr (issued, s')"
  shows "issue = Inr issued" and "insert_credential_row (new_credential AgentKind (Some a) None issued
      (token_digest sha256 (issued_token issued)))
      (revoke_credentials (\<lambda>k. k_principal_kind k = AgentKind \<and> k_agent_id k = Some a)
        (issued_created_at_ms issued) s) = Inr s'"
  using assms by (auto simp: rotate_agent_credential_def insert_agent_credential_def and_then_eq_Inr Let_def split: if_splits)

text \<open>
  C28: rotating an agent's credential replaces its authority.  Every token that authenticated the agent
  before is refused from then on, in every later state, and right after the rotation the issued token
  authenticates exactly that agent under the new credential.
\<close>

theorem rotation_replaces_tokens:
  assumes "control_reachable sha256 s" and "rotate_agent_credential sha256 issue a s = Inr (issued, s1)"
    and "(control_step sha256)\<^sup>*\<^sup>* s1 s2" and "authenticate sha256 token s = Inr p" and "principal_agent_id p = Some a"
    and "issued_token issued \<noteq> []" and "length (issued_token issued) \<le> MAX_TOKEN_LENGTH"
  shows "authenticate sha256 token s2 = Inl Unauthorized
    \<and> authenticate sha256 (issued_token issued) s1 = Inr (Agent (issued_id issued) a)"
proof
  note ins = rotate_agent_cases(2) [OF assms(2)]
  have r1: "control_reachable sha256 s1" using assms(1,2) by (auto intro: reachable.step control_step.agent_rotated)
  note run = control_run [OF r1 assms(3)]
  obtain k where k: "k \<in> set (auth_credentials s)" "k_token_digest k = token_digest sha256 token" "k_revoked_at_ms k = None"
    "k_agent_id k = Some a" "k_principal_kind k = AgentKind"
    using authenticate_row [OF assms(4)] assms(5) by (metis option.distinct(1))
  have "k\<lparr>k_revoked_at_ms := Some (issued_created_at_ms issued)\<rparr> \<in> set (auth_credentials s1)"
    using revoked_row [of k s "\<lambda>k. k_principal_kind k = AgentKind \<and> k_agent_id k = Some a"] k insert_credential_mem [OF ins]
    by simp
  from revoked_token_dead [OF run this] k(2) show "authenticate sha256 token s2 = Inl Unauthorized" by simp
  let ?k = "new_credential AgentKind (Some a) None issued (token_digest sha256 (issued_token issued))"
  have mem: "?k \<in> set (auth_credentials s1)" using insert_credential_mem [OF ins] by simp
  have "find (\<lambda>k. k_token_digest k = token_digest sha256 (issued_token issued) \<and> k_revoked_at_ms k = None)
      (auth_credentials s1) = Some ?k"
    by (rule find_unique [OF control_credentials [OF control.reachable_inv [OF r1]] mem])
      (simp_all add: new_credential_def)
  then show "authenticate sha256 (issued_token issued) s1 = Inr (Agent (issued_id issued) a)"
    using assms(6,7) by (simp add: authenticate_def principal_from_row_def new_credential_def)
qed

section \<open>Retirement\<close>

lemma retire_trigger_cases:
  assumes "retire_trigger now tid reason s = (Inr t, s')"
  shows "\<exists>r. r \<in> set (triggers s') \<and> tr_id r = tid \<and> tr_state r = TriggerRetired"
proof -
  let ?P = "\<lambda>r. tr_id r = tid \<and> tr_state r = TriggerActive"
  have s': "triggers s' = update_where ?P (retired_trigger reason now) (triggers s)"
    and g: "get_trigger tid s' = Inr t"
    using assms by (auto simp: retire_trigger_def retire_trigger_row_def Let_def revoke_trigger_credentials_def
        revoke_credentials_def split: if_splits)
  then obtain r where f: "find (\<lambda>r. tr_id r = tid) (triggers s') = Some r"
    by (auto simp: get_trigger_def and_then_eq_Inr ok_or_eq_Inr)
  from find_in [OF f] have r: "r \<in> set (triggers s')" "tr_id r = tid" by auto
  then obtain q where "r = (if ?P q then retired_trigger reason now q else q)" unfolding s' by (auto simp: in_update_where)
  then have "tr_state r = TriggerRetired"
    using r(2) by (cases "tr_state q") (auto simp: retired_trigger_def split: if_splits)
  with r show ?thesis by blast
qed

lemma retired_trigger_stays:
  assumes "control_history s s'" and "r \<in> set (triggers s)" and "tr_state r = TriggerRetired"
  shows "r \<in> set (triggers s')"
  using assms unfolding control_history_def rows_kept_def trigger_kept_def by metis

text \<open>
  A retired trigger creates no more work.  After a trigger was retired its row never changes again
  and every firing of it fails, in every later state, whatever was done to credentials since.
\<close>

theorem retired_trigger_never_fires:
  assumes "control_reachable sha256 s" and "retire_trigger now tid reason s = (Inr t, s1)"
    and "(control_step sha256)\<^sup>*\<^sup>* s1 s2"
  shows "\<exists>r e. r \<in> set (triggers s1) \<and> r \<in> set (triggers s2) \<and> tr_id r = tid \<and> tr_state r = TriggerRetired
    \<and> fire sha256 uuid msg_now now2 tid occ s2 = Inl e"
proof -
  have r1: "control_reachable sha256 s1" using assms(1,2) by (auto intro: reachable.step control_step.trigger_retired)
  note run = control_run [OF r1 assms(3)]
  obtain r where r: "r \<in> set (triggers s1)" "tr_id r = tid" "tr_state r = TriggerRetired"
    using retire_trigger_cases [OF assms(2)] by blast
  have r2: "r \<in> set (triggers s2)" using retired_trigger_stays [OF run(2) r(1,3)] .
  have "unique_on tr_id (triggers s2)" using run(1) by (simp add: control_inv_def triggers_inv_def)
  then have f: "find (\<lambda>r. tr_id r = tid) (triggers s2) = Some r" using find_key_iff r2 r(2) by metis
  have "\<exists>e. fire sha256 uuid msg_now now2 tid occ s2 = Inl e"
  proof (cases "fire sha256 uuid msg_now now2 tid occ s2")
    case (Inr y)
    obtain x s3 where "y = (x, s3)" by (rule prod.exhaust)
    with Inr have "fire sha256 uuid msg_now now2 tid occ s2 = Inr (x, s3)" by simp
    then show ?thesis by (cases rule: fire_cases) (use f r(3) in simp)
  qed simp
  with r r2 show ?thesis by blast
qed

section \<open>Firing\<close>

text \<open>What an append leaves: the message it returns, last in the log when it was created.\<close>

lemma appended_exactly:
  assumes "append_message_in_transaction uuid now cid inp d = Inr (r, d')"
  obtains m where "m \<in> set (messages d')" "appended_message r = message_from_row m"
    "m_sender_id m = new_sender_id inp" "message_matches_input (message_from_row m) cid inp"
    "if appended_created r then messages d' = messages d @ [m] else d' = d"
  using assms
proof (cases rule: append_message_cases)
  case (replay row)
  then show thesis using that [of row] by simp
next
  case (created x)
  let ?m = "appended_row uuid now cid inp (messages_sequence d + 1)"
  have "messages d' = messages d @ [?m]" using insert_message_store [OF created(1)] by simp
  moreover have "x = message_from_row ?m" using created(1) by (rule insert_message_effect)
  ultimately show thesis
    using that [of ?m] created(2)
    by (simp add: appended_row_def message_matches_input_def message_from_row_def)
qed

text \<open>
  C29: a firing does exactly what its registration allows.  When it creates work, the message it appended
  speaks for the registered sender in the registered channel, has a declared kind, goes to a peer, starts
  its own trace, and is recorded on the registration; when it creates none, it changed nothing.
\<close>

theorem firing_is_narrow:
  assumes "fire sha256 uuid msg_now now tid occ s = Inr (f, s')"
  shows "\<exists>t m. t \<in> set (triggers s) \<and> tr_id t = tid \<and> tr_state t = TriggerActive
    \<and> m \<in> set (messages (core_db s')) \<and> m_id m = fired_message_id f
    \<and> m_sender_id m = tr_sender_id t \<and> m_channel_id m = tr_channel_id t
    \<and> m_kind m \<in> set (tr_accepted_kinds t) \<and> m_kind m = occurrence_kind occ \<and> m_payload m = occurrence_payload occ
    \<and> m_recipient_id m = Some (occurrence_recipient_id occ) \<and> m_recipient_id m \<noteq> Some (tr_sender_id t)
    \<and> m_correlation_id m = None \<and> m_causation_id m = None
    \<and> (if fired_created f
       then messages (core_db s') = messages (core_db s) @ [m]
         \<and> t\<lparr>tr_last_occurrence_id := Some (occurrence_id occ), tr_last_fired_at_ms := Some now,
              tr_updated_at_ms := now, tr_accepted_occurrences := tr_accepted_occurrences t + 1\<rparr> \<in> set (triggers s')
       else s' = s)"
  using assms
proof (cases rule: fire_cases)
  case (1 t r d)
  note t = find_in [OF 1(1)]
  from 1(5) obtain m where m: "m \<in> set (messages d)" "appended_message r = message_from_row m" "m_sender_id m = tr_sender_id t"
    and like: "message_matches_input (message_from_row m) (tr_channel_id t)
       \<lparr>new_sender_id = tr_sender_id t, new_idempotency_key = Some (durable_key sha256 tid (occurrence_id occ)),
        new_recipient_id = Some (occurrence_recipient_id occ), new_kind = occurrence_kind occ,
        new_payload = occurrence_payload occ, new_correlation_id = None, new_causation_id = None\<rparr>"
    and log: "if appended_created r then messages d = messages (core_db s) @ [m] else d = core_db s"
    by (rule appended_exactly) simp
  have core: "core_db s' = d" unfolding 1(8) by simp
  have facts: "m_id m = fired_message_id f" "m_channel_id m = tr_channel_id t" "m_kind m = occurrence_kind occ"
    "m_payload m = occurrence_payload occ" "m_recipient_id m = Some (occurrence_recipient_id occ)"
    "m_correlation_id m = None" "m_causation_id m = None"
    using m(2) like unfolding 1(7) by (simp_all add: message_from_row_def message_matches_input_def)
  have last: "if fired_created f then messages d = messages (core_db s) @ [m]
      \<and> fired_trigger (occurrence_id occ) now t \<in> set (triggers s') else s' = s"
    using log t 1(2) unfolding 1(7,8) by (auto intro!: update_whereI1)
  show ?thesis
    using t 1(2-4) m facts last unfolding core fired_trigger_def by (intro exI [of _ t] exI [of _ m]) simp
qed

text \<open>
  A repeated firing is absorbed.  While the trigger is active, firing an occurrence again returns the
  message of the first firing and changes nothing when recipient, kind and payload are the same; with
  another declared kind, payload or peer it is a conflict.  Nothing else is ever created for it.
\<close>

theorem firing_replays:
  assumes "control_reachable sha256 s" and "fire sha256 uuid msg_now now tid occ s = Inr (f, s1)"
    and "(control_step sha256)\<^sup>*\<^sup>* s1 s2"
    and "t \<in> set (triggers s2)" and "tr_id t = tid" and "tr_state t = TriggerActive" and "validate_occurrence occ2 = Inr ()"
    and "occurrence_id occ2 = occurrence_id occ" and "occurrence_kind occ2 \<in> set (tr_accepted_kinds t)"
    and "occurrence_recipient_id occ2 \<noteq> tr_sender_id t" and "tr_accepted_occurrences t \<le> i64_max"
  shows "fire sha256 uuid2 msg_now2 now2 tid occ2 s2 =
    (if occurrence_recipient_id occ2 = occurrence_recipient_id occ \<and> occurrence_kind occ2 = occurrence_kind occ
        \<and> occurrence_payload occ2 = occurrence_payload occ
     then Inr (f\<lparr>fired_created := False\<rparr>, s2)
     else Inl (Conflict ''idempotency key was already used for a different message''))"
  using assms(2)
proof (cases rule: fire_cases)
  case (1 t0 r d)
  let ?inp = "\<lambda>t x. \<lparr>new_sender_id = tr_sender_id t, new_idempotency_key = Some (durable_key sha256 tid (occurrence_id x)),
      new_recipient_id = Some (occurrence_recipient_id x), new_kind = occurrence_kind x,
      new_payload = occurrence_payload x, new_correlation_id = None, new_causation_id = None\<rparr>"
  have r1: "control_reachable sha256 s1" using assms(1,2) by (auto intro: reachable.step control_step.trigger_fired)
  note run = control_run [OF r1 assms(3)] and all = control_run [OF assms(1)]
  have "control_step sha256 s s1" using assms(2) by (rule control_step.trigger_fired)
  then have "(control_step sha256)\<^sup>*\<^sup>* s s2" using assms(3) by (rule converse_rtranclp_into_rtranclp)
  then have "control_history s s2" using all(2) by blast
  then obtain t' where t': "t' \<in> set (triggers s2)" "trigger_kept t0 t'"
    using find_in [OF 1(1)] unfolding control_history_def rows_kept_def by blast
  have u: "unique_on tr_id (triggers s2)" and checks: "trigger_check t" "kinds_ok (tr_accepted_kinds t)"
    using run(1) assms(4) by (auto simp: control_inv_def triggers_inv_def)
  have "t' = t" using unique_onD [OF u t'(1) assms(4)] t'(2) assms(5) find_in [OF 1(1)] by (auto simp: trigger_kept_def)
  then have same: "tr_sender_id t = tr_sender_id t0" "tr_channel_id t = tr_channel_id t0"
    using t'(2) by (simp_all add: trigger_kept_def)
  have core: "core_db s1 = d" unfolding 1(8) by simp
  have minv: "messages_inv (core_db s2)" using run(1) core_invD(2) by (auto simp: control_inv_def fleet_inv_def)
  have sub: "set (messages d) \<subseteq> set (messages (core_db s2))"
    using run(2) core by (auto simp: control_history_def fleet_history_def history_def evolves_def)
  have kind: "\<not> trim_is_empty (occurrence_kind occ2)" using checks(2) assms(9) by (auto simp: kinds_ok_def)
  note rep = append_replays [OF 1(5) _ minv sub, of "?inp t occ2" uuid2 msg_now2 "tr_channel_id t"]
  have app: "append_message_in_transaction uuid2 msg_now2 (tr_channel_id t) (?inp t occ2) (core_db s2) =
      (if message_matches_input (appended_message r) (tr_channel_id t) (?inp t occ2)
       then Inr (\<lparr>appended_message = appended_message r, appended_created = False\<rparr>, core_db s2)
       else Inl (Conflict ''idempotency key was already used for a different message''))"
    and first: "message_matches_input (appended_message r) (tr_channel_id t0) (?inp t0 occ)"
    using rep same kind assms(8) by auto
  have match: "message_matches_input (appended_message r) (tr_channel_id t) (?inp t occ2) \<longleftrightarrow>
      occurrence_recipient_id occ2 = occurrence_recipient_id occ \<and> occurrence_kind occ2 = occurrence_kind occ
        \<and> occurrence_payload occ2 = occurrence_payload occ"
    using first same by (auto simp: message_matches_input_def)
  have f: "find (\<lambda>t. tr_id t = tid) (triggers s2) = Some t" using find_key_iff [OF u] assms(4,5) by metis
  obtain n where n: "u64_try_from (tr_accepted_occurrences t) = Some n"
    using checks(1) assms(11) by (simp add: u64_try_from_def trigger_check_def i64_max_def)
  show ?thesis
    using assms(6-10) app unfolding match 1(7)
    by (simp add: fire_def trigger_in_transaction_def f trigger_from_row_def n fired_message_def Let_def)
qed

section \<open>Durable keys\<close>

lemma hex_digit_inj:
  assumes "0 \<le> m" "m < 16" "0 \<le> n" "n < 16" and "hex_digit m = hex_digit n"
  shows "m = n"
proof -
  have "list_all (\<lambda>m. list_all (\<lambda>n. hex_digit m = hex_digit n \<longrightarrow> m = n) [0..15]) [0..15]" by code_simp
  then show ?thesis using assms by (simp add: list_all_iff)
qed

lemma hex_bytes_length: "length (hex_bytes bs) = 2 * length bs"
  by (induction bs) (simp_all add: hex_bytes_def)

lemma hex_bytes_inj: "hex_bytes as = hex_bytes bs \<Longrightarrow> as = bs"
proof (induction as arbitrary: bs)
  case Nil
  then show ?case by (cases bs) (simp_all add: hex_bytes_def)
next
  case (Cons a as)
  then obtain b bs' where bs: "bs = b # bs'" by (cases bs) (simp_all add: hex_bytes_def)
  have lt: "0 \<le> (of_char c :: int) div 16" "(of_char c :: int) div 16 < 16"
    "0 \<le> (of_char c :: int) mod 16" "(of_char c :: int) mod 16 < 16" for c :: char
  proof -
    have "(of_char c :: int) mod 256 = of_char c" by simp
    then have "0 \<le> (of_char c :: int)" "(of_char c :: int) < 256"
      by (metis pos_mod_sign zero_less_numeral, metis pos_mod_bound zero_less_numeral)
    then show "0 \<le> (of_char c :: int) div 16" "(of_char c :: int) div 16 < 16"
      "0 \<le> (of_char c :: int) mod 16" "(of_char c :: int) mod 16 < 16" by simp_all
  qed
  have digits: "hex_digit (of_char a div 16) = hex_digit (of_char b div 16)" "hex_digit (of_char a mod 16) = hex_digit (of_char b mod 16)"
    and rest: "hex_bytes as = hex_bytes bs'" using Cons.prems by (simp_all add: bs hex_bytes_def)
  have "(of_char a :: int) = of_char b"
    using hex_digit_inj [OF lt(1,2) lt(1,2) digits(1)] hex_digit_inj [OF lt(3,4) lt(3,4) digits(2)] by (metis div_mult_mod_eq)
  then have "a = b" by simp
  with Cons.IH [OF rest] show ?case by (simp add: bs)
qed

text \<open>
  The durable keys of firings never collide.  Two firings share a key only when they name the same
  trigger and occurrences with the same digest, however the trigger chose its identifiers, because the
  digest is written with a fixed number of digits.
\<close>

theorem durable_keys_apart:
  assumes "\<forall>x. length (sha256 x) = 32" and "durable_key sha256 tid occ = durable_key sha256 tid' occ'"
  shows "tid = tid' \<and> sha256 occ = sha256 occ'"
proof -
  have len: "length (hex_bytes (sha256 occ)) = length (hex_bytes (sha256 occ'))" using assms(1) by (simp add: hex_bytes_length)
  have "(tid @ '':occurrence:'') @ hex_bytes (sha256 occ) = (tid' @ '':occurrence:'') @ hex_bytes (sha256 occ')"
    using assms(2) by (simp add: durable_key_def)
  then have "tid = tid'" "hex_bytes (sha256 occ) = hex_bytes (sha256 occ')"
    using len by (simp_all add: append_eq_append_conv)
  then show ?thesis using hex_bytes_inj by blast
qed

section \<open>Seat configurations\<close>

lemma configure_effect:
  assumes "configure now a req s = Inr (c, s')"
  shows "s' = s\<lparr>agent_seat_configurations := upsert_configuration now a req (agent_seat_configurations s)\<rparr>"
    and "configuration_row a s' = Inr c" and "validate_configuration req = Inr ()"
    and "rows_affected (\<lambda>r. a_id r = a) (agents (core_db s)) \<noteq> 0"
  using assms by (auto simp: configure_def and_then_eq_Inr Let_def split: if_splits)

lemma upsert_twice:
  "upsert_configuration now2 a req (upsert_configuration now a req rows) = upsert_configuration now a req rows"
proof -
  let ?rows = "upsert_configuration now a req rows"
  have some: "\<exists>r\<in>set ?rows. sc_agent_id r = a"
    by (simp add: upsert_configuration_def ex_key_update_where)
  have "\<forall>r\<in>set ?rows. \<not> (sc_agent_id r = a \<and> (sc_profile_id r \<noteq> configure_profile_id req
      \<or> sc_instructions r \<noteq> configure_instructions req \<or> sc_desired_state r \<noteq> configure_desired_state req))"
    by (simp add: upsert_configuration_def ball_update_where)
  then show ?thesis unfolding upsert_configuration_def [of now2] using some by (simp add: update_where_None)
qed

text \<open>
  Configuring a seat is idempotent, and its revision is a fence.  Repeating a configuration returns
  what the first returned and changes nothing, the revision included; and over every run, a
  configuration that reads differently, or was restarted, has a larger revision.
\<close>

theorem configuration_fenced:
  assumes "control_reachable sha256 s" and "configure now a req s = Inr (c, s1)" and "(control_step sha256)\<^sup>*\<^sup>* s1 s2"
    and "r \<in> set (agent_seat_configurations s1)" and "r' \<in> set (agent_seat_configurations s2)"
    and "sc_agent_id r' = sc_agent_id r"
  shows "configure now2 a req s1 = Inr (c, s1) \<and> (r' = r \<or> sc_revision r < sc_revision r')"
proof
  note eff = configure_effect [OF assms(2)]
  have up: "upsert_configuration now2 a req (agent_seat_configurations s1) = agent_seat_configurations s1"
    unfolding eff(1) by (simp add: upsert_twice)
  have core: "core_db s1 = core_db s" unfolding eff(1) by simp
  have same: "s1\<lparr>agent_seat_configurations := agent_seat_configurations s1\<rparr> = s1" by simp
  show "configure now2 a req s1 = Inr (c, s1)"
    using eff(2-4) by (simp add: configure_def up core same del: same)
  have r1: "control_reachable sha256 s1" using assms(1,2) by (auto intro: reachable.step control_step.seat_configured)
  note run = control_run [OF r1 assms(3)]
  from run(2) assms(4) obtain q where q: "q \<in> set (agent_seat_configurations s2)" "configuration_kept r q"
    unfolding control_history_def rows_kept_def by blast
  have "unique_on sc_agent_id (agent_seat_configurations s2)" using run(1) by (simp add: control_inv_def seats_inv_def)
  from unique_onD [OF this q(1) assms(5)] q(2) assms(6) have "q = r'" by (simp add: configuration_kept_def)
  with q(2) show "r' = r \<or> sc_revision r < sc_revision r'" by (simp add: configuration_kept_def)
qed

end
