(* ===== verification/Control_Example.thy ===== *)
theory Control_Example
  imports Authority Session_Example
begin

text \<open>
  A concrete run of the control database, on the store in which the operator and the worker share a
  channel: the worker's credential is issued and rotated, a trigger is registered, fires and is retired,
  and a seat is configured.
\<close>

section \<open>Inputs\<close>

text \<open>In place of SHA-256, a function that separates the tokens of the run.\<close>

definition ex_sha :: "string \<Rightarrow> string" where
  "ex_sha x = take 2 x"

definition ex_issue :: "string \<Rightarrow> string \<Rightarrow> i64 \<Rightarrow> issued_credential" where
  "ex_issue cid token now = \<lparr>issued_id = cid, issued_token = token, issued_created_at_ms = now\<rparr>"

definition ex_register :: register_trigger_input where
  "ex_register = \<lparr>register_name = ''nightly'', register_channel_id = ''c'', register_sender_id = ''o'',
     register_accepted_kinds = [''task'', ''note'']\<rparr>"

definition ex_occurrence :: trigger_occurrence where
  "ex_occurrence = \<lparr>occurrence_id = ''monday'', occurrence_recipient_id = ''w'', occurrence_kind = ''task'',
     occurrence_payload = ''1''\<rparr>"

definition ex_seat :: configure_agent_seat where
  "ex_seat = \<lparr>configure_profile_id = ''codex'', configure_instructions = ''build'', configure_desired_state = Running\<rparr>"

section \<open>States\<close>

definition ex_control :: control_db where
  "ex_control = empty_control\<lparr>core_db := ex_channels\<rparr>"

definition ex_credential :: credential_row where
  "ex_credential = \<lparr>k_id = ''k1'', k_principal_kind = AgentKind, k_agent_id = Some ''w'', k_trigger_id = None,
     k_token_digest = ex_sha ''one'', k_created_at_ms = 50, k_revoked_at_ms = None\<rparr>"

definition ex_issued :: control_db where
  "ex_issued = ex_control\<lparr>auth_credentials := [ex_credential]\<rparr>"

definition ex_rotated :: control_db where
  "ex_rotated = ex_control\<lparr>auth_credentials := [ex_credential\<lparr>k_revoked_at_ms := Some 60\<rparr>,
     ex_credential\<lparr>k_id := ''k2'', k_token_digest := ex_sha ''two'', k_created_at_ms := 60\<rparr>]\<rparr>"

definition ex_trigger :: trigger_row where
  "ex_trigger = \<lparr>tr_id = ''n'', tr_name = ''nightly'', tr_channel_id = ''c'', tr_sender_id = ''o'',
     tr_accepted_kinds = [''note'', ''task''], tr_state = TriggerActive, tr_created_at_ms = 70,
     tr_updated_at_ms = 70, tr_last_occurrence_id = None, tr_last_fired_at_ms = None,
     tr_accepted_occurrences = 0, tr_retired_at_ms = None, tr_retired_reason = None\<rparr>"

definition ex_trigger_credential :: credential_row where
  "ex_trigger_credential = \<lparr>k_id = ''k3'', k_principal_kind = TriggerKind, k_agent_id = None,
     k_trigger_id = Some ''n'', k_token_digest = ex_sha ''three'', k_created_at_ms = 70, k_revoked_at_ms = None\<rparr>"

definition ex_registered :: control_db where
  "ex_registered = ex_control\<lparr>auth_credentials := [ex_trigger_credential], triggers := [ex_trigger]\<rparr>"

definition ex_fired_message :: message_row where
  "ex_fired_message = \<lparr>m_seq = 1, m_id = ''m'', m_channel_id = ''c'', m_sender_id = ''o'',
     m_recipient_id = Some ''w'', m_kind = ''task'', m_payload = ''1'', m_correlation_id = None,
     m_causation_id = None, m_created_at_ms = 80,
     m_idempotency_key = Some (durable_key ex_sha ''n'' ''monday'')\<rparr>"

definition ex_fired :: control_db where
  "ex_fired = ex_registered\<lparr>core_db := ex_channels\<lparr>messages := [ex_fired_message], messages_sequence := 1,
       agent_deliveries := [new_delivery_row 1 ''w'' 80]\<rparr>,
     triggers := [fired_trigger ''monday'' 81 ex_trigger]\<rparr>"

definition ex_answer_of_firing :: trigger_fired where
  "ex_answer_of_firing = \<lparr>fired_trigger_id = ''n'', fired_occurrence_id = ''monday'', fired_message_id = ''m'',
     fired_created = True\<rparr>"

definition ex_retired :: control_db where
  "ex_retired = ex_fired\<lparr>auth_credentials := [ex_trigger_credential\<lparr>k_revoked_at_ms := Some 90\<rparr>],
     triggers := [retired_trigger ''over'' 90 (fired_trigger ''monday'' 81 ex_trigger)]\<rparr>"

definition ex_configured :: control_db where
  "ex_configured = ex_control\<lparr>agent_seat_configurations := [\<lparr>sc_agent_id = ''w'', sc_profile_id = ''codex'',
     sc_instructions = ''build'', sc_desired_state = Running, sc_revision = 1, sc_created_at_ms = 95,
     sc_updated_at_ms = 95\<rparr>]\<rparr>"

section \<open>The run\<close>

lemma ex_control_run:
  "rotate_agent_credential ex_sha (Inr (ex_issue ''k1'' ''one'' 50)) ''w'' ex_control = Inr (ex_issue ''k1'' ''one'' 50, ex_issued)"
  "rotate_agent_credential ex_sha (Inr (ex_issue ''k2'' ''two'' 60)) ''w'' ex_issued = Inr (ex_issue ''k2'' ''two'' 60, ex_rotated)"
  "map_sum id snd (register_trigger ex_sha (Inr (ex_issue ''k3'' ''three'' 70)) ''n'' ex_register ex_control) = Inr ex_registered"
  "fire ex_sha ''m'' 80 81 ''n'' ex_occurrence ex_registered = Inr (ex_answer_of_firing, ex_fired)"
  "snd (retire_trigger 90 ''n'' ''over'' ex_fired) = ex_retired"
  "\<not> isl (fst (retire_trigger 90 ''n'' ''over'' ex_fired))"
  "map_sum id snd (configure 95 ''w'' ex_seat ex_control) = Inr ex_configured"
  by code_simp+

lemma control_reachable_core:
  "fleet_reachable d \<Longrightarrow> control_reachable sha256 (empty_control\<lparr>core_db := d\<rparr>)"
proof (induction rule: reachable.induct)
  case init
  have "empty_control\<lparr>core_db := empty_db\<rparr> = empty_control" by (simp add: empty_control_def)
  then show ?case by (simp add: reachable.init)
next
  case (step d d')
  have "control_step sha256 (empty_control\<lparr>core_db := d\<rparr>) ((empty_control\<lparr>core_db := d\<rparr>)\<lparr>core_db := d'\<rparr>)"
    using step.hyps(2) by (intro control_step.fleet) simp
  then show ?case using reachable.step [OF step.IH] by simp
qed

lemma map_sum_Inr_snd: "map_sum id snd x = Inr s \<Longrightarrow> \<exists>y. x = Inr (y, s)"
  by (cases x) auto

lemma ex_control_reachable:
  "control_reachable ex_sha ex_control" "control_reachable ex_sha ex_issued" "control_reachable ex_sha ex_rotated"
  "control_reachable ex_sha ex_registered" "control_reachable ex_sha ex_fired" "control_reachable ex_sha ex_retired"
proof -
  show c: "control_reachable ex_sha ex_control" unfolding ex_control_def by (rule control_reachable_core [OF ex_reachable(1)])
  from c ex_control_run(1) show i: "control_reachable ex_sha ex_issued" by (auto intro: reachable.step control_step.agent_rotated)
  from i ex_control_run(2) show "control_reachable ex_sha ex_rotated" by (auto intro: reachable.step control_step.agent_rotated)
  from c map_sum_Inr_snd [OF ex_control_run(3)] show r: "control_reachable ex_sha ex_registered"
    by (auto intro: reachable.step control_step.trigger_registered)
  from r ex_control_run(4) show f: "control_reachable ex_sha ex_fired" by (auto intro: reachable.step control_step.trigger_fired)
  have "retire_trigger 90 ''n'' ''over'' ex_fired = (fst (retire_trigger 90 ''n'' ''over'' ex_fired), ex_retired)"
    using ex_control_run(5) by (metis prod.collapse)
  then have "control_step ex_sha ex_fired ex_retired" by (rule control_step.trigger_retired)
  with f show "control_reachable ex_sha ex_retired" by (rule reachable.step)
qed

section \<open>Witnesses\<close>

theorem control_refines_fleet_witness:
  "control_reachable ex_sha ex_fired \<and> fleet_reachable (core_db ex_fired) \<and> messages (core_db ex_fired) = [ex_fired_message]"
  using control_refines_fleet [OF ex_control_reachable(5)] ex_control_reachable(5) by (simp add: ex_fired_def)

theorem rotation_replaces_tokens_witness:
  "authenticate ex_sha ''one'' ex_issued = Inr (Agent ''k1'' ''w'')
   \<and> rotate_agent_credential ex_sha (Inr (ex_issue ''k2'' ''two'' 60)) ''w'' ex_issued = Inr (ex_issue ''k2'' ''two'' 60, ex_rotated)
   \<and> authenticate ex_sha ''one'' ex_rotated = Inl Unauthorized
   \<and> authenticate ex_sha ''two'' ex_rotated = Inr (Agent ''k2'' ''w'')"
proof -
  have auth: "authenticate ex_sha ''one'' ex_issued = Inr (Agent ''k1'' ''w'')" by code_simp
  have tok: "issued_token (ex_issue ''k2'' ''two'' 60) = ''two''" "issued_id (ex_issue ''k2'' ''two'' 60) = ''k2''"
    "length ''two'' \<le> MAX_TOKEN_LENGTH" by code_simp+
  show ?thesis
    using rotation_replaces_tokens [OF ex_control_reachable(2) ex_control_run(2) rtranclp.rtrancl_refl auth]
      auth ex_control_run(2) tok by simp
qed

theorem retired_trigger_never_fires_witness:
  "control_reachable ex_sha ex_fired \<and> snd (retire_trigger 90 ''n'' ''over'' ex_fired) = ex_retired
   \<and> (\<exists>e. fire ex_sha ''x'' 99 99 ''n'' ex_occurrence ex_retired = Inl e)"
proof -
  obtain t where "retire_trigger 90 ''n'' ''over'' ex_fired = (Inr t, ex_retired)"
    using ex_control_run(5,6) by (metis isl_def prod.collapse sum.exhaust)
  from retired_trigger_never_fires [OF ex_control_reachable(5) this rtranclp.rtrancl_refl]
  show ?thesis using ex_control_reachable(5) ex_control_run(5) by blast
qed

theorem firing_is_narrow_witness:
  "fire ex_sha ''m'' 80 81 ''n'' ex_occurrence ex_registered = Inr (ex_answer_of_firing, ex_fired)
   \<and> (\<exists>t m. t \<in> set (triggers ex_registered) \<and> m \<in> set (messages (core_db ex_fired)) \<and> m_id m = ''m''
        \<and> m_sender_id m = tr_sender_id t \<and> m_kind m \<in> set (tr_accepted_kinds t))"
proof -
  have "fired_message_id ex_answer_of_firing = ''m''" by code_simp
  then show ?thesis using firing_is_narrow [OF ex_control_run(4)] ex_control_run(4) by metis
qed

theorem firing_replays_witness:
  "fire ex_sha ''m'' 80 81 ''n'' ex_occurrence ex_registered = Inr (ex_answer_of_firing, ex_fired)
   \<and> fire ex_sha ''z'' 500 501 ''n'' ex_occurrence ex_fired = Inr (ex_answer_of_firing\<lparr>fired_created := False\<rparr>, ex_fired)"
proof -
  let ?t = "fired_trigger ''monday'' 81 ex_trigger"
  have t: "?t \<in> set (triggers ex_fired)" "tr_id ?t = ''n''" "tr_state ?t = TriggerActive"
    "validate_occurrence ex_occurrence = Inr ()" "occurrence_kind ex_occurrence \<in> set (tr_accepted_kinds ?t)"
    "occurrence_recipient_id ex_occurrence \<noteq> tr_sender_id ?t" "tr_accepted_occurrences ?t \<le> i64_max"
    by code_simp+
  show ?thesis
    using firing_replays [OF ex_control_reachable(4) ex_control_run(4) rtranclp.rtrancl_refl t(1-4) refl t(5-7)]
      ex_control_run(4) by simp
qed

definition ex_sha_wide :: "string \<Rightarrow> string" where
  "ex_sha_wide x = take 32 (x @ replicate 32 (CHR ''0''))"

theorem durable_keys_apart_witness:
  "length (ex_sha_wide ''monday'') = 32 \<and> durable_key ex_sha_wide ''n'' ''monday'' \<noteq> durable_key ex_sha_wide ''m'' ''monday''"
proof -
  have len: "\<forall>x. length (ex_sha_wide x) = 32" by (auto simp: ex_sha_wide_def)
  show ?thesis using durable_keys_apart [OF len, of "''n''" "''monday''" "''m''" "''monday''"] len by auto
qed

theorem configuration_fenced_witness:
  "\<exists>c r. configure 95 ''w'' ex_seat ex_control = Inr (c, ex_configured) \<and> r \<in> set (agent_seat_configurations ex_configured)
     \<and> configure 99 ''w'' ex_seat ex_configured = Inr (c, ex_configured)"
proof -
  obtain c where c: "configure 95 ''w'' ex_seat ex_control = Inr (c, ex_configured)"
    using map_sum_Inr_snd [OF ex_control_run(7)] by blast
  obtain r where r: "r \<in> set (agent_seat_configurations ex_configured)" by (simp add: ex_configured_def)
  from configuration_fenced [OF ex_control_reachable(1) c rtranclp.rtrancl_refl r r refl] c r show ?thesis by blast
qed

section \<open>Rotating a trigger that was retired meanwhile\<close>

text \<open>
  \<open>rotate_trigger_credential\<close> reads the registration before its transaction.  A retirement that commits
  in between leaves a retired trigger with an active credential, which authenticates.
\<close>

theorem rotation_races_retirement:
  "\<exists>s. rotate_trigger_credential ex_sha (Inr (ex_issue ''k4'' ''four'' 91)) ''n'' ex_fired ex_retired
        = Inr (ex_issue ''k4'' ''four'' 91, s)
     \<and> map tr_state (triggers s) = [TriggerRetired]
     \<and> authenticate ex_sha ''four'' s = Inr (TriggerPrincipal ''k4'' ''n'')"
proof (intro exI conjI)
  let ?s = "ex_retired\<lparr>auth_credentials := [ex_trigger_credential\<lparr>k_revoked_at_ms := Some 90\<rparr>,
    ex_trigger_credential\<lparr>k_id := ''k4'', k_token_digest := ex_sha ''four'', k_created_at_ms := 91\<rparr>]\<rparr>"
  show "map tr_state (triggers ?s) = [TriggerRetired]"
    by (simp add: ex_retired_def retired_trigger_def)
  show "authenticate ex_sha ''four'' ?s = Inr (TriggerPrincipal ''k4'' ''n'')"
    by (simp add: authenticate_def token_digest_def ex_sha_def ex_trigger_credential_def principal_from_row_def MAX_TOKEN_LENGTH_def)
  show "rotate_trigger_credential ex_sha (Inr (ex_issue ''k4'' ''four'' 91)) ''n'' ex_fired ex_retired
      = Inr (ex_issue ''k4'' ''four'' 91, ?s)"
    by (simp add: rotate_trigger_credential_def get_trigger_def ex_fired_def ex_registered_def ex_trigger_def fired_trigger_def
        trigger_from_row_def u64_try_from_def insert_credential_row_def revoke_trigger_credentials_def revoke_credentials_def
        new_credential_def ex_retired_def ex_trigger_credential_def token_digest_def ex_sha_def ex_issue_def trigger_exists_def
        retired_trigger_def)
qed

end
