(* ===== verification/Channel_Stream.thy ===== *)
theory Channel_Stream
  imports Authority
begin

text \<open>
  Channel streams (\<open>crates/http/src/channel_stream.rs\<close>): durable replay followed by live continuation.
  A stream is a cursor into the log of one channel.  Whatever wakes it, it reads the pages after its
  cursor from the database and sends them, so a wake-up carries no authority and may be lost.

  A stream runs beside every other writer: each read sees the database of that moment, each send may
  fail.  Both are given by an environment, indexed by how many reads and sends the stream made so far.
  The serialization of a frame and the transport are not modelled: a frame is sent or it is not.
\<close>

section \<open>Authority (AuthorizedChannelStream)\<close>

datatype authorized_stream_principal = StreamOperator | StreamAgent string

record authorized_channel_stream =
  stream_channel_id :: string
  stream_after :: i64
  stream_credential_id :: string
  stream_principal :: authorized_stream_principal

definition from_principal :: "string \<Rightarrow> i64 \<Rightarrow> principal \<Rightarrow> authorized_channel_stream result" where
  "from_principal cid after p =
     and_then (case p of
         Operator c \<Rightarrow> Inr StreamOperator
       | Agent c a \<Rightarrow> Inr (StreamAgent a)
       | TriggerPrincipal c t \<Rightarrow> Inl (Forbidden ''a trigger credential cannot read a channel stream'')) (\<lambda>sp.
     Inr \<lparr>stream_channel_id = cid, stream_after = after, stream_credential_id = credential_id p,
          stream_principal = sp\<rparr>)"

definition issuing_principal :: "authorized_channel_stream \<Rightarrow> principal" where
  "issuing_principal a =
     (case stream_principal a of
        StreamOperator \<Rightarrow> Operator (stream_credential_id a)
      | StreamAgent agent \<Rightarrow> Agent (stream_credential_id a) agent)"

section \<open>The environment and the frames\<close>

definition REPLAY_PAGE_SIZE :: u32 where "REPLAY_PAGE_SIZE = 500"

text \<open>\<open>env_db n\<close> is what the \<open>n\<close>-th action would read, \<open>None\<close> a failing database; \<open>env_send n\<close> whether it could send.\<close>

record stream_env =
  env_db :: "nat \<Rightarrow> control_db option"
  env_send :: "nat \<Rightarrow> bool"

datatype stream_wire = Native | Browser principal

datatype stream_termination = ClientClosed | InvalidClientMessage | GrantRejected | Internal

datatype stream_frame =
    RawMessage message
  | ReadyFrame string i64
  | MessageFrame message
  | CloseFrame nat string

text \<open>The frames that were sent, each with the moment of its sending.\<close>

record stream_run =
  run_now :: nat
  run_cursor :: i64
  run_frames :: "(nat \<times> stream_frame) list"

definition tick :: "stream_run \<Rightarrow> stream_run" where
  "tick st = st\<lparr>run_now := run_now st + 1\<rparr>"

section \<open>Sending (StreamWire)\<close>

definition send_serialized ::
  "stream_env \<Rightarrow> stream_frame \<Rightarrow> stream_run \<Rightarrow> (stream_termination + unit) \<times> stream_run" where
  "send_serialized env frame st =
     (if env_send env (run_now st)
      then (Inr (), (tick st)\<lparr>run_frames := run_frames st @ [(run_now st, frame)]\<rparr>)
      else (Inl ClientClosed, tick st))"

definition BrowserStreamCursor_new :: "i64 \<Rightarrow> i64 option" where
  "BrowserStreamCursor_new v = (if v < 0 then None else Some v)"

definition send_ready ::
  "stream_env \<Rightarrow> stream_wire \<Rightarrow> string \<Rightarrow> i64 \<Rightarrow> stream_run \<Rightarrow> (stream_termination + unit) \<times> stream_run" where
  "send_ready env wire cid after st =
     (case wire of
        Native \<Rightarrow> (Inr (), st)
      | Browser p \<Rightarrow>
          (case BrowserStreamCursor_new after of
             None \<Rightarrow> (Inl Internal, st)
           | Some cursor \<Rightarrow> send_serialized env (ReadyFrame cid cursor) st))"

definition revalidate :: "stream_env \<Rightarrow> stream_wire \<Rightarrow> stream_run \<Rightarrow> (stream_termination + unit) \<times> stream_run" where
  "revalidate env wire st =
     (case wire of
        Native \<Rightarrow> (Inr (), st)
      | Browser p \<Rightarrow>
          (case env_db env (run_now st) of
             None \<Rightarrow> (Inl Internal, tick st)
           | Some s \<Rightarrow>
               (case revalidate_principal p s of
                  Inr True \<Rightarrow> (Inr (), tick st)
                | Inr False \<Rightarrow> (Inl GrantRejected, tick st)
                | Inl e \<Rightarrow> (Inl Internal, tick st))))"

definition send_message ::
  "stream_env \<Rightarrow> stream_wire \<Rightarrow> message \<Rightarrow> stream_run \<Rightarrow> (stream_termination + unit) \<times> stream_run" where
  "send_message env wire m st =
     (case revalidate env wire st of
        (Inl t, st') \<Rightarrow> (Inl t, st')
      | (Inr u, st') \<Rightarrow>
          send_serialized env (case wire of Native \<Rightarrow> RawMessage m | Browser p \<Rightarrow> MessageFrame m) st')"

text \<open>What a client may send on an open stream.\<close>

datatype incoming = Ended | TransportError | CloseMessage | Ping | Pong | TextMessage string | BinaryMessage string

fun accept_incoming :: "stream_wire \<Rightarrow> incoming \<Rightarrow> stream_termination + unit" where
  "accept_incoming w Ended = Inl ClientClosed"
| "accept_incoming w TransportError = Inl ClientClosed"
| "accept_incoming w CloseMessage = Inl ClientClosed"
| "accept_incoming Native i = Inr ()"
| "accept_incoming (Browser p) Ping = Inr ()"
| "accept_incoming (Browser p) Pong = Inr ()"
| "accept_incoming (Browser p) (TextMessage t) = Inl InvalidClientMessage"
| "accept_incoming (Browser p) (BinaryMessage t) = Inl InvalidClientMessage"

definition finish :: "stream_env \<Rightarrow> stream_wire \<Rightarrow> stream_termination \<Rightarrow> stream_run \<Rightarrow> stream_run" where
  "finish env wire t st =
     (case wire of
        Native \<Rightarrow> st
      | Browser p \<Rightarrow>
          (case t of
             ClientClosed \<Rightarrow> st
           | InvalidClientMessage \<Rightarrow> snd (send_serialized env (CloseFrame 4400 ''invalid_handshake'') st)
           | GrantRejected \<Rightarrow> snd (send_serialized env (CloseFrame 4401 ''grant_rejected'') st)
           | Internal \<Rightarrow> snd (send_serialized env (CloseFrame 1011 ''internal_error'') st)))"

section \<open>Replay\<close>

fun send_page :: "stream_env \<Rightarrow> stream_wire \<Rightarrow> message list \<Rightarrow> stream_run \<Rightarrow> (stream_termination + unit) \<times> stream_run" where
  "send_page env wire [] st = (Inr (), st)"
| "send_page env wire (m # ms) st =
     (case send_message env wire m st of
        (Inl t, st') \<Rightarrow> (Inl t, st')
      | (Inr u, st') \<Rightarrow> send_page env wire ms (st'\<lparr>run_cursor := msg_seq m\<rparr>))"

text \<open>The loop ends with the first short page; while others commit, nothing bounds it: \<open>None\<close> is not returning.\<close>

partial_function (option) replay ::
  "stream_env \<Rightarrow> stream_wire \<Rightarrow> authorized_channel_stream \<Rightarrow> stream_run
    \<Rightarrow> ((stream_termination + unit) \<times> stream_run) option" where
  "replay env wire a st =
     (case env_db env (run_now st) of
        None \<Rightarrow> Some (Inl Internal, tick st)
      | Some s \<Rightarrow>
          (case list_messages (stream_channel_id a) (run_cursor st) REPLAY_PAGE_SIZE (core_db s) of
             Inl e \<Rightarrow> Some (Inl Internal, tick st)
           | Inr page \<Rightarrow>
               (case send_page env wire (page_messages page) (tick st) of
                  (Inl t, st') \<Rightarrow> Some (Inl t, st')
                | (Inr u, st') \<Rightarrow>
                    if length (page_messages page) < unat REPLAY_PAGE_SIZE then Some (Inr (), st')
                    else replay env wire a st')))"

section \<open>The live loop\<close>

datatype wake = Committed message | External | Lagged | WakeClosed

datatype stream_event = Incoming incoming | Wake wake | Revalidate

definition handle_event ::
  "stream_env \<Rightarrow> stream_wire \<Rightarrow> authorized_channel_stream \<Rightarrow> stream_event \<Rightarrow> stream_run
    \<Rightarrow> ((stream_termination + unit) \<times> stream_run) option" where
  "handle_event env wire a event st =
     (case event of
        Incoming i \<Rightarrow> Some (accept_incoming wire i, st)
      | Wake (Committed m) \<Rightarrow>
          if msg_channel_id m = stream_channel_id a \<and> msg_seq m > run_cursor st
          then replay env wire a st else Some (Inr (), st)
      | Wake External \<Rightarrow> replay env wire a st
      | Wake Lagged \<Rightarrow> replay env wire a st
      | Wake WakeClosed \<Rightarrow> Some (Inl Internal, st)
      | Revalidate \<Rightarrow> Some (revalidate env wire st))"

text \<open>The events the loop selected so far; the value is how the stream ended, \<open>None\<close> while it is open.\<close>

fun run_events ::
  "stream_env \<Rightarrow> stream_wire \<Rightarrow> authorized_channel_stream \<Rightarrow> stream_event list \<Rightarrow> stream_run
    \<Rightarrow> (stream_termination option \<times> stream_run) option" where
  "run_events env wire a [] st = Some (None, st)"
| "run_events env wire a (e # es) st =
     (case handle_event env wire a e st of
        None \<Rightarrow> None
      | Some (Inl t, st') \<Rightarrow> Some (Some t, finish env wire t st')
      | Some (Inr u, st') \<Rightarrow> run_events env wire a es st')"

definition new_run :: "authorized_channel_stream \<Rightarrow> stream_run" where
  "new_run a = \<lparr>run_now = 0, run_cursor = stream_after a, run_frames = []\<rparr>"

definition run_channel_stream ::
  "stream_env \<Rightarrow> stream_wire \<Rightarrow> authorized_channel_stream \<Rightarrow> stream_event list
    \<Rightarrow> (stream_termination option \<times> stream_run) option" where
  "run_channel_stream env wire a events =
     (case send_ready env wire (stream_channel_id a) (stream_after a) (new_run a) of
        (Inl t, st') \<Rightarrow> Some (Some t, finish env wire t st')
      | (Inr u, st') \<Rightarrow>
          (case replay env wire a st' of
             None \<Rightarrow> None
           | Some (Inl t, st'') \<Rightarrow> Some (Some t, finish env wire t st'')
           | Some (Inr u, st'') \<Rightarrow> run_events env wire a events st''))"

definition run_native_channel_stream where
  "run_native_channel_stream env a events = run_channel_stream env Native a events"

definition run_browser_channel_stream where
  "run_browser_channel_stream env a events = run_channel_stream env (Browser (issuing_principal a)) a events"

section \<open>What was sent\<close>

fun frame_message :: "stream_frame \<Rightarrow> message option" where
  "frame_message (RawMessage m) = Some m"
| "frame_message (MessageFrame m) = Some m"
| "frame_message (ReadyFrame c n) = None"
| "frame_message (CloseFrame c r) = None"

definition sent_messages :: "stream_run \<Rightarrow> message list" where
  "sent_messages st = List.map_filter (\<lambda>(n, f). frame_message f) (run_frames st)"

text \<open>The messages of the channel after a cursor, as a reader sees them.\<close>

definition channel_tail :: "string \<Rightarrow> i64 \<Rightarrow> db \<Rightarrow> message list" where
  "channel_tail cid after d = map message_from_row (channel_after cid after d)"

text \<open>
  \<open>st'\<close> follows \<open>st\<close> on the log of \<open>d\<close>: what was sent in between is exactly the part of the channel
  between the two cursors, in order.
\<close>

definition advances :: "string \<Rightarrow> db \<Rightarrow> stream_run \<Rightarrow> stream_run \<Rightarrow> bool" where
  "advances cid d st st' \<longleftrightarrow> run_now st \<le> run_now st' \<and> run_cursor st \<le> run_cursor st'
     \<and> (\<exists>ms. sent_messages st' = sent_messages st @ ms
          \<and> channel_tail cid (run_cursor st) d = ms @ channel_tail cid (run_cursor st') d)"

lemma advances_refl [simp]: "advances cid d st st"
  by (simp add: advances_def)

lemma advances_trans: "advances cid d st st' \<Longrightarrow> advances cid d st' st'' \<Longrightarrow> advances cid d st st''"
  unfolding advances_def by force

lemma tick_simps [simp]:
  "run_now (tick st) = run_now st + 1" "run_cursor (tick st) = run_cursor st" "run_frames (tick st) = run_frames st"
  by (simp_all add: tick_def)

lemma advances_tick [simp]: "advances cid d st (tick st)"
  by (simp add: advances_def sent_messages_def)

text \<open>A frame that is no message does not count.\<close>

lemma send_control_advances:
  "send_serialized env f st = (r, st') \<Longrightarrow> frame_message f = None \<Longrightarrow> advances cid d st st'"
  by (auto simp: send_serialized_def advances_def sent_messages_def List.map_filter_def split: if_splits)

lemma finish_advances: "advances cid d st (finish env wire t st)"
  by (auto simp: finish_def split: stream_wire.splits stream_termination.splits
      intro: send_control_advances [OF prod.collapse [symmetric]])

lemma send_ready_advances: "send_ready env wire c n st = (r, st') \<Longrightarrow> advances cid d st st'"
  by (auto simp: send_ready_def split: stream_wire.splits option.splits intro: send_control_advances)

lemma revalidate_advances: "revalidate env wire st = (r, st') \<Longrightarrow> advances cid d st st'"
  by (auto simp: revalidate_def split: stream_wire.splits option.splits sum.splits bool.splits)

lemma revalidate_frames: "revalidate env wire st = (r, st') \<Longrightarrow> run_frames st' = run_frames st \<and> run_cursor st' = run_cursor st"
  by (auto simp: revalidate_def split: stream_wire.splits option.splits sum.splits bool.splits)


section \<open>Replay sends the log\<close>

lemma channel_tail_Cons:
  assumes "messages_inv d" and "channel_tail cid c d = m # ms"
  shows "channel_tail cid (msg_seq m) d = ms" and "c < msg_seq m"
proof -
  obtain r rs where L: "channel_after cid c d = r # rs" and m: "m = message_from_row r" and ms: "ms = map message_from_row rs"
    using assms(2) by (auto simp: channel_tail_def Cons_eq_map_conv)
  then have "r \<in> set (channel_after cid c d)" by simp
  then have c: "c < m_seq r" by (simp add: channel_after_def)
  then show "c < msg_seq m" by (simp add: m message_from_row_def)
  have "sorted_wrt (<) (map m_seq (channel_after cid c d))"
    using assms(1) by (simp add: channel_after_def messages_inv_def sorted_filter_table)
  from filter_after_last [OF this, of 1] have "filter (\<lambda>x. m_seq r < m_seq x) (channel_after cid c d) = rs"
    by (simp add: L)
  moreover have "filter (\<lambda>x. m_seq r < m_seq x) (channel_after cid c d) = channel_after cid (m_seq r) d"
    using c by (auto simp: channel_after_def intro!: filter_cong)
  ultimately show "channel_tail cid (msg_seq m) d = ms"
    by (simp add: channel_tail_def m ms message_from_row_def)
qed

lemma send_message_effect:
  assumes "send_message env wire m st = (r, st')"
  shows "run_cursor st' = run_cursor st" and "run_now st \<le> run_now st'"
    and "sent_messages st' = sent_messages st @ (case r of Inl t \<Rightarrow> [] | Inr u \<Rightarrow> [m])"
proof -
  obtain q su where rv: "revalidate env wire st = (q, su)" by (rule prod.exhaust)
  note same = revalidate_frames [OF rv] and later = revalidate_advances [OF rv, of undefined undefined, unfolded advances_def]
  show "run_cursor st' = run_cursor st" "run_now st \<le> run_now st'"
    "sent_messages st' = sent_messages st @ (case r of Inl t \<Rightarrow> [] | Inr u \<Rightarrow> [m])"
    using assms same later by (auto simp: send_message_def rv send_serialized_def sent_messages_def List.map_filter_def
        split: sum.splits if_splits stream_wire.splits)
qed

lemma send_page_advances:
  assumes "messages_inv d"
  shows "send_page env wire ms st = (r, st') \<Longrightarrow> channel_tail cid (run_cursor st) d = ms @ rest \<Longrightarrow>
     advances cid d st st' \<and> (r = Inr () \<longrightarrow> channel_tail cid (run_cursor st') d = rest)"
proof (induction ms arbitrary: st)
  case Nil
  then show ?case by simp
next
  case (Cons m ms)
  obtain q su where sm: "send_message env wire m st = (q, su)" by (rule prod.exhaust)
  note eff = send_message_effect [OF sm]
  show ?case
  proof (cases q)
    case (Inl t)
    then show ?thesis using Cons.prems(1) sm eff by (auto simp: advances_def)
  next
    case (Inr u)
    let ?su = "su\<lparr>run_cursor := msg_seq m\<rparr>"
    have tail: "channel_tail cid (msg_seq m) d = ms @ rest" "run_cursor st < msg_seq m"
      using channel_tail_Cons [OF assms] Cons.prems(2) by auto
    have one: "advances cid d st ?su"
      using eff Inr tail Cons.prems(2) by (auto simp: advances_def sent_messages_def)
    have "send_page env wire ms ?su = (r, st')" using Cons.prems(1) sm Inr by simp
    from Cons.IH [OF this] tail(1) one show ?thesis using advances_trans by auto
  qed
qed

text \<open>Every read of the stream is a state of one run of the control database, in order, up to \<open>final\<close>.\<close>

definition reads_of :: "(string \<Rightarrow> string) \<Rightarrow> stream_env \<Rightarrow> control_db \<Rightarrow> bool" where
  "reads_of sha256 env final \<longleftrightarrow>
     (\<forall>n s. env_db env n = Some s \<longrightarrow> control_reachable sha256 s \<and> (control_step sha256)\<^sup>*\<^sup>* s final)
     \<and> (\<forall>m n s s'. m \<le> n \<longrightarrow> env_db env m = Some s \<longrightarrow> env_db env n = Some s' \<longrightarrow> (control_step sha256)\<^sup>*\<^sup>* s s')"

lemma control_log: "control_inv s \<Longrightarrow> messages_inv (core_db s)"
  by (simp add: control_inv_def fleet_inv_def core_inv_def)

text \<open>A later state has the same channel and more.\<close>

lemma later_tail:
  assumes "control_reachable sha256 s" and "(control_step sha256)\<^sup>*\<^sup>* s s'"
  shows "\<exists>more. channel_tail cid c (core_db s') = channel_tail cid c (core_db s) @ more"
proof -
  obtain ms where "messages (core_db s') = messages (core_db s) @ ms"
    using control_run(2) [OF assms] by (auto simp: control_history_def fleet_history_def history_def evolves_def)
  then show ?thesis by (simp add: channel_tail_def channel_after_def)
qed

lemma REPLAY_PAGE_SIZE_nat [simp]: "unat REPLAY_PAGE_SIZE = 500" "clamp_page REPLAY_PAGE_SIZE = 500"
  by (simp_all add: REPLAY_PAGE_SIZE_def clamp_page_def min_def max_def word_le_nat_alt)

lemma replayed_page:
  assumes run: "control_reachable sha256 s" "(control_step sha256)\<^sup>*\<^sup>* s final"
    and page: "list_messages cid (run_cursor st) REPLAY_PAGE_SIZE (core_db s) = Inr page"
    and sp: "send_page env wire (page_messages page) (tick st) = (r, st')"
  shows "advances cid (core_db final) st st'"
    and "r = Inr () \<Longrightarrow> length (page_messages page) < 500 \<Longrightarrow> channel_tail cid (run_cursor st') (core_db s) = []"
    and "r = Inr () \<Longrightarrow> \<not> length (page_messages page) < 500 \<Longrightarrow>
      length (channel_tail cid (run_cursor st') (core_db final)) < length (channel_tail cid (run_cursor st) (core_db final))"
proof -
  let ?ms = "page_messages page" and ?here = "channel_tail cid (run_cursor st) (core_db s)"
  note inv = control.reachable_inv [OF run(1)] control_run(1) [OF run]
  have ms: "?ms = take 500 ?here"
    using list_messages_page(1) [OF control_log [OF inv(1)] page] by (simp add: channel_tail_def take_map)
  obtain more where "channel_tail cid (run_cursor st) (core_db final) = ?here @ more" using later_tail [OF run] by blast
  then have tail: "channel_tail cid (run_cursor (tick st)) (core_db final) = ?ms @ drop 500 ?here @ more" by (simp add: ms)
  note sent = send_page_advances [OF control_log [OF inv(2)] sp tail]
  show "advances cid (core_db final) st st'" using sent advances_trans [OF advances_tick] by blast
  show "channel_tail cid (run_cursor st') (core_db s) = []" if "r = Inr ()" "length ?ms < 500"
    using send_page_advances [OF control_log [OF inv(1)] sp, of cid "drop 500 ?here"] that by (simp add: ms)
  show "length (channel_tail cid (run_cursor st') (core_db final)) < length (channel_tail cid (run_cursor st) (core_db final))"
    if "r = Inr ()" "\<not> length ?ms < 500"
    using sent that tail by (cases ?ms) auto
qed

text \<open>Replay returns, has sent the log from its cursor on, and what was committed when it began is sent unless it failed.\<close>

definition caught_up :: "stream_env \<Rightarrow> string \<Rightarrow> stream_run \<Rightarrow> stream_run \<Rightarrow> bool" where
  "caught_up env cid st st' \<longleftrightarrow>
     (\<forall>s. env_db env (run_now st) = Some s \<longrightarrow> channel_tail cid (run_cursor st') (core_db s) = [])"

lemma replay_read: "replay env wire a st = Some (Inr (), st') \<Longrightarrow> \<exists>s. env_db env (run_now st) = Some s"
  by (cases "env_db env (run_now st)") (simp_all add: replay.simps)

lemma caught_up_earlier:
  assumes env: "reads_of sha256 env final" and "run_now st \<le> run_now su" and some: "env_db env (run_now su) \<noteq> None"
    and "caught_up env cid su st'"
  shows "caught_up env cid st st'"
  unfolding caught_up_def
proof (intro allI impI)
  fix s assume s: "env_db env (run_now st) = Some s"
  obtain s' where s': "env_db env (run_now su) = Some s'" using some by blast
  have "control_reachable sha256 s" "(control_step sha256)\<^sup>*\<^sup>* s s'"
    using env s s' assms(2) unfolding reads_of_def by blast+
  from later_tail [OF this, of cid "run_cursor st'"] show "channel_tail cid (run_cursor st') (core_db s) = []"
    using assms(4) s' by (auto simp: caught_up_def)
qed

lemma replay_exact:
  assumes env: "reads_of sha256 env final"
  shows "\<exists>r st'. replay env wire a st = Some (r, st') \<and> advances (stream_channel_id a) (core_db final) st st'
    \<and> (r = Inr () \<longrightarrow> caught_up env (stream_channel_id a) st st')"
proof (induction "length (channel_tail (stream_channel_id a) (run_cursor st) (core_db final))" arbitrary: st rule: less_induct)
  case less
  let ?cid = "stream_channel_id a"
  show ?case
  proof (cases "\<exists>s page. env_db env (run_now st) = Some s
      \<and> list_messages ?cid (run_cursor st) REPLAY_PAGE_SIZE (core_db s) = Inr page")
    case False
    then show ?thesis by (auto simp: replay.simps split: option.splits sum.splits)
  next
    case True
    then obtain s page where s: "env_db env (run_now st) = Some s"
      and page: "list_messages ?cid (run_cursor st) REPLAY_PAGE_SIZE (core_db s) = Inr page" by blast
    obtain r st' where sp: "send_page env wire (page_messages page) (tick st) = (r, st')" by (rule prod.exhaust)
    have run: "control_reachable sha256 s" "(control_step sha256)\<^sup>*\<^sup>* s final" using env s by (auto simp: reads_of_def)
    note step = replayed_page [OF run page sp]
    show ?thesis
    proof (cases "r = Inr () \<and> \<not> length (page_messages page) < 500")
      case False
      then show ?thesis using s page sp step by (cases r) (auto simp: replay.simps caught_up_def)
    next
      case True
      have eq: "replay env wire a st = replay env wire a st'" using s page sp True by (subst replay.simps) simp
      obtain r' st'' where next': "replay env wire a st' = Some (r', st'')" "advances ?cid (core_db final) st' st''"
        "r' = Inr () \<longrightarrow> caught_up env ?cid st' st''"
        using less [OF step(3)] True by blast
      have "caught_up env ?cid st st''" if "r' = Inr ()"
        using caught_up_earlier [OF env, of st st'] replay_read [of env wire a st' st''] next' step(1) that
        by (auto simp: advances_def)
      then show ?thesis using eq next' advances_trans [OF step(1)] by auto
    qed
  qed
qed

section \<open>Whole streams\<close>

lemma handle_event_exact:
  assumes "reads_of sha256 env final"
  shows "\<exists>r st'. handle_event env wire a e st = Some (r, st') \<and> advances (stream_channel_id a) (core_db final) st st'"
proof -
  have rv: "\<exists>r st'. revalidate env wire st = (r, st') \<and> advances (stream_channel_id a) (core_db final) st st'"
    using revalidate_advances by (metis prod.exhaust)
  show ?thesis
    using replay_exact [OF assms, of wire a st] rv
    by (auto simp: handle_event_def split: stream_event.splits wake.splits)
qed

lemma run_events_exact:
  assumes "reads_of sha256 env final"
  shows "\<exists>t st'. run_events env wire a es st = Some (t, st') \<and> advances (stream_channel_id a) (core_db final) st st'"
proof (induction es arbitrary: st)
  case Nil
  then show ?case by simp
next
  case (Cons e es)
  obtain r su where e: "handle_event env wire a e st = Some (r, su)" "advances (stream_channel_id a) (core_db final) st su"
    using handle_event_exact [OF assms] by blast
  show ?case
  proof (cases r)
    case (Inl t)
    then show ?thesis using e advances_trans [OF e(2) finish_advances] by simp
  next
    case (Inr u)
    then show ?thesis using e Cons.IH [of su] advances_trans [OF e(2)] by auto
  qed
qed

lemma run_channel_stream_exact:
  assumes "reads_of sha256 env final"
  shows "\<exists>t st. run_channel_stream env wire a events = Some (t, st)
    \<and> advances (stream_channel_id a) (core_db final) (new_run a) st"
proof -
  obtain r su where ready: "send_ready env wire (stream_channel_id a) (stream_after a) (new_run a) = (r, su)" by (rule prod.exhaust)
  note adv = send_ready_advances [OF ready, of "stream_channel_id a" "core_db final"]
  obtain q sv where rp: "replay env wire a su = Some (q, sv)" "advances (stream_channel_id a) (core_db final) su sv"
    using replay_exact [OF assms] by blast
  obtain t sw where ev: "run_events env wire a events sv = Some (t, sw)" "advances (stream_channel_id a) (core_db final) sv sw"
    using run_events_exact [OF assms] by blast
  note adv2 = advances_trans [OF adv rp(2)]
  show ?thesis
    using ready rp(1) ev(1) advances_trans [OF adv finish_advances] advances_trans [OF adv2 finish_advances]
      advances_trans [OF adv2 ev(2)]
    by (auto simp: run_channel_stream_def split: sum.splits)
qed


section \<open>Wake-ups and revocation\<close>

lemma run_events_snoc:
  "run_events env wire a (es @ [e]) st = Some (None, su') \<Longrightarrow> run_events env wire a es st = Some (None, su) \<Longrightarrow>
     handle_event env wire a e su = Some (Inr (), su')"
  by (induction es arbitrary: st) (auto split: option.splits sum.splits prod.splits)

lemma run_channel_stream_snoc:
  assumes "run_channel_stream env wire a (es @ [e]) = Some (None, st')" and "run_channel_stream env wire a es = Some (None, st)"
  shows "handle_event env wire a e st = Some (Inr (), st')"
  using assms run_events_snoc [of env wire a es e _ st' st]
  by (auto simp: run_channel_stream_def split: option.splits sum.splits prod.splits)

lemma in_channel_tail:
  "m \<in> set (channel_tail cid c d) \<longleftrightarrow>
     c < msg_seq m \<and> (\<exists>r\<in>set (messages d). m_channel_id r = cid \<and> m = message_from_row r)"
  by (auto simp: channel_tail_def channel_after_def message_from_row_def)

lemma wake_covers:
  assumes env: "reads_of sha256 env final" and e: "e = Wake (Committed m) \<or> e = Wake External \<or> e = Wake Lagged"
    and h: "handle_event env wire a e st = Some (Inr (), st')" and s: "env_db env (run_now st) = Some s"
    and m: "m \<in> set (channel_tail (stream_channel_id a) c (core_db s))"
  shows "msg_seq m \<le> run_cursor st'"
proof (cases "handle_event env wire a e st = replay env wire a st")
  case True
  then have "caught_up env (stream_channel_id a) st st'" using replay_exact [OF env, of wire a st] h by auto
  then have "m \<notin> set (channel_tail (stream_channel_id a) (run_cursor st') (core_db s))" using s by (simp add: caught_up_def)
  then show ?thesis using m by (auto simp: in_channel_tail)
next
  case False
  have "msg_channel_id m = stream_channel_id a" using m by (auto simp: in_channel_tail message_from_row_def)
  then show ?thesis using False e h by (auto simp: handle_event_def split: if_splits)
qed

text \<open>
  No wake-up loses a message.  When a stream is still open after a wake-up for a committed message of
  its channel, or after a wake-up that names no message (another process, or a lagging subscription), the
  message has been sent, although the wake-up itself carries nothing to the client.
\<close>

theorem wake_delivers_committed:
  assumes "reads_of sha256 env final" and "run_channel_stream env wire a events = Some (None, st)"
    and "env_db env (run_now st) = Some s" and "m \<in> set (channel_tail (stream_channel_id a) (stream_after a) (core_db s))"
    and "e = Wake (Committed m) \<or> e = Wake External \<or> e = Wake Lagged"
    and "run_channel_stream env wire a (events @ [e]) = Some (None, st')"
  shows "m \<in> set (sent_messages st')"
proof -
  let ?cid = "stream_channel_id a"
  have "msg_seq m \<le> run_cursor st'"
    using wake_covers [OF assms(1,5) run_channel_stream_snoc [OF assms(6,2)] assms(3,4)] .
  then have out: "m \<notin> set (channel_tail ?cid (run_cursor st') (core_db final))" by (simp add: in_channel_tail)
  have "control_reachable sha256 s" "(control_step sha256)\<^sup>*\<^sup>* s final" using assms(1,3) by (auto simp: reads_of_def)
  from later_tail [OF this, of ?cid "stream_after a"] assms(4)
  have "m \<in> set (channel_tail ?cid (stream_after a) (core_db final))" by auto
  moreover have "channel_tail ?cid (stream_after a) (core_db final)
      = sent_messages st' @ channel_tail ?cid (run_cursor st') (core_db final)"
    using run_channel_stream_exact [OF assms(1), of wire a "events @ [e]"] assms(6)
    by (auto simp: advances_def new_run_def sent_messages_def List.map_filter_def)
  ultimately show ?thesis using out by auto
qed

text \<open>Every message on a browser stream was sent right after its credential was found valid.\<close>

definition frames_covered :: "stream_env \<Rightarrow> principal \<Rightarrow> stream_run \<Rightarrow> bool" where
  "frames_covered env p st \<longleftrightarrow> (\<forall>n f. (n, f) \<in> set (run_frames st) \<longrightarrow> frame_message f \<noteq> None \<longrightarrow>
     0 < n \<and> (\<exists>s. env_db env (n - 1) = Some s \<and> revalidate_principal p s = Inr True))"

lemma frames_covered_control:
  "send_serialized env f st = (r, st') \<Longrightarrow> frame_message f = None \<Longrightarrow> frames_covered env p st \<Longrightarrow> frames_covered env p st'"
  by (auto simp: send_serialized_def frames_covered_def split: if_splits)

lemma frames_covered_finish: "frames_covered env p st \<Longrightarrow> frames_covered env p (finish env wire t st)"
  by (auto simp: finish_def split: stream_wire.splits stream_termination.splits
      intro: frames_covered_control [OF prod.collapse [symmetric]])

lemma frames_covered_ready: "send_ready env wire c n st = (r, st') \<Longrightarrow> frames_covered env p st \<Longrightarrow> frames_covered env p st'"
  by (auto simp: send_ready_def split: stream_wire.splits option.splits intro: frames_covered_control)

lemma frames_covered_revalidate: "revalidate env wire st = (r, st') \<Longrightarrow> frames_covered env p st \<Longrightarrow> frames_covered env p st'"
  using revalidate_frames by (simp add: frames_covered_def)

lemma revalidate_Browser:
  "revalidate env (Browser p) st = (Inr u, st') \<Longrightarrow>
     run_now st' = run_now st + 1 \<and> (\<exists>s. env_db env (run_now st) = Some s \<and> revalidate_principal p s = Inr True)"
  by (auto simp: revalidate_def split: option.splits sum.splits bool.splits)

lemma frames_covered_message:
  assumes "send_message env (Browser p) m st = (r, st')" and "frames_covered env p st"
  shows "frames_covered env p st'"
proof -
  obtain q su where rv: "revalidate env (Browser p) st = (q, su)" by (rule prod.exhaust)
  note cov = frames_covered_revalidate [OF rv assms(2)]
  show ?thesis
  proof (cases q)
    case (Inl t)
    then show ?thesis using assms(1) rv cov by (simp add: send_message_def)
  next
    case (Inr u)
    then show ?thesis using assms(1) rv cov revalidate_Browser [of env p st u su]
      by (auto simp: send_message_def send_serialized_def frames_covered_def split: if_splits)
  qed
qed

lemma frames_covered_page:
  "send_page env (Browser p) ms st = (r, st') \<Longrightarrow> frames_covered env p st \<Longrightarrow> frames_covered env p st'"
proof (induction ms arbitrary: st)
  case (Cons m ms)
  obtain q su where sm: "send_message env (Browser p) m st = (q, su)" by (rule prod.exhaust)
  have "frames_covered env p (su\<lparr>run_cursor := c\<rparr>)" for c
    using frames_covered_message [OF sm Cons.prems(2)] by (simp add: frames_covered_def)
  then show ?case using Cons sm frames_covered_message [OF sm] by (cases q) auto
qed simp

lemma frames_covered_replay:
  assumes "replay env (Browser p) a st = Some (r, st')" and "frames_covered env p st"
  shows "frames_covered env p st'"
proof -
  let ?P = "\<lambda>env wire a st y. wire = Browser p \<longrightarrow> frames_covered env p st \<longrightarrow> frames_covered env p (snd y)"
  have tick: "frames_covered env p (tick st) = frames_covered env p st" for env p st by (simp add: frames_covered_def)
  have "?P env (Browser p) a st (r, st')"
    by (rule replay.raw_induct [of ?P, OF _ assms(1)])
      (auto simp: tick frames_covered_page split: option.splits sum.splits prod.splits if_splits)
  then show ?thesis using assms(2) by simp
qed

lemma frames_covered_event:
  "handle_event env (Browser p) a e st = Some (r, st') \<Longrightarrow> frames_covered env p st \<Longrightarrow> frames_covered env p st'"
  by (auto simp: handle_event_def split: stream_event.splits wake.splits if_splits
      intro: frames_covered_replay frames_covered_revalidate [OF prod.collapse [symmetric]] frames_covered_revalidate)

lemma frames_covered_events:
  "run_events env (Browser p) a es st = Some (t, st') \<Longrightarrow> frames_covered env p st \<Longrightarrow> frames_covered env p st'"
proof (induction es arbitrary: st)
  case (Cons e es)
  then show ?case
    by (auto split: option.splits sum.splits prod.splits dest: frames_covered_event intro: frames_covered_finish)
qed simp

lemma revalidated:
  assumes "revalidate_principal p s = Inr True"
  obtains k where "k \<in> set (auth_credentials s)" "k_id k = credential_id p" "k_revoked_at_ms k = None"
    "principal_from_row (k_id k) k = Inr p"
proof -
  obtain k where k: "find (\<lambda>k. k_id k = credential_id p \<and> k_revoked_at_ms k = None) (auth_credentials s) = Some k"
    "principal_from_row (credential_id p) k = Inr p"
    using assms by (auto simp: revalidate_principal_def and_then_eq_Inr split: option.splits)
  from find_in [OF k(1)] k(2) that show thesis by auto
qed

lemma issuing_credential [simp]: "credential_id (issuing_principal a) = stream_credential_id a"
  by (simp add: issuing_principal_def split: authorized_stream_principal.splits)

text \<open>
  C34: revoking a credential silences its browser streams.  Every message a browser stream ever sent was
  sent directly after a read that found the issuing credential present, unrevoked and naming the same
  principal, so a read that no longer finds it so is followed by no message at all.
\<close>

theorem browser_message_revalidated:
  assumes "run_browser_channel_stream env a events = Some (t, st)" and "(n, MessageFrame m) \<in> set (run_frames st)"
  shows "0 < n \<and> (\<exists>s k. env_db env (n - 1) = Some s \<and> k \<in> set (auth_credentials s) \<and> k_id k = stream_credential_id a
    \<and> k_revoked_at_ms k = None \<and> principal_from_row (k_id k) k = Inr (issuing_principal a))"
proof -
  let ?p = "issuing_principal a"
  have new: "frames_covered env ?p (new_run a)" by (simp add: frames_covered_def new_run_def)
  have "frames_covered env ?p st"
    using assms(1) frames_covered_ready [OF _ new]
    by (auto simp: run_browser_channel_stream_def run_channel_stream_def split: sum.splits option.splits prod.splits
        intro!: frames_covered_finish intro: frames_covered_replay [OF _ frames_covered_ready [OF _ new]]
          frames_covered_events [OF _ frames_covered_replay [OF _ frames_covered_ready [OF _ new]]])
  then obtain s where n: "0 < n" and s: "env_db env (n - 1) = Some s" "revalidate_principal ?p s = Inr True"
    using assms(2) by (fastforce simp: frames_covered_def)
  from revalidated [OF s(2)] obtain k where "k \<in> set (auth_credentials s)" "k_id k = stream_credential_id a"
    "k_revoked_at_ms k = None" "principal_from_row (k_id k) k = Inr ?p"
    by auto
  then show ?thesis using n s(1) by blast
qed

end
