(* ===== verification/Stream_Grants.thy ===== *)
theory Stream_Grants
  imports Channel_Stream "HOL-Library.Multiset"
begin

text \<open>
  Single-use stream grants (\<open>crates/http/src/stream_grant_broker.rs\<close>): one process-local table of grant
  digests, with counters per credential, that hands a browser the authority of one exact stream.

  The two hash maps of counters are maps, the table of grants an association list.  \<open>None\<close> is a panic:
  \<open>decrement_count\<close> expects a positive counter.  An \<open>Instant\<close> is an integer.  A redemption holds the lock
  twice, once to consume the grant and once to reserve its slot; other tasks run in between.
\<close>

section \<open>State and limits\<close>

definition STREAM_GRANT_PREFIX :: string where "STREAM_GRANT_PREFIX = ''fl_sg_''"
definition STREAM_GRANT_ENTROPY_BYTES :: nat where "STREAM_GRANT_ENTROPY_BYTES = 32"
definition STREAM_GRANT_ENCODED_LENGTH :: nat where "STREAM_GRANT_ENCODED_LENGTH = 43"
definition MAX_PROTOCOL_LENGTH :: nat where "MAX_PROTOCOL_LENGTH = 128"
definition MAX_ENTROPY_ATTEMPTS :: nat where "MAX_ENTROPY_ATTEMPTS = 4"
definition STREAM_GRANT_REDEMPTION_LIFETIME :: int where "STREAM_GRANT_REDEMPTION_LIFETIME = 15000"
definition MAX_UNUSED_GRANTS_PER_CREDENTIAL :: nat where "MAX_UNUSED_GRANTS_PER_CREDENTIAL = 8"
definition MAX_UNUSED_GRANTS_PER_DAEMON :: nat where "MAX_UNUSED_GRANTS_PER_DAEMON = 1024"
definition MAX_ACTIVE_BROWSER_STREAMS_PER_CREDENTIAL :: nat where "MAX_ACTIVE_BROWSER_STREAMS_PER_CREDENTIAL = 16"
definition MAX_ACTIVE_BROWSER_STREAMS_PER_DAEMON :: nat where "MAX_ACTIVE_BROWSER_STREAMS_PER_DAEMON = 1024"

record broker_limits =
  grant_lifetime :: int
  limit_unused_per_credential :: nat
  limit_unused_total :: nat
  limit_active_per_credential :: nat
  limit_active_total :: nat

definition default_limits :: broker_limits where
  "default_limits = \<lparr>grant_lifetime = STREAM_GRANT_REDEMPTION_LIFETIME,
     limit_unused_per_credential = MAX_UNUSED_GRANTS_PER_CREDENTIAL,
     limit_unused_total = MAX_UNUSED_GRANTS_PER_DAEMON,
     limit_active_per_credential = MAX_ACTIVE_BROWSER_STREAMS_PER_CREDENTIAL,
     limit_active_total = MAX_ACTIVE_BROWSER_STREAMS_PER_DAEMON\<rparr>"

record grant_record =
  g_authorization :: authorized_channel_stream
  g_protocol :: string
  g_expires_at :: int

record broker_state =
  unused :: "(string \<times> grant_record) list"
  unused_by_credential :: "string \<rightharpoonup> nat"
  active_by_credential :: "string \<rightharpoonup> nat"
  active_total :: nat

definition new_broker :: broker_state where
  "new_broker = \<lparr>unused = [], unused_by_credential = Map.empty, active_by_credential = Map.empty, active_total = 0\<rparr>"

datatype broker_error = Capacity | InvalidScope | Rejected | Entropy | Revalidation fleet_error

record issued_stream_grant =
  grant_token :: string
  grant_token_lifetime :: int

section \<open>Counters\<close>

definition increment_count :: "(string \<rightharpoonup> nat) \<Rightarrow> string \<Rightarrow> (string \<rightharpoonup> nat)" where
  "increment_count counts c = counts(c \<mapsto> (case counts c of None \<Rightarrow> 0 | Some n \<Rightarrow> n) + 1)"

definition decrement_count :: "(string \<rightharpoonup> nat) \<Rightarrow> string \<Rightarrow> (string \<rightharpoonup> nat) option" where
  "decrement_count counts c =
     (case counts c of
        None \<Rightarrow> None
      | Some 0 \<Rightarrow> None
      | Some (Suc n) \<Rightarrow> Some (if n = 0 then counts(c := None) else counts(c \<mapsto> n)))"

section \<open>Grants\<close>

definition grant_credential :: "grant_record \<Rightarrow> string" where
  "grant_credential r = stream_credential_id (g_authorization r)"

text \<open>Removing a grant from the table and from its counter, as \<open>redeem\<close> and \<open>prune_expired\<close> do.\<close>

definition remove_grant :: "string \<Rightarrow> broker_state \<Rightarrow> (grant_record option \<times> broker_state) option" where
  "remove_grant digest b =
     (case map_of (unused b) digest of
        None \<Rightarrow> Some (None, b)
      | Some r \<Rightarrow>
          (case decrement_count (unused_by_credential b) (grant_credential r) of
             None \<Rightarrow> None
           | Some counts \<Rightarrow>
               Some (Some r, b\<lparr>unused := filter (\<lambda>(k, _). k \<noteq> digest) (unused b), unused_by_credential := counts\<rparr>)))"

fun remove_grants :: "string list \<Rightarrow> broker_state \<Rightarrow> broker_state option" where
  "remove_grants [] b = Some b"
| "remove_grants (d # ds) b = (case remove_grant d b of None \<Rightarrow> None | Some (r, b') \<Rightarrow> remove_grants ds b')"

definition prune_expired :: "int \<Rightarrow> broker_state \<Rightarrow> broker_state option" where
  "prune_expired now b =
     remove_grants (map fst (filter (\<lambda>(d, r). now \<ge> g_expires_at r) (unused b))) b"

fun draw_unique_grant ::
  "(string \<Rightarrow> string) \<Rightarrow> (string \<Rightarrow> string) \<Rightarrow> (nat \<Rightarrow> entropy) \<Rightarrow> (string \<times> grant_record) list \<Rightarrow> nat \<Rightarrow> nat
    \<Rightarrow> broker_error + string \<times> string" where
  "draw_unique_grant base64 sha256 draw existing i 0 = Inl Entropy"
| "draw_unique_grant base64 sha256 draw existing i (Suc n) =
     (case draw i of
        Inl e \<Rightarrow> Inl Entropy
      | Inr bytes \<Rightarrow>
          let grant = STREAM_GRANT_PREFIX @ base64 bytes; digest = sha256 grant in
          if map_of existing digest = None then Inr (grant, digest)
          else draw_unique_grant base64 sha256 draw existing (i + 1) n)"

definition generate_unique_grant ::
  "(string \<Rightarrow> string) \<Rightarrow> (string \<Rightarrow> string) \<Rightarrow> (nat \<Rightarrow> entropy) \<Rightarrow> (string \<times> grant_record) list
    \<Rightarrow> broker_error + string \<times> string" where
  "generate_unique_grant base64 sha256 draw existing =
     draw_unique_grant base64 sha256 draw existing 0 MAX_ENTROPY_ATTEMPTS"

definition issue ::
  "broker_limits \<Rightarrow> (string \<Rightarrow> string) \<Rightarrow> (string \<Rightarrow> string) \<Rightarrow> (nat \<Rightarrow> entropy) \<Rightarrow> int \<Rightarrow> authorized_channel_stream \<Rightarrow> string
    \<Rightarrow> broker_state \<Rightarrow> ((broker_error + issued_stream_grant) \<times> broker_state) option" where
  "issue limits base64 sha256 draw now a protocol b =
     (if stream_after a < 0 \<or> protocol = [] \<or> length protocol > MAX_PROTOCOL_LENGTH then Some (Inl InvalidScope, b)
      else
        (case prune_expired now b of
           None \<Rightarrow> None
         | Some b \<Rightarrow>
             if length (unused b) \<ge> limit_unused_total limits
               \<or> (case unused_by_credential b (stream_credential_id a) of None \<Rightarrow> 0 | Some n \<Rightarrow> n)
                  \<ge> limit_unused_per_credential limits
             then Some (Inl Capacity, b)
             else
               (case generate_unique_grant base64 sha256 draw (unused b) of
                  Inl e \<Rightarrow> Some (Inl e, b)
                | Inr (grant, digest) \<Rightarrow>
                    Some (Inr \<lparr>grant_token = grant, grant_token_lifetime = grant_lifetime limits\<rparr>,
                      b\<lparr>unused := (digest, \<lparr>g_authorization = a, g_protocol = protocol,
                           g_expires_at = now + grant_lifetime limits\<rparr>) # unused b,
                        unused_by_credential := increment_count (unused_by_credential b) (stream_credential_id a)\<rparr>))))"

section \<open>Redemption\<close>

definition grant_digest ::
  "(string \<Rightarrow> string) \<Rightarrow> (string \<Rightarrow> string option) \<Rightarrow> string \<Rightarrow> string option" where
  "grant_digest sha256 unbase64 grant =
     (if \<not> starts_with grant STREAM_GRANT_PREFIX then None
      else
        let encoded = drop (length STREAM_GRANT_PREFIX) grant in
        if length encoded \<noteq> STREAM_GRANT_ENCODED_LENGTH then None
        else
          (case unbase64 encoded of
             None \<Rightarrow> None
           | Some entropy \<Rightarrow> if length entropy \<noteq> STREAM_GRANT_ENTROPY_BYTES then None else Some (sha256 grant)))"

definition has_global_active_capacity :: "broker_limits \<Rightarrow> broker_state \<Rightarrow> bool" where
  "has_global_active_capacity limits b = (active_total b < limit_active_total limits)"

definition reserve_active :: "broker_limits \<Rightarrow> string \<Rightarrow> broker_state \<Rightarrow> (broker_error + string) \<times> broker_state" where
  "reserve_active limits c b =
     (if active_total b \<ge> limit_active_total limits
        \<or> (case active_by_credential b c of None \<Rightarrow> 0 | Some n \<Rightarrow> n) \<ge> limit_active_per_credential limits
      then (Inl Rejected, b)
      else (Inr c, b\<lparr>active_total := active_total b + 1, active_by_credential := increment_count (active_by_credential b) c\<rparr>))"

text \<open>The drop of an \<open>ActiveStreamSlot\<close>.\<close>

definition drop_slot :: "string \<Rightarrow> broker_state \<Rightarrow> broker_state option" where
  "drop_slot c b =
     (case decrement_count (active_by_credential b) c of
        None \<Rightarrow> None
      | Some counts \<Rightarrow>
          if active_total b = 0 then None
          else Some (b\<lparr>active_by_credential := counts, active_total := active_total b - 1\<rparr>))"

text \<open>
  What follows the consumption of a grant: its expiry and protocol, the credential in the database it
  reads, and the slot.  The value is the authority with the credential the slot is held for.
\<close>

definition finish_redemption ::
  "broker_limits \<Rightarrow> int \<Rightarrow> control_db result \<Rightarrow> string \<Rightarrow> grant_record \<Rightarrow> broker_state
    \<Rightarrow> (broker_error + authorized_channel_stream \<times> string) \<times> broker_state" where
  "finish_redemption limits now seen protocol r b =
     (if now \<ge> g_expires_at r \<or> g_protocol r \<noteq> protocol then (Inl Rejected, b)
      else
        (case and_then seen (revalidate_principal (issuing_principal (g_authorization r))) of
           Inl e \<Rightarrow> (Inl (Revalidation e), b)
         | Inr False \<Rightarrow> (Inl Rejected, b)
         | Inr True \<Rightarrow>
             (case reserve_active limits (grant_credential r) b of
                (Inl e, b') \<Rightarrow> (Inl e, b')
              | (Inr slot, b') \<Rightarrow> (Inr (g_authorization r, slot), b'))))"

text \<open>\<open>meanwhile\<close> is what other tasks do to the broker between the two locks.\<close>

definition redeem ::
  "broker_limits \<Rightarrow> (string \<Rightarrow> string) \<Rightarrow> (string \<Rightarrow> string option) \<Rightarrow> int \<Rightarrow> control_db result \<Rightarrow> (broker_state \<Rightarrow> broker_state)
    \<Rightarrow> string \<Rightarrow> string \<Rightarrow> broker_state \<Rightarrow> ((broker_error + authorized_channel_stream \<times> string) \<times> broker_state) option" where
  "redeem limits sha256 unbase64 now seen meanwhile grant protocol b =
     (case grant_digest sha256 unbase64 grant of
        None \<Rightarrow> Some (Inl Rejected, b)
      | Some digest \<Rightarrow>
          (case remove_grant digest b of
             None \<Rightarrow> None
           | Some (None, b') \<Rightarrow> Some (Inl Rejected, b')
           | Some (Some r, b') \<Rightarrow> Some (finish_redemption limits now seen protocol r (meanwhile b'))))"

section \<open>The broker among its tasks\<close>

text \<open>The broker, the grants that were consumed and not yet settled, and the slots that streams hold.\<close>

record broker_system =
  broker :: broker_state
  redeeming :: "(string \<times> grant_record) list"
  slots :: "string list"

datatype broker_event = Issued string | Consumed string | Opened string | Other

inductive broker_step ::
  "broker_limits \<Rightarrow> (string \<Rightarrow> string) \<Rightarrow> broker_system \<Rightarrow> broker_event \<Rightarrow> broker_system \<Rightarrow> bool"
  for limits sha256 where
  issued: "issue limits base64 sha256 draw now a protocol (broker y) = Some (Inr g, b) \<Longrightarrow>
    broker_step limits sha256 y (Issued (sha256 (grant_token g))) (y\<lparr>broker := b\<rparr>)"
| refused: "issue limits base64 sha256 draw now a protocol (broker y) = Some (Inl e, b) \<Longrightarrow>
    broker_step limits sha256 y Other (y\<lparr>broker := b\<rparr>)"
| consumed: "grant_digest sha256 unbase64 grant = Some digest \<Longrightarrow> remove_grant digest (broker y) = Some (Some r, b) \<Longrightarrow>
    broker_step limits sha256 y (Consumed digest) (y\<lparr>broker := b, redeeming := redeeming y @ [(digest, r)]\<rparr>)"
| opened: "(digest, r) \<in> set (redeeming y) \<Longrightarrow>
    finish_redemption limits now seen protocol r (broker y) = (Inr (a, slot), b) \<Longrightarrow>
    broker_step limits sha256 y (Opened digest)
      (y\<lparr>broker := b, redeeming := remove1 (digest, r) (redeeming y), slots := slot # slots y\<rparr>)"
| rejected: "(digest, r) \<in> set (redeeming y) \<Longrightarrow>
    finish_redemption limits now seen protocol r (broker y) = (Inl e, b) \<Longrightarrow>
    broker_step limits sha256 y Other (y\<lparr>broker := b, redeeming := remove1 (digest, r) (redeeming y)\<rparr>)"
| closed: "slot \<in> set (slots y) \<Longrightarrow> drop_slot slot (broker y) = Some b \<Longrightarrow>
    broker_step limits sha256 y Other (y\<lparr>broker := b, slots := remove1 slot (slots y)\<rparr>)"

definition new_system :: broker_system where
  "new_system = \<lparr>broker = new_broker, redeeming = [], slots = []\<rparr>"

inductive broker_run ::
  "broker_limits \<Rightarrow> (string \<Rightarrow> string) \<Rightarrow> broker_event list \<Rightarrow> broker_system \<Rightarrow> bool"
  for limits sha256 where
  start: "broker_run limits sha256 [] new_system"
| step: "broker_run limits sha256 es y \<Longrightarrow> broker_step limits sha256 y e y' \<Longrightarrow> broker_run limits sha256 (es @ [e]) y'"

section \<open>The counters count\<close>

text \<open>The counters are the multiset of the credentials they stand for.\<close>

definition tally :: "string multiset \<Rightarrow> (string \<rightharpoonup> nat)" where
  "tally M c = (if count M c = 0 then None else Some (count M c))"

lemma tally_empty [simp]: "tally {#} = Map.empty"
  by (simp add: tally_def fun_eq_iff)

lemma increment_tally [simp]: "increment_count (tally M) c = tally (add_mset c M)"
  by (auto simp: increment_count_def tally_def fun_eq_iff count_eq_zero_iff)

lemma decrement_tally: "c \<in># M \<Longrightarrow> decrement_count (tally M) c = Some (tally (M - {#c#}))"
  by (auto simp: decrement_count_def tally_def fun_eq_iff count_eq_zero_iff split: nat.splits)

lemma tally_default: "(case tally M c of None \<Rightarrow> 0 | Some n \<Rightarrow> n) = count M c"
  by (simp add: tally_def)

definition held :: "(string \<times> grant_record) list \<Rightarrow> string multiset" where
  "held gs = image_mset (grant_credential \<circ> snd) (mset gs)"

definition broker_inv :: "broker_limits \<Rightarrow> broker_system \<Rightarrow> bool" where
  "broker_inv limits y \<longleftrightarrow> (let b = broker y in
     distinct (map fst (unused b))
     \<and> unused_by_credential b = tally (held (unused b))
     \<and> active_by_credential b = tally (mset (slots y)) \<and> active_total b = length (slots y)
     \<and> length (unused b) \<le> limit_unused_total limits
     \<and> (\<forall>c. count (held (unused b)) c \<le> limit_unused_per_credential limits)
     \<and> length (slots y) \<le> limit_active_total limits
     \<and> (\<forall>c. count_list (slots y) c \<le> limit_active_per_credential limits))"

lemma without_key:
  assumes "distinct (map fst gs)" and "map_of gs d = Some r"
  shows "mset gs = add_mset (d, r) (mset (filter (\<lambda>(k, _). k \<noteq> d) gs))"
  using assms
proof (induction gs)
  case (Cons g gs)
  have "filter (\<lambda>(k, _). k \<noteq> d) gs = gs" if "d \<notin> fst ` set gs"
    using that by (intro filter_True) force
  with Cons show ?case by (cases g) (auto split: if_splits simp del: mset_filter)
qed simp

text \<open>Removing a grant never panics, keeps the counters true and takes nothing else away.\<close>

definition unused_ok :: "broker_state \<Rightarrow> bool" where
  "unused_ok b \<longleftrightarrow> distinct (map fst (unused b)) \<and> unused_by_credential b = tally (held (unused b))"

definition shrinks :: "broker_state \<Rightarrow> broker_state \<Rightarrow> bool" where
  "shrinks b b' \<longleftrightarrow> mset (unused b') \<subseteq># mset (unused b)
     \<and> active_by_credential b' = active_by_credential b \<and> active_total b' = active_total b"

lemma shrinks_refl [simp]: "shrinks b b"
  by (simp add: shrinks_def)

lemma shrinks_trans: "shrinks b b' \<Longrightarrow> shrinks b' b'' \<Longrightarrow> shrinks b b''"
  by (auto simp: shrinks_def intro: subset_mset.order_trans)

lemma shrinks_set: "shrinks b b' \<Longrightarrow> set (unused b') \<subseteq> set (unused b)"
  unfolding shrinks_def by (metis set_mset_mono set_mset_mset)

lemma remove_grant_ok:
  assumes "unused_ok b"
  shows "\<exists>b'. remove_grant d b = Some (map_of (unused b) d, b') \<and> unused_ok b' \<and> shrinks b b'
    \<and> unused b' = filter (\<lambda>(k, _). k \<noteq> d) (unused b)"
proof (cases "map_of (unused b) d")
  case None
  then have "d \<notin> fst ` set (unused b)" by (simp add: map_of_eq_None_iff)
  then have "filter (\<lambda>(k, _). k \<noteq> d) (unused b) = unused b" by (intro filter_True) force
  then show ?thesis using assms None by (simp add: remove_grant_def)
next
  case (Some r)
  let ?gs = "filter (\<lambda>(k, _). k \<noteq> d) (unused b)"
  note split = without_key [OF _ Some]
  have "held (unused b) = add_mset (grant_credential r) (held ?gs)"
    using split assms by (simp add: held_def unused_ok_def del: mset_filter)
  then have "decrement_count (unused_by_credential b) (grant_credential r) = Some (tally (held ?gs))"
    using assms by (simp add: unused_ok_def decrement_tally)
  moreover have "distinct (map fst ?gs)" using assms by (simp add: unused_ok_def distinct_map_filter)
  ultimately show ?thesis
    using Some assms by (simp add: remove_grant_def unused_ok_def shrinks_def multiset_filter_subset)
qed

lemma remove_grants_ok:
  "unused_ok b \<Longrightarrow> \<exists>b'. remove_grants ds b = Some b' \<and> unused_ok b' \<and> shrinks b b'
    \<and> unused b' = filter (\<lambda>(k, _). k \<notin> set ds) (unused b)"
proof (induction ds arbitrary: b)
  case (Cons d ds)
  obtain b1 where b1: "remove_grant d b = Some (map_of (unused b) d, b1)" "unused_ok b1" "shrinks b b1"
    "unused b1 = filter (\<lambda>(k, _). k \<noteq> d) (unused b)"
    using remove_grant_ok [OF Cons.prems] by blast
  obtain b2 where "remove_grants ds b1 = Some b2" "unused_ok b2" "shrinks b1 b2"
    "unused b2 = filter (\<lambda>(k, _). k \<notin> set ds) (unused b1)"
    using Cons.IH [OF b1(2)] by blast
  moreover from this b1 have "unused b2 = filter (\<lambda>(k, _). k \<notin> set (d # ds)) (unused b)"
    by (simp add: case_prod_unfold)
  ultimately show ?case using b1(1) shrinks_trans [OF b1(3)] by simp
qed simp

lemma prune_expired_ok:
  assumes "unused_ok b"
  shows "\<exists>b'. prune_expired now b = Some b' \<and> unused_ok b' \<and> shrinks b b'
    \<and> unused b' = filter (\<lambda>(d, r). now < g_expires_at r) (unused b)"
proof -
  let ?ds = "map fst (filter (\<lambda>(d, r). now \<ge> g_expires_at r) (unused b))"
  have d: "distinct (map fst (unused b))" using assms by (simp add: unused_ok_def)
  have "(k \<notin> set ?ds) = (now < g_expires_at r)" if kr: "(k, r) \<in> set (unused b)" for k r
  proof -
    have "k \<in> set ?ds \<longleftrightarrow> (\<exists>r'. (k, r') \<in> set (unused b) \<and> now \<ge> g_expires_at r')" by force
    also have "\<dots> \<longleftrightarrow> now \<ge> g_expires_at r" using eq_key_imp_eq_value [OF d _ kr] kr by blast
    finally show ?thesis by (simp only: not_le)
  qed
  then have "filter (\<lambda>(k, _). k \<notin> set ?ds) (unused b) = filter (\<lambda>(d, r). now < g_expires_at r) (unused b)"
    by (intro filter_cong) auto
  with remove_grants_ok [OF assms, of ?ds] show ?thesis unfolding prune_expired_def by metis
qed

section \<open>Every step keeps the counters\<close>

lemma broker_inv_unused: "broker_inv limits y \<Longrightarrow> unused_ok (broker y)"
  by (simp add: broker_inv_def unused_ok_def Let_def)

lemma held_mono: "mset gs \<subseteq># mset hs \<Longrightarrow> count (held gs) c \<le> count (held hs) c"
  unfolding held_def by (meson image_mset_subseteq_mono mset_subset_eq_count)

lemma broker_inv_shrinks:
  assumes "broker_inv limits y" and "unused_ok b" and "shrinks (broker y) b"
  shows "broker_inv limits (y\<lparr>broker := b\<rparr>)"
proof -
  have "length (unused b) \<le> length (unused (broker y))" using assms(3) size_mset_mono by (fastforce simp: shrinks_def)
  moreover have "count (held (unused b)) c \<le> count (held (unused (broker y))) c" for c
    using assms(3) held_mono by (simp add: shrinks_def)
  ultimately show ?thesis
    using assms unfolding broker_inv_def unused_ok_def shrinks_def Let_def by (auto intro: order_trans)
qed

lemma draw_unique_grant_fresh:
  "draw_unique_grant base64 sha256 draw gs i n = Inr (g, d) \<Longrightarrow> d = sha256 g \<and> map_of gs d = None"
  by (induction n arbitrary: i) (auto simp: Let_def split: sum.splits if_splits)

definition new_grant where
  "new_grant limits now a protocol =
     \<lparr>g_authorization = a, g_protocol = protocol, g_expires_at = now + grant_lifetime limits\<rparr>"

text \<open>Issuing never panics; it prunes what expired and adds at most the one grant it returns.\<close>

lemma issue_ok:
  assumes inv: "broker_inv limits y"
  shows "\<exists>r b. issue limits base64 sha256 draw now a protocol (broker y) = Some (r, b)
    \<and> broker_inv limits (y\<lparr>broker := b\<rparr>)
    \<and> (case r of Inl e \<Rightarrow> shrinks (broker y) b
       | Inr g \<Rightarrow> unused b = (sha256 (grant_token g), new_grant limits now a protocol) #
             filter (\<lambda>(d, r). now < g_expires_at r) (unused (broker y))
           \<and> sha256 (grant_token g) \<notin> fst ` set (filter (\<lambda>(d, r). now < g_expires_at r) (unused (broker y))))"
proof -
  obtain b where b: "prune_expired now (broker y) = Some b" "unused_ok b" "shrinks (broker y) b"
    "unused b = filter (\<lambda>(d, r). now < g_expires_at r) (unused (broker y))"
    using prune_expired_ok [OF broker_inv_unused [OF inv]] by blast
  note pruned = broker_inv_shrinks [OF inv b(2,3)]
  let ?scope = "stream_after a < 0 \<or> protocol = [] \<or> length protocol > MAX_PROTOCOL_LENGTH"
  let ?full = "length (unused b) \<ge> limit_unused_total limits
    \<or> count (held (unused b)) (stream_credential_id a) \<ge> limit_unused_per_credential limits"
  have full: "(case unused_by_credential b c of None \<Rightarrow> 0 | Some n \<Rightarrow> n) = count (held (unused b)) c" for c
    using b(2) by (simp add: unused_ok_def tally_default)
  show ?thesis
  proof (cases "?scope \<or> ?full \<or> (\<exists>e. generate_unique_grant base64 sha256 draw (unused b) = Inl e)")
    case True
    then show ?thesis using b pruned inv by (cases ?scope; cases ?full) (auto simp: issue_def full)
  next
    case False
    then obtain g d where gen: "generate_unique_grant base64 sha256 draw (unused b) = Inr (g, d)"
      by (metis sum.exhaust prod.exhaust)
    then have d: "d = sha256 g" "d \<notin> fst ` set (unused b)"
      using draw_unique_grant_fresh by (auto simp: generate_unique_grant_def map_of_eq_None_iff)
    let ?b = "b\<lparr>unused := (d, new_grant limits now a protocol) # unused b,
      unused_by_credential := increment_count (unused_by_credential b) (stream_credential_id a)\<rparr>"
    have "held (unused ?b) = add_mset (stream_credential_id a) (held (unused b))"
      by (simp add: held_def grant_credential_def new_grant_def)
    then have "broker_inv limits (y\<lparr>broker := ?b\<rparr>)"
      using pruned False d by (auto simp: broker_inv_def Let_def)
    then show ?thesis using False b gen d by (auto simp: issue_def full new_grant_def)
  qed
qed

lemma drop_slot_ok:
  assumes inv: "broker_inv limits y" and slot: "slot \<in> set (slots y)"
  shows "\<exists>b. drop_slot slot (broker y) = Some b \<and> broker_inv limits (y\<lparr>broker := b, slots := remove1 slot (slots y)\<rparr>)
    \<and> unused b = unused (broker y)"
proof -
  let ?b = "(broker y)\<lparr>active_by_credential := tally (mset (slots y) - {#slot#}), active_total := active_total (broker y) - 1\<rparr>"
  have "decrement_count (active_by_credential (broker y)) slot = Some (tally (mset (slots y) - {#slot#}))"
    using inv slot by (simp add: broker_inv_def Let_def decrement_tally)
  moreover have "slots y \<noteq> []" "active_total (broker y) = length (slots y)"
    using inv slot by (auto simp: broker_inv_def Let_def)
  ultimately have "drop_slot slot (broker y) = Some ?b" by (simp add: drop_slot_def)
  moreover have "count_list (remove1 slot (slots y)) c \<le> count_list (slots y) c" for c
    by (simp flip: count_mset)
  then have "broker_inv limits (y\<lparr>broker := ?b, slots := remove1 slot (slots y)\<rparr>)"
    using inv slot by (auto simp: broker_inv_def Let_def length_remove1 intro: order_trans [OF diff_le_self])
  ultimately show ?thesis by simp
qed

lemma finish_redemption_cases:
  assumes "finish_redemption limits now seen protocol r b = (x, b')"
  obtains (rejected) e where "x = Inl e" "b' = b"
  | (opened) s where "x = Inr (g_authorization r, grant_credential r)" "now < g_expires_at r" "g_protocol r = protocol"
      "seen = Inr s" "revalidate_principal (issuing_principal (g_authorization r)) s = Inr True"
      "reserve_active limits (grant_credential r) b = (Inr (grant_credential r), b')"
  using assms
  by (auto simp: finish_redemption_def reserve_active_def and_then_def split: if_splits sum.splits bool.splits)

lemma reserve_active_ok:
  assumes inv: "broker_inv limits y" and res: "reserve_active limits c (broker y) = (Inr slot, b)"
  shows "broker_inv limits (y\<lparr>broker := b, redeeming := rs, slots := slot # slots y\<rparr>) \<and> unused b = unused (broker y)"
proof -
  have "slot = c" "b = (broker y)\<lparr>active_total := active_total (broker y) + 1,
      active_by_credential := increment_count (active_by_credential (broker y)) c\<rparr>"
    "active_total (broker y) < limit_active_total limits"
    "(case active_by_credential (broker y) c of None \<Rightarrow> 0 | Some n \<Rightarrow> n) < limit_active_per_credential limits"
    using res by (auto simp: reserve_active_def split: if_splits)
  then show ?thesis using inv by (auto simp: broker_inv_def Let_def tally_default count_mset)
qed

lemma broker_inv_redeeming [simp]: "broker_inv limits (y\<lparr>broker := b, redeeming := rs\<rparr>) = broker_inv limits (y\<lparr>broker := b\<rparr>)"
  by (simp add: broker_inv_def)

lemma broker_step_inv:
  assumes "broker_step limits sha256 y e y'" and inv: "broker_inv limits y"
  shows "broker_inv limits y'"
  using assms(1)
proof cases
  case (issued base64 draw now a protocol g b)
  then show ?thesis using issue_ok [OF inv, of base64 sha256 draw now a protocol] by auto
next
  case (refused base64 draw now a protocol err b)
  then show ?thesis using issue_ok [OF inv, of base64 sha256 draw now a protocol] by auto
next
  case (consumed unbase64 grant digest r b)
  then show ?thesis
    using remove_grant_ok [OF broker_inv_unused [OF inv], of digest] broker_inv_shrinks [OF inv] by auto
next
  case (opened digest r now seen protocol a slot b)
  from opened(4) show ?thesis
    by (cases rule: finish_redemption_cases) (use opened reserve_active_ok [OF inv] in auto)
next
  case (rejected digest r now seen protocol err b)
  from rejected(4) show ?thesis
    by (cases rule: finish_redemption_cases) (use rejected inv in \<open>auto simp: broker_inv_def\<close>)
next
  case (closed slot b)
  then show ?thesis using drop_slot_ok [OF inv closed(3)] by auto
qed

lemma broker_run_inv: "broker_run limits sha256 es y \<Longrightarrow> broker_inv limits y"
proof (induction rule: broker_run.induct)
  case start
  then show ?case by (simp add: broker_inv_def new_system_def new_broker_def held_def)
next
  case (step es y e y')
  then show ?case using broker_step_inv by blast
qed

lemma count_held: "count (held gs) c = length (filter (\<lambda>(d, r). grant_credential r = c) gs)"
  by (induction gs) (auto simp: held_def)

text \<open>
  C35: the broker stays within its limits and never panics.  However issuing, redeeming and closing
  interleave, unused grants and open streams respect the limits of the process and of each credential,
  the active counter is the number of streams that hold a slot, and no counter is ever missing: neither
  an issuance, nor the consumption of a grant, nor the close of an open stream can panic.
\<close>

theorem broker_bounded:
  assumes "broker_run limits sha256 es y"
  shows "length (unused (broker y)) \<le> limit_unused_total limits
    \<and> length (filter (\<lambda>(d, r). grant_credential r = c) (unused (broker y))) \<le> limit_unused_per_credential limits
    \<and> active_total (broker y) = length (slots y) \<and> length (slots y) \<le> limit_active_total limits
    \<and> count_list (slots y) c \<le> limit_active_per_credential limits
    \<and> issue limits base64 sha256 draw now a protocol (broker y) \<noteq> None
    \<and> redeem limits sha256 unbase64 now seen meanwhile grant protocol (broker y) \<noteq> None
    \<and> (slot \<in> set (slots y) \<longrightarrow> drop_slot slot (broker y) \<noteq> None)"
proof -
  note inv = broker_run_inv [OF assms]
  have "issue limits base64 sha256 draw now a protocol (broker y) \<noteq> None"
    using issue_ok [OF inv, of base64 sha256 draw now a protocol] by auto
  moreover have "redeem limits sha256 unbase64 now seen meanwhile grant protocol (broker y) \<noteq> None"
  proof (cases "grant_digest sha256 unbase64 grant")
    case (Some d)
    then show ?thesis
      using remove_grant_ok [OF broker_inv_unused [OF inv], of d] by (auto simp: redeem_def split: option.splits)
  qed (simp add: redeem_def)
  moreover have "slot \<in> set (slots y) \<longrightarrow> drop_slot slot (broker y) \<noteq> None" using drop_slot_ok [OF inv] by auto
  ultimately show ?thesis using inv by (simp add: broker_inv_def Let_def count_held)
qed

section \<open>A grant is used once\<close>

definition uses_inv :: "broker_event list \<Rightarrow> broker_system \<Rightarrow> string \<Rightarrow> bool" where
  "uses_inv es y d \<longleftrightarrow>
     count_list es (Consumed d) + (if d \<in> fst ` set (unused (broker y)) then 1 else 0) \<le> count_list es (Issued d)
     \<and> count_list es (Opened d) + count_list (map fst (redeeming y)) d \<le> count_list es (Consumed d)"

lemma count_list_remove1_key:
  "(d, r) \<in> set xs \<Longrightarrow> count_list (map fst (remove1 (d, r) xs)) k = count_list (map fst xs) k - (if k = d then 1 else 0)"
proof (induction xs)
  case (Cons x xs)
  have "count_list (map fst xs) d > 0" if "(d, r) \<in> set xs" using that by (metis count_list_0_iff fst_conv image_eqI list.set_map neq0_conv)
  with Cons show ?case by auto
qed simp

lemma uses_step:
  assumes "broker_step limits sha256 y e y'" and inv: "broker_inv limits y" and "uses_inv es y d"
  shows "uses_inv (es @ [e]) y' d"
  using assms(1)
proof cases
  case (issued base64 draw now a protocol g b)
  then show ?thesis using issue_ok [OF inv, of base64 sha256 draw now a protocol] assms(3)
    by (auto simp: uses_inv_def split: if_splits)
next
  case (refused base64 draw now a protocol err b)
  then have "set (unused b) \<subseteq> set (unused (broker y))"
    using issue_ok [OF inv, of base64 sha256 draw now a protocol] shrinks_set by auto
  then show ?thesis using refused assms(3) by (auto simp: uses_inv_def split: if_splits)
next
  case (consumed unbase64 grant digest r b)
  then have "map_of (unused (broker y)) digest = Some r" "unused b = filter (\<lambda>(k, _). k \<noteq> digest) (unused (broker y))"
    using remove_grant_ok [OF broker_inv_unused [OF inv], of digest] by auto
  then have "digest \<in> fst ` set (unused (broker y))" "fst ` set (unused b) = fst ` set (unused (broker y)) - {digest}"
    by (auto dest!: map_of_SomeD intro: image_eqI [of _ fst "(digest, r)"])
  moreover define K where "K = fst ` set (unused (broker y))"
  ultimately have "digest \<in> K" "fst ` set (unused b) = K - {digest}" by simp_all
  then show ?thesis using consumed assms(3) unfolding uses_inv_def K_def [symmetric] by (auto split: if_splits)
next
  case (opened digest r now seen protocol a slot b)
  from opened(4) have "unused b = unused (broker y)"
    by (cases rule: finish_redemption_cases) (use reserve_active_ok [OF inv] in auto)
  moreover have "count_list (map fst (redeeming y)) digest > 0"
    using opened(3) by (metis count_list_0_iff fst_conv image_eqI list.set_map neq0_conv)
  ultimately show ?thesis using opened assms(3) by (auto simp: uses_inv_def count_list_remove1_key split: if_splits)
next
  case (rejected digest r now seen protocol err b)
  from rejected(4) have "b = broker y" by (cases rule: finish_redemption_cases) (use rejected in auto)
  then show ?thesis using rejected assms(3) by (auto simp: uses_inv_def count_list_remove1_key split: if_splits)
next
  case (closed slot b)
  then show ?thesis using drop_slot_ok [OF inv closed(3)] assms(3) by (auto simp: uses_inv_def)
qed

lemma uses_run: "broker_run limits sha256 es y \<Longrightarrow> uses_inv es y d"
proof (induction rule: broker_run.induct)
  case start
  then show ?case by (simp add: uses_inv_def new_system_def new_broker_def)
next
  case (step es y e y')
  then show ?case using uses_step broker_run_inv by blast
qed

text \<open>
  C36: a grant opens at most one stream.  Over every interleaving of tasks, the redemptions that opened a
  stream on a grant are at most the issuances of that very grant, and so are those that consumed it,
  the failed ones included.
\<close>

theorem grant_used_once:
  assumes "broker_run limits sha256 es y"
  shows "count_list es (Opened (sha256 grant)) \<le> count_list es (Consumed (sha256 grant))
    \<and> count_list es (Consumed (sha256 grant)) \<le> count_list es (Issued (sha256 grant))"
  using uses_run [OF assms, of "sha256 grant"] by (auto simp: uses_inv_def split: if_splits)

section \<open>What a redemption shows\<close>

lemma grant_digest_is: "grant_digest sha256 unbase64 grant = Some d \<Longrightarrow> d = sha256 grant"
  by (auto simp: grant_digest_def Let_def split: if_splits option.splits)

text \<open>
  A redemption gives exactly what was issued.  A stream that opens has the authority recorded for
  this very grant, before its expiry, under the protocol it was issued for and while the issuing
  credential is valid in the database; it takes a free slot, and the grant is gone whether or not the
  stream opened: presenting it to that table again is rejected.
\<close>

theorem redemption_exact:
  assumes "broker_run limits sha256 es y"
    and "redeem limits sha256 unbase64 now seen id grant protocol (broker y) = Some (x, b)"
  shows "(case x of
      Inl e \<Rightarrow> active_total b = active_total (broker y)
    | Inr (a, slot) \<Rightarrow> (\<exists>r s k. map_of (unused (broker y)) (sha256 grant) = Some r \<and> a = g_authorization r
        \<and> now < g_expires_at r \<and> protocol = g_protocol r
        \<and> seen = Inr s \<and> k \<in> set (auth_credentials s) \<and> k_id k = slot \<and> k_revoked_at_ms k = None
        \<and> principal_from_row (k_id k) k = Inr (issuing_principal a)
        \<and> slot = stream_credential_id a \<and> active_total b = active_total (broker y) + 1))
    \<and> sha256 grant \<notin> fst ` set (unused b) \<or> x = Inl Rejected \<and> b = broker y"
proof (cases "grant_digest sha256 unbase64 grant")
  case None
  then show ?thesis using assms(2) by (simp add: redeem_def)
next
  case (Some d)
  note d = grant_digest_is [OF Some]
  obtain b1 where b1: "remove_grant d (broker y) = Some (map_of (unused (broker y)) d, b1)" "shrinks (broker y) b1"
    "unused b1 = filter (\<lambda>(k, _). k \<noteq> d) (unused (broker y))"
    using remove_grant_ok [OF broker_inv_unused [OF broker_run_inv [OF assms(1)]]] by blast
  have gone: "d \<notin> fst ` set (unused b1)" using b1(3) by auto
  show ?thesis
  proof (cases "map_of (unused (broker y)) d")
    case None
    then have "b1 = broker y" using b1(1) by (simp add: remove_grant_def)
    then show ?thesis using assms(2) Some b1 None by (simp add: redeem_def)
  next
    case r: (Some r)
    then have "finish_redemption limits now seen protocol r b1 = (x, b)" using assms(2) Some b1 by (simp add: redeem_def)
    then show ?thesis
    proof (cases rule: finish_redemption_cases)
      case (rejected e)
      then show ?thesis using gone b1(2) d by (simp add: shrinks_def)
    next
      case (opened s)
      have "unused b = unused b1" "active_total b = active_total b1 + 1"
        using opened(6) by (auto simp: reserve_active_def split: if_splits)
      moreover obtain k where "k \<in> set (auth_credentials s)" "k_id k = grant_credential r" "k_revoked_at_ms k = None"
        "principal_from_row (k_id k) k = Inr (issuing_principal (g_authorization r))"
        using revalidated [OF opened(5)] by (metis issuing_credential grant_credential_def)
      ultimately show ?thesis
        using opened gone b1(2) d r by (auto simp: shrinks_def grant_credential_def)
    qed
  qed
qed

text \<open>
  A revoked credential redeems nothing.  Once a credential was revoked, no grant issued under it
  opens a stream in any later state of the control database, whatever its expiry.
\<close>

theorem revoked_credential_redeems_nothing:
  assumes "control_reachable sha256 s" and "k \<in> set (auth_credentials s)" and "k_revoked_at_ms k \<noteq> None"
    and "(control_step sha256)\<^sup>*\<^sup>* s s'" and "k_id k = stream_credential_id (g_authorization r)"
  shows "\<exists>e. finish_redemption limits now (Inr s') protocol r b = (Inl e, b)"
proof -
  note run = control_run [OF assms(1,4)]
  obtain k' where k': "k' \<in> set (auth_credentials s')" "credential_kept k k'"
    using run(2) assms(2) unfolding control_history_def rows_kept_def by blast
  then have dead: "k_id k' = k_id k" "k_revoked_at_ms k' \<noteq> None" using assms(3) by (auto simp: credential_kept_def)
  have unique: "unique_on k_id (auth_credentials s')" using run(1) by (simp add: control_inv_def credentials_inv_def)
  obtain x b' where f: "finish_redemption limits now (Inr s') protocol r b = (x, b')" by (rule prod.exhaust)
  then show ?thesis
  proof (cases rule: finish_redemption_cases)
    case (opened su)
    obtain q where "q \<in> set (auth_credentials s')" "k_id q = k_id k'" "k_revoked_at_ms q = None"
      using revalidated [OF opened(5)] opened(4) assms(5) dead(1) by auto
    then show ?thesis using unique_onD [OF unique _ k'(1)] dead(2) by metis
  qed (use f in simp)
qed

end
