(* ===== verification/Conversation.thy ===== *)
theory Conversation
  imports Messages
begin

text \<open>
  How a channel is presented as a conversation (\<open>crates/conversation/src/lib.rs\<close>): summaries with their
  members and latest message, and what a participant has not read.  The reads hold no transaction: a
  summary reads the channel from one database (\<open>d\<close>) and the members from a later one (\<open>d'\<close>).
\<close>

record conversation_summary =
  summary_id :: string
  summary_name :: string
  summary_kind :: conversation_kind
  summary_metadata :: json
  summary_created_at_ms :: i64
  summary_archived_at_ms :: "i64 option"
  summary_members :: "channel_member list"
  summary_latest_message_seq :: "i64 option"
  summary_latest_message_at_ms :: "i64 option"

record conversation_attention =
  attention_channel_id :: string
  attention_read_through_seq :: i64
  attention_latest_message_seq :: "i64 option"
  attention_unread_count :: i64
  attention_addressed_unread_count :: i64
  attention_first_unread_seq :: "i64 option"
  attention_first_addressed_unread_seq :: "i64 option"

text \<open>The two correlated lookups: \<open>ORDER BY m.seq DESC LIMIT 1\<close>.\<close>

definition latest_message :: "string \<Rightarrow> db \<Rightarrow> message_row option" where
  "latest_message cid d =
     (case sort_key (\<lambda>m. - m_seq m) (filter (\<lambda>m. m_channel_id m = cid) (messages d)) of
        [] \<Rightarrow> None | m # ms \<Rightarrow> Some m)"

definition summary_select :: "db \<Rightarrow> channels_row \<Rightarrow> channels_row \<times> i64 option \<times> i64 option" where
  "summary_select d c =
     (c, map_option m_seq (latest_message (c_id c) d), map_option m_created_at_ms (latest_message (c_id c) d))"

definition summary_from_row ::
  "channels_row \<times> i64 option \<times> i64 option \<Rightarrow> channel_member list \<Rightarrow> conversation_summary result" where
  "summary_from_row row members =
     (case row of (r, latest_seq, latest_at) \<Rightarrow>
      and_then (channel_from_row r) (\<lambda>c.
      Inr \<lparr>summary_id = channel_id' c, summary_name = channel_name c, summary_kind = channel_kind c,
           summary_metadata = channel_metadata c, summary_created_at_ms = channel_created_at_ms c,
           summary_archived_at_ms = channel_archived_at_ms c, summary_members = members,
           summary_latest_message_seq = latest_seq, summary_latest_message_at_ms = latest_at\<rparr>))"

text \<open>Every membership of the listed channels in one query, grouped by channel in the order of the rows.\<close>

definition member_rows :: "bool \<Rightarrow> db \<Rightarrow> (member_row \<times> agent_row) list" where
  "member_rows include_archived d =
     sort_key (\<lambda>(cm, a). (cm_channel_id cm, cm_joined_at_ms cm, cm_agent_id cm))
       [(cm, a). cm \<leftarrow> channel_members d, a \<leftarrow> agents d, c \<leftarrow> channels d,
          a_id a = cm_agent_id cm \<and> c_id c = cm_channel_id cm \<and> (include_archived \<or> c_archived_at_ms c = None)]"

definition members_by_conversation :: "bool \<Rightarrow> db \<Rightarrow> (string \<Rightarrow> channel_member list) result" where
  "members_by_conversation include_archived d =
     try_fold (\<lambda>row grouped. and_then (channel_member_from_row row) (\<lambda>m.
         Inr (grouped(member_channel_id m := grouped (member_channel_id m) @ [m]))))
       (member_rows include_archived d) (\<lambda>_. [])"

definition listed_channels :: "bool \<Rightarrow> db \<Rightarrow> channels_row list" where
  "listed_channels include_archived d =
     sort_key (\<lambda>c. (c_created_at_ms c, c_id c))
       (filter (\<lambda>c. include_archived \<or> c_archived_at_ms c = None) (channels d))"

text \<open>
  \<open>members.remove\<close> takes the group of a channel out of the table; the rows are distinct channels, so
  reading it is the same.
\<close>

definition conversation_list :: "bool \<Rightarrow> db \<Rightarrow> db \<Rightarrow> conversation_summary list result" where
  "conversation_list include_archived d d' =
     and_then (members_by_conversation include_archived d') (\<lambda>members.
     try_fold (\<lambda>c out. and_then (summary_from_row (summary_select d c) (members (c_id c))) (\<lambda>x. Inr (out @ [x])))
       (listed_channels include_archived d) [])"

definition summary :: "string \<Rightarrow> db \<Rightarrow> db \<Rightarrow> conversation_summary result" where
  "summary channel_id d d' =
     and_then (ok_or (find (\<lambda>c. c_id c = channel_id) (channels d)) (NotFound ''channel'' channel_id)) (\<lambda>row.
     and_then (list_channel_members channel_id d') (\<lambda>members.
     summary_from_row (summary_select d row) members))"

section \<open>Attention\<close>

definition sql_min :: "int list \<Rightarrow> int option" where
  "sql_min xs = (if xs = [] then None else Some (fold min (tl xs) (hd xs)))"

text \<open>
  The columns of one membership.  The primary key makes every group one membership; the left join
  gives a membership without messages one row of nulls, which counts nothing.
\<close>

definition unread :: "member_row \<Rightarrow> message_row \<Rightarrow> bool" where
  "unread cm m \<longleftrightarrow> m_seq m > cm_read_through_seq cm \<and> m_sender_id m \<noteq> cm_agent_id cm"

definition addressed_unread :: "member_row \<Rightarrow> message_row \<Rightarrow> bool" where
  "addressed_unread cm m \<longleftrightarrow> unread cm m \<and> m_recipient_id m = Some (cm_agent_id cm)"

definition attention_select :: "db \<Rightarrow> member_row \<Rightarrow> conversation_attention" where
  "attention_select d cm =
     (let ms = filter (\<lambda>m. m_channel_id m = cm_channel_id cm) (messages d) in
      \<lparr>attention_channel_id = cm_channel_id cm, attention_read_through_seq = cm_read_through_seq cm,
       attention_latest_message_seq = sql_max (map m_seq ms),
       attention_unread_count = sum_list (map (\<lambda>m. if unread cm m then 1 else 0) ms),
       attention_addressed_unread_count = sum_list (map (\<lambda>m. if addressed_unread cm m then 1 else 0) ms),
       attention_first_unread_seq = sql_min (map m_seq (filter (unread cm) ms)),
       attention_first_addressed_unread_seq = sql_min (map m_seq (filter (addressed_unread cm) ms))\<rparr>)"

definition attention :: "string \<Rightarrow> db \<Rightarrow> conversation_attention list" where
  "attention agent_id d =
     map (attention_select d) (sort_key (\<lambda>cm. (cm_joined_at_ms cm, cm_channel_id cm))
       (filter (\<lambda>cm. cm_agent_id cm = agent_id) (channel_members d)))"

definition attention_for :: "string \<Rightarrow> string \<Rightarrow> db \<Rightarrow> conversation_attention result" where
  "attention_for agent_id channel_id d =
     and_then (ok_or (find (\<lambda>cm. cm_agent_id cm = agent_id \<and> cm_channel_id cm = channel_id) (channel_members d))
       (NotMember agent_id channel_id)) (\<lambda>cm.
     Inr (attention_select d cm))"

section \<open>The listing agrees with each summary\<close>

definition member_of :: "member_row \<times> agent_row \<Rightarrow> channel_member" where
  "member_of = (\<lambda>(cm, a). \<lparr>member_channel_id = cm_channel_id cm, member_agent_id = cm_agent_id cm,
     member_agent_name = a_name a, member_joined_at_ms = cm_joined_at_ms cm, member_delivery_mode = cm_delivery_mode cm\<rparr>)"

lemma channel_member_from_row_total [simp]: "channel_member_from_row = (\<lambda>row. Inr (member_of row))"
  by (auto simp: channel_member_from_row_def member_of_def dm.parse_as_str fun_eq_iff)

lemma try_fold_collect: "try_fold (\<lambda>x out. Inr (out @ [g x])) xs out = Inr (out @ map g xs)"
  by (induction xs arbitrary: out) auto

lemma try_fold_group:
  "try_fold (\<lambda>row grouped. Inr (grouped(k (g row) := grouped (k (g row)) @ [g row]))) rows grouped =
     Inr (\<lambda>c. grouped c @ map g (filter (\<lambda>row. k (g row) = c) rows))"
proof (induction rows arbitrary: grouped)
  case (Cons r rs)
  show ?case unfolding try_fold.simps and_then_Inr Cons.IH by (auto simp: fun_eq_iff)
qed simp

lemma sort_key_same_order:
  assumes "\<And>x y. x \<in> set xs \<Longrightarrow> y \<in> set xs \<Longrightarrow> (f x \<le> f y) = (g x \<le> g y)"
  shows "sort_key f xs = sort_key g xs"
  using assms
proof (induction xs)
  case (Cons x xs)
  have ins: "insort_key f x ys = insort_key g x ys" if "set ys \<subseteq> set xs" for ys
    using that Cons.prems by (induction ys) (auto simp: subset_iff)
  have "sort_key f xs = sort_key g xs" using Cons by simp
  then show ?case using ins [of "sort_key g xs"] by simp
qed simp

lemma concat_guarded: "concat (map (\<lambda>x. if P x then [y] else []) xs) = map (\<lambda>_. y) (filter P xs)"
  by (induction xs) auto

text \<open>One row per member of a listed channel, whatever else the join ranges over.\<close>

lemma joined_members:
  fixes ms :: "member_row list" and as :: "agent_row list" and cs :: "channels_row list"
  assumes "unique_on c_id cs" and "c \<in> set cs" and "listed c"
  shows "filter (\<lambda>(cm, a). cm_channel_id cm = c_id c)
      [(cm, a). cm \<leftarrow> ms, a \<leftarrow> as, c \<leftarrow> cs, a_id a = cm_agent_id cm \<and> c_id c = cm_channel_id cm \<and> listed c]
    = [(cm, a). cm \<leftarrow> ms, a \<leftarrow> as, a_id a = cm_agent_id cm \<and> cm_channel_id cm = c_id c]"
proof -
  have one: "filter (\<lambda>x. c_id x = c_id c \<and> listed x) cs = [c]"
    using assms unfolding unique_on_def by (induction cs) (auto simp: filter_empty_conv rev_image_eqI)
  define F where "F cm a = concat (map (\<lambda>x. if a_id a = cm_agent_id cm \<and> c_id x = cm_channel_id cm \<and> listed x
    then [(cm, a)] else []) cs)" for cm :: member_row and a :: agent_row
  have F: "filter (\<lambda>(cm, a). cm_channel_id cm = c_id c) (F cm a)
    = (if a_id a = cm_agent_id cm \<and> cm_channel_id cm = c_id c then [(cm, a)] else [])" for cm a
  proof (cases "a_id a = cm_agent_id cm \<and> cm_channel_id cm = c_id c")
    case True
    then show ?thesis using one by (simp add: F_def concat_guarded)
  qed (auto simp: F_def filter_concat filter_empty_conv split: if_splits)
  have "filter (\<lambda>(cm, a). cm_channel_id cm = c_id c) (concat (map (\<lambda>cm. concat (map (F cm) as)) ms))
    = concat (map (\<lambda>cm. concat (map (\<lambda>a. if a_id a = cm_agent_id cm \<and> cm_channel_id cm = c_id c then [(cm, a)] else []) as)) ms)"
    by (simp add: filter_concat comp_def F)
  then show ?thesis by (simp add: F_def [abs_def])
qed

definition members_of :: "string \<Rightarrow> db \<Rightarrow> channel_member list" where
  "members_of cid d = map member_of (sort_key (\<lambda>(cm, a). (cm_joined_at_ms cm, cm_agent_id cm))
     [(cm, a). cm \<leftarrow> channel_members d, a \<leftarrow> agents d, a_id a = cm_agent_id cm \<and> cm_channel_id cm = cid])"

lemma list_channel_members_total:
  "c \<in> set (channels d) \<Longrightarrow> list_channel_members (c_id c) d = Inr (members_of (c_id c) d)"
  using try_fold_collect [of member_of _ "[]"]
  by (auto simp: list_channel_members_def members_of_def rows_affected_def filter_empty_conv)

lemma members_by_conversation_total:
  assumes "unique_on c_id (channels d)" and "c \<in> set (listed_channels include d)"
  shows "\<exists>f. members_by_conversation include d = Inr f \<and> f (c_id c) = members_of (c_id c) d"
proof -
  let ?key = "\<lambda>(cm, a :: agent_row). (cm_channel_id cm, cm_joined_at_ms cm, cm_agent_id cm)"
  let ?mine = "\<lambda>(cm, a :: agent_row). cm_channel_id cm = c_id c"
  have c: "c \<in> set (channels d)" "include \<or> c_archived_at_ms c = None" using assms(2) by (auto simp: listed_channels_def)
  have mine: "(\<lambda>row. member_channel_id (member_of row) = c_id c) = ?mine" by (auto simp: member_of_def)
  have "filter ?mine (member_rows include d) = sort_key ?key
      [(cm, a). cm \<leftarrow> channel_members d, a \<leftarrow> agents d, a_id a = cm_agent_id cm \<and> cm_channel_id cm = c_id c]"
    unfolding member_rows_def filter_sort by (simp only: joined_members [OF assms(1) c(1), of "\<lambda>c. include \<or> c_archived_at_ms c = None", OF c(2)])
  also have "\<dots> = sort_key (\<lambda>(cm, a). (cm_joined_at_ms cm, cm_agent_id cm))
      [(cm, a). cm \<leftarrow> channel_members d, a \<leftarrow> agents d, a_id a = cm_agent_id cm \<and> cm_channel_id cm = c_id c]"
    by (rule sort_key_same_order) (auto split: if_splits)
  finally have rows: "filter ?mine (member_rows include d) = \<dots>" .
  show ?thesis
    unfolding members_by_conversation_def channel_member_from_row_total and_then_Inr try_fold_group
    by (simp add: mine rows members_of_def)
qed

text \<open>
  C37: the batched listing of conversations is what asking for each of them would give.  It never fails
  on a well-formed directory, lists exactly the channels that are asked for, by age, and each summary,
  its members and their order included, is the one of the single read.
\<close>

theorem conversation_list_is_summaries:
  assumes "channels_inv d"
  shows "\<exists>xs. conversation_list include d d = Inr xs
    \<and> map Inr xs = map (\<lambda>c. summary (c_id c) d d) (listed_channels include d)"
proof -
  have u: "unique_on c_id (channels d)" using assms by (simp add: channels_inv_def directory_inv_def)
  let ?sum = "\<lambda>c. case summary (c_id c) d d of Inr x \<Rightarrow> x"
  have single: "summary (c_id c) d d = summary_from_row (summary_select d c) (members_of (c_id c) d)"
    if "c \<in> set (listed_channels include d)" for c
  proof -
    have c: "c \<in> set (channels d)" using that by (simp add: listed_channels_def)
    then have "find (\<lambda>r. c_id r = c_id c) (channels d) = Some c" using find_key_iff u by metis
    then show ?thesis using list_channel_members_total [OF c] by (simp add: summary_def)
  qed
  have ok: "summary_from_row row ms = Inr (case summary_from_row row ms of Inr x \<Rightarrow> x)" for row ms
    by (auto simp: summary_from_row_def split: prod.splits)
  obtain f where f: "members_by_conversation include d = Inr f"
    using try_fold_group [of member_channel_id member_of "member_rows include d" "\<lambda>_. []"] by (simp add: members_by_conversation_def)
  have each: "summary_from_row (summary_select d c) (f (c_id c)) = summary (c_id c) d d"
    if "c \<in> set (listed_channels include d)" for c
    using members_by_conversation_total [OF u that] f single [OF that] by simp
  have "try_fold (\<lambda>c out. and_then (summary_from_row (summary_select d c) (f (c_id c))) (\<lambda>x. Inr (out @ [x]))) cs out
      = Inr (out @ map ?sum cs)" if "set cs \<subseteq> set (listed_channels include d)" for cs out
    using that
  proof (induction cs arbitrary: out)
    case (Cons c cs)
    obtain x where "summary (c_id c) d d = Inr x" using ok single Cons.prems by (metis list.set_intros(1) subsetD)
    then show ?case using Cons each by simp
  qed simp
  moreover have "Inr (?sum c) = summary (c_id c) d d" if "c \<in> set (listed_channels include d)" for c
    using ok single [OF that] by metis
  ultimately show ?thesis by (auto simp: conversation_list_def f)
qed

section \<open>What is unread\<close>

lemma attention_select_append:
  assumes "messages d' = messages d @ [m]"
  shows "attention_unread_count (attention_select d' cm) = attention_unread_count (attention_select d cm)
      + (if m_channel_id m = cm_channel_id cm \<and> unread cm m then 1 else 0)"
    and "attention_addressed_unread_count (attention_select d' cm) = attention_addressed_unread_count (attention_select d cm)
      + (if m_channel_id m = cm_channel_id cm \<and> addressed_unread cm m then 1 else 0)"
    and "m_channel_id m \<noteq> cm_channel_id cm \<Longrightarrow> attention_select d' cm = attention_select d cm"
  using assms by (auto simp: attention_select_def Let_def)

lemma attention_for_member:
  assumes "channels_inv d" and "cm \<in> set (channel_members d)"
  shows "attention_for (cm_agent_id cm) (cm_channel_id cm) d = Inr (attention_select d cm)"
proof -
  have u: "unique_on (\<lambda>m. (cm_channel_id m, cm_agent_id m)) (channel_members d)"
    using assms(1) by (simp add: channels_inv_def directory_inv_def)
  have "find (\<lambda>m. (cm_channel_id m, cm_agent_id m) = (cm_channel_id cm, cm_agent_id cm)) (channel_members d) = Some cm"
    using find_key_iff [OF u] assms(2) by blast
  then have "find (\<lambda>m. cm_agent_id m = cm_agent_id cm \<and> cm_channel_id m = cm_channel_id cm) (channel_members d) = Some cm"
    by (simp add: conj_commute)
  then show ?thesis by (simp add: attention_for_def)
qed

text \<open>
  Attention counts exactly what was said since.  A message that an append created raises the unread
  count of every member of its channel but the sender by one, the addressed count of its recipient by
  one, and changes no other count of anyone.
\<close>

theorem new_message_is_unread:
  assumes "channels_inv d" and "messages_inv d" and "append_message_in_transaction uuid now cid inp d = Inr (r, d')"
    and "appended_created r" and "cm \<in> set (channel_members d)"
  shows "\<exists>x x'. attention_for (cm_agent_id cm) (cm_channel_id cm) d = Inr x
    \<and> attention_for (cm_agent_id cm) (cm_channel_id cm) d' = Inr x'
    \<and> attention_unread_count x' = attention_unread_count x
        + (if cm_channel_id cm = cid \<and> cm_agent_id cm \<noteq> new_sender_id inp then 1 else 0)
    \<and> attention_addressed_unread_count x' = attention_addressed_unread_count x
        + (if cm_channel_id cm = cid \<and> cm_agent_id cm \<noteq> new_sender_id inp
             \<and> new_recipient_id inp = Some (cm_agent_id cm) then 1 else 0)"
proof -
  let ?m = "appended_row uuid now cid inp (messages_sequence d + 1)"
  have new: "messages d' = messages d @ [?m]" "channel_members d' = channel_members d"
    using assms(3,4) by (auto elim!: append_message_cases dest!: insert_message_store)
  have "cm_read_through_seq cm \<le> messages_sequence d"
    using assms(1,2,5) unfolding channels_inv_defs messages_inv_def by fastforce
  then have unread: "unread cm ?m \<longleftrightarrow> cm_agent_id cm \<noteq> new_sender_id inp"
    "addressed_unread cm ?m \<longleftrightarrow> cm_agent_id cm \<noteq> new_sender_id inp \<and> new_recipient_id inp = Some (cm_agent_id cm)"
    by (auto simp: unread_def addressed_unread_def appended_row_def)
  have "m_channel_id ?m = cid" by (simp add: appended_row_def)
  then show ?thesis
    using attention_for_member [OF assms(1,5)] attention_for_member [OF append_message_invs(1) [OF assms(3,1)], of cm]
      attention_select_append(1,2) [OF new(1), of cm] unread assms(5) new(2)
    by auto
qed

lemma sum_list_indicator: "sum_list (map (\<lambda>m. if P m then 1 else 0) ms) = int (length (filter P ms))"
  by (induction ms) auto

lemma sql_min_sorted:
  "sorted_wrt (<) (map f xs) \<Longrightarrow> sql_min (map f xs) = (case xs of [] \<Rightarrow> None | x # ys \<Rightarrow> Some (f x))"
proof (cases xs)
  case (Cons x ys)
  have "fold min (map f ys) (f x) = f x" if "\<forall>y\<in>set ys. f x < f y"
    using that by (induction ys) (auto simp: min_def)
  then show "sorted_wrt (<) (map f xs) \<Longrightarrow> ?thesis" using Cons by (simp add: sql_min_def)
qed (simp add: sql_min_def)

lemma attention_columns:
  assumes "messages_inv d"
  shows "attention_unread_count (attention_select d cm) = int (length (filter (\<lambda>m. m_sender_id m \<noteq> cm_agent_id cm)
      (channel_after (cm_channel_id cm) (cm_read_through_seq cm) d)))"
    and "attention_addressed_unread_count (attention_select d cm) = int (length (filter (\<lambda>m. m_sender_id m \<noteq> cm_agent_id cm
      \<and> m_recipient_id m = Some (cm_agent_id cm)) (channel_after (cm_channel_id cm) (cm_read_through_seq cm) d)))"
    and "attention_first_unread_seq (attention_select d cm) = (case filter (\<lambda>m. m_sender_id m \<noteq> cm_agent_id cm)
      (channel_after (cm_channel_id cm) (cm_read_through_seq cm) d) of [] \<Rightarrow> None | m # ms \<Rightarrow> Some (m_seq m))"
proof -
  let ?after = "channel_after (cm_channel_id cm) (cm_read_through_seq cm) d"
  have split: "filter (\<lambda>m. m_sender_id m \<noteq> cm_agent_id cm) ?after
      = filter (unread cm) (filter (\<lambda>m. m_channel_id m = cm_channel_id cm) (messages d))"
    "filter (\<lambda>m. m_sender_id m \<noteq> cm_agent_id cm \<and> m_recipient_id m = Some (cm_agent_id cm)) ?after
      = filter (addressed_unread cm) (filter (\<lambda>m. m_channel_id m = cm_channel_id cm) (messages d))"
    by (auto simp: channel_after_def unread_def addressed_unread_def intro!: filter_cong)
  show "attention_unread_count (attention_select d cm) = int (length (filter (\<lambda>m. m_sender_id m \<noteq> cm_agent_id cm) ?after))"
    "attention_addressed_unread_count (attention_select d cm) = int (length (filter (\<lambda>m. m_sender_id m \<noteq> cm_agent_id cm
      \<and> m_recipient_id m = Some (cm_agent_id cm)) ?after))"
    unfolding split by (simp_all add: attention_select_def Let_def sum_list_indicator)
  have "sorted_wrt (<) (map m_seq (messages d))" using assms by (simp add: messages_inv_def)
  then have "sorted_wrt (<) (map m_seq (filter (unread cm) (filter (\<lambda>m. m_channel_id m = cm_channel_id cm) (messages d))))"
    by (intro sorted_filter_table)
  then show "attention_first_unread_seq (attention_select d cm) = (case filter (\<lambda>m. m_sender_id m \<noteq> cm_agent_id cm) ?after of
      [] \<Rightarrow> None | m # ms \<Rightarrow> Some (m_seq m))"
    unfolding split by (simp only: attention_select_def Let_def conversation_attention.simps sql_min_sorted)
qed

text \<open>
  Reading through a message leaves exactly what follows it unread: the counts afterwards are the
  numbers of messages of the channel beyond the cursor that the participant did not send, and of those
  addressed to it, and the first unread message is the oldest of them.
\<close>

theorem reading_clears_attention:
  assumes "channels_inv d" and "messages_inv d" and "advance_member_read_cursor cid aid seq d = Inr (v, d')"
  shows "\<exists>x. attention_for aid cid d' = Inr x \<and> seq \<le> v \<and> attention_read_through_seq x = v
    \<and> attention_unread_count x = int (length (filter (\<lambda>m. m_sender_id m \<noteq> aid) (channel_after cid v d)))
    \<and> attention_addressed_unread_count x
        = int (length (filter (\<lambda>m. m_sender_id m \<noteq> aid \<and> m_recipient_id m = Some aid) (channel_after cid v d)))
    \<and> attention_first_unread_seq x = (case filter (\<lambda>m. m_sender_id m \<noteq> aid) (channel_after cid v d) of
          [] \<Rightarrow> None | m # ms \<Rightarrow> Some (m_seq m))"
proof -
  note e = advance_member_read_cursor_effect [OF assms(3)]
  from e(4) obtain cm where cm: "cm \<in> set (channel_members d')" "cm_channel_id cm = cid" "cm_agent_id cm = aid"
    "cm_read_through_seq cm = v" by blast
  have "attention_for aid cid d' = Inr (attention_select d' cm)"
    using attention_for_member [OF channels_inv_advance_member_read_cursor [OF assms(1,3)] cm(1)] cm(2,3) by simp
  moreover have "messages d' = messages d" using e(3) by simp
  then have "attention_select d' cm = attention_select d cm" by (simp add: attention_select_def)
  moreover have "seq \<le> v"
  proof -
    obtain r where r: "cm = (if cm_channel_id r = cid \<and> cm_agent_id r = aid \<and> cm_read_through_seq r < seq
        then r\<lparr>cm_read_through_seq := seq\<rparr> else r)"
      using cm(1) unfolding e(3) by (auto simp: in_update_where)
    then show ?thesis using cm(2-4) by (cases "cm_channel_id r = cid \<and> cm_agent_id r = aid \<and> cm_read_through_seq r < seq") auto
  qed
  moreover have "attention_read_through_seq (attention_select d cm) = v" by (simp add: attention_select_def Let_def cm)
  ultimately show ?thesis using attention_columns [OF assms(2), of cm] cm by simp
qed

end
