(* ===== verification/Health.thy ===== *)
theory Health
  imports Evidence
begin

text \<open>
  The health report (\<open>crates/execution/src/health.rs\<close>): what the fleet is doing, composed from the
  durable read models.  Its four reads hold no transaction, so each sees a database of its own.
\<close>

record delivery_census =
  census_inspected :: nat
  census_pending :: nat
  census_leased :: nat
  census_expired_leases :: nat
  census_blocked :: nat
  census_acknowledged :: nat
  census_dead :: nat

record fleet_health_report =
  health_agent_id :: "string option"
  health_current_plugin_generations :: "plugin_generation_view list"
  health_current_session_bindings :: "session_binding list"
  health_active_invocations :: "invocation list"
  health_deliveries :: delivery_census
  health_delivery_records :: "delivery_record list"

fun newest_per_from :: "'k list \<Rightarrow> ('t \<Rightarrow> 'k) \<Rightarrow> 't list \<Rightarrow> 't list" where
  "newest_per_from seen key [] = []"
| "newest_per_from seen key (row # rows) =
     (if key row \<in> set seen then newest_per_from seen key rows
      else row # newest_per_from (key row # seen) key rows)"

definition newest_per :: "('t \<Rightarrow> 'k) \<Rightarrow> 't list \<Rightarrow> 't list" where
  "newest_per key rows = newest_per_from [] key rows"

definition count_record :: "delivery_record \<Rightarrow> delivery_census \<Rightarrow> delivery_census" where
  "count_record r c =
     (case rec_state r of
        Pending \<Rightarrow> c\<lparr>census_pending := census_pending c + 1\<rparr>
      | Leased \<Rightarrow>
          let c = c\<lparr>census_leased := census_leased c + 1\<rparr> in
          if rec_lease_expired r then c\<lparr>census_expired_leases := census_expired_leases c + 1\<rparr> else c
      | Blocked \<Rightarrow> c\<lparr>census_blocked := census_blocked c + 1\<rparr>
      | Acknowledged \<Rightarrow> c\<lparr>census_acknowledged := census_acknowledged c + 1\<rparr>
      | Dead \<Rightarrow> c\<lparr>census_dead := census_dead c + 1\<rparr>)"

definition census :: "delivery_record list \<Rightarrow> delivery_census" where
  "census records = fold count_record records
     \<lparr>census_inspected = length records, census_pending = 0, census_leased = 0, census_expired_leases = 0,
      census_blocked = 0, census_acknowledged = 0, census_dead = 0\<rparr>"

definition fleet_health ::
  "i64 \<Rightarrow> i64 \<Rightarrow> string option \<Rightarrow> u32 \<Rightarrow> db \<Rightarrow> db \<Rightarrow> db \<Rightarrow> db \<Rightarrow> fleet_health_report result" where
  "fleet_health now now' agent_id delivery_limit d1 d2 d3 d4 =
     and_then (list_plugin_generations now (newest_page agent_id) d1) (\<lambda>generations.
     and_then (list_session_bindings agent_id d2) (\<lambda>sessions.
     and_then (list_invocations agent_id d3) (\<lambda>invs.
     and_then (list_deliveries now' agent_id None delivery_limit d4) (\<lambda>records.
     Inr \<lparr>health_agent_id = agent_id,
          health_current_plugin_generations = newest_per pg_agent_id generations,
          health_current_session_bindings = newest_per (\<lambda>s. bind_id (sess_binding s)) sessions,
          health_active_invocations = filter (\<lambda>i. inv_state i \<noteq> Terminal) invs,
          health_deliveries = census records, health_delivery_records = records\<rparr>))))"

section \<open>The first row of each key\<close>

lemma newest_per_from_keys:
  "set (map key (newest_per_from seen key rows)) = set (map key rows) - set seen
   \<and> distinct (map key (newest_per_from seen key rows)) \<and> set (newest_per_from seen key rows) \<subseteq> set rows"
proof (induction rows arbitrary: seen)
  case (Cons r rs)
  then show ?case using Cons.IH [of seen] Cons.IH [of "key r # seen"] by auto
qed simp

lemma newest_per_from_first:
  assumes "sorted_wrt R rows" and "y \<in> set rows" and "key y \<notin> set seen"
  shows "\<exists>x\<in>set (newest_per_from seen key rows). key x = key y \<and> (x = y \<or> R x y)"
  using assms
proof (induction rows arbitrary: seen)
  case (Cons r rs)
  show ?case
  proof (cases "key r \<in> set seen \<or> key r \<noteq> key y")
    case True
    then have "y \<in> set rs" using Cons.prems(2,3) by auto
    then show ?thesis using Cons.IH [of seen] Cons.IH [of "key r # seen"] Cons.prems(1,3) True by auto
  qed (use Cons.prems(1,2) in auto)
qed simp

lemma try_fold_decode:
  "try_fold (\<lambda>r out. and_then (f r) (\<lambda>x. Inr (out @ [x]))) rs out = Inr ys \<Longrightarrow>
     \<exists>xs. ys = out @ xs \<and> list_all2 (\<lambda>r x. f r = Inr x) rs xs"
proof (induction rs arbitrary: out)
  case (Cons r rs)
  then obtain x where x: "f r = Inr x" "try_fold (\<lambda>r out. and_then (f r) (\<lambda>x. Inr (out @ [x]))) rs (out @ [x]) = Inr ys"
    by (auto simp: and_then_eq_Inr)
  from Cons.IH [OF x(2)] x(1) show ?case by auto
qed simp

lemma list_all2_right: "list_all2 P rs xs \<Longrightarrow> x \<in> set xs \<Longrightarrow> \<exists>r\<in>set rs. P r x"
  by (induction rule: list_all2_induct) auto

lemma list_all2_left: "list_all2 P rs xs \<Longrightarrow> r \<in> set rs \<Longrightarrow> \<exists>x\<in>set xs. P r x"
  by (induction rule: list_all2_induct) auto

lemma sorted_wrt_list_all2:
  assumes "list_all2 P rs xs" and "sorted_wrt R rs" and S: "\<And>r r' x x'. P r x \<Longrightarrow> P r' x' \<Longrightarrow> R r r' \<Longrightarrow> S x x'"
  shows "sorted_wrt S xs"
  using assms(1,2)
proof (induction rule: list_all2_induct)
  case (Cons r rs x xs)
  have "S x x'" if "x' \<in> set xs" for x'
    using list_all2_right [OF Cons.hyps(2) that] S [OF Cons.hyps(1)] Cons.prems by auto
  then show ?case using Cons by simp
qed simp

lemma generation_from_row_fields:
  "generation_from_row now g = Inr x \<Longrightarrow>
     pg_agent_id x = g_agent_id g \<and> pg_last_heartbeat_at_ms x = g_last_heartbeat_at_ms g \<and> pg_id x = g_id g"
  by (auto simp: generation_from_row_def and_then_eq_Inr)

lemma newest_rows:
  "sorted_wrt (\<lambda>r r'. (changed r', ident r') \<le> (changed r, ident r))
     (evidence_sql agent changed ident settled (newest_page who) limit rows)"
proof -
  have up: "sorted_wrt (\<lambda>r r'. f r \<le> f r') (sort_key f rs)" for f :: "'a \<Rightarrow> i64 \<times> string" and rs
    using sorted_sort_key [of f rs] by (simp only: sorted_map)
  have "\<exists>rs. evidence_sql agent changed ident settled (newest_page who) limit rows
      = take (unat limit) (rev (sort_key (\<lambda>r. (changed r, ident r)) rs))"
    by (auto simp: evidence_sql_def newest_page_def Let_def)
  then obtain rs where "evidence_sql agent changed ident settled (newest_page who) limit rows
      = take (unat limit) (rev (sort_key (\<lambda>r. (changed r, ident r)) rs))" ..
  then show ?thesis using sorted_wrt_take [OF sorted_wrt_rev [THEN iffD2, OF up]] by metis
qed

lemma census_fold:
  "fold count_record records c = c' \<Longrightarrow>
     census_inspected c' = census_inspected c
     \<and> census_pending c' + census_leased c' + census_blocked c' + census_acknowledged c' + census_dead c'
        = census_pending c + census_leased c + census_blocked c + census_acknowledged c + census_dead c + length records
     \<and> census_expired_leases c' + census_leased c \<le> census_leased c' + census_expired_leases c"
proof (induction records arbitrary: c)
  case (Cons r rs)
  from Cons.IH [of "count_record r c"] Cons.prems show ?case
    by (auto simp: count_record_def Let_def split: delivery_state.splits if_splits)
qed simp

lemma census_adds_up:
  "census_inspected (census records) = length records
   \<and> census_pending (census records) + census_leased (census records) + census_blocked (census records)
      + census_acknowledged (census records) + census_dead (census records) = length records
   \<and> census_expired_leases (census records) \<le> census_leased (census records)"
  using census_fold [OF census_def [symmetric]] by simp

text \<open>
  The health report is current and adds up.  It names at most one plugin generation per agent, and
  as long as the page of generations was not cut, every generation in the store is covered by one of its
  agent whose heartbeat is at least as recent; every inspected delivery is counted in exactly one state.
\<close>

theorem health_is_current:
  assumes "fleet_health now now' agent limit d1 d2 d3 d4 = Inr h" and "g \<in> set (plugin_generations d1)"
    and "agent = None \<or> agent = Some (g_agent_id g)" and "length (plugin_generations d1) \<le> 500"
  shows "distinct (map pg_agent_id (health_current_plugin_generations h))
    \<and> (\<exists>x\<in>set (health_current_plugin_generations h). pg_agent_id x = g_agent_id g
          \<and> (g_last_heartbeat_at_ms g, g_id g) \<le> (pg_last_heartbeat_at_ms x, pg_id x))
    \<and> (let c = health_deliveries h in census_inspected c = length (health_delivery_records h)
          \<and> census_pending c + census_leased c + census_blocked c + census_acknowledged c + census_dead c = census_inspected c
          \<and> census_expired_leases c \<le> census_leased c)"
proof -
  let ?rows = "evidence_sql g_agent_id g_last_heartbeat_at_ms g_id (\<lambda>g. g_state g = GenerationStopped)
    (newest_page agent) MAX_EVIDENCE_PAGE (plugin_generations d1)"
  have "evidence_validate (newest_page agent) = Inr MAX_EVIDENCE_PAGE"
    by (simp add: evidence_validate_def newest_page_def MAX_EVIDENCE_PAGE_def max_def word_le_nat_alt)
  then obtain gens where gens: "try_fold (\<lambda>g gs. and_then (generation_from_row now g) (\<lambda>x. Inr (gs @ [x]))) ?rows [] = Inr gens"
    and h: "health_current_plugin_generations h = newest_per pg_agent_id gens"
      "health_deliveries h = census (health_delivery_records h)"
    using assms(1) by (auto simp: fleet_health_def list_plugin_generations_def and_then_eq_Inr)
  have all: "list_all2 (\<lambda>g x. generation_from_row now g = Inr x) ?rows gens"
    using try_fold_decode [OF gens] by simp
  have "length (filter P (plugin_generations d1)) \<le> 500" for P using le_trans [OF length_filter_le assms(4)] .
  then have "g \<in> set ?rows"
    using assms(2,3) by (auto simp: evidence_sql_def newest_page_def MAX_EVIDENCE_PAGE_def beyond_cursor_def Let_def)
  then obtain y where y: "y \<in> set gens" "generation_from_row now g = Inr y"
    using list_all2_left [OF all] by blast
  have "sorted_wrt (\<lambda>x x'. (pg_last_heartbeat_at_ms x', pg_id x') \<le> (pg_last_heartbeat_at_ms x, pg_id x)) gens"
    by (rule sorted_wrt_list_all2 [OF all newest_rows]) (simp add: generation_from_row_fields)
  from newest_per_from_first [OF this y(1), of pg_agent_id "[]"] obtain x where
    "x \<in> set (newest_per pg_agent_id gens)" "pg_agent_id x = pg_agent_id y"
    "(pg_last_heartbeat_at_ms y, pg_id y) \<le> (pg_last_heartbeat_at_ms x, pg_id x)"
    by (auto simp: newest_per_def)
  moreover have "distinct (map pg_agent_id (newest_per pg_agent_id gens))"
    using newest_per_from_keys [of pg_agent_id "[]" gens] by (simp add: newest_per_def)
  ultimately show ?thesis
    using generation_from_row_fields [OF y(2)] census_adds_up [of "health_delivery_records h"] h
    by (auto simp: Let_def)
qed

end
