(* ===== verification/Http_Api.thy ===== *)
theory Http_Api
  imports Stream_Grants Conversation Health
begin

text \<open>
  The authenticated HTTP surface (\<open>crates/http/src\<close>): bearer authentication (\<open>lib.rs\<close>), the guards
  (\<open>guard.rs\<close>), one definition per handler, and how a domain error becomes a response (\<open>error.rs\<close>).
  Routing, JSON decoding and the rendering of bodies are the libraries': a request here is a decoded one.

  A handler gets the principal of its request and the database, and gives a reply or an error together
  with the database it left: an error after a commit does not undo it.  \<open>request_env\<close> holds what the
  handler draws from outside: clocks, identifiers, the token it would issue, and the databases that
  reads after the commit, or outside the transaction, see.
\<close>

section \<open>Errors (error.rs)\<close>

fun error_status :: "fleet_error \<Rightarrow> nat" where
  "error_status (NotFound e i) = 404"
| "error_status (NotMember a c) = 403"
| "error_status (Forbidden m) = 403"
| "error_status (Invalid m) = 400"
| "error_status Unauthorized = 401"
| "error_status (Conflict m) = 409"
| "error_status (LeaseConflict m) = 409"
| "error_status (ResourceExhausted m) = 429"
| "error_status (Database e) = 500"
| "error_status Migration = 500"
| "error_status Serialization = 500"
| "error_status (Credential m) = 500"
| "error_status Io = 500"

fun public_message :: "fleet_error \<Rightarrow> string" where
  "public_message (NotFound entity i) = entity @ '' not found: '' @ i"
| "public_message (NotMember a c) = ''agent '' @ a @ '' is not a member of channel '' @ c"
| "public_message (Invalid m) = ''invalid input: '' @ m"
| "public_message Unauthorized = ''authentication required''"
| "public_message (Forbidden m) = ''forbidden: '' @ m"
| "public_message (Conflict m) = ''conflict: '' @ m"
| "public_message (ResourceExhausted m) = ''resource exhausted: '' @ m"
| "public_message (LeaseConflict m) = ''lease conflict: '' @ m"
| "public_message (Database e) = ''internal server error''"
| "public_message Migration = ''internal server error''"
| "public_message Serialization = ''internal server error''"
| "public_message (Credential m) = ''internal server error''"
| "public_message Io = ''internal server error''"

section \<open>Guards (guard.rs)\<close>

definition require_operator :: "principal \<Rightarrow> unit result" where
  "require_operator p = (if is_operator p then Inr () else Inl (Forbidden ''operator credential required''))"

definition require_agent :: "principal \<Rightarrow> string result" where
  "require_agent p = ok_or (principal_agent_id p) (Forbidden ''agent credential required'')"

definition require_bound_agent :: "principal \<Rightarrow> string \<Rightarrow> unit result" where
  "require_bound_agent p expected =
     and_then (require_agent p) (\<lambda>a.
     if a = expected then Inr () else Inl (Forbidden ''credential is bound to another agent''))"

definition require_channel_access :: "principal \<Rightarrow> string \<Rightarrow> control_db \<Rightarrow> unit result" where
  "require_channel_access p cid s =
     (if is_operator p then Inr ()
      else
        and_then (require_agent p) (\<lambda>a.
        and_then (is_member cid a (core_db s)) (\<lambda>member.
        if member then Inr () else Inl (Forbidden ''agent is not a member of this channel''))))"

definition require_bound_trigger :: "principal \<Rightarrow> string \<Rightarrow> unit result" where
  "require_bound_trigger p expected =
     (if principal_trigger_id p = Some expected then Inr ()
      else Inl (Forbidden ''credential is bound to another trigger''))"

section \<open>Requests and replies\<close>

record send_message_input =
  send_idempotency_key :: "string option"
  send_recipient_id :: "string option"
  send_kind :: string
  send_payload :: json
  send_correlation_id :: "string option"
  send_causation_id :: "string option"

definition attributed_to :: "send_message_input \<Rightarrow> string \<Rightarrow> create_message" where
  "attributed_to m sender =
     \<lparr>new_sender_id = sender, new_idempotency_key = send_idempotency_key m, new_recipient_id = send_recipient_id m,
      new_kind = send_kind m, new_payload = send_payload m, new_correlation_id = send_correlation_id m,
      new_causation_id = send_causation_id m\<rparr>"

record evidence_page_query =
  q_agent :: "string option"
  q_after_ms :: "i64 option"
  q_after_id :: "string option"
  q_limit :: u32
  q_settled :: bool
  q_order :: evidence_order

record request_env =
  rq_now :: i64
  rq_msg_now :: i64
  rq_uuid :: string
  rq_name_uuid :: string
  rq_lease_token :: string
  rq_uuids :: "nat \<Rightarrow> string"
  rq_fences :: "nat \<Rightarrow> string"
  rq_issue :: "issued_credential result"
  rq_seen :: control_db
  rq_later :: control_db

datatype api_body =
    NoContent
  | RegisteredAgent registered_agent | Agents "agent list" | IssuedBody issued_credential
  | ChannelBody channel | Channels "channel list"
  | Conversations "conversation_summary list" | ConversationBody conversation_summary
  | Members "channel_member list" | Attentions "conversation_attention list" | AttentionBody conversation_attention
  | MessageBody message | PageBody message_page
  | DeliveryRecords "delivery_record list" | Claimed claim_batch
  | BlockedBody blocked_delivery | BlockedDeliveries "blocked_delivery list"
  | Invocations "invocation list" | InvocationBody invocation | CompletionBody invocation_completion
  | TraceBody invocation_trace_view | HealthBody fleet_health_report
  | Generations "plugin_generation_view list" | Observations "invocation_observation_view list"
  | Bindings "session_binding list" | Seats "agent_seat list"
  | RegisteredTrigger registered_trigger | TriggerBody trigger | TriggerBodies "trigger list" | Fired trigger_fired
  | Configurations "agent_seat_configuration list" | ConfigurationBody agent_seat_configuration

text \<open>\<open>reply_wake\<close> is the message the handler announces to the open streams.\<close>

record api_reply =
  reply_status :: nat
  reply_body :: api_body
  reply_wake :: "message option"

type_synonym handler = "control_db \<Rightarrow> api_reply result \<times> control_db"

definition reply :: "nat \<Rightarrow> api_body \<Rightarrow> api_reply" where
  "reply status body = \<lparr>reply_status = status, reply_body = body, reply_wake = None\<rparr>"

text \<open>A handler that only reads, and one that runs a transaction first.\<close>

definition reads :: "(control_db \<Rightarrow> api_reply result) \<Rightarrow> handler" where
  "reads f s = (f s, s)"

definition commits :: "'a control \<Rightarrow> ('a \<Rightarrow> api_reply result) \<Rightarrow> handler" where
  "commits f k s = (case f s of Inl e \<Rightarrow> (Inl e, s) | Inr (x, s') \<Rightarrow> (k x, s'))"

definition guarded :: "'a result \<Rightarrow> handler \<Rightarrow> handler" where
  "guarded g h s = (case g of Inl e \<Rightarrow> (Inl e, s) | Inr x \<Rightarrow> h s)"

definition on_core :: "'a transaction \<Rightarrow> 'a control" where
  "on_core f s = and_then (f (core_db s)) (\<lambda>(x, d). Inr (x, s\<lparr>core_db := d\<rparr>))"

section \<open>Agents (agents.rs)\<close>

definition create_agent_handler where
  "create_agent_handler sha256 env p inp =
     guarded (require_operator p)
       (commits (register_agent sha256 (rq_issue env) (rq_uuid env) inp) (\<lambda>r. Inr (reply 201 (RegisteredAgent r))))"

definition list_agents_operation where
  "list_agents_operation p = guarded (require_operator p) (reads (\<lambda>s. Inr (reply 200 (Agents (list_agents (core_db s))))))"

definition rotate_agent_credential_handler where
  "rotate_agent_credential_handler sha256 env p agent =
     guarded (require_operator p)
       (commits (rotate_agent_credential sha256 (rq_issue env) agent) (\<lambda>c. Inr (reply 200 (IssuedBody c))))"

section \<open>Channels (channels.rs)\<close>

definition create_channel_handler where
  "create_channel_handler env p inp =
     guarded (require_operator p)
       (commits (on_core (create_channel (rq_uuid env) (rq_now env) inp)) (\<lambda>c. Inr (reply 201 (ChannelBody c))))"

definition list_channels_handler where
  "list_channels_handler p =
     guarded (require_operator p) (reads (\<lambda>s. and_then (list_channels (core_db s)) (\<lambda>cs. Inr (reply 200 (Channels cs)))))"

definition list_conversations_handler where
  "list_conversations_handler env p include_archived =
     guarded (require_operator p) (reads (\<lambda>s.
       and_then (conversation_list include_archived (core_db s) (core_db (rq_later env))) (\<lambda>cs.
       Inr (reply 200 (Conversations cs)))))"

definition open_direct_conversation_handler where
  "open_direct_conversation_handler env p members =
     guarded (require_operator p)
       (commits (on_core (open_direct_pair (rq_uuid env) (rq_name_uuid env) (rq_now env) members)) (\<lambda>(channel, created).
         and_then (summary (channel_id' channel) (core_db (rq_seen env)) (core_db (rq_later env))) (\<lambda>c.
         Inr (reply (if created then 201 else 200) (ConversationBody c)))))"

definition rename_channel_handler where
  "rename_channel_handler p cid name =
     guarded (require_operator p) (commits (on_core (rename_channel cid name)) (\<lambda>c. Inr (reply 200 (ChannelBody c))))"

definition archive_channel_handler where
  "archive_channel_handler env p cid =
     guarded (require_operator p)
       (commits (on_core (archive_channel (rq_now env) cid)) (\<lambda>c. Inr (reply 200 (ChannelBody c))))"

definition add_member_handler where
  "add_member_handler env p cid agent mode =
     guarded (require_operator p)
       (commits (on_core (add_member_with_mode (rq_now env) cid agent mode)) (\<lambda>_. Inr (reply 204 NoContent)))"

definition list_channel_members_handler where
  "list_channel_members_handler p cid s =
     guarded (require_channel_access p cid s)
       (reads (\<lambda>s. and_then (list_channel_members cid (core_db s)) (\<lambda>ms. Inr (reply 200 (Members ms))))) s"

definition list_conversation_attention_handler where
  "list_conversation_attention_handler p = reads (\<lambda>s.
     and_then (require_agent p) (\<lambda>a. Inr (reply 200 (Attentions (attention a (core_db s))))))"

definition advance_conversation_read_handler where
  "advance_conversation_read_handler env p cid through_seq s =
     (case require_agent p of
        Inl e \<Rightarrow> (Inl e, s)
      | Inr a \<Rightarrow>
          commits (on_core (advance_member_read_cursor cid a through_seq)) (\<lambda>_.
            and_then (attention_for a cid (core_db (rq_later env))) (\<lambda>x. Inr (reply 200 (AttentionBody x)))) s)"

section \<open>Messages (messages.rs)\<close>

definition append_message_handler where
  "append_message_handler env p cid inp s =
     (case require_agent p of
        Inl e \<Rightarrow> (Inl e, s)
      | Inr a \<Rightarrow>
          commits (on_core (append_message_idempotent (rq_uuid env) (rq_now env) cid (attributed_to inp a))) (\<lambda>r.
            Inr \<lparr>reply_status = (if appended_created r then 201 else 200), reply_body = MessageBody (appended_message r),
                 reply_wake = (if appended_created r then Some (appended_message r) else None)\<rparr>) s)"

definition list_messages_handler where
  "list_messages_handler p cid after limit s =
     guarded (require_channel_access p cid s)
       (reads (\<lambda>s. and_then (list_messages cid after limit (core_db s)) (\<lambda>page. Inr (reply 200 (PageBody page))))) s"

section \<open>Deliveries (deliveries.rs)\<close>

definition list_deliveries_handler where
  "list_deliveries_handler env p agent state limit =
     guarded (require_operator p) (reads (\<lambda>s.
       and_then (list_deliveries (rq_now env) agent state limit (core_db s)) (\<lambda>rs. Inr (reply 200 (DeliveryRecords rs)))))"

definition claim_deliveries_handler where
  "claim_deliveries_handler env p agent inp =
     guarded (require_bound_agent p agent)
       (commits (on_core (claim_deliveries (rq_lease_token env) (rq_now env) agent inp)) (\<lambda>b. Inr (reply 200 (Claimed b))))"

definition acknowledge_delivery_handler where
  "acknowledge_delivery_handler env p agent message_id lease_token =
     guarded (require_bound_agent p agent)
       (commits (on_core (acknowledge_delivery (rq_now env) agent message_id lease_token)) (\<lambda>_. Inr (reply 204 NoContent)))"

definition retry_delivery_handler where
  "retry_delivery_handler env p agent message_id inp =
     guarded (require_bound_agent p agent)
       (commits (on_core (retry_delivery (rq_now env) agent message_id inp)) (\<lambda>_. Inr (reply 204 NoContent)))"

definition block_delivery_handler where
  "block_delivery_handler env p agent message_id inp =
     guarded (require_bound_agent p agent)
       (commits (on_core (block_delivery (rq_now env) agent message_id inp)) (\<lambda>(b, created).
         Inr (reply (if created then 201 else 200) (BlockedBody b))))"

definition list_delivery_blocks_handler where
  "list_delivery_blocks_handler p agent =
     guarded (require_operator p) (reads (\<lambda>s. Inr (reply 200 (BlockedDeliveries (list_blocked_deliveries agent (core_db s))))))"

definition resolve_delivery_block_handler where
  "resolve_delivery_block_handler env p block_id inp =
     guarded (require_operator p)
       (commits (on_core (resolve_delivery_block (rq_now env) block_id inp)) (\<lambda>_. Inr (reply 204 NoContent)))"

section \<open>Invocations (invocations.rs)\<close>

definition reserve_invocations_handler where
  "reserve_invocations_handler env p agent inp =
     guarded (require_bound_agent p agent)
       (commits (on_core (reserve_invocations (rq_lease_token env) (rq_uuids env) (rq_fences env) (rq_now env) agent inp))
         (\<lambda>is. Inr (reply 200 (Invocations is))))"

definition arm_invocation_handler where
  "arm_invocation_handler env p agent invocation_id inp =
     guarded (require_bound_agent p agent)
       (commits (on_core (arm_invocation (rq_now env) agent invocation_id inp)) (\<lambda>i. Inr (reply 200 (InvocationBody i))))"

definition complete_invocation_handler where
  "complete_invocation_handler env p agent invocation_id inp =
     guarded (require_bound_agent p agent)
       (commits (on_core (complete_invocation (rq_uuid env) (rq_msg_now env) (rq_now env) agent invocation_id inp))
         (\<lambda>(c, created).
           Inr \<lparr>reply_status = (if created then 201 else 200), reply_body = CompletionBody c,
                reply_wake = (if created then Some (completion_result c) else None)\<rparr>))"

definition list_invocations_handler where
  "list_invocations_handler p agent =
     guarded (require_operator p) (reads (\<lambda>s.
       and_then (list_invocations agent (core_db s)) (\<lambda>is. Inr (reply 200 (Invocations is)))))"

section \<open>Operations (operations.rs)\<close>

definition evidence_query_page :: "evidence_page_query \<Rightarrow> ((i64 \<times> string) option \<times> string option) result" where
  "evidence_query_page q =
     and_then (case (q_after_ms q, q_after_id q) of
         (Some at, Some i) \<Rightarrow> Inr (Some (at, i))
       | (None, None) \<Rightarrow> Inr None
       | _ \<Rightarrow> Inl (Invalid ''after_ms and after_id must be supplied together'')) (\<lambda>cursor.
     Inr (cursor, q_agent q))"

definition query_page :: "evidence_page_query \<Rightarrow> evidence_page result" where
  "query_page q =
     and_then (evidence_query_page q) (\<lambda>(cursor, agent).
     Inr \<lparr>ep_agent_id = agent, ep_after = cursor, ep_limit = q_limit q, ep_settled = q_settled q, ep_order = q_order q\<rparr>)"

definition trace_invocation_handler where
  "trace_invocation_handler env p invocation_id =
     guarded (require_operator p) (reads (\<lambda>s.
       and_then (invocation_trace (rq_now env) invocation_id (core_db s)) (\<lambda>t. Inr (reply 200 (TraceBody t)))))"

definition read_fleet_health_handler where
  "read_fleet_health_handler env p agent delivery_limit =
     guarded (require_operator p) (reads (\<lambda>s.
       and_then (fleet_health (rq_now env) (rq_msg_now env) agent delivery_limit (core_db s) (core_db s)
           (core_db (rq_seen env)) (core_db (rq_later env))) (\<lambda>h.
       Inr (reply 200 (HealthBody h)))))"

definition list_plugin_generations_handler where
  "list_plugin_generations_handler env p q =
     guarded (require_operator p) (reads (\<lambda>s.
       and_then (query_page q) (\<lambda>page.
       and_then (list_plugin_generations (rq_now env) page (core_db s)) (\<lambda>gs. Inr (reply 200 (Generations gs))))))"

definition list_invocation_observations_handler where
  "list_invocation_observations_handler p q =
     guarded (require_operator p) (reads (\<lambda>s.
       and_then (query_page q) (\<lambda>page.
       and_then (list_invocation_observations page (core_db s)) (\<lambda>xs. Inr (reply 200 (Observations xs))))))"

definition list_session_bindings_handler where
  "list_session_bindings_handler p agent =
     guarded (require_operator p) (reads (\<lambda>s.
       and_then (list_session_bindings agent (core_db s)) (\<lambda>bs. Inr (reply 200 (Bindings bs)))))"

definition list_agent_seats_handler where
  "list_agent_seats_handler env p agent =
     guarded (require_operator p) (reads (\<lambda>s.
       and_then (list_agent_seats (rq_msg_now env) (rq_now env) agent (core_db s)) (\<lambda>xs. Inr (reply 200 (Seats xs)))))"

section \<open>Triggers and seats (triggers.rs, seats.rs)\<close>

definition register_trigger_handler where
  "register_trigger_handler sha256 env p inp =
     guarded (require_operator p)
       (commits (register_trigger sha256 (rq_issue env) (rq_uuid env) inp) (\<lambda>t. Inr (reply 201 (RegisteredTrigger t))))"

definition list_triggers_handler where
  "list_triggers_handler p channel =
     guarded (require_operator p) (reads (\<lambda>s. and_then (list_triggers channel s) (\<lambda>ts. Inr (reply 200 (TriggerBodies ts)))))"

definition get_trigger_handler where
  "get_trigger_handler p tid =
     guarded (require_operator p) (reads (\<lambda>s. and_then (get_trigger tid s) (\<lambda>t. Inr (reply 200 (TriggerBody t)))))"

definition retire_trigger_handler where
  "retire_trigger_handler env p tid reason =
     guarded (require_operator p) (\<lambda>s.
       case retire_trigger (rq_now env) tid reason s of
         (r, s') \<Rightarrow> (and_then r (\<lambda>t. Inr (reply 200 (TriggerBody t))), s'))"

definition rotate_trigger_credential_handler where
  "rotate_trigger_credential_handler sha256 env p tid =
     guarded (require_operator p)
       (commits (rotate_trigger_credential sha256 (rq_issue env) tid (rq_seen env)) (\<lambda>c. Inr (reply 200 (IssuedBody c))))"

definition fire_trigger_handler where
  "fire_trigger_handler sha256 env p tid occ =
     guarded (require_bound_trigger p tid)
       (commits (fire sha256 (rq_uuid env) (rq_msg_now env) (rq_now env) tid occ) (\<lambda>f. Inr (reply 200 (Fired f))))"

definition list_agent_seat_configurations_handler where
  "list_agent_seat_configurations_handler p =
     guarded (require_operator p) (reads (\<lambda>s.
       and_then (list_seat_configurations s) (\<lambda>cs. Inr (reply 200 (Configurations cs)))))"

definition configure_agent_seat_handler where
  "configure_agent_seat_handler env p agent requested =
     guarded (require_operator p) (commits (configure (rq_now env) agent requested) (\<lambda>c. Inr (reply 200 (ConfigurationBody c))))"

definition restart_agent_seat_handler where
  "restart_agent_seat_handler env p agent =
     guarded (require_operator p) (commits (restart (rq_now env) agent) (\<lambda>c. Inr (reply 200 (ConfigurationBody c))))"

section \<open>The routes (lib.rs)\<close>

text \<open>One constructor per route behind the bearer layer, with its decoded path, query and body.\<close>

datatype api_request =
    CreateAgent create_agent_input | ListAgents | RotateAgentCredential string
  | CreateChannel create_channel_input | ListChannels | ListConversations bool
  | OpenDirectConversation "create_channel_member list" | RenameChannel string string | ArchiveChannel string
  | AddMember string string membership_delivery_mode | ListChannelMembers string
  | ListConversationAttention | AdvanceConversationRead string i64
  | AppendMessage string send_message_input | ListMessages string i64 u32
  | ListDeliveries "string option" "delivery_state option" u32 | ClaimDeliveries string claim_deliveries_input
  | AcknowledgeDelivery string string string | RetryDelivery string string retry_delivery_input
  | BlockDelivery string string block_delivery_input | ListDeliveryBlocks "string option"
  | ResolveDeliveryBlock i64 resolve_block_input
  | ReserveInvocations string claim_deliveries_input | ArmInvocation string string arm_invocation_input
  | CompleteInvocation string string complete_invocation_input | ListInvocations "string option"
  | TraceInvocation string | ReadFleetHealth "string option" u32
  | ListPluginGenerations evidence_page_query | ListInvocationObservations evidence_page_query
  | ListSessionBindings "string option" | ListAgentSeats "string option"
  | RegisterTrigger register_trigger_input | ListTriggers "string option" | GetTrigger string
  | RetireTrigger string string | RotateTriggerCredential string | FireTrigger string trigger_occurrence
  | ListSeatConfigurations | ConfigureSeat string configure_agent_seat | RestartSeat string

fun protected_contract :: "(string \<Rightarrow> string) \<Rightarrow> request_env \<Rightarrow> principal \<Rightarrow> api_request \<Rightarrow> handler" where
  "protected_contract sha256 env p (CreateAgent inp) = create_agent_handler sha256 env p inp"
| "protected_contract sha256 env p ListAgents = list_agents_operation p"
| "protected_contract sha256 env p (RotateAgentCredential a) = rotate_agent_credential_handler sha256 env p a"
| "protected_contract sha256 env p (CreateChannel inp) = create_channel_handler env p inp"
| "protected_contract sha256 env p ListChannels = list_channels_handler p"
| "protected_contract sha256 env p (ListConversations b) = list_conversations_handler env p b"
| "protected_contract sha256 env p (OpenDirectConversation ms) = open_direct_conversation_handler env p ms"
| "protected_contract sha256 env p (RenameChannel c n) = rename_channel_handler p c n"
| "protected_contract sha256 env p (ArchiveChannel c) = archive_channel_handler env p c"
| "protected_contract sha256 env p (AddMember c a m) = add_member_handler env p c a m"
| "protected_contract sha256 env p (ListChannelMembers c) = list_channel_members_handler p c"
| "protected_contract sha256 env p ListConversationAttention = list_conversation_attention_handler p"
| "protected_contract sha256 env p (AdvanceConversationRead c n) = advance_conversation_read_handler env p c n"
| "protected_contract sha256 env p (AppendMessage c m) = append_message_handler env p c m"
| "protected_contract sha256 env p (ListMessages c n l) = list_messages_handler p c n l"
| "protected_contract sha256 env p (ListDeliveries a st l) = list_deliveries_handler env p a st l"
| "protected_contract sha256 env p (ClaimDeliveries a inp) = claim_deliveries_handler env p a inp"
| "protected_contract sha256 env p (AcknowledgeDelivery a m t) = acknowledge_delivery_handler env p a m t"
| "protected_contract sha256 env p (RetryDelivery a m inp) = retry_delivery_handler env p a m inp"
| "protected_contract sha256 env p (BlockDelivery a m inp) = block_delivery_handler env p a m inp"
| "protected_contract sha256 env p (ListDeliveryBlocks a) = list_delivery_blocks_handler p a"
| "protected_contract sha256 env p (ResolveDeliveryBlock b inp) = resolve_delivery_block_handler env p b inp"
| "protected_contract sha256 env p (ReserveInvocations a inp) = reserve_invocations_handler env p a inp"
| "protected_contract sha256 env p (ArmInvocation a i inp) = arm_invocation_handler env p a i inp"
| "protected_contract sha256 env p (CompleteInvocation a i inp) = complete_invocation_handler env p a i inp"
| "protected_contract sha256 env p (ListInvocations a) = list_invocations_handler p a"
| "protected_contract sha256 env p (TraceInvocation i) = trace_invocation_handler env p i"
| "protected_contract sha256 env p (ReadFleetHealth a l) = read_fleet_health_handler env p a l"
| "protected_contract sha256 env p (ListPluginGenerations q) = list_plugin_generations_handler env p q"
| "protected_contract sha256 env p (ListInvocationObservations q) = list_invocation_observations_handler p q"
| "protected_contract sha256 env p (ListSessionBindings a) = list_session_bindings_handler p a"
| "protected_contract sha256 env p (ListAgentSeats a) = list_agent_seats_handler env p a"
| "protected_contract sha256 env p (RegisterTrigger inp) = register_trigger_handler sha256 env p inp"
| "protected_contract sha256 env p (ListTriggers c) = list_triggers_handler p c"
| "protected_contract sha256 env p (GetTrigger t) = get_trigger_handler p t"
| "protected_contract sha256 env p (RetireTrigger t r) = retire_trigger_handler env p t r"
| "protected_contract sha256 env p (RotateTriggerCredential t) = rotate_trigger_credential_handler sha256 env p t"
| "protected_contract sha256 env p (FireTrigger t occ) = fire_trigger_handler sha256 env p t occ"
| "protected_contract sha256 env p ListSeatConfigurations = list_agent_seat_configurations_handler p"
| "protected_contract sha256 env p (ConfigureSeat a c) = configure_agent_seat_handler env p a c"
| "protected_contract sha256 env p (RestartSeat a) = restart_agent_seat_handler env p a"

text \<open>The bearer layer.  \<open>header\<close> is the Authorization header, when there is one and it is text.\<close>

fun split_once :: "char \<Rightarrow> string \<Rightarrow> (string \<times> string) option" where
  "split_once c [] = None"
| "split_once c (x # xs) =
     (if x = c then Some ([], xs) else map_option (\<lambda>(a, b). (x # a, b)) (split_once c xs))"

definition ascii_lower :: "char \<Rightarrow> char" where
  "ascii_lower c = (if 65 \<le> (of_char c :: nat) \<and> (of_char c :: nat) \<le> 90 then char_of ((of_char c :: nat) + 32) else c)"

fun has_white_space :: "string \<Rightarrow> bool" where
  "has_white_space [] = False"
| "has_white_space (c # cs) = (white_space_bytes (map of_char (c # cs)) \<noteq> 0 \<or> has_white_space cs)"

definition parse_bearer_token :: "string \<Rightarrow> string option" where
  "parse_bearer_token header =
     (case split_once (CHR '' '') header of
        None \<Rightarrow> None
      | Some (scheme, token) \<Rightarrow>
          if map ascii_lower scheme \<noteq> ''bearer'' \<or> token = [] \<or> has_white_space token then None else Some token)"

definition bearer_layer :: "(string \<Rightarrow> string) \<Rightarrow> string option \<Rightarrow> control_db \<Rightarrow> principal result" where
  "bearer_layer sha256 header s =
     and_then (ok_or header Unauthorized) (\<lambda>header.
     and_then (ok_or (parse_bearer_token header) Unauthorized) (\<lambda>token.
     authenticate sha256 token s))"

text \<open>\<open>seen\<close> is the database the layer reads; the handler runs later, on \<open>s\<close>.\<close>

definition serve ::
  "(string \<Rightarrow> string) \<Rightarrow> request_env \<Rightarrow> string option \<Rightarrow> control_db \<Rightarrow> api_request \<Rightarrow> handler" where
  "serve sha256 env header seen request s =
     (case bearer_layer sha256 header seen of
        Inl e \<Rightarrow> (Inl e, s)
      | Inr p \<Rightarrow> protected_contract sha256 env p request s)"

end
