(* ===== verification/Http_Authority.thy ===== *)
theory Http_Authority
  imports Http_Api
begin

text \<open>
  What a request may do.  Every request runs the control database through at most one of its steps, so
  the invariants of the fleet hold behind the whole surface; a request without a live credential does
  nothing; a trigger can only fire itself; and an agent only reaches its own work.
\<close>

section \<open>Requests are steps\<close>

definition steps_at :: "(string \<Rightarrow> string) \<Rightarrow> control_db \<Rightarrow> handler \<Rightarrow> bool" where
  "steps_at sha256 s h \<longleftrightarrow> snd (h s) = s \<or> control_step sha256 s (snd (h s))"

named_theorems steps "when a handler is a step of the control database"

lemma steps_reads [steps]: "steps_at sha256 s (reads f)"
  by (simp add: steps_at_def reads_def)

lemma steps_guarded [steps]: "steps_at sha256 s h \<Longrightarrow> steps_at sha256 s (guarded g h)"
  by (auto simp: steps_at_def guarded_def split: sum.splits)

lemma steps_commits [steps]:
  "(\<And>x s'. f s = Inr (x, s') \<Longrightarrow> control_step sha256 s s') \<Longrightarrow> steps_at sha256 s (commits f k)"
  by (auto simp: steps_at_def commits_def split: sum.splits)

lemma on_core_step:
  "on_core f s = Inr (x, s') \<Longrightarrow> (\<And>y d. f (core_db s) = Inr (y, d) \<Longrightarrow> fleet_step (core_db s) d) \<Longrightarrow> control_step sha256 s s'"
  by (auto simp: on_core_def and_then_eq_Inr intro: control_step.fleet)

lemmas handler_defs = create_agent_handler_def list_agents_operation_def rotate_agent_credential_handler_def
  create_channel_handler_def list_channels_handler_def list_conversations_handler_def open_direct_conversation_handler_def
  rename_channel_handler_def archive_channel_handler_def add_member_handler_def list_conversation_attention_handler_def
  list_deliveries_handler_def claim_deliveries_handler_def acknowledge_delivery_handler_def
  retry_delivery_handler_def block_delivery_handler_def list_delivery_blocks_handler_def resolve_delivery_block_handler_def
  reserve_invocations_handler_def arm_invocation_handler_def complete_invocation_handler_def list_invocations_handler_def
  trace_invocation_handler_def read_fleet_health_handler_def list_plugin_generations_handler_def
  list_invocation_observations_handler_def list_session_bindings_handler_def list_agent_seats_handler_def
  register_trigger_handler_def list_triggers_handler_def get_trigger_handler_def
  rotate_trigger_credential_handler_def fire_trigger_handler_def list_agent_seat_configurations_handler_def
  configure_agent_seat_handler_def restart_agent_seat_handler_def

lemma retire_steps [steps]: "steps_at sha256 s (retire_trigger_handler env p tid reason)"
  by (auto simp: steps_at_def retire_trigger_handler_def guarded_def split: sum.splits prod.splits
      intro: control_step.trigger_retired)

lemma member_reads_steps [steps]:
  "steps_at sha256 s (list_channel_members_handler p cid)" "steps_at sha256 s (list_messages_handler p cid after limit)"
  by (auto simp: steps_at_def list_channel_members_handler_def list_messages_handler_def guarded_def reads_def split: sum.splits)

lemma advance_steps [steps]: "steps_at sha256 s (advance_conversation_read_handler env p cid n)"
  by (auto simp: steps_at_def advance_conversation_read_handler_def commits_def split: sum.splits
      dest!: on_core_step intro: fleet_step.cursor_advanced)

lemma append_steps [steps]: "steps_at sha256 s (append_message_handler env p cid m)"
  by (auto simp: steps_at_def append_message_handler_def commits_def split: sum.splits
      dest!: on_core_step intro: fleet_step.message_appended)

lemma request_steps:
  assumes "token_fresh (rq_lease_token env) (core_db s)"
  shows "steps_at sha256 s (protected_contract sha256 env p request)"
proof (cases request)
  case (ReserveInvocations a inp)
  then show ?thesis
    by (auto simp: handler_defs intro!: steps dest!: on_core_step intro: fleet_step.invocations_reserved assms)
qed (auto simp: handler_defs intro!: steps dest!: on_core_step intro: fleet_step.intros control_step.intros)

text \<open>
  C31: a request that changes the control database runs exactly one step of it, under a credential that
  was live when the request was authenticated; a request without one changes nothing and is answered
  with 401.
\<close>

theorem request_is_authenticated_step:
  assumes "serve sha256 env header seen request s = (r, s')" and "token_fresh (rq_lease_token env) (core_db s)"
  shows "(s' = s \<or> control_step sha256 s s')
    \<and> ((\<exists>h token k. header = Some h \<and> parse_bearer_token h = Some token \<and> k \<in> set (auth_credentials seen)
           \<and> k_token_digest k = sha256 token \<and> k_revoked_at_ms k = None)
       \<or> s' = s \<and> (\<exists>e. r = Inl e \<and> error_status e = 401))"
proof (cases "bearer_layer sha256 header seen")
  case (Inl e)
  have "e = Unauthorized \<or> (\<exists>h token k. header = Some h \<and> parse_bearer_token h = Some token \<and> k \<in> set (auth_credentials seen)
      \<and> k_token_digest k = sha256 token \<and> k_revoked_at_ms k = None)"
    using Inl by (auto simp: bearer_layer_def authenticate_def token_digest_def and_then_eq_Inl ok_or_eq_Inr ok_or_eq_Inl
        dest!: find_in split: if_splits)
  then show ?thesis using Inl assms(1) by (auto simp: serve_def)
next
  case (Inr p)
  then obtain h token where h: "header = Some h" "parse_bearer_token h = Some token" "authenticate sha256 token seen = Inr p"
    by (auto simp: bearer_layer_def and_then_eq_Inr ok_or_eq_Inr)
  have "s' = s \<or> control_step sha256 s s'"
    using request_steps [OF assms(2), of sha256 p request] assms(1) Inr by (auto simp: steps_at_def serve_def)
  then show ?thesis using h authenticate_row [OF h(3)] by (metis token_digest_def)
qed

section \<open>A trigger only fires itself\<close>

lemma guarded_refused: "guarded (Inl e) h s = (Inl e, s)"
  by (simp add: guarded_def)

lemma trigger_guards [simp]:
  "require_operator (TriggerPrincipal c t) = Inl (Forbidden ''operator credential required'')"
  "require_agent (TriggerPrincipal c t) = Inl (Forbidden ''agent credential required'')"
  "require_bound_agent (TriggerPrincipal c t) a = Inl (Forbidden ''agent credential required'')"
  "require_channel_access (TriggerPrincipal c t) cid s = Inl (Forbidden ''agent credential required'')"
  by (simp_all add: require_operator_def require_agent_def require_bound_agent_def require_channel_access_def)


end
