(* ===== verification/Confinement.thy ===== *)
theory Confinement
  imports Http_Authority
begin

text \<open>
  What an operation of one agent leaves alone.  \<open>confined a d d'\<close> relates the core tables before and after:
  the directory is the same, every row that belongs to another agent is the same, every new message is
  \<open>a\<close>'s own, and all another agent may find is new pending work that those messages brought it.
\<close>

definition of_others :: "('r \<Rightarrow> string) \<Rightarrow> string \<Rightarrow> 'r list \<Rightarrow> 'r list" where
  "of_others agent a rs = filter (\<lambda>r. agent r \<noteq> a) rs"

definition confined :: "string \<Rightarrow> db \<Rightarrow> db \<Rightarrow> bool" where
  "confined a d d' \<longleftrightarrow>
     agents d' = agents d \<and> channels d' = channels d
     \<and> of_others cm_agent_id a (channel_members d') = of_others cm_agent_id a (channel_members d)
     \<and> (\<exists>ms. messages d' = messages d @ ms \<and> (\<forall>m\<in>set ms. m_sender_id m = a))
     \<and> messages_sequence d \<le> messages_sequence d'
     \<and> (\<exists>new. of_others d_agent_id a (agent_deliveries d') = of_others d_agent_id a (agent_deliveries d) @ new
          \<and> (\<forall>r\<in>set new. d_state r = Pending \<and> d_message_seq r > messages_sequence d))
     \<and> of_others i_agent_id a (invocations d') = of_others i_agent_id a (invocations d)
     \<and> of_others b_agent_id a (delivery_blocks d') = of_others b_agent_id a (delivery_blocks d)"

lemma confined_refl [simp]: "confined a d d"
  by (simp add: confined_def)

lemma confined_trans:
  assumes "confined a d d'" and "confined a d' d''"
  shows "confined a d d''"
proof -
  from assms obtain ms ms' new new' where
    "messages d' = messages d @ ms" "messages d'' = messages d' @ ms'" "\<forall>m\<in>set ms. m_sender_id m = a" "\<forall>m\<in>set ms'. m_sender_id m = a"
    "of_others d_agent_id a (agent_deliveries d') = of_others d_agent_id a (agent_deliveries d) @ new"
    "of_others d_agent_id a (agent_deliveries d'') = of_others d_agent_id a (agent_deliveries d') @ new'"
    "\<forall>r\<in>set new. d_state r = Pending \<and> d_message_seq r > messages_sequence d"
    "\<forall>r\<in>set new'. d_state r = Pending \<and> d_message_seq r > messages_sequence d'"
    unfolding confined_def by blast
  then have "messages d'' = messages d @ ms @ ms' \<and> (\<forall>m\<in>set (ms @ ms'). m_sender_id m = a)"
    "of_others d_agent_id a (agent_deliveries d'') = of_others d_agent_id a (agent_deliveries d) @ new @ new'
      \<and> (\<forall>r\<in>set (new @ new'). d_state r = Pending \<and> d_message_seq r > messages_sequence d)"
    using assms by (auto simp: confined_def)
  then show ?thesis using assms unfolding confined_def by auto
qed

lemma confined_same: "same_core d d' \<Longrightarrow> confined a d d'"
  by (auto simp: same_core_def confined_def)

section \<open>One statement at a time\<close>

lemma of_others_update:
  assumes "\<And>r. r \<in> set rs \<Longrightarrow> P r \<Longrightarrow> agent r = a" and "\<And>r. agent (f r) = agent r"
  shows "of_others agent a (update_where P f rs) = of_others agent a rs"
  using assms by (induction rs) (auto simp: of_others_def update_where_def)

lemma confined_deliveries:
  assumes "\<And>r. r \<in> set (agent_deliveries d) \<Longrightarrow> P r \<Longrightarrow> d_agent_id r = a" and "\<And>r. d_agent_id (f r) = d_agent_id r"
  shows "confined a d (d\<lparr>agent_deliveries := update_where P f (agent_deliveries d)\<rparr>)"
  using of_others_update [of "agent_deliveries d" P d_agent_id a f] assms by (simp add: confined_def)

lemma confined_invocations:
  assumes "\<And>i. i \<in> set (invocations d) \<Longrightarrow> P i \<Longrightarrow> i_agent_id i = a" and "\<And>i. i_agent_id (f i) = i_agent_id i"
  shows "confined a d (d\<lparr>invocations := update_where P f (invocations d)\<rparr>)"
  using of_others_update [of "invocations d" P i_agent_id a f] assms by (simp add: confined_def)

lemma confined_insert_block:
  assumes "insert_block_row mk d = Inr (n, d')" and "\<And>n. b_agent_id (mk n) = a"
  shows "confined a d d'"
  using assms by (auto simp: insert_block_row_def Let_def confined_def of_others_def split: if_splits)

lemma confined_insert_invocation:
  assumes "insert_invocation_row i d = Inr d'" and "i_agent_id i = a"
  shows "confined a d d'"
  using assms by (auto simp: insert_invocation_row_def confined_def of_others_def split: if_splits)

lemma confined_insert_message:
  assumes "insert_message uuid now cid inp d = Inr (m, d')" and "new_sender_id inp = a"
  shows "confined a d d'"
  using assms(2) unfolding insert_message_store [OF assms(1)]
  by (auto simp: confined_def of_others_def appended_row_def new_delivery_row_def)

lemma confined_leased:
  assumes "leased_row_update lr f d = (moved, d')" and "lr_agent_id lr = a" and "\<And>r. d_agent_id (f r) = d_agent_id r"
  shows "confined a d d'"
  using assms confined_deliveries [of d "leased_row_matches lr d" a f]
  by (auto simp: leased_row_update_def leased_row_matches_def)

lemma row_agents [simp]:
  "d_agent_id (acknowledge_row t n r) = d_agent_id r" "d_agent_id (retry_row inp at r) = d_agent_id r"
  "d_agent_id (blocked_row t reason r) = d_agent_id r" "d_agent_id (lease_row t e r) = d_agent_id r"
  by (simp_all add: acknowledge_row_def retry_row_def blocked_row_def lease_row_def)

lemma confined_marks:
  "mark_acknowledged a mid token now d = (moved, d') \<Longrightarrow> confined a d d'"
  "mark_retry a mid rd at now d = (moved, d') \<Longrightarrow> confined a d d'"
  "mark_blocked a mid bd now d = (moved, d') \<Longrightarrow> confined a d d'"
  "block_expired_lease a seq token reason now d = (moved, d') \<Longrightarrow> confined a d d'"
  "acknowledge_leased_seq a seq token now d = (moved, d') \<Longrightarrow> confined a d d'"
  by (auto simp: mark_acknowledged_def mark_retry_def mark_blocked_def block_expired_lease_def acknowledge_leased_seq_def
      intro: confined_leased)

lemma confined_terminalize:
  "terminalize_invocation a mid token c reason now d = Inr d' \<Longrightarrow> confined a d d'"
  by (drule terminalize_invocation_Inr) (auto simp: terminalize_predicate_def terminal_row_def intro!: confined_invocations)

lemma confined_lease: "confined a d (lease_claimable a token expires now limit kinds d)"
  unfolding lease_claimable_def Let_def
  by (rule confined_deliveries)
    (auto simp: leasable_rows_def claimable_def delivery_key_def dest!: in_set_takeD)

section \<open>Recovery of one agent\<close>

definition owners :: "db \<Rightarrow> (string \<times> string) list" where
  "owners d = map (\<lambda>i. (i_id i, i_agent_id i)) (invocations d)"

lemma owners_update: "(\<And>i. i_id (f i) = i_id i \<and> i_agent_id (f i) = i_agent_id i) \<Longrightarrow>
    owners (d\<lparr>invocations := update_where P f (invocations d)\<rparr>) = owners d"
  by (simp add: owners_def update_where_def)

lemma owners_mem: "j \<in> set (invocations d) \<Longrightarrow> (i_id j, i_agent_id j) \<in> set (owners d)"
  by (auto simp: owners_def)

lemma park_confined:
  assumes ok: "park_expired_armed_invocation a now (i, r) d = Inr d'"
    and own: "\<And>b. (i_id i, b) \<in> set (owners d) \<Longrightarrow> b = a"
  shows "confined a d d' \<and> owners d' = owners d"
proof -
  let ?P = "\<lambda>j. i_id j = i_id i \<and> i_state j = DispatchArmed" and ?f = "terminal_row now OutcomeUnknown ''lease_expired_after_dispatch_armed''"
  obtain reason d1 d2 where d1: "block_expired_lease a (i_message_seq i) (i_lease_token i) reason now d = (True, d1)"
    and d2: "record_block (i_message_seq i) a (d_attempt r) (i_lease_token i) reason now d1 = Inr d2"
    and d3: "mark_expired_session_turn_uncertain (i_id i) reason now (d2\<lparr>invocations := update_where ?P ?f (invocations d2)\<rparr>) = Inr d'"
    using ok by (auto simp: park_expired_armed_invocation_def and_then_eq_Inr Let_def split: prod.splits if_splits)
  let ?d3 = "d2\<lparr>invocations := update_where ?P ?f (invocations d2)\<rparr>"
  have inv1: "invocations d1 = invocations d" using d1 by (auto simp: block_expired_lease_def leased_row_update_def)
  obtain n where ins: "insert_block_row (new_block_row (i_message_seq i) a (d_attempt r) (i_lease_token i) reason now) d1 = Inr (n, d2)"
    using d2 by (auto simp: record_block_def and_then_eq_Inr)
  have inv2: "invocations d2 = invocations d" using ins inv1 by (auto simp: insert_block_row_def Let_def split: if_splits)
  have "same_core ?d3 d'" using mark_expired_only [OF d3] by (simp add: session_only_def)
  then have c4: "confined a ?d3 d'" and o4: "owners d' = owners ?d3" by (auto simp: confined_same owners_def same_core_def)
  have "i_agent_id j = a" if "j \<in> set (invocations d2)" "?P j" for j
    using own owners_mem [of j d] that inv2 by auto
  then have c3: "confined a d2 ?d3" by (intro confined_invocations) (auto simp: terminal_row_def)
  have c2: "confined a d1 d2" using confined_insert_block [OF ins] by (simp add: new_block_row_def)
  have "owners ?d3 = owners d" by (subst owners_update) (simp_all add: terminal_row_def owners_def inv2)
  with c4 o4 show ?thesis
    using confined_trans [OF confined_trans [OF confined_trans [OF confined_marks(4) [OF d1] c2] c3] c4] by simp
qed

lemma recover_confined:
  assumes core: "core_inv d" and ok: "recover_expired_invocations_transaction a now d = Inr (n, d')"
  shows "confined a d d'"
proof -
  obtain k d1 where d1: "terminalize_expired_reservations a now d = (k, d1)" by (rule prod.exhaust)
  have c1: "confined a d d1 \<and> owners d1 = owners d"
    using d1 by (auto simp: terminalize_expired_reservations_def Let_def terminal_row_def intro!: confined_invocations owners_update)
  have unique: "unique_on i_id (invocations d)" using core_invD(5) [OF core] by (simp add: invocations_inv_def)
  have own: "b = a" if "(i, r) \<in> set (expired_armed a now d1)" "(i_id i, b) \<in> set (owners d)" for i r b
  proof -
    have "i \<in> set (invocations d1)" "i_agent_id i = a" using that(1) by (auto simp: expired_armed_def)
    then have "(i_id i, a) \<in> set (owners d)" using c1 owners_mem [of i d1] by auto
    then show ?thesis using that(2) unique_onD [OF unique] by (fastforce simp: owners_def)
  qed
  have "(\<lambda>(k, e). confined a d e \<and> owners e = owners d) (n, d')"
  proof (rule try_fold_invariant [where P = "\<lambda>(k, e). confined a d e \<and> owners e = owners d"])
    show "try_fold (\<lambda>row (recovered, d). and_then (park_expired_armed_invocation a now row d) (\<lambda>d.
        Inr (saturating_add_u64 recovered 1, d))) (expired_armed a now d1) (k, d1) = Inr (n, d')"
      using ok by (simp add: recover_expired_invocations_transaction_def d1)
    show "case (k, d1) of (k, e) \<Rightarrow> confined a d e \<and> owners e = owners d" using c1 by simp
  next
    fix row x y
    assume row: "row \<in> set (expired_armed a now d1)"
      and step: "(case x of (recovered, d) \<Rightarrow> and_then (park_expired_armed_invocation a now row d) (\<lambda>d.
        Inr (saturating_add_u64 recovered 1, d))) = Inr y"
      and inv: "case x of (k, e) \<Rightarrow> confined a d e \<and> owners e = owners d"
    obtain i r where ir: "row = (i, r)" by (rule prod.exhaust)
    obtain j e where x: "x = (j, e)" by (rule prod.exhaust)
    obtain e' where park: "park_expired_armed_invocation a now (i, r) e = Inr e'" and y: "snd y = e'"
      using step ir x by (auto simp: and_then_eq_Inr)
    have "confined a e e' \<and> owners e' = owners e"
      by (rule park_confined [OF park]) (use own row ir inv x in auto)
    then show "case y of (k, e) \<Rightarrow> confined a d e \<and> owners e = owners d"
      using inv x y confined_trans by (cases y) auto
  qed
  then show ?thesis by simp
qed

section \<open>The operations of an agent\<close>

lemma reserve_rows_confined:
  assumes "reserve_rows uuids fences rows a token expires now d = Inr (xs, d')"
  shows "confined a d d'"
proof -
  have "(\<lambda>(xs, e). confined a d e) (xs, d')"
    using assms unfolding reserve_rows_def
  proof (rule try_fold_invariant)
    fix x s t
    assume "(case x of (n, row) \<Rightarrow> \<lambda>(invs, d). and_then (reserve_row (uuids n) (fences n) row a token expires now d)
        (\<lambda>(inv, d). Inr (invs @ [inv], d))) s = Inr t" and inv: "case s of (xs, e) \<Rightarrow> confined a d e"
    then obtain i where "insert_invocation_row i (snd s) = Inr (snd t)" "i_agent_id i = a"
      by (auto simp: reserve_row_def Let_def and_then_eq_Inr reserved_row_def split: prod.splits)
    then show "case t of (xs, e) \<Rightarrow> confined a d e"
      using inv confined_trans confined_insert_invocation by (cases s; cases t) fastforce
  qed simp
  then show ?thesis by simp
qed

lemma complete_confined:
  assumes "complete_invocation_transaction uuid msg_now a iid ci now active d = Inr ((c, created), d')"
  shows "confined a d d'"
  using assms
proof (cases rule: complete_cases)
  case (completed i r m result d1 d2)
  have "confined a d d1" using confined_insert_message [OF completed(6)] by (simp add: result_input_def)
  moreover have "confined a d1 d2" by (rule confined_leased [OF completed(7)]) simp_all
  moreover have "confined a d2 d'" unfolding completed(8) by (rule confined_invocations) (simp_all add: completed_row_def)
  ultimately show ?thesis using confined_trans by blast
qed simp

lemma agent_operations_confined:
  assumes core: "core_inv d"
  shows "advance_member_read_cursor cid a seq d = Inr (v, d') \<Longrightarrow> confined a d d'"
    and "append_message_idempotent uuid now cid inp d = Inr (r, d') \<Longrightarrow> new_sender_id inp = a \<Longrightarrow> confined a d d'"
    and "claim_deliveries token now a cl d = Inr (batch, d') \<Longrightarrow> confined a d d'"
    and "acknowledge_delivery now a mid token d = Inr (u, d') \<Longrightarrow> confined a d d'"
    and "retry_delivery now a mid rd d = Inr (u, d') \<Longrightarrow> confined a d d'"
    and "block_delivery now a mid bd d = Inr (b, d') \<Longrightarrow> confined a d d'"
    and "reserve_invocations token uuids fences now a cl d = Inr (invs, d') \<Longrightarrow> confined a d d'"
    and "arm_invocation now a iid ai d = Inr (i, d') \<Longrightarrow> confined a d d'"
    and "complete_invocation uuid msg_now now a iid ci d = Inr (c, d') \<Longrightarrow> confined a d d'"
proof -
  show "confined a d d'" if "advance_member_read_cursor cid a seq d = Inr (v, d')"
    unfolding advance_member_read_cursor_effect(3) [OF that]
    by (simp add: confined_def) (rule of_others_update; simp)
  show "confined a d d'" if "append_message_idempotent uuid now cid inp d = Inr (r, d')" "new_sender_id inp = a"
    using that by (auto simp: append_message_idempotent_def elim!: append_message_cases intro: confined_insert_message)
  show "confined a d d'" if "claim_deliveries token now a cl d = Inr (batch, d')"
    using that by (auto simp: claim_deliveries_def and_then_eq_Inr Let_def
        intro: confined_trans [OF recover_confined [OF core] confined_lease])
  show "confined a d d'" if "acknowledge_delivery now a mid token d = Inr (u, d')"
    using that by (auto simp: acknowledge_delivery_def and_then_eq_Inr Let_def split: prod.splits if_splits
        intro: confined_trans [OF confined_marks(1) confined_terminalize])
  show "confined a d d'" if ok: "retry_delivery now a mid rd d = Inr (u, d')"
  proof -
    obtain at where "(let (moved, d1) = mark_retry a mid rd at now d in
        if moved then and_then (terminalize_invocation a mid (retry_lease_token rd) NotStarted ''retry'' now d1) (\<lambda>d. Inr ((), d))
        else and_then (settle_miss a mid (retry_lease_token rd) ''retry'' d) (\<lambda>_. Inr ((), d))) = Inr (u, d')"
      using ok by (auto simp: retry_delivery_def and_then_eq_Inr)
    then show ?thesis
      by (cases "mark_retry a mid rd at now d") (auto simp: and_then_eq_Inr split: if_splits
        intro: confined_trans [OF confined_marks(2) confined_terminalize])
  qed
  show "confined a d d'" if ok: "block_delivery now a mid bd d = Inr (b, d')"
  proof -
    obtain x created where "b = (x, created)" by (rule prod.exhaust)
    with ok have "block_delivery now a mid bd d = Inr ((x, created), d')" by simp
    with core show ?thesis
    proof (cases rule: block_delivery_cases)
      case (blocked d1 d2 n)
      have "confined a d1 d2"
        using blocked(2) by (rule insert_block_record_Inr) (auto simp: new_block_row_def intro: confined_insert_block)
      then show ?thesis
        using confined_trans [OF confined_leased [OF blocked(1)] confined_trans [OF _ confined_terminalize [OF blocked(3)]]]
        by simp
    qed simp
  qed
  show "confined a d d'" if "reserve_invocations token uuids fences now a cl d = Inr (invs, d')"
    using that by (auto simp: reserve_invocations_def reserve_invocations_filtered_def and_then_eq_Inr Let_def
        intro: confined_trans [OF recover_confined [OF core] confined_trans [OF confined_lease reserve_rows_confined]])
  show "confined a d d'" if "arm_invocation now a iid ai d = Inr (i, d')"
    using arm_invocation_effect [OF that [unfolded arm_invocation_def]]
    by (elim disjE ssubst) (auto simp: armed_row_def intro!: confined_invocations)
  show "confined a d d'" if "complete_invocation uuid msg_now now a iid ci d = Inr (c, d')"
    using that complete_confined by (cases c) (auto simp: complete_invocation_def)
qed

section \<open>The requests of an agent\<close>

definition confined_at :: "string \<Rightarrow> control_db \<Rightarrow> handler \<Rightarrow> bool" where
  "confined_at a s h \<longleftrightarrow> (let s' = snd (h s) in confined a (core_db s) (core_db s')
     \<and> s' = s\<lparr>core_db := core_db s'\<rparr>)"

lemma confined_refused [simp]: "confined_at a s (guarded (Inl e) h)"
  by (simp add: confined_at_def guarded_def)

lemma confined_reads: "confined_at a s (reads f)" "confined_at a s (guarded g (reads f))"
  by (simp_all add: confined_at_def reads_def guarded_def split: sum.splits)

lemma confined_commits:
  assumes "\<And>x d. f (core_db s) = Inr (x, d) \<Longrightarrow> confined a (core_db s) d"
  shows "confined_at a s (commits (on_core f) k)" "confined_at a s (guarded g (commits (on_core f) k))"
  using assms by (auto simp: confined_at_def commits_def on_core_def guarded_def and_then_def split: sum.splits)

lemma confined_bound:
  "(b = a \<Longrightarrow> confined_at a s h) \<Longrightarrow> confined_at a s (guarded (require_bound_agent (Agent c a) b) h)"
  by (auto simp: require_bound_agent_def require_agent_def confined_at_def guarded_def)

lemma agent_guards [simp]:
  "require_operator (Agent c a) = Inl (Forbidden ''operator credential required'')"
  "require_agent (Agent c a) = Inr a"
  "require_bound_trigger (Agent c a) t = Inl (Forbidden ''credential is bound to another trigger'')"
  by (simp_all add: require_operator_def require_agent_def require_bound_trigger_def)

lemma attributed_sender [simp]: "new_sender_id (attributed_to m a) = a"
  by (simp add: attributed_to_def)

lemma agent_request_confined:
  assumes "core_inv (core_db s)"
  shows "confined_at a s (protected_contract sha256 env (Agent c a) request)"
proof -
  note ops = agent_operations_confined [OF assms]
  show ?thesis
  proof (cases request)
    case (AdvanceConversationRead cid n)
    then show ?thesis
      using confined_commits(1) [of "advance_member_read_cursor cid a n" s a] ops(1)
      by (auto simp: confined_at_def advance_conversation_read_handler_def)
  next
    case (AppendMessage cid m)
    then show ?thesis
      using confined_commits(1) [of "append_message_idempotent (rq_uuid env) (rq_now env) cid (attributed_to m a)" s a] ops(2)
      by (auto simp: confined_at_def append_message_handler_def)
  next
    case (ListChannelMembers cid)
    then show ?thesis
      by (auto simp: confined_at_def list_channel_members_handler_def guarded_def reads_def split: sum.splits)
  next
    case (ListMessages cid after limit)
    then show ?thesis
      by (auto simp: confined_at_def list_messages_handler_def guarded_def reads_def split: sum.splits)
  qed (auto simp: handler_defs retire_trigger_handler_def list_conversation_attention_handler_def
      intro!: confined_bound confined_commits(1) confined_reads dest: ops)
qed


end
