(* ===== verification/Surface_Example.thy ===== *)
theory Surface_Example
  imports Control_Example Witnesses Confinement
begin

text \<open>
  The concrete run behind the HTTP surface: the worker opens a stream before the operator's message is
  committed, a browser redeems a grant for the same stream, and requests are served.
\<close>

section \<open>Streams\<close>

text \<open>The worker holds a live credential; then the operator's task is committed.\<close>

definition ex_said :: control_db where
  "ex_said = ex_issued\<lparr>core_db := ex_sent\<rparr>"

definition ex_stream :: authorized_channel_stream where
  "ex_stream = \<lparr>stream_channel_id = ''c'', stream_after = 0, stream_credential_id = ''k1'', stream_principal = StreamAgent ''w''\<rparr>"

text \<open>The first read comes before the commit, every later one after it.\<close>

definition ex_world :: stream_env where
  "ex_world = \<lparr>env_db = (\<lambda>n. Some (if n = 0 then ex_issued else ex_said)), env_send = (\<lambda>n. True)\<rparr>"

lemma ex_said_step: "control_step ex_sha ex_issued ex_said"
proof -
  have "ex_sent \<noteq> ex_channels" by code_simp
  then have "fleet_step ex_channels ex_sent"
    using committed_step [OF ex_run(3)] by (auto intro: fleet_step.message_appended)
  moreover have "core_db ex_issued = ex_channels" by (simp add: ex_issued_def ex_control_def)
  ultimately show ?thesis unfolding ex_said_def using control_step.fleet [of ex_issued ex_sent ex_sha] by simp
qed

lemma ex_said_reachable: "control_reachable ex_sha ex_said"
  using ex_control_reachable(2) ex_said_step by (rule reachable.step)

lemma ex_reads: "reads_of ex_sha ex_world ex_said"
  using ex_control_reachable(2) ex_said_reachable ex_said_step by (auto simp: reads_of_def ex_world_def)


definition ex_waiting :: stream_run where
  "ex_waiting = \<lparr>run_now = 1, run_cursor = 0, run_frames = []\<rparr>"

definition ex_delivered :: stream_run where
  "ex_delivered = \<lparr>run_now = 3, run_cursor = 1, run_frames = [(2, RawMessage (message_from_row ex_task))]\<rparr>"

lemma ex_stream_pages:
  "list_messages ''c'' 0 REPLAY_PAGE_SIZE (core_db ex_issued) = Inr \<lparr>page_messages = [], page_next_cursor = 0\<rparr>"
  "list_messages ''c'' 0 REPLAY_PAGE_SIZE (core_db ex_said) = Inr \<lparr>page_messages = [message_from_row ex_task], page_next_cursor = 1\<rparr>"
  by code_simp+

lemma ex_stream_runs:
  "run_channel_stream ex_world Native ex_stream [] = Some (None, ex_waiting)"
  "run_channel_stream ex_world Native ex_stream [Wake (Committed (message_from_row ex_task))] = Some (None, ex_delivered)"
proof -
  have seq: "msg_seq (message_from_row ex_task) = 1" "msg_channel_id (message_from_row ex_task) = ''c''"
    by (simp_all add: message_from_row_def ex_task_def)
  note defs = run_channel_stream_def send_ready_def new_run_def ex_stream_def ex_world_def replay.simps ex_stream_pages
    tick_def ex_waiting_def ex_delivered_def handle_event_def send_message_def revalidate_def send_serialized_def
  show "run_channel_stream ex_world Native ex_stream [] = Some (None, ex_waiting)" by (simp add: defs)
  show "run_channel_stream ex_world Native ex_stream [Wake (Committed (message_from_row ex_task))] = Some (None, ex_delivered)"
    by (simp add: defs seq)
qed

theorem wake_delivers_committed_witness:
  "run_channel_stream ex_world Native ex_stream [] = Some (None, ex_waiting)
   \<and> run_channel_stream ex_world Native ex_stream [Wake (Committed (message_from_row ex_task))] = Some (None, ex_delivered)
   \<and> message_from_row ex_task \<in> set (sent_messages ex_delivered)"
proof -
  have "message_from_row ex_task \<in> set (channel_tail (stream_channel_id ex_stream) (stream_after ex_stream) (core_db ex_said))"
    by code_simp
  moreover have "env_db ex_world (run_now ex_waiting) = Some ex_said" by (simp add: ex_world_def ex_waiting_def)
  ultimately show ?thesis
    using wake_delivers_committed [OF ex_reads ex_stream_runs(1), of ex_said "message_from_row ex_task"
        "Wake (Committed (message_from_row ex_task))" ex_delivered] ex_stream_runs
    by simp
qed

definition ex_shown :: stream_run where
  "ex_shown = \<lparr>run_now = 5, run_cursor = 1,
     run_frames = [(0, ReadyFrame ''c'' 0), (3, MessageFrame (message_from_row ex_task)), (4, CloseFrame 4400 ''invalid_handshake'')]\<rparr>"

lemma ex_browser_run:
  "run_browser_channel_stream ex_world ex_stream [Incoming (TextMessage ''hi'')] = Some (Some InvalidClientMessage, ex_shown)"
proof -
  have seq: "msg_seq (message_from_row ex_task) = 1" by (simp add: message_from_row_def ex_task_def)
  have live: "revalidate_principal (Agent ''k1'' ''w'') ex_said = Inr True" by code_simp
  show ?thesis
    by (simp add: run_browser_channel_stream_def run_channel_stream_def send_ready_def new_run_def ex_stream_def ex_world_def
        replay.simps ex_stream_pages tick_def ex_shown_def handle_event_def send_message_def revalidate_def
        send_serialized_def issuing_principal_def BrowserStreamCursor_new_def finish_def live seq)
qed

theorem browser_message_revalidated_witness:
  "run_browser_channel_stream ex_world ex_stream [Incoming (TextMessage ''hi'')] = Some (Some InvalidClientMessage, ex_shown)
   \<and> (\<exists>s k. env_db ex_world 2 = Some s \<and> k \<in> set (auth_credentials s) \<and> k_id k = ''k1'' \<and> k_revoked_at_ms k = None)"
proof -
  have "(3, MessageFrame (message_from_row ex_task)) \<in> set (run_frames ex_shown)" "stream_credential_id ex_stream = ''k1''"
    by (simp_all add: ex_shown_def ex_stream_def)
  then show ?thesis using browser_message_revalidated [OF ex_browser_run, of 3 "message_from_row ex_task"] ex_browser_run by auto
qed

section \<open>Grants\<close>

definition ex_base64 :: "string \<Rightarrow> string" where
  "ex_base64 bytes = take 43 (bytes @ replicate 11 (CHR ''A''))"

definition ex_unbase64 :: "string \<Rightarrow> string option" where
  "ex_unbase64 text = Some (take 32 text)"

text \<open>A digest that tells the grants of the run apart.\<close>

definition ex_digest :: "string \<Rightarrow> string" where
  "ex_digest x = take 1 (drop 6 x)"

definition ex_draw :: "nat \<Rightarrow> entropy" where
  "ex_draw n = Inr (replicate 32 (CHR ''x''))"

definition ex_protocol :: string where "ex_protocol = ''v1''"

definition ex_limits :: broker_limits where
  "ex_limits = \<lparr>grant_lifetime = 15, limit_unused_per_credential = 2, limit_unused_total = 4,
     limit_active_per_credential = 1, limit_active_total = 2\<rparr>"

definition ex_grant :: string where
  "ex_grant = STREAM_GRANT_PREFIX @ replicate 32 (CHR ''x'') @ replicate 11 (CHR ''A'')"

definition ex_record :: grant_record where
  "ex_record = \<lparr>g_authorization = ex_stream, g_protocol = ex_protocol, g_expires_at = 115\<rparr>"

definition ex_granted :: broker_state where
  "ex_granted = \<lparr>unused = [(''x'', ex_record)], unused_by_credential = [''k1'' \<mapsto> 1],
     active_by_credential = Map.empty, active_total = 0\<rparr>"

definition ex_spent :: broker_state where
  "ex_spent = \<lparr>unused = [], unused_by_credential = Map.empty, active_by_credential = Map.empty, active_total = 0\<rparr>"

definition ex_streaming :: broker_state where
  "ex_streaming = ex_spent\<lparr>active_by_credential := [''k1'' \<mapsto> 1], active_total := 1\<rparr>"

lemma ex_grant_facts:
  "ex_digest ex_grant = ''x''" "STREAM_GRANT_PREFIX @ ex_base64 (replicate 32 (CHR ''x'')) = ex_grant"
  "grant_digest ex_digest ex_unbase64 ex_grant = Some ''x''" "length ex_protocol = 2" "stream_after ex_stream = 0"
  "stream_credential_id ex_stream = ''k1''" "issuing_principal ex_stream = Agent ''k1'' ''w''"
  by code_simp+

lemma ex_issue_run:
  "issue ex_limits ex_base64 ex_digest ex_draw 100 ex_stream ex_protocol new_broker
     = Some (Inr \<lparr>grant_token = ex_grant, grant_token_lifetime = 15\<rparr>, ex_granted)"
proof -
  have "generate_unique_grant ex_base64 ex_digest ex_draw [] = Inr (ex_grant, ''x'')"
  proof -
    have four: "MAX_ENTROPY_ATTEMPTS = Suc 3" by (simp add: MAX_ENTROPY_ATTEMPTS_def)
    show ?thesis
      unfolding generate_unique_grant_def four draw_unique_grant.simps by (simp add: ex_draw_def Let_def ex_grant_facts(1,2))
  qed
  moreover have "ex_protocol \<noteq> []" by (simp add: ex_protocol_def)
  ultimately show ?thesis
    by (simp add: issue_def ex_grant_facts MAX_PROTOCOL_LENGTH_def prune_expired_def new_broker_def ex_limits_def
        increment_count_def ex_granted_def ex_record_def fun_eq_iff)
qed

lemma ex_redemption_run:
  "remove_grant ''x'' ex_granted = Some (Some ex_record, ex_spent)"
  "finish_redemption ex_limits 110 (Inr ex_said) ex_protocol ex_record ex_spent = (Inr (ex_stream, ''k1''), ex_streaming)"
  "redeem ex_limits ex_digest ex_unbase64 110 (Inr ex_said) id ex_grant ex_protocol ex_granted = Some (Inr (ex_stream, ''k1''), ex_streaming)"
proof -
  have live: "revalidate_principal (Agent ''k1'' ''w'') ex_said = Inr True" by code_simp
  have cred: "grant_credential ex_record = ''k1''" by code_simp
  show r: "remove_grant ''x'' ex_granted = Some (Some ex_record, ex_spent)"
    by (simp add: remove_grant_def ex_granted_def ex_spent_def cred decrement_count_def fun_eq_iff)
  have "g_expires_at ex_record = 115" "g_protocol ex_record = ex_protocol" "g_authorization ex_record = ex_stream"
    by (simp_all add: ex_record_def)
  then show f: "finish_redemption ex_limits 110 (Inr ex_said) ex_protocol ex_record ex_spent = (Inr (ex_stream, ''k1''), ex_streaming)"
    by (simp add: finish_redemption_def live cred ex_grant_facts reserve_active_def ex_spent_def ex_streaming_def ex_limits_def
        increment_count_def fun_eq_iff)
  show "redeem ex_limits ex_digest ex_unbase64 110 (Inr ex_said) id ex_grant ex_protocol ex_granted = Some (Inr (ex_stream, ''k1''), ex_streaming)"
    by (simp add: redeem_def ex_grant_facts r f)
qed

text \<open>The broker issues the grant, a redemption consumes it, and its stream opens.\<close>

lemma ex_broker_runs:
  "broker_run ex_limits ex_digest [Stream_Grants.Issued ''x''] \<lparr>broker = ex_granted, redeeming = [], slots = []\<rparr>"
  "broker_run ex_limits ex_digest [Stream_Grants.Issued ''x'', Consumed ''x'', Opened ''x'']
     \<lparr>broker = ex_streaming, redeeming = [], slots = [''k1'']\<rparr>"
proof -
  have "broker_step ex_limits ex_digest new_system (Stream_Grants.Issued ''x'') (new_system\<lparr>broker := ex_granted\<rparr>)"
    using broker_step.issued [of ex_limits ex_base64 ex_digest ex_draw 100 ex_stream ex_protocol new_system] ex_issue_run
    by (simp add: new_system_def ex_grant_facts)
  from broker_run.step [OF broker_run.start this]
  show one: "broker_run ex_limits ex_digest [Stream_Grants.Issued ''x''] \<lparr>broker = ex_granted, redeeming = [], slots = []\<rparr>"
    by (simp add: new_system_def)
  have "broker_step ex_limits ex_digest \<lparr>broker = ex_granted, redeeming = [], slots = []\<rparr> (Consumed ''x'')
      \<lparr>broker = ex_spent, redeeming = [(''x'', ex_record)], slots = []\<rparr>"
    using broker_step.consumed [OF ex_grant_facts(3), of "\<lparr>broker = ex_granted, redeeming = [], slots = []\<rparr>"] ex_redemption_run(1)
    by fastforce
  note two = broker_run.step [OF one this]
  have "broker_step ex_limits ex_digest \<lparr>broker = ex_spent, redeeming = [(''x'', ex_record)], slots = []\<rparr> (Opened ''x'')
      \<lparr>broker = ex_streaming, redeeming = [], slots = [''k1'']\<rparr>"
    using broker_step.opened [of "''x''" ex_record "\<lparr>broker = ex_spent, redeeming = [(''x'', ex_record)], slots = []\<rparr>"] ex_redemption_run(2)
    by fastforce
  from broker_run.step [OF two this]
  show "broker_run ex_limits ex_digest [Stream_Grants.Issued ''x'', Consumed ''x'', Opened ''x'']
     \<lparr>broker = ex_streaming, redeeming = [], slots = [''k1'']\<rparr>" by simp
qed

theorem broker_bounded_witness:
  "broker_run ex_limits ex_digest [Stream_Grants.Issued ''x'', Consumed ''x'', Opened ''x'']
     \<lparr>broker = ex_streaming, redeeming = [], slots = [''k1'']\<rparr>
   \<and> active_total ex_streaming = 1 \<and> count_list [''k1''] ''k1'' \<le> limit_active_per_credential ex_limits
   \<and> drop_slot ''k1'' ex_streaming \<noteq> None"
  using broker_bounded [OF ex_broker_runs(2), of "''k1''" ex_base64 ex_draw 120 ex_stream ex_protocol ex_unbase64
      "Inr ex_said" id ex_grant "''k1''"] ex_broker_runs(2)
  by (simp only: broker_system.simps list.set simp_thms insertI1) simp

theorem grant_used_once_witness:
  "broker_run ex_limits ex_digest [Stream_Grants.Issued ''x'', Consumed ''x'', Opened ''x'']
     \<lparr>broker = ex_streaming, redeeming = [], slots = [''k1'']\<rparr>
   \<and> count_list [Stream_Grants.Issued ''x'', Consumed ''x'', Opened ''x''] (Opened (ex_digest ex_grant))
      \<le> count_list [Stream_Grants.Issued ''x'', Consumed ''x'', Opened ''x''] (Stream_Grants.Issued (ex_digest ex_grant))"
  using grant_used_once [OF ex_broker_runs(2), of ex_grant] ex_broker_runs(2) by linarith

theorem redemption_exact_witness:
  "redeem ex_limits ex_digest ex_unbase64 110 (Inr ex_said) id ex_grant ex_protocol ex_granted = Some (Inr (ex_stream, ''k1''), ex_streaming)
   \<and> ''x'' \<notin> fst ` set (unused ex_streaming) \<and> active_total ex_streaming = active_total ex_granted + 1"
  using redemption_exact [OF ex_broker_runs(1), of ex_unbase64 110 "Inr ex_said" ex_grant ex_protocol "Inr (ex_stream, ''k1'')" ex_streaming]
    ex_redemption_run(3)
  by (auto simp: ex_grant_facts)

theorem revoked_credential_redeems_nothing_witness:
  "control_reachable ex_sha ex_rotated \<and> ex_credential\<lparr>k_revoked_at_ms := Some 60\<rparr> \<in> set (auth_credentials ex_rotated)
   \<and> (\<exists>e. finish_redemption ex_limits 110 (Inr ex_rotated) ex_protocol ex_record ex_spent = (Inl e, ex_spent))"
proof -
  have k: "ex_credential\<lparr>k_revoked_at_ms := Some 60\<rparr> \<in> set (auth_credentials ex_rotated)" by (simp add: ex_rotated_def)
  show ?thesis
    using revoked_credential_redeems_nothing [OF ex_control_reachable(3) k _ rtranclp.rtrancl_refl, of ex_record] k
      ex_control_reachable(3)
    by (simp add: ex_credential_def ex_record_def ex_stream_def)
qed

section \<open>Conversations and health\<close>

theorem conversation_list_is_summaries_witness:
  "channels_inv ex_sent \<and> (\<exists>x. conversation_list False ex_sent ex_sent = Inr [x] \<and> summary ''c'' ex_sent ex_sent = Inr x
     \<and> map member_agent_id (summary_members x) = [''o'', ''w''] \<and> summary_latest_message_seq x = Some 1)"
proof -
  note inv = core_invD(1) [OF ex_core(2)]
  have one: "map c_id (listed_channels False ex_sent) = [''c'']" by code_simp
  have "map_sum id (\<lambda>x. (map member_agent_id (summary_members x), summary_latest_message_seq x)) (summary ''c'' ex_sent ex_sent)
      = Inr ([''o'', ''w''], Some 1)" by code_simp
  then obtain x where x: "summary ''c'' ex_sent ex_sent = Inr x" "map member_agent_id (summary_members x) = [''o'', ''w'']"
    "summary_latest_message_seq x = Some 1" by (cases "summary ''c'' ex_sent ex_sent") auto
  have "map (\<lambda>c. summary (c_id c) ex_sent ex_sent) (listed_channels False ex_sent) = [Inr x]"
    using one x(1) by (cases "listed_channels False ex_sent") auto
  then show ?thesis using conversation_list_is_summaries [OF inv, of False] inv x by (auto simp: map_eq_Cons_conv)
qed

theorem new_message_is_unread_witness:
  "append_message_in_transaction ''m'' 5 ''c'' ex_message ex_channels = Inr (ex_appended, ex_sent)
   \<and> map_sum id attention_unread_count (attention_for ''w'' ''c'' ex_channels) = Inr 0
   \<and> map_sum id attention_unread_count (attention_for ''w'' ''c'' ex_sent) = Inr 1"
proof -
  have zero: "map_sum id attention_unread_count (attention_for ''w'' ''c'' ex_channels) = Inr 0" by code_simp
  have w: "ex_member ''w'' \<in> set (channel_members ex_channels)" "cm_agent_id (ex_member ''w'') = ''w''"
    "cm_channel_id (ex_member ''w'') = ''c''" "new_sender_id ex_message = ''o''" "appended_created ex_appended"
    by code_simp+
  from new_message_is_unread [OF core_invD(1) [OF ex_core(1)] core_invD(2) [OF ex_core(1)] ex_append w(5,1)] zero w ex_append
  show ?thesis by auto
qed

theorem reading_clears_attention_witness:
  "advance_member_read_cursor ''c'' ''w'' 1 ex_sent = Inr (1, ex_read)
   \<and> (\<exists>x. attention_for ''w'' ''c'' ex_read = Inr x \<and> attention_read_through_seq x = 1 \<and> attention_unread_count x = 0)"
proof -
  have ok: "advance_member_read_cursor ''c'' ''w'' 1 ex_sent = Inr (1, ex_read)" by code_simp
  have "channel_after ''c'' 1 ex_sent = []" by code_simp
  then show ?thesis
    using reading_clears_attention [OF core_invD(1) [OF ex_core(2)] core_invD(2) [OF ex_core(2)] ok] ok by auto
qed

definition ex_hosted_generation :: generation_row where
  "ex_hosted_generation = hd (plugin_generations ex_hosted)"

theorem health_is_current_witness:
  "plugin_generations ex_hosted = [ex_hosted_generation] \<and>
   (\<exists>h x. fleet_health 20 20 None 100 ex_hosted ex_hosted ex_hosted ex_hosted = Inr h
      \<and> x \<in> set (health_current_plugin_generations h) \<and> pg_agent_id x = ''w'' \<and> census_inspected (health_deliveries h) = 1)"
proof -
  have g: "plugin_generations ex_hosted = [ex_hosted_generation]" "g_agent_id ex_hosted_generation = ''w''" by code_simp+
  have "map_sum id (\<lambda>h. length (health_delivery_records h)) (fleet_health 20 20 None 100 ex_hosted ex_hosted ex_hosted ex_hosted) = Inr 1"
    by code_simp
  then obtain h where h: "fleet_health 20 20 None 100 ex_hosted ex_hosted ex_hosted ex_hosted = Inr h" "length (health_delivery_records h) = 1"
    by (cases "fleet_health 20 20 None 100 ex_hosted ex_hosted ex_hosted ex_hosted") auto
  show ?thesis using health_is_current [OF h(1), of ex_hosted_generation] g h by (auto simp: Let_def)
qed

section \<open>Requests\<close>

definition ex_env :: request_env where
  "ex_env = \<lparr>rq_now = 5, rq_msg_now = 5, rq_uuid = ''m'', rq_name_uuid = ''n'', rq_lease_token = ''t'',
     rq_uuids = (\<lambda>_. ''i''), rq_fences = (\<lambda>_. ''f''), rq_issue = Inr (ex_issue ''k9'' ''nine'' 5),
     rq_seen = ex_issued, rq_later = ex_issued\<rparr>"

definition ex_post :: send_message_input where
  "ex_post = \<lparr>send_idempotency_key = None, send_recipient_id = Some ''o'', send_kind = ''note'', send_payload = ''2'',
     send_correlation_id = None, send_causation_id = None\<rparr>"

definition ex_posted :: control_db where
  "ex_posted = snd (serve ex_sha ex_env (Some ''Bearer one'') ex_issued (AppendMessage ''c'' ex_post) ex_issued)"

theorem request_is_authenticated_step_witness:
  "token_fresh (rq_lease_token ex_env) (core_db ex_issued) \<and> ex_posted \<noteq> ex_issued \<and> control_step ex_sha ex_issued ex_posted
   \<and> fst (serve ex_sha ex_env (Some ''Bearer four'') ex_issued (AppendMessage ''c'' ex_post) ex_issued) = Inl Unauthorized"
proof -
  have fresh: "token_fresh (rq_lease_token ex_env) (core_db ex_issued)" by code_simp
  have new: "ex_posted \<noteq> ex_issued"
    "fst (serve ex_sha ex_env (Some ''Bearer four'') ex_issued (AppendMessage ''c'' ex_post) ex_issued) = Inl Unauthorized"
    by code_simp+
  show ?thesis
    using request_is_authenticated_step [OF prod.collapse [symmetric] fresh, of ex_sha "Some ''Bearer one''" ex_issued "AppendMessage ''c'' ex_post"]
      fresh new by (auto simp: ex_posted_def)
qed


end
