(* ===== verification/Browser_Edge.thy ===== *)
theory Browser_Edge
  imports Http_Api
begin

text \<open>
  The browser edge: who may open a channel stream from a browser, and how (\<open>browser_stream_edge.rs\<close> and
  \<open>streams.rs\<close> of \<open>crates/http/src\<close>).  A member asks for a grant over HTTP; the browser upgrades a
  socket under an exact origin, redeems the grant in its first frame, and gets the stream it was issued
  for.

  Sockets, the JSON of a frame and the text of a header value are parameters.  The slots of sockets that
  have not redeemed anything yet are a counting semaphore.  \<open>None\<close> is a panic, and, where a socket is
  served, also a stream that never comes back.
\<close>

section \<open>Addresses and origins\<close>

definition BROWSER_STREAM_PROTOCOL :: string where "BROWSER_STREAM_PROTOCOL = ''fleetd.channel-stream.browser.v1''"
definition BROWSER_STREAM_PATH :: string where "BROWSER_STREAM_PATH = ''/v1/browser/channel-stream''"
definition MAX_REDEMPTION_FRAME_BYTES :: nat where "MAX_REDEMPTION_FRAME_BYTES = 1024"
definition MAX_PRE_AUTHENTICATION_SOCKETS_PER_DAEMON :: nat where "MAX_PRE_AUTHENTICATION_SOCKETS_PER_DAEMON = 64"

datatype browser_stream_protocol = ProtocolV1

fun browser_stream_protocol_as_str :: "browser_stream_protocol \<Rightarrow> string" where
  "browser_stream_protocol_as_str ProtocolV1 = BROWSER_STREAM_PROTOCOL"

datatype browser_stream_path = ChannelStreamPath

fun browser_stream_path_as_str :: "browser_stream_path \<Rightarrow> string" where
  "browser_stream_path_as_str ChannelStreamPath = BROWSER_STREAM_PATH"

text \<open>Addresses of the standard library, with their \<open>Display\<close>: the octets of one, the segments of the other.\<close>

datatype ip_addr = IpV4 "8 word" "8 word" "8 word" "8 word" | IpV6 "16 word list"

fun is_loopback :: "ip_addr \<Rightarrow> bool" where
  "is_loopback (IpV4 a b c d) \<longleftrightarrow> a = 127"
| "is_loopback (IpV6 segments) \<longleftrightarrow> segments = [0, 0, 0, 0, 0, 0, 0, 1]"

definition ipv4_display :: "8 word \<Rightarrow> 8 word \<Rightarrow> 8 word \<Rightarrow> 8 word \<Rightarrow> string" where
  "ipv4_display a b c d =
     show_nat (unat a) @ ''.'' @ show_nat (unat b) @ ''.'' @ show_nat (unat c) @ ''.'' @ show_nat (unat d)"

fun show_hex :: "nat \<Rightarrow> string" where
  "show_hex n = (if n < 16 then [hex_digit (int n)] else show_hex (n div 16) @ [hex_digit (int (n mod 16))])"

declare show_hex.simps [simp del]

fun fmt_subslice :: "16 word list \<Rightarrow> string" where
  "fmt_subslice [] = []"
| "fmt_subslice (s # segments) = show_hex (unat s) @ concat (map (\<lambda>t. '':'' @ show_hex (unat t)) segments)"

text \<open>The first longest run of zero segments: its start and its length.\<close>

fun longest_zeroes :: "nat \<Rightarrow> nat \<times> nat \<Rightarrow> nat \<times> nat \<Rightarrow> 16 word list \<Rightarrow> nat \<times> nat" where
  "longest_zeroes i longest current [] = longest"
| "longest_zeroes i longest current (s # segments) =
     (if s = 0 then
        (let current = (if snd current = 0 then i else fst current, snd current + 1) in
         longest_zeroes (i + 1) (if snd current > snd longest then current else longest) current segments)
      else longest_zeroes (i + 1) longest (0, 0) segments)"

definition ipv6_display :: "16 word list \<Rightarrow> string" where
  "ipv6_display segments =
     (if take 6 segments = [0, 0, 0, 0, 0, 0xFFFF] \<and> length segments = 8
      then (let a = segments ! 6; b = segments ! 7 in
            ''::ffff:'' @ ipv4_display (ucast (drop_bit 8 a)) (ucast a) (ucast (drop_bit 8 b)) (ucast b))
      else
        (let (start, len) = longest_zeroes 0 (0, 0) (0, 0) segments in
         if len > 1 then fmt_subslice (take start segments) @ ''::'' @ fmt_subslice (drop (start + len) segments)
         else fmt_subslice segments))"

fun format_ip_literal :: "ip_addr \<Rightarrow> string" where
  "format_ip_literal (IpV4 a b c d) = ipv4_display a b c d"
| "format_ip_literal (IpV6 segments) = ''['' @ ipv6_display segments @ '']''"

record socket_addr =
  addr_ip :: ip_addr
  addr_port :: "16 word"

datatype browser_origin_scheme = HttpScheme

fun scheme_as_str :: "browser_origin_scheme \<Rightarrow> string" where
  "scheme_as_str HttpScheme = ''http''"

fun scheme_default_port :: "browser_origin_scheme \<Rightarrow> 16 word" where
  "scheme_default_port HttpScheme = 80"

record browser_upgrade_policy =
  policy_origin :: string
  policy_authority :: string

datatype browser_upgrade_policy_error =
    NonLoopbackListenAddress | ZeroListenPort
  | MissingOrigin | MultipleOriginHeaders | InvalidOriginHeader | NullOrigin | OriginMismatch
  | MissingHost | MultipleHostHeaders | InvalidHostHeader | HostMismatch
  | MissingBrowserStreamSubprotocol | MultipleBrowserStreamSubprotocolHeaders
  | InvalidBrowserStreamSubprotocolHeader | BrowserStreamSubprotocolMismatch

definition from_listen_address ::
  "browser_origin_scheme \<Rightarrow> socket_addr \<Rightarrow> browser_upgrade_policy_error + browser_upgrade_policy" where
  "from_listen_address scheme listen_address =
     (if \<not> is_loopback (addr_ip listen_address) then Inl NonLoopbackListenAddress
      else if addr_port listen_address = 0 then Inl ZeroListenPort
      else
        let host = format_ip_literal (addr_ip listen_address);
            authority = (if addr_port listen_address = scheme_default_port scheme then host
              else host @ '':'' @ show_nat (unat (addr_port listen_address))) in
        Inr \<lparr>policy_origin = scheme_as_str scheme @ ''://'' @ authority, policy_authority = authority\<rparr>)"

text \<open>A header map is the list of its entries; names are in lower case.  \<open>to_str\<close> reads a value as text.\<close>

definition exactly_one_text_header ::
  "(string \<Rightarrow> string option) \<Rightarrow> (string \<times> string) list \<Rightarrow> string \<Rightarrow> 'e \<Rightarrow> 'e \<Rightarrow> 'e \<Rightarrow> 'e + string" where
  "exactly_one_text_header to_str headers name missing multiple invalid =
     (case filter (\<lambda>(n, _). n = name) headers of
        [] \<Rightarrow> Inl missing
      | (_, value) # rest \<Rightarrow> if rest \<noteq> [] then Inl multiple else ok_or (to_str value) invalid)"

definition validate_upgrade_headers ::
  "(string \<Rightarrow> string option) \<Rightarrow> browser_upgrade_policy \<Rightarrow> (string \<times> string) list
    \<Rightarrow> browser_upgrade_policy_error + unit" where
  "validate_upgrade_headers to_str policy headers =
     and_then (exactly_one_text_header to_str headers ''origin'' MissingOrigin MultipleOriginHeaders InvalidOriginHeader)
       (\<lambda>origin.
     if origin = ''null'' then Inl NullOrigin
     else if origin \<noteq> policy_origin policy then Inl OriginMismatch
     else
       and_then (exactly_one_text_header to_str headers ''host'' MissingHost MultipleHostHeaders InvalidHostHeader) (\<lambda>host.
       if host \<noteq> policy_authority policy then Inl HostMismatch
       else
         and_then (exactly_one_text_header to_str headers ''sec-websocket-protocol'' MissingBrowserStreamSubprotocol
           MultipleBrowserStreamSubprotocolHeaders InvalidBrowserStreamSubprotocolHeader) (\<lambda>subprotocol.
         if subprotocol \<noteq> BROWSER_STREAM_PROTOCOL then Inl BrowserStreamSubprotocolMismatch else Inr ())))"

section \<open>The edge\<close>

record browser_stream_edge =
  upgrade_policy :: browser_upgrade_policy
  pre_authentication_slots :: nat

definition for_http_listener :: "socket_addr \<Rightarrow> browser_upgrade_policy_error + browser_stream_edge" where
  "for_http_listener listen_address =
     and_then (from_listen_address HttpScheme listen_address) (\<lambda>policy.
     Inr \<lparr>upgrade_policy = policy, pre_authentication_slots = MAX_PRE_AUTHENTICATION_SOCKETS_PER_DAEMON\<rparr>)"

definition try_acquire_pre_authentication_slot :: "browser_stream_edge \<Rightarrow> browser_stream_edge option" where
  "try_acquire_pre_authentication_slot edge =
     (case pre_authentication_slots edge of
        0 \<Rightarrow> None
      | Suc n \<Rightarrow> Some (edge\<lparr>pre_authentication_slots := n\<rparr>))"

definition release_pre_authentication_slot :: "browser_stream_edge \<Rightarrow> browser_stream_edge" where
  "release_pre_authentication_slot edge =
     edge\<lparr>pre_authentication_slots := Suc (pre_authentication_slots edge)\<rparr>"

datatype upgrade_reply = UpgradeRefused nat string | SwitchingProtocols

definition browser_channel_stream ::
  "(string \<Rightarrow> string option) \<Rightarrow> broker_limits \<Rightarrow> broker_state \<Rightarrow> (string \<times> string) list \<Rightarrow> browser_stream_edge option
    \<Rightarrow> upgrade_reply \<times> browser_stream_edge option" where
  "browser_channel_stream to_str limits b headers configured =
     (case configured of
        None \<Rightarrow> (UpgradeRefused 503 ''browser stream edge is not configured'', None)
      | Some edge \<Rightarrow>
          if validate_upgrade_headers to_str (upgrade_policy edge) headers \<noteq> Inr ()
          then (UpgradeRefused 403 ''browser stream upgrade rejected'', Some edge)
          else if \<not> has_global_active_capacity limits b
          then (UpgradeRefused 503 ''browser stream capacity exhausted'', Some edge)
          else
            (case try_acquire_pre_authentication_slot edge of
               None \<Rightarrow> (UpgradeRefused 503 ''browser stream capacity exhausted'', Some edge)
             | Some edge \<Rightarrow> (SwitchingProtocols, Some edge)))"

section \<open>Issuing a grant\<close>

text \<open>\<open>BrowserStreamGrant::parse\<close>: one exact, canonically encoded token.\<close>

definition validate_grant_shape ::
  "(string \<Rightarrow> string) \<Rightarrow> (string \<Rightarrow> string option) \<Rightarrow> string \<Rightarrow> unit option" where
  "validate_grant_shape base64 unbase64 grant =
     (if \<not> starts_with grant STREAM_GRANT_PREFIX then None
      else
        let encoded = drop (length STREAM_GRANT_PREFIX) grant in
        if length encoded \<noteq> STREAM_GRANT_ENCODED_LENGTH then None
        else
          (case unbase64 encoded of
             None \<Rightarrow> None
           | Some decoded \<Rightarrow>
               if length decoded \<noteq> STREAM_GRANT_ENTROPY_BYTES \<or> base64 decoded \<noteq> encoded then None else Some ()))"

definition parse_grant ::
  "(string \<Rightarrow> string) \<Rightarrow> (string \<Rightarrow> string option) \<Rightarrow> string \<Rightarrow> string option" where
  "parse_grant base64 unbase64 grant = Option.bind (validate_grant_shape base64 unbase64 grant) (\<lambda>_. Some grant)"

record grant_issue_request =
  gir_after :: i64
  gir_protocol :: browser_stream_protocol

record grant_issue_response =
  gis_grant :: string
  gis_expires_at_ms :: i64
  gis_websocket_path :: browser_stream_path
  gis_protocol :: browser_stream_protocol

fun map_stream_grant_issue_error :: "broker_error \<Rightarrow> fleet_error" where
  "map_stream_grant_issue_error Capacity = ResourceExhausted ''browser stream grant capacity''"
| "map_stream_grant_issue_error InvalidScope = Invalid ''invalid browser stream grant scope''"
| "map_stream_grant_issue_error Rejected = Invalid ''invalid browser stream grant scope''"
| "map_stream_grant_issue_error Entropy = Credential ''browser stream grant issuance failed''"
| "map_stream_grant_issue_error (Revalidation e) = Credential ''browser stream grant issuance failed''"

definition saturating_add_i64 :: "i64 \<Rightarrow> i64 \<Rightarrow> i64" where
  "saturating_add_i64 a b = max (- i64_max - 1) (min i64_max (a + b))"

text \<open>What the edge takes from outside: the libraries, the limits, entropy, clocks.\<close>

record edge_env =
  ee_limits :: broker_limits
  ee_base64 :: "string \<Rightarrow> string"
  ee_unbase64 :: "string \<Rightarrow> string option"
  ee_sha256 :: "string \<Rightarrow> string"
  ee_draw :: "nat \<Rightarrow> entropy"
  ee_instant :: int
  ee_now :: i64

text \<open>The access check and the read of the log each see a store of their own.\<close>

definition issue_browser_stream_grant ::
  "edge_env \<Rightarrow> principal \<Rightarrow> string \<Rightarrow> grant_issue_request \<Rightarrow> control_db \<Rightarrow> control_db \<Rightarrow> broker_state
    \<Rightarrow> (grant_issue_response result \<times> broker_state) option" where
  "issue_browser_stream_grant env p cid inp s s' b =
     (case and_then (require_channel_access p cid s) (\<lambda>_.
           and_then (list_messages cid (gir_after inp) 1 (core_db s')) (\<lambda>_.
           from_principal cid (gir_after inp) p)) of
        Inl e \<Rightarrow> Some (Inl e, b)
      | Inr authorization \<Rightarrow>
          (case issue (ee_limits env) (ee_base64 env) (ee_sha256 env) (ee_draw env) (ee_instant env) authorization
                  (browser_stream_protocol_as_str (gir_protocol inp)) b of
             None \<Rightarrow> None
           | Some (Inl e, b) \<Rightarrow> Some (Inl (map_stream_grant_issue_error e), b)
           | Some (Inr issued, b) \<Rightarrow>
               (case parse_grant (ee_base64 env) (ee_unbase64 env) (grant_token issued) of
                  None \<Rightarrow> Some (Inl (Credential ''generated stream grant was invalid''), b)
                | Some grant \<Rightarrow>
                    let lifetime_ms = (if grant_token_lifetime issued \<le> i64_max then grant_token_lifetime issued else i64_max) in
                    Some (Inr \<lparr>gis_grant = grant, gis_expires_at_ms = saturating_add_i64 (ee_now env) lifetime_ms,
                      gis_websocket_path = ChannelStreamPath, gis_protocol = ProtocolV1\<rparr>, b))))"

section \<open>Redeeming it\<close>

datatype redemption_frame_error = Oversized | InvalidFrame

text \<open>\<open>decode\<close> is serde's reading of the closed request shape, up to the grant in it.\<close>

definition parse_text_frame ::
  "(string \<Rightarrow> string option) \<Rightarrow> (string \<Rightarrow> string) \<Rightarrow> (string \<Rightarrow> string option) \<Rightarrow> string
    \<Rightarrow> redemption_frame_error + string" where
  "parse_text_frame decode base64 unbase64 text_frame =
     (if length text_frame > MAX_REDEMPTION_FRAME_BYTES then Inl Oversized
      else ok_or (Option.bind (decode text_frame) (parse_grant base64 unbase64)) InvalidFrame)"

text \<open>What the socket receives before the deadline of the first frame, or that it passed.\<close>

datatype first_frame = DeadlinePassed | Received incoming

datatype handshake = Handshaken string | Refused nat string | Waiting

fun first_redemption ::
  "(string \<Rightarrow> redemption_frame_error + string) \<Rightarrow> first_frame list \<Rightarrow> handshake" where
  "first_redemption parse [] = Waiting"
| "first_redemption parse (DeadlinePassed # fs) = Refused 4408 ''grant_timeout''"
| "first_redemption parse (Received Ping # fs) = first_redemption parse fs"
| "first_redemption parse (Received Pong # fs) = first_redemption parse fs"
| "first_redemption parse (Received (TextMessage t) # fs) =
     (case parse t of Inr grant \<Rightarrow> Handshaken grant | Inl _ \<Rightarrow> Refused 4400 ''invalid_handshake'')"
| "first_redemption parse (Received Ended # fs) = Refused 4400 ''invalid_handshake''"
| "first_redemption parse (Received TransportError # fs) = Refused 4400 ''invalid_handshake''"
| "first_redemption parse (Received CloseMessage # fs) = Refused 4400 ''invalid_handshake''"
| "first_redemption parse (Received (BinaryMessage t) # fs) = Refused 4400 ''invalid_handshake''"

fun access_close :: "fleet_error \<Rightarrow> nat \<times> string" where
  "access_close (Database e) = (1011, ''internal_error'')"
| "access_close Migration = (1011, ''internal_error'')"
| "access_close Serialization = (1011, ''internal_error'')"
| "access_close (Credential m) = (1011, ''internal_error'')"
| "access_close Io = (1011, ''internal_error'')"
| "access_close e = (4401, ''grant_rejected'')"

fun cursor_close :: "fleet_error \<Rightarrow> nat \<times> string" where
  "cursor_close (NotFound e i) = (4401, ''grant_rejected'')"
| "cursor_close (Invalid m) = (4401, ''grant_rejected'')"
| "cursor_close e = (1011, ''internal_error'')"

fun redeem_close :: "broker_error \<Rightarrow> nat \<times> string" where
  "redeem_close (Revalidation e) = (1011, ''internal_error'')"
| "redeem_close e = (4401, ''grant_rejected'')"

text \<open>
  One socket after its upgrade: what it receives, the stores its reads see (or why they fail), what other
  tasks do to the broker while it waits, and the stream's own environment.
\<close>

record socket_env =
  so_received :: "first_frame list"
  so_decode :: "string \<Rightarrow> string option"
  so_revalidated :: "control_db result"
  so_access :: "control_db result"
  so_cursor :: "control_db result"
  so_meanwhile :: "broker_state \<Rightarrow> broker_state"
  so_later :: "broker_state \<Rightarrow> broker_state"
  so_close_sent :: bool
  so_stream :: stream_env
  so_events :: "stream_event list"

text \<open>The frames of the edge itself, and the stream once it was handed over.\<close>

record socket_run =
  sr_closed :: "stream_frame list"
  sr_stream :: "(stream_termination option \<times> stream_run) option"
  sr_broker :: broker_state
  sr_edge :: browser_stream_edge

definition close_browser_socket :: "socket_env \<Rightarrow> nat \<times> string \<Rightarrow> stream_frame list" where
  "close_browser_socket so = (\<lambda>(code, reason). if so_close_sent so then [CloseFrame code reason] else [])"

text \<open>Closing on the way: the pre-authentication slot is given back, and so is the active one if it is held.\<close>

definition closed_socket ::
  "socket_env \<Rightarrow> nat \<times> string \<Rightarrow> browser_stream_edge \<Rightarrow> broker_state \<Rightarrow> socket_run" where
  "closed_socket so why edge b =
     \<lparr>sr_closed = close_browser_socket so why, sr_stream = None, sr_broker = b,
      sr_edge = release_pre_authentication_slot edge\<rparr>"

definition authorize_redeemed ::
  "socket_env \<Rightarrow> authorized_channel_stream \<Rightarrow> (nat \<times> string) + unit" where
  "authorize_redeemed so a =
     (case and_then (so_access so) (require_channel_access (issuing_principal a) (stream_channel_id a)) of
        Inl e \<Rightarrow> Inl (access_close e)
      | Inr _ \<Rightarrow>
          (case and_then (so_cursor so) (\<lambda>s. list_messages (stream_channel_id a) (stream_after a) 1 (core_db s)) of
             Inl e \<Rightarrow> Inl (cursor_close e)
           | Inr _ \<Rightarrow> Inr ()))"

definition stream_redeemed ::
  "socket_env \<Rightarrow> authorized_channel_stream \<Rightarrow> string \<Rightarrow> browser_stream_edge \<Rightarrow> broker_state \<Rightarrow> socket_run option" where
  "stream_redeemed so a slot edge b =
     Option.bind (run_browser_channel_stream (so_stream so) a (so_events so)) (\<lambda>(ended, run).
     map_option (\<lambda>b. \<lparr>sr_closed = [], sr_stream = Some (ended, run), sr_broker = b,
         sr_edge = release_pre_authentication_slot edge\<rparr>)
       (case ended of None \<Rightarrow> Some b | Some _ \<Rightarrow> drop_slot slot (so_later so b)))"

definition redeem_browser_channel_stream ::
  "edge_env \<Rightarrow> socket_env \<Rightarrow> browser_stream_edge \<Rightarrow> broker_state \<Rightarrow> socket_run option" where
  "redeem_browser_channel_stream env so edge b =
     (case first_redemption (parse_text_frame (so_decode so) (ee_base64 env) (ee_unbase64 env)) (so_received so) of
        Waiting \<Rightarrow> Some \<lparr>sr_closed = [], sr_stream = None, sr_broker = b, sr_edge = edge\<rparr>
      | Refused code reason \<Rightarrow> Some (closed_socket so (code, reason) edge b)
      | Handshaken grant \<Rightarrow>
          Option.bind (redeem (ee_limits env) (ee_sha256 env) (ee_unbase64 env) (ee_instant env) (so_revalidated so)
              (so_meanwhile so) grant (browser_stream_protocol_as_str ProtocolV1) b) (\<lambda>(redeemed, b).
          case redeemed of
            Inl e \<Rightarrow> Some (closed_socket so (redeem_close e) edge b)
          | Inr (a, slot) \<Rightarrow>
              (case authorize_redeemed so a of
                 Inl why \<Rightarrow> map_option (closed_socket so why edge) (drop_slot slot (so_later so b))
               | Inr _ \<Rightarrow> stream_redeemed so a slot edge b)))"

section \<open>The native stream\<close>

text \<open>\<open>stream\<close>: the upgrade is granted with this authority, or refused.\<close>

definition open_native_stream ::
  "principal \<Rightarrow> string \<Rightarrow> i64 \<Rightarrow> control_db \<Rightarrow> control_db \<Rightarrow> authorized_channel_stream result" where
  "open_native_stream p cid after s s' =
     and_then (require_channel_access p cid s) (\<lambda>_.
     and_then (list_messages cid after 1 (core_db s')) (\<lambda>_.
     from_principal cid after p))"

end
