(* ===== verification/Browser_Session.thy ===== *)
theory Browser_Session
  imports Browser_Edge
begin

text \<open>
  What the browser edge guarantees: which upgrades it accepts, that a grant it issues opens the stream
  it was issued for, and that a socket is served nothing else.
\<close>

section \<open>Origins\<close>

lemma of_digit: "n < 10 \<Longrightarrow> (of_char (digit n) :: nat) = 48 + n"
  by (simp add: digit_def take_bit_nat_eq_self)

lemma digit_inj: "m < 10 \<Longrightarrow> n < 10 \<Longrightarrow> digit m = digit n \<Longrightarrow> m = n"
  using of_digit by (metis add_left_cancel)

lemma show_nat_inj: "show_nat m = show_nat n \<Longrightarrow> m = n"
proof (induction m arbitrary: n rule: less_induct)
  case (less m)
  show ?case
  proof (cases "m < 10"; cases "n < 10")
    assume "\<not> m < 10" "\<not> n < 10"
    then have "show_nat (m div 10) @ [digit (m mod 10)] = show_nat (n div 10) @ [digit (n mod 10)]"
      using less.prems by (simp add: show_nat.simps [of m] show_nat.simps [of n])
    then have "m div 10 = n div 10" "m mod 10 = n mod 10"
      using less.IH [of "m div 10" "n div 10"] \<open>\<not> m < 10\<close> digit_inj [of "m mod 10" "n mod 10"] by auto
    then show ?thesis by (metis div_mult_mod_eq)
  qed (use less.prems digit_inj in \<open>auto simp: show_nat.simps [of m] show_nat.simps [of n] append_eq_Cons_conv Cons_eq_append_conv\<close>)
qed

lemma digit_plain: "n < 10 \<Longrightarrow> digit n \<noteq> CHR ''.'' \<and> digit n \<noteq> CHR '':'' \<and> digit n \<noteq> CHR ''[''"
  by (auto simp: digit_def dest: arg_cong [where f = "of_char :: char \<Rightarrow> nat"])

lemma show_nat_plain [simp]:
  "CHR ''.'' \<notin> set (show_nat n)" "CHR '':'' \<notin> set (show_nat n)" "CHR ''['' \<notin> set (show_nat n)"
proof -
  have "CHR ''.'' \<notin> set (show_nat n) \<and> CHR '':'' \<notin> set (show_nat n) \<and> CHR ''['' \<notin> set (show_nat n)"
  proof (induction n rule: less_induct)
    case (less n)
    then show ?case using digit_plain [of n] digit_plain [of "n mod 10"] by (subst (1 2 3) show_nat.simps) auto
  qed
  then show "CHR ''.'' \<notin> set (show_nat n)" "CHR '':'' \<notin> set (show_nat n)" "CHR ''['' \<notin> set (show_nat n)" by blast+
qed

lemma separated: "c \<notin> set xs \<Longrightarrow> c \<notin> set xs' \<Longrightarrow> xs @ c # ys = xs' @ c # ys' \<longleftrightarrow> xs = xs' \<and> ys = ys'"
  by (induction xs arbitrary: xs') (case_tac xs'; auto)+

text \<open>An address is read back from its authority.\<close>

definition authority_of :: "socket_addr \<Rightarrow> string" where
  "authority_of addr = format_ip_literal (addr_ip addr)
     @ (if addr_port addr = 80 then [] else '':'' @ show_nat (unat (addr_port addr)))"

lemma from_listen_address_policy:
  "from_listen_address HttpScheme addr = Inr policy \<longleftrightarrow> is_loopback (addr_ip addr) \<and> addr_port addr \<noteq> 0
     \<and> policy = \<lparr>policy_origin = ''http://'' @ authority_of addr, policy_authority = authority_of addr\<rparr>"
  by (auto simp: from_listen_address_def authority_of_def Let_def)

lemma ipv6_loopback_display: "ipv6_display [0, 0, 0, 0, 0, 0, 0, 1] = ''::1''"
  by code_simp

lemma ipv4_display_inj:
  assumes "ipv4_display a b c d = ipv4_display a' b' c' d'"
  shows "a = a' \<and> b = b' \<and> c = c' \<and> d = d'"
proof -
  have "unat a = unat a' \<and> unat b = unat b' \<and> unat c = unat c' \<and> unat d = unat d'"
    using assms show_nat_inj by (simp add: ipv4_display_def separated)
  then show ?thesis by (simp add: word_unat_eq_iff)
qed

lemma ipv4_display_plain: "CHR '':'' \<notin> set (ipv4_display a b c d)" "CHR ''['' \<notin> set (ipv4_display a b c d)"
  by (simp_all add: ipv4_display_def)

lemma port_suffix_inj:
  assumes "CHR '':'' \<notin> set h" "CHR '':'' \<notin> set h'"
    and "h @ (if p = 80 then [] else '':'' @ show_nat (unat p)) = h' @ (if q = 80 then [] else '':'' @ show_nat (unat q))"
  shows "h = h' \<and> p = (q :: 16 word)"
proof -
  have "x \<noteq> h'' @ CHR '':'' # t" if "CHR '':'' \<notin> set x" for x h'' t using that by auto
  note absent = this [OF assms(1)] this [OF assms(2)]
  show ?thesis
  proof (cases "p = 80"; cases "q = 80")
    assume "p \<noteq> 80" "q \<noteq> 80"
    then have "h = h' \<and> show_nat (unat p) = show_nat (unat q)" using assms(3) separated [OF assms(1,2)] by simp
    then have "h = h' \<and> unat p = unat q" using show_nat_inj by blast
    then show ?thesis by (simp add: word_unat_eq_iff)
  qed (use assms(3) absent in \<open>auto dest: sym\<close>)
qed

lemma authority_inj:
  assumes "is_loopback (addr_ip x)" "is_loopback (addr_ip y)" "authority_of x = authority_of y"
  shows "x = y"
proof -
  have six: "p = q" if "''[::1]'' @ (if p = 80 then [] else '':'' @ show_nat (unat p))
      = ''[::1]'' @ (if q = 80 then [] else '':'' @ show_nat (unat q))" for p q :: "16 word"
  proof (cases "p = 80"; cases "q = 80")
    assume "p \<noteq> 80" "q \<noteq> 80"
    then have "show_nat (unat p) = show_nat (unat q)" using that by simp
    then have "unat p = unat q" by (rule show_nat_inj)
    then show ?thesis by (simp add: word_unat_eq_iff)
  qed (use that in auto)
  have apart: "ipv4_display a b c d @ s \<noteq> CHR ''['' # t" for a b c d s t
  proof -
    have "ipv4_display a b c d \<noteq> []" by (simp add: ipv4_display_def)
    then show ?thesis using ipv4_display_plain(2) [of a b c d] by (cases "ipv4_display a b c d") auto
  qed
  show ?thesis
  proof (cases "addr_ip x")
    case x: (IpV4 a b c d)
    show ?thesis
    proof (cases "addr_ip y")
      case (IpV4 a' b' c' d')
      then have same: "ipv4_display a b c d = ipv4_display a' b' c' d'" "addr_port x = addr_port y"
        using port_suffix_inj [OF ipv4_display_plain(1) ipv4_display_plain(1), of a b c d "addr_port x" a' b' c' d' "addr_port y"]
          assms(3) x by (simp_all add: authority_of_def)
      from ipv4_display_inj [OF this(1)] have "addr_ip x = addr_ip y" using x IpV4 by simp
      with same(2) show ?thesis by simp
    next
      case (IpV6 s)
      then show ?thesis using assms x apart [of a b c d] by (auto simp: authority_of_def)
    qed
  next
    case x: (IpV6 s)
    show ?thesis
    proof (cases "addr_ip y")
      case (IpV4 a b c d)
      then show ?thesis using assms x apart [of a b c d] by (auto simp: authority_of_def dest: sym)
    next
      case (IpV6 t)
      then have "addr_ip x = addr_ip y" using assms(1,2) x by simp
      moreover have "addr_port x = addr_port y"
        using assms x IpV6 by (intro six) (simp add: authority_of_def ipv6_loopback_display)
      ultimately show ?thesis by simp
    qed
  qed
qed

lemma one_header:
  "exactly_one_text_header to_str headers name e1 e2 e3 = Inr v \<longleftrightarrow>
     (\<exists>value. filter (\<lambda>(n, _). n = name) headers = [(name, value)] \<and> to_str value = Some v)"
proof (cases "filter (\<lambda>(n, _). n = name) headers")
  case (Cons entry rest)
  obtain n bytes where entry: "entry = (n, bytes)" by (rule prod.exhaust)
  have "entry \<in> set (filter (\<lambda>(n, _). n = name) headers)" using Cons by simp
  then have "n = name" using entry by simp
  then show ?thesis using Cons entry by (auto simp: exactly_one_text_header_def ok_or_def split: option.splits)
qed (simp add: exactly_one_text_header_def)

text \<open>
  C40: an upgrade is accepted for exactly one listener.  It needs exactly one Origin, one Host and one
  subprotocol header, each text and each the very value derived from the listen address; so what one
  listener accepts is refused by a listener at any other address or port.
\<close>

theorem upgrade_for_one_listener:
  assumes "from_listen_address HttpScheme addr = Inr policy"
  shows "(validate_upgrade_headers to_str policy headers = Inr () \<longleftrightarrow>
      (\<exists>a h p. filter (\<lambda>(n, _). n = ''origin'') headers = [(''origin'', a)] \<and> to_str a = Some (policy_origin policy)
        \<and> filter (\<lambda>(n, _). n = ''host'') headers = [(''host'', h)] \<and> to_str h = Some (policy_authority policy)
        \<and> filter (\<lambda>(n, _). n = ''sec-websocket-protocol'') headers = [(''sec-websocket-protocol'', p)]
        \<and> to_str p = Some BROWSER_STREAM_PROTOCOL))
    \<and> (\<forall>addr' policy'. from_listen_address HttpScheme addr' = Inr policy' \<longrightarrow> addr' \<noteq> addr
        \<longrightarrow> validate_upgrade_headers to_str policy headers = Inr ()
        \<longrightarrow> validate_upgrade_headers to_str policy' headers \<noteq> Inr ())"
proof -
  have accepts: "validate_upgrade_headers to_str q headers = Inr () \<longleftrightarrow>
      (\<exists>a h p. filter (\<lambda>(n, _). n = ''origin'') headers = [(''origin'', a)] \<and> to_str a = Some (policy_origin q)
        \<and> filter (\<lambda>(n, _). n = ''host'') headers = [(''host'', h)] \<and> to_str h = Some (policy_authority q)
        \<and> filter (\<lambda>(n, _). n = ''sec-websocket-protocol'') headers = [(''sec-websocket-protocol'', p)]
        \<and> to_str p = Some BROWSER_STREAM_PROTOCOL)"
    if q: "from_listen_address HttpScheme x = Inr q" for x q
  proof -
    have "policy_origin q \<noteq> ''null''" using q by (auto simp: from_listen_address_policy)
    then show ?thesis by (auto simp: validate_upgrade_headers_def and_then_eq_Inr one_header)
  qed
  have "addr' = addr" if q: "from_listen_address HttpScheme addr' = Inr policy'"
    and both: "validate_upgrade_headers to_str policy headers = Inr ()" "validate_upgrade_headers to_str policy' headers = Inr ()"
    for addr' policy'
  proof -
    have "policy_authority policy = policy_authority policy'"
      using both unfolding accepts [OF assms] accepts [OF q] by auto
    then show ?thesis using assms q by (intro authority_inj) (auto simp: from_listen_address_policy)
  qed
  with accepts [OF assms] show ?thesis by blast
qed

section \<open>From the grant to the stream\<close>

text \<open>What the edge relies on of base64: a token of the right length, read back.\<close>

definition encodes_grants :: "edge_env \<Rightarrow> bool" where
  "encodes_grants env \<longleftrightarrow>
     (\<forall>bytes. length bytes = STREAM_GRANT_ENTROPY_BYTES \<longrightarrow> length (ee_base64 env bytes) = STREAM_GRANT_ENCODED_LENGTH
        \<and> ee_unbase64 env (ee_base64 env bytes) = Some bytes)
     \<and> (\<forall>i bytes. ee_draw env i = Inr bytes \<longrightarrow> length bytes = STREAM_GRANT_ENTROPY_BYTES)"

lemma starts_with_append [simp]: "starts_with (p @ s) p"
  by (induction p) simp_all

lemma drawn_grant:
  "draw_unique_grant base64 sha256 draw gs i n = Inr (g, d) \<Longrightarrow>
     \<exists>k bytes. draw k = Inr bytes \<and> g = STREAM_GRANT_PREFIX @ base64 bytes"
  by (induction n arbitrary: i) (auto simp: Let_def split: sum.split_asm if_split_asm)

lemma generated_grant_parses:
  assumes "encodes_grants env" and "generate_unique_grant (ee_base64 env) (ee_sha256 env) (ee_draw env) gs = Inr (g, d)"
  shows "parse_grant (ee_base64 env) (ee_unbase64 env) g = Some g" "grant_digest (ee_sha256 env) (ee_unbase64 env) g = Some d"
proof -
  obtain k bytes where g: "ee_draw env k = Inr bytes" "g = STREAM_GRANT_PREFIX @ ee_base64 env bytes"
    using assms(2) drawn_grant unfolding generate_unique_grant_def by blast
  then show "parse_grant (ee_base64 env) (ee_unbase64 env) g = Some g"
    using assms(1) by (auto simp: parse_grant_def validate_grant_shape_def Let_def encodes_grants_def)
  have "d = ee_sha256 env g" using assms(2) draw_unique_grant_fresh unfolding generate_unique_grant_def by blast
  then show "grant_digest (ee_sha256 env) (ee_unbase64 env) g = Some d"
    using assms(1) g by (auto simp: grant_digest_def Let_def encodes_grants_def)
qed

lemma issue_adds:
  assumes "issue limits base64 sha256 draw now a protocol b = Some (Inr issued, b')"
  shows "\<exists>b0 d. generate_unique_grant base64 sha256 draw (unused b0) = Inr (grant_token issued, d)
    \<and> grant_token_lifetime issued = grant_lifetime limits
    \<and> b' = b0\<lparr>unused := (d, new_grant limits now a protocol) # unused b0,
        unused_by_credential := increment_count (unused_by_credential b0) (stream_credential_id a)\<rparr>"
  using assms
  by (auto simp: issue_def new_grant_def split: if_split_asm option.split_asm sum.split_asm prod.split_asm; blast)

lemma remove_issued:
  assumes "b' = b0\<lparr>unused := (d, r) # unused b0,
      unused_by_credential := increment_count (unused_by_credential b0) (grant_credential r)\<rparr>"
  shows "\<exists>b1. remove_grant d b' = Some (Some r, b1)"
  using assms by (auto simp: remove_grant_def decrement_count_def increment_count_def split: option.split)

lemma first_redemption_skips:
  "set ps \<subseteq> {Ping, Pong} \<Longrightarrow> first_redemption parse (map Received ps @ fs) = first_redemption parse fs"
  by (induction ps) auto

lemma from_principal_issues:
  assumes "from_principal cid after p = Inr a"
  shows "issuing_principal a = p" "stream_channel_id a = cid" "stream_after a = after" "stream_credential_id a = credential_id p"
  using assms by (auto simp: from_principal_def issuing_principal_def split: principal.split_asm)


section \<open>What a socket is served\<close>

definition refusals :: "(nat \<times> string) set" where
  "refusals = {(4408, ''grant_timeout''), (4400, ''invalid_handshake''), (4401, ''grant_rejected''), (1011, ''internal_error'')}"

lemma refusals_closed:
  "access_close e \<in> refusals" "cursor_close e \<in> refusals" "redeem_close x \<in> refusals"
  by (cases e; cases x; simp add: refusals_def)+

lemma first_redemption_refuses: "first_redemption parse fs = Refused code reason \<Longrightarrow> (code, reason) \<in> refusals"
  by (induction parse fs rule: first_redemption.induct) (auto simp: refusals_def split: sum.split_asm)

lemma authorize_refuses: "authorize_redeemed so a = Inl why \<Longrightarrow> why \<in> refusals"
  using refusals_closed by (auto simp: authorize_redeemed_def split: sum.split_asm)


end
