(* ===== verification/Browser_Example.thy ===== *)
theory Browser_Example
  imports Surface_Example Browser_Session
begin

text \<open>The browser edge on the concrete run: an upgrade, a grant, and the stream it opens.\<close>

section \<open>An upgrade\<close>

definition ex_listener :: "16 word \<Rightarrow> socket_addr" where
  "ex_listener port = \<lparr>addr_ip = IpV4 127 0 0 1, addr_port = port\<rparr>"

definition ex_headers :: "(string \<times> string) list" where
  "ex_headers = [(''host'', ''127.0.0.1:90''), (''origin'', ''http://127.0.0.1:90''),
     (''sec-websocket-protocol'', BROWSER_STREAM_PROTOCOL)]"

definition ex_policy_at :: "string \<Rightarrow> browser_upgrade_policy" where
  "ex_policy_at authority = \<lparr>policy_origin = ''http://'' @ authority, policy_authority = authority\<rparr>"

theorem upgrade_for_one_listener_witness:
  "from_listen_address HttpScheme (ex_listener 90) = Inr (ex_policy_at ''127.0.0.1:90'')
   \<and> from_listen_address HttpScheme (ex_listener 80) = Inr (ex_policy_at ''127.0.0.1'')
   \<and> validate_upgrade_headers Some (ex_policy_at ''127.0.0.1:90'') ex_headers = Inr ()
   \<and> validate_upgrade_headers Some (ex_policy_at ''127.0.0.1'') ex_headers \<noteq> Inr ()"
proof -
  have listen: "from_listen_address HttpScheme (ex_listener 90) = Inr (ex_policy_at ''127.0.0.1:90'')"
    "from_listen_address HttpScheme (ex_listener 80) = Inr (ex_policy_at ''127.0.0.1'')"
    "validate_upgrade_headers Some (ex_policy_at ''127.0.0.1:90'') ex_headers = Inr ()"
    by code_simp+
  have "ex_listener 80 \<noteq> ex_listener 90" by (simp add: ex_listener_def)
  with upgrade_for_one_listener [OF listen(1), of Some ex_headers] listen show ?thesis by blast
qed

section \<open>A grant and its stream\<close>

definition ex_edge :: edge_env where
  "ex_edge = \<lparr>ee_limits = ex_limits, ee_base64 = ex_base64, ee_unbase64 = ex_unbase64, ee_sha256 = ex_digest,
     ee_draw = ex_draw, ee_instant = 100, ee_now = 1000\<rparr>"

definition ex_request :: grant_issue_request where
  "ex_request = \<lparr>gir_after = 0, gir_protocol = ProtocolV1\<rparr>"

definition ex_response :: grant_issue_response where
  "ex_response = \<lparr>gis_grant = ex_grant, gis_expires_at_ms = 1015, gis_websocket_path = ChannelStreamPath,
     gis_protocol = ProtocolV1\<rparr>"

definition ex_held :: broker_state where
  "ex_held = ex_granted\<lparr>unused := [(''x'', ex_record\<lparr>g_protocol := BROWSER_STREAM_PROTOCOL\<rparr>)]\<rparr>"

text \<open>A ping, then the grant; while the credential is checked the others leave the broker empty.\<close>

definition ex_socket :: socket_env where
  "ex_socket = \<lparr>so_received = [Received Ping, Received (TextMessage ''t'')], so_decode = (\<lambda>_. Some ex_grant),
     so_revalidated = Inr ex_said, so_access = Inr ex_said, so_cursor = Inr ex_said, so_meanwhile = (\<lambda>_. ex_spent),
     so_later = (\<lambda>_. ex_streaming), so_close_sent = True, so_stream = ex_world,
     so_events = [Incoming (TextMessage ''hi'')]\<rparr>"

definition ex_free :: browser_stream_edge where
  "ex_free = \<lparr>upgrade_policy = ex_policy_at ''127.0.0.1:90'', pre_authentication_slots = 63\<rparr>"

lemma ex_encodes: "encodes_grants ex_edge"
  by (auto simp: encodes_grants_def ex_edge_def ex_base64_def ex_unbase64_def ex_draw_def STREAM_GRANT_ENTROPY_BYTES_def
      STREAM_GRANT_ENCODED_LENGTH_def)

lemma ex_access:
  "require_channel_access (Agent ''k1'' ''w'') ''c'' ex_said = Inr ()"
  "\<not> isl (list_messages ''c'' 0 1 (core_db ex_said))" "from_principal ''c'' 0 (Agent ''k1'' ''w'') = Inr ex_stream"
  "revalidate_principal (Agent ''k1'' ''w'') ex_said = Inr True"
  by code_simp+

lemma ex_grant_issued:
  "issue_browser_stream_grant ex_edge (Agent ''k1'' ''w'') ''c'' ex_request ex_said ex_said new_broker
     = Some (Inr ex_response, ex_held)"
proof -
  obtain page where page: "list_messages ''c'' 0 1 (core_db ex_said) = Inr page"
    using ex_access(2) by (cases "list_messages ''c'' 0 1 (core_db ex_said)") auto
  have gen: "generate_unique_grant ex_base64 ex_digest ex_draw [] = Inr (ex_grant, ''x'')"
  proof -
    have four: "MAX_ENTROPY_ATTEMPTS = Suc 3" by (simp add: MAX_ENTROPY_ATTEMPTS_def)
    show ?thesis
      unfolding generate_unique_grant_def four draw_unique_grant.simps by (simp add: ex_draw_def Let_def ex_grant_facts(1,2))
  qed
  have parsed: "parse_grant ex_base64 ex_unbase64 ex_grant = Some ex_grant"
    using generated_grant_parses(1) [OF ex_encodes, of "[]"] gen by (simp add: ex_edge_def)
  have "BROWSER_STREAM_PROTOCOL \<noteq> []" "length BROWSER_STREAM_PROTOCOL = 32" by (simp_all add: BROWSER_STREAM_PROTOCOL_def)
  then have "issue ex_limits ex_base64 ex_digest ex_draw 100 ex_stream BROWSER_STREAM_PROTOCOL new_broker
      = Some (Inr \<lparr>grant_token = ex_grant, grant_token_lifetime = 15\<rparr>, ex_held)"
    using gen by (simp add: issue_def ex_grant_facts MAX_PROTOCOL_LENGTH_def prune_expired_def new_broker_def ex_limits_def
        increment_count_def ex_granted_def ex_held_def ex_record_def fun_eq_iff)
  then show ?thesis
    by (simp add: issue_browser_stream_grant_def ex_edge_def ex_request_def ex_access(1,3) page parsed Let_def
        ex_response_def saturating_add_i64_def i64_max_def)
qed

lemma ex_socket_runs:
  "stream_redeemed ex_socket ex_stream ''k1'' ex_free x = Some \<lparr>sr_closed = [],
     sr_stream = Some (Some InvalidClientMessage, ex_shown), sr_broker = ex_spent,
     sr_edge = release_pre_authentication_slot ex_free\<rparr>"
proof -
  have "drop_slot ''k1'' ex_streaming = Some ex_spent"
    by (simp add: drop_slot_def ex_streaming_def ex_spent_def decrement_count_def fun_eq_iff)
  then show ?thesis by (simp add: stream_redeemed_def ex_socket_def ex_browser_run)
qed



end
