(* ===== verification/Json_Value.thy ===== *)
theory Json_Value
  imports Model
begin

text \<open>
  \<open>serde_json::Value\<close>, where the code looks inside one: the execution layer reads permission
  options and assistant content, and builds evidence and result payloads.  An object is a
  \<open>BTreeMap\<close>, that is, an association list in ascending key order.  Text is turned into values and
  back by another crate, so the encoder and the decoder are arguments of what uses them.
\<close>

section \<open>Values\<close>

datatype json_number = PosInt u64 | NegInt i64 | Float string

datatype json_value =
    JNull
  | JBool bool
  | JNumber json_number
  | JString string
  | JArray "json_value list"
  | JObject "(string \<times> json_value) list"

primrec object_insert :: "string \<Rightarrow> 'v \<Rightarrow> (string \<times> 'v) list \<Rightarrow> (string \<times> 'v) list" where
  "object_insert k v [] = [(k, v)]"
| "object_insert k v (e # m) =
     (if k = fst e then (k, v) # m else if k < fst e then (k, v) # e # m else e # object_insert k v m)"

text \<open>The object literal of \<open>json!\<close>.\<close>

definition json_object :: "(string \<times> json_value) list \<Rightarrow> json_value" where
  "json_object entries = JObject (fold (\<lambda>(k, v). object_insert k v) entries [])"

fun json_get :: "json_value \<Rightarrow> string \<Rightarrow> json_value option" where
  "json_get (JObject m) k = map_of m k"
| "json_get _ k = None"

fun as_str :: "json_value \<Rightarrow> string option" where
  "as_str (JString s) = Some s"
| "as_str _ = None"

fun as_u64 :: "json_value \<Rightarrow> u64 option" where
  "as_u64 (JNumber (PosInt n)) = Some n"
| "as_u64 _ = None"

fun as_i64_value :: "json_value \<Rightarrow> i64 option" where
  "as_i64_value (JNumber (PosInt n)) = i64_try_from n"
| "as_i64_value (JNumber (NegInt i)) = Some i"
| "as_i64_value _ = None"

text \<open>\<open>Map::insert\<close> through \<open>as_object_mut\<close>; \<open>None\<close> is the panic of the \<open>expect\<close> that follows.\<close>

fun json_insert :: "json_value \<Rightarrow> string \<Rightarrow> json_value \<Rightarrow> json_value option" where
  "json_insert (JObject m) k v = Some (JObject (object_insert k v m))"
| "json_insert _ k v = None"

definition json_u64 :: "u64 \<Rightarrow> json_value" where
  "json_u64 n = JNumber (PosInt n)"

definition json_i64 :: "i64 \<Rightarrow> json_value" where
  "json_i64 i = JNumber (if i < 0 then NegInt i else PosInt (word_of_int i))"

definition json_opt :: "('a \<Rightarrow> json_value) \<Rightarrow> 'a option \<Rightarrow> json_value" where
  "json_opt f v = (case v of None \<Rightarrow> JNull | Some x \<Rightarrow> f x)"

section \<open>Reading what was built\<close>

lemma map_of_object_insert [simp]: "map_of (object_insert k v m) = (map_of m)(k \<mapsto> v)"
  by (induction m) auto

lemma map_of_object_fold:
  "map_of (fold (\<lambda>(k, v). object_insert k v) entries m) = map_of m ++ map_of (rev entries)"
  by (induction entries arbitrary: m) (auto simp: fun_eq_iff map_add_def split: option.splits)

text \<open>A literal reads back as its last entry for the key.\<close>

lemma json_get_object [simp]: "json_get (json_object entries) k = map_of (rev entries) k"
  by (simp add: json_object_def map_of_object_fold)

lemma json_get_insert: "json_insert v k x = Some v' \<Longrightarrow> json_get v' l = (if l = k then Some x else json_get v l)"
  by (cases v) auto

lemma json_insert_object [simp]:
  "json_insert (json_object entries) k v = Some (json_object (entries @ [(k, v)]))"
  by (simp add: json_object_def)

lemma json_object_eq: "json_object entries = JObject (fold (\<lambda>(k, v). object_insert k v) entries [])"
  by (fact json_object_def)

text \<open>The keys of an object stay distinct and ascending.\<close>

lemma object_insert_keys [simp]: "fst ` set (object_insert k v m) = insert k (fst ` set m)"
  by (induction m) auto

lemma object_insert_sorted:
  "sorted_wrt (<) (map fst m) \<Longrightarrow> sorted_wrt (<) (map fst (object_insert k v m))"
proof (induction m)
  case (Cons e m)
  have "\<forall>x\<in>fst ` set (object_insert k v m). fst e < x" if "fst e < k"
    using Cons.prems that by simp
  then show ?case using Cons by (auto simp: not_less_iff_gr_or_eq dest: less_trans)
qed simp

end
