(* ===== verification/Harness_Model.thy ===== *)
theory Harness_Model
  imports Json_Value Observations
begin

text \<open>
  The frames exchanged with a harness plugin: \<open>crates/proto/src/harness_acp.rs\<close>, with the manifest
  types of \<open>crates/proto/src/plugin.rs\<close> and the errors of
  \<open>crates/plugin-host/src/supervisor.rs\<close>.  An interface is the pair of its id and its version.
\<close>

section \<open>Errors\<close>

text \<open>
  \<open>Timeout\<close> carries the text of its duration, \<open>Io\<close> and \<open>Json\<close> the text of the error they wrap.
\<close>

datatype plugin_error =
    InvalidSpec string
  | InvalidManifest string
  | IdentityMismatch string string
  | ProtocolVersion u32 u32
  | MissingInterface string
  | ProtocolError string
  | TransportError string
  | TimeoutError string string
  | RemoteError string i64 string "json_value option"
  | ExitedError "int option"
  | Unhealthy string
  | ShutdownRejected
  | PluginIo string
  | PluginJson string

type_synonym 'a plugin_result = "plugin_error + 'a"

fun plugin_error_display :: "plugin_error \<Rightarrow> string" where
  "plugin_error_display (InvalidSpec m) = ''invalid plugin specification: '' @ m"
| "plugin_error_display (InvalidManifest m) = ''invalid plugin manifest: '' @ m"
| "plugin_error_display (IdentityMismatch e a) =
     ''plugin identity mismatch: expected '' @ e @ '', received '' @ a"
| "plugin_error_display (ProtocolVersion e a) =
     ''plugin lifecycle version mismatch: expected '' @ show_int (uint e) @ '', received '' @ show_int (uint a)"
| "plugin_error_display (MissingInterface i) = ''plugin is missing required interface '' @ i"
| "plugin_error_display (ProtocolError m) = ''plugin protocol error: '' @ m"
| "plugin_error_display (TransportError m) = ''plugin transport error: '' @ m"
| "plugin_error_display (TimeoutError m t) = ''plugin call '' @ m @ '' timed out after '' @ t"
| "plugin_error_display (RemoteError m c msg data) =
     ''plugin call '' @ m @ '' failed with JSON-RPC error '' @ show_int c @ '': '' @ msg"
| "plugin_error_display (ExitedError c) = ''plugin exited unexpectedly with code '' @
     (case c of None \<Rightarrow> ''None'' | Some n \<Rightarrow> ''Some('' @ show_int n @ '')'')"
| "plugin_error_display (Unhealthy s) = ''plugin reported unhealthy status: '' @ s"
| "plugin_error_display ShutdownRejected = ''plugin rejected graceful shutdown''"
| "plugin_error_display (PluginIo t) = ''plugin I/O error: '' @ t"
| "plugin_error_display (PluginJson t) = ''plugin JSON error: '' @ t"

text \<open>
  \<open>FleetError\<close> as text.  What a wrapped error of another crate says of itself is the argument
  \<open>detail\<close>.
\<close>

fun fleet_error_display :: "(fleet_error \<Rightarrow> string) \<Rightarrow> fleet_error \<Rightarrow> string" where
  "fleet_error_display detail (NotFound entity i) = entity @ '' not found: '' @ i"
| "fleet_error_display detail (NotMember a c) = ''agent '' @ a @ '' is not a member of channel '' @ c"
| "fleet_error_display detail (Invalid m) = ''invalid input: '' @ m"
| "fleet_error_display detail Unauthorized = ''authentication required''"
| "fleet_error_display detail (Forbidden m) = ''forbidden: '' @ m"
| "fleet_error_display detail (Conflict m) = ''conflict: '' @ m"
| "fleet_error_display detail (ResourceExhausted m) = ''resource exhausted: '' @ m"
| "fleet_error_display detail (LeaseConflict m) = ''lease conflict: '' @ m"
| "fleet_error_display detail (Database e) = ''database error: '' @ detail (Database e)"
| "fleet_error_display detail Migration = ''migration error: '' @ detail Migration"
| "fleet_error_display detail Serialization = ''serialization error: '' @ detail Serialization"
| "fleet_error_display detail (Credential m) = ''credential error: '' @ m"
| "fleet_error_display detail Io = ''I/O error: '' @ detail Io"

section \<open>Manifests\<close>

type_synonym plugin_interface = "string \<times> string"

definition LIFECYCLE_PROTOCOL_VERSION :: u32 where "LIFECYCLE_PROTOCOL_VERSION = 1"

record plugin_identity =
  pi_id :: string
  pi_name :: string
  pi_version :: string

record plugin_manifest =
  pm_protocol_version :: u32
  pm_plugin :: plugin_identity
  pm_interfaces :: "plugin_interface list"

definition plugin_interface_display :: "plugin_interface \<Rightarrow> string" where
  "plugin_interface_display i = fst i @ ''@'' @ snd i"

fun identifier_bytes :: "bool \<Rightarrow> string \<Rightarrow> bool" where
  "identifier_bytes previous_was_separator [] = (\<not> previous_was_separator)"
| "identifier_bytes previous_was_separator (c # cs) =
     (if CHR ''a'' \<le> c \<and> c \<le> CHR ''z'' \<or> CHR ''0'' \<le> c \<and> c \<le> CHR ''9'' then identifier_bytes False cs
      else if (c = CHR ''.'' \<or> c = CHR ''-'') \<and> \<not> previous_was_separator then identifier_bytes True cs
      else False)"

definition validate_identifier :: "string \<Rightarrow> string \<Rightarrow> string + unit" where
  "validate_identifier what identifier =
     (if identifier = [] \<or> length identifier > 128
      then Inl (what @ '' identifier must contain between 1 and 128 bytes'')
      else if \<not> identifier_bytes True identifier
      then Inl (what @ '' identifier contains unsupported characters: '' @ identifier)
      else Inr ())"

definition plugin_interface_validate :: "plugin_interface \<Rightarrow> string + unit" where
  "plugin_interface_validate i = validate_identifier ''plugin interface'' (fst i)"

definition insert_interface :: "plugin_interface \<Rightarrow> plugin_interface set \<Rightarrow> string + plugin_interface set" where
  "insert_interface i seen =
     and_then (plugin_interface_validate i) (\<lambda>_.
     if i \<in> seen then Inl (''duplicate plugin interface '' @ plugin_interface_display i)
     else Inr (insert i seen))"

definition validate_shape :: "plugin_manifest \<Rightarrow> string + unit" where
  "validate_shape m =
     and_then (validate_identifier ''plugin'' (pi_id (pm_plugin m))) (\<lambda>_.
     if trim_is_empty (pi_name (pm_plugin m)) \<or> length (pi_name (pm_plugin m)) > 128
     then Inl ''plugin name must contain between 1 and 128 bytes''
     else if pm_interfaces m = []
     then Inl ''plugin must expose at least one operational interface''
     else and_then (try_fold insert_interface (pm_interfaces m) {}) (\<lambda>_. Inr ()))"

definition declares :: "plugin_manifest \<Rightarrow> plugin_interface \<Rightarrow> bool" where
  "declares m i \<longleftrightarrow> i \<in> set (pm_interfaces m)"

text \<open>What the launching host decides: \<open>crates/plugin-host/src/protocol.rs\<close>.\<close>

definition negotiate :: "plugin_manifest \<Rightarrow> string \<Rightarrow> plugin_interface list \<Rightarrow> unit plugin_result" where
  "negotiate m expected_id required =
     (if pm_protocol_version m \<noteq> LIFECYCLE_PROTOCOL_VERSION
      then Inl (ProtocolVersion LIFECYCLE_PROTOCOL_VERSION (pm_protocol_version m))
      else if pi_id (pm_plugin m) \<noteq> expected_id
      then Inl (IdentityMismatch expected_id (pi_id (pm_plugin m)))
      else case validate_shape m of
        Inl e \<Rightarrow> Inl (InvalidManifest e)
      | Inr _ \<Rightarrow>
          (case find (\<lambda>i. \<not> declares m i) required of
             Some i \<Rightarrow> Inl (MissingInterface (plugin_interface_display i))
           | None \<Rightarrow> Inr ()))"

section \<open>Interfaces\<close>

definition HARNESS_ACP_INTERFACE_ID :: string where
  "HARNESS_ACP_INTERFACE_ID = ''fleetd.harness-acp''"

definition harness_interface :: plugin_interface where
  "harness_interface = (HARNESS_ACP_INTERFACE_ID, ''0.1.0'')"

definition interface_v2 :: plugin_interface where
  "interface_v2 = (HARNESS_ACP_INTERFACE_ID, ''0.2.0'')"

definition declared_interfaces :: "bool \<Rightarrow> plugin_interface list" where
  "declared_interfaces supports_transcript_replay =
     [harness_interface] @ (if supports_transcript_replay then [interface_v2] else [])"

section \<open>Frames\<close>

record execution_fence =
  fence_binding_id :: string
  fence_binding_generation :: u64
  fence_owner_epoch :: u64
  fence_invocation_id :: string
  fence_token :: string

record describe_result =
  dr_driver_version :: string
  dr_acp_sdk_version :: string
  dr_acp_protocol_version :: u32
  dr_runtime_name :: string
  dr_runtime_version :: string
  dr_runtime_executable_digest :: string
  dr_agent_capabilities :: json_value
  dr_max_concurrent_turns :: u32
  dr_max_frame_bytes :: u64
  dr_profile_digest :: string
  dr_raw_initialize_result :: json_value

record resolved_mcp_grant =
  rg_name :: string
  rg_url :: string
  rg_headers :: "(string \<times> string) list"

datatype open_session_mode = OpenCreate | OpenResume string

record open_session =
  os_binding :: binding
  os_mode :: open_session_mode
  os_working_directory :: string
  os_additional_directories :: "string list"
  os_mcp_grants :: "string list"
  os_resolved_mcp_grants :: "resolved_mcp_grant list"
  os_profile_digest :: string

record open_session_result =
  osr_session_ref :: string
  osr_profile_digest :: string
  osr_resumed :: bool
  osr_effective_config :: json_value
  osr_raw_session_result :: json_value

record turn_source =
  src_agent_id :: string
  src_message_id :: string
  src_channel_id :: string
  src_sender_id :: string
  src_correlation_id :: "string option"
  src_causation_id :: "string option"

datatype prompt_block = PromptText string

record tool_budget =
  budget_limit :: u64
  budget_required_enforcement :: string

record turn_policy =
  tp_idle_timeout_ms :: u64
  tp_wall_timeout_ms :: u64
  tp_cancel_drain_timeout_ms :: u64
  tp_max_captured_output_bytes :: u64
  tp_permission_policy :: string
  tp_tool_budget :: tool_budget
  tp_token_budget :: "u64 option"

record start_turn =
  st_fence :: execution_fence
  st_session_ref :: string
  st_source :: turn_source
  st_prompt :: "prompt_block list"
  st_policy :: turn_policy

record effective_enforcement =
  ee_wall_timeout :: string
  ee_idle_timeout :: string
  ee_cancel_drain_timeout :: string
  ee_captured_output_bytes :: string
  ee_tool_budget :: string
  ee_token_budget :: string

record start_turn_result =
  str_accepted :: bool
  str_effective_enforcement :: effective_enforcement

datatype permission_outcome = PermissionSelected string | PermissionCancelled

record permission_resolution =
  res_fence :: execution_fence
  res_permission_id :: string
  res_outcome :: permission_outcome

record cancel_turn =
  ct_fence :: execution_fence
  ct_reason :: string

record close_session =
  cs_binding_id :: string
  cs_binding_generation :: u64
  cs_owner_epoch :: u64
  cs_session_ref :: string
  cs_reason :: string

record close_session_result =
  csr_ownership_retired :: bool
  csr_native_resources_released :: bool

record turn_event =
  te_fence :: execution_fence
  te_event_seq :: u64
  te_observed_at_ms :: i64
  te_classification :: string
  te_raw_update :: json_value

record permission_requested =
  pr_fence :: execution_fence
  pr_permission_id :: string
  pr_event_seq :: u64
  pr_tool_call :: json_value
  pr_options :: "json_value list"
  pr_expires_at_ms :: i64

record assistant_message =
  am_message_id :: "string option"
  am_content :: "json_value list"
  am_complete :: bool
  am_first_event_seq :: u64
  am_last_event_seq :: u64

text \<open>
  The terminal frame, and the part of it that the durable record keeps, \<open>turn_terminal\<close> of
  \<open>Observations\<close>.
\<close>

record terminal_frame =
  tf_fence :: execution_fence
  tf_last_event_seq :: u64
  tf_stop_reason :: string
  tf_runtime_stop_reason :: "string option"
  tf_execution_certainty :: harness_execution_certainty
  tf_session_quiescent :: bool
  tf_session_persistence :: session_persistence
  tf_assistant_messages :: "assistant_message list"
  tf_usage :: json_value
  tf_raw_prompt_response :: json_value

definition observed_terminal :: "(json_value \<Rightarrow> string) \<Rightarrow> terminal_frame \<Rightarrow> turn_terminal" where
  "observed_terminal encode t =
     \<lparr>tt_invocation_id = fence_invocation_id (tf_fence t), tt_last_event_seq = tf_last_event_seq t,
      tt_stop_reason = tf_stop_reason t, tt_runtime_stop_reason = tf_runtime_stop_reason t,
      tt_execution_certainty = tf_execution_certainty t,
      tt_session_quiescent = tf_session_quiescent t,
      tt_session_persistence = tf_session_persistence t, tt_usage = encode (tf_usage t)\<rparr>"

record start_transcript =
  sx_binding_id :: string
  sx_binding_generation :: u64
  sx_owner_epoch :: u64
  sx_session_ref :: string

record transcript_entry =
  xe_session_ref :: string
  xe_entry_seq :: u64
  xe_observed_at_ms :: i64
  xe_classification :: string
  xe_raw_update :: json_value

record transcript_complete =
  xc_session_ref :: string
  xc_entry_count :: u64
  xc_observed_payload_bytes :: u64
  xc_truncated :: bool
  xc_failure :: "string option"

datatype harness_notification =
    NoteEvent turn_event
  | NotePermission permission_requested
  | NoteTerminal terminal_frame
  | NoteTranscriptEntry transcript_entry
  | NoteTranscriptComplete transcript_complete

section \<open>What serde writes for a frame\<close>

definition fence_value :: "execution_fence \<Rightarrow> json_value" where
  "fence_value f = json_object
     [(''binding_id'', JString (fence_binding_id f)),
      (''binding_generation'', json_u64 (fence_binding_generation f)),
      (''owner_epoch'', json_u64 (fence_owner_epoch f)),
      (''invocation_id'', JString (fence_invocation_id f)),
      (''fence_token'', JString (fence_token f))]"

definition turn_event_value :: "turn_event \<Rightarrow> json_value" where
  "turn_event_value e = json_object
     [(''fence'', fence_value (te_fence e)), (''event_seq'', json_u64 (te_event_seq e)),
      (''observed_at_ms'', json_i64 (te_observed_at_ms e)),
      (''classification'', JString (te_classification e)), (''raw_update'', te_raw_update e)]"

definition permission_value :: "permission_requested \<Rightarrow> json_value" where
  "permission_value p = json_object
     [(''fence'', fence_value (pr_fence p)), (''permission_id'', JString (pr_permission_id p)),
      (''event_seq'', json_u64 (pr_event_seq p)), (''tool_call'', pr_tool_call p),
      (''options'', JArray (pr_options p)), (''expires_at_ms'', json_i64 (pr_expires_at_ms p))]"

definition assistant_message_value :: "assistant_message \<Rightarrow> json_value" where
  "assistant_message_value m = json_object
     [(''message_id'', json_opt JString (am_message_id m)), (''content'', JArray (am_content m)),
      (''complete'', JBool (am_complete m)), (''first_event_seq'', json_u64 (am_first_event_seq m)),
      (''last_event_seq'', json_u64 (am_last_event_seq m))]"

section \<open>Transcripts\<close>

record transcript_turn =
  xt_invocation_id :: "string option"
  xt_first_entry_seq :: u64
  xt_entry_count :: u64
  xt_entries :: "transcript_entry list"

text \<open>\<open>?\<close> on options.\<close>

definition prompt_invocation_id :: "(string \<Rightarrow> json_value option) \<Rightarrow> transcript_entry \<Rightarrow> string option" where
  "prompt_invocation_id decode e =
     Option.bind (json_get (xe_raw_update e) ''content'') (\<lambda>content.
     Option.bind (json_get content ''text'') (\<lambda>text_value.
     Option.bind (as_str text_value) (\<lambda>text.
     if CHR ''{'' \<notin> set text then None
     else
       Option.bind (decode (dropWhile (\<lambda>c. c \<noteq> CHR ''{'') text)) (\<lambda>envelope.
       Option.bind (json_get envelope ''invocation'') (\<lambda>invocation.
       Option.bind (json_get invocation ''id'') as_str)))))"

definition segment_entry ::
  "(string \<Rightarrow> json_value option) \<Rightarrow> transcript_entry \<Rightarrow> transcript_turn list \<Rightarrow> transcript_turn list" where
  "segment_entry decode e turns =
     (let opens_turn = event_class_parse (xe_classification e) = EvPrompt in
      if opens_turn \<or> turns = [] then
        turns @ [\<lparr>xt_invocation_id = (if opens_turn then prompt_invocation_id decode e else None),
                  xt_first_entry_seq = xe_entry_seq e, xt_entry_count = 1, xt_entries = [e]\<rparr>]
      else
        butlast turns @ [(last turns)\<lparr>xt_entry_count := saturating_add_u64 (xt_entry_count (last turns)) 1,
                           xt_entries := xt_entries (last turns) @ [e]\<rparr>])"

definition segment_transcript ::
  "(string \<Rightarrow> json_value option) \<Rightarrow> transcript_entry list \<Rightarrow> transcript_turn list" where
  "segment_transcript decode entries = fold (segment_entry decode) entries []"

section \<open>Segmentation loses nothing\<close>

definition opens_turn :: "transcript_entry \<Rightarrow> bool" where
  "opens_turn e \<longleftrightarrow> event_class_parse (xe_classification e) = EvPrompt"

text \<open>What one segment says of its entries: it starts at its prompt and holds no other.\<close>

definition segment_ok :: "(string \<Rightarrow> json_value option) \<Rightarrow> transcript_turn \<Rightarrow> bool" where
  "segment_ok decode t \<longleftrightarrow>
     xt_entries t \<noteq> [] \<and> xt_first_entry_seq t = xe_entry_seq (hd (xt_entries t))
     \<and> xt_invocation_id t = (if opens_turn (hd (xt_entries t))
         then prompt_invocation_id decode (hd (xt_entries t)) else None)
     \<and> filter opens_turn (tl (xt_entries t)) = []
     \<and> unat (xt_entry_count t) = min (length (xt_entries t)) (2 ^ 64 - 1)"

lemma saturating_add_one: "unat (saturating_add_u64 a 1) = min (Suc (unat a)) (2 ^ 64 - 1)"
proof (cases "uint a + 1 < 18446744073709551616")
  case True
  then have sum: "checked_add_u64 a 1 = Some (a + 1)" by (simp add: checked_add_u64_def)
  have "uint (a + 1) = uint a + 1" using checked_add_u64_Some [OF sum] by simp
  then have "unat (a + 1) = Suc (unat a)"
    using uint_ge_0 [of a] unfolding unat_eq_nat_uint by linarith
  moreover have "Suc (unat a) \<le> 18446744073709551615"
    using True unfolding unat_eq_nat_uint by linarith
  ultimately show ?thesis using sum by (simp add: saturating_add_u64_def)
next
  case False
  moreover have "uint a < 18446744073709551616" using uint_lt2p [of a] by simp
  ultimately have "unat a = 18446744073709551615" unfolding unat_eq_nat_uint by linarith
  moreover have "unat (- 1 :: u64) = 2 ^ 64 - 1" by (simp add: unsigned_minus_1_eq_mask mask_eq_exp_minus_1)
  ultimately show ?thesis using False by (simp add: saturating_add_u64_def checked_add_u64_def)
qed

lemma segment_entry_new:
  assumes "opens_turn e \<or> turns = []"
  shows "segment_entry decode e turns = turns @ [\<lparr>xt_invocation_id = (if opens_turn e then
      prompt_invocation_id decode e else None), xt_first_entry_seq = xe_entry_seq e, xt_entry_count = 1,
      xt_entries = [e]\<rparr>]"
  using assms by (auto simp: segment_entry_def opens_turn_def Let_def)

lemma segment_entry_old:
  assumes "\<not> opens_turn e" and "turns = before @ [t]"
  shows "segment_entry decode e turns = before @ [t\<lparr>xt_entry_count := saturating_add_u64 (xt_entry_count t) 1,
      xt_entries := xt_entries t @ [e]\<rparr>]"
  using assms by (auto simp: segment_entry_def opens_turn_def Let_def)

lemma segment_extend_ok:
  assumes "segment_ok decode t" and "\<not> opens_turn e"
  shows "segment_ok decode (t\<lparr>xt_entry_count := saturating_add_u64 (xt_entry_count t) 1,
      xt_entries := xt_entries t @ [e]\<rparr>)"
  using assms by (cases "xt_entries t") (auto simp: segment_ok_def saturating_add_one)

definition segmented :: "(string \<Rightarrow> json_value option) \<Rightarrow> transcript_entry list \<Rightarrow> transcript_turn list \<Rightarrow> bool" where
  "segmented decode entries turns \<longleftrightarrow>
     concat (map xt_entries turns) = entries \<and> list_all (segment_ok decode) turns
     \<and> list_all (\<lambda>t. opens_turn (hd (xt_entries t))) (tl turns)"

lemma segment_entry_keeps:
  assumes "segmented decode done_entries turns"
  shows "segmented decode (done_entries @ [e]) (segment_entry decode e turns)"
proof (cases "opens_turn e \<or> turns = []")
  case True
  then show ?thesis
    using assms by (cases turns) (auto simp: segment_entry_new segmented_def segment_ok_def)
next
  case False
  then obtain before t where turns: "turns = before @ [t]" by (metis rev_exhaust)
  have ok: "segment_ok decode t" using assms by (simp add: segmented_def turns)
  then have "hd (xt_entries t @ [e]) = hd (xt_entries t)" by (simp add: segment_ok_def)
  then show ?thesis
    using assms False segment_extend_ok [OF ok] segment_entry_old [OF _ turns, of e decode]
    by (cases before) (auto simp: segmented_def turns)
qed

lemma segment_transcript_segmented: "segmented decode entries (segment_transcript decode entries)"
proof -
  have "segmented decode (xs @ entries) (fold (segment_entry decode) entries turns)"
    if "segmented decode xs turns" for xs turns
    using that
  proof (induction entries arbitrary: xs turns)
    case (Cons e entries)
    from Cons.IH [OF segment_entry_keeps [OF Cons.prems]] show ?case by simp
  qed simp
  from this [of "[]" "[]"] show ?thesis by (simp add: segment_transcript_def segmented_def)
qed

text \<open>
  C14: splitting a replayed transcript into turns drops, repeats and reorders nothing:
  joined again, the turns are the entries that came in.  Every turn after the first begins with the
  prompt that opened it and holds no other prompt, is attributed to the invocation that prompt
  names and to no other, and its counter is the number of its entries, saturated at the width of
  the counter.
\<close>

theorem transcript_segments:
  "concat (map xt_entries (segment_transcript decode entries)) = entries
   \<and> list_all (segment_ok decode) (segment_transcript decode entries)
   \<and> list_all (\<lambda>t. opens_turn (hd (xt_entries t))) (tl (segment_transcript decode entries))"
  using segment_transcript_segmented [of decode entries] by (simp add: segmented_def)

end
