(* ===== verification/Message_Grant.thy ===== *)
theory Message_Grant
  imports Harness_Model Evidence
begin

text \<open>
  What an invocation-scoped grant lets a harness publish: \<open>crates/execution/src/message_grant.rs\<close>.
  The broker's lock is held through the append, so a call is one step on the pair of the broker's
  state and the store; \<open>active\<close> is the option inside the lock.  SHA-256 is the argument \<open>sha256\<close>
  (bytes to lower-case hex), and a payload is the text serde writes for it.
\<close>

section \<open>Operations\<close>

definition PUBLISH_DURABLE_MESSAGE_GRANT :: string where
  "PUBLISH_DURABLE_MESSAGE_GRANT = ''fleet.messaging.send''"

definition MAX_MESSAGES_PER_INVOCATION :: u32 where "MAX_MESSAGES_PER_INVOCATION = 8"
definition MAX_OPERATION_ID_BYTES :: nat where "MAX_OPERATION_ID_BYTES = 128"
definition GRANT_MAX_AGENT_ID_BYTES :: nat where "GRANT_MAX_AGENT_ID_BYTES = 256"
definition MAX_MESSAGE_KIND_BYTES :: nat where "MAX_MESSAGE_KIND_BYTES = 256"
definition GRANT_MAX_PAYLOAD_BYTES :: nat where "GRANT_MAX_PAYLOAD_BYTES = 64 * 1024"

record active_message_grant =
  mg_invocation_id :: string
  mg_sender_id :: string
  mg_channel_id :: string
  mg_source_message_id :: string
  mg_correlation_id :: string
  mg_expires_at_ms :: i64
  mg_published_messages :: u32
  mg_operations :: "string set"

type_synonym broker = "active_message_grant option"

definition activate :: "i64 \<Rightarrow> invocation \<Rightarrow> broker \<Rightarrow> string + active_message_grant" where
  "activate now iv active =
     (if inv_lease_expires_at_ms iv \<le> now then Inl ''invocation lease already expired''
      else if active \<noteq> None then Inl ''message grant already has an active invocation''
      else Inr \<lparr>mg_invocation_id = inv_id iv, mg_sender_id = inv_agent_id iv,
        mg_channel_id = msg_channel_id (inv_message iv), mg_source_message_id = msg_id (inv_message iv),
        mg_correlation_id = (case msg_correlation_id (inv_message iv) of
          Some c \<Rightarrow> c | None \<Rightarrow> msg_id (inv_message iv)),
        mg_expires_at_ms = inv_lease_expires_at_ms iv, mg_published_messages = 0, mg_operations = {}\<rparr>)"

definition deactivate :: "string \<Rightarrow> broker \<Rightarrow> broker" where
  "deactivate invocation_id active =
     (case active of
        Some grant \<Rightarrow> if mg_invocation_id grant = invocation_id then None else active
      | None \<Rightarrow> active)"

record publish_input =
  pub_operation_id :: string
  pub_recipient_id :: string
  pub_kind :: string
  pub_payload :: json

record publish_output =
  out_message_id :: string
  out_seq :: i64
  out_created :: bool
  out_channel_id :: string
  out_correlation_id :: string
  out_causation_id :: string

definition validate_publish_input :: "publish_input \<Rightarrow> string + unit" where
  "validate_publish_input inp =
     (if trim_is_empty (pub_operation_id inp) \<or> length (pub_operation_id inp) > MAX_OPERATION_ID_BYTES
      then Inl (''operation_id must contain between 1 and '' @ show_nat MAX_OPERATION_ID_BYTES @ '' bytes'')
      else if trim_is_empty (pub_recipient_id inp) \<or> length (pub_recipient_id inp) > GRANT_MAX_AGENT_ID_BYTES
      then Inl (''recipient_id must contain between 1 and '' @ show_nat GRANT_MAX_AGENT_ID_BYTES @ '' bytes'')
      else if trim_is_empty (pub_kind inp) \<or> length (pub_kind inp) > MAX_MESSAGE_KIND_BYTES
      then Inl (''kind must contain between 1 and '' @ show_nat MAX_MESSAGE_KIND_BYTES @ '' bytes'')
      else if length (pub_payload inp) > GRANT_MAX_PAYLOAD_BYTES
      then Inl (''payload must not exceed '' @ show_nat GRANT_MAX_PAYLOAD_BYTES @ '' encoded bytes'')
      else Inr ())"

fun public_fleet_error :: "fleet_error \<Rightarrow> string" where
  "public_fleet_error (NotFound entity i) = entity @ '' not found: '' @ i"
| "public_fleet_error (NotMember a c) = ''agent '' @ a @ '' is not a member of channel '' @ c"
| "public_fleet_error (Invalid m) = ''invalid input: '' @ m"
| "public_fleet_error (Forbidden m) = ''forbidden: '' @ m"
| "public_fleet_error (Conflict m) = ''conflict: '' @ m"
| "public_fleet_error _ = ''Fleetd could not commit the durable message''"

definition publish_key :: "(string \<Rightarrow> string) \<Rightarrow> string \<Rightarrow> string \<Rightarrow> string" where
  "publish_key sha256 invocation_id operation_id =
     ''invocation:'' @ invocation_id @ '':publish:'' @ sha256 operation_id"

definition publish_message ::
  "(string \<Rightarrow> string) \<Rightarrow> active_message_grant \<Rightarrow> publish_input \<Rightarrow> create_message" where
  "publish_message sha256 grant inp =
     \<lparr>new_sender_id = mg_sender_id grant,
      new_idempotency_key = Some (publish_key sha256 (mg_invocation_id grant) (pub_operation_id inp)),
      new_recipient_id = Some (pub_recipient_id inp), new_kind = pub_kind inp,
      new_payload = pub_payload inp, new_correlation_id = Some (mg_correlation_id grant),
      new_causation_id = Some (mg_source_message_id grant)\<rparr>"

definition saturating_add_u32 :: "u32 \<Rightarrow> u32 \<Rightarrow> u32" where
  "saturating_add_u32 a b = (if uint a + uint b < 2 ^ 32 then a + b else - 1)"

text \<open>The state after a committed append.\<close>

definition published :: "publish_input \<Rightarrow> bool \<Rightarrow> active_message_grant \<Rightarrow> active_message_grant" where
  "published inp created grant = grant
     \<lparr>mg_published_messages := (if created then saturating_add_u32 (mg_published_messages grant) 1
        else mg_published_messages grant),
      mg_operations := insert (pub_operation_id inp) (mg_operations grant)\<rparr>"

text \<open>\<open>None\<close> is the panic of an \<open>expect\<close> on the stored message.\<close>

definition publish ::
  "(string \<Rightarrow> string) \<Rightarrow> i64 \<Rightarrow> string \<Rightarrow> i64 \<Rightarrow> publish_input \<Rightarrow> broker \<times> db
    \<Rightarrow> ((string + publish_output) \<times> broker \<times> db) option" where
  "publish sha256 now uuid msg_now inp state =
     (let (active, d) = state in
      case validate_publish_input inp of
        Inl e \<Rightarrow> Some (Inl e, state)
      | Inr _ \<Rightarrow>
          (case active of
             None \<Rightarrow> Some (Inl ''no active Fleetd invocation grants message publishing'', state)
           | Some grant \<Rightarrow>
               if mg_expires_at_ms grant \<le> now
               then Some (Inl ''the active Fleetd invocation grant has expired'', state)
               else if pub_recipient_id inp = mg_sender_id grant
               then Some (Inl ''recipient_id must identify a peer, not the sending agent'', state)
               else if pub_operation_id inp \<notin> mg_operations grant
                 \<and> mg_published_messages grant \<ge> MAX_MESSAGES_PER_INVOCATION
               then Some (Inl (''this invocation may publish at most ''
                      @ show_int (uint MAX_MESSAGES_PER_INVOCATION) @ '' messages''), state)
               else
                 (case append_message_idempotent uuid msg_now (mg_channel_id grant)
                        (publish_message sha256 grant inp) d of
                    Inl e \<Rightarrow> Some (Inl (public_fleet_error e), state)
                  | Inr (r, d) \<Rightarrow>
                      (case (msg_correlation_id (appended_message r), msg_causation_id (appended_message r)) of
                         (Some correlation, Some causation) \<Rightarrow>
                           Some (Inr \<lparr>out_message_id = msg_id (appended_message r),
                               out_seq = msg_seq (appended_message r), out_created = appended_created r,
                               out_channel_id = msg_channel_id (appended_message r),
                               out_correlation_id = correlation, out_causation_id = causation\<rparr>,
                             Some (published inp (appended_created r) grant), d)
                       | _ \<Rightarrow> None))))"

section \<open>What one call does\<close>

lemma append_matches:
  assumes "append_message_idempotent uuid now cid inp d = Inr (r, d')"
  shows "message_matches_input (appended_message r) cid inp"
  using assms [unfolded append_message_idempotent_def]
  by (cases rule: append_message_cases)
    (auto simp: insert_message_def and_then_eq_Inr message_matches_input_def message_from_row_def
      appended_row_def split: if_splits)

text \<open>A call either leaves the state as it was and says why, or commits one append.\<close>

lemma publish_cases:
  obtains (refused) e where "publish sha256 now uuid msg_now inp (active, d) = Some (Inl e, active, d)"
  | (committed) grant r d' out where "active = Some grant"
      "publish sha256 now uuid msg_now inp (active, d)
        = Some (Inr out, Some (published inp (appended_created r) grant), d')"
      "append_message_idempotent uuid msg_now (mg_channel_id grant) (publish_message sha256 grant inp) d
        = Inr (r, d')"
      "out_created out = appended_created r" "out_message_id out = msg_id (appended_message r)"
      "out_channel_id out = mg_channel_id grant" "out_correlation_id out = mg_correlation_id grant"
      "out_causation_id out = mg_source_message_id grant"
      "now < mg_expires_at_ms grant" "pub_recipient_id inp \<noteq> mg_sender_id grant"
      "pub_operation_id inp \<in> mg_operations grant \<or> mg_published_messages grant < MAX_MESSAGES_PER_INVOCATION"
proof (cases "publish sha256 now uuid msg_now inp (active, d)")
  case None
  obtain grant r d' where "append_message_idempotent uuid msg_now (mg_channel_id grant)
      (publish_message sha256 grant inp) d = Inr (r, d')"
    and "msg_correlation_id (appended_message r) = None \<or> msg_causation_id (appended_message r) = None"
    using None by (auto simp: publish_def Let_def split: sum.splits option.splits if_splits prod.splits)
  with append_matches have False by (auto simp: message_matches_input_def publish_message_def)
  then show thesis ..
next
  case (Some res)
  show thesis
  proof (cases "fst res")
    case (Inl e)
    then have "res = (Inl e, active, d)"
      using Some by (auto simp: publish_def Let_def split: sum.splits option.splits if_splits)
    with Some refused show thesis by blast
  next
    case (Inr out)
    then obtain grant r d' where g: "active = Some grant"
      and app: "append_message_idempotent uuid msg_now (mg_channel_id grant) (publish_message sha256 grant inp) d
        = Inr (r, d')"
      and res: "res = (Inr out, Some (published inp (appended_created r) grant), d')"
      and out: "out_created out = appended_created r" "out_message_id out = msg_id (appended_message r)"
        "out_channel_id out = msg_channel_id (appended_message r)"
        "Some (out_correlation_id out) = msg_correlation_id (appended_message r)"
        "Some (out_causation_id out) = msg_causation_id (appended_message r)"
      and guards: "now < mg_expires_at_ms grant" "pub_recipient_id inp \<noteq> mg_sender_id grant"
        "pub_operation_id inp \<in> mg_operations grant \<or> mg_published_messages grant < MAX_MESSAGES_PER_INVOCATION"
      using Some by (auto simp: publish_def Let_def not_le split: sum.splits option.splits if_splits)
    have "out_channel_id out = mg_channel_id grant" "out_correlation_id out = mg_correlation_id grant"
      "out_causation_id out = mg_source_message_id grant"
      using out append_matches [OF app] by (auto simp: message_matches_input_def publish_message_def)
    with committed g app Some res out guards show thesis by blast
  qed
qed

section \<open>The budget\<close>

text \<open>
  The life of one armed grant: calls of the harness in any order, with any input, between other
  steps of the fleet.  The outputs are those the harness got.
\<close>

inductive publishing ::
  "(string \<Rightarrow> string) \<Rightarrow> active_message_grant \<Rightarrow> db \<Rightarrow> publish_output list \<Rightarrow> broker \<Rightarrow> db \<Rightarrow> bool"
  for sha256 grant d where
  armed: "publishing sha256 grant d [] (Some grant) d"
| other: "publishing sha256 grant d outs active d' \<Longrightarrow> fleet_step d' d'' \<Longrightarrow>
    publishing sha256 grant d outs active d''"
| call: "publishing sha256 grant d outs active d' \<Longrightarrow>
    publish sha256 now uuid msg_now inp (active, d') = Some (res, active', d'') \<Longrightarrow>
    publishing sha256 grant d (outs @ (case res of Inl e \<Rightarrow> [] | Inr out \<Rightarrow> [out])) active' d''"

definition same_scope :: "active_message_grant \<Rightarrow> active_message_grant \<Rightarrow> bool" where
  "same_scope g h \<longleftrightarrow> mg_invocation_id h = mg_invocation_id g \<and> mg_sender_id h = mg_sender_id g
     \<and> mg_channel_id h = mg_channel_id g \<and> mg_source_message_id h = mg_source_message_id g
     \<and> mg_correlation_id h = mg_correlation_id g \<and> mg_expires_at_ms h = mg_expires_at_ms g"

text \<open>A stored message that the grant allows.\<close>

definition under_grant :: "active_message_grant \<Rightarrow> message_row \<Rightarrow> bool" where
  "under_grant g m \<longleftrightarrow> m_sender_id m = mg_sender_id g \<and> m_channel_id m = mg_channel_id g
     \<and> m_correlation_id m = Some (mg_correlation_id g) \<and> m_causation_id m = Some (mg_source_message_id g)
     \<and> m_recipient_id m \<noteq> None \<and> m_recipient_id m \<noteq> Some (mg_sender_id g)"

definition grant_inv ::
  "(string \<Rightarrow> string) \<Rightarrow> active_message_grant \<Rightarrow> publish_output list \<Rightarrow> active_message_grant \<Rightarrow> db \<Rightarrow> bool" where
  "grant_inv sha256 g outs h d \<longleftrightarrow> same_scope g h
     \<and> uint (mg_published_messages h) = int (length (filter out_created outs))
     \<and> length (filter out_created outs) \<le> 8
     \<and> (\<forall>op\<in>mg_operations h. \<exists>m\<in>set (messages d). m_sender_id m = mg_sender_id g
          \<and> m_idempotency_key m = Some (publish_key sha256 (mg_invocation_id g) op))
     \<and> (\<forall>out\<in>set outs. \<exists>m\<in>set (messages d). m_id m = out_message_id out \<and> under_grant g m)"

lemma grant_inv_step:
  assumes "grant_inv sha256 g outs h d" and "set (messages d) \<subseteq> set (messages d')"
  shows "grant_inv sha256 g outs h d'"
  using assms unfolding grant_inv_def by blast

lemma step_keeps_messages:
  assumes "fleet_reachable d" and "fleet_step d d'"
  shows "set (messages d) \<subseteq> set (messages d')" and "fleet_reachable d'"
proof -
  show "fleet_reachable d'" using assms by (rule reachable.step)
  show "set (messages d) \<subseteq> set (messages d')"
    using run_history [OF assms(1) r_into_rtranclp [of fleet_step, OF assms(2)]]
    by (auto simp: fleet_history_def history_def evolves_def)
qed

text \<open>A committed append is a row of the log under its key, and a known key appends nothing.\<close>

lemma append_idempotent_row:
  assumes "append_message_idempotent uuid now cid inp d = Inr (r, d')"
  obtains m where "m \<in> set (messages d')" "m_sender_id m = new_sender_id inp"
    "m_idempotency_key m = new_idempotency_key inp" "message_from_row m = appended_message r"
  using assms [unfolded append_message_idempotent_def]
proof (cases rule: append_message_cases)
  case (replay row)
  then show ?thesis using that by simp
next
  case (created m)
  then obtain seq d1 where ins: "insert_message_row (appended_row uuid now cid inp) d = Inr (seq, d1)"
    and snap: "insert_delivery_snapshot cid (new_sender_id inp) (new_recipient_id inp) seq now d1 = Inr d'"
    and m: "m = message_from_row (appended_row uuid now cid inp seq)"
    by (auto simp: insert_message_def and_then_eq_Inr split: if_splits)
  have "appended_row uuid now cid inp seq \<in> set (messages d1)"
    using ins by (auto simp: insert_message_row_def Let_def split: if_splits)
  moreover have "messages d' = messages d1"
    using snap unfolding insert_delivery_snapshot_def
    by (rule try_fold_invariant [where P = "\<lambda>x. messages x = messages d1"])
      (auto simp: insert_delivery_row_def split: if_splits)
  ultimately show ?thesis
    using that [of "appended_row uuid now cid inp seq"] created(2) m by (simp add: appended_row_def)
qed

lemma known_key_not_created:
  assumes "append_message_idempotent uuid now cid inp d = Inr (r, d')"
    and "m \<in> set (messages d)" and "m_sender_id m = new_sender_id inp"
    and "m_idempotency_key m = new_idempotency_key inp" and "new_idempotency_key inp \<noteq> None"
  shows "\<not> appended_created r"
proof -
  obtain row where "find (\<lambda>m. m_sender_id m = new_sender_id inp
      \<and> m_idempotency_key m = new_idempotency_key inp) (messages d) = Some row"
    using assms(2-4) by (cases "find (\<lambda>m. m_sender_id m = new_sender_id inp
      \<and> m_idempotency_key m = new_idempotency_key inp) (messages d)") (auto simp: find_None_iff)
  then show ?thesis
    using assms(1,5) by (auto simp: append_message_idempotent_def append_message_in_transaction_def
      and_then_eq_Inr split: if_splits)
qed

lemma budget_step:
  assumes "uint (n :: u32) = int k" and "n < MAX_MESSAGES_PER_INVOCATION"
  shows "uint (saturating_add_u32 n 1) = int (Suc k)" and "Suc k \<le> 8"
proof -
  have "uint n < 8" using assms(2) by (simp add: word_less_def MAX_MESSAGES_PER_INVOCATION_def)
  then show "Suc k \<le> 8" using assms(1) by simp
  show "uint (saturating_add_u32 n 1) = int (Suc k)"
    using \<open>uint n < 8\<close> assms(1) by (simp add: saturating_add_u32_def uint_word_ariths)
qed

lemma publish_keeps_grant_inv:
  assumes inv: "grant_inv sha256 g outs h d" and reach: "fleet_reachable d"
    and call: "publish sha256 now uuid msg_now inp (Some h, d) = Some (res, active', d')"
  shows "\<exists>h'. active' = Some h' \<and> fleet_reachable d'
    \<and> grant_inv sha256 g (outs @ (case res of Inl e \<Rightarrow> [] | Inr out \<Rightarrow> [out])) h' d'"
proof (cases rule: publish_cases [of sha256 now uuid msg_now inp "Some h" d])
  case refused
  then show ?thesis using call inv reach by auto
next
  case (committed grant r d1 out)
  then have res: "res = Inr out" "active' = Some (published inp (appended_created r) h)" "d' = d1" "grant = h"
    using call by auto
  note app = committed(3) [unfolded res(4)]
  have scope: "same_scope g h" using inv by (simp add: grant_inv_def)
  obtain m where m: "m \<in> set (messages d1)" "m_sender_id m = mg_sender_id h"
    "m_idempotency_key m = Some (publish_key sha256 (mg_invocation_id h) (pub_operation_id inp))"
    "message_from_row m = appended_message r"
    using append_idempotent_row [OF app] by (auto simp: publish_message_def)
  have step: "fleet_step d d1" using app by (rule message_appended)
  note kept = step_keeps_messages [OF reach step]
  have allowed: "m_id m = out_message_id out" "under_grant g m"
    using append_matches [OF app] committed(5,10) scope unfolding res(4) m(4) [symmetric]
    by (auto simp: message_matches_input_def publish_message_def under_grant_def same_scope_def message_from_row_def)
  have known: "\<not> appended_created r" if op: "pub_operation_id inp \<in> mg_operations h"
  proof -
    obtain m0 where "m0 \<in> set (messages d)" "m_sender_id m0 = mg_sender_id g"
      "m_idempotency_key m0 = Some (publish_key sha256 (mg_invocation_id g) (pub_operation_id inp))"
      using inv op unfolding grant_inv_def by blast
    then show ?thesis
      using known_key_not_created [OF app, of m0] scope by (simp add: publish_message_def same_scope_def)
  qed
  let ?h = "published inp (appended_created r) h"
  have count: "uint (mg_published_messages h) = int (length (filter out_created outs))"
    "length (filter out_created outs) \<le> 8" using inv by (simp_all add: grant_inv_def)
  have "uint (mg_published_messages ?h) = int (length (filter out_created (outs @ [out])))
      \<and> length (filter out_created (outs @ [out])) \<le> 8"
    using known committed(11) count budget_step [OF count(1)] committed(4) res(4)
    by (auto simp: published_def)
  moreover have "same_scope g ?h" using scope by (simp add: same_scope_def published_def)
  moreover have "\<forall>op\<in>mg_operations ?h. \<exists>m\<in>set (messages d1). m_sender_id m = mg_sender_id g
      \<and> m_idempotency_key m = Some (publish_key sha256 (mg_invocation_id g) op)"
    using grant_inv_step [OF inv kept(1)] m(1-3) scope
    by (auto simp: grant_inv_def published_def same_scope_def)
  moreover have "\<forall>o'\<in>set (outs @ [out]). \<exists>m\<in>set (messages d1). m_id m = out_message_id o' \<and> under_grant g m"
    using grant_inv_step [OF inv kept(1)] m(1) allowed by (auto simp: grant_inv_def)
  ultimately have "grant_inv sha256 g (outs @ [out]) ?h d1" unfolding grant_inv_def by blast
  then show ?thesis using res kept(2) by simp
qed

lemma publishing_inv:
  assumes "publishing sha256 grant d outs active d'" and "fleet_reachable d"
    and "mg_published_messages grant = 0" and "mg_operations grant = {}"
  shows "\<exists>h. active = Some h \<and> fleet_reachable d' \<and> grant_inv sha256 grant outs h d'"
  using assms(1)
proof induction
  case armed
  then show ?case using assms(2-4) by (auto simp: grant_inv_def same_scope_def)
next
  case (other outs active d' d'')
  then obtain h where h: "active = Some h" "fleet_reachable d'" "grant_inv sha256 grant outs h d'" by blast
  then show ?case using step_keeps_messages [OF h(2) other.hyps(2)] grant_inv_step by blast
next
  case (call outs active d' now uuid msg_now inp res active' d'')
  then show ?case using publish_keeps_grant_inv by blast
qed

text \<open>
  C11: while one invocation's grant is armed, whatever the harness publishes and
  whatever else the fleet does in between: no call panics, at most eight messages are created, and
  every message a call reported is in the log as the invocation's agent, to a named peer and not to
  itself, in the channel of the message that woke it, with that message as its cause and its
  correlation.  A repeated operation creates nothing and costs nothing.
\<close>

theorem grant_bounds_publishing:
  assumes "fleet_reachable d" and "activate now iv None = Inr grant"
    and "publishing sha256 grant d outs active d'"
  shows "length (filter out_created outs) \<le> 8
    \<and> (\<forall>out\<in>set outs. \<exists>m\<in>set (messages d'). m_id m = out_message_id out
      \<and> m_sender_id m = inv_agent_id iv \<and> m_channel_id m = msg_channel_id (inv_message iv)
      \<and> m_causation_id m = Some (msg_id (inv_message iv))
      \<and> m_correlation_id m = Some (case msg_correlation_id (inv_message iv) of
          Some c \<Rightarrow> c | None \<Rightarrow> msg_id (inv_message iv))
      \<and> (\<exists>peer. m_recipient_id m = Some peer \<and> peer \<noteq> inv_agent_id iv))
    \<and> publish sha256 now' uuid msg_now inp (active, d') \<noteq> None"
proof (intro conjI)
  have g: "mg_published_messages grant = 0" "mg_operations grant = {}"
    "mg_sender_id grant = inv_agent_id iv" "mg_channel_id grant = msg_channel_id (inv_message iv)"
    "mg_source_message_id grant = msg_id (inv_message iv)"
    "mg_correlation_id grant = (case msg_correlation_id (inv_message iv) of
       Some c \<Rightarrow> c | None \<Rightarrow> msg_id (inv_message iv))"
    using assms(2) by (auto simp: activate_def split: if_splits)
  obtain h where h: "grant_inv sha256 grant outs h d'"
    using publishing_inv [OF assms(3,1) g(1,2)] by blast
  then show "length (filter out_created outs) \<le> 8" by (simp add: grant_inv_def)
  have "under_grant grant m \<longleftrightarrow> m_sender_id m = inv_agent_id iv \<and> m_channel_id m = msg_channel_id (inv_message iv)
      \<and> m_causation_id m = Some (msg_id (inv_message iv))
      \<and> m_correlation_id m = Some (case msg_correlation_id (inv_message iv) of
          Some c \<Rightarrow> c | None \<Rightarrow> msg_id (inv_message iv))
      \<and> (\<exists>peer. m_recipient_id m = Some peer \<and> peer \<noteq> inv_agent_id iv)" for m
    using g(3-6) by (auto simp: under_grant_def)
  then show "\<forall>out\<in>set outs. \<exists>m\<in>set (messages d'). m_id m = out_message_id out
      \<and> m_sender_id m = inv_agent_id iv \<and> m_channel_id m = msg_channel_id (inv_message iv)
      \<and> m_causation_id m = Some (msg_id (inv_message iv))
      \<and> m_correlation_id m = Some (case msg_correlation_id (inv_message iv) of
          Some c \<Rightarrow> c | None \<Rightarrow> msg_id (inv_message iv))
      \<and> (\<exists>peer. m_recipient_id m = Some peer \<and> peer \<noteq> inv_agent_id iv)"
    using h unfolding grant_inv_def by simp
  show "publish sha256 now' uuid msg_now inp (active, d') \<noteq> None"
    by (cases rule: publish_cases [of sha256 now' uuid msg_now inp active d']) auto
qed

end
