(* ===== verification/Permission.thy ===== *)
theory Permission
  imports Harness_Model
begin

text \<open>
  The controller's answer to a permission request of the harness:
  \<open>crates/execution/src/permission.rs\<close>.
\<close>

section \<open>Operations\<close>

datatype permission_policy = PolicyDeny | PolicyAllowOnce

fun permission_policy_as_str :: "permission_policy \<Rightarrow> string" where
  "permission_policy_as_str PolicyDeny = ''deny''"
| "permission_policy_as_str PolicyAllowOnce = ''allow_once''"

record permission_decision =
  decision_outcome :: permission_outcome
  decision_evidence :: json_value

definition cancelled :: "permission_policy \<Rightarrow> string \<Rightarrow> permission_decision" where
  "cancelled policy reason =
     \<lparr>decision_outcome = PermissionCancelled,
      decision_evidence = json_object
        [(''policy'', JString (permission_policy_as_str policy)), (''decision'', JString ''cancelled''),
         (''reason'', JString reason)]\<rparr>"

text \<open>The closure that \<open>filter_map\<close> runs on an option.\<close>

definition allow_once_option :: "json_value \<Rightarrow> string option" where
  "allow_once_option opt =
     (if Option.bind (json_get opt ''kind'') as_str \<noteq> Some ''allow_once'' then None
      else
        (case Option.bind (json_get opt ''optionId'') as_str of
           Some option_id \<Rightarrow> if trim_is_empty option_id then None else Some option_id
         | None \<Rightarrow> None))"

definition decide :: "permission_policy \<Rightarrow> permission_requested \<Rightarrow> permission_decision" where
  "decide policy request =
     (if policy = PolicyDeny then cancelled policy ''policy_denied''
      else
        (case List.map_filter allow_once_option (pr_options request) of
           [] \<Rightarrow> cancelled policy ''allow_once_option_missing''
         | [option_id] \<Rightarrow>
             \<lparr>decision_outcome = PermissionSelected option_id,
              decision_evidence = json_object
                [(''policy'', JString (permission_policy_as_str policy)),
                 (''decision'', JString ''selected''), (''option_kind'', JString ''allow_once''),
                 (''option_id'', JString option_id)]\<rparr>
         | _ \<Rightarrow> cancelled policy ''allow_once_option_ambiguous''))"

section \<open>Consent is explicit\<close>

lemma map_filter_singleton:
  "List.map_filter f xs = [y] \<longleftrightarrow>
     (\<exists>before x after. xs = before @ x # after \<and> f x = Some y \<and> List.map_filter f (before @ after) = [])"
proof (induction xs)
  case Nil
  then show ?case by (simp add: List.map_filter_def)
next
  case (Cons z zs)
  show ?case
  proof (cases "f z")
    case None
    then have "List.map_filter f (z # zs) = List.map_filter f zs" by (simp add: List.map_filter_simps)
    moreover have "(\<exists>before x after. z # zs = before @ x # after \<and> f x = Some y
        \<and> List.map_filter f (before @ after) = [])
      \<longleftrightarrow> (\<exists>before x after. zs = before @ x # after \<and> f x = Some y
        \<and> List.map_filter f (before @ after) = [])" (is "?L \<longleftrightarrow> ?R")
    proof
      assume ?L
      then obtain before x after where *: "z # zs = before @ x # after" "f x = Some y"
        "List.map_filter f (before @ after) = []" by blast
      then show ?R using None by (cases before) (auto simp: List.map_filter_simps)
    next
      assume ?R
      then obtain before x after where "zs = before @ x # after" "f x = Some y"
        "List.map_filter f (before @ after) = []" by blast
      then show ?L using None
        by (intro exI [of _ "z # before"] exI [of _ x] exI [of _ after]) (simp add: List.map_filter_simps)
    qed
    ultimately show ?thesis using Cons.IH by simp
  next
    case (Some w)
    have empty: "List.map_filter f (before @ x # after) \<noteq> []" if "f x = Some y" for before x after y
      using that by (auto simp: List.map_filter_def)
    show ?thesis
    proof
      assume "List.map_filter f (z # zs) = [y]"
      then show "\<exists>before x after. z # zs = before @ x # after \<and> f x = Some y
          \<and> List.map_filter f (before @ after) = []"
        using Some by (intro exI [of _ "[]"] exI [of _ z] exI [of _ zs]) (simp add: List.map_filter_simps)
    next
      assume "\<exists>before x after. z # zs = before @ x # after \<and> f x = Some y
          \<and> List.map_filter f (before @ after) = []"
      then obtain before x after where *: "z # zs = before @ x # after" "f x = Some y"
        "List.map_filter f (before @ after) = []" by blast
      then have "before = []" using Some by (cases before) (auto simp: List.map_filter_simps)
      then show "List.map_filter f (z # zs) = [y]" using * by (simp add: List.map_filter_simps)
    qed
  qed
qed

lemma map_filter_Nil: "List.map_filter f xs = [] \<longleftrightarrow> (\<forall>x\<in>set xs. f x = None)"
  by (auto simp: List.map_filter_def filter_empty_conv)

lemma decide_selects:
  "decision_outcome (decide policy request) = PermissionSelected option_id \<longleftrightarrow>
     policy = PolicyAllowOnce \<and> List.map_filter allow_once_option (pr_options request) = [option_id]"
  by (cases policy) (auto simp: decide_def cancelled_def split: list.splits)

lemma allow_once_option_Some:
  "allow_once_option opt = Some option_id \<longleftrightarrow>
     json_get opt ''kind'' = Some (JString ''allow_once'') \<and> json_get opt ''optionId'' = Some (JString option_id)
     \<and> \<not> trim_is_empty option_id"
proof -
  have str: "Option.bind v as_str = Some s \<longleftrightarrow> v = Some (JString s)" for v s
    by (cases v rule: option.exhaust; cases "the v") auto
  show ?thesis by (auto simp: allow_once_option_def str split: option.splits if_splits)
qed

text \<open>
  C12: a permission is granted exactly when the seat's policy is \<open>allow_once\<close> and one
  option of the request, and no other, is of the kind \<open>allow_once\<close> with a non-blank id; the option
  selected is that one, so an \<open>allow_always\<close> option is never selected for it.  The evidence the
  turn keeps says which of the two was decided.
\<close>

theorem consent_is_explicit:
  "(decision_outcome (decide policy request) = PermissionSelected option_id \<longleftrightarrow>
      policy = PolicyAllowOnce
      \<and> (\<exists>before opt after. pr_options request = before @ opt # after
          \<and> json_get opt ''kind'' = Some (JString ''allow_once'')
          \<and> json_get opt ''optionId'' = Some (JString option_id) \<and> \<not> trim_is_empty option_id
          \<and> list_all (\<lambda>other. allow_once_option other = None) (before @ after)))
   \<and> json_get (decision_evidence (decide policy request)) ''decision'' =
       Some (JString (if decision_outcome (decide policy request) = PermissionCancelled
         then ''cancelled'' else ''selected''))"
proof -
  have "List.map_filter allow_once_option (pr_options request) = [option_id] \<longleftrightarrow>
      (\<exists>before opt after. pr_options request = before @ opt # after \<and> allow_once_option opt = Some option_id
        \<and> list_all (\<lambda>other. allow_once_option other = None) (before @ after))"
    by (simp add: map_filter_singleton map_filter_Nil list_all_iff)
  moreover have "json_get (decision_evidence (decide policy request)) ''decision'' =
       Some (JString (if decision_outcome (decide policy request) = PermissionCancelled
         then ''cancelled'' else ''selected''))"
    by (auto simp: decide_def cancelled_def split: list.splits)
  ultimately show ?thesis by (simp only: decide_selects allow_once_option_Some conj_assoc)
qed

end
