(* ===== verification/Harness_Client.thy ===== *)
theory Harness_Client
  imports Message_Grant Permission
begin

text \<open>
  The typed host side of a harness plugin: \<open>HarnessAcpClient\<close> of
  \<open>crates/plugin-host/src/harness_acp.rs\<close>, on a model of the world its caller runs in.

  A \<open>world\<close> is what one worker task sees: the store, the client's active turn, the brokers of its
  turn grants, and a log of what it did to the outside.  Every \<open>await\<close> is a tick, at which the rest
  of the fleet may move: \<open>env_others\<close> is what other tasks and processes do to the store and to the
  brokers before the awaited operation takes effect.  What the plugin answers, what the clock says
  and which identifiers are drawn are functions of the tick.  Decoding a frame is serde's.
\<close>

section \<open>The world\<close>

text \<open>
  The log: frames written to the plugin, committed transactions, what the grants were told, what a
  trajectory sink was offered (\<open>crates/execution/src/trajectory.rs\<close>), and when the plugin's process
  began and ended.
\<close>

datatype committed =
    CommittedArm | CommittedEvent u64 | CommittedTerminal | CommittedUncertain | CommittedBlock
  | CommittedCompletion | CommittedReservation | CommittedRetry | CommittedAcquisition
  | CommittedOpened | CommittedRetirement | CommittedGeneration | CommittedStop

datatype trajectory_close =
    CloseTerminal string "string option" execution_certainty bool json_value
  | CloseParked string

record trajectory_turn =
  tr_invocation_id :: string
  tr_agent_id :: string
  tr_channel_id :: string
  tr_source_message_id :: string
  tr_generation_id :: string
  tr_binding_id :: string
  tr_binding_generation :: u64
  tr_owner_epoch :: u64
  tr_correlation_id :: "string option"
  tr_causation_id :: "string option"
  tr_opened_at_ms :: i64

record trajectory_update =
  tu_invocation_id :: string
  tu_event_seq :: u64
  tu_observed_at_ms :: i64
  tu_classification :: string
  tu_raw_update :: json_value

record trajectory_outcome =
  to_invocation_id :: string
  to_closed_at_ms :: i64
  to_close :: trajectory_close

datatype effect =
    SentDescribe
  | SentOpen open_session
  | SentStart start_turn
  | SentResolve permission_resolution
  | SentCancel cancel_turn
  | SentTranscript start_transcript
  | SentClose close_session
  | Committed string committed
  | GrantActivated nat string
  | GrantRevoked nat string
  | TrajectoryOpened trajectory_turn
  | TrajectoryObserved trajectory_update
  | TrajectoryClosed trajectory_outcome
  | ProcessStarted
  | ProcessEnded

record active_turn =
  at_fence :: execution_fence
  at_last_event_seq :: u64
  at_seen :: "u64 \<rightharpoonup> string"

record world =
  w_tick :: nat
  w_db :: db
  w_turn :: "active_turn option"
  w_brokers :: "nat \<Rightarrow> broker"
  w_log :: "effect list"

record env =
  env_encode :: "json_value \<Rightarrow> string"
  env_decode :: "string \<Rightarrow> json_value option"
  env_sha256 :: "string \<Rightarrow> string"
  env_detail :: "fleet_error \<Rightarrow> string"
  env_clock :: "nat \<Rightarrow> i64"
  env_uuid :: "nat \<Rightarrow> string"
  env_others :: "nat \<Rightarrow> db \<times> (nat \<Rightarrow> broker) \<Rightarrow> db \<times> (nat \<Rightarrow> broker)"
  env_describe :: "nat \<Rightarrow> describe_result plugin_result"
  env_open :: "nat \<Rightarrow> open_session \<Rightarrow> open_session_result plugin_result"
  env_start :: "nat \<Rightarrow> start_turn \<Rightarrow> start_turn_result plugin_result"
  env_resolve :: "nat \<Rightarrow> permission_resolution \<Rightarrow> bool plugin_result"
  env_cancel :: "nat \<Rightarrow> cancel_turn \<Rightarrow> bool plugin_result"
  env_transcript :: "nat \<Rightarrow> start_transcript \<Rightarrow> bool plugin_result"
  env_close :: "nat \<Rightarrow> close_session \<Rightarrow> close_session_result plugin_result"
  env_notification :: "nat \<Rightarrow> (string \<times> json_value) plugin_result"
  env_parse_event :: "json_value \<Rightarrow> string + turn_event"
  env_parse_permission :: "json_value \<Rightarrow> string + permission_requested"
  env_parse_entry :: "json_value \<Rightarrow> string + transcript_entry"
  env_parse_complete :: "json_value \<Rightarrow> string + transcript_complete"
  env_parse_terminal :: "json_value \<Rightarrow> string + terminal_frame"
  env_ready :: "nat \<Rightarrow> bool"
  env_cut :: "nat \<Rightarrow> bool"
  env_wall_deadline :: "nat \<Rightarrow> bool"
  env_cancel_deadline :: "nat \<Rightarrow> bool"
  env_sink :: bool

text \<open>One tick: the rest of the fleet moves, then the awaited operation does.\<close>

definition world_tick :: "env \<Rightarrow> world \<Rightarrow> world" where
  "world_tick env w =
     (let (d, brokers) = env_others env (w_tick w) (w_db w, w_brokers w) in
      w\<lparr>w_tick := Suc (w_tick w), w_db := d, w_brokers := brokers\<rparr>)"

definition emit :: "effect \<Rightarrow> world \<Rightarrow> world" where
  "emit e w = w\<lparr>w_log := w_log w @ [e]\<rparr>"

definition now_at :: "env \<Rightarrow> world \<Rightarrow> i64" where
  "now_at env w = env_clock env (w_tick w)"

text \<open>A transaction of the store, logged when it commits.\<close>

definition transact ::
  "env \<Rightarrow> string \<Rightarrow> committed \<Rightarrow> (i64 \<Rightarrow> 'a transaction) \<Rightarrow> world \<Rightarrow> 'a result \<times> world" where
  "transact env key what f w =
     (let w = world_tick env w in
      case f (now_at env w) (w_db w) of
        Inl e \<Rightarrow> (Inl e, w)
      | Inr (x, d) \<Rightarrow> (Inr x, emit (Committed key what) (w\<lparr>w_db := d\<rparr>)))"

text \<open>One request to the plugin and its answer.\<close>

definition protocol_call ::
  "env \<Rightarrow> effect \<Rightarrow> (nat \<Rightarrow> 'a plugin_result) \<Rightarrow> world \<Rightarrow> 'a plugin_result \<times> world" where
  "protocol_call env request answer w =
     (let w = emit request (world_tick env w) in (answer (w_tick w), w))"

section \<open>Checks on frames\<close>

definition MAX_FLEET_ID_BYTES :: nat where "MAX_FLEET_ID_BYTES = 256"
definition HARNESS_MAX_SESSION_REF_BYTES :: nat where "HARNESS_MAX_SESSION_REF_BYTES = 4096"
definition MAX_FRAME_BYTES :: u64 where "MAX_FRAME_BYTES = 1024 * 1024"
definition MAX_CAPTURE_BYTES :: u64 where "MAX_CAPTURE_BYTES = 512 * 1024"

definition harness_validate_id :: "string \<Rightarrow> string \<Rightarrow> unit plugin_result" where
  "harness_validate_id what value =
     (if trim_is_empty value \<or> length value > MAX_FLEET_ID_BYTES
      then Inl (ProtocolError (what @ '' must contain between 1 and '' @ show_nat MAX_FLEET_ID_BYTES @ '' bytes''))
      else Inr ())"

definition validate_positive :: "string \<Rightarrow> u64 \<Rightarrow> unit plugin_result" where
  "validate_positive what value =
     (if value = 0 then Inl (ProtocolError (what @ '' must be greater than zero'')) else Inr ())"

definition validate_session_ref :: "string \<Rightarrow> unit plugin_result" where
  "validate_session_ref session_ref =
     (if session_ref = [] \<or> length session_ref > HARNESS_MAX_SESSION_REF_BYTES
      then Inl (ProtocolError (''session_ref must contain between 1 and ''
             @ show_nat HARNESS_MAX_SESSION_REF_BYTES @ '' bytes''))
      else Inr ())"

definition harness_validate_absolute_path :: "string \<Rightarrow> string \<Rightarrow> unit plugin_result" where
  "harness_validate_absolute_path what value =
     (if \<not> is_absolute value then Inl (ProtocolError (what @ '' must be an absolute path'')) else Inr ())"

definition harness_validate_binding :: "binding \<Rightarrow> unit plugin_result" where
  "harness_validate_binding b =
     and_then (harness_validate_id ''binding_id'' (bind_id b)) (\<lambda>_.
     and_then (validate_positive ''binding_generation'' (bind_generation b)) (\<lambda>_.
     validate_positive ''owner_epoch'' (bind_owner_epoch b)))"

definition validate_fence :: "execution_fence \<Rightarrow> unit plugin_result" where
  "validate_fence f =
     and_then (harness_validate_id ''binding_id'' (fence_binding_id f)) (\<lambda>_.
     and_then (validate_positive ''binding_generation'' (fence_binding_generation f)) (\<lambda>_.
     and_then (validate_positive ''owner_epoch'' (fence_owner_epoch f)) (\<lambda>_.
     and_then (harness_validate_id ''invocation_id'' (fence_invocation_id f)) (\<lambda>_.
     harness_validate_id ''fence_token'' (fence_token f)))))"

definition validate_turn_source :: "turn_source \<Rightarrow> unit plugin_result" where
  "validate_turn_source s =
     and_then (harness_validate_id ''source agent_id'' (src_agent_id s)) (\<lambda>_.
     and_then (harness_validate_id ''source message_id'' (src_message_id s)) (\<lambda>_.
     and_then (harness_validate_id ''source channel_id'' (src_channel_id s)) (\<lambda>_.
     and_then (harness_validate_id ''source sender_id'' (src_sender_id s)) (\<lambda>_.
     and_then (case src_correlation_id s of
         Some c \<Rightarrow> harness_validate_id ''source correlation_id'' c | None \<Rightarrow> Inr ()) (\<lambda>_.
     case src_causation_id s of
       Some c \<Rightarrow> harness_validate_id ''source causation_id'' c | None \<Rightarrow> Inr ())))))"

definition validate_effective_enforcement :: "effective_enforcement \<Rightarrow> unit plugin_result" where
  "validate_effective_enforcement e =
     (if ee_wall_timeout e \<noteq> ''hard'' \<or> ee_idle_timeout e \<noteq> ''hard''
        \<or> ee_cancel_drain_timeout e \<noteq> ''hard'' \<or> ee_captured_output_bytes e \<noteq> ''hard''
        \<or> ee_tool_budget e \<noteq> ''observe_then_cancel'' \<or> ee_token_budget e \<noteq> ''unavailable''
      then Inl (ProtocolError ''driver did not provide the required effective enforcement'')
      else Inr ())"

section \<open>Requests\<close>

definition harness_new :: "plugin_manifest \<Rightarrow> unit plugin_result" where
  "harness_new manifest =
     (if harness_interface \<notin> set (pm_interfaces manifest)
      then Inl (MissingInterface (plugin_interface_display harness_interface)) else Inr ())"

definition validate_description :: "describe_result \<Rightarrow> describe_result plugin_result" where
  "validate_description r =
     and_then (harness_validate_id ''driver version'' (dr_driver_version r)) (\<lambda>_.
     and_then (harness_validate_id ''ACP SDK version'' (dr_acp_sdk_version r)) (\<lambda>_.
     and_then (harness_validate_id ''runtime name'' (dr_runtime_name r)) (\<lambda>_.
     and_then (harness_validate_id ''runtime version'' (dr_runtime_version r)) (\<lambda>_.
     and_then (harness_validate_id ''runtime executable digest'' (dr_runtime_executable_digest r)) (\<lambda>_.
     and_then (harness_validate_id ''profile digest'' (dr_profile_digest r)) (\<lambda>_.
     if dr_acp_protocol_version r \<noteq> 1 \<or> dr_max_concurrent_turns r = 0 \<or> dr_max_frame_bytes r = 0
       \<or> dr_max_frame_bytes r > MAX_FRAME_BYTES
     then Inl (ProtocolError ''driver reported unusable ACP limits'')
     else Inr r))))))"

definition harness_describe :: "env \<Rightarrow> world \<Rightarrow> describe_result plugin_result \<times> world" where
  "harness_describe env w =
     (let (reply, w) = protocol_call env SentDescribe (env_describe env) w in
      (and_then reply validate_description, w))"

definition validate_open_request :: "open_session \<Rightarrow> unit plugin_result" where
  "validate_open_request request =
     and_then (harness_validate_binding (os_binding request)) (\<lambda>_.
     and_then (harness_validate_id ''profile_digest'' (os_profile_digest request)) (\<lambda>_.
     and_then (harness_validate_absolute_path ''working_directory'' (os_working_directory request)) (\<lambda>_.
     and_then (try_fold (\<lambda>dir _. harness_validate_absolute_path ''additional_directory'' dir)
       (os_additional_directories request) ()) (\<lambda>_.
     case os_mode request of OpenResume session_ref \<Rightarrow> validate_session_ref session_ref | OpenCreate \<Rightarrow> Inr ()))))"

definition validate_open_result :: "open_session \<Rightarrow> open_session_result \<Rightarrow> open_session_result plugin_result" where
  "validate_open_result request r =
     and_then (validate_session_ref (osr_session_ref r)) (\<lambda>_.
     if osr_profile_digest r \<noteq> os_profile_digest request
     then Inl (ProtocolError ''session profile digest does not match request'')
     else
       (case os_mode request of
          OpenCreate \<Rightarrow>
            if osr_resumed r then Inl (ProtocolError ''created session was reported as resumed'') else Inr r
        | OpenResume session_ref \<Rightarrow>
            if \<not> osr_resumed r \<or> osr_session_ref r \<noteq> session_ref
            then Inl (ProtocolError ''resumed session did not preserve its native reference'')
            else Inr r))"

definition harness_open_session ::
  "env \<Rightarrow> open_session \<Rightarrow> world \<Rightarrow> open_session_result plugin_result \<times> world" where
  "harness_open_session env request w =
     (case validate_open_request request of
        Inl e \<Rightarrow> (Inl e, w)
      | Inr _ \<Rightarrow>
          (let (reply, w) = protocol_call env (SentOpen request) (\<lambda>n. env_open env n request) w in
           (and_then reply (validate_open_result request), w)))"

definition validate_start_request :: "active_turn option \<Rightarrow> start_turn \<Rightarrow> unit plugin_result" where
  "validate_start_request active request =
     (if active \<noteq> None then Inl (ProtocolError ''a harness turn is already active'')
      else
        and_then (validate_fence (st_fence request)) (\<lambda>_.
        and_then (validate_session_ref (st_session_ref request)) (\<lambda>_.
        and_then (validate_turn_source (st_source request)) (\<lambda>_.
        if st_prompt request = [] then Inl (ProtocolError ''turn prompt must contain at least one block'')
        else if tp_idle_timeout_ms (st_policy request) = 0 \<or> tp_wall_timeout_ms (st_policy request) = 0
          \<or> tp_cancel_drain_timeout_ms (st_policy request) = 0
          \<or> tp_max_captured_output_bytes (st_policy request) = 0
          \<or> tp_max_captured_output_bytes (st_policy request) > MAX_CAPTURE_BYTES
        then Inl (ProtocolError ''turn policy bounds are invalid'')
        else if tp_permission_policy (st_policy request) \<noteq> ''controller''
          \<or> budget_required_enforcement (tp_tool_budget (st_policy request)) \<noteq> ''observe_then_cancel''
          \<or> tp_token_budget (st_policy request) \<noteq> None
        then Inl (ProtocolError ''turn requests unsupported enforcement'')
        else Inr ()))))"

definition validate_start_result :: "start_turn_result \<Rightarrow> start_turn_result plugin_result" where
  "validate_start_result r =
     (if \<not> str_accepted r then Inl (ProtocolError ''driver returned an unaccepted turn as success'')
      else and_then (validate_effective_enforcement (str_effective_enforcement r)) (\<lambda>_. Inr r))"

definition harness_start_turn ::
  "env \<Rightarrow> start_turn \<Rightarrow> world \<Rightarrow> start_turn_result plugin_result \<times> world" where
  "harness_start_turn env request w =
     (case validate_start_request (w_turn w) request of
        Inl e \<Rightarrow> (Inl e, w)
      | Inr _ \<Rightarrow>
          (let (reply, w) = protocol_call env (SentStart request) (\<lambda>n. env_start env n request) w in
           case and_then reply validate_start_result of
             Inl e \<Rightarrow> (Inl e, w)
           | Inr r \<Rightarrow>
               (Inr r, w\<lparr>w_turn := Some \<lparr>at_fence = st_fence request, at_last_event_seq = 0,
                  at_seen = Map.empty\<rparr>\<rparr>)))"

definition validate_active_fence :: "active_turn option \<Rightarrow> execution_fence \<Rightarrow> active_turn plugin_result" where
  "validate_active_fence active fence =
     and_then (validate_fence fence) (\<lambda>_.
     and_then (ok_or active (ProtocolError ''no harness turn is active'')) (\<lambda>turn.
     if at_fence turn \<noteq> fence
     then Inl (ProtocolError ''notification or request fence does not match active turn'')
     else Inr turn))"

definition harness_resolve_permission ::
  "env \<Rightarrow> permission_resolution \<Rightarrow> world \<Rightarrow> unit plugin_result \<times> world" where
  "harness_resolve_permission env request w =
     (case and_then (validate_active_fence (w_turn w) (res_fence request)) (\<lambda>_.
             harness_validate_id ''permission_id'' (res_permission_id request)) of
        Inl e \<Rightarrow> (Inl e, w)
      | Inr _ \<Rightarrow>
          (let (reply, w) = protocol_call env (SentResolve request) (\<lambda>n. env_resolve env n request) w in
           (and_then reply (\<lambda>accepted.
              if \<not> accepted then Inl (ProtocolError ''driver rejected permission resolution'') else Inr ()), w)))"

definition harness_cancel_turn :: "env \<Rightarrow> string \<Rightarrow> world \<Rightarrow> unit plugin_result \<times> world" where
  "harness_cancel_turn env reason w =
     (case and_then (ok_or (w_turn w) (ProtocolError ''no harness turn is active'')) (\<lambda>active.
             and_then (harness_validate_id ''cancellation reason'' reason) (\<lambda>_.
             Inr \<lparr>ct_fence = at_fence active, ct_reason = reason\<rparr>)) of
        Inl e \<Rightarrow> (Inl e, w)
      | Inr request \<Rightarrow>
          (let (reply, w) = protocol_call env (SentCancel request) (\<lambda>n. env_cancel env n request) w in
           (and_then reply (\<lambda>accepted.
              if \<not> accepted then Inl (ProtocolError ''driver rejected turn cancellation'') else Inr ()), w)))"

definition harness_start_transcript ::
  "env \<Rightarrow> start_transcript \<Rightarrow> world \<Rightarrow> unit plugin_result \<times> world" where
  "harness_start_transcript env request w =
     (case (if w_turn w \<noteq> None
            then Inl (ProtocolError ''cannot replay a transcript while a turn is active'')
            else
              and_then (harness_validate_id ''binding_id'' (sx_binding_id request)) (\<lambda>_.
              and_then (validate_positive ''binding_generation'' (sx_binding_generation request)) (\<lambda>_.
              and_then (validate_positive ''owner_epoch'' (sx_owner_epoch request)) (\<lambda>_.
              validate_session_ref (sx_session_ref request))))) of
        Inl e \<Rightarrow> (Inl e, w)
      | Inr _ \<Rightarrow>
          (let (reply, w) = protocol_call env (SentTranscript request) (\<lambda>n. env_transcript env n request) w in
           (and_then reply (\<lambda>accepted.
              if \<not> accepted
              then Inl (ProtocolError ''harness refused a transcript replay without an error'')
              else Inr ()), w)))"

definition harness_close_session ::
  "env \<Rightarrow> close_session \<Rightarrow> world \<Rightarrow> close_session_result plugin_result \<times> world" where
  "harness_close_session env request w =
     (case (if w_turn w \<noteq> None then Inl (ProtocolError ''cannot close a session with an active turn'')
            else
              and_then (harness_validate_id ''binding_id'' (cs_binding_id request)) (\<lambda>_.
              and_then (validate_positive ''binding_generation'' (cs_binding_generation request)) (\<lambda>_.
              and_then (validate_positive ''owner_epoch'' (cs_owner_epoch request)) (\<lambda>_.
              and_then (validate_session_ref (cs_session_ref request)) (\<lambda>_.
              harness_validate_id ''close reason'' (cs_reason request)))))) of
        Inl e \<Rightarrow> (Inl e, w)
      | Inr _ \<Rightarrow> protocol_call env (SentClose request) (\<lambda>n. env_close env n request) w)"

section \<open>Notifications\<close>

definition admit_event ::
  "env \<Rightarrow> execution_fence \<Rightarrow> u64 \<Rightarrow> json_value \<Rightarrow> active_turn option \<Rightarrow> active_turn plugin_result" where
  "admit_event env fence event_seq raw active =
     and_then (validate_active_fence active fence) (\<lambda>turn.
     and_then (validate_positive ''event_seq'' event_seq) (\<lambda>_.
     let digest = env_sha256 env (env_encode env raw) in
     case at_seen turn event_seq of
       Some previous \<Rightarrow>
         if previous = digest then Inr turn
         else Inl (ProtocolError ''event sequence was reused with different content'')
     | None \<Rightarrow>
         and_then (ok_or (checked_add_u64 (at_last_event_seq turn) 1)
           (ProtocolError ''event sequence overflowed'')) (\<lambda>expected.
         if event_seq \<noteq> expected
         then Inl (ProtocolError (''event sequence is not contiguous: expected ''
                @ show_int (uint expected) @ '', received '' @ show_int (uint event_seq)))
         else Inr (turn\<lparr>at_seen := (at_seen turn)(event_seq \<mapsto> digest), at_last_event_seq := event_seq\<rparr>))))"

definition assistant_bounds_ok :: "u64 \<Rightarrow> assistant_message \<Rightarrow> bool" where
  "assistant_bounds_ok final_seq m \<longleftrightarrow>
     \<not> (am_first_event_seq m = 0 \<or> am_first_event_seq m > am_last_event_seq m \<or> am_last_event_seq m > final_seq)"

definition validate_terminal :: "active_turn option \<Rightarrow> terminal_frame \<Rightarrow> unit plugin_result" where
  "validate_terminal active t =
     and_then (validate_active_fence active (tf_fence t)) (\<lambda>turn.
     if tf_last_event_seq t \<noteq> at_last_event_seq turn
     then Inl (ProtocolError (''terminal event sequence does not match admitted evidence: expected ''
            @ show_int (uint (at_last_event_seq turn)) @ '', received '' @ show_int (uint (tf_last_event_seq t))))
     else
       and_then (harness_validate_id ''terminal stop reason'' (tf_stop_reason t)) (\<lambda>_.
       if tf_execution_certainty t = HarnessNotStarted
       then Inl (ProtocolError ''an accepted turn cannot terminate with not-started certainty'')
       else if tf_session_quiescent t \<and> tf_execution_certainty t = HarnessOutcomeUnknown
       then Inl (ProtocolError ''outcome-unknown terminal evidence cannot claim a quiescent session'')
       else if \<not> list_all (assistant_bounds_ok (tf_last_event_seq t)) (tf_assistant_messages t)
       then Inl (ProtocolError ''assistant message references invalid turn event bounds'')
       else Inr ()))"

definition json_or_error :: "string + 'a \<Rightarrow> 'a plugin_result" where
  "json_or_error r = (case r of Inl text \<Rightarrow> Inl (PluginJson text) | Inr x \<Rightarrow> Inr x)"

text \<open>
  The body of \<open>next_notification\<close> once a frame has arrived: the notification and the active turn
  it leaves.
\<close>

definition admit_notification ::
  "env \<Rightarrow> string \<Rightarrow> json_value \<Rightarrow> active_turn option
    \<Rightarrow> (harness_notification \<times> active_turn option) plugin_result" where
  "admit_notification env note_method params active =
     (if note_method = ''harness.acp.turn.event'' then
        and_then (json_or_error (env_parse_event env params)) (\<lambda>event.
        and_then (harness_validate_id ''event classification'' (te_classification event)) (\<lambda>_.
        and_then (admit_event env (te_fence event) (te_event_seq event) (turn_event_value event) active) (\<lambda>turn.
        Inr (NoteEvent event, Some turn))))
      else if note_method = ''harness.acp.permission.requested'' then
        and_then (json_or_error (env_parse_permission env params)) (\<lambda>request.
        and_then (harness_validate_id ''permission_id'' (pr_permission_id request)) (\<lambda>_.
        and_then (admit_event env (pr_fence request) (pr_event_seq request) (permission_value request) active) (\<lambda>turn.
        Inr (NotePermission request, Some turn))))
      else if note_method = ''harness.acp.session.transcript.entry'' then
        and_then (json_or_error (env_parse_entry env params)) (\<lambda>entry.
        and_then (harness_validate_id ''entry classification'' (xe_classification entry)) (\<lambda>_.
        Inr (NoteTranscriptEntry entry, active)))
      else if note_method = ''harness.acp.session.transcript.complete'' then
        and_then (json_or_error (env_parse_complete env params)) (\<lambda>complete.
        Inr (NoteTranscriptComplete complete, active))
      else if note_method = ''harness.acp.turn.terminal'' then
        and_then (json_or_error (env_parse_terminal env params)) (\<lambda>terminal.
        and_then (validate_terminal active terminal) (\<lambda>_.
        Inr (NoteTerminal terminal, None)))
      else Inl (ProtocolError (''unexpected notification for harness client: '' @ note_method)))"

definition harness_next_notification :: "env \<Rightarrow> world \<Rightarrow> harness_notification plugin_result \<times> world" where
  "harness_next_notification env w =
     (let w = world_tick env w in
      case and_then (env_notification env (w_tick w)) (\<lambda>(note_method, params).
             admit_notification env note_method params (w_turn w)) of
        Inl e \<Rightarrow> (Inl e, w)
      | Inr (note, active) \<Rightarrow> (Inr note, w\<lparr>w_turn := active\<rparr>))"

end
