(* ===== verification/Controller.thy ===== *)
theory Controller
  imports Harness_Client Session_Turns
begin

text \<open>
  The managed harness controller: \<open>crates/execution/src/controller.rs\<close>.  It arms a reserved
  invocation on its session, dispatches the prompt, drains the turn's evidence into the store, and
  settles: a known and quiescent outcome completes the invocation, anything else blocks the delivery.

  The future that drains a turn is polled together with a deadline and may be dropped at any of its
  awaits.  It is a sequence of stages, one per await.  At a tick where the awaited operation is not
  \<open>env_ready\<close> the other branches of the \<open>select!\<close> are asked; if one of them fires, the operation
  that was under way has taken effect or has not, which is \<open>env_cut\<close>, except that receiving a
  notification is never half done.  A loop that goes on for ever is the value \<open>None\<close>.
\<close>

section \<open>Data\<close>

datatype managed_turn_interruption = InterruptShutdown | InterruptNewer string

datatype turn_result_capture = CaptureTranscript | CaptureFinalJson

text \<open>
  The grants of a turn are the names of their brokers in the world; its interruption, if it has
  one, is what that future yields when it is polled.
\<close>

record managed_turn =
  mt_invocation :: invocation
  mt_generation_id :: string
  mt_binding :: binding
  mt_session_ref :: string
  mt_prompt :: "prompt_block list"
  mt_policy :: turn_policy
  mt_grants :: "nat list"
  mt_result_kind :: string
  mt_result_capture :: turn_result_capture
  mt_result_context :: json_value
  mt_permission_policy :: permission_policy
  mt_interruption :: "(world \<Rightarrow> managed_turn_interruption option) option"

datatype managed_turn_outcome =
    OutcomeCompleted invocation_completion
  | OutcomeInterrupted invocation_completion managed_turn_interruption
  | OutcomeBlocked blocked_delivery

datatype managed_turn_error =
    TurnInvalid string
  | TurnFleet fleet_error
  | HarnessBeforeArm plugin_error

datatype host_stop_reason = WallDeadline | WorkerShutdown | NewerMessage string

fun host_stop_as_str :: "host_stop_reason \<Rightarrow> string" where
  "host_stop_as_str WallDeadline = ''host_wall_deadline''"
| "host_stop_as_str WorkerShutdown = ''host_worker_shutdown''"
| "host_stop_as_str (NewerMessage _) = ''host_newer_message''"

fun host_stop_cancel_reason :: "host_stop_reason \<Rightarrow> string" where
  "host_stop_cancel_reason WallDeadline = ''wall_deadline''"
| "host_stop_cancel_reason WorkerShutdown = ''worker_shutdown''"
| "host_stop_cancel_reason (NewerMessage _) = ''newer_message''"

fun host_stop_is_interruption :: "host_stop_reason \<Rightarrow> bool" where
  "host_stop_is_interruption WallDeadline = False"
| "host_stop_is_interruption WorkerShutdown = True"
| "host_stop_is_interruption (NewerMessage _) = True"

fun host_stop_interruption :: "host_stop_reason \<Rightarrow> managed_turn_interruption option" where
  "host_stop_interruption WorkerShutdown = Some InterruptShutdown"
| "host_stop_interruption (NewerMessage m) = Some (InterruptNewer m)"
| "host_stop_interruption WallDeadline = None"

fun host_stop_from :: "managed_turn_interruption \<Rightarrow> host_stop_reason" where
  "host_stop_from InterruptShutdown = WorkerShutdown"
| "host_stop_from (InterruptNewer m) = NewerMessage m"

datatype turn_drain_error =
    UnexpectedNotification string
  | DrainPlugin plugin_error
  | DrainEvidence fleet_error

fun turn_drain_error_display :: "env \<Rightarrow> turn_drain_error \<Rightarrow> string" where
  "turn_drain_error_display env (UnexpectedNotification what) =
     ''harness sent '' @ what @ '' while a turn was draining''"
| "turn_drain_error_display env (DrainPlugin e) = ''harness protocol failed: '' @ plugin_error_display e"
| "turn_drain_error_display env (DrainEvidence e) =
     ''durable invocation evidence failed: '' @ fleet_error_display (env_detail env) e"

fun managed_turn_error_display :: "env \<Rightarrow> managed_turn_error \<Rightarrow> string" where
  "managed_turn_error_display env (TurnInvalid m) = ''managed turn input is invalid: '' @ m"
| "managed_turn_error_display env (TurnFleet e) =
     ''managed turn persistence failed: '' @ fleet_error_display (env_detail env) e"
| "managed_turn_error_display env (HarnessBeforeArm e) =
     ''managed harness failed before dispatch was armed: '' @ plugin_error_display e"

record terminal_evidence =
  tev_terminal :: terminal_frame
  tev_host_stop_reason :: "host_stop_reason option"

datatype terminal_drain = DrainTerminal terminal_evidence | DrainBlocked blocked_delivery

section \<open>Input checks and reasons\<close>

definition validate_turn :: "managed_turn \<Rightarrow> managed_turn_error + unit" where
  "validate_turn turn =
     (if inv_state (mt_invocation turn) \<noteq> Reserved
      then Inl (TurnInvalid ''invocation must be reserved before managed dispatch'')
      else if trim_is_empty (mt_generation_id turn)
      then Inl (TurnInvalid ''plugin generation ID must not be empty'')
      else if inv_agent_id (mt_invocation turn) = msg_sender_id (inv_message (mt_invocation turn))
      then Inl (TurnInvalid ''managed invocation cannot answer its own source message'')
      else if trim_is_empty (mt_result_kind turn) \<or> mt_prompt turn = []
      then Inl (TurnInvalid ''result kind and prompt must not be empty'')
      else Inr ())"

text \<open>\<open>str::is_char_boundary\<close>: a byte that does not continue a UTF-8 sequence, or the end.\<close>

definition is_char_boundary :: "string \<Rightarrow> nat \<Rightarrow> bool" where
  "is_char_boundary s i \<longleftrightarrow>
     i = 0 \<or> i = length s \<or> i < length s \<and> \<not> (128 \<le> (of_char (s ! i) :: nat) \<and> (of_char (s ! i) :: nat) < 192)"

fun boundary_below :: "string \<Rightarrow> nat \<Rightarrow> nat" where
  "boundary_below s 0 = 0"
| "boundary_below s (Suc n) = (if is_char_boundary s (Suc n) then Suc n else boundary_below s n)"

definition REASON_LIMIT :: nat where "REASON_LIMIT = 4096"

definition bounded_reason :: "string \<Rightarrow> string" where
  "bounded_reason reason =
     (if length reason \<le> REASON_LIMIT then reason else take (boundary_below reason REASON_LIMIT) reason)"

definition start_turn_request ::
  "invocation \<Rightarrow> binding \<Rightarrow> string \<Rightarrow> prompt_block list \<Rightarrow> turn_policy \<Rightarrow> start_turn" where
  "start_turn_request i b session_ref prompt policy =
     \<lparr>st_fence = \<lparr>fence_binding_id = bind_id b, fence_binding_generation = bind_generation b,
        fence_owner_epoch = bind_owner_epoch b, fence_invocation_id = inv_id i,
        fence_token = inv_fence_token i\<rparr>,
      st_session_ref = session_ref,
      st_source = \<lparr>src_agent_id = inv_agent_id i, src_message_id = msg_id (inv_message i),
        src_channel_id = msg_channel_id (inv_message i), src_sender_id = msg_sender_id (inv_message i),
        src_correlation_id = msg_correlation_id (inv_message i),
        src_causation_id = msg_causation_id (inv_message i)\<rparr>,
      st_prompt = prompt, st_policy = policy\<rparr>"

section \<open>Results\<close>

fun event_bounds :: "u64 \<Rightarrow> assistant_message list \<Rightarrow> bool" where
  "event_bounds previous_last [] = True"
| "event_bounds previous_last (m # ms) =
     (\<not> (am_first_event_seq m = 0 \<or> am_first_event_seq m > am_last_event_seq m
         \<or> am_first_event_seq m \<le> previous_last) \<and> event_bounds (am_last_event_seq m) ms)"

fun distinct_ids :: "string set \<Rightarrow> assistant_message list \<Rightarrow> bool" where
  "distinct_ids ids [] = True"
| "distinct_ids ids (m # ms) =
     (case am_message_id m of
        None \<Rightarrow> False
      | Some i \<Rightarrow> i \<notin> ids \<and> distinct_ids (insert i ids) ms)"

definition select_final_assistant_message :: "assistant_message list \<Rightarrow> string + assistant_message \<times> string" where
  "select_final_assistant_message ms =
     (if ms = [] then Inl ''no_assistant_message''
      else if \<not> event_bounds 0 ms then Inl ''invalid_message_event_bounds''
      else if length ms = 1 then Inr (last ms, ''only_assistant_message'')
      else if \<not> distinct_ids {} ms then Inl ''ambiguous_message_boundary''
      else Inr (last ms, ''last_identified_assistant_message''))"

fun text_fragments :: "json_value list \<Rightarrow> string option" where
  "text_fragments [] = Some []"
| "text_fragments (block # blocks) =
     (if Option.bind (json_get block ''type'') as_str \<noteq> Some ''text'' then None
      else Option.bind (Option.bind (json_get block ''text'') as_str) (\<lambda>fragment.
        map_option (\<lambda>rest. fragment @ rest) (text_fragments blocks)))"

definition unavailable :: "string \<Rightarrow> json_value" where
  "unavailable reason = json_object [(''status'', JString ''unavailable''), (''reason'', JString reason)]"

definition capture_final_assistant_json :: "(string \<Rightarrow> json_value option) \<Rightarrow> assistant_message list \<Rightarrow> json_value" where
  "capture_final_assistant_json decode ms =
     (case select_final_assistant_message ms of
        Inl reason \<Rightarrow> unavailable reason
      | Inr (m, selection) \<Rightarrow>
          if \<not> am_complete m then unavailable ''incomplete_final_message''
          else
            (case text_fragments (am_content m) of
               None \<Rightarrow> unavailable ''unsupported_final_content''
             | Some text \<Rightarrow>
                 if trim_is_empty text then unavailable ''empty_final_message''
                 else
                   (case decode text of
                      None \<Rightarrow> unavailable ''malformed_final_json''
                    | Some v \<Rightarrow> json_object
                        [(''status'', JString ''captured''),
                         (''source'', json_object
                            [(''selection'', JString selection),
                             (''message_id'', json_opt JString (am_message_id m)),
                             (''first_event_seq'', json_u64 (am_first_event_seq m)),
                             (''last_event_seq'', json_u64 (am_last_event_seq m))]),
                         (''value'', v)])))"

text \<open>The status, from what ended the turn and from the transcript.\<close>

definition terminal_success :: "terminal_frame \<Rightarrow> host_stop_reason option \<Rightarrow> bool" where
  "terminal_success t host \<longleftrightarrow> host = None \<and> tf_runtime_stop_reason t = None
     \<and> tf_stop_reason t = ''end_turn'' \<and> list_all am_complete (tf_assistant_messages t)"

definition result_status :: "terminal_frame \<Rightarrow> host_stop_reason option \<Rightarrow> string" where
  "result_status t host =
     (if (case host of Some r \<Rightarrow> host_stop_is_interruption r | None \<Rightarrow> False) then ''interrupted''
      else if terminal_success t host then ''completed''
      else ''failed'')"

definition terminal_payload ::
  "(string \<Rightarrow> json_value option) \<Rightarrow> string \<Rightarrow> turn_result_capture \<Rightarrow> json_value \<Rightarrow> terminal_frame
    \<Rightarrow> host_stop_reason option \<Rightarrow> json_value" where
  "terminal_payload decode invocation_id capture context t host =
     (let transcript_complete = list_all am_complete (tf_assistant_messages t);
          effective = (case host of None \<Rightarrow> tf_stop_reason t | Some r \<Rightarrow> host_stop_as_str r);
          runtime = (if host \<noteq> None then
              (case tf_runtime_stop_reason t of None \<Rightarrow> Some (tf_stop_reason t) | Some r \<Rightarrow> Some r)
            else tf_runtime_stop_reason t);
          status = result_status t host;
          entries =
            (case capture of
               CaptureTranscript \<Rightarrow>
                 [(''status'', JString status), (''invocation_id'', JString invocation_id),
                  (''stop_reason'', JString effective), (''output_complete'', JBool transcript_complete),
                  (''assistant_messages'', JArray (map assistant_message_value (tf_assistant_messages t))),
                  (''usage'', tf_usage t),
                  (''session_persistence'', JString (session_persistence_as_str (tf_session_persistence t))),
                  (''result_context'', context)]
             | CaptureFinalJson \<Rightarrow>
                 let structured = capture_final_assistant_json decode (tf_assistant_messages t);
                     captured = json_get structured ''status'' = Some (JString ''captured'') in
                 [(''status'', JString (if status = ''interrupted'' then ''interrupted''
                      else if terminal_success t host \<and> captured then ''completed'' else ''failed'')),
                  (''invocation_id'', JString invocation_id), (''stop_reason'', JString effective),
                  (''transcript_complete'', JBool transcript_complete),
                  (''assistant_messages'', JArray (map assistant_message_value (tf_assistant_messages t))),
                  (''structured_result'', structured), (''usage'', tf_usage t),
                  (''session_persistence'', JString (session_persistence_as_str (tf_session_persistence t))),
                  (''result_context'', context)]) in
      json_object (entries
        @ (case runtime of None \<Rightarrow> [] | Some r \<Rightarrow> [(''runtime_stop_reason'', JString r)])
        @ (case host of Some (NewerMessage m) \<Rightarrow> [(''interrupted_by_message_id'', JString m)] | _ \<Rightarrow> [])))"

section \<open>Trajectory and grants\<close>

definition offer :: "env \<Rightarrow> effect \<Rightarrow> world \<Rightarrow> world" where
  "offer env e w = (if env_sink env then emit e w else w)"

definition open_trajectory :: "env \<Rightarrow> invocation \<Rightarrow> string \<Rightarrow> binding \<Rightarrow> world \<Rightarrow> world" where
  "open_trajectory env i generation_id b w = offer env (TrajectoryOpened
     \<lparr>tr_invocation_id = inv_id i, tr_agent_id = inv_agent_id i,
      tr_channel_id = msg_channel_id (inv_message i), tr_source_message_id = msg_id (inv_message i),
      tr_generation_id = generation_id, tr_binding_id = bind_id b,
      tr_binding_generation = bind_generation b, tr_owner_epoch = bind_owner_epoch b,
      tr_correlation_id = msg_correlation_id (inv_message i),
      tr_causation_id = msg_causation_id (inv_message i), tr_opened_at_ms = now_at env w\<rparr>) w"

definition close_trajectory :: "env \<Rightarrow> string \<Rightarrow> trajectory_close \<Rightarrow> world \<Rightarrow> world" where
  "close_trajectory env invocation_id close w = offer env (TrajectoryClosed
     \<lparr>to_invocation_id = invocation_id, to_closed_at_ms = now_at env w, to_close = close\<rparr>) w"

definition closing_on_error ::
  "env \<Rightarrow> string \<Rightarrow> (managed_turn_error + 'a) \<times> world \<Rightarrow> (managed_turn_error + 'a) \<times> world" where
  "closing_on_error env invocation_id r =
     (case r of
        (Inl e, w) \<Rightarrow> (Inl e, close_trajectory env invocation_id (CloseParked
           (''managed turn failed after arming: '' @ managed_turn_error_display env e)) w)
      | (Inr x, w) \<Rightarrow> (Inr x, w))"

text \<open>\<open>ManagedTurnGrant\<close> has one implementation, the message broker.\<close>

definition grant_activate :: "env \<Rightarrow> invocation \<Rightarrow> nat \<Rightarrow> world \<Rightarrow> (string + unit) \<times> world" where
  "grant_activate env i g w =
     (let w = world_tick env w in
      case activate (now_at env w) i (w_brokers w g) of
        Inl e \<Rightarrow> (Inl e, w)
      | Inr grant \<Rightarrow>
          (Inr (), emit (GrantActivated g (inv_id i)) (w\<lparr>w_brokers := (w_brokers w)(g := Some grant)\<rparr>)))"

definition grant_deactivate :: "env \<Rightarrow> string \<Rightarrow> nat \<Rightarrow> world \<Rightarrow> world" where
  "grant_deactivate env invocation_id g w =
     (let w = world_tick env w in
      emit (GrantRevoked g invocation_id)
        (w\<lparr>w_brokers := (w_brokers w)(g := deactivate invocation_id (w_brokers w g))\<rparr>))"

definition revoke_grants :: "env \<Rightarrow> nat list \<Rightarrow> string \<Rightarrow> world \<Rightarrow> world" where
  "revoke_grants env grants invocation_id w =
     fold (grant_deactivate env invocation_id) (rev grants) w"

text \<open>The loop over the grants; on a failure, the number that were activated before it.\<close>

fun activate_grants :: "env \<Rightarrow> invocation \<Rightarrow> nat \<Rightarrow> nat list \<Rightarrow> world \<Rightarrow> (nat \<times> string) option \<times> world" where
  "activate_grants env i activated [] w = (None, w)"
| "activate_grants env i activated (g # gs) w =
     (case grant_activate env i g w of
        (Inl e, w) \<Rightarrow> (Some (activated, e), w)
      | (Inr _, w) \<Rightarrow> activate_grants env i (Suc activated) gs w)"

section \<open>Blocking\<close>

definition block :: "env \<Rightarrow> invocation \<Rightarrow> binding \<Rightarrow> string \<Rightarrow> world \<Rightarrow> blocked_delivery result \<times> world" where
  "block env i b reason w =
     (let reason = bounded_reason reason in
      case transact env (inv_id i) CommittedUncertain (\<lambda>now.
             mark_session_invocation_uncertain now (inv_agent_id i) (inv_id i) b reason) w of
        (Inl e, w) \<Rightarrow> (Inl e, w)
      | (Inr _, w) \<Rightarrow>
          (case transact env (inv_id i) CommittedBlock (\<lambda>now.
                  block_delivery now (inv_agent_id i) (msg_id (inv_message i))
                    \<lparr>block_lease_token = inv_lease_token i, block_reason = reason\<rparr>) w of
             (Inl e, w) \<Rightarrow> (Inl e, w)
           | (Inr (blocked, _), w) \<Rightarrow>
               (Inr blocked, close_trajectory env (inv_id i) (CloseParked reason) w)))"

definition block_after_arm ::
  "env \<Rightarrow> invocation \<Rightarrow> binding \<Rightarrow> string \<Rightarrow> world \<Rightarrow> (managed_turn_error + managed_turn_outcome) \<times> world" where
  "block_after_arm env i b reason w =
     (case block env i b reason w of
        (Inl e, w) \<Rightarrow> (Inl (TurnFleet e), w)
      | (Inr blocked, w) \<Rightarrow> (Inr (OutcomeBlocked blocked), w))"

definition blocked_drain ::
  "env \<Rightarrow> invocation \<Rightarrow> binding \<Rightarrow> string \<Rightarrow> world \<Rightarrow> (managed_turn_error + terminal_drain) \<times> world" where
  "blocked_drain env i b reason w =
     (case block env i b reason w of
        (Inl e, w) \<Rightarrow> (Inl (TurnFleet e), w)
      | (Inr blocked, w) \<Rightarrow> (Inr (DrainBlocked blocked), w))"

section \<open>Draining a turn\<close>

datatype drain_stage =
    AwaitNotification
  | AwaitEvent turn_event
  | AwaitPermission permission_requested permission_decision i64
  | AwaitResolve permission_requested permission_decision
  | AwaitTerminal terminal_frame

definition permission_evidence :: "permission_requested \<Rightarrow> permission_decision \<Rightarrow> json_value" where
  "permission_evidence p decision =
     (case json_insert (permission_value p) ''controller_resolution'' (decision_evidence decision) of
        Some v \<Rightarrow> v
      | None \<Rightarrow> permission_value p)"

definition observe ::
  "env \<Rightarrow> string \<Rightarrow> u64 \<Rightarrow> i64 \<Rightarrow> string \<Rightarrow> json_value \<Rightarrow> world \<Rightarrow> world" where
  "observe env invocation_id seq observed_at classification raw w =
     offer env (TrajectoryObserved \<lparr>tu_invocation_id = invocation_id, tu_event_seq = seq,
       tu_observed_at_ms = observed_at, tu_classification = classification, tu_raw_update = raw\<rparr>) w"

definition drain_step ::
  "env \<Rightarrow> string \<Rightarrow> execution_fence \<Rightarrow> permission_policy \<Rightarrow> drain_stage \<Rightarrow> world
    \<Rightarrow> ((turn_drain_error + terminal_frame) + drain_stage) \<times> world" where
  "drain_step env generation_id fence policy stage w =
     (case stage of
        AwaitNotification \<Rightarrow>
          (case harness_next_notification env w of
             (Inl e, w) \<Rightarrow> (Inl (Inl (DrainPlugin e)), w)
           | (Inr (NoteEvent event), w) \<Rightarrow> (Inr (AwaitEvent event), w)
           | (Inr (NotePermission p), w) \<Rightarrow>
               (Inr (AwaitPermission p (decide policy p) (now_at env w)), w)
           | (Inr (NoteTranscriptEntry _), w) \<Rightarrow>
               (Inl (Inl (UnexpectedNotification ''a transcript entry'')), w)
           | (Inr (NoteTranscriptComplete _), w) \<Rightarrow>
               (Inl (Inl (UnexpectedNotification ''a transcript completion'')), w)
           | (Inr (NoteTerminal t), w) \<Rightarrow> (Inr (AwaitTerminal t), w))
      | AwaitEvent event \<Rightarrow>
          (case transact env (fence_invocation_id fence) (CommittedEvent (te_event_seq event)) (\<lambda>now.
                  record_invocation_event (env_sha256 env) now generation_id (fence_invocation_id fence)
                    (te_event_seq event) (te_observed_at_ms event) (te_classification event)
                    (env_encode env (te_raw_update event))) w of
             (Inl e, w) \<Rightarrow> (Inl (Inl (DrainEvidence e)), w)
           | (Inr _, w) \<Rightarrow> (Inr AwaitNotification,
               observe env (fence_invocation_id fence) (te_event_seq event) (te_observed_at_ms event)
                 (te_classification event) (te_raw_update event) w))
      | AwaitPermission p decision observed_at \<Rightarrow>
          (case transact env (fence_invocation_id fence) (CommittedEvent (pr_event_seq p)) (\<lambda>now.
                  record_invocation_event (env_sha256 env) now generation_id (fence_invocation_id fence)
                    (pr_event_seq p) observed_at ''permission_request''
                    (env_encode env (permission_evidence p decision))) w of
             (Inl e, w) \<Rightarrow> (Inl (Inl (DrainEvidence e)), w)
           | (Inr _, w) \<Rightarrow> (Inr (AwaitResolve p decision),
               observe env (fence_invocation_id fence) (pr_event_seq p) observed_at ''permission_request''
                 (permission_evidence p decision) w))
      | AwaitResolve p decision \<Rightarrow>
          (case harness_resolve_permission env \<lparr>res_fence = fence, res_permission_id = pr_permission_id p,
                  res_outcome = decision_outcome decision\<rparr> w of
             (Inl e, w) \<Rightarrow> (Inl (Inl (DrainPlugin e)), w)
           | (Inr _, w) \<Rightarrow> (Inr AwaitNotification, w))
      | AwaitTerminal t \<Rightarrow>
          (case transact env (fence_invocation_id fence) CommittedTerminal (\<lambda>now.
                  record_invocation_terminal now generation_id (observed_terminal (env_encode env) t)) w of
             (Inl e, w) \<Rightarrow> (Inl (Inl (DrainEvidence e)), w)
           | (Inr _, w) \<Rightarrow> (Inl (Inr t), w)))"

definition drop_stage ::
  "env \<Rightarrow> string \<Rightarrow> execution_fence \<Rightarrow> permission_policy \<Rightarrow> drain_stage \<Rightarrow> world \<Rightarrow> world" where
  "drop_stage env generation_id fence policy stage w =
     (if stage \<noteq> AwaitNotification \<and> env_cut env (w_tick w)
      then snd (drain_step env generation_id fence policy stage w) else w)"

text \<open>\<open>drain_turn\<close> polled beside a branch \<open>stop\<close>: its own result, or what stopped it.\<close>

partial_function (option) drain_turn ::
  "env \<Rightarrow> string \<Rightarrow> execution_fence \<Rightarrow> permission_policy \<Rightarrow> (world \<Rightarrow> 's option) \<Rightarrow> drain_stage \<Rightarrow> world
    \<Rightarrow> (((turn_drain_error + terminal_frame) + 's) \<times> world) option" where
  "drain_turn env generation_id fence policy stop stage w =
     (if \<not> env_ready env (w_tick w) then
        (case stop w of
           Some s \<Rightarrow> Some (Inr s, drop_stage env generation_id fence policy stage w)
         | None \<Rightarrow> drain_turn env generation_id fence policy stop stage (world_tick env w))
      else
        (case drain_step env generation_id fence policy stage w of
           (Inl r, w) \<Rightarrow> Some (Inl r, w)
         | (Inr stage, w) \<Rightarrow> drain_turn env generation_id fence policy stop stage w))"

declare drain_turn.simps [code]

text \<open>The branches beside the drain: the interruption before the deadline.\<close>

definition initial_stop :: "env \<Rightarrow> (world \<Rightarrow> managed_turn_interruption option) option \<Rightarrow> world \<Rightarrow> host_stop_reason option" where
  "initial_stop env interruption w =
     (case Option.bind interruption (\<lambda>f. f w) of
        Some i \<Rightarrow> Some (host_stop_from i)
      | None \<Rightarrow> if env_wall_deadline env (w_tick w) then Some WallDeadline else None)"

definition cancel_stop :: "env \<Rightarrow> world \<Rightarrow> unit option" where
  "cancel_stop env w = (if env_cancel_deadline env (w_tick w) then Some () else None)"

definition cancel_and_drain ::
  "env \<Rightarrow> invocation \<Rightarrow> string \<Rightarrow> binding \<Rightarrow> execution_fence \<Rightarrow> permission_policy \<Rightarrow> host_stop_reason \<Rightarrow> world
    \<Rightarrow> ((managed_turn_error + terminal_drain) \<times> world) option" where
  "cancel_and_drain env i generation_id b fence policy host w =
     (case harness_cancel_turn env (host_stop_cancel_reason host) w of
        (Inl e, w) \<Rightarrow> Some (blocked_drain env i b
            (''host '' @ host_stop_cancel_reason host @ '' cancellation failed: '' @ plugin_error_display e) w)
      | (Inr _, w) \<Rightarrow>
          Option.bind (drain_turn env generation_id fence policy (cancel_stop env) AwaitNotification w) (\<lambda>(r, w).
          Some (case r of
            Inl (Inr t) \<Rightarrow>
              (Inr (DrainTerminal \<lparr>tev_terminal = t, tev_host_stop_reason = Some host\<rparr>), w)
          | Inl (Inl e) \<Rightarrow>
              blocked_drain env i b (''cancel drain failed: '' @ turn_drain_error_display env e) w
          | Inr _ \<Rightarrow> blocked_drain env i b ''cancel drain deadline exceeded'' w)))"

definition await_terminal ::
  "env \<Rightarrow> invocation \<Rightarrow> string \<Rightarrow> binding \<Rightarrow> execution_fence \<Rightarrow> permission_policy
    \<Rightarrow> (world \<Rightarrow> managed_turn_interruption option) option \<Rightarrow> world
    \<Rightarrow> ((managed_turn_error + terminal_drain) \<times> world) option" where
  "await_terminal env i generation_id b fence policy interruption w =
     Option.bind (drain_turn env generation_id fence policy (initial_stop env interruption) AwaitNotification w)
       (\<lambda>(r, w).
        case r of
          Inl (Inr t) \<Rightarrow>
            Some (Inr (DrainTerminal \<lparr>tev_terminal = t, tev_host_stop_reason = None\<rparr>), w)
        | Inl (Inl e) \<Rightarrow>
            Some (blocked_drain env i b (''turn evidence failed: '' @ turn_drain_error_display env e) w)
        | Inr host \<Rightarrow> cancel_and_drain env i generation_id b fence policy host w)"

section \<open>Settling and running\<close>

fun certainty_debug :: "harness_execution_certainty \<Rightarrow> string" where
  "certainty_debug HarnessNotStarted = ''NotStarted''"
| "certainty_debug HarnessOutcomeKnown = ''OutcomeKnown''"
| "certainty_debug HarnessOutcomeUnknown = ''OutcomeUnknown''"

definition settle_terminal ::
  "env \<Rightarrow> invocation \<Rightarrow> binding \<Rightarrow> string \<Rightarrow> turn_result_capture \<Rightarrow> json_value \<Rightarrow> terminal_evidence \<Rightarrow> world
    \<Rightarrow> (managed_turn_error + managed_turn_outcome) \<times> world" where
  "settle_terminal env i b kind capture context evidence w =
     (let t = tev_terminal evidence; host = tev_host_stop_reason evidence;
          interruption = Option.bind host host_stop_interruption in
      if tf_execution_certainty t = HarnessOutcomeUnknown \<or> \<not> tf_session_quiescent t then
        block_after_arm env i b (''terminal outcome is not safely settleable: certainty=''
          @ certainty_debug (tf_execution_certainty t) @ '', quiescent=''
          @ (if tf_session_quiescent t then ''true'' else ''false'')) w
      else
        (case transact env (inv_id i) CommittedCompletion (\<lambda>now.
                complete_session_invocation (env_uuid env (w_tick w)) now now (inv_agent_id i) (inv_id i) b
                  (tf_session_persistence t)
                  \<lparr>complete_lease_token = inv_lease_token i, complete_fence_token = inv_fence_token i,
                   complete_kind = kind,
                   complete_payload = env_encode env
                     (terminal_payload (env_decode env) (inv_id i) capture context t host)\<rparr>) w of
           (Inl e, w) \<Rightarrow> (Inl (TurnFleet e), w)
         | (Inr (completion, _), w) \<Rightarrow>
             (Inr (case interruption of
                Some interruption \<Rightarrow> OutcomeInterrupted completion interruption
              | None \<Rightarrow> OutcomeCompleted completion),
              close_trajectory env (inv_id i) (CloseTerminal (tf_stop_reason t) (tf_runtime_stop_reason t)
                (execution_certainty_from (tf_execution_certainty t)) (tf_session_quiescent t) (tf_usage t)) w)))"

text \<open>A run from the moment the prompt was accepted.\<close>

definition finish_turn ::
  "env \<Rightarrow> managed_turn \<Rightarrow> execution_fence \<Rightarrow> world \<Rightarrow> ((managed_turn_error + managed_turn_outcome) \<times> world) option" where
  "finish_turn env turn fence w =
     Option.bind (await_terminal env (mt_invocation turn) (mt_generation_id turn) (mt_binding turn) fence
       (mt_permission_policy turn) (mt_interruption turn) w) (\<lambda>(terminal_result, w).
     (let w = revoke_grants env (mt_grants turn) (inv_id (mt_invocation turn)) w in
      case closing_on_error env (inv_id (mt_invocation turn)) (terminal_result, w) of
        (Inl e, w) \<Rightarrow> Some (Inl e, w)
      | (Inr (DrainBlocked blocked), w) \<Rightarrow> Some (Inr (OutcomeBlocked blocked), w)
      | (Inr (DrainTerminal evidence), w) \<Rightarrow>
          Some (closing_on_error env (inv_id (mt_invocation turn))
            (settle_terminal env (mt_invocation turn) (mt_binding turn) (mt_result_kind turn) (mt_result_capture turn)
              (mt_result_context turn) evidence w))))"

text \<open>A run from the moment the invocation is armed.\<close>

definition armed_run ::
  "env \<Rightarrow> managed_turn \<Rightarrow> world \<Rightarrow> ((managed_turn_error + managed_turn_outcome) \<times> world) option" where
  "armed_run env turn w =
     (let i = mt_invocation turn; b = mt_binding turn in
      case activate_grants env i 0 (mt_grants turn) (open_trajectory env i (mt_generation_id turn) b w) of
        (Some (activated, e), w) \<Rightarrow>
          Some (block_after_arm env i b (''invocation grant activation failed: '' @ e)
            (revoke_grants env (take activated (mt_grants turn)) (inv_id i) w))
      | (None, w) \<Rightarrow>
          (let request = start_turn_request i b (mt_session_ref turn) (mt_prompt turn) (mt_policy turn) in
           case harness_start_turn env request w of
             (Inl e, w) \<Rightarrow>
               Some (block_after_arm env i b (''turn start failed: '' @ plugin_error_display e)
                 (revoke_grants env (mt_grants turn) (inv_id i) w))
           | (Inr _, w) \<Rightarrow> finish_turn env turn (st_fence request) w))"

definition run_turn ::
  "env \<Rightarrow> managed_turn \<Rightarrow> world \<Rightarrow> ((managed_turn_error + managed_turn_outcome) \<times> world) option" where
  "run_turn env turn w =
     (case validate_turn turn of
        Inl e \<Rightarrow> Some (Inl e, w)
      | Inr _ \<Rightarrow>
          (case harness_describe env w of
             (Inl e, w) \<Rightarrow> Some (Inl (HarnessBeforeArm e), w)
           | (Inr _, w) \<Rightarrow>
               (let i = mt_invocation turn in
                case transact env (inv_id i) CommittedArm (\<lambda>now.
                       arm_session_invocation now (inv_agent_id i) (inv_id i) (mt_binding turn)
                         (mt_session_ref turn) (mt_generation_id turn)
                         \<lparr>arm_lease_token = inv_lease_token i, arm_fence_token = inv_fence_token i\<rparr>) w of
                  (Inl e, w) \<Rightarrow> Some (Inl (TurnFleet e), w)
                | (Inr _, w) \<Rightarrow> armed_run env turn w)))"

end
