(* ===== verification/Controller_Run.thy ===== *)
theory Controller_Run
  imports Controller
begin

text \<open>
  What a managed turn does to the fleet: every run of the controller is a sequence of committed
  transactions of the fleet, whatever the plugin answers and whatever else goes on, so everything
  proved of reachable stores holds while workers run.
\<close>

section \<open>The rest of the fleet\<close>

text \<open>
  Other tasks and processes commit steps of the fleet; the brokers of a worker's grants are armed and
  revoked by that worker alone, and publishing keeps a grant's scope.
\<close>

definition broker_kept :: "broker \<Rightarrow> broker \<Rightarrow> bool" where
  "broker_kept b b' \<longleftrightarrow>
     (case b of None \<Rightarrow> b' = None | Some g \<Rightarrow> (case b' of None \<Rightarrow> False | Some h \<Rightarrow> same_scope g h))"

definition others_ok :: "env \<Rightarrow> bool" where
  "others_ok env \<longleftrightarrow> (\<forall>n s. fleet_step\<^sup>*\<^sup>* (fst s) (fst (env_others env n s))
     \<and> (\<forall>g. broker_kept (snd s g) (snd (env_others env n s) g)))"

text \<open>Publishing is such a move.\<close>

lemma publish_is_other:
  assumes "publish sha256 now uuid msg_now inp (active, d) = Some (res, active', d')"
  shows "fleet_step\<^sup>*\<^sup>* d d'" and "broker_kept active active'"
proof -
  have "fleet_step\<^sup>*\<^sup>* d d' \<and> broker_kept active active'"
  proof (cases rule: publish_cases [of sha256 now uuid msg_now inp active d])
    case refused
    then show ?thesis
      using assms by (auto simp: broker_kept_def same_scope_def split: option.splits)
  next
    case (committed grant r d1 out)
    have "fleet_step d d1" using committed(3) by (rule message_appended)
    then show ?thesis
      using assms committed(1,2) by (auto simp: broker_kept_def same_scope_def published_def)
  qed
  then show "fleet_step\<^sup>*\<^sup>* d d'" and "broker_kept active active'" by simp_all
qed

section \<open>Runs\<close>

text \<open>
  The effects that decide about an invocation or a plugin generation: the transactions on it, the
  dispatch of a prompt, what the grants are told, and when a process begins and ends.  \<open>proceeds ks w w'\<close> is a run that commits steps of the fleet and logs exactly the
  deciding effects \<open>ks\<close>, among others.
\<close>

fun decisive :: "effect \<Rightarrow> bool" where
  "decisive (SentStart _) = True"
| "decisive (GrantActivated _ _) = True"
| "decisive (GrantRevoked _ _) = True"
| "decisive ProcessStarted = True"
| "decisive ProcessEnded = True"
| "decisive (Committed _ c) = (c \<in> {CommittedArm, CommittedUncertain, CommittedBlock,
     CommittedCompletion, CommittedReservation, CommittedRetry, CommittedGeneration, CommittedStop})"
| "decisive _ = False"

text \<open>The invocation each broker is armed for, and what the grants' effects make of it.\<close>

definition holders :: "world \<Rightarrow> nat \<Rightarrow> string option" where
  "holders w g = map_option mg_invocation_id (w_brokers w g)"

fun held :: "effect \<Rightarrow> (nat \<Rightarrow> string option) \<Rightarrow> (nat \<Rightarrow> string option)" where
  "held (GrantActivated g k) h = h(g := Some k)"
| "held (GrantRevoked g k) h = (if h g = Some k then h(g := None) else h)"
| "held _ h = h"

lemma holders_same [simp]:
  "holders (w\<lparr>w_turn := t\<rparr>) = holders w" "holders (w\<lparr>w_log := es\<rparr>) = holders w"
  "holders (w\<lparr>w_db := d\<rparr>) = holders w"
  by (simp_all add: holders_def fun_eq_iff)

lemma held_quiet: "\<not> decisive e \<Longrightarrow> held e h = h"
  by (cases e) simp_all

definition proceeds :: "effect list \<Rightarrow> world \<Rightarrow> world \<Rightarrow> bool" where
  "proceeds ks w w' \<longleftrightarrow> fleet_step\<^sup>*\<^sup>* (w_db w) (w_db w') \<and> w_tick w \<le> w_tick w'
     \<and> holders w' = fold held ks (holders w)
     \<and> (\<exists>es. w_log w' = w_log w @ es \<and> filter decisive es = ks)"

lemma ran_refl [simp]: "proceeds [] w w"
  by (simp add: proceeds_def)

lemma ran_trans: "proceeds ks w w' \<Longrightarrow> proceeds ls w' w'' \<Longrightarrow> proceeds (ks @ ls) w w''"
  unfolding proceeds_def by (force intro: rtranclp_trans)

lemma ran_then: "proceeds [] w w' \<Longrightarrow> proceeds ks w' w'' \<Longrightarrow> proceeds ks w w''"
  by (drule (1) ran_trans) simp

lemma ran_quiet: "proceeds ks w w' \<Longrightarrow> proceeds [] w' w'' \<Longrightarrow> proceeds ks w w''"
  by (drule (1) ran_trans) simp

lemma ran_tick:
  assumes "others_ok env"
  shows "proceeds [] w (world_tick env w)"
proof -
  let ?s = "env_others env (w_tick w) (w_db w, w_brokers w)"
  have "fleet_step\<^sup>*\<^sup>* (w_db w) (fst ?s)" and kept: "broker_kept (w_brokers w g) (snd ?s g)" for g
    using assms by (auto simp: others_ok_def)
  moreover have "map_option mg_invocation_id (snd ?s g) = map_option mg_invocation_id (w_brokers w g)" for g
    using kept [of g] by (auto simp: broker_kept_def same_scope_def split: option.splits)
  ultimately show ?thesis
    by (auto simp: proceeds_def world_tick_def Let_def holders_def fun_eq_iff split: prod.splits)
qed

lemma ran_emit:
  "(\<And>h. held e h = h) \<Longrightarrow> proceeds (if decisive e then [e] else []) w (emit e w)"
  by (simp add: proceeds_def emit_def)

lemma ran_turn [simp]: "proceeds [] w (w\<lparr>w_turn := t\<rparr>)"
  by (simp add: proceeds_def)

lemma ran_trajectory [simp]:
  "proceeds [] w (open_trajectory env i g b w)" "proceeds [] w (close_trajectory env k c w)"
  "proceeds [] w (observe env k n t cls r w)"
  by (simp_all add: open_trajectory_def close_trajectory_def observe_def offer_def proceeds_def emit_def holders_def fun_eq_iff)

text \<open>A transaction that fails decides nothing.\<close>

lemma ran_transact:
  assumes "others_ok env" and "\<And>now d x d'. f now d = Inr (x, d') \<Longrightarrow> fleet_step d d'"
    and "transact env k c f w = (r, w')"
  shows "proceeds (if decisive (Committed k c) \<and> \<not> isl r then [Committed k c] else []) w w'"
proof -
  have t: "proceeds [] w (world_tick env w)" by (rule ran_tick [OF assms(1)])
  show ?thesis
  proof (cases "f (now_at env (world_tick env w)) (w_db (world_tick env w))")
    case (Inl e)
    then show ?thesis using t assms(3) by (auto simp: transact_def Let_def)
  next
    case (Inr p)
    obtain x d where p: "p = (x, d)" by fastforce
    have "fleet_step (w_db (world_tick env w)) d" using assms(2) Inr p by blast
    then have "proceeds (if decisive (Committed k c) then [Committed k c] else []) (world_tick env w)
        (emit (Committed k c) ((world_tick env w)\<lparr>w_db := d\<rparr>))"
      by (auto simp: proceeds_def emit_def holders_def fun_eq_iff)
    with t have "proceeds (if decisive (Committed k c) then [Committed k c] else []) w
        (emit (Committed k c) ((world_tick env w)\<lparr>w_db := d\<rparr>))" by (rule ran_then)
    then show ?thesis using assms(3) Inr p by (auto simp: transact_def Let_def)
  qed
qed

lemmas ran_transact_quiet = ran_transact [where c = "CommittedEvent n" for n, simplified]
  ran_transact [where c = CommittedTerminal, simplified] ran_transact [where c = CommittedAcquisition, simplified]
  ran_transact [where c = CommittedOpened, simplified] ran_transact [where c = CommittedRetirement, simplified]

lemma ran_protocol_call:
  assumes "others_ok env" and "protocol_call env e f w = (r, w')" and "\<And>h. held e h = h"
  shows "proceeds (if decisive e then [e] else []) w w'"
  using ran_then [OF ran_tick [OF assms(1)] ran_emit [of e, OF assms(3)], of w] assms(2)
  by (auto simp: protocol_call_def Let_def)

lemma ran_call_quiet:
  assumes "others_ok env" and "protocol_call env e f w = (r, w')" and "\<not> decisive e"
  shows "proceeds [] w w'"
  using ran_protocol_call [OF assms(1,2) held_quiet] assms(3) by simp

lemma ran_harness:
  assumes "others_ok env"
  shows "harness_describe env w = (r1, w') \<Longrightarrow> proceeds [] w w'"
    and "harness_open_session env q2 w = (r2, w') \<Longrightarrow> proceeds [] w w'"
    and "harness_resolve_permission env q4 w = (r4, w') \<Longrightarrow> proceeds [] w w'"
    and "harness_cancel_turn env q5 w = (r5, w') \<Longrightarrow> proceeds [] w w'"
    and "harness_close_session env q6 w = (r6, w') \<Longrightarrow> proceeds [] w w'"
    and "harness_next_notification env w = (r7, w') \<Longrightarrow> proceeds [] w w'"
proof -
  note call = ran_call_quiet [OF assms]
  show "harness_describe env w = (r1, w') \<Longrightarrow> proceeds [] w w'"
    by (auto simp: harness_describe_def Let_def split: prod.splits intro: call)
  show "harness_open_session env q2 w = (r2, w') \<Longrightarrow> proceeds [] w w'"
    by (auto simp: harness_open_session_def Let_def split: prod.splits sum.splits intro: call)
  show "harness_resolve_permission env q4 w = (r4, w') \<Longrightarrow> proceeds [] w w'"
    by (auto simp: harness_resolve_permission_def Let_def split: prod.splits sum.splits intro: call)
  show "harness_cancel_turn env q5 w = (r5, w') \<Longrightarrow> proceeds [] w w'"
    by (auto simp: harness_cancel_turn_def Let_def split: prod.splits sum.splits intro: call)
  show "harness_close_session env q6 w = (r6, w') \<Longrightarrow> proceeds [] w w'"
    by (auto simp: harness_close_session_def split: sum.splits intro: call)
  show "harness_next_notification env w = (r7, w') \<Longrightarrow> proceeds [] w w'"
    using ran_tick [OF assms] by (auto simp: harness_next_notification_def Let_def
        split: prod.splits sum.splits intro: ran_quiet [OF _ ran_turn])
qed

lemma ran_start:
  assumes "others_ok env" and "harness_start_turn env q w = (r, w')"
  shows "proceeds [] w w' \<and> isl r \<or> proceeds [SentStart q] w w'"
  using ran_protocol_call [OF assms(1), of "SentStart q"] assms(2)
  by (auto simp: harness_start_turn_def Let_def split: prod.splits sum.splits intro: ran_quiet [OF _ ran_turn])

section \<open>Grants\<close>

lemma ran_grants:
  assumes "others_ok env"
  shows "grant_activate env i g w = (r, w') \<Longrightarrow>
      proceeds (if \<not> isl r then [GrantActivated g (inv_id i)] else []) w w'"
    and "proceeds [GrantRevoked g k] w (grant_deactivate env k g w)"
proof -
  note t = ran_tick [OF assms]
  let ?w = "world_tick env w"
  have upd: "proceeds [e] w (emit e (?w\<lparr>w_brokers := (w_brokers ?w)(g := b)\<rparr>))"
    if "decisive e" and "held e (holders ?w) = (holders ?w)(g := map_option mg_invocation_id b)" for e b
    by (rule ran_then [OF t]) (use that in \<open>auto simp: proceeds_def emit_def holders_def fun_eq_iff\<close>)
  show "grant_activate env i g w = (r, w') \<Longrightarrow>
      proceeds (if \<not> isl r then [GrantActivated g (inv_id i)] else []) w w'"
    using t upd by (auto simp: grant_activate_def activate_def Let_def split: sum.splits if_splits)
  have "(if holders ?w g = Some k then (holders ?w)(g := None) else holders ?w)
      = (holders ?w)(g := map_option mg_invocation_id (deactivate k (w_brokers ?w g)))"
    by (auto simp: holders_def deactivate_def fun_eq_iff split: option.splits)
  then show "proceeds [GrantRevoked g k] w (grant_deactivate env k g w)"
    using upd [of "GrantRevoked g k"] by (simp add: grant_deactivate_def Let_def)
qed

definition activations :: "string \<Rightarrow> nat list \<Rightarrow> effect list" where
  "activations k gs = map (\<lambda>g. GrantActivated g k) gs"

definition revocations :: "string \<Rightarrow> nat list \<Rightarrow> effect list" where
  "revocations k gs = map (\<lambda>g. GrantRevoked g k) (rev gs)"

lemma ran_revoke:
  assumes "others_ok env"
  shows "proceeds (revocations k gs) w (revoke_grants env gs k w)"
proof -
  have "proceeds (map (\<lambda>g. GrantRevoked g k) xs) w (fold (grant_deactivate env k) xs w)" for xs
  proof (induction xs arbitrary: w)
    case (Cons x xs)
    then show ?case using ran_trans [OF ran_grants(2) [OF assms]] by fastforce
  qed simp
  then show ?thesis by (simp add: revoke_grants_def revocations_def)
qed

lemma ran_activate:
  assumes "others_ok env" and "activate_grants env i n gs w = (r, w')"
  shows "(case r of None \<Rightarrow> proceeds (activations (inv_id i) gs) w w'
    | Some (m, e) \<Rightarrow> n \<le> m \<and> m - n < length gs \<and> proceeds (activations (inv_id i) (take (m - n) gs)) w w')"
  using assms(2)
proof (induction gs arbitrary: n w)
  case Nil
  then show ?case by (auto simp: activations_def)
next
  case (Cons g gs)
  obtain a w1 where a: "grant_activate env i g w = (a, w1)" by fastforce
  note one = ran_grants(1) [OF assms(1) a]
  show ?case
  proof (cases a)
    case (Inl e)
    then show ?thesis using Cons.prems a one by (auto simp: activations_def)
  next
    case (Inr u)
    then have "activate_grants env i (Suc n) gs w1 = (r, w')" using Cons.prems a by simp
    from Cons.IH [OF this] show ?thesis
      using one Inr by (cases r)
        (auto simp: activations_def Suc_diff_le take_Suc_Cons dest: ran_trans [OF one]
          simp flip: Suc_diff_Suc split: prod.splits)
  qed
qed

section \<open>The protocol of a turn\<close>

text \<open>How a turn ended: nothing armed, a failure after arming, a blocked delivery, or a completion.\<close>

datatype turn_end = EndRefused | EndFailed | EndBlocked | EndCompleted

text \<open>The transactions that park a turn, of which a failed one is the last.\<close>

inductive parking :: "string \<Rightarrow> turn_end \<Rightarrow> effect list \<Rightarrow> bool" for k where
  "parking k EndFailed []"
| "parking k EndFailed [Committed k CommittedUncertain]"
| "parking k EndBlocked [Committed k CommittedUncertain, Committed k CommittedBlock]"

inductive turn_protocol :: "string \<Rightarrow> nat list \<Rightarrow> start_turn \<Rightarrow> effect list \<Rightarrow> turn_end \<Rightarrow> bool" for k gs q where
  refused: "turn_protocol k gs q [] EndRefused"
| ungranted: "n < length gs \<Longrightarrow> parking k e p \<Longrightarrow>
    turn_protocol k gs q (Committed k CommittedArm # activations k (take n gs) @ revocations k (take n gs) @ p) e"
| unstarted: "s \<in> {[], [SentStart q]} \<Longrightarrow> parking k e p \<Longrightarrow>
    turn_protocol k gs q (Committed k CommittedArm # activations k gs @ s @ revocations k gs @ p) e"
| parked: "parking k e p \<Longrightarrow>
    turn_protocol k gs q (Committed k CommittedArm # activations k gs @ [SentStart q] @ p @ revocations k gs) e"
| unsettled: "parking k e p \<Longrightarrow>
    turn_protocol k gs q (Committed k CommittedArm # activations k gs @ [SentStart q] @ revocations k gs @ p) e"
| settled: "turn_protocol k gs q (Committed k CommittedArm # activations k gs @ [SentStart q] @ revocations k gs
    @ [Committed k CommittedCompletion]) EndCompleted"

fun ends :: "managed_turn_error + managed_turn_outcome \<Rightarrow> turn_end \<Rightarrow> bool" where
  "ends (Inl (TurnInvalid _)) e = (e = EndRefused)"
| "ends (Inl (HarnessBeforeArm _)) e = (e = EndRefused)"
| "ends (Inl (TurnFleet _)) e = (e = EndRefused \<or> e = EndFailed)"
| "ends (Inr (OutcomeBlocked _)) e = (e = EndBlocked)"
| "ends (Inr (OutcomeCompleted _)) e = (e = EndCompleted)"
| "ends (Inr (OutcomeInterrupted _ _)) e = (e = EndCompleted)"

section \<open>The controller keeps the protocol\<close>

lemma ran_block:
  assumes "others_ok env" and "block env i b reason w = (r, w')"
  obtains ks where "proceeds ks w w'" and "parking (inv_id i) (if isl r then EndFailed else EndBlocked) ks"
proof -
  let ?k = "inv_id i" and ?reason = "bounded_reason reason"
  obtain r1 w1 where u: "transact env ?k CommittedUncertain (\<lambda>now.
      mark_session_invocation_uncertain now (inv_agent_id i) ?k b ?reason) w = (r1, w1)" by fastforce
  have one: "proceeds (if decisive (Committed ?k CommittedUncertain) \<and> \<not> isl r1
      then [Committed ?k CommittedUncertain] else []) w w1"
    by (rule ran_transact [OF assms(1) _ u]) (rule fleet_step.session_uncertain)
  obtain r2 w2 where v: "transact env ?k CommittedBlock (\<lambda>now.
      block_delivery now (inv_agent_id i) (msg_id (inv_message i))
        \<lparr>block_lease_token = inv_lease_token i, block_reason = ?reason\<rparr>) w1 = (r2, w2)" by fastforce
  have two: "proceeds (if decisive (Committed ?k CommittedBlock) \<and> \<not> isl r2
      then [Committed ?k CommittedBlock] else []) w1 w2"
    by (rule ran_transact [OF assms(1) _ v]) (rule fleet_step.delivery_blocked)
  show thesis
  proof (cases r1)
    case (Inl e)
    then show thesis using assms(2) u one that [of "[]"] by (auto simp: block_def Let_def parking.intros)
  next
    case uncertain: (Inr x)
    have both: "proceeds (Committed ?k CommittedUncertain # (if isl r2 then [] else [Committed ?k CommittedBlock])) w w2"
      using ran_trans [OF one two] uncertain by auto
    show thesis
    proof (cases r2)
      case (Inl e)
      then show thesis
        using assms(2) u v uncertain both that [of "[Committed ?k CommittedUncertain]"]
        by (auto simp: block_def Let_def parking.intros)
    next
      case (Inr y)
      obtain blocked c where "y = (blocked, c)" by fastforce
      then show thesis
        using assms(2) u v uncertain both Inr ran_quiet [OF _ ran_trajectory(2)]
          that [of "[Committed ?k CommittedUncertain, Committed ?k CommittedBlock]"]
        by (auto simp: block_def Let_def parking.intros)
    qed
  qed
qed

lemma ran_block_after_arm:
  assumes "others_ok env" and "block_after_arm env i b reason w = (r, w')"
  obtains ks e where "proceeds ks w w'" and "parking (inv_id i) e ks" and "ends r e"
proof -
  obtain r1 w1 where b: "block env i b reason w = (r1, w1)" by fastforce
  obtain ks where "proceeds ks w w1" "parking (inv_id i) (if isl r1 then EndFailed else EndBlocked) ks"
    using ran_block [OF assms(1) b] by blast
  then show thesis
    using assms(2) b that by (cases r1) (auto simp: block_after_arm_def)
qed

lemma ran_blocked_drain:
  assumes "others_ok env" and "blocked_drain env i b reason w = (r, w')"
  obtains ks where "proceeds ks w w'"
    and "(\<exists>e. r = Inl (TurnFleet e)) \<and> parking (inv_id i) EndFailed ks
      \<or> (\<exists>x. r = Inr (DrainBlocked x)) \<and> parking (inv_id i) EndBlocked ks"
proof -
  obtain r1 w1 where b: "block env i b reason w = (r1, w1)" by fastforce
  obtain ks where "proceeds ks w w1" "parking (inv_id i) (if isl r1 then EndFailed else EndBlocked) ks"
    using ran_block [OF assms(1) b] by blast
  then show thesis
    using assms(2) b that by (cases r1) (auto simp: blocked_drain_def)
qed

lemma ran_drain_step:
  assumes "others_ok env" and "drain_step env gid fence policy stage w = (r, w')"
  shows "proceeds [] w w'"
proof -
  note event = ran_transact_quiet(1) [OF assms(1) fleet_step.event_recorded]
    and terminal = ran_transact_quiet(2) [OF assms(1) fleet_step.terminal_recorded]
  show ?thesis
  proof (cases stage)
    case AwaitNotification
    then show ?thesis
      using assms(2) by (auto simp: drain_step_def split: prod.splits sum.splits harness_notification.splits
          dest: ran_harness(6) [OF assms(1)])
  next
    case (AwaitEvent e)
    then show ?thesis
      using assms(2) by (auto simp: drain_step_def split: prod.splits sum.splits
          intro: event ran_quiet [OF event ran_trajectory(3)])
  next
    case (AwaitPermission p decision n)
    then show ?thesis
      using assms(2) by (auto simp: drain_step_def split: prod.splits sum.splits
          intro: event ran_quiet [OF event ran_trajectory(3)])
  next
    case (AwaitResolve p decision)
    then show ?thesis
      using assms(2) by (auto simp: drain_step_def split: prod.splits sum.splits
          dest: ran_harness(3) [OF assms(1)])
  next
    case (AwaitTerminal t)
    then show ?thesis
      using assms(2) by (auto simp: drain_step_def split: prod.splits sum.splits intro: terminal)
  qed
qed

lemma ran_drop_stage:
  assumes "others_ok env"
  shows "proceeds [] w (drop_stage env gid fence policy stage w)"
proof -
  have "proceeds [] w (snd (drain_step env gid fence policy stage w))"
    by (rule ran_drain_step [OF assms prod.collapse [symmetric]])
  then show ?thesis by (simp add: drop_stage_def)
qed

text \<open>Induction over the polls of a drain that returned.\<close>

lemma drain_turn_induct [consumes 1, case_names stopped pending finished stepped]:
  assumes "drain_turn env gid fence policy stop stage w = Some (r, w')"
    and "\<And>stage w s. \<not> env_ready env (w_tick w) \<Longrightarrow> stop w = Some s \<Longrightarrow>
      P stage w (Inr s) (drop_stage env gid fence policy stage w)"
    and "\<And>stage w r w'. \<not> env_ready env (w_tick w) \<Longrightarrow> stop w = None \<Longrightarrow> P stage (world_tick env w) r w' \<Longrightarrow>
      P stage w r w'"
    and "\<And>stage w r w'. env_ready env (w_tick w) \<Longrightarrow>
      drain_step env gid fence policy stage w = (Inl r, w') \<Longrightarrow> P stage w (Inl r) w'"
    and "\<And>stage w stage' w1 r w'. env_ready env (w_tick w) \<Longrightarrow>
      drain_step env gid fence policy stage w = (Inr stage', w1) \<Longrightarrow> P stage' w1 r w' \<Longrightarrow> P stage w r w'"
  shows "P stage w r w'"
proof -
  let ?P = "\<lambda>e g f p st sg v y. e = env \<longrightarrow> g = gid \<longrightarrow> f = fence \<longrightarrow> p = policy \<longrightarrow> st = stop \<longrightarrow>
      P sg v (fst y) (snd y)"
  have "?P env gid fence policy stop stage w (r, w')"
    by (rule drain_turn.raw_induct [of ?P, OF _ assms(1)])
      (auto split: if_splits option.splits sum.splits prod.splits intro: assms(2-5))
  then show ?thesis by simp
qed

lemma ran_drain_turn:
  assumes "others_ok env" and "drain_turn env gid fence policy stop stage w = Some (r, w')"
  shows "proceeds [] w w'"
  using assms(2)
proof (induction rule: drain_turn_induct)
  case (stopped stage w s)
  show ?case by (rule ran_drop_stage [OF assms(1)])
next
  case (pending stage w r w')
  then show ?case using ran_tick [OF assms(1)] ran_then by blast
next
  case (finished stage w r w')
  then show ?case using ran_drain_step [OF assms(1)] by blast
next
  case (stepped stage w stage' w1 r w')
  then show ?case using ran_drain_step [OF assms(1)] ran_then by blast
qed

text \<open>What waiting for the terminal did: evidence and no decision, or a parked turn.\<close>

definition awaited :: "string \<Rightarrow> managed_turn_error + terminal_drain \<Rightarrow> effect list \<Rightarrow> bool" where
  "awaited k r ks \<longleftrightarrow>
     (case r of
        Inl e \<Rightarrow> (\<exists>f. e = TurnFleet f) \<and> parking k EndFailed ks
      | Inr (DrainBlocked x) \<Rightarrow> parking k EndBlocked ks
      | Inr (DrainTerminal t) \<Rightarrow> ks = [])"

lemma awaited_blocked:
  assumes "others_ok env" and "blocked_drain env i b reason w = (r, w')"
  obtains ks where "proceeds ks w w'" and "awaited (inv_id i) r ks"
proof (rule ran_blocked_drain [OF assms])
  fix ks
  assume "proceeds ks w w'" and "(\<exists>e. r = Inl (TurnFleet e)) \<and> parking (inv_id i) EndFailed ks
      \<or> (\<exists>x. r = Inr (DrainBlocked x)) \<and> parking (inv_id i) EndBlocked ks"
  then show thesis using that by (auto simp: awaited_def)
qed

lemma ran_cancel_and_drain:
  assumes "others_ok env" and "cancel_and_drain env i gid b fence policy host w = Some (r, w')"
  obtains ks where "proceeds ks w w'" and "awaited (inv_id i) r ks"
proof -
  obtain c w1 where c: "harness_cancel_turn env (host_stop_cancel_reason host) w = (c, w1)" by fastforce
  note one = ran_harness(4) [OF assms(1) c]
  show thesis
  proof (cases c)
    case (Inl e)
    then have "blocked_drain env i b (''host '' @ host_stop_cancel_reason host @ '' cancellation failed: ''
        @ plugin_error_display e) w1 = (r, w')" using assms(2) c by (simp add: cancel_and_drain_def)
    from awaited_blocked [OF assms(1) this] show thesis using ran_then [OF one] that by blast
  next
    case (Inr u)
    then obtain r1 w2 where d: "drain_turn env gid fence policy (cancel_stop env) AwaitNotification w1 = Some (r1, w2)"
      and rest: "(case r1 of
            Inl (Inr t) \<Rightarrow> (Inr (DrainTerminal \<lparr>tev_terminal = t, tev_host_stop_reason = Some host\<rparr>), w2)
          | Inl (Inl e) \<Rightarrow> blocked_drain env i b (''cancel drain failed: '' @ turn_drain_error_display env e) w2
          | Inr _ \<Rightarrow> blocked_drain env i b ''cancel drain deadline exceeded'' w2) = (r, w')"
      using assms(2) c by (auto simp: cancel_and_drain_def bind_eq_Some_conv)
    note two = ran_then [OF one ran_drain_turn [OF assms(1) d]]
    consider (t) t where "r1 = Inl (Inr t)" | (parked) reason where "blocked_drain env i b reason w2 = (r, w')"
      using rest by (auto split: sum.splits)
    then show thesis
    proof cases
      case t
      then show thesis using rest two that by (auto simp: awaited_def)
    next
      case parked
      from awaited_blocked [OF assms(1) this] show thesis using ran_then [OF two] that by blast
    qed
  qed
qed

lemma ran_await_terminal:
  assumes "others_ok env" and "await_terminal env i gid b fence policy interruption w = Some (r, w')"
  obtains ks where "proceeds ks w w'" and "awaited (inv_id i) r ks"
proof -
  obtain r1 w1 where d: "drain_turn env gid fence policy (initial_stop env interruption) AwaitNotification w = Some (r1, w1)"
    using assms(2) by (auto simp: await_terminal_def bind_eq_Some_conv)
  note one = ran_drain_turn [OF assms(1) d]
  consider (t) t where "r1 = Inl (Inr t)" | (failed) e where "r1 = Inl (Inl e)" | (stopped) host where "r1 = Inr host"
    by (metis sum.exhaust)
  then show thesis
  proof cases
    case t
    then show thesis using assms(2) d one that by (auto simp: await_terminal_def awaited_def)
  next
    case failed
    then have "blocked_drain env i b (''turn evidence failed: '' @ turn_drain_error_display env e) w1 = (r, w')"
      using assms(2) d by (simp add: await_terminal_def)
    from awaited_blocked [OF assms(1) this] show thesis using ran_then [OF one] that by blast
  next
    case stopped
    then have "cancel_and_drain env i gid b fence policy host w1 = Some (r, w')"
      using assms(2) d by (simp add: await_terminal_def)
    from ran_cancel_and_drain [OF assms(1) this] show thesis using ran_then [OF one] that by blast
  qed
qed

lemma ran_settle:
  assumes "others_ok env" and "settle_terminal env i b kind capture context evidence w = (r, w')"
  obtains ks e where "proceeds ks w w'" and "ends r e"
    and "parking (inv_id i) e ks \<or> e = EndCompleted \<and> ks = [Committed (inv_id i) CommittedCompletion]"
proof (cases "tf_execution_certainty (tev_terminal evidence) = HarnessOutcomeUnknown
    \<or> \<not> tf_session_quiescent (tev_terminal evidence)")
  case True
  then obtain reason where "block_after_arm env i b reason w = (r, w')"
    using assms(2) by (simp add: settle_terminal_def Let_def)
  from ran_block_after_arm [OF assms(1) this] show thesis using that by blast
next
  case False
  define tx where "tx = (\<lambda>now. complete_session_invocation (env_uuid env (w_tick w)) now now (inv_agent_id i) (inv_id i) b
      (tf_session_persistence (tev_terminal evidence))
      \<lparr>complete_lease_token = inv_lease_token i, complete_fence_token = inv_fence_token i, complete_kind = kind,
       complete_payload = env_encode env (terminal_payload (env_decode env) (inv_id i) capture context
         (tev_terminal evidence) (tev_host_stop_reason evidence))\<rparr>)"
  obtain r1 w1 where t: "transact env (inv_id i) CommittedCompletion tx w = (r1, w1)" by fastforce
  have one: "proceeds (if decisive (Committed (inv_id i) CommittedCompletion) \<and> \<not> isl r1
      then [Committed (inv_id i) CommittedCompletion] else []) w w1"
    by (rule ran_transact [OF assms(1) _ t]) (auto simp: tx_def intro: fleet_step.session_completed)
  show thesis
  proof (cases r1)
    case (Inl e)
    then have "r = Inl (TurnFleet e)" "w' = w1"
      using assms(2) False t by (auto simp: settle_terminal_def Let_def tx_def [symmetric])
    then show thesis using one Inl that [of "[]" EndFailed] by (auto simp: parking.intros)
  next
    case (Inr p)
    obtain completion c where p: "p = (completion, c)" by fastforce
    obtain close where w': "w' = close_trajectory env (inv_id i) close w1"
      and r: "ends r EndCompleted"
      using assms(2) False t Inr p by (auto simp: settle_terminal_def Let_def tx_def [symmetric] split: option.splits)
    have "proceeds [Committed (inv_id i) CommittedCompletion] w w'"
      using ran_quiet [OF one ran_trajectory(2)] Inr w' by simp
    then show thesis using r that by blast
  qed
qed

lemma ran_closing_on_error:
  assumes "closing_on_error env k (r, w) = (r', w')"
  shows "r' = r" and "proceeds [] w w'"
  using assms by (auto simp: closing_on_error_def split: sum.splits)

lemma ran_finish_turn:
  assumes "others_ok env" and "finish_turn env turn fence w = Some (r, w')"
  obtains ks p e where "proceeds ks w w'" and "ends r e"
    and "parking (inv_id (mt_invocation turn)) e p \<and>
        (ks = p @ revocations (inv_id (mt_invocation turn)) (mt_grants turn)
         \<or> ks = revocations (inv_id (mt_invocation turn)) (mt_grants turn) @ p)
      \<or> e = EndCompleted \<and> ks = revocations (inv_id (mt_invocation turn)) (mt_grants turn)
          @ [Committed (inv_id (mt_invocation turn)) CommittedCompletion]"
proof -
  let ?i = "mt_invocation turn" and ?gs = "mt_grants turn"
  obtain r1 w1 where a: "await_terminal env ?i (mt_generation_id turn) (mt_binding turn) fence
      (mt_permission_policy turn) (mt_interruption turn) w = Some (r1, w1)"
    using assms(2) by (auto simp: finish_turn_def bind_eq_Some_conv)
  obtain p where p: "proceeds p w w1" "awaited (inv_id ?i) r1 p" using ran_await_terminal [OF assms(1) a] by blast
  define w2 where "w2 = revoke_grants env ?gs (inv_id ?i) w1"
  obtain r2 w3 where c: "closing_on_error env (inv_id ?i) (r1, w2) = (r2, w3)" by fastforce
  note close = ran_closing_on_error [OF c]
  have revoked: "proceeds (p @ revocations (inv_id ?i) ?gs) w w3"
    using ran_quiet [OF ran_trans [OF p(1) ran_revoke [OF assms(1)]] close(2) [unfolded w2_def]] .
  have rest: "(case (r1, w3) of
        (Inl e, w) \<Rightarrow> Some (Inl e, w)
      | (Inr (DrainBlocked blocked), w) \<Rightarrow> Some (Inr (OutcomeBlocked blocked), w)
      | (Inr (DrainTerminal evidence), w) \<Rightarrow>
          Some (closing_on_error env (inv_id ?i) (settle_terminal env ?i (mt_binding turn) (mt_result_kind turn)
            (mt_result_capture turn) (mt_result_context turn) evidence w))) = Some (r, w')"
    using assms(2) a c close(1) by (simp add: finish_turn_def Let_def w2_def)
  show thesis
  proof (cases r1)
    case (Inl f)
    then obtain g where "f = TurnFleet g" "parking (inv_id ?i) EndFailed p" using p(2) by (auto simp: awaited_def)
    then show thesis using rest Inl revoked that [of _ EndFailed p] by auto
  next
    case (Inr d)
    show thesis
    proof (cases d)
      case (DrainBlocked x)
      then have "parking (inv_id ?i) EndBlocked p" using p(2) Inr by (simp add: awaited_def)
      then show thesis using rest Inr DrainBlocked revoked that [of _ EndBlocked p] by auto
    next
      case (DrainTerminal evidence)
      obtain r4 w4 where s: "settle_terminal env ?i (mt_binding turn) (mt_result_kind turn)
          (mt_result_capture turn) (mt_result_context turn) evidence w3 = (r4, w4)" by fastforce
      have "closing_on_error env (inv_id ?i) (r4, w4) = (r, w')" using rest Inr DrainTerminal s by simp
      note close' = ran_closing_on_error [OF this]
      have "p = []" using p(2) Inr DrainTerminal by (simp add: awaited_def)
      obtain q e where q: "proceeds q w3 w4" "ends r4 e" "parking (inv_id ?i) e q
          \<or> e = EndCompleted \<and> q = [Committed (inv_id ?i) CommittedCompletion]"
        using ran_settle [OF assms(1) s] by blast
      have "proceeds (revocations (inv_id ?i) ?gs @ q) w w'"
        using ran_quiet [OF ran_trans [OF revoked q(1)] close'(2)] \<open>p = []\<close> by simp
      then show thesis using q(2,3) close'(1) that by blast
    qed
  qed
qed

text \<open>A run is refused before anything is armed, or goes on from the armed state.\<close>

lemma run_turn_cases:
  assumes "others_ok env" and "run_turn env turn w = Some (r, w')"
  obtains (refused) "proceeds [] w w'" "ends r EndRefused" "isl r"
  | (armed) now d1 x w1 where "proceeds [Committed (inv_id (mt_invocation turn)) CommittedArm] w w1"
      "fleet_step\<^sup>*\<^sup>* (w_db w) d1"
      "arm_session_invocation now (inv_agent_id (mt_invocation turn)) (inv_id (mt_invocation turn)) (mt_binding turn)
        (mt_session_ref turn) (mt_generation_id turn)
        \<lparr>arm_lease_token = inv_lease_token (mt_invocation turn),
         arm_fence_token = inv_fence_token (mt_invocation turn)\<rparr> d1 = Inr (x, w_db w1)"
      "armed_run env turn w1 = Some (r, w')" "validate_turn turn = Inr ()"
proof -
  let ?i = "mt_invocation turn"
  obtain r1 w1 where d: "harness_describe env w = (r1, w1)" by fastforce
  note one = ran_harness(1) [OF assms(1) d]
  define tx where "tx = (\<lambda>now. arm_session_invocation now (inv_agent_id ?i) (inv_id ?i) (mt_binding turn)
      (mt_session_ref turn) (mt_generation_id turn)
      \<lparr>arm_lease_token = inv_lease_token ?i, arm_fence_token = inv_fence_token ?i\<rparr>)"
  obtain r2 w2 where t: "transact env (inv_id ?i) CommittedArm tx w1 = (r2, w2)" by fastforce
  have two: "proceeds (if decisive (Committed (inv_id ?i) CommittedArm) \<and> \<not> isl r2
      then [Committed (inv_id ?i) CommittedArm] else []) w1 w2"
    by (rule ran_transact [OF assms(1) _ t]) (auto simp: tx_def intro: fleet_step.session_armed)
  note run = assms(2) [unfolded run_turn_def Let_def, folded tx_def]
  show thesis
  proof (cases "validate_turn turn")
    case (Inl e)
    then have "r = Inl e" "w' = w" using run by simp_all
    moreover have "ends (Inl e) EndRefused" using Inl by (auto simp: validate_turn_def split: if_splits)
    ultimately show thesis using refused by simp
  next
    case valid: (Inr u)
    show thesis
    proof (cases r1)
      case (Inl e)
      then show thesis using run valid d one refused by auto
    next
      case described: (Inr x)
      show thesis
      proof (cases r2)
        case (Inl e)
        then show thesis using run valid d described t ran_then [OF one two] refused by auto
      next
        case (Inr y)
        let ?v = "world_tick env w1"
        have arm: "tx (now_at env ?v) (w_db ?v) = Inr (y, w_db w2)"
          using t Inr by (auto simp: transact_def Let_def emit_def split: sum.splits)
        have before: "fleet_step\<^sup>*\<^sup>* (w_db w) (w_db ?v)"
          using ran_then [OF one ran_tick [OF assms(1)]] by (simp add: proceeds_def)
        have "armed_run env turn w2 = Some (r, w')"
          using run valid d described t Inr by simp
        then show thesis
          using armed ran_then [OF one two] Inr arm before valid unfolding tx_def by simp
      qed
    qed
  qed
qed

lemma ran_armed_run:
  assumes "others_ok env" and "armed_run env turn w = Some (r, w')"
  obtains ks e where "proceeds ks w w'" and "ends r e"
    and "turn_protocol (inv_id (mt_invocation turn)) (mt_grants turn)
      (start_turn_request (mt_invocation turn) (mt_binding turn) (mt_session_ref turn) (mt_prompt turn) (mt_policy turn))
      (Committed (inv_id (mt_invocation turn)) CommittedArm # ks) e"
proof -
  let ?i = "mt_invocation turn" and ?b = "mt_binding turn" and ?gs = "mt_grants turn"
  let ?k = "inv_id ?i"
  let ?q = "start_turn_request ?i ?b (mt_session_ref turn) (mt_prompt turn) (mt_policy turn)"
  let ?w = "open_trajectory env ?i (mt_generation_id turn) ?b w"
  obtain a w1 where a: "activate_grants env ?i 0 ?gs ?w = (a, w1)" by fastforce
  note act = ran_activate [OF assms(1) a]
  show thesis
  proof (cases a)
    case (Some p)
    obtain n e where p: "p = (n, e)" by fastforce
    have n: "n < length ?gs" "proceeds (activations ?k (take n ?gs)) w w1"
      using act Some p ran_then [OF ran_trajectory(1)] by auto
    have "block_after_arm env ?i ?b (''invocation grant activation failed: '' @ e)
        (revoke_grants env (take n ?gs) ?k w1) = (r, w')"
      using assms(2) a Some p by (simp add: armed_run_def Let_def)
    from ran_block_after_arm [OF assms(1) this] obtain ks e' where
      b: "proceeds ks (revoke_grants env (take n ?gs) ?k w1) w'" "parking ?k e' ks" "ends r e'" by blast
    have "proceeds (activations ?k (take n ?gs) @ revocations ?k (take n ?gs) @ ks) w w'"
      using ran_trans [OF n(2) ran_trans [OF ran_revoke [OF assms(1)] b(1)]] .
    from that [OF this b(3) turn_protocol.ungranted [OF n(1) b(2)]] show thesis .
  next
    case None
    then have granted: "proceeds (activations ?k ?gs) w w1" using act ran_then [OF ran_trajectory(1)] by auto
    obtain s w2 where s: "harness_start_turn env ?q w1 = (s, w2)" by fastforce
    note start = ran_start [OF assms(1) s]
    show thesis
    proof (cases s)
      case (Inl e)
      have "block_after_arm env ?i ?b (''turn start failed: '' @ plugin_error_display e)
          (revoke_grants env ?gs ?k w2) = (r, w')"
        using assms(2) a None s Inl by (simp add: armed_run_def Let_def)
      from ran_block_after_arm [OF assms(1) this] obtain ks e' where
        b: "proceeds ks (revoke_grants env ?gs ?k w2) w'" "parking ?k e' ks" "ends r e'" by blast
      obtain q where q: "q \<in> {[], [SentStart ?q]}" "proceeds q w1 w2" using start by blast
      have "proceeds (activations ?k ?gs @ q @ revocations ?k ?gs @ ks) w w'"
        using ran_trans [OF granted ran_trans [OF q(2) ran_trans [OF ran_revoke [OF assms(1)] b(1)]]] .
      from that [OF this b(3) turn_protocol.unstarted [OF q(1) b(2)]] show thesis .
    next
      case (Inr y)
      have started: "proceeds [SentStart ?q] w1 w2" using start Inr by simp
      have "finish_turn env turn (st_fence ?q) w2 = Some (r, w')"
        using assms(2) a None s Inr by (simp add: armed_run_def Let_def)
      from ran_finish_turn [OF assms(1) this] obtain ks p e where f: "proceeds ks w2 w'" "ends r e"
        "parking ?k e p \<and> (ks = p @ revocations ?k ?gs \<or> ks = revocations ?k ?gs @ p)
         \<or> e = EndCompleted \<and> ks = revocations ?k ?gs @ [Committed ?k CommittedCompletion]" by blast
      have run: "proceeds (activations ?k ?gs @ [SentStart ?q] @ ks) w w'"
        using ran_trans [OF granted ran_trans [OF started f(1)]] .
      have "turn_protocol ?k ?gs ?q (Committed ?k CommittedArm # activations ?k ?gs @ [SentStart ?q] @ ks) e"
        using f(3) turn_protocol.parked turn_protocol.unsettled turn_protocol.settled by blast
      from that [OF run f(2) this] show thesis .
    qed
  qed
qed

lemma run_turn_proceeds:
  assumes "others_ok env" and "run_turn env turn w = Some (r, w')"
  obtains ks e where "proceeds ks w w'" and "ends r e"
    and "turn_protocol (inv_id (mt_invocation turn)) (mt_grants turn)
      (start_turn_request (mt_invocation turn) (mt_binding turn) (mt_session_ref turn) (mt_prompt turn) (mt_policy turn))
      ks e"
  using assms
proof (cases rule: run_turn_cases)
  case refused
  then show ?thesis using that turn_protocol.refused by blast
next
  case (armed now d1 x w1)
  from ran_armed_run [OF assms(1) armed(4)] show ?thesis
    using ran_trans [OF armed(1)] that by (metis append_Cons append_Nil)
qed

lemma proceeds_reachable:
  assumes "fleet_reachable (w_db w)" and "proceeds ks w w'"
  shows "fleet_reachable (w_db w')" and "fleet_history (w_db w) (w_db w')"
  using assms run_reachable run_history by (auto simp: proceeds_def)

text \<open>
  C7: whatever the plugin answers, whenever deadlines and interruptions strike
  and whatever the rest of the fleet does meanwhile, a managed turn that returns has kept the
  protocol: it was refused with nothing armed, or it armed the invocation, activated its grants in
  order, sent the prompt at most once, and either completed the invocation after revoking every
  grant or parked it (uncertain first, then blocked).  Everything it did to the store was a sequence
  of committed operations of the fleet, so the store stays reachable and its history grows.
\<close>

theorem turn_keeps_protocol:
  assumes "others_ok env" and "fleet_reachable (w_db w)" and "run_turn env turn w = Some (r, w')"
  shows "\<exists>es e. w_log w' = w_log w @ es \<and> ends r e
      \<and> turn_protocol (inv_id (mt_invocation turn)) (mt_grants turn)
          (start_turn_request (mt_invocation turn) (mt_binding turn) (mt_session_ref turn) (mt_prompt turn)
            (mt_policy turn))
          (filter decisive es) e
      \<and> fleet_reachable (w_db w') \<and> fleet_history (w_db w) (w_db w')"
proof -
  obtain ks e where run: "proceeds ks w w'" "ends r e" "turn_protocol (inv_id (mt_invocation turn)) (mt_grants turn)
      (start_turn_request (mt_invocation turn) (mt_binding turn) (mt_session_ref turn) (mt_prompt turn) (mt_policy turn))
      ks e" using run_turn_proceeds [OF assms(1,3)] by blast
  then show ?thesis using proceeds_reachable [OF assms(2) run(1)] by (auto simp: proceeds_def)
qed

section \<open>What the protocol guarantees\<close>

lemma parking_effects:
  assumes "parking k e p"
  shows "set p \<subseteq> {Committed k CommittedUncertain, Committed k CommittedBlock}"
  using assms by cases auto

text \<open>
  The dispatch of a turn, read off its log: the prompt that was sent, what came before it, and what
  the grants were told.
\<close>

definition sent_prompts :: "effect list \<Rightarrow> start_turn list" where
  "sent_prompts es = List.map_filter (\<lambda>e. case e of SentStart q \<Rightarrow> Some q | _ \<Rightarrow> None) es"

definition granted :: "string \<Rightarrow> effect list \<Rightarrow> nat list" where
  "granted k es = List.map_filter (\<lambda>e. case e of GrantActivated g j \<Rightarrow> if j = k then Some g else None | _ \<Rightarrow> None) es"

definition revoked :: "string \<Rightarrow> effect list \<Rightarrow> nat list" where
  "revoked k es = List.map_filter (\<lambda>e. case e of GrantRevoked g j \<Rightarrow> if j = k then Some g else None | _ \<Rightarrow> None) es"

lemma map_filter_append: "List.map_filter f (xs @ ys) = List.map_filter f xs @ List.map_filter f ys"
  by (simp add: List.map_filter_def)

lemma log_filters:
  "sent_prompts (xs @ ys) = sent_prompts xs @ sent_prompts ys" "granted k (xs @ ys) = granted k xs @ granted k ys"
  "revoked k (xs @ ys) = revoked k xs @ revoked k ys"
  by (simp_all add: sent_prompts_def granted_def revoked_def map_filter_append)

lemma log_decisive:
  "sent_prompts (filter decisive es) = sent_prompts es" "granted k (filter decisive es) = granted k es"
  "revoked k (filter decisive es) = revoked k es"
  by (induction es; auto simp: sent_prompts_def granted_def revoked_def List.map_filter_simps
      split: effect.splits option.splits)+

lemma log_grants:
  "sent_prompts (activations k gs) = []" "sent_prompts (revocations k gs) = []"
  "granted k (activations k gs) = gs" "granted k (revocations k gs) = []"
  "revoked k (activations k gs) = []" "revoked k (revocations k gs) = rev gs"
  unfolding activations_def revocations_def sent_prompts_def granted_def revoked_def
  by (simp_all add: List.map_filter_def filter_False comp_def)

lemma log_parking:
  assumes "parking k e p"
  shows "sent_prompts p = []" "granted j p = []" "revoked j p = []"
  using assms by (cases; simp add: sent_prompts_def granted_def revoked_def List.map_filter_simps)+

lemma log_cons:
  "sent_prompts [] = []" "granted k [] = []" "revoked k [] = []"
  "sent_prompts (Committed j c # es) = sent_prompts es" "granted k (Committed j c # es) = granted k es"
  "revoked k (Committed j c # es) = revoked k es"
  "sent_prompts (SentStart q # es) = q # sent_prompts es" "granted k (SentStart q # es) = granted k es"
  "revoked k (SentStart q # es) = revoked k es"
  by (simp_all add: sent_prompts_def granted_def revoked_def List.map_filter_simps)

lemmas log_simps = log_filters log_grants log_cons

lemma held_activations:
  "fold held (activations k gs) h = (\<lambda>g. if g \<in> set gs then Some k else h g)"
  by (induction gs arbitrary: h) (auto simp: activations_def fun_eq_iff)

lemma held_revocations:
  "fold held (revocations k gs) h = (\<lambda>g. if g \<in> set gs \<and> h g = Some k then None else h g)"
proof -
  have "fold held (map (\<lambda>g. GrantRevoked g k) xs) h = (\<lambda>g. if g \<in> set xs \<and> h g = Some k then None else h g)" for xs
    by (induction xs arbitrary: h) (auto simp: fun_eq_iff)
  then show ?thesis by (simp add: revocations_def)
qed

lemma held_parking: "parking k e p \<Longrightarrow> fold held p h = h"
  by (cases rule: parking.cases) auto

lemma turn_protocol_facts:
  assumes "turn_protocol k gs q ks e"
  shows "ks = [] \<or> (\<exists>rest. ks = Committed k CommittedArm # rest \<and> sent_prompts rest \<in> {[], [q]})"
    and "revoked k ks = rev (granted k ks)"
    and "\<forall>g. h g \<noteq> Some k \<Longrightarrow> \<forall>g. fold held ks h g \<noteq> Some k"
proof -
  have park: "sent_prompts p = []" "granted k p = []" "revoked k p = []" "fold held p f = f"
    if "parking k x p" for x p f
    using log_parking [OF that] held_parking [OF that] by simp_all
  show "ks = [] \<or> (\<exists>rest. ks = Committed k CommittedArm # rest \<and> sent_prompts rest \<in> {[], [q]})"
    using assms by cases (auto simp: log_simps park)
  show "revoked k ks = rev (granted k ks)"
    using assms by cases (auto simp: log_simps park)
  show "\<forall>g. fold held ks h g \<noteq> Some k" if "\<forall>g. h g \<noteq> Some k"
    using assms that by cases (auto simp: held_activations held_revocations park)
qed

text \<open>
  C8: the prompt of a managed turn leaves the host at most once, under the
  invocation's fence, and only after the transaction that armed the invocation has committed.
  Whatever happens, every grant that was activated for the invocation is revoked again, in reverse
  order, and when the turn returns no broker is armed for it.
\<close>

theorem prompt_follows_fence:
  assumes "others_ok env" and "\<forall>g. holders w g \<noteq> Some (inv_id (mt_invocation turn))"
    and "run_turn env turn w = Some (r, w')"
  shows "\<exists>es. w_log w' = w_log w @ es
      \<and> (sent_prompts es = []
         \<or> (\<exists>before after. es = before @ Committed (inv_id (mt_invocation turn)) CommittedArm # after
              \<and> sent_prompts before = []
              \<and> sent_prompts after = [start_turn_request (mt_invocation turn) (mt_binding turn)
                  (mt_session_ref turn) (mt_prompt turn) (mt_policy turn)]))
      \<and> revoked (inv_id (mt_invocation turn)) es = rev (granted (inv_id (mt_invocation turn)) es)
      \<and> (\<forall>g. holders w' g \<noteq> Some (inv_id (mt_invocation turn)))"
proof -
  let ?k = "inv_id (mt_invocation turn)"
  let ?q = "start_turn_request (mt_invocation turn) (mt_binding turn) (mt_session_ref turn) (mt_prompt turn) (mt_policy turn)"
  obtain ks e where run: "proceeds ks w w'" "turn_protocol ?k (mt_grants turn) ?q ks e"
    using run_turn_proceeds [OF assms(1,3)] by blast
  obtain es where es: "w_log w' = w_log w @ es" "filter decisive es = ks" using run(1) by (auto simp: proceeds_def)
  note facts = turn_protocol_facts [OF run(2)]
  have "sent_prompts es = [] \<or> (\<exists>before after. es = before @ Committed ?k CommittedArm # after
      \<and> sent_prompts before = [] \<and> sent_prompts after = [?q])"
  proof (cases ks)
    case Nil
    then show ?thesis using log_decisive(1) [of es] es(2) by (simp add: log_cons)
  next
    case (Cons x rest)
    then have x: "x = Committed ?k CommittedArm" and rest: "sent_prompts rest \<in> {[], [?q]}" using facts(1) by auto
    obtain before after where split: "es = before @ x # after" "\<forall>y\<in>set before. \<not> decisive y" "filter decisive after = rest"
      using es(2) Cons by (auto simp: filter_eq_Cons_iff)
    have "sent_prompts before = []"
      using log_decisive(1) [of before] split(2) by (simp add: filter_False log_cons)
    moreover have "sent_prompts after = sent_prompts rest" using log_decisive(1) [of after] split(3) by simp
    moreover have "sent_prompts es = sent_prompts before @ sent_prompts after"
      by (simp add: split(1) x log_simps)
    ultimately show ?thesis using rest split(1) x by auto
  qed
  moreover have "revoked ?k es = rev (granted ?k es)"
    using facts(2) log_decisive(2,3) [of _ es] es(2) by metis
  moreover have "\<forall>g. holders w' g \<noteq> Some ?k"
    using facts(3) [of "holders w"] assms(2) run(1) by (simp add: proceeds_def)
  ultimately show ?thesis using es(1) by blast
qed

end
