(* ===== verification/Controller_Outcome.thy ===== *)
theory Controller_Outcome
  imports Controller_Run Replay
begin

text \<open>
  What the outcome of a managed turn says of the store, and that a turn always has one: a completion
  is durable and rests on terminal evidence of the very turn that was dispatched, a blocked outcome
  is a block record over an uncertain session turn, and once its deadlines fire the controller
  returns.
\<close>

section \<open>Parked turns\<close>

definition parked_as :: "db \<Rightarrow> invocation \<Rightarrow> blocked_delivery \<Rightarrow> bool" where
  "parked_as d i x \<longleftrightarrow>
     (\<exists>b\<in>set (delivery_blocks d). b_id b = blocked_block_id x \<and> b_agent_id b = inv_agent_id i
        \<and> b_lease_token b = inv_lease_token i \<and> b_reason b = blocked_reason x)
     \<and> (\<exists>t\<in>set (session_binding_turns d). t_invocation_id t = inv_id i \<and> t_state t = TurnUncertain)"

lemma parked_as_run:
  assumes "parked_as d i x" and "fleet_history d d'"
  shows "parked_as d' i x"
proof -
  obtain b t where b: "b \<in> set (delivery_blocks d)" "b_id b = blocked_block_id x" "b_agent_id b = inv_agent_id i"
      "b_lease_token b = inv_lease_token i" "b_reason b = blocked_reason x"
    and t: "t \<in> set (session_binding_turns d)" "t_invocation_id t = inv_id i" "t_state t = TurnUncertain"
    using assms(1) unfolding parked_as_def by blast
  obtain b' where "b' \<in> set (delivery_blocks d')" "block_kept b b'"
    using assms(2) b(1) unfolding fleet_history_def history_def evolves_def by blast
  moreover have "t \<in> set (session_binding_turns d')"
    using assms(2) t(1,3) unfolding fleet_history_def session_history_def rows_kept_def turn_kept_def
    by (metis turn_state.distinct(3))
  ultimately show ?thesis
    using b t unfolding parked_as_def block_kept_def block_key_def by auto
qed

lemma mark_makes_uncertain:
  assumes inv: "sessions_inv d" and ok: "mark_session_invocation_uncertain now a iid b reason d = Inr (x, d')"
  shows "\<exists>t\<in>set (session_binding_turns d'). t_invocation_id t = iid \<and> t_state t = TurnUncertain"
proof -
  have links: "bindings_inv d" "turn_links d" using inv by (simp_all add: sessions_inv_def)
  obtain row where row: "exact_binding_row a b d = Inr row"
    and cases: "s_state row = Uncertain \<and> d' = d \<or> mark_turn_uncertain a iid b reason now d = Inr d'"
    and bound: "validate_bound_turn a iid b False d = Inr ()"
    using ok unfolding mark_session_invocation_uncertain_def and_then_eq_Inr by (auto split: if_splits)
  have in_db: "row \<in> set (session_bindings d)" and active: "s_active_invocation_id row = Some iid"
    using row bound
    by (auto simp: exact_binding_row_def validate_bound_turn_def and_then_eq_Inr ok_or_eq_Inr
        dest!: find_in split: if_splits)
  show ?thesis
  proof (cases "s_state row = Uncertain \<and> d' = d")
    case True
    then show ?thesis using links(2) in_db active unfolding turn_links_def by fastforce
  next
    case False
    then have mark: "mark_turn_uncertain a iid b reason now d = Inr d'" using cases by blast
    obtain t where t: "t \<in> set (session_binding_turns d)" "t_invocation_id t = iid"
      using bound by (auto simp: validate_bound_turn_def bound_turn_row_def and_then_eq_Inr ok_or_eq_Inr dest!: find_in)
    have "made_uncertain iid d d'" by (rule mark_turn_uncertain_step [OF links mark])
    moreover have "rows_kept turn_kept (session_binding_turns d) (session_binding_turns d')"
      using calculation by (simp add: made_uncertain_def session_history_def)
    then obtain t' where t': "t' \<in> set (session_binding_turns d')" "t_invocation_id t' = iid"
      using t unfolding rows_kept_def turn_kept_def by metis
    ultimately show ?thesis unfolding made_uncertain_def using t'
      by (metis (no_types, lifting))
  qed
qed

lemma block_record_row:
  assumes core: "core_inv d" and ok: "block_delivery now a mid inp d = Inr ((x, created), d')"
  shows "\<exists>b\<in>set (delivery_blocks d'). b_id b = blocked_block_id x \<and> b_agent_id b = a
    \<and> b_lease_token b = block_lease_token inp \<and> b_reason b = blocked_reason x"
  using core ok
proof (cases rule: block_delivery_cases)
  case replay
  then show ?thesis
    by (auto simp: blocked_delivery_by_lease_def blocked_delivery_select_def blocked_delivery_from_row_def
        dest!: find_in)
next
  case (blocked d1 d2 n)
  from blocked(2) show ?thesis
  proof (rule insert_block_record_Inr)
    fix r m
    assume a: "d_agent_id r = a" and ins: "insert_block_row (new_block_row (d_message_seq r) (d_agent_id r) (d_attempt r)
        (block_lease_token inp) (block_reason inp) now) d1 = Inr (n, d2)"
    let ?b = "new_block_row (d_message_seq r) (d_agent_id r) (d_attempt r) (block_lease_token inp) (block_reason inp) now n"
    have d2: "?b \<in> set (delivery_blocks d2)" "b_id ?b = n"
      using ins by (auto simp: insert_block_row_def Let_def new_block_row_def split: if_splits)
    have same: "delivery_blocks d' = delivery_blocks d2"
      using blocked(3) by (auto simp: terminalize_invocation_def and_then_eq_Inr Let_def split: if_splits)
    obtain b m' where b: "b \<in> set (delivery_blocks d')" "b_id b = n" "x = blocked_delivery_from_row (b, m')"
      using blocked(4) by (auto simp: blocked_delivery_by_id_def blocked_delivery_select_def ok_or_eq_Inr dest!: find_in)
    have "unique_on b_id (delivery_blocks d')"
      using core_inv_block [OF core ok] by (simp add: core_inv_def blocks_inv_def)
    from unique_onD [OF this b(1)] have "b = ?b" using d2 same b(2) by simp
    then show ?thesis
      using b(1,3) a by (intro bexI [of _ b]) (simp_all add: blocked_delivery_from_row_def new_block_row_def)
  qed
qed

lemma transact_db:
  assumes "others_ok env" and "transact env k c f w = (Inr x, w')"
  obtains d where "fleet_step\<^sup>*\<^sup>* (w_db w) d" and "f (now_at env (world_tick env w)) d = Inr (x, w_db w')"
  using assms ran_tick [OF assms(1), of w]
  by (auto simp: transact_def Let_def emit_def proceeds_def split: sum.splits)

lemma block_parks:
  assumes others: "others_ok env" and reach: "fleet_reachable (w_db w)"
    and ok: "block env i b reason w = (Inr x, w')"
  shows "parked_as (w_db w') i x"
proof -
  let ?r = "bounded_reason reason"
  obtain s w1 where u: "transact env (inv_id i) CommittedUncertain (\<lambda>now.
      mark_session_invocation_uncertain now (inv_agent_id i) (inv_id i) b ?r) w = (Inr s, w1)"
    using ok by (auto simp: block_def Let_def split: sum.splits prod.splits)
  obtain created w2 where v: "transact env (inv_id i) CommittedBlock (\<lambda>now.
      block_delivery now (inv_agent_id i) (msg_id (inv_message i))
        \<lparr>block_lease_token = inv_lease_token i, block_reason = ?r\<rparr>) w1 = (Inr (x, created), w2)"
    and same: "w_db w' = w_db w2"
    using ok u by (auto simp: block_def Let_def close_trajectory_def offer_def emit_def split: sum.splits prod.splits if_splits)
  obtain d1 where d1: "fleet_step\<^sup>*\<^sup>* (w_db w) d1" and mark: "mark_session_invocation_uncertain
      (now_at env (world_tick env w)) (inv_agent_id i) (inv_id i) b ?r d1 = Inr (s, w_db w1)"
    using transact_db [OF others u] by blast
  have r1: "fleet_reachable d1" by (rule run_reachable [OF d1 reach])
  have r2: "fleet_reachable (w_db w1)"
    using reachable.step [OF r1 fleet_step.session_uncertain [OF mark]] .
  obtain d2 where d2: "fleet_step\<^sup>*\<^sup>* (w_db w1) d2" and blk: "block_delivery (now_at env (world_tick env w1))
      (inv_agent_id i) (msg_id (inv_message i)) \<lparr>block_lease_token = inv_lease_token i, block_reason = ?r\<rparr> d2
      = Inr ((x, created), w_db w2)"
    using transact_db [OF others v] by blast
  have r3: "fleet_reachable d2" by (rule run_reachable [OF d2 r2])
  obtain t where t: "t \<in> set (session_binding_turns (w_db w1))" "t_invocation_id t = inv_id i" "t_state t = TurnUncertain"
    using mark_makes_uncertain [OF reachable_fleet(2) [OF r1] mark] by blast
  have "session_history (w_db w1) (w_db w2)"
    using run_history [OF r2, of "w_db w2"] d2 fleet_step.delivery_blocked [OF blk]
    by (simp add: fleet_history_def rtranclp.rtrancl_into_rtrancl)
  then have "t \<in> set (session_binding_turns (w_db w2))"
    using t(1,3) unfolding session_history_def rows_kept_def turn_kept_def by (metis turn_state.distinct(3))
  then show ?thesis
    using t block_record_row [OF reachable_fleet(1) [OF r3] blk] unfolding parked_as_def same by auto
qed

section \<open>Evidence of the turn that was dispatched\<close>

definition good_terminal :: "execution_fence \<Rightarrow> terminal_frame \<Rightarrow> bool" where
  "good_terminal fence t \<longleftrightarrow> tf_fence t = fence \<and> tf_execution_certainty t \<noteq> HarnessNotStarted
     \<and> \<not> (tf_session_quiescent t \<and> tf_execution_certainty t = HarnessOutcomeUnknown)
     \<and> list_all (assistant_bounds_ok (tf_last_event_seq t)) (tf_assistant_messages t)"

definition turn_fenced :: "execution_fence \<Rightarrow> world \<Rightarrow> bool" where
  "turn_fenced fence w \<longleftrightarrow> (case w_turn w of None \<Rightarrow> True | Some a \<Rightarrow> at_fence a = fence)"

fun stage_ok :: "execution_fence \<Rightarrow> drain_stage \<Rightarrow> bool" where
  "stage_ok fence (AwaitTerminal t) = good_terminal fence t"
| "stage_ok fence _ = True"

lemma world_tick_turn [simp]: "w_turn (world_tick env w) = w_turn w"
  by (simp add: world_tick_def Let_def split: prod.splits)

lemma effects_turn [simp]:
  "w_turn (emit e w) = w_turn w" "w_turn (observe env k n t cls r w) = w_turn w"
  "w_turn (close_trajectory env k c w) = w_turn w" "w_turn (open_trajectory env i g b w) = w_turn w"
  by (simp_all add: emit_def observe_def close_trajectory_def open_trajectory_def offer_def)

lemma transact_turn: "transact env k c f w = (r, w') \<Longrightarrow> w_turn w' = w_turn w"
  by (auto simp: transact_def Let_def split: sum.splits)

lemma protocol_call_turn: "protocol_call env e f w = (r, w') \<Longrightarrow> w_turn w' = w_turn w"
  by (auto simp: protocol_call_def Let_def)

lemma resolve_turn: "harness_resolve_permission env q w = (r, w') \<Longrightarrow> w_turn w' = w_turn w"
  by (auto simp: harness_resolve_permission_def Let_def split: sum.splits prod.splits dest: protocol_call_turn)

lemma cancel_turn: "harness_cancel_turn env q w = (r, w') \<Longrightarrow> w_turn w' = w_turn w"
  by (auto simp: harness_cancel_turn_def Let_def split: sum.splits prod.splits dest: protocol_call_turn)

lemma validate_active_fence_Inr: "validate_active_fence a f = Inr t \<longleftrightarrow> validate_fence f = Inr () \<and> a = Some t \<and> at_fence t = f"
  by (auto simp: validate_active_fence_def and_then_eq_Inr ok_or_eq_Inr split: if_splits)

lemma admit_event_fence: "admit_event env f n raw a = Inr t \<Longrightarrow> \<exists>u. a = Some u \<and> at_fence u = f \<and> at_fence t = f"
  by (auto simp: admit_event_def and_then_eq_Inr validate_active_fence_Inr Let_def split: option.splits if_splits)

lemma validate_terminal_Inr:
  "validate_terminal a t = Inr u \<Longrightarrow> \<exists>x. a = Some x \<and> good_terminal (at_fence x) t"
  by (auto simp: validate_terminal_def and_then_eq_Inr validate_active_fence_Inr good_terminal_def split: if_splits)

lemma admit_notification_fenced:
  assumes "admit_notification env m params a = Inr (note, a')" and "case a of None \<Rightarrow> True | Some x \<Rightarrow> at_fence x = fence"
  shows "case a' of None \<Rightarrow> True | Some x \<Rightarrow> at_fence x = fence"
    and "\<And>t. note = NoteTerminal t \<Longrightarrow> good_terminal fence t"
  using assms
  by (auto simp: admit_notification_def and_then_eq_Inr dest!: admit_event_fence validate_terminal_Inr split: if_splits)

lemma next_notification_fenced:
  assumes "harness_next_notification env w = (r, w')" and "turn_fenced fence w"
  shows "turn_fenced fence w'" and "\<And>t. r = Inr (NoteTerminal t) \<Longrightarrow> good_terminal fence t"
  using assms by (auto simp: harness_next_notification_def Let_def turn_fenced_def and_then_eq_Inr
      split: sum.splits prod.splits dest: admit_notification_fenced)

lemma drain_step_fenced:
  assumes "drain_step env gid fence policy stage w = (r, w')" and "turn_fenced fence w" and "stage_ok fence stage"
  shows "turn_fenced fence w'" and "\<And>st. r = Inr st \<Longrightarrow> stage_ok fence st"
    and "\<And>t. r = Inl (Inr t) \<Longrightarrow> good_terminal fence t"
proof -
  have "turn_fenced fence w' \<and> (case r of Inr st \<Rightarrow> stage_ok fence st | Inl (Inr t) \<Rightarrow> good_terminal fence t
      | Inl (Inl _) \<Rightarrow> True)"
  proof (cases stage)
    case AwaitNotification
    then show ?thesis
      using assms(1) next_notification_fenced [OF _ assms(2)]
      by (auto simp: drain_step_def split: prod.splits sum.splits harness_notification.splits)
  next
    case (AwaitResolve p d)
    then show ?thesis
      using assms(1,2) by (auto simp: drain_step_def turn_fenced_def split: prod.splits sum.splits dest!: resolve_turn)
  qed (use assms in \<open>auto simp: drain_step_def turn_fenced_def split: prod.splits sum.splits dest!: transact_turn\<close>)
  then show "turn_fenced fence w'" and "\<And>st. r = Inr st \<Longrightarrow> stage_ok fence st"
    and "\<And>t. r = Inl (Inr t) \<Longrightarrow> good_terminal fence t" by auto
qed

lemma drop_stage_fenced:
  assumes "turn_fenced fence w" and "stage_ok fence stage"
  shows "turn_fenced fence (drop_stage env gid fence policy stage w)"
  using drain_step_fenced(1) [OF prod.collapse [symmetric] assms] assms(1) by (simp add: drop_stage_def)

lemma drained_fenced:
  assumes "drain_turn env gid fence policy stop stage w = Some (r, w')" and "turn_fenced fence w" and "stage_ok fence stage"
  shows "turn_fenced fence w' \<and> (\<forall>t. r = Inl (Inr t) \<longrightarrow> good_terminal fence t)"
  using assms
proof (induction rule: drain_turn_induct)
  case (stopped stage w s)
  then show ?case using drop_stage_fenced by auto
next
  case (pending stage w r w')
  then show ?case by (simp add: turn_fenced_def)
next
  case (finished stage w r w')
  then show ?case using drain_step_fenced(1,3) [OF finished.hyps(2)] by simp
next
  case (stepped stage w stage' w1 r w')
  then show ?case using drain_step_fenced by blast
qed

lemma block_not_terminal: "blocked_drain env i b reason w \<noteq> (Inr (DrainTerminal ev), w')"
  by (auto simp: blocked_drain_def split: prod.splits sum.splits)

lemma cancel_terminal:
  assumes "cancel_and_drain env i gid b fence policy host w = Some (Inr (DrainTerminal ev), w')" and "turn_fenced fence w"
  shows "good_terminal fence (tev_terminal ev) \<and> tev_host_stop_reason ev = Some host"
proof -
  obtain u w1 where c: "harness_cancel_turn env (host_stop_cancel_reason host) w = (Inr u, w1)"
    using assms(1) by (auto simp: cancel_and_drain_def block_not_terminal split: prod.splits sum.splits)
  then obtain r1 w2 where d: "drain_turn env gid fence policy (cancel_stop env) AwaitNotification w1 = Some (r1, w2)"
    and rest: "(case r1 of
            Inl (Inr t) \<Rightarrow> (Inr (DrainTerminal \<lparr>tev_terminal = t, tev_host_stop_reason = Some host\<rparr>), w2)
          | Inl (Inl e) \<Rightarrow> blocked_drain env i b (''cancel drain failed: '' @ turn_drain_error_display env e) w2
          | Inr _ \<Rightarrow> blocked_drain env i b ''cancel drain deadline exceeded'' w2) = (Inr (DrainTerminal ev), w')"
    using assms(1) by (auto simp: cancel_and_drain_def bind_eq_Some_conv)
  obtain t where t: "r1 = Inl (Inr t)" "ev = \<lparr>tev_terminal = t, tev_host_stop_reason = Some host\<rparr>"
    using rest block_not_terminal by (cases r1) (auto split: sum.splits)
  have "turn_fenced fence w1" using assms(2) cancel_turn [OF c] by (simp add: turn_fenced_def)
  from drained_fenced [OF d this] t show ?thesis by simp
qed

lemma await_terminal_good:
  assumes "await_terminal env i gid b fence policy interruption w = Some (Inr (DrainTerminal ev), w')"
    and "turn_fenced fence w"
  shows "good_terminal fence (tev_terminal ev)"
proof -
  obtain r1 w1 where d: "drain_turn env gid fence policy (initial_stop env interruption) AwaitNotification w = Some (r1, w1)"
    using assms(1) by (auto simp: await_terminal_def bind_eq_Some_conv)
  from drained_fenced [OF d assms(2)] have good: "turn_fenced fence w1"
    "\<And>t. r1 = Inl (Inr t) \<Longrightarrow> good_terminal fence t" by auto
  show ?thesis
  proof (cases r1)
    case (Inl x)
    then show ?thesis using assms(1) d good(2) by (auto simp: await_terminal_def block_not_terminal split: sum.splits)
  next
    case (Inr host)
    then have "cancel_and_drain env i gid b fence policy host w1 = Some (Inr (DrainTerminal ev), w')"
      using assms(1) d by (simp add: await_terminal_def)
    from cancel_terminal [OF this good(1)] show ?thesis by blast
  qed
qed

section \<open>Outcomes\<close>

text \<open>
  \<open>completed_by env turn t host c d\<close>: \<open>c\<close> is the stored completion of the turn's invocation, its
  payload is what the terminal frame \<open>t\<close> of that very turn and the host's stop reason make, and the
  frame says that the outcome is known and the session quiescent.
\<close>

definition completed_by ::
  "env \<Rightarrow> managed_turn \<Rightarrow> terminal_frame \<Rightarrow> host_stop_reason option \<Rightarrow> invocation_completion \<Rightarrow> db \<Rightarrow> bool" where
  "completed_by env turn t host c d \<longleftrightarrow>
     (let i = mt_invocation turn in
      good_terminal (st_fence (start_turn_request i (mt_binding turn) (mt_session_ref turn) (mt_prompt turn)
        (mt_policy turn))) t
      \<and> tf_execution_certainty t = HarnessOutcomeKnown \<and> tf_session_quiescent t
      \<and> completed_as d (inv_agent_id i) (inv_id i)
          \<lparr>complete_lease_token = inv_lease_token i, complete_fence_token = inv_fence_token i,
           complete_kind = mt_result_kind turn,
           complete_payload = env_encode env (terminal_payload (env_decode env) (inv_id i)
             (mt_result_capture turn) (mt_result_context turn) t host)\<rparr> c)"

lemma completed_as_core: "same_core d d' \<Longrightarrow> completed_as d a iid inp c \<Longrightarrow> completed_as d' a iid inp c"
  by (simp add: completed_as_def same_core_def)

lemma complete_session_completed_as:
  assumes core: "core_inv d" and ok: "complete_session_invocation uuid msg_now now a iid b p inp d = Inr ((c, created), d')"
  shows "completed_as d' a iid inp c"
  using ok
proof (rule complete_session_invocation_Inr)
  fix d1
  assume tx: "complete_invocation_transaction uuid msg_now a iid inp now True d = Inr ((c, created), d1)"
    and settle: "settle_quiescent_turn a iid b p now d1 = Inr d'"
  show ?thesis
    using settle_quiescent_turn_core [OF settle] complete_completed_as [OF core tx] by (rule completed_as_core)
qed

lemma settled_outcome:
  assumes others: "others_ok env" and reach: "fleet_reachable (w_db w)"
    and ok: "settle_terminal env i b kind capture context ev w = (Inr outcome, w')"
  shows "case outcome of
      OutcomeBlocked x \<Rightarrow> parked_as (w_db w') i x
    | OutcomeCompleted c \<Rightarrow> Option.bind (tev_host_stop_reason ev) host_stop_interruption = None
        \<and> tf_execution_certainty (tev_terminal ev) \<noteq> HarnessOutcomeUnknown \<and> tf_session_quiescent (tev_terminal ev)
        \<and> completed_as (w_db w') (inv_agent_id i) (inv_id i)
          \<lparr>complete_lease_token = inv_lease_token i, complete_fence_token = inv_fence_token i, complete_kind = kind,
           complete_payload = env_encode env (terminal_payload (env_decode env) (inv_id i) capture context
             (tev_terminal ev) (tev_host_stop_reason ev))\<rparr> c
    | OutcomeInterrupted c s \<Rightarrow> Option.bind (tev_host_stop_reason ev) host_stop_interruption = Some s
        \<and> tf_execution_certainty (tev_terminal ev) \<noteq> HarnessOutcomeUnknown \<and> tf_session_quiescent (tev_terminal ev)
        \<and> completed_as (w_db w') (inv_agent_id i) (inv_id i)
          \<lparr>complete_lease_token = inv_lease_token i, complete_fence_token = inv_fence_token i, complete_kind = kind,
           complete_payload = env_encode env (terminal_payload (env_decode env) (inv_id i) capture context
             (tev_terminal ev) (tev_host_stop_reason ev))\<rparr> c"
proof (cases "tf_execution_certainty (tev_terminal ev) = HarnessOutcomeUnknown \<or> \<not> tf_session_quiescent (tev_terminal ev)")
  case True
  then obtain reason x where "block env i b reason w = (Inr x, w')" "outcome = OutcomeBlocked x"
    using ok by (auto simp: settle_terminal_def Let_def block_after_arm_def split: prod.splits sum.splits)
  then show ?thesis using block_parks [OF others reach] by simp
next
  case False
  define inp where "inp = \<lparr>complete_lease_token = inv_lease_token i, complete_fence_token = inv_fence_token i,
    complete_kind = kind, complete_payload = env_encode env (terminal_payload (env_decode env) (inv_id i) capture context
      (tev_terminal ev) (tev_host_stop_reason ev))\<rparr>"
  define tx where "tx = (\<lambda>now. complete_session_invocation (env_uuid env (w_tick w)) now now (inv_agent_id i) (inv_id i) b
    (tf_session_persistence (tev_terminal ev)) inp)"
  obtain c created w1 where t: "transact env (inv_id i) CommittedCompletion tx w = (Inr (c, created), w1)"
    and same: "w_db w' = w_db w1"
    and out: "outcome = (case Option.bind (tev_host_stop_reason ev) host_stop_interruption of
      Some s \<Rightarrow> OutcomeInterrupted c s | None \<Rightarrow> OutcomeCompleted c)"
    using ok False by (auto simp: settle_terminal_def Let_def tx_def inp_def close_trajectory_def offer_def emit_def
        split: prod.splits sum.splits if_splits)
  obtain d where d: "fleet_step\<^sup>*\<^sup>* (w_db w) d" "tx (now_at env (world_tick env w)) d = Inr ((c, created), w_db w1)"
    using transact_db [OF others t] by blast
  have "completed_as (w_db w1) (inv_agent_id i) (inv_id i) inp c"
    using complete_session_completed_as [OF reachable_fleet(1) [OF run_reachable [OF d(1) reach]]] d(2)
    unfolding tx_def by blast
  then show ?thesis using False out same by (auto simp: inp_def split: option.splits)
qed

lemma closing_on_error_Inr: "closing_on_error env k r = (Inr x, w') \<longleftrightarrow> r = (Inr x, w')"
  by (auto simp: closing_on_error_def split: sum.splits prod.splits)

lemma closing_on_error_ok: "closing_on_error env k (Inr x, w) = (Inr x, w)"
  by (simp add: closing_on_error_def)

lemma blocked_drain_parks:
  assumes "others_ok env" and "fleet_reachable (w_db w)" and "blocked_drain env i b reason w = (Inr (DrainBlocked x), w')"
  shows "parked_as (w_db w') i x"
  using block_parks [OF assms(1,2), of i b reason x w'] assms(3)
  by (auto simp: blocked_drain_def split: prod.splits sum.splits)

lemma await_blocked_parks:
  assumes others: "others_ok env" and reach: "fleet_reachable (w_db w)"
    and ok: "await_terminal env i gid b fence policy interruption w = Some (Inr (DrainBlocked x), w')"
  shows "parked_as (w_db w') i x"
proof -
  obtain r1 w1 where d: "drain_turn env gid fence policy (initial_stop env interruption) AwaitNotification w = Some (r1, w1)"
    using ok by (auto simp: await_terminal_def bind_eq_Some_conv)
  have reach1: "fleet_reachable (w_db w1)" using proceeds_reachable(1) [OF reach ran_drain_turn [OF others d]] .
  have "\<exists>reason v. fleet_reachable (w_db v) \<and> blocked_drain env i b reason v = (Inr (DrainBlocked x), w')"
  proof (cases r1)
    case (Inl r)
    then show ?thesis using ok d reach1 by (auto simp: await_terminal_def split: sum.splits)
  next
    case (Inr host)
    then have c: "cancel_and_drain env i gid b fence policy host w1 = Some (Inr (DrainBlocked x), w')"
      using ok d by (simp add: await_terminal_def)
    obtain r2 w2 where k: "harness_cancel_turn env (host_stop_cancel_reason host) w1 = (r2, w2)" by fastforce
    have reach2: "fleet_reachable (w_db w2)" using proceeds_reachable(1) [OF reach1 ran_harness(4) [OF others k]] .
    show ?thesis
    proof (cases r2)
      case (Inl e)
      then show ?thesis using c k reach2 by (auto simp: cancel_and_drain_def)
    next
      case (Inr u)
      then obtain r3 w3 where d3: "drain_turn env gid fence policy (cancel_stop env) AwaitNotification w2 = Some (r3, w3)"
        using c k by (auto simp: cancel_and_drain_def bind_eq_Some_conv)
      have "fleet_reachable (w_db w3)" using proceeds_reachable(1) [OF reach2 ran_drain_turn [OF others d3]] .
      then show ?thesis using c k Inr d3 by (auto simp: cancel_and_drain_def split: sum.splits)
    qed
  qed
  then show ?thesis using blocked_drain_parks [OF others] by blast
qed

lemma finished_outcome:
  assumes others: "others_ok env" and reach: "fleet_reachable (w_db w)"
    and fenced: "turn_fenced (st_fence (start_turn_request (mt_invocation turn) (mt_binding turn) (mt_session_ref turn)
      (mt_prompt turn) (mt_policy turn))) w"
    and ok: "finish_turn env turn (st_fence (start_turn_request (mt_invocation turn) (mt_binding turn)
      (mt_session_ref turn) (mt_prompt turn) (mt_policy turn))) w = Some (Inr outcome, w')"
  shows "case outcome of
      OutcomeBlocked x \<Rightarrow> parked_as (w_db w') (mt_invocation turn) x
    | OutcomeCompleted c \<Rightarrow> \<exists>t host. Option.bind host host_stop_interruption = None
        \<and> completed_by env turn t host c (w_db w')
    | OutcomeInterrupted c s \<Rightarrow> \<exists>t host. host_stop_interruption host = Some s
        \<and> completed_by env turn t (Some host) c (w_db w')"
proof -
  let ?i = "mt_invocation turn"
  let ?f = "st_fence (start_turn_request ?i (mt_binding turn) (mt_session_ref turn) (mt_prompt turn) (mt_policy turn))"
  obtain r1 w1 where a: "await_terminal env ?i (mt_generation_id turn) (mt_binding turn) ?f
      (mt_permission_policy turn) (mt_interruption turn) w = Some (r1, w1)"
    using ok by (auto simp: finish_turn_def bind_eq_Some_conv)
  define w2 where "w2 = revoke_grants env (mt_grants turn) (inv_id ?i) w1"
  obtain p where p: "proceeds p w w1" using ran_await_terminal [OF others a] by blast
  have reach1: "fleet_reachable (w_db w1)" by (rule proceeds_reachable(1) [OF reach p])
  note revoke = proceeds_reachable [OF reach1 ran_revoke [OF others, of "inv_id ?i" "mt_grants turn"]]
  obtain d where d: "r1 = Inr d" using ok a by (cases r1) (auto simp: finish_turn_def closing_on_error_def Let_def)
  show ?thesis
  proof (cases d)
    case (DrainBlocked x)
    then have "parked_as (w_db w1) ?i x" using await_blocked_parks [OF others reach] a d by simp
    moreover have "outcome = OutcomeBlocked x" "w' = w2"
      using ok a d DrainBlocked by (auto simp: finish_turn_def closing_on_error_def Let_def w2_def)
    ultimately show ?thesis using parked_as_run revoke(2) by (simp add: w2_def)
  next
    case (DrainTerminal ev)
    have good: "good_terminal ?f (tev_terminal ev)" using await_terminal_good [OF _ fenced] a d DrainTerminal by simp
    have settle: "settle_terminal env ?i (mt_binding turn) (mt_result_kind turn) (mt_result_capture turn)
        (mt_result_context turn) ev w2 = (Inr outcome, w')"
      using ok a d DrainTerminal by (simp add: finish_turn_def closing_on_error_ok closing_on_error_Inr Let_def w2_def)
    have known: "tf_execution_certainty (tev_terminal ev) \<noteq> HarnessOutcomeUnknown \<Longrightarrow>
        tf_execution_certainty (tev_terminal ev) = HarnessOutcomeKnown"
      using good by (cases "tf_execution_certainty (tev_terminal ev)") (auto simp: good_terminal_def)
    show ?thesis
    proof (cases outcome)
      case (OutcomeCompleted c)
      then have "Option.bind (tev_host_stop_reason ev) host_stop_interruption = None"
        "completed_by env turn (tev_terminal ev) (tev_host_stop_reason ev) c (w_db w')"
        using settled_outcome [OF others _ settle] revoke(1) good known
        by (simp_all add: completed_by_def Let_def w2_def)
      then show ?thesis using OutcomeCompleted by auto
    next
      case (OutcomeInterrupted c s)
      then have facts: "Option.bind (tev_host_stop_reason ev) host_stop_interruption = Some s"
        "completed_by env turn (tev_terminal ev) (tev_host_stop_reason ev) c (w_db w')"
        using settled_outcome [OF others _ settle] revoke(1) good known
        by (simp_all add: completed_by_def Let_def w2_def)
      then obtain host where "tev_host_stop_reason ev = Some host" "host_stop_interruption host = Some s"
        by (auto simp: bind_eq_Some_conv)
      then show ?thesis using facts(2) OutcomeInterrupted by auto
    next
      case (OutcomeBlocked x)
      then show ?thesis using settled_outcome [OF others _ settle] revoke(1) by (simp add: w2_def)
    qed
  qed
qed

lemma started_fenced:
  assumes "harness_start_turn env q w = (Inr x, w')"
  shows "turn_fenced (st_fence q) w'"
  using assms by (auto simp: harness_start_turn_def turn_fenced_def Let_def split: sum.splits prod.splits)

text \<open>
  C9: what a managed turn reports is durable.  A completion it returns stands in
  the store as the completion of that invocation, under its lease and fence tokens, with the payload
  that the terminal frame of that very turn makes: a frame under the turn's own fence, with a known
  outcome and a quiescent session.  It is reported as interrupted exactly when the host stopped the
  turn for a shutdown or a newer message.  A blocked outcome is a block record under the
  invocation's lease, over a session turn marked uncertain.
\<close>

theorem outcome_is_durable:
  assumes "others_ok env" and "fleet_reachable (w_db w)" and "run_turn env turn w = Some (Inr outcome, w')"
  shows "case outcome of
      OutcomeBlocked x \<Rightarrow> parked_as (w_db w') (mt_invocation turn) x
    | OutcomeCompleted c \<Rightarrow> \<exists>t host. Option.bind host host_stop_interruption = None
        \<and> completed_by env turn t host c (w_db w')
    | OutcomeInterrupted c s \<Rightarrow> \<exists>t host. host_stop_interruption host = Some s
        \<and> completed_by env turn t (Some host) c (w_db w')"
  using assms(1,3)
proof (cases rule: run_turn_cases)
  case refused
  then show ?thesis by simp
next
  case (armed now d1 x w1)
  let ?i = "mt_invocation turn" and ?b = "mt_binding turn"
  let ?q = "start_turn_request ?i ?b (mt_session_ref turn) (mt_prompt turn) (mt_policy turn)"
  note reach = proceeds_reachable(1) [OF assms(2)] and run = armed(4) [unfolded armed_run_def Let_def]
  note r1 = reach [OF armed(1)]
  obtain a w2 where a: "activate_grants env ?i 0 (mt_grants turn) (open_trajectory env ?i (mt_generation_id turn) ?b w1) = (a, w2)"
    by fastforce
  have r2: "fleet_reachable (w_db w2)"
    using ran_activate [OF assms(1) a] proceeds_reachable(1) [OF r1 ran_then [OF ran_trajectory(1)]]
    by (auto split: option.splits)
  have revoked: "fleet_reachable (w_db v) \<Longrightarrow> fleet_reachable (w_db (revoke_grants env gs k v))" for v gs k
    using proceeds_reachable(1) ran_revoke [OF assms(1)] by blast
  have parks: "block_after_arm env ?i ?b reason v = (Inr outcome, w') \<Longrightarrow> fleet_reachable (w_db v) \<Longrightarrow> ?thesis" for reason v
    using block_parks [OF assms(1), of v ?i ?b reason]
    by (auto simp: block_after_arm_def split: prod.splits sum.splits)
  show ?thesis
  proof (cases a)
    case (Some p)
    then show ?thesis using run a parks revoked [OF r2] by (auto split: prod.splits)
  next
    case None
    obtain s w3 where s: "harness_start_turn env ?q w2 = (s, w3)" by fastforce
    have r3: "fleet_reachable (w_db w3)" using ran_start [OF assms(1) s] proceeds_reachable(1) [OF r2] by blast
    show ?thesis
    proof (cases s)
      case (Inl e)
      then show ?thesis using run a None s parks revoked [OF r3] by auto
    next
      case (Inr y)
      then have "finish_turn env turn (st_fence ?q) w3 = Some (Inr outcome, w')" using run a None s by simp
      from finished_outcome [OF assms(1) r3 _ this] started_fenced s Inr show ?thesis by blast
    qed
  qed
qed

section \<open>A turn returns\<close>

lemma world_tick_Suc [simp]: "w_tick (world_tick env w) = Suc (w_tick w)"
  by (simp add: world_tick_def Let_def split: prod.splits)

lemma effects_tick [simp]:
  "w_tick (emit e w) = w_tick w" "w_tick (observe env k n t cls r w) = w_tick w"
  by (simp_all add: emit_def observe_def offer_def)

text \<open>A step of the drain that goes on takes one tick.\<close>

lemma drain_step_tick:
  assumes "drain_step env gid fence policy stage w = (Inr stage', w')"
  shows "w_tick w' = Suc (w_tick w)"
proof -
  have tx: "transact env k c f w = (r, v) \<Longrightarrow> w_tick v = Suc (w_tick w)" for k c r v and f :: "i64 \<Rightarrow> unit transaction"
    by (auto simp: transact_def Let_def split: sum.splits)
  have noted: "harness_next_notification env w = (r, v) \<Longrightarrow> w_tick v = Suc (w_tick w)" for r v
    by (auto simp: harness_next_notification_def Let_def split: sum.splits prod.splits)
  have resolve: "harness_resolve_permission env q w = (Inr u, v) \<Longrightarrow> w_tick v = Suc (w_tick w)" for q u v
    by (auto simp: harness_resolve_permission_def protocol_call_def Let_def split: sum.splits prod.splits)
  show ?thesis
    using assms by (cases stage)
      (auto simp: drain_step_def split: prod.splits sum.splits harness_notification.splits dest: tx noted resolve)
qed

lemma drain_returns:
  assumes "\<not> env_ready env n" and "\<And>w. w_tick w = n \<Longrightarrow> stop w \<noteq> None" and "w_tick w \<le> n"
  shows "drain_turn env gid fence policy stop stage w \<noteq> None"
  using assms(3)
proof (induction "n - w_tick w" arbitrary: stage w)
  case 0
  then have "w_tick w = n" by simp
  then show ?case using assms(1) assms(2) [of w] by (subst drain_turn.simps) auto
next
  case (Suc m)
  have next_tick: "drain_turn env gid fence policy stop stage' v \<noteq> None" if "w_tick v = Suc (w_tick w)" for stage' v
    using Suc that by simp
  show ?case
    using next_tick drain_step_tick
    by (subst drain_turn.simps) (auto split: option.splits sum.splits prod.splits)
qed

lemma run_turn_returns:
  assumes "\<forall>m. \<exists>n\<ge>m. \<not> env_ready env n \<and> env_wall_deadline env n"
    and "\<forall>m. \<exists>n\<ge>m. \<not> env_ready env n \<and> env_cancel_deadline env n"
  shows "\<exists>r w'. run_turn env turn w = Some (r, w')"
proof -
  have wall: "drain_turn env gid fence policy (initial_stop env f) stage v \<noteq> None" for gid fence policy f stage v
  proof -
    obtain n where n: "w_tick v \<le> n" "\<not> env_ready env n" "env_wall_deadline env n" using assms(1) by blast
    then show ?thesis by (intro drain_returns [OF n(2) _ n(1)]) (auto simp: initial_stop_def split: option.splits)
  qed
  have cancel: "drain_turn env gid fence policy (cancel_stop env) stage v \<noteq> None" for gid fence policy stage v
  proof -
    obtain n where n: "w_tick v \<le> n" "\<not> env_ready env n" "env_cancel_deadline env n" using assms(2) by blast
    then show ?thesis by (intro drain_returns [OF n(2) _ n(1)]) (auto simp: cancel_stop_def)
  qed
  have cancelled: "cancel_and_drain env i gid b fence policy host v = None \<Longrightarrow> False" for i gid b fence policy host v
    by (auto simp: cancel_and_drain_def bind_eq_None_conv cancel split: prod.splits sum.splits)
  have awaited: "await_terminal env i gid b fence policy f v = None \<Longrightarrow> False" for i gid b fence policy f v
    by (auto simp: await_terminal_def bind_eq_None_conv wall split: prod.splits sum.splits dest: cancelled)
  have finished: "finish_turn env t fence v = None \<Longrightarrow> False" for t fence v
    by (auto simp: finish_turn_def bind_eq_None_conv Let_def split: prod.splits sum.splits terminal_drain.splits
        dest: awaited)
  have armed: "armed_run env turn v = None \<Longrightarrow> False" for v
    by (auto simp: armed_run_def Let_def split: prod.splits sum.splits option.splits dest: finished)
  have "run_turn env turn w = None \<Longrightarrow> False"
    by (auto simp: run_turn_def Let_def split: prod.splits sum.splits dest: armed)
  then show ?thesis by (cases "run_turn env turn w") auto
qed

text \<open>
  C10: a managed turn returns, whatever the plugin does: if it never ends the turn,
  never stops talking or never answers the cancellation, it is enough that the wall deadline and the
  cancellation deadline of the policy eventually find the controller waiting.
\<close>

theorem turn_returns:
  assumes "\<forall>m. \<exists>n\<ge>m. \<not> env_ready env n \<and> env_wall_deadline env n"
    and "\<forall>m. \<exists>n\<ge>m. \<not> env_ready env n \<and> env_cancel_deadline env n"
  shows "\<exists>r w'. run_turn env turn w = Some (r, w')"
  using assms by (rule run_turn_returns)

end
