(* ===== verification/Turn_Results.thy ===== *)
theory Turn_Results
  imports Controller
begin

text \<open>
  What the payload of a managed turn claims, and how much of a diagnostic survives: the pure parts of
  \<open>crates/execution/src/controller.rs\<close>.
\<close>

section \<open>Bounded diagnostics\<close>

lemma boundary_below_le: "boundary_below s n \<le> n"
  by (induction n) (auto simp: le_Suc_eq)

lemma boundary_below_boundary: "is_char_boundary s (boundary_below s n)"
  by (induction n) (auto simp: is_char_boundary_def)

lemma boundary_below_greatest: "i \<le> n \<Longrightarrow> is_char_boundary s i \<Longrightarrow> i \<le> boundary_below s n"
  by (induction n) (auto simp: le_Suc_eq)

text \<open>
  A diagnostic is stored as the longest prefix of at most 4096 bytes that ends
  between two characters: nothing is lost of a short one, and no character is ever cut in half.
\<close>

theorem reason_is_longest_prefix:
  assumes "is_char_boundary reason n" and "n \<le> length reason" and "n \<le> 4096"
  shows "n \<le> length (bounded_reason reason) \<and> length (bounded_reason reason) \<le> 4096
    \<and> bounded_reason reason = take (length (bounded_reason reason)) reason
    \<and> is_char_boundary reason (length (bounded_reason reason))"
proof (cases "length reason \<le> 4096")
  case True
  then show ?thesis using assms by (simp add: bounded_reason_def REASON_LIMIT_def is_char_boundary_def)
next
  case False
  let ?k = "boundary_below reason 4096"
  have "?k \<le> 4096" by (rule boundary_below_le)
  moreover have "length (bounded_reason reason) = ?k"
    using False \<open>?k \<le> 4096\<close> by (simp add: bounded_reason_def REASON_LIMIT_def)
  moreover have "n \<le> ?k" using assms(1,3) by (intro boundary_below_greatest)
  ultimately show ?thesis
    using False boundary_below_boundary [of reason 4096] by (simp add: bounded_reason_def REASON_LIMIT_def)
qed

section \<open>The final message\<close>

text \<open>Messages in order, none overlapping the one before.\<close>

lemma event_bounds_iff:
  "event_bounds p ms \<longleftrightarrow>
     list_all (\<lambda>m. am_first_event_seq m \<noteq> 0 \<and> am_first_event_seq m \<le> am_last_event_seq m \<and> p < am_first_event_seq m) ms
     \<and> sorted_wrt (\<lambda>a b. am_last_event_seq a < am_first_event_seq b) ms"
proof (induction ms arbitrary: p)
  case Nil
  then show ?case by simp
next
  case (Cons m ms)
  show ?case
    by (auto simp: Cons.IH list_all_iff not_le not_less dest: order.strict_trans2 order.strict_trans1 order.strict_trans)
qed

lemma distinct_ids_iff:
  "distinct_ids ids ms \<longleftrightarrow>
     list_all (\<lambda>m. am_message_id m \<noteq> None \<and> the (am_message_id m) \<notin> ids) ms \<and> distinct (map am_message_id ms)"
  by (induction ids ms rule: distinct_ids.induct) (auto simp: list_all_iff split: option.splits)

definition final_selected :: "assistant_message list \<Rightarrow> assistant_message \<Rightarrow> bool" where
  "final_selected ms m \<longleftrightarrow> ms \<noteq> [] \<and> last ms = m
     \<and> list_all (\<lambda>m. am_first_event_seq m \<noteq> 0 \<and> am_first_event_seq m \<le> am_last_event_seq m) ms
     \<and> sorted_wrt (\<lambda>a b. am_last_event_seq a < am_first_event_seq b) ms
     \<and> (length ms = 1 \<or> None \<notin> am_message_id ` set ms \<and> distinct (map am_message_id ms))"

lemma select_final: "(\<exists>how. select_final_assistant_message ms = Inr (m, how)) \<longleftrightarrow> final_selected ms m"
proof -
  have pos: "(x :: u64) \<noteq> 0 \<longleftrightarrow> 0 < x" for x by (simp add: word_gt_0)
  have bounds: "event_bounds 0 ms \<longleftrightarrow>
      list_all (\<lambda>m. am_first_event_seq m \<noteq> 0 \<and> am_first_event_seq m \<le> am_last_event_seq m) ms
      \<and> sorted_wrt (\<lambda>a b. am_last_event_seq a < am_first_event_seq b) ms"
    by (auto simp: event_bounds_iff list_all_iff pos)
  have ids: "distinct_ids {} ms \<longleftrightarrow> None \<notin> am_message_id ` set ms \<and> distinct (map am_message_id ms)"
    by (auto simp: distinct_ids_iff list_all_iff) (metis imageI not_None_eq)
  show ?thesis
    by (auto simp: select_final_assistant_message_def final_selected_def bounds ids split: if_splits)
qed

text \<open>The text of a message whose every block is text.\<close>

definition text_block :: "json_value \<Rightarrow> string \<Rightarrow> bool" where
  "text_block content part \<longleftrightarrow> json_get content ''type'' = Some (JString ''text'')
     \<and> json_get content ''text'' = Some (JString part)"

lemma read_str: "Option.bind v as_str = Some s \<longleftrightarrow> v = Some (JString s)"
  by (cases v rule: option.exhaust; cases "the v") auto

lemma text_fragments_Cons:
  "text_fragments (content # contents) = Some body \<longleftrightarrow>
     (\<exists>part rest. text_block content part \<and> text_fragments contents = Some rest \<and> body = part @ rest)"
proof -
  have kind: "json_get content ''type'' = Some (JString ''text'')
      \<longleftrightarrow> Option.bind (json_get content ''type'') as_str = Some ''text''"
    by (simp only: read_str)
  have part: "json_get content ''text'' = Some (JString x)
      \<longleftrightarrow> Option.bind (json_get content ''text'') as_str = Some x" for x
    by (simp only: read_str)
  show ?thesis
    unfolding text_fragments.simps text_block_def kind part
    by (cases "Option.bind (json_get content ''text'') as_str"; cases "text_fragments contents")
      (simp_all only: Option.bind.simps option.simps, auto)
qed

lemma text_fragments_iff:
  "text_fragments contents = Some body \<longleftrightarrow> (\<exists>parts. list_all2 text_block contents parts \<and> body = concat parts)"
proof (induction contents arbitrary: body)
  case (Cons content contents)
  show ?case
  proof
    assume "text_fragments (content # contents) = Some body"
    then obtain part parts where "text_block content part" "list_all2 text_block contents parts" "body = part @ concat parts"
      by (auto simp del: text_fragments.simps simp: text_fragments_Cons Cons.IH)
    then show "\<exists>parts. list_all2 text_block (content # contents) parts \<and> body = concat parts"
      by (intro exI [of _ "part # parts"]) simp
  next
    assume "\<exists>parts. list_all2 text_block (content # contents) parts \<and> body = concat parts"
    then show "text_fragments (content # contents) = Some body"
      unfolding text_fragments_Cons Cons.IH list_all2_Cons1 by fastforce
  qed
qed auto

section \<open>The status\<close>

definition structured :: "(string \<Rightarrow> json_value option) \<Rightarrow> assistant_message list \<Rightarrow> json_value \<Rightarrow> bool" where
  "structured decode ms v \<longleftrightarrow> (\<exists>m text. final_selected ms m \<and> am_complete m
     \<and> text_fragments (am_content m) = Some text \<and> \<not> trim_is_empty text \<and> decode text = Some v)"

lemma unavailable_status: "json_get (unavailable reason) ''status'' \<noteq> Some (JString ''captured'')"
  by (simp add: unavailable_def)

lemma captured_iff:
  "json_get (capture_final_assistant_json decode ms) ''status'' = Some (JString ''captured'')
     \<and> json_get (capture_final_assistant_json decode ms) ''value'' = Some v \<longleftrightarrow> structured decode ms v"
proof (cases "select_final_assistant_message ms")
  case (Inl reason)
  then have "\<not> final_selected ms m" for m using select_final [of ms m] by auto
  then show ?thesis using Inl by (simp add: capture_final_assistant_json_def structured_def unavailable_status)
next
  case (Inr p)
  obtain m how where p: "p = (m, how)" by fastforce
  have "final_selected ms x \<longleftrightarrow> x = m" for x using select_final [of ms x] Inr p by auto
  then show ?thesis
    using Inr p unavailable_status
    by (auto simp: capture_final_assistant_json_def structured_def split: option.splits if_splits)
qed

lemma captured_status_iff:
  "json_get (capture_final_assistant_json decode ms) ''status'' = Some (JString ''captured'')
     \<longleftrightarrow> (\<exists>v. structured decode ms v)"
proof
  assume c: "json_get (capture_final_assistant_json decode ms) ''status'' = Some (JString ''captured'')"
  then have "\<exists>v. json_get (capture_final_assistant_json decode ms) ''value'' = Some v"
    using unavailable_status
    by (auto simp: capture_final_assistant_json_def split: sum.splits prod.splits option.splits if_splits)
  then show "\<exists>v. structured decode ms v" using c captured_iff by blast
qed (use captured_iff in blast)

lemma json_get_prefix:
  "k \<notin> fst ` set extra \<Longrightarrow> json_get (json_object (entries @ extra)) k = json_get (json_object entries) k"
  by (simp add: map_add_def map_of_eq_None_iff [THEN iffD2] image_iff)

lemma payload_extra:
  "k \<noteq> ''runtime_stop_reason'' \<Longrightarrow> k \<noteq> ''interrupted_by_message_id'' \<Longrightarrow>
     k \<notin> fst ` set ((case runtime of None \<Rightarrow> [] | Some r \<Rightarrow> [(''runtime_stop_reason'', JString r)])
        @ (case host of Some (NewerMessage m) \<Rightarrow> [(''interrupted_by_message_id'', JString m)] | _ \<Rightarrow> []))"
  by (auto split: option.splits host_stop_reason.splits)

lemma payload_status:
  "json_get (terminal_payload decode k capture context t host) ''status'' =
     Some (JString (case capture of
        CaptureTranscript \<Rightarrow> result_status t host
      | CaptureFinalJson \<Rightarrow>
          if result_status t host = ''interrupted'' then ''interrupted''
          else if terminal_success t host
            \<and> json_get (capture_final_assistant_json decode (tf_assistant_messages t)) ''status''
                = Some (JString ''captured'')
          then ''completed'' else ''failed''))"
  unfolding terminal_payload_def Let_def
  by (subst json_get_prefix [OF payload_extra]) (simp_all split: turn_result_capture.split)

lemma result_status_completed: "result_status t host = ''completed'' \<longleftrightarrow> terminal_success t host"
  "result_status t host = ''interrupted'' \<Longrightarrow> \<not> terminal_success t host"
  by (auto simp: result_status_def terminal_success_def split: option.splits if_splits)

text \<open>
  C13: a result says \<open>completed\<close> exactly when the host did not stop the turn, the
  runtime reported no stop of its own, the turn ended with \<open>end_turn\<close> and every assistant message is
  whole; and, where a structured result was asked for, exactly when also one value was captured: the
  last message, unambiguous among messages whose events do not overlap, complete, made of text
  blocks alone, and holding JSON.
\<close>

theorem completed_result_exact:
  "json_get (terminal_payload decode k capture context t host) ''status'' = Some (JString ''completed'') \<longleftrightarrow>
     host = None \<and> tf_runtime_stop_reason t = None \<and> tf_stop_reason t = ''end_turn''
     \<and> list_all am_complete (tf_assistant_messages t)
     \<and> (capture = CaptureTranscript
        \<or> capture = CaptureFinalJson \<and> (\<exists>m parts v. final_selected (tf_assistant_messages t) m \<and> am_complete m
            \<and> list_all2 text_block (am_content m) parts
            \<and> \<not> trim_is_empty (concat parts) \<and> decode (concat parts) = Some v))"
proof -
  have "(\<exists>v. structured decode (tf_assistant_messages t) v) \<longleftrightarrow>
      (\<exists>m parts v. final_selected (tf_assistant_messages t) m \<and> am_complete m
        \<and> list_all2 text_block (am_content m) parts
        \<and> \<not> trim_is_empty (concat parts) \<and> decode (concat parts) = Some v)"
    unfolding structured_def text_fragments_iff by blast
  moreover have "json_get (terminal_payload decode k capture context t host) ''status'' = Some (JString ''completed'') \<longleftrightarrow>
      terminal_success t host \<and> (capture = CaptureTranscript
        \<or> capture = CaptureFinalJson \<and> (\<exists>v. structured decode (tf_assistant_messages t) v))"
    using result_status_completed
    by (cases capture) (auto simp: payload_status captured_status_iff)
  ultimately show ?thesis by (auto simp: terminal_success_def)
qed

end
