(* ===== verification/Turn_Example.thy ===== *)
theory Turn_Example
  imports Session_Example Controller_Outcome Turn_Results
begin

text \<open>
  A managed turn on the concrete run: the worker dispatches the reserved attempt on its native
  session, with one message grant; the harness reports an event and ends the turn.  A second
  harness breaks the protocol instead.
\<close>

section \<open>The turn\<close>

definition ex_invocation :: invocation where
  "ex_invocation = \<lparr>inv_id = ''i'', inv_agent_id = ''w'', inv_message = message_from_row ex_task,
     inv_delivery_attempt = 1, inv_lease_token = ''t'', inv_lease_expires_at_ms = 2010,
     inv_fence_token = ''f'', inv_state = Reserved, inv_reserved_at_ms = 10,
     inv_dispatch_armed_at_ms = None, inv_terminal_at_ms = None, inv_execution_certainty = None,
     inv_terminal_reason = None, inv_result_message_id = None\<rparr>"

definition ex_policy :: turn_policy where
  "ex_policy = \<lparr>tp_idle_timeout_ms = 100, tp_wall_timeout_ms = 500, tp_cancel_drain_timeout_ms = 100,
     tp_max_captured_output_bytes = 4096, tp_permission_policy = ''controller'',
     tp_tool_budget = \<lparr>budget_limit = 4, budget_required_enforcement = ''observe_then_cancel''\<rparr>,
     tp_token_budget = None\<rparr>"

definition ex_managed :: managed_turn where
  "ex_managed = \<lparr>mt_invocation = ex_invocation, mt_generation_id = ''g'', mt_binding = ex_binding,
     mt_session_ref = ''native'', mt_prompt = [PromptText ''go''], mt_policy = ex_policy, mt_grants = [0],
     mt_result_kind = ''done'', mt_result_capture = CaptureTranscript, mt_result_context = JNull,
     mt_permission_policy = PolicyDeny, mt_interruption = None\<rparr>"

definition ex_world :: world where
  "ex_world = \<lparr>w_tick = 0, w_db = ex_hosted, w_turn = None, w_brokers = (\<lambda>_. None), w_log = []\<rparr>"

section \<open>Two harnesses\<close>

definition ex_fence :: execution_fence where
  "ex_fence = \<lparr>fence_binding_id = ''s'', fence_binding_generation = 1, fence_owner_epoch = 1,
     fence_invocation_id = ''i'', fence_token = ''f''\<rparr>"

definition ex_description :: describe_result where
  "ex_description = \<lparr>dr_driver_version = ''1'', dr_acp_sdk_version = ''1'', dr_acp_protocol_version = 1,
     dr_runtime_name = ''r'', dr_runtime_version = ''1'', dr_runtime_executable_digest = ''e'',
     dr_agent_capabilities = JNull, dr_max_concurrent_turns = 1, dr_max_frame_bytes = 4096,
     dr_profile_digest = ''p'', dr_raw_initialize_result = JNull\<rparr>"

definition ex_enforcement :: effective_enforcement where
  "ex_enforcement = \<lparr>ee_wall_timeout = ''hard'', ee_idle_timeout = ''hard'', ee_cancel_drain_timeout = ''hard'',
     ee_captured_output_bytes = ''hard'', ee_tool_budget = ''observe_then_cancel'', ee_token_budget = ''unavailable''\<rparr>"

definition ex_event :: turn_event where
  "ex_event = \<lparr>te_fence = ex_fence, te_event_seq = 1, te_observed_at_ms = 25, te_classification = ''message'',
     te_raw_update = JNull\<rparr>"

definition ex_terminal :: terminal_frame where
  "ex_terminal = \<lparr>tf_fence = ex_fence, tf_last_event_seq = 1, tf_stop_reason = ''end_turn'',
     tf_runtime_stop_reason = None, tf_execution_certainty = HarnessOutcomeKnown,
     tf_session_quiescent = True, tf_session_persistence = Confirmed, tf_assistant_messages = [],
     tf_usage = JNull, tf_raw_prompt_response = JNull\<rparr>"

text \<open>The notifications by the tick at which they arrive; the second harness sends nonsense.\<close>

definition ex_env :: "bool \<Rightarrow> env" where
  "ex_env honest = \<lparr>env_encode = (\<lambda>_. ''null''), env_decode = (\<lambda>_. None), env_sha256 = (\<lambda>s. s),
     env_detail = (\<lambda>_. ''detail''), env_clock = (\<lambda>n. 20 + int n), env_uuid = (\<lambda>_. ''r''),
     env_others = (\<lambda>_ s. s), env_describe = (\<lambda>_. Inr ex_description),
     env_open = (\<lambda>_ _. Inl (ProtocolError [])),
     env_start = (\<lambda>_ _. Inr \<lparr>str_accepted = True, str_effective_enforcement = ex_enforcement\<rparr>),
     env_resolve = (\<lambda>_ _. Inr True), env_cancel = (\<lambda>_ _. Inr True), env_transcript = (\<lambda>_ _. Inr True),
     env_close = (\<lambda>_ _. Inl (ProtocolError [])),
     env_notification = (\<lambda>n. Inr (if \<not> honest then ''nonsense''
       else if n = 5 then ''harness.acp.turn.event'' else ''harness.acp.turn.terminal'', JNull)),
     env_parse_event = (\<lambda>_. Inr ex_event), env_parse_permission = (\<lambda>_. Inl []),
     env_parse_entry = (\<lambda>_. Inl []), env_parse_complete = (\<lambda>_. Inl []),
     env_parse_terminal = (\<lambda>_. Inr ex_terminal), env_ready = (\<lambda>n. n < 8), env_cut = (\<lambda>_. False),
     env_wall_deadline = (\<lambda>_. True), env_cancel_deadline = (\<lambda>_. True), env_sink = False\<rparr>"

lemma ex_others_ok: "others_ok (ex_env honest)"
  by (auto simp: others_ok_def ex_env_def broker_kept_def same_scope_def split: option.splits)

definition ex_prompt :: start_turn where
  "ex_prompt = start_turn_request ex_invocation ex_binding ''native'' [PromptText ''go''] ex_policy"

lemma ex_managed_runs:
  "(case run_turn (ex_env True) ex_managed ex_world of
      Some (Inr (OutcomeCompleted c), w') \<Rightarrow> w_log w' =
        [SentDescribe, Committed ''i'' CommittedArm, GrantActivated 0 ''i'', SentStart ex_prompt,
         Committed ''i'' (CommittedEvent 1), Committed ''i'' CommittedTerminal, GrantRevoked 0 ''i'',
         Committed ''i'' CommittedCompletion]
    | _ \<Rightarrow> False)"
  by code_simp

text \<open>
  When a drain fails, the delivery is blocked and settled before the grant is revoked, although the
  grants of a turn are documented as revoked before it settles.
\<close>

theorem blocked_before_revocation:
  "(case run_turn (ex_env False) ex_managed ex_world of
      Some (Inr (OutcomeBlocked x), w') \<Rightarrow> w_log w' =
        [SentDescribe, Committed ''i'' CommittedArm, GrantActivated 0 ''i'', SentStart ex_prompt,
         Committed ''i'' CommittedUncertain, Committed ''i'' CommittedBlock, GrantRevoked 0 ''i'']
    | _ \<Rightarrow> False)"
  by code_simp

section \<open>The turn in terms of its properties\<close>

lemma ex_turn_parts:
  "inv_id (mt_invocation ex_managed) = ''i''" "mt_grants ex_managed = [0]" "w_log ex_world = []"
  "w_db ex_world = ex_hosted"
  "start_turn_request (mt_invocation ex_managed) (mt_binding ex_managed) (mt_session_ref ex_managed)
     (mt_prompt ex_managed) (mt_policy ex_managed) = ex_prompt"
  by (simp_all add: ex_managed_def ex_world_def ex_invocation_def ex_prompt_def)

lemma ex_completed:
  obtains c w' where "run_turn (ex_env True) ex_managed ex_world = Some (Inr (OutcomeCompleted c), w')"
  using ex_managed_runs by (auto split: option.split_asm prod.split_asm sum.split_asm managed_turn_outcome.split_asm)

lemma ex_blocked:
  obtains x w' where "run_turn (ex_env False) ex_managed ex_world = Some (Inr (OutcomeBlocked x), w')"
proof -
  have "(case run_turn (ex_env False) ex_managed ex_world of
      Some (Inr (OutcomeBlocked x), w') \<Rightarrow> True | _ \<Rightarrow> False)"
    by code_simp
  then show thesis using that by (auto split: option.split_asm prod.split_asm sum.split_asm managed_turn_outcome.split_asm)
qed

theorem turn_keeps_protocol_witness:
  "\<exists>x w'. others_ok (ex_env False) \<and> fleet_reachable ex_hosted
     \<and> run_turn (ex_env False) ex_managed ex_world = Some (Inr (OutcomeBlocked x), w')
     \<and> (\<exists>e. turn_protocol ''i'' [0] ex_prompt (filter decisive (w_log w')) e)
     \<and> fleet_reachable (w_db w') \<and> fleet_history ex_hosted (w_db w')"
proof -
  obtain x w' where r: "run_turn (ex_env False) ex_managed ex_world = Some (Inr (OutcomeBlocked x), w')"
    by (rule ex_blocked)
  have "fleet_reachable (w_db ex_world)" using ex_session_reachable(6) by (simp add: ex_turn_parts)
  from turn_keeps_protocol [OF ex_others_ok this r] show ?thesis
    using r ex_others_ok ex_session_reachable(6) unfolding ex_turn_parts by auto
qed

theorem prompt_follows_fence_witness:
  "\<exists>c w'. run_turn (ex_env True) ex_managed ex_world = Some (Inr (OutcomeCompleted c), w')
     \<and> sent_prompts (w_log w') = [ex_prompt] \<and> revoked ''i'' (w_log w') = [0] \<and> granted ''i'' (w_log w') = [0]
     \<and> holders w' 0 \<noteq> Some ''i''"
proof -
  obtain c w' where r: "run_turn (ex_env True) ex_managed ex_world = Some (Inr (OutcomeCompleted c), w')"
    by (rule ex_completed)
  have free: "\<forall>g. holders ex_world g \<noteq> Some (inv_id (mt_invocation ex_managed))"
    by (simp add: holders_def ex_world_def)
  have "w_log w' = [SentDescribe, Committed ''i'' CommittedArm, GrantActivated 0 ''i'', SentStart ex_prompt,
      Committed ''i'' (CommittedEvent 1), Committed ''i'' CommittedTerminal, GrantRevoked 0 ''i'',
      Committed ''i'' CommittedCompletion]"
    using ex_managed_runs r by simp
  with prompt_follows_fence [OF ex_others_ok free r] show ?thesis
    using r unfolding ex_turn_parts
    by (intro exI [of _ c] exI [of _ w']) (auto simp: sent_prompts_def revoked_def granted_def List.map_filter_def)
qed

theorem outcome_is_durable_witness:
  "\<exists>c w' t. run_turn (ex_env True) ex_managed ex_world = Some (Inr (OutcomeCompleted c), w')
     \<and> (\<exists>host. completed_by (ex_env True) ex_managed t host c (w_db w'))"
proof -
  obtain c w' where r: "run_turn (ex_env True) ex_managed ex_world = Some (Inr (OutcomeCompleted c), w')"
    by (rule ex_completed)
  have "fleet_reachable (w_db ex_world)" using ex_session_reachable(6) by (simp add: ex_turn_parts)
  from outcome_is_durable [OF ex_others_ok this r] r show ?thesis by fastforce
qed

theorem turn_returns_witness:
  "\<exists>r w'. run_turn (ex_env False) ex_managed ex_world = Some (r, w')"
proof -
  have late: "\<exists>n\<ge>m. \<not> n < (8 :: nat)" for m by (intro exI [of _ "max m 8"]) simp
  show ?thesis by (rule turn_returns) (simp_all add: ex_env_def late)
qed

section \<open>One published message\<close>

definition ex_publish :: publish_input where
  "ex_publish = \<lparr>pub_operation_id = ''a'', pub_recipient_id = ''o'', pub_kind = ''note'', pub_payload = ''1''\<rparr>"

definition ex_grant :: active_message_grant where
  "ex_grant = \<lparr>mg_invocation_id = ''i'', mg_sender_id = ''w'', mg_channel_id = ''c'', mg_source_message_id = ''m'',
     mg_correlation_id = ''m'', mg_expires_at_ms = 2010, mg_published_messages = 0, mg_operations = {}\<rparr>"

definition ex_note :: message_row where
  "ex_note = \<lparr>m_seq = 2, m_id = ''n'', m_channel_id = ''c'', m_sender_id = ''w'', m_recipient_id = Some ''o'',
     m_kind = ''note'', m_payload = ''1'', m_correlation_id = Some ''m'', m_causation_id = Some ''m'',
     m_created_at_ms = 30, m_idempotency_key = Some ''invocation:i:publish:a''\<rparr>"

definition ex_noted :: db where
  "ex_noted = ex_bound\<lparr>messages := [ex_task, ex_note], messages_sequence := 2,
     agent_deliveries := [ex_lease, new_delivery_row 2 ''o'' 30]\<rparr>"

definition ex_output :: publish_output where
  "ex_output = \<lparr>out_message_id = ''n'', out_seq = 2, out_created = True, out_channel_id = ''c'',
     out_correlation_id = ''m'', out_causation_id = ''m''\<rparr>"

lemma ex_grant_armed: "activate 30 ex_invocation None = Inr ex_grant"
  by (simp add: activate_def ex_invocation_def ex_grant_def message_from_row_def ex_task_def)

lemma ex_publish_runs:
  "publish (\<lambda>s. s) 30 ''n'' 30 ex_publish (Some ex_grant, ex_bound)
     = Some (Inr ex_output, Some (published ex_publish True ex_grant), ex_noted)"
proof -
  have "validate_publish_input ex_publish = Inr ()"
    by (simp add: validate_publish_input_def ex_publish_def MAX_OPERATION_ID_BYTES_def GRANT_MAX_AGENT_ID_BYTES_def
        MAX_MESSAGE_KIND_BYTES_def GRANT_MAX_PAYLOAD_BYTES_def) code_simp
  moreover have "append_message_idempotent ''n'' 30 ''c'' (publish_message (\<lambda>s. s) ex_grant ex_publish) ex_bound
      = Inr (\<lparr>appended_message = message_from_row ex_note, appended_created = True\<rparr>, ex_noted)"
    by code_simp
  ultimately show ?thesis
    by (simp add: publish_def ex_grant_def MAX_MESSAGES_PER_INVOCATION_def ex_output_def
        message_from_row_def ex_note_def) (simp add: ex_publish_def)
qed

theorem grant_bounds_publishing_witness:
  "activate 30 ex_invocation None = Inr ex_grant
   \<and> publishing (\<lambda>s. s) ex_grant ex_bound [ex_output] (Some (published ex_publish True ex_grant)) ex_noted
   \<and> (\<exists>m\<in>set (messages ex_noted). m_id m = ''n'' \<and> m_sender_id m = ''w'' \<and> m_channel_id m = ''c''
        \<and> m_causation_id m = Some ''m'' \<and> m_recipient_id m \<noteq> Some ''w'')"
proof -
  have run: "publishing (\<lambda>s. s) ex_grant ex_bound [ex_output] (Some (published ex_publish True ex_grant)) ex_noted"
    using publishing.call [OF publishing.armed ex_publish_runs] by simp
  have parts: "inv_agent_id ex_invocation = ''w''" "msg_channel_id (inv_message ex_invocation) = ''c''"
    "msg_id (inv_message ex_invocation) = ''m''" "out_message_id ex_output = ''n''"
    by (simp_all add: ex_invocation_def message_from_row_def ex_task_def ex_output_def)
  from grant_bounds_publishing [OF ex_session_reachable(2) ex_grant_armed run, of 0 "''n''" 0 ex_publish]
  show ?thesis using ex_grant_armed run unfolding parts by (auto simp: parts)
qed

section \<open>A long diagnostic\<close>

text \<open>A character of two bytes that would cross the limit is left out whole.\<close>

definition ex_long :: string where
  "ex_long = replicate 4095 (CHR ''x'') @ [CHR 0xC3, CHR 0xA9]"

theorem reason_is_longest_prefix_witness: "bounded_reason ex_long = replicate 4095 (CHR ''x'')"
proof -
  have "is_char_boundary ex_long 4095" "\<not> is_char_boundary ex_long 4096"
    by (simp_all add: is_char_boundary_def ex_long_def nth_append)
  with reason_is_longest_prefix [of ex_long 4095]
  have "length (bounded_reason ex_long) = 4095" "bounded_reason ex_long = take (length (bounded_reason ex_long)) ex_long"
    by (auto simp: ex_long_def le_Suc_eq dest!: le_neq_implies_less)
  then show ?thesis by (simp add: ex_long_def)
qed

end
