(* ===== verification/Plugin_Process.thy ===== *)
theory Plugin_Process
  imports Controller
begin

text \<open>
  Starting and stopping a plugin's process: \<open>crates/plugin-host/src/supervisor.rs\<close>, without the
  operating system.  What a spawned program answers and how it exits, and the file system, are
  parameters in a \<open>host\<close>, together with the other things that only the worker above asks for.  The
  log says when a child process began and when it is gone.
\<close>

section \<open>The host\<close>

text \<open>A \<open>std::time::Duration\<close>, in nanoseconds; fewer than \<open>2 ^ 94\<close> of them, since it counts its seconds in 64 bits.\<close>

type_synonym duration = "128 word"

definition from_secs :: "u64 \<Rightarrow> duration" where
  "from_secs n = ucast n * 1000000000"

definition from_millis :: "u64 \<Rightarrow> duration" where
  "from_millis n = ucast n * 1000000"

definition DEFAULT_INITIALIZE_TIMEOUT :: duration where "DEFAULT_INITIALIZE_TIMEOUT = from_secs 10"
definition DEFAULT_REQUEST_TIMEOUT :: duration where "DEFAULT_REQUEST_TIMEOUT = from_secs 10"
definition DEFAULT_SHUTDOWN_TIMEOUT :: duration where "DEFAULT_SHUTDOWN_TIMEOUT = from_secs 5"

text \<open>The sandbox of a specification is the digest of its profile.\<close>

record plugin_spec =
  spec_id :: string
  spec_executable :: string
  spec_args :: "string list"
  spec_config :: json_value
  spec_required_interfaces :: "plugin_interface list"
  spec_initialize_timeout :: duration
  spec_request_timeout :: duration
  spec_shutdown_timeout :: duration
  spec_sandbox :: "string option"

definition plugin_spec_new :: "string \<Rightarrow> string \<Rightarrow> plugin_spec" where
  "plugin_spec_new i executable =
     \<lparr>spec_id = i, spec_executable = executable, spec_args = [], spec_config = json_object [],
      spec_required_interfaces = [], spec_initialize_timeout = DEFAULT_INITIALIZE_TIMEOUT,
      spec_request_timeout = DEFAULT_REQUEST_TIMEOUT, spec_shutdown_timeout = DEFAULT_SHUTDOWN_TIMEOUT,
      spec_sandbox = None\<rparr>"

definition with_arg :: "string \<Rightarrow> plugin_spec \<Rightarrow> plugin_spec" where
  "with_arg argument spec = spec\<lparr>spec_args := spec_args spec @ [argument]\<rparr>"

definition with_config :: "json_value \<Rightarrow> plugin_spec \<Rightarrow> plugin_spec" where
  "with_config config spec = spec\<lparr>spec_config := config\<rparr>"

definition require_interface :: "plugin_interface \<Rightarrow> plugin_spec \<Rightarrow> plugin_spec" where
  "require_interface interface spec =
     spec\<lparr>spec_required_interfaces := spec_required_interfaces spec @ [interface]\<rparr>"

definition with_initialize_timeout :: "duration \<Rightarrow> plugin_spec \<Rightarrow> plugin_spec" where
  "with_initialize_timeout timeout spec = spec\<lparr>spec_initialize_timeout := timeout\<rparr>"

definition with_request_timeout :: "duration \<Rightarrow> plugin_spec \<Rightarrow> plugin_spec" where
  "with_request_timeout timeout spec = spec\<lparr>spec_request_timeout := timeout\<rparr>"

definition with_shutdown_timeout :: "duration \<Rightarrow> plugin_spec \<Rightarrow> plugin_spec" where
  "with_shutdown_timeout timeout spec = spec\<lparr>spec_shutdown_timeout := timeout\<rparr>"

definition sandbox_profile_digest :: "plugin_spec \<Rightarrow> string option" where
  "sandbox_profile_digest spec = spec_sandbox spec"

text \<open>
  What the process, the operating system and the caller's cancellation token do at each tick: a
  spawned child's process id, the answers of its lifecycle calls, and its exit code, awaited for
  \<open>shutdown_timeout\<close> (\<open>None\<close> when that passes first) or after a kill.
\<close>

record host =
  host_is_file :: "string \<Rightarrow> bool"
  host_is_dir :: "string \<Rightarrow> bool"
  host_spawn :: "nat \<Rightarrow> plugin_spec \<Rightarrow> u32 option plugin_result"
  host_initialize :: "nat \<Rightarrow> plugin_spec \<Rightarrow> plugin_manifest plugin_result"
  host_health :: "nat \<Rightarrow> string plugin_result"
  host_shutdown :: "nat \<Rightarrow> bool plugin_result"
  host_exit :: "nat \<Rightarrow> i64 option plugin_result option"
  host_kill :: "nat \<Rightarrow> i64 option plugin_result"
  host_cancelled :: "nat \<Rightarrow> bool"
  host_wait_cancelled :: "nat \<Rightarrow> bool"
  host_poll_due :: "nat \<Rightarrow> bool"
  host_lease_token :: "nat \<Rightarrow> db \<Rightarrow> string"
  host_encode_message :: "message \<Rightarrow> string option"
  host_interfaces_json :: "plugin_interface list \<Rightarrow> json"

section \<open>The life of a process\<close>

definition validate_spec :: "host \<Rightarrow> plugin_spec \<Rightarrow> unit plugin_result" where
  "validate_spec host spec =
     and_then (case validate_identifier ''plugin'' (spec_id spec) of Inl e \<Rightarrow> Inl (InvalidSpec e) | Inr _ \<Rightarrow> Inr ()) (\<lambda>_.
     if \<not> is_absolute (spec_executable spec)
     then Inl (InvalidSpec ''plugin executable must be an absolute path'')
     else if \<not> host_is_file host (spec_executable spec)
     then Inl (InvalidSpec (''plugin executable does not exist: '' @ spec_executable spec))
     else if spec_initialize_timeout spec = 0 \<or> spec_request_timeout spec = 0 \<or> spec_shutdown_timeout spec = 0
     then Inl (InvalidSpec ''plugin lifecycle timeouts must be greater than zero'')
     else try_fold (\<lambda>interface _. case plugin_interface_validate interface of
         Inl e \<Rightarrow> Inl (InvalidSpec e) | Inr _ \<Rightarrow> Inr ()) (spec_required_interfaces spec) ())"

text \<open>One lifecycle call and its answer.\<close>

definition rpc_call :: "env \<Rightarrow> (nat \<Rightarrow> 'a plugin_result) \<Rightarrow> world \<Rightarrow> 'a plugin_result \<times> world" where
  "rpc_call env answer w = (let w = world_tick env w in (answer (w_tick w), w))"

definition check_health :: "host \<Rightarrow> env \<Rightarrow> world \<Rightarrow> unit plugin_result \<times> world" where
  "check_health host env w =
     (let (reply, w) = rpc_call env (host_health host) w in
      (and_then reply (\<lambda>status. if status \<noteq> ''ok'' then Inl (Unhealthy status) else Inr ()), w))"

definition initialize :: "host \<Rightarrow> env \<Rightarrow> plugin_spec \<Rightarrow> world \<Rightarrow> plugin_manifest plugin_result \<times> world" where
  "initialize host env spec w =
     (let (reply, w) = rpc_call env (\<lambda>n. host_initialize host n spec) w in
      case and_then reply (\<lambda>manifest.
             and_then (negotiate manifest (spec_id spec) (spec_required_interfaces spec)) (\<lambda>_. Inr manifest)) of
        Inl e \<Rightarrow> (Inl e, w)
      | Inr manifest \<Rightarrow>
          (case check_health host env w of
             (Inl e, w) \<Rightarrow> (Inl e, w)
           | (Inr _, w) \<Rightarrow> (Inr manifest, w)))"

text \<open>The child and its group are killed and it has been waited for.\<close>

definition process_gone :: "env \<Rightarrow> world \<Rightarrow> world" where
  "process_gone env w = emit ProcessEnded (world_tick env w)"

text \<open>
  \<open>PluginProcess::start\<close>.  The pipes that were asked for are there; the manifest and the process id are
  what the caller reads of the process.
\<close>

definition process_start ::
  "host \<Rightarrow> env \<Rightarrow> plugin_spec \<Rightarrow> world \<Rightarrow> (plugin_manifest \<times> u32 option) plugin_result \<times> world" where
  "process_start host env spec w =
     (case validate_spec host spec of
        Inl e \<Rightarrow> (Inl e, w)
      | Inr _ \<Rightarrow>
          (let w = world_tick env w in
           case host_spawn host (w_tick w) spec of
             Inl e \<Rightarrow> (Inl e, w)
           | Inr pid \<Rightarrow>
               (case initialize host env spec (emit ProcessStarted w) of
                  (Inl e, w) \<Rightarrow> (Inl e, process_gone env w)
                | (Inr manifest, w) \<Rightarrow> (Inr (manifest, pid), w))))"

datatype shutdown_outcome = ShutdownGraceful "i64 option" | ShutdownForced "i64 option"

text \<open>\<open>shutdown\<close>: whatever it returns, dropping the process has killed the child.\<close>

definition process_shutdown :: "host \<Rightarrow> env \<Rightarrow> world \<Rightarrow> shutdown_outcome plugin_result \<times> world" where
  "process_shutdown host env w =
     (let (reply, w) = rpc_call env (host_shutdown host) w in
      case reply of
        Inl e \<Rightarrow> (Inl e, process_gone env w)
      | Inr accepted \<Rightarrow>
          if \<not> accepted then (Inl ShutdownRejected, process_gone env w)
          else
            (let w = world_tick env w in
             case host_exit host (w_tick w) of
               Some status \<Rightarrow> (and_then status (\<lambda>code. Inr (ShutdownGraceful code)), process_gone env w)
             | None \<Rightarrow>
                 (let w = process_gone env w in
                  (and_then (host_kill host (w_tick w)) (\<lambda>code. Inr (ShutdownForced code)), w))))"

end
