(* ===== verification/Worker_Context.thy ===== *)
theory Worker_Context
  imports Plugin_Process
begin

text \<open>
  What a worker seat is configured with and what it hands to an adapter: the pure parts of
  \<open>crates/execution/src/worker.rs\<close>.  Rendering an envelope as JSON and encoding a message are serde's.
\<close>

section \<open>Bounds\<close>

definition WORKER_MAX_LEASE_DURATION_MS :: u64 where "WORKER_MAX_LEASE_DURATION_MS = 3600000"
definition MAX_POLL_INTERVAL_MS :: u64 where "MAX_POLL_INTERVAL_MS = 60000"
definition WORKER_MAX_RETRY_DELAY_MS :: u64 where "WORKER_MAX_RETRY_DELAY_MS = 86400000"
definition WORKER_MAX_CAPTURE_BYTES :: u64 where "WORKER_MAX_CAPTURE_BYTES = 512 * 1024"
definition LEASE_MARGIN_MS :: u64 where "LEASE_MARGIN_MS = 60000"
definition MAX_ACCEPTED_MESSAGE_KINDS :: nat where "MAX_ACCEPTED_MESSAGE_KINDS = 128"
definition WORKER_MAX_MESSAGE_KIND_BYTES :: nat where "WORKER_MAX_MESSAGE_KIND_BYTES = 256"
definition GENERATION_HEARTBEAT_INTERVAL_MS :: u64 where "GENERATION_HEARTBEAT_INTERVAL_MS = 5000"
definition MAX_CHANNEL_CONTEXT_MEMBERS :: nat where "MAX_CHANNEL_CONTEXT_MEMBERS = 64"
definition MAX_CHANNEL_CONTEXT_MESSAGES :: nat where "MAX_CHANNEL_CONTEXT_MESSAGES = 32"
definition MAX_CHANNEL_CONTEXT_HISTORY_BYTES :: nat where "MAX_CHANNEL_CONTEXT_HISTORY_BYTES = 64 * 1024"
definition MAX_STANDING_INSTRUCTIONS_BYTES :: nat where "MAX_STANDING_INSTRUCTIONS_BYTES = 32 * 1024"

section \<open>Inbound acceptance\<close>

text \<open>The \<open>BTreeSet\<close> of kinds is the ascending list of its elements.\<close>

record inbound_acceptance =
  ia_schema_version :: u32
  ia_message_kinds :: "string list"

fun accept_kinds :: "string list \<Rightarrow> string list \<Rightarrow> string + string list" where
  "accept_kinds exact [] = Inr exact"
| "accept_kinds exact (kind # kinds) =
     (if trim_is_empty kind \<or> length kind > WORKER_MAX_MESSAGE_KIND_BYTES
      then Inl (''accepted message kind must contain between 1 and ''
             @ show_nat WORKER_MAX_MESSAGE_KIND_BYTES @ '' bytes'')
      else if kind \<in> set exact then Inl (''duplicate accepted message kind '' @ kind)
      else accept_kinds (insort kind exact) kinds)"

definition exact_v1 :: "string list \<Rightarrow> string + inbound_acceptance" where
  "exact_v1 supplied =
     (if supplied = [] then Inl ''inbound acceptance must contain at least one message kind''
      else if length supplied > MAX_ACCEPTED_MESSAGE_KINDS
      then Inl (''inbound acceptance exceeds '' @ show_nat MAX_ACCEPTED_MESSAGE_KINDS @ '' message kinds'')
      else and_then (accept_kinds [] supplied) (\<lambda>exact.
        Inr \<lparr>ia_schema_version = 1, ia_message_kinds = exact\<rparr>))"

section \<open>Adapters\<close>

record prepared_turn =
  pt_lane_policy :: string
  pt_lane_key :: string
  pt_prompt :: "prompt_block list"
  pt_result_kind :: string
  pt_result_capture :: turn_result_capture
  pt_result_context :: json_value

record channel_turn_context =
  ctx_members :: "channel_member list"
  ctx_members_truncated :: bool
  ctx_recent_history :: "message list"
  ctx_recent_history_truncated :: bool

text \<open>\<open>TurnAdapter\<close>: what the worker calls of it.\<close>

record turn_adapter =
  adapter_acceptance :: inbound_acceptance
  adapter_prepare :: "invocation \<Rightarrow> channel_turn_context \<Rightarrow> string + prepared_turn"

record envelope_adapter =
  ea_result_kind :: string
  ea_inbound_acceptance :: inbound_acceptance
  ea_standing_instructions :: "string option"

definition envelope_adapter_new :: "string \<Rightarrow> string list \<Rightarrow> string + envelope_adapter" where
  "envelope_adapter_new result_kind kinds =
     (if trim_is_empty result_kind \<or> length result_kind > WORKER_MAX_MESSAGE_KIND_BYTES
      then Inl (''result kind must contain between 1 and '' @ show_nat WORKER_MAX_MESSAGE_KIND_BYTES @ '' bytes'')
      else and_then (exact_v1 kinds) (\<lambda>acceptance.
        Inr \<lparr>ea_result_kind = result_kind, ea_inbound_acceptance = acceptance, ea_standing_instructions = None\<rparr>))"

definition with_standing_instructions :: "string \<Rightarrow> envelope_adapter \<Rightarrow> string + envelope_adapter" where
  "with_standing_instructions instructions a =
     (if length instructions > MAX_STANDING_INSTRUCTIONS_BYTES
      then Inl (''standing instructions must not exceed '' @ show_nat MAX_STANDING_INSTRUCTIONS_BYTES @ '' bytes'')
      else Inr (a\<lparr>ea_standing_instructions :=
        if trim_is_empty instructions then None else Some instructions\<rparr>))"

text \<open>The fields of the JSON envelope.\<close>

record envelope =
  env_invocation_id :: string
  env_delivery_attempt :: i64
  env_channel_id :: string
  env_context :: channel_turn_context
  env_message :: message

definition envelope_preamble :: string where
  "envelope_preamble = ''You are participating in a durable Fleetd channel. The channel members and ''
     @ ''recent shared history below are context; the message field is the exact ''
     @ ''message that woke you. Act on its request and make your final response ''
     @ ''suitable to return to the sending member. When another member should act ''
     @ ''and a Fleetd messaging tool is available, address a durable message using ''
     @ ''that member's exact agent_id from channel.members. Do not claim a peer ''
     @ ''response you have not received, and do not invent authority absent from the ''
     @ ''request.''"

definition newline :: string where "newline = [CHR 0x0A]"

definition prepare_envelope ::
  "(envelope \<Rightarrow> string + string) \<Rightarrow> envelope_adapter \<Rightarrow> invocation \<Rightarrow> channel_turn_context \<Rightarrow> string + prepared_turn" where
  "prepare_envelope to_string_pretty a i context =
     (case to_string_pretty \<lparr>env_invocation_id = inv_id i, env_delivery_attempt = inv_delivery_attempt i,
             env_channel_id = msg_channel_id (inv_message i), env_context = context, env_message = inv_message i\<rparr> of
        Inl error \<Rightarrow> Inl (''message envelope could not be encoded: '' @ error)
      | Inr encoded \<Rightarrow>
          let standing = (case ea_standing_instructions a of
                None \<Rightarrow> []
              | Some instructions \<Rightarrow> newline @ newline
                  @ ''Your standing instructions for this agent identity are:'' @ newline @ instructions) in
          Inr \<lparr>pt_lane_policy = ''per-channel'', pt_lane_key = msg_channel_id (inv_message i),
            pt_prompt = [PromptText (envelope_preamble @ standing @ newline @ newline @ encoded)],
            pt_result_kind = ea_result_kind a, pt_result_capture = CaptureTranscript,
            pt_result_context = JNull\<rparr>)"

definition envelope_turn_adapter :: "(envelope \<Rightarrow> string + string) \<Rightarrow> envelope_adapter \<Rightarrow> turn_adapter" where
  "envelope_turn_adapter to_string_pretty a =
     \<lparr>adapter_acceptance = ea_inbound_acceptance a, adapter_prepare = prepare_envelope to_string_pretty a\<rparr>"

section \<open>The channel around a message\<close>

definition push_context_member :: "channel_member \<Rightarrow> channel_member list \<Rightarrow> channel_member list" where
  "push_context_member m bounded =
     (if member_agent_id m \<in> member_agent_id ` set bounded then bounded else bounded @ [m])"

definition push_priority :: "channel_member list \<Rightarrow> string \<Rightarrow> channel_member list \<Rightarrow> channel_member list" where
  "push_priority members priority_id bounded =
     (case find (\<lambda>m. member_agent_id m = priority_id) members of
        None \<Rightarrow> bounded
      | Some m \<Rightarrow> push_context_member m bounded)"

fun fill_context :: "channel_member list \<Rightarrow> channel_member list \<Rightarrow> channel_member list" where
  "fill_context [] bounded = bounded"
| "fill_context (m # ms) bounded =
     (if length bounded = MAX_CHANNEL_CONTEXT_MEMBERS then bounded
      else fill_context ms (push_context_member m bounded))"

definition priority_ids :: "invocation \<Rightarrow> string list" where
  "priority_ids i = [inv_agent_id i, msg_sender_id (inv_message i)]
     @ (case msg_recipient_id (inv_message i) of None \<Rightarrow> [] | Some r \<Rightarrow> [r])"

definition bounded_context_members :: "channel_member list \<Rightarrow> invocation \<Rightarrow> channel_member list \<times> bool" where
  "bounded_context_members members i =
     (let bounded = fill_context members (fold (push_priority members) (priority_ids i) []) in
      (bounded, length bounded < length members))"

text \<open>\<open>usize\<close> is 64 bits wide.\<close>

definition checked_add_usize :: "nat \<Rightarrow> nat \<Rightarrow> nat option" where
  "checked_add_usize a b = (if a + b < 2 ^ 64 then Some (a + b) else None)"

definition message_bytes :: "(message \<Rightarrow> string option) \<Rightarrow> message \<Rightarrow> nat" where
  "message_bytes to_vec m =
     (case to_vec m of None \<Rightarrow> MAX_CHANNEL_CONTEXT_HISTORY_BYTES + 1 | Some value \<Rightarrow> length value)"

fun retain_history :: "(message \<Rightarrow> string option) \<Rightarrow> nat \<Rightarrow> message list \<Rightarrow> message list \<times> bool" where
  "retain_history to_vec encoded_bytes [] = ([], False)"
| "retain_history to_vec encoded_bytes (m # ms) =
     (case checked_add_usize encoded_bytes (message_bytes to_vec m) of
        None \<Rightarrow> ([], True)
      | Some next_bytes \<Rightarrow>
          if next_bytes > MAX_CHANNEL_CONTEXT_HISTORY_BYTES then ([], True)
          else (let (retained, truncated) = retain_history to_vec next_bytes ms in (m # retained, truncated)))"

definition bounded_context_history ::
  "(message \<Rightarrow> string option) \<Rightarrow> message list \<Rightarrow> message list \<times> bool" where
  "bounded_context_history to_vec hist =
     (let start = length hist - MAX_CHANNEL_CONTEXT_MESSAGES;
          (retained_reversed, cut) = retain_history to_vec 0 (rev (drop start hist)) in
      (rev retained_reversed, length hist > MAX_CHANNEL_CONTEXT_MESSAGES \<or> cut))"

section \<open>Configuration\<close>

record turn_grant =
  tg_authority :: nat
  tg_resolved :: resolved_mcp_grant

record worker_config =
  wc_agent_id :: string
  wc_plugin :: plugin_spec
  wc_working_directory :: string
  wc_additional_directories :: "string list"
  wc_mcp_grants :: "string list"
  wc_turn_grants :: "turn_grant list"
  wc_compatibility_digest :: "string option"
  wc_lease_duration :: duration
  wc_poll_interval :: duration
  wc_interrupt_on_new_message :: bool
  wc_interrupt_poll_interval :: duration
  wc_restart_backoff :: duration
  wc_pre_arm_retry_delay :: duration
  wc_turn_policy :: turn_policy
  wc_permission_policy :: permission_policy

datatype worker_error =
    WorkerInvalidConfig string
  | WorkerAdapter string
  | PreArmSettlement string fleet_error
  | OperationalEvidence string fleet_error

fun worker_error_display :: "(fleet_error \<Rightarrow> string) \<Rightarrow> worker_error \<Rightarrow> string" where
  "worker_error_display detail (WorkerInvalidConfig m) = ''continuous worker configuration is invalid: '' @ m"
| "worker_error_display detail (WorkerAdapter m) = ''turn adapter rejected a reserved message: '' @ m"
| "worker_error_display detail (PreArmSettlement context source) =
     ''failed to safely release an unarmed reservation after '' @ context @ '': '' @ fleet_error_display detail source"
| "worker_error_display detail (OperationalEvidence context source) =
     ''durable operational evidence failed during '' @ context @ '': '' @ fleet_error_display detail source"

definition invalid :: "string \<Rightarrow> worker_error + 'a" where
  "invalid m = Inl (WorkerInvalidConfig m)"

definition duration_ms :: "duration \<Rightarrow> u64 option" where
  "duration_ms d = (if d div 1000000 < 2 ^ 64 then Some (ucast (d div 1000000)) else None)"

definition validate_directory :: "host \<Rightarrow> string \<Rightarrow> string \<Rightarrow> worker_error + unit" where
  "validate_directory host label directory =
     (if \<not> is_absolute directory \<or> \<not> host_is_dir host directory
      then invalid (label @ '' must be an existing absolute directory: '' @ directory) else Inr ())"

fun validate_grants :: "string set \<Rightarrow> string list \<Rightarrow> worker_error + unit" where
  "validate_grants seen [] = Inr ()"
| "validate_grants seen (grant # grants) =
     (if grant \<noteq> PUBLISH_DURABLE_MESSAGE_GRANT then invalid (''unsupported MCP grant: '' @ grant)
      else if grant \<in> seen then invalid (''duplicate MCP grant: '' @ grant)
      else validate_grants (insert grant seen) grants)"

definition duration_ms_or :: "duration \<Rightarrow> string \<Rightarrow> worker_error + u64" where
  "duration_ms_or d m = ok_or (duration_ms d) (WorkerInvalidConfig m)"

definition required_lease :: "turn_policy \<Rightarrow> u64 option" where
  "required_lease policy =
     Option.bind (checked_add_u64 (tp_wall_timeout_ms policy) (tp_cancel_drain_timeout_ms policy))
       (\<lambda>value. checked_add_u64 value LEASE_MARGIN_MS)"

definition validate_intervals :: "worker_config \<Rightarrow> worker_error + unit" where
  "validate_intervals config =
     (if wc_poll_interval config = 0 \<or> wc_interrupt_poll_interval config = 0 \<or> wc_restart_backoff config = 0
      then invalid ''poll interval, interruption poll interval, and restart backoff must be greater than zero''
      else
        and_then (duration_ms_or (wc_poll_interval config) ''poll interval is too large'') (\<lambda>poll_ms.
        and_then (duration_ms_or (wc_restart_backoff config) ''restart backoff is too large'') (\<lambda>restart_ms.
        and_then (duration_ms_or (wc_interrupt_poll_interval config) ''interruption poll interval is too large'')
          (\<lambda>interrupt_poll_ms.
        if poll_ms > MAX_POLL_INTERVAL_MS then invalid ''poll interval must not exceed 60,000 milliseconds''
        else if interrupt_poll_ms > MAX_POLL_INTERVAL_MS
        then invalid ''interruption poll interval must not exceed 60,000 milliseconds''
        else if restart_ms > WORKER_MAX_RETRY_DELAY_MS
        then invalid ''restart backoff must not exceed 86,400,000 milliseconds''
        else Inr ()))))"

definition validate_lease :: "worker_config \<Rightarrow> worker_error + unit" where
  "validate_lease config =
     and_then (duration_ms_or (wc_lease_duration config) ''lease duration is too large'') (\<lambda>lease_ms.
     and_then (duration_ms_or (wc_pre_arm_retry_delay config) ''retry delay is too large'') (\<lambda>retry_ms.
     if lease_ms = 0 \<or> lease_ms > WORKER_MAX_LEASE_DURATION_MS
     then invalid ''lease duration must be between 1 and 3,600,000 milliseconds''
     else if retry_ms > WORKER_MAX_RETRY_DELAY_MS
     then invalid ''pre-arm retry delay must not exceed 86,400,000 milliseconds''
     else
       and_then (ok_or (required_lease (wc_turn_policy config))
         (WorkerInvalidConfig ''turn deadline bounds overflow'')) (\<lambda>required.
       if lease_ms < required
       then invalid (''lease duration must cover wall timeout, cancel drain, and ''
              @ show_int (uint LEASE_MARGIN_MS) @ ''ms margin ('' @ show_int (uint required) @ ''ms required)'')
       else Inr ())))"

definition validate_policy :: "turn_policy \<Rightarrow> worker_error + unit" where
  "validate_policy policy =
     (if tp_idle_timeout_ms policy = 0 \<or> tp_wall_timeout_ms policy = 0
        \<or> tp_cancel_drain_timeout_ms policy = 0 \<or> tp_max_captured_output_bytes policy = 0
        \<or> tp_max_captured_output_bytes policy > WORKER_MAX_CAPTURE_BYTES
        \<or> tp_permission_policy policy \<noteq> ''controller'' \<or> budget_limit (tp_tool_budget policy) = 0
        \<or> budget_required_enforcement (tp_tool_budget policy) \<noteq> ''observe_then_cancel''
        \<or> tp_token_budget policy \<noteq> None
      then invalid ''turn policy requests unsupported or unbounded enforcement'' else Inr ())"

definition validate_config :: "host \<Rightarrow> worker_config \<Rightarrow> worker_error + unit" where
  "validate_config host config =
     (if trim_is_empty (wc_agent_id config) \<or> length (wc_agent_id config) > 256
      then invalid ''agent ID must contain between 1 and 256 bytes''
      else
        and_then (validate_directory host ''working directory'' (wc_working_directory config)) (\<lambda>_.
        and_then (try_fold (\<lambda>directory _. validate_directory host ''additional directory'' directory)
          (wc_additional_directories config) ()) (\<lambda>_.
        and_then (validate_grants {} (wc_mcp_grants config)) (\<lambda>_.
        if (case wc_compatibility_digest config of None \<Rightarrow> False | Some digest \<Rightarrow> trim_is_empty digest)
        then invalid ''compatibility digest must not be empty when supplied''
        else if wc_permission_policy config = PolicyAllowOnce \<and> sandbox_profile_digest (wc_plugin config) = None
        then invalid ''allow_once permission policy requires an OS-sandboxed plugin process''
        else
          and_then (validate_intervals config) (\<lambda>_.
          and_then (validate_lease config) (\<lambda>_.
          validate_policy (wc_turn_policy config)))))))"

definition validate_prepared_turn :: "prepared_turn \<Rightarrow> string + unit" where
  "validate_prepared_turn p =
     (if trim_is_empty (pt_lane_policy p) \<or> trim_is_empty (pt_lane_key p)
        \<or> trim_is_empty (pt_result_kind p) \<or> pt_prompt p = []
      then Inl ''lane policy, lane key, result kind, and prompt must not be empty'' else Inr ())"

text \<open>The bytes that are hashed; \<open>nul\<close> is the zero byte.\<close>

definition nul :: string where "nul = [CHR 0x00]"

definition u32_to_be_bytes :: "u32 \<Rightarrow> string" where
  "u32_to_be_bytes n = map (\<lambda>k. char_of (unat (drop_bit k n) mod 256)) [24, 16, 8, 0]"

definition compatibility_preimage ::
  "string \<Rightarrow> string list \<Rightarrow> inbound_acceptance \<Rightarrow> string option \<Rightarrow> permission_policy \<Rightarrow> string" where
  "compatibility_preimage base mcp_grants acceptance sandbox policy =
     ''fleetd-worker-compatibility-v4'' @ nul @ base @ nul @ ''sandbox'' @ nul
     @ (case sandbox of None \<Rightarrow> ''unsandboxed'' | Some digest \<Rightarrow> digest)
     @ nul @ ''permission-policy'' @ nul @ permission_policy_as_str policy
     @ concat (map (\<lambda>grant. nul @ grant) mcp_grants)
     @ nul @ ''inbound-schema'' @ nul @ u32_to_be_bytes (ia_schema_version acceptance)
     @ concat (map (\<lambda>kind. nul @ ''kind'' @ nul @ kind) (ia_message_kinds acceptance))"

definition worker_compatibility_digest ::
  "(string \<Rightarrow> string) \<Rightarrow> string \<Rightarrow> string list \<Rightarrow> inbound_acceptance \<Rightarrow> string option \<Rightarrow> permission_policy \<Rightarrow> string" where
  "worker_compatibility_digest sha256 base mcp_grants acceptance sandbox policy =
     ''sha256:'' @ sha256 (compatibility_preimage base mcp_grants acceptance sandbox policy)"

end
