(* ===== verification/Worker.thy ===== *)
theory Worker
  imports Worker_Context
begin

text \<open>
  The continuous worker: \<open>ContinuousHarnessWorker\<close> of \<open>crates/execution/src/worker.rs\<close>.  It keeps one
  plugin process at a time (a generation), reserves one invocation after another for its agent, opens
  the native session of its lane, and hands it to the controller; whatever it reserved and does not
  dispatch it gives back.

  The cancellation token and the timers are functions of the tick.  The heartbeat of a generation is a
  task of its own, one of the others.
\<close>

section \<open>Data\<close>

record worker_report =
  wr_plugin_generations :: u64
  wr_operational_restarts :: u64
  wr_reservations :: u64
  wr_completed :: u64
  wr_interrupted :: u64
  wr_blocked :: u64
  wr_pre_arm_retries :: u64
  wr_idle_polls :: u64

definition default_report :: worker_report where
  "default_report = \<lparr>wr_plugin_generations = 0, wr_operational_restarts = 0, wr_reservations = 0, wr_completed = 0,
     wr_interrupted = 0, wr_blocked = 0, wr_pre_arm_retries = 0, wr_idle_polls = 0\<rparr>"

definition settled_turns :: "worker_report \<Rightarrow> u64" where
  "settled_turns report =
     saturating_add_u64 (saturating_add_u64 (wr_completed report) (wr_interrupted report)) (wr_blocked report)"

definition limit_reached :: "worker_report \<Rightarrow> u64 option \<Rightarrow> bool" where
  "limit_reached report limit = (case limit of None \<Rightarrow> False | Some n \<Rightarrow> settled_turns report \<ge> n)"

record lane_identity =
  lane_policy :: string
  lane_key :: string

record opened_session =
  opened_binding :: binding
  opened_session_ref :: string

record generation_identity =
  gi_owner_instance_id :: string
  gi_profile_digest :: string
  gi_compatibility_digest :: string

datatype generation_exit = ExitStopped | ExitRestart string | ExitFatal worker_error

datatype turn_control = Continue | ForgetLane lane_identity | Exit generation_exit

datatype lane_open_error = LaneFleet fleet_error | LanePlugin plugin_error

fun lane_is_plugin :: "lane_open_error \<Rightarrow> bool" where
  "lane_is_plugin (LanePlugin _) = True"
| "lane_is_plugin (LaneFleet _) = False"

fun lane_open_error_display :: "env \<Rightarrow> lane_open_error \<Rightarrow> string" where
  "lane_open_error_display env (LaneFleet e) = fleet_error_display (env_detail env) e"
| "lane_open_error_display env (LanePlugin e) = plugin_error_display e"

text \<open>
  The worker and what it runs in.  Only a validated configuration makes one, so the \<open>expect\<close>s on its
  durations cannot fail.
\<close>

record worker =
  wk_env :: env
  wk_host :: host
  wk_config :: worker_config
  wk_adapter :: turn_adapter

definition worker_new :: "env \<Rightarrow> host \<Rightarrow> worker_config \<Rightarrow> turn_adapter \<Rightarrow> worker_error + worker" where
  "worker_new env host config adapter =
     and_then (validate_config host config) (\<lambda>_.
     Inr \<lparr>wk_env = env, wk_host = host, wk_config = config, wk_adapter = adapter\<rparr>)"

definition validated_ms :: "duration \<Rightarrow> u64" where
  "validated_ms d = (case duration_ms d of Some ms \<Rightarrow> ms | None \<Rightarrow> 0)"

definition cancelled_now :: "worker \<Rightarrow> world \<Rightarrow> bool" where
  "cancelled_now wk w = host_cancelled (wk_host wk) (w_tick w)"

definition wait_or_cancel :: "worker \<Rightarrow> world \<Rightarrow> bool \<times> world" where
  "wait_or_cancel wk w =
     (let w = world_tick (wk_env wk) w in (host_wait_cancelled (wk_host wk) (w_tick w), w))"

text \<open>A read of the store.\<close>

definition reading :: "worker \<Rightarrow> (db \<Rightarrow> 'a result) \<Rightarrow> world \<Rightarrow> 'a result \<times> world" where
  "reading wk f w = (let w = world_tick (wk_env wk) w in (f (w_db w), w))"

section \<open>Giving back what was not dispatched\<close>

definition retry_unarmed ::
  "worker \<Rightarrow> invocation \<Rightarrow> string \<Rightarrow> u64 \<Rightarrow> world \<Rightarrow> (worker_error + unit) \<times> world" where
  "retry_unarmed wk i context retry_after w =
     (case transact (wk_env wk) (inv_id i) CommittedRetry (\<lambda>now.
             retry_delivery now (inv_agent_id i) (msg_id (inv_message i))
               \<lparr>retry_lease_token = inv_lease_token i, retry_after_ms = retry_after,
                retry_error = Some (bounded_reason context)\<rparr>) w of
        (Inl source, w) \<Rightarrow> (Inl (PreArmSettlement context source), w)
      | (Inr _, w) \<Rightarrow> (Inr (), w))"

definition retry_before_arm :: "worker \<Rightarrow> invocation \<Rightarrow> string \<Rightarrow> world \<Rightarrow> (worker_error + unit) \<times> world" where
  "retry_before_arm wk i context w =
     retry_unarmed wk i context (validated_ms (wc_pre_arm_retry_delay (wk_config wk))) w"

definition counted_retry :: "worker_report \<Rightarrow> worker_report" where
  "counted_retry report = report\<lparr>wr_pre_arm_retries := saturating_add_u64 (wr_pre_arm_retries report) 1\<rparr>"

definition release_or_exit ::
  "worker \<Rightarrow> invocation \<Rightarrow> string \<Rightarrow> worker_report \<times> world \<Rightarrow> (generation_exit + unit) \<times> worker_report \<times> world" where
  "release_or_exit wk i reason s =
     (let (report, w) = s in
      case retry_before_arm wk i reason w of
        (Inl e, w) \<Rightarrow> (Inl (ExitFatal e), report, w)
      | (Inr _, w) \<Rightarrow> (Inr (), counted_retry report, w))"

text \<open>Releasing, and then leaving the generation in the given way.\<close>

definition release_and_exit ::
  "worker \<Rightarrow> invocation \<Rightarrow> string \<Rightarrow> generation_exit \<Rightarrow> worker_report \<times> world
    \<Rightarrow> generation_exit \<times> worker_report \<times> world" where
  "release_and_exit wk i reason exit s =
     (case release_or_exit wk i reason s of
        (Inl fatal, s) \<Rightarrow> (fatal, s)
      | (Inr _, s) \<Rightarrow> (exit, s))"

definition stop_unarmed ::
  "worker \<Rightarrow> invocation \<Rightarrow> worker_report \<times> world \<Rightarrow> generation_exit \<times> worker_report \<times> world" where
  "stop_unarmed wk i s =
     (let (report, w) = s in
      case retry_unarmed wk i ''worker cancelled before dispatch'' 0 w of
        (Inl e, w) \<Rightarrow> (ExitFatal e, report, w)
      | (Inr _, w) \<Rightarrow> (ExitStopped, counted_retry report, w))"

section \<open>Preparing\<close>

definition channel_turn_context_read ::
  "worker \<Rightarrow> invocation \<Rightarrow> world \<Rightarrow> channel_turn_context result \<times> world" where
  "channel_turn_context_read wk i w =
     (case reading wk (list_channel_members (msg_channel_id (inv_message i))) w of
        (Inl e, w) \<Rightarrow> (Inl e, w)
      | (Inr members, w) \<Rightarrow>
          (let (members, members_truncated) = bounded_context_members members i in
           case reading wk (list_recent_messages_before (msg_channel_id (inv_message i)) (msg_seq (inv_message i))
                  (of_nat (MAX_CHANNEL_CONTEXT_MESSAGES + 1))) w of
             (Inl e, w) \<Rightarrow> (Inl e, w)
           | (Inr hist, w) \<Rightarrow>
               (let (recent, truncated) = bounded_context_history (host_encode_message (wk_host wk)) hist in
                (Inr \<lparr>ctx_members = members, ctx_members_truncated = members_truncated,
                   ctx_recent_history = recent, ctx_recent_history_truncated = truncated\<rparr>, w))))"

definition prepare_reserved ::
  "worker \<Rightarrow> invocation \<Rightarrow> worker_report \<times> world \<Rightarrow> (generation_exit + prepared_turn) \<times> worker_report \<times> world" where
  "prepare_reserved wk i s =
     (let (report, w) = s in
      case channel_turn_context_read wk i w of
        (Inl e, w) \<Rightarrow>
          (let reason = ''channel context could not be read before arm: '' @ fleet_error_display (env_detail (wk_env wk)) e;
               (exit, s) = release_and_exit wk i reason (ExitRestart reason) (report, w) in (Inl exit, s))
      | (Inr context, w) \<Rightarrow>
          (case adapter_prepare (wk_adapter wk) i context of
             Inl e \<Rightarrow>
               (let (exit, s) = release_and_exit wk i (''adapter rejected message: '' @ e) (ExitFatal (WorkerAdapter e))
                      (report, w) in (Inl exit, s))
           | Inr prepared \<Rightarrow>
               (case validate_prepared_turn prepared of
                  Inl e \<Rightarrow>
                    (let (exit, s) = release_and_exit wk i (''adapter output is invalid: '' @ e)
                           (ExitFatal (WorkerAdapter e)) (report, w) in (Inl exit, s))
                | Inr _ \<Rightarrow> (Inr prepared, report, w))))"

section \<open>Sessions\<close>

type_synonym sessions = "lane_identity \<rightharpoonup> opened_session"

definition lane_acquisition :: "worker \<Rightarrow> lane_identity \<Rightarrow> generation_identity \<Rightarrow> acquire_session_binding_input" where
  "lane_acquisition wk lid g =
     \<lparr>acq_lane_policy = lane_policy lid, acq_lane_key = lane_key lid,
      acq_owner_instance_id = gi_owner_instance_id g, acq_profile_digest = gi_profile_digest g,
      acq_compatibility_digest = gi_compatibility_digest g,
      acq_working_directory = wc_working_directory (wk_config wk),
      acq_additional_directories = wc_additional_directories (wk_config wk)\<rparr>"

definition lane_open_request :: "worker \<Rightarrow> generation_identity \<Rightarrow> session_acquisition \<Rightarrow> open_session" where
  "lane_open_request wk g acquisition =
     \<lparr>os_binding = sess_binding (acquired_session acquisition),
      os_mode = (case acquired_mode acquisition of Create \<Rightarrow> OpenCreate | Resume r \<Rightarrow> OpenResume r),
      os_working_directory = wc_working_directory (wk_config wk),
      os_additional_directories = wc_additional_directories (wk_config wk),
      os_mcp_grants = wc_mcp_grants (wk_config wk),
      os_resolved_mcp_grants = map tg_resolved (wc_turn_grants (wk_config wk)),
      os_profile_digest = gi_profile_digest g\<rparr>"

definition open_lane ::
  "worker \<Rightarrow> invocation \<Rightarrow> lane_identity \<Rightarrow> generation_identity \<Rightarrow> world
    \<Rightarrow> (lane_open_error + opened_session) \<times> world" where
  "open_lane wk i lid g w =
     (case transact (wk_env wk) (inv_id i) CommittedAcquisition (\<lambda>now.
             acquire_session_binding (env_uuid (wk_env wk) (w_tick w)) now (inv_agent_id i)
               (lane_acquisition wk lid g)) w of
        (Inl e, w) \<Rightarrow> (Inl (LaneFleet e), w)
      | (Inr acquisition, w) \<Rightarrow>
          (let b = sess_binding (acquired_session acquisition) in
           case harness_open_session (wk_env wk) (lane_open_request wk g acquisition) w of
             (Inl e, w) \<Rightarrow> (Inl (LanePlugin e), w)
           | (Inr opened, w) \<Rightarrow>
               (case transact (wk_env wk) (inv_id i) CommittedOpened (\<lambda>now.
                       record_session_opened now (inv_agent_id i) b (osr_session_ref opened)) w of
                  (Inl e, w) \<Rightarrow> (Inl (LaneFleet e), w)
                | (Inr _, w) \<Rightarrow>
                    (Inr \<lparr>opened_binding = b, opened_session_ref = osr_session_ref opened\<rparr>, w))))"

definition resolve_lane ::
  "worker \<Rightarrow> invocation \<Rightarrow> lane_identity \<Rightarrow> generation_identity \<Rightarrow> sessions \<Rightarrow> worker_report \<times> world
    \<Rightarrow> (generation_exit + opened_session option) \<times> sessions \<times> worker_report \<times> world" where
  "resolve_lane wk i lid g sessions s =
     (let (report, w) = s in
      case sessions lid of
        Some opened \<Rightarrow> (Inr (Some opened), sessions, report, w)
      | None \<Rightarrow>
          (case open_lane wk i lid g w of
             (Inr opened, w) \<Rightarrow> (Inr (Some opened), sessions(lid \<mapsto> opened), report, w)
           | (Inl e, w) \<Rightarrow>
               (let reason = ''session acquisition failed before arm: '' @ lane_open_error_display (wk_env wk) e in
                case release_or_exit wk i reason (report, w) of
                  (Inl exit, s) \<Rightarrow> (Inl exit, sessions, s)
                | (Inr _, s) \<Rightarrow>
                    (if lane_is_plugin e then Inl (ExitRestart reason) else Inr None, sessions, s))))"

definition ROTATE_REASON :: string where
  "ROTATE_REASON = ''newer channel message interrupted quiescent turn''"

definition rotate_interrupted_lane ::
  "worker \<Rightarrow> string \<Rightarrow> lane_identity \<Rightarrow> opened_session \<Rightarrow> world \<Rightarrow> turn_control \<times> world" where
  "rotate_interrupted_lane wk key lid session w =
     (let b = opened_binding session in
      case transact (wk_env wk) key CommittedRetirement (\<lambda>now.
             retire_session_binding now (wc_agent_id (wk_config wk)) b ROTATE_REASON) w of
        (Inl source, w) \<Rightarrow>
          (Exit (ExitFatal (OperationalEvidence (''retire interrupted session binding '' @ bind_id b
             @ '' generation '' @ show_int (uint (bind_generation b))) source)), w)
      | (Inr _, w) \<Rightarrow>
          (case harness_close_session (wk_env wk)
                  \<lparr>cs_binding_id = bind_id b, cs_binding_generation = bind_generation b,
                   cs_owner_epoch = bind_owner_epoch b, cs_session_ref = opened_session_ref session,
                   cs_reason = ''newer_message''\<rparr> w of
             (Inl e, w) \<Rightarrow>
               (Exit (ExitRestart (''interrupted native session could not be closed: '' @ plugin_error_display e)), w)
           | (Inr result, w) \<Rightarrow>
               (if csr_ownership_retired result then ForgetLane lid
                else Exit (ExitRestart ''harness did not retire the interrupted native session''), w)))"

section \<open>One turn\<close>

text \<open>The interruption, polled: the cancellation first, then what is new on the lane.\<close>

definition turn_interruption ::
  "worker \<Rightarrow> invocation \<Rightarrow> i64 \<Rightarrow> world \<Rightarrow> managed_turn_interruption option" where
  "turn_interruption wk i after w =
     (if cancelled_now wk w then Some InterruptShutdown
      else if wc_interrupt_on_new_message (wk_config wk) \<and> host_poll_due (wk_host wk) (w_tick w) then
        (case newest_claimable_delivery_message_after (now_at (wk_env wk) w) (inv_agent_id i)
                (msg_channel_id (inv_message i)) after (ia_message_kinds (adapter_acceptance (wk_adapter wk))) (w_db w) of
           Inr (Some m) \<Rightarrow> Some (InterruptNewer (msg_id m))
         | Inr None \<Rightarrow> None
         | Inl _ \<Rightarrow> None)
      else None)"

definition managed_error ::
  "worker \<Rightarrow> invocation \<Rightarrow> managed_turn_error \<Rightarrow> worker_report \<times> world
    \<Rightarrow> generation_exit option \<times> worker_report \<times> world" where
  "managed_error wk i error s =
     (case error of
        HarnessBeforeArm e \<Rightarrow>
          (let reason = ''harness failed before arm: '' @ plugin_error_display e;
               (exit, s) = release_and_exit wk i reason (ExitRestart reason) s in (Some exit, s))
      | TurnInvalid e \<Rightarrow>
          (let (exit, s) = release_and_exit wk i (''managed turn input was invalid: '' @ e)
                 (ExitFatal (WorkerAdapter e)) s in (Some exit, s))
      | TurnFleet e \<Rightarrow>
          (Some (ExitRestart (''managed turn persistence failed at an uncertain phase: ''
             @ fleet_error_display (env_detail (wk_env wk)) e)), s))"

definition managed_turn_of ::
  "worker \<Rightarrow> invocation \<Rightarrow> prepared_turn \<Rightarrow> opened_session \<Rightarrow> generation_identity \<Rightarrow> i64 \<Rightarrow> managed_turn" where
  "managed_turn_of wk i prepared opened g after =
     \<lparr>mt_invocation = i, mt_generation_id = gi_owner_instance_id g, mt_binding = opened_binding opened,
      mt_session_ref = opened_session_ref opened, mt_prompt = pt_prompt prepared,
      mt_policy = wc_turn_policy (wk_config wk), mt_grants = map tg_authority (wc_turn_grants (wk_config wk)),
      mt_result_kind = pt_result_kind prepared, mt_result_capture = pt_result_capture prepared,
      mt_result_context = pt_result_context prepared,
      mt_permission_policy = wc_permission_policy (wk_config wk),
      mt_interruption = Some (turn_interruption wk i after)\<rparr>"

definition counted_completed :: "worker_report \<Rightarrow> worker_report" where
  "counted_completed report = report\<lparr>wr_completed := saturating_add_u64 (wr_completed report) 1\<rparr>"

definition counted_interrupted :: "worker_report \<Rightarrow> worker_report" where
  "counted_interrupted report = report\<lparr>wr_interrupted := saturating_add_u64 (wr_interrupted report) 1\<rparr>"

definition counted_blocked :: "worker_report \<Rightarrow> worker_report" where
  "counted_blocked report = report\<lparr>wr_blocked := saturating_add_u64 (wr_blocked report) 1\<rparr>"

definition turn_settled ::
  "worker \<Rightarrow> invocation \<Rightarrow> lane_identity \<Rightarrow> opened_session \<Rightarrow> managed_turn_error + managed_turn_outcome
    \<Rightarrow> worker_report \<times> world \<Rightarrow> turn_control \<times> worker_report \<times> world" where
  "turn_settled wk i lid opened result s =
     (let (report, w) = s in
      case result of
        Inr (OutcomeCompleted _) \<Rightarrow> (Continue, counted_completed report, w)
      | Inr (OutcomeInterrupted _ interruption) \<Rightarrow>
          (case interruption of
             InterruptShutdown \<Rightarrow> (Continue, counted_interrupted report, w)
           | InterruptNewer _ \<Rightarrow>
               (let (control, w) = rotate_interrupted_lane wk (inv_id i) lid opened w in
                (control, counted_interrupted report, w)))
      | Inr (OutcomeBlocked blocked) \<Rightarrow>
          (Exit (ExitRestart (''invocation '' @ inv_id i @ '' was conservatively blocked: '' @ blocked_reason blocked)),
           counted_blocked report, w)
      | Inl error \<Rightarrow>
          (case managed_error wk i error (report, w) of
             (None, s) \<Rightarrow> (Continue, s)
           | (Some exit, s) \<Rightarrow> (Exit exit, s)))"

definition execute_turn ::
  "worker \<Rightarrow> invocation \<Rightarrow> prepared_turn \<Rightarrow> lane_identity \<Rightarrow> opened_session \<Rightarrow> generation_identity
    \<Rightarrow> worker_report \<times> world \<Rightarrow> (turn_control \<times> worker_report \<times> world) option" where
  "execute_turn wk i prepared lid opened g s =
     (let (report, w) = s in
      case reading wk (latest_channel_message_seq (msg_channel_id (inv_message i))) w of
        (Inl e, w) \<Rightarrow>
          (let reason = ''turn interruption baseline could not be read: ''
                 @ fleet_error_display (env_detail (wk_env wk)) e;
               (exit, s) = release_and_exit wk i reason (ExitRestart reason) (report, w) in Some (Exit exit, s))
      | (Inr after, w) \<Rightarrow>
          Option.bind (run_turn (wk_env wk) (managed_turn_of wk i prepared opened g after) w) (\<lambda>(result, w).
          Some (turn_settled wk i lid opened result (report, w))))"

section \<open>One generation\<close>

text \<open>The reservation of the loop: one invocation of the kinds the adapter accepts.\<close>

definition reserve_next :: "worker \<Rightarrow> world \<Rightarrow> invocation option result \<times> world" where
  "reserve_next wk w =
     (let env = wk_env wk; t = world_tick env w in
      case reserve_invocations_by_kind (host_lease_token (wk_host wk) (w_tick t) (w_db t)) (\<lambda>_. env_uuid env (w_tick w))
             (\<lambda>_. env_uuid env (w_tick t)) (now_at env t) (wc_agent_id (wk_config wk))
             \<lparr>claim_limit = 1, claim_lease_duration_ms = validated_ms (wc_lease_duration (wk_config wk))\<rparr>
             (ia_message_kinds (adapter_acceptance (wk_adapter wk))) (w_db t) of
        Inl e \<Rightarrow> (Inl e, t)
      | Inr (reserved, d) \<Rightarrow>
          (case reserved of
             [] \<Rightarrow> (Inr None, t\<lparr>w_db := d\<rparr>)
           | i # _ \<Rightarrow> (Inr (Some i), emit (Committed (inv_id i) CommittedReservation) (t\<lparr>w_db := d\<rparr>))))"

definition counted_idle :: "worker_report \<Rightarrow> worker_report" where
  "counted_idle report = report\<lparr>wr_idle_polls := saturating_add_u64 (wr_idle_polls report) 1\<rparr>"

definition counted_reservation :: "worker_report \<Rightarrow> worker_report" where
  "counted_reservation report = report\<lparr>wr_reservations := saturating_add_u64 (wr_reservations report) 1\<rparr>"

text \<open>What happens to a reserved invocation: it leaves the generation, or the loop goes on.\<close>

definition serve_reserved ::
  "worker \<Rightarrow> generation_identity \<Rightarrow> invocation \<Rightarrow> sessions \<times> worker_report \<times> world
    \<Rightarrow> ((generation_exit + unit) \<times> sessions \<times> worker_report \<times> world) option" where
  "serve_reserved wk g i st =
     (let (sessions, s) = st in
      case prepare_reserved wk i s of
        (Inl exit, s) \<Rightarrow> Some (Inl exit, sessions, s)
      | (Inr prepared, s) \<Rightarrow>
          if cancelled_now wk (snd s) then (let (exit, s) = stop_unarmed wk i s in Some (Inl exit, sessions, s))
          else
            (let lid = \<lparr>lane_policy = pt_lane_policy prepared, lane_key = pt_lane_key prepared\<rparr> in
             case resolve_lane wk i lid g sessions s of
               (Inl exit, sessions, s) \<Rightarrow> Some (Inl exit, sessions, s)
             | (Inr None, sessions, s) \<Rightarrow> Some (Inr (), sessions, s)
             | (Inr (Some opened), sessions, s) \<Rightarrow>
                 if cancelled_now wk (snd s) then (let (exit, s) = stop_unarmed wk i s in Some (Inl exit, sessions, s))
                 else
                   map_option (\<lambda>(control, s).
                     case control of
                       Continue \<Rightarrow> (Inr (), sessions, s)
                     | ForgetLane lid \<Rightarrow> (Inr (), sessions(lid := None), s)
                     | Exit exit \<Rightarrow> (Inl exit, sessions, s))
                   (execute_turn wk i prepared lid opened g s)))"

text \<open>One round of the loop.\<close>

definition drive_step ::
  "worker \<Rightarrow> generation_identity \<Rightarrow> u64 option \<Rightarrow> sessions \<times> worker_report \<times> world
    \<Rightarrow> ((generation_exit + unit) \<times> sessions \<times> worker_report \<times> world) option" where
  "drive_step wk g limit st =
     (let (sessions, report, w) = st in
      if cancelled_now wk w \<or> limit_reached report limit then Some (Inl ExitStopped, st)
      else
        (case reserve_next wk w of
           (Inl e, w) \<Rightarrow>
             Some (Inl (ExitRestart (''invocation reservation failed: '' @ fleet_error_display (env_detail (wk_env wk)) e)),
               sessions, report, w)
         | (Inr None, w) \<Rightarrow>
             (let (stop, w) = wait_or_cancel wk w in
              Some (if stop then Inl ExitStopped else Inr (), sessions, counted_idle report, w))
         | (Inr (Some i), w) \<Rightarrow> serve_reserved wk g i (sessions, counted_reservation report, w)))"

partial_function (option) drive_generation ::
  "worker \<Rightarrow> generation_identity \<Rightarrow> u64 option \<Rightarrow> sessions \<times> worker_report \<times> world
    \<Rightarrow> (generation_exit \<times> worker_report \<times> world) option" where
  "drive_generation wk g limit st =
     Option.bind (drive_step wk g limit st) (\<lambda>(r, st).
       case r of
         Inl exit \<Rightarrow> Some (exit, snd st)
       | Inr _ \<Rightarrow> drive_generation wk g limit st)"

declare drive_generation.simps [code]

definition generation_exit_evidence :: "env \<Rightarrow> generation_exit \<Rightarrow> plugin_generation_disposition \<times> string" where
  "generation_exit_evidence env exit =
     (case exit of
        ExitStopped \<Rightarrow> (StopStopped, ''worker stopped routing work'')
      | ExitRestart reason \<Rightarrow> (StopRestart, bounded_reason reason)
      | ExitFatal e \<Rightarrow> (StopFatal, bounded_reason (worker_error_display (env_detail env) e)))"

definition shutdown_generation :: "worker \<Rightarrow> generation_exit \<Rightarrow> world \<Rightarrow> generation_exit \<times> world" where
  "shutdown_generation wk exit w = (exit, snd (process_shutdown (wk_host wk) (wk_env wk) w))"

definition stop_generation :: "worker \<Rightarrow> string \<Rightarrow> generation_exit \<Rightarrow> world \<Rightarrow> generation_exit \<times> world" where
  "stop_generation wk generation_id exit w =
     (let env = wk_env wk; w = (if env_sink env then world_tick env w else w);
          (disposition, reason) = generation_exit_evidence env exit;
          (shutdown, w) = process_shutdown (wk_host wk) env w;
          (reason, outcome, code) = (case shutdown of
              Inr (ShutdownGraceful code) \<Rightarrow> (reason, Graceful, code)
            | Inr (ShutdownForced code) \<Rightarrow> (reason, Forced, code)
            | Inl e \<Rightarrow> (bounded_reason (reason @ ''; shutdown failed: '' @ plugin_error_display e), Failed, None)) in
      case transact env generation_id CommittedStop (\<lambda>now.
             stop_plugin_generation now generation_id
               \<lparr>stop_disposition = disposition, stop_reason = reason, stop_shutdown_outcome = outcome,
                stop_shutdown_exit_code = code\<rparr>) w of
        (Inl source, w) \<Rightarrow> (ExitFatal (OperationalEvidence (''plugin generation stop '' @ generation_id) source), w)
      | (Inr _, w) \<Rightarrow> (exit, w))"

definition generation_compatibility :: "worker \<Rightarrow> describe_result \<Rightarrow> string" where
  "generation_compatibility wk description =
     worker_compatibility_digest (env_sha256 (wk_env wk))
       (case wc_compatibility_digest (wk_config wk) of Some digest \<Rightarrow> digest | None \<Rightarrow> dr_profile_digest description)
       (wc_mcp_grants (wk_config wk)) (adapter_acceptance (wk_adapter wk))
       (sandbox_profile_digest (wc_plugin (wk_config wk))) (wc_permission_policy (wk_config wk))"

definition generation_record ::
  "worker \<Rightarrow> string \<Rightarrow> plugin_manifest \<Rightarrow> u32 option \<Rightarrow> describe_result \<Rightarrow> new_plugin_generation" where
  "generation_record wk generation_id manifest pid description =
     \<lparr>npg_id = generation_id, npg_agent_id = wc_agent_id (wk_config wk),
      npg_plugin_id = pi_id (pm_plugin manifest), npg_plugin_name = pi_name (pm_plugin manifest),
      npg_plugin_version = pi_version (pm_plugin manifest), npg_interfaces = pm_interfaces manifest,
      npg_process_id = pid, npg_driver_version = dr_driver_version description,
      npg_acp_sdk_version = dr_acp_sdk_version description,
      npg_acp_protocol_version = dr_acp_protocol_version description,
      npg_runtime_name = dr_runtime_name description, npg_runtime_version = dr_runtime_version description,
      npg_runtime_executable_digest = dr_runtime_executable_digest description,
      npg_agent_capabilities = env_encode (wk_env wk) (dr_agent_capabilities description),
      npg_max_concurrent_turns = dr_max_concurrent_turns description,
      npg_max_frame_bytes = dr_max_frame_bytes description, npg_profile_digest = dr_profile_digest description,
      npg_raw_initialize_result = env_encode (wk_env wk) (dr_raw_initialize_result description),
      npg_compatibility_digest = generation_compatibility wk description,
      npg_heartbeat_interval_ms = GENERATION_HEARTBEAT_INTERVAL_MS\<rparr>"

definition counted_generation :: "worker_report \<Rightarrow> worker_report" where
  "counted_generation report = report\<lparr>wr_plugin_generations := saturating_add_u64 (wr_plugin_generations report) 1\<rparr>"

text \<open>A generation from the moment its harness described itself.\<close>

definition run_described ::
  "worker \<Rightarrow> u64 option \<Rightarrow> plugin_manifest \<Rightarrow> u32 option \<Rightarrow> describe_result \<Rightarrow> worker_report \<times> world
    \<Rightarrow> (generation_exit \<times> worker_report \<times> world) option" where
  "run_described wk limit manifest pid description s =
     (let (report, w) = s; env = wk_env wk; generation_id = env_uuid env (w_tick w);
          g = \<lparr>gi_owner_instance_id = generation_id, gi_profile_digest = dr_profile_digest description,
               gi_compatibility_digest = generation_compatibility wk description\<rparr> in
      case transact env generation_id CommittedGeneration (\<lambda>now.
             record_plugin_generation (host_interfaces_json (wk_host wk)) now
               (generation_record wk generation_id manifest pid description)) w of
        (Inl source, w) \<Rightarrow>
          (let (_, w) = process_shutdown (wk_host wk) env w in
           Some (ExitFatal (OperationalEvidence ''plugin generation start'' source), report, w))
      | (Inr _, w) \<Rightarrow>
          Option.bind (drive_generation wk g limit (Map.empty, report, w)) (\<lambda>(exit, report, w).
          (let (exit, w) = stop_generation wk generation_id exit (world_tick env w) in Some (exit, report, w))))"

definition run_generation ::
  "worker \<Rightarrow> u64 option \<Rightarrow> worker_report \<times> world \<Rightarrow> (generation_exit \<times> worker_report \<times> world) option" where
  "run_generation wk limit s =
     (let (report, w) = s; env = wk_env wk in
      case process_start (wk_host wk) env (wc_plugin (wk_config wk)) w of
        (Inl e, w) \<Rightarrow> Some (ExitRestart (''plugin startup failed: '' @ plugin_error_display e), report, w)
      | (Inr (manifest, pid), w) \<Rightarrow>
          (let report = counted_generation report in
           case harness_new manifest of
             Inl e \<Rightarrow>
               Some (ExitRestart (''typed harness negotiation failed: '' @ plugin_error_display e), report,
                 process_gone env w)
           | Inr _ \<Rightarrow>
               (case harness_describe env (w\<lparr>w_turn := None\<rparr>) of
                  (Inl e, w) \<Rightarrow>
                    (let (exit, w) = shutdown_generation wk
                           (ExitRestart (''harness description failed: '' @ plugin_error_display e)) w in
                     Some (exit, report, w))
                | (Inr description, w) \<Rightarrow> run_described wk limit manifest pid description (report, w))))"

section \<open>Generation after generation\<close>

definition counted_restart :: "worker_report \<Rightarrow> worker_report" where
  "counted_restart report = report\<lparr>wr_operational_restarts := saturating_add_u64 (wr_operational_restarts report) 1\<rparr>"

partial_function (option) run_generations ::
  "worker \<Rightarrow> u64 option \<Rightarrow> worker_report \<times> world \<Rightarrow> ((worker_error + worker_report) \<times> world) option" where
  "run_generations wk limit s =
     (if cancelled_now wk (snd s) \<or> limit_reached (fst s) limit then Some (Inr (fst s), snd s)
      else
        Option.bind (run_generation wk limit s) (\<lambda>(exit, s).
          case exit of
            ExitStopped \<Rightarrow> Some (Inr (fst s), snd s)
          | ExitFatal e \<Rightarrow> Some (Inl e, snd s)
          | ExitRestart _ \<Rightarrow>
              if cancelled_now wk (snd s) \<or> limit_reached (fst s) limit then Some (Inr (fst s), snd s)
              else if fst (wait_or_cancel wk (snd s))
              then Some (Inr (counted_restart (fst s)), snd (wait_or_cancel wk (snd s)))
              else run_generations wk limit (counted_restart (fst s), snd (wait_or_cancel wk (snd s)))))"

declare run_generations.simps [code]

definition run_until ::
  "worker \<Rightarrow> u64 option \<Rightarrow> world \<Rightarrow> ((worker_error + worker_report) \<times> world) option" where
  "run_until wk limit w =
     (if limit = Some 0
      then Some (Inl (WorkerInvalidConfig ''maximum settled turns must be greater than zero''), w)
      else run_generations wk limit (default_report, w))"

definition run_worker :: "worker \<Rightarrow> world \<Rightarrow> ((worker_error + worker_report) \<times> world) option" where
  "run_worker wk w = run_until wk None w"

end
