(* ===== verification/Worker_Run.thy ===== *)
theory Worker_Run
  imports Worker Controller_Outcome
begin

text \<open>
  What the worker does to the fleet: the protocol its log keeps, and what its report counts.
\<close>

section \<open>Counting\<close>

definition count_committed :: "committed \<Rightarrow> effect list \<Rightarrow> nat" where
  "count_committed c es = length (filter (\<lambda>e. case e of Committed _ c' \<Rightarrow> c' = c | _ \<Rightarrow> False) es)"

lemma count_committed_simps [simp]:
  "count_committed c [] = 0"
  "count_committed c (es @ fs) = count_committed c es + count_committed c fs"
  "count_committed c (e # es) = (case e of Committed _ c' \<Rightarrow> if c' = c then 1 else 0 | _ \<Rightarrow> 0) + count_committed c es"
  by (auto simp: count_committed_def split: effect.splits)

lemma count_grants [simp]:
  "count_committed c (activations k gs) = 0" "count_committed c (revocations k gs) = 0"
  by (auto simp: count_committed_def activations_def revocations_def filter_empty_conv)

lemma count_decisive:
  "decisive (Committed k c) \<Longrightarrow> count_committed c (filter decisive es) = count_committed c es"
  by (induction es) (auto split: effect.splits)

definition u64_top :: nat where "u64_top = 2 ^ 64 - 1"

lemma unat_le_top: "unat (a :: u64) \<le> u64_top"
proof -
  have "unat a < 2 ^ LENGTH(64)" by (rule unsigned_less)
  then show ?thesis by (simp add: u64_top_def)
qed

lemma min_top [simp]: "min u64_top (unat (a :: u64)) = unat a"
  using unat_le_top by (simp add: min_absorb2)

lemma min_twice [simp]: "min M (min M a + b) = min M (a + b :: nat)" "min M (b + min M a) = min M (b + a)"
  by (simp_all add: min_def)

lemma unat_saturating_add: "unat (saturating_add_u64 a b) = min u64_top (unat a + unat b)"
proof -
  have eq: "uint a + uint b < 2 ^ 64 \<longleftrightarrow> unat a + unat b < 2 ^ 64"
    unfolding uint_nat by (metis of_nat_add of_nat_less_iff of_nat_numeral of_nat_power)
  show ?thesis
  proof (cases "uint a + uint b < 2 ^ 64")
    case True
    then have "unat (a + b) = unat a + unat b" unfolding eq by (intro unat_add_lem [THEN iffD1]) simp
    then show ?thesis using True unat_le_top [of "a + b"]
      by (simp add: saturating_add_u64_def checked_add_u64_def min_absorb2)
  next
    case False
    then have "u64_top \<le> unat a + unat b" unfolding eq by (simp add: u64_top_def)
    moreover have "unat (- 1 :: u64) = u64_top" by (simp add: u64_top_def unsigned_minus_1_eq_mask mask_eq_exp_minus_1)
    ultimately show ?thesis using False by (simp add: saturating_add_u64_def checked_add_u64_def min_absorb1)
  qed
qed

text \<open>
  A report, at both ends of a run that logged the given effects: every counter went up by what was
  committed, unless it is at its top.
\<close>

definition tally :: "worker_report \<Rightarrow> effect list \<Rightarrow> worker_report \<Rightarrow> bool" where
  "tally r es r' \<longleftrightarrow>
     unat (wr_reservations r') = min u64_top (unat (wr_reservations r) + count_committed CommittedReservation es)
     \<and> unat (wr_pre_arm_retries r') = min u64_top (unat (wr_pre_arm_retries r) + count_committed CommittedRetry es)
     \<and> unat (settled_turns r') = min u64_top (unat (settled_turns r) + count_committed CommittedCompletion es
         + count_committed CommittedBlock es)"

lemma tally_refl:
  "count_committed CommittedReservation es = 0 \<Longrightarrow> count_committed CommittedRetry es = 0 \<Longrightarrow>
   count_committed CommittedCompletion es = 0 \<Longrightarrow> count_committed CommittedBlock es = 0 \<Longrightarrow> tally r es r"
  by (simp add: tally_def)

lemma tally_trans: "tally r es r' \<Longrightarrow> tally r' fs r'' \<Longrightarrow> tally r (es @ fs) r''"
  by (simp add: tally_def ac_simps)

lemma settled_eq:
  "unat (settled_turns r) = min u64_top (unat (wr_completed r) + unat (wr_interrupted r) + unat (wr_blocked r))"
  by (simp add: settled_turns_def unat_saturating_add)

lemmas counted_defs = counted_retry_def counted_reservation_def counted_idle_def counted_generation_def
  counted_restart_def counted_completed_def counted_interrupted_def counted_blocked_def

lemma tally_counted:
  "tally r [Committed k CommittedRetry] (counted_retry r)"
  "tally r [Committed k CommittedReservation] (counted_reservation r)"
  "tally r [] (counted_idle r)" "tally r [] (counted_generation r)" "tally r [] (counted_restart r)"
  by (simp_all add: tally_def counted_defs unat_saturating_add settled_eq)

lemma tally_settled:
  assumes "count_committed CommittedReservation es = 0" "count_committed CommittedRetry es = 0"
    "count_committed CommittedCompletion es + count_committed CommittedBlock es = 1"
  shows "tally r es (counted_completed r)" "tally r es (counted_interrupted r)" "tally r es (counted_blocked r)"
proof -
  have one: "n + count_committed CommittedCompletion es + count_committed CommittedBlock es = n + 1" for n
    using assms(3) by linarith
  show "tally r es (counted_completed r)" "tally r es (counted_interrupted r)" "tally r es (counted_blocked r)"
    unfolding tally_def one using assms(1,2)
    by (simp_all add: counted_defs settled_eq unat_saturating_add)
qed

section \<open>A run with its report\<close>

definition advances :: "effect list \<Rightarrow> worker_report \<times> world \<Rightarrow> worker_report \<times> world \<Rightarrow> bool" where
  "advances ks s s' \<longleftrightarrow> proceeds ks (snd s) (snd s') \<and> tally (fst s) ks (fst s')"

lemma goes_on_trans: "advances ks s s' \<Longrightarrow> advances ls s' s'' \<Longrightarrow> advances (ks @ ls) s s''"
  using ran_trans tally_trans by (auto simp: advances_def)

lemma goes_on_refl [simp]: "advances [] s s"
  by (simp add: advances_def tally_refl)

lemma advances_quiet: "advances [] s s' \<Longrightarrow> advances ks s' s'' \<Longrightarrow> advances ks s s''"
  "advances ks s s' \<Longrightarrow> advances [] s' s'' \<Longrightarrow> advances ks s s''"
  using goes_on_trans by fastforce+

lemma advances_world: "proceeds [] w w' \<Longrightarrow> advances [] (report, w) (report, w')"
  by (simp add: advances_def tally_refl)

section \<open>Processes\<close>

lemma ran_rpc: "others_ok env \<Longrightarrow> rpc_call env f w = (r, w') \<Longrightarrow> proceeds [] w w'"
  using ran_tick by (auto simp: rpc_call_def Let_def)

lemma ran_gone: "others_ok env \<Longrightarrow> proceeds [ProcessEnded] w (process_gone env w)"
  using ran_then [OF ran_tick ran_emit [of ProcessEnded]] by (simp add: process_gone_def)

lemma ran_health: "others_ok env \<Longrightarrow> check_health host env w = (r, w') \<Longrightarrow> proceeds [] w w'"
  using ran_rpc by (fastforce simp: check_health_def split: prod.splits)

lemma ran_initialize:
  assumes "others_ok env" and "initialize host env spec w = (r, w')"
  shows "proceeds [] w w'"
proof -
  obtain a w1 where a: "rpc_call env (\<lambda>n. host_initialize host n spec) w = (a, w1)" by fastforce
  have one: "proceeds [] w w1" by (rule ran_rpc [OF assms(1) a])
  have two: "check_health host env w1 = (r2, w2) \<Longrightarrow> proceeds [] w w2" for r2 w2
    using ran_then [OF one ran_health [OF assms(1)]] .
  show ?thesis
    using assms(2) a one two by (auto simp: initialize_def Let_def split: sum.splits prod.splits)
qed

lemma ran_process_start:
  assumes "others_ok env" and "process_start host env spec w = (r, w')"
  shows "case r of Inl _ \<Rightarrow> proceeds [] w w' \<or> proceeds [ProcessStarted, ProcessEnded] w w'
    | Inr _ \<Rightarrow> proceeds [ProcessStarted] w w'"
proof -
  let ?w = "emit ProcessStarted (world_tick env w)"
  have tick: "proceeds [] w (world_tick env w)" by (rule ran_tick [OF assms(1)])
  have started: "proceeds [ProcessStarted] w ?w"
    using ran_then [OF tick ran_emit [of ProcessStarted]] by simp
  have init: "proceeds [ProcessStarted] w v" if "initialize host env spec ?w = (a, v)" for a v
    by (rule ran_quiet [OF started ran_initialize [OF assms(1) that]])
  have gone: "proceeds [ProcessStarted, ProcessEnded] w (process_gone env v)" if "initialize host env spec ?w = (a, v)" for a v
    using ran_trans [OF init [OF that] ran_gone [OF assms(1)]] by simp
  show ?thesis
    using assms(2) tick init gone
    by (auto simp: process_start_def Let_def split: sum.splits prod.splits)
qed

lemma ran_process_shutdown:
  assumes "others_ok env" and "process_shutdown host env w = (r, w')"
  shows "proceeds [ProcessEnded] w w'"
proof -
  obtain a w1 where a: "rpc_call env (host_shutdown host) w = (a, w1)" by fastforce
  have one: "proceeds [] w w1" by (rule ran_rpc [OF assms(1) a])
  have now: "proceeds [ProcessEnded] w (process_gone env w1)" by (rule ran_then [OF one ran_gone [OF assms(1)]])
  have later: "proceeds [ProcessEnded] w (process_gone env (world_tick env w1))"
    by (rule ran_then [OF ran_then [OF one ran_tick [OF assms(1)]] ran_gone [OF assms(1)]])
  show ?thesis
    using assms(2) a now later by (auto simp: process_shutdown_def Let_def split: sum.splits option.splits if_splits)
qed

section \<open>Before dispatch\<close>

text \<open>The draws of lease tokens are fresh, as those of a random UUID.\<close>

definition tokens_fresh :: "host \<Rightarrow> bool" where
  "tokens_fresh host \<longleftrightarrow> (\<forall>n d. token_fresh (host_lease_token host n d) d)"

definition worker_ok :: "worker \<Rightarrow> bool" where
  "worker_ok wk \<longleftrightarrow> others_ok (wk_env wk) \<and> tokens_fresh (wk_host wk)"

lemma worker_okD: "worker_ok wk \<Longrightarrow> others_ok (wk_env wk)"
  by (simp add: worker_ok_def)

lemma ran_reading: "worker_ok wk \<Longrightarrow> reading wk f w = (r, w') \<Longrightarrow> proceeds [] w w'"
  using ran_tick [OF worker_okD] by (auto simp: reading_def Let_def)

lemma ran_wait: "worker_ok wk \<Longrightarrow> proceeds [] w (snd (wait_or_cancel wk w))"
  using ran_tick [OF worker_okD] by (auto simp: wait_or_cancel_def Let_def)

definition released :: "string \<Rightarrow> bool \<Rightarrow> effect list" where
  "released k ok = (if ok then [Committed k CommittedRetry] else [])"

lemma ran_retry_unarmed:
  assumes "worker_ok wk" and "retry_unarmed wk i context n w = (r, w')"
  shows "proceeds (released (inv_id i) (\<not> isl r)) w w'"
proof -
  obtain a w1 where t: "transact (wk_env wk) (inv_id i) CommittedRetry (\<lambda>now.
      retry_delivery now (inv_agent_id i) (msg_id (inv_message i))
        \<lparr>retry_lease_token = inv_lease_token i, retry_after_ms = n, retry_error = Some (bounded_reason context)\<rparr>) w
      = (a, w1)" by fastforce
  have "proceeds (if decisive (Committed (inv_id i) CommittedRetry) \<and> \<not> isl a
      then [Committed (inv_id i) CommittedRetry] else []) w w1"
    by (rule ran_transact [OF worker_okD [OF assms(1)] _ t]) (rule fleet_step.delivery_retried)
  then show ?thesis
    using assms(2) t by (auto simp: retry_unarmed_def released_def split: sum.splits)
qed

lemma advances_release:
  assumes "worker_ok wk" and "release_or_exit wk i reason s = (r, s')"
  shows "advances (released (inv_id i) (\<not> isl r)) s s'"
proof -
  obtain report w where s: "s = (report, w)" by fastforce
  obtain a w1 where t: "retry_unarmed wk i reason (validated_ms (wc_pre_arm_retry_delay (wk_config wk))) w = (a, w1)"
    by fastforce
  show ?thesis
    using assms(2) t ran_retry_unarmed [OF assms(1) t] s
    by (cases a) (auto simp: release_or_exit_def retry_before_arm_def advances_def released_def tally_refl tally_counted)
qed

lemma advances_release_exit:
  assumes "worker_ok wk" and "release_and_exit wk i reason exit s = (r, s')"
  shows "\<exists>ok. advances (released (inv_id i) ok) s s' \<and> (\<not> ok \<longrightarrow> (\<exists>e. r = ExitFatal e))"
proof -
  obtain a s1 where a: "release_or_exit wk i reason s = (a, s1)" by (rule prod.exhaust)
  have fatal: "isl a \<Longrightarrow> \<exists>e. a = Inl (ExitFatal e)"
    using a by (auto simp: release_or_exit_def split: prod.splits sum.splits)
  show ?thesis
    using assms(2) a advances_release [OF assms(1) a] fatal
    by (cases a) (force simp: release_and_exit_def)+
qed

lemma advances_stop_unarmed:
  assumes "worker_ok wk" and "stop_unarmed wk i s = (r, s')"
  shows "\<exists>ok. advances (released (inv_id i) ok) s s' \<and> (\<not> ok \<longrightarrow> (\<exists>e. r = ExitFatal e))"
proof -
  obtain report w where s: "s = (report, w)" by fastforce
  obtain a w1 where t: "retry_unarmed wk i ''worker cancelled before dispatch'' 0 w = (a, w1)" by fastforce
  show ?thesis
    using assms(2) t ran_retry_unarmed [OF assms(1) t] s
    by (intro exI [of _ "\<not> isl a"], cases a)
      (auto simp: stop_unarmed_def advances_def released_def tally_refl tally_counted)
qed

lemma ran_context:
  assumes "worker_ok wk" and "channel_turn_context_read wk i w = (r, w')"
  shows "proceeds [] w w'"
proof -
  obtain a w1 where a: "reading wk (list_channel_members (msg_channel_id (inv_message i))) w = (a, w1)" by fastforce
  have one: "proceeds [] w w1" by (rule ran_reading [OF assms(1) a])
  have two: "reading wk f w1 = (b, w2) \<Longrightarrow> proceeds [] w w2" for b w2 and f :: "db \<Rightarrow> message list result"
    using ran_then [OF one ran_reading [OF assms(1)]] .
  show ?thesis
    using assms(2) a one two by (auto simp: channel_turn_context_read_def Let_def split: sum.splits prod.splits)
qed

lemma advances_prepare:
  assumes "worker_ok wk" and "prepare_reserved wk i s = (r, s')"
  shows "case r of Inr _ \<Rightarrow> advances [] s s'
    | Inl exit \<Rightarrow> \<exists>ok. advances (released (inv_id i) ok) s s' \<and> (\<not> ok \<longrightarrow> (\<exists>e. exit = ExitFatal e))"
proof -
  obtain report w where s: "s = (report, w)" by fastforce
  obtain c w1 where c: "channel_turn_context_read wk i w = (c, w1)" by fastforce
  have one: "advances [] s (report, w1)" unfolding s by (rule advances_world [OF ran_context [OF assms(1) c]])
  have two: "\<exists>ok. advances (released (inv_id i) ok) s s2 \<and> (\<not> ok \<longrightarrow> (\<exists>e. x = ExitFatal e))"
    if "release_and_exit wk i reason exit (report, w1) = (x, s2)" for reason exit x s2
    using advances_release_exit [OF assms(1) that] advances_quiet(1) [OF one] by blast
  show ?thesis
    using assms(2) c s one
    by (auto simp: prepare_reserved_def Let_def split: sum.splits prod.splits dest!: two)
qed

section \<open>Sessions and turns\<close>

lemma ran_open_lane:
  assumes "worker_ok wk" and "open_lane wk i l g w = (r, w')"
  shows "proceeds [] w w'"
proof -
  note others = worker_okD [OF assms(1)]
  obtain a w1 where a: "transact (wk_env wk) (inv_id i) CommittedAcquisition (\<lambda>now.
      acquire_session_binding (env_uuid (wk_env wk) (w_tick w)) now (inv_agent_id i) (lane_acquisition wk l g)) w = (a, w1)"
    by fastforce
  have one: "proceeds [] w w1"
    using ran_transact [OF others _ a] fleet_step.session_acquired by (auto split: if_splits)
  have two: "proceeds [] w v" if "harness_open_session (wk_env wk) q w1 = (b, v)" for q b v
    by (rule ran_then [OF one ran_harness(2) [OF others that]])
  have three: "proceeds [] v u" if "transact (wk_env wk) (inv_id i) CommittedOpened (\<lambda>now.
      record_session_opened now (inv_agent_id i) b x) v = (c, u)" for b x v c u
    using ran_transact [OF others _ that] fleet_step.session_opened by (auto split: if_splits)
  show ?thesis
    using assms(2) a one two
    by (auto simp: open_lane_def Let_def split: sum.splits prod.splits intro: ran_then [OF two three])
qed

lemma ran_rotate:
  assumes "worker_ok wk" and "rotate_interrupted_lane wk k l x w = (r, w')"
  shows "proceeds [] w w'"
proof -
  note others = worker_okD [OF assms(1)]
  obtain a w1 where a: "transact (wk_env wk) k CommittedRetirement (\<lambda>now.
      retire_session_binding now (wc_agent_id (wk_config wk)) (opened_binding x) ROTATE_REASON) w = (a, w1)" by fastforce
  have one: "proceeds [] w w1"
    using ran_transact [OF others _ a] fleet_step.session_retired by (auto split: if_splits)
  have two: "proceeds [] w v" if "harness_close_session (wk_env wk) q w1 = (b, v)" for q b v
    by (rule ran_then [OF one ran_harness(5) [OF others that]])
  show ?thesis
    using assms(2) a one two by (auto simp: rotate_interrupted_lane_def Let_def split: sum.splits prod.splits if_splits)
qed

text \<open>
  What may follow the reservation of an invocation: it is settled and the loop goes on, or the
  worker leaves the generation.
\<close>

definition settles :: "nat list \<Rightarrow> string \<Rightarrow> effect list \<Rightarrow> bool" where
  "settles gs k p \<longleftrightarrow> p = [Committed k CommittedRetry] \<or> (\<exists>q. turn_protocol k gs q p EndCompleted)"

definition leaves :: "nat list \<Rightarrow> string \<Rightarrow> effect list \<Rightarrow> bool" where
  "leaves gs k p \<longleftrightarrow> p = [Committed k CommittedRetry] \<or> (\<exists>q e. turn_protocol k gs q p e)"

lemma leaves_released: "leaves gs k (released k ok)"
  by (auto simp: leaves_def released_def intro: turn_protocol.refused)

lemma parking_counts:
  assumes "parking k e p"
  shows "count_committed CommittedReservation p = 0" "count_committed CommittedRetry p = 0"
    "count_committed CommittedCompletion p = 0"
    "count_committed CommittedBlock p = (if e = EndBlocked then 1 else 0)" "e \<noteq> EndCompleted" "e \<noteq> EndRefused"
  using assms by (cases; simp)+

lemma turn_counts:
  assumes "turn_protocol k gs q p e"
  shows "count_committed CommittedReservation p = 0" "count_committed CommittedRetry p = 0"
    "count_committed CommittedCompletion p + count_committed CommittedBlock p
      = (if e = EndBlocked \<or> e = EndCompleted then 1 else 0)"
  using assms by (cases; auto simp: parking_counts)+

lemma turn_refused: "turn_protocol k gs q p EndRefused \<Longrightarrow> p = []"
  by (cases rule: turn_protocol.cases) (auto dest: parking_counts)

lemma leaves_counts:
  assumes "leaves gs k p"
  shows "count_committed CommittedReservation p = 0"
    "count_committed CommittedCompletion p + count_committed CommittedBlock p \<le> 1"
  using assms turn_counts by (fastforce simp: leaves_def split: if_splits)+

lemma settles_leaves: "settles gs k p \<Longrightarrow> leaves gs k p"
  by (auto simp: settles_def leaves_def)

text \<open>What a finished turn makes the worker do.\<close>

lemma advances_settled:
  assumes "worker_ok wk" and "turn_settled wk i l x result (report, w) = (control, s')"
    and "turn_protocol (inv_id i) gs q ks e" and "ends result e"
    and "proceeds ks w0 w"
  shows "\<exists>p. advances p (report, w0) s' \<and>
    (case control of Exit _ \<Rightarrow> leaves gs (inv_id i) p | _ \<Rightarrow> settles gs (inv_id i) p)"
proof -
  note counts = turn_counts [OF assms(3)]
  have turn: "leaves gs (inv_id i) ks" and finished: "e = EndCompleted \<Longrightarrow> settles gs (inv_id i) ks"
    using assms(3) by (auto simp: leaves_def settles_def)
  have failed: "advances ks (report, w0) (report, w)" if "e \<noteq> EndBlocked" "e \<noteq> EndCompleted"
    using assms(5) counts that by (simp add: advances_def tally_refl)
  have counted: "advances ks (report, w0) (counted_completed report, w)"
    "advances ks (report, w0) (counted_interrupted report, w)" "advances ks (report, w0) (counted_blocked report, w)"
    if "e = EndBlocked \<or> e = EndCompleted"
    using assms(5) counts that by (simp_all add: advances_def tally_settled)
  have rotated: "advances ks (report, w0) (counted_interrupted report, v)"
    if "e = EndCompleted" "rotate_interrupted_lane wk (inv_id i) l x w = (c, v)" for c v
    using counted(2) that ran_quiet [OF assms(5) ran_rotate [OF assms(1) that(2)]] by (simp add: advances_def)
  have after: "\<exists>p. advances p (report, w0) s2 \<and> leaves gs (inv_id i) p"
    if r: "release_and_exit wk i reason y (report, w) = (z, s2)" and refused: "e = EndRefused" for reason y z s2
  proof -
    obtain ok where "advances (released (inv_id i) ok) (report, w) s2"
      using advances_release_exit [OF assms(1) r] by blast
    then have "advances (released (inv_id i) ok) (report, w0) s2"
      using failed turn_refused assms(3) refused advances_quiet(1) by fastforce
    then show ?thesis using leaves_released by blast
  qed
  show ?thesis
  proof (cases result)
    case (Inl error)
    then show ?thesis
      using assms(2,4) failed turn
      by (cases error; auto simp: turn_settled_def managed_error_def Let_def split: prod.splits dest!: after; blast)
  next
    case (Inr outcome)
    have both: "case c of Exit _ \<Rightarrow> leaves gs (inv_id i) ks | _ \<Rightarrow> settles gs (inv_id i) ks" if "e = EndCompleted" for c
      using turn finished that by (cases c) simp_all
    show ?thesis
    proof (cases outcome)
      case (OutcomeCompleted c)
      then show ?thesis using assms(2,4) Inr counted(1) both [of control] by (auto simp: turn_settled_def)
    next
      case (OutcomeInterrupted c why)
      have e: "e = EndCompleted" using assms(4) Inr OutcomeInterrupted by simp
      have "advances ks (report, w0) s'"
        using assms(2) Inr OutcomeInterrupted counted(2) rotated [OF e] e
        by (cases why) (auto simp: turn_settled_def Let_def split: prod.splits)
      then show ?thesis using both [OF e, of control] by blast
    next
      case (OutcomeBlocked x)
      then show ?thesis using assms(2,4) Inr counted(3) turn by (auto simp: turn_settled_def)
    qed
  qed
qed

lemma managed_turn_of_simps [simp]:
  "mt_invocation (managed_turn_of wk i prepared x g n) = i"
  "mt_grants (managed_turn_of wk i prepared x g n) = map tg_authority (wc_turn_grants (wk_config wk))"
  by (simp_all add: managed_turn_of_def)

abbreviation grants_of :: "worker \<Rightarrow> nat list" where
  "grants_of wk \<equiv> map tg_authority (wc_turn_grants (wk_config wk))"

lemma advances_execute:
  assumes "worker_ok wk" and "execute_turn wk i prepared l x g s = Some (control, s')"
  shows "\<exists>p. advances p s s' \<and>
    (case control of Exit _ \<Rightarrow> leaves (grants_of wk) (inv_id i) p | _ \<Rightarrow> settles (grants_of wk) (inv_id i) p)"
proof -
  obtain report w where s: "s = (report, w)" by fastforce
  obtain a w1 where a: "reading wk (latest_channel_message_seq (msg_channel_id (inv_message i))) w = (a, w1)" by fastforce
  have one: "proceeds [] w w1" by (rule ran_reading [OF assms(1) a])
  show ?thesis
  proof (cases a)
    case (Inl e)
    let ?reason = "''turn interruption baseline could not be read: '' @ fleet_error_display (env_detail (wk_env wk)) e"
    obtain y s2 where y: "release_and_exit wk i ?reason (ExitRestart ?reason) (report, w1) = (y, s2)" by (rule prod.exhaust)
    obtain ok where "advances (released (inv_id i) ok) (report, w1) s2"
      using advances_release_exit [OF assms(1) y] by blast
    then have "advances (released (inv_id i) ok) s s2" using advances_quiet(1) [OF advances_world [OF one]] s by simp
    then show ?thesis
      using assms(2) s a Inl y leaves_released by (auto simp: execute_turn_def Let_def)
  next
    case (Inr after)
    obtain result w2 where run: "run_turn (wk_env wk) (managed_turn_of wk i prepared x g after) w1 = Some (result, w2)"
      and fin: "turn_settled wk i l x result (report, w2) = (control, s')"
      using assms(2) s a Inr by (auto simp: execute_turn_def bind_eq_Some_conv)
    obtain ks e where ks: "proceeds ks w1 w2" "ends result e"
      "\<exists>q. turn_protocol (inv_id i) (grants_of wk) q ks e"
      using run_turn_proceeds [OF worker_okD [OF assms(1)] run, unfolded managed_turn_of_simps] by blast
    then obtain q where "turn_protocol (inv_id i) (grants_of wk) q ks e" by blast
    from advances_settled [OF assms(1) fin this ks(2) ran_then [OF one ks(1)]] show ?thesis unfolding s .
  qed
qed

lemma advances_resolve:
  assumes "worker_ok wk" and "resolve_lane wk i l g sessions s = (r, sessions', s')"
  shows "case r of Inr (Some _) \<Rightarrow> advances [] s s'
    | Inr None \<Rightarrow> advances [Committed (inv_id i) CommittedRetry] s s'
    | Inl _ \<Rightarrow> \<exists>ok. advances (released (inv_id i) ok) s s'"
proof -
  obtain report w where s: "s = (report, w)" by fastforce
  show ?thesis
  proof (cases "sessions l")
    case (Some x)
    then show ?thesis using assms(2) s by (auto simp: resolve_lane_def)
  next
    case None
    obtain a w1 where a: "open_lane wk i l g w = (a, w1)" by fastforce
    have one: "advances [] s (report, w1)" unfolding s by (rule advances_world [OF ran_open_lane [OF assms(1) a]])
    show ?thesis
    proof (cases a)
      case (Inr x)
      then show ?thesis using assms(2) s None a one by (auto simp: resolve_lane_def)
    next
      case (Inl e)
      let ?reason = "''session acquisition failed before arm: '' @ lane_open_error_display (wk_env wk) e"
      obtain b s2 where b: "release_or_exit wk i ?reason (report, w1) = (b, s2)" by (rule prod.exhaust)
      have "advances (released (inv_id i) (\<not> isl b)) s s2"
        by (rule advances_quiet(1) [OF one advances_release [OF assms(1) b]])
      then show ?thesis
        using assms(2) s None a Inl b
        by (cases b) (auto simp: resolve_lane_def Let_def released_def split: if_splits)
    qed
  qed
qed

section \<open>One generation\<close>

text \<open>What a served reservation logged, by whether the worker left.\<close>

definition served :: "nat list \<Rightarrow> string \<Rightarrow> generation_exit + unit \<Rightarrow> effect list \<Rightarrow> bool" where
  "served gs k r p \<longleftrightarrow> (case r of Inl _ \<Rightarrow> leaves gs k p | Inr _ \<Rightarrow> settles gs k p)"

lemma advances_serve:
  assumes "worker_ok wk" and "serve_reserved wk g i (sessions, s) = Some (r, sessions', s')"
  shows "\<exists>p. advances p s s' \<and> served (grants_of wk) (inv_id i) r p"
proof -
  let ?gs = "grants_of wk" and ?k = "inv_id i"
  obtain a s1 where a: "prepare_reserved wk i s = (a, s1)" by (rule prod.exhaust)
  note one = advances_prepare [OF assms(1) a]
  have stopped: "\<exists>p. advances p s s3 \<and> leaves ?gs ?k p" if q: "advances [] s s2" and "stop_unarmed wk i s2 = (x, s3)" for s2 x s3
    using advances_stop_unarmed [OF assms(1) that(2)] advances_quiet(1) [OF q] leaves_released by blast
  show ?thesis
  proof (cases a)
    case (Inl exit)
    then show ?thesis
      using assms(2) a one leaves_released by (auto simp: serve_reserved_def served_def)
  next
    case (Inr prepared)
    then have q: "advances [] s s1" using one by simp
    show ?thesis
    proof (cases "cancelled_now wk (snd s1)")
      case True
      then show ?thesis
        using assms(2) a Inr stopped [OF q] by (auto simp: serve_reserved_def served_def Let_def split: prod.splits)
    next
      case False
      let ?l = "\<lparr>lane_policy = pt_lane_policy prepared, lane_key = pt_lane_key prepared\<rparr>"
      obtain b sessions2 s2 where b: "resolve_lane wk i ?l g sessions s1 = (b, sessions2, s2)" by (metis surj_pair)
      note two = advances_resolve [OF assms(1) b]
      show ?thesis
      proof (cases b)
        case left: (Inl exit)
        then obtain ok where "advances (released ?k ok) s1 s2" using two by auto
        then have "advances (released ?k ok) s s2" by (rule advances_quiet(1) [OF q])
        then show ?thesis
          using assms(2) a Inr False b left leaves_released by (auto simp: serve_reserved_def served_def Let_def)
      next
        case right: (Inr x)
        show ?thesis
        proof (cases x)
          case None
          then have "advances [Committed ?k CommittedRetry] s s2" using two right advances_quiet(1) [OF q] by simp
          then show ?thesis
            using assms(2) a Inr False b right None by (auto simp: serve_reserved_def served_def settles_def Let_def)
        next
          case (Some y)
          then have q2: "advances [] s s2" using two right advances_quiet(1) [OF q] by simp
          show ?thesis
          proof (cases "cancelled_now wk (snd s2)")
            case True
            then show ?thesis
              using assms(2) a Inr False b right Some stopped [OF q2]
              by (auto simp: serve_reserved_def served_def Let_def split: prod.splits)
          next
            case running: False
            let ?f = "\<lambda>(control, s). case control of Continue \<Rightarrow> (Inr (), sessions2, s)
              | ForgetLane l \<Rightarrow> (Inr (), sessions2(l := None), s) | Exit exit \<Rightarrow> (Inl exit, sessions2, s)"
            have "map_option ?f (execute_turn wk i prepared ?l y g s2) = Some (r, sessions', s')"
              using assms(2) a Inr False b right Some running by (simp add: serve_reserved_def Let_def)
            then obtain z where z: "execute_turn wk i prepared ?l y g s2 = Some z" "?f z = (r, sessions', s')"
              by (auto simp del: split_paired_Ex)
            obtain control s3 where zz: "z = (control, s3)" by (rule prod.exhaust)
            then have s3: "s3 = s'" and r: "r = (case control of Exit exit \<Rightarrow> Inl exit | _ \<Rightarrow> Inr ())"
              using z(2) by (cases control; simp)+
            have ex: "execute_turn wk i prepared ?l y g s2 = Some (control, s')" using z(1) zz s3 by simp
            from advances_execute [OF assms(1) ex] obtain p where p: "advances p s2 s'"
              "case control of Exit _ \<Rightarrow> leaves ?gs ?k p | _ \<Rightarrow> settles ?gs ?k p" by blast
            have "served ?gs ?k r p" using p(2) r by (cases control) (simp_all add: served_def)
            with advances_quiet(1) [OF q2 p(1)] show ?thesis by blast
          qed
        qed
      qed
    qed
  qed
qed

lemma ran_reserve:
  assumes "worker_ok wk" and "reserve_next wk w = (r, w')"
  shows "proceeds (case r of Inr (Some i) \<Rightarrow> [Committed (inv_id i) CommittedReservation] | _ \<Rightarrow> []) w w'"
    and "w_tick w < w_tick w'"
proof -
  let ?t = "world_tick (wk_env wk) w"
  have tick: "proceeds [] w ?t" by (rule ran_tick [OF worker_okD [OF assms(1)]])
  have step: "proceeds [] w (?t\<lparr>w_db := d\<rparr>)" if "fleet_step (w_db ?t) d" for d
    by (rule ran_then [OF tick]) (use that in \<open>auto simp: proceeds_def\<close>)
  have fresh: "token_fresh (host_lease_token (wk_host wk) n d) d" for n d
    using assms(1) by (simp add: worker_ok_def tokens_fresh_def)
  have emitted: "proceeds [Committed k CommittedReservation] w (emit (Committed k CommittedReservation) (?t\<lparr>w_db := d\<rparr>))"
    if "fleet_step (w_db ?t) d" for k d
    using ran_then [OF step [OF that] ran_emit [of "Committed k CommittedReservation"]] by simp
  show "proceeds (case r of Inr (Some i) \<Rightarrow> [Committed (inv_id i) CommittedReservation] | _ \<Rightarrow> []) w w'"
    using assms(2) tick step emitted fleet_step.kinds_reserved [OF fresh]
    by (auto simp: reserve_next_def Let_def split: sum.splits prod.splits list.splits)
  show "w_tick w < w_tick w'"
    using assms(2) by (auto simp: reserve_next_def Let_def split: sum.splits prod.splits list.splits)
qed

text \<open>One round: nothing, or one reservation and what became of it.\<close>

definition round :: "nat list \<Rightarrow> generation_exit + unit \<Rightarrow> effect list \<Rightarrow> bool" where
  "round gs r ks \<longleftrightarrow> ks = [] \<or> (\<exists>k p. ks = Committed k CommittedReservation # p \<and> served gs k r p)"

lemma advances_drive_step:
  assumes "worker_ok wk" and "drive_step wk g limit (sessions, s) = Some (r, sessions', s')"
  shows "\<exists>ks. advances ks s s' \<and> round (grants_of wk) r ks"
proof -
  obtain report w where s: "s = (report, w)" by fastforce
  show ?thesis
  proof (cases "cancelled_now wk w \<or> limit_reached report limit")
    case True
    then have "s' = s" using assms(2) s by (auto simp: drive_step_def)
    then show ?thesis by (intro exI [of _ "[]"]) (simp add: round_def)
  next
    case False
    obtain a w1 where a: "reserve_next wk w = (a, w1)" by fastforce
    note res = ran_reserve(1) [OF assms(1) a]
    show ?thesis
    proof (cases a)
      case (Inl e)
      then show ?thesis
        using assms(2) s False a res advances_world by (auto simp: drive_step_def round_def)
    next
      case (Inr x)
      show ?thesis
      proof (cases x)
        case None
        have "proceeds [] w (snd (wait_or_cancel wk w1))"
          using ran_then [OF _ ran_wait [OF assms(1)]] res Inr None by auto
        then have "advances [] s (counted_idle report, snd (wait_or_cancel wk w1))"
          by (simp add: s advances_def tally_counted)
        then show ?thesis
          using assms(2) s False a Inr None by (auto simp: drive_step_def round_def Let_def split: prod.splits)
      next
        case (Some i)
        have "advances [Committed (inv_id i) CommittedReservation] s (counted_reservation report, w1)"
          using res Inr Some s by (simp add: advances_def tally_counted)
        moreover from assms(2) s False a Inr Some
        have serve: "serve_reserved wk g i (sessions, counted_reservation report, w1) = Some (r, sessions', s')"
          by (simp add: drive_step_def)
        from advances_serve [OF assms(1) serve] obtain p where
          p: "advances p (counted_reservation report, w1) s'" "served (grants_of wk) (inv_id i) r p" by blast
        ultimately have "advances ([Committed (inv_id i) CommittedReservation] @ p) s s'"
          using goes_on_trans by blast
        then show ?thesis using p(2) unfolding round_def append_Cons append_Nil by blast
      qed
    qed
  qed
qed

inductive generation_work :: "nat list \<Rightarrow> effect list \<Rightarrow> bool" for gs where
  idle: "generation_work gs []"
| more: "settles gs k p \<Longrightarrow> generation_work gs es \<Longrightarrow>
    generation_work gs (Committed k CommittedReservation # p @ es)"
| leave: "leaves gs k p \<Longrightarrow> generation_work gs (Committed k CommittedReservation # p)"

lemma round_work:
  "round gs (Inl exit) ks \<Longrightarrow> generation_work gs ks"
  "round gs (Inr u) ks \<Longrightarrow> generation_work gs es \<Longrightarrow> generation_work gs (ks @ es)"
  by (auto simp: round_def served_def intro: generation_work.intros)

lemma drive_induct [consumes 1, case_names exit step]:
  assumes "drive_generation wk g limit st = Some (x, s')"
    and "\<And>st x st'. drive_step wk g limit st = Some (Inl x, st') \<Longrightarrow> P st x (snd st')"
    and "\<And>st u st' x s'. drive_step wk g limit st = Some (Inr u, st') \<Longrightarrow> P st' x s' \<Longrightarrow> P st x s'"
  shows "P st x s'"
proof -
  let ?P = "\<lambda>v h n t y. v = wk \<longrightarrow> h = g \<longrightarrow> n = limit \<longrightarrow> P t (fst y) (snd y)"
  have "?P wk g limit st (x, s')"
  proof (rule drive_generation.raw_induct [of ?P, OF _ assms(1)], intro impI)
    fix f v h n t y
    assume IH: "\<And>v h n t y. f v h n t = Some y \<Longrightarrow> ?P v h n t y"
      and eq: "Option.bind (drive_step v h n t)
        (\<lambda>(r, st). case r of Inl exit \<Rightarrow> Some (exit, snd st) | Inr _ \<Rightarrow> f v h n st) = Some y"
      and same: "v = wk" "h = g" "n = limit"
    obtain z where z: "drive_step wk g limit t = Some z" using eq same by (cases "drive_step wk g limit t") auto
    obtain r t' where r: "z = (r, t')" by (rule prod.exhaust)
    show "P t (fst y) (snd y)"
    proof (cases r)
      case (Inl e)
      then show ?thesis using eq same z r assms(2) [of t e t'] by auto
    next
      case (Inr u)
      then have "f wk g limit t' = Some y" using eq same z r by simp
      from IH [OF this] show ?thesis using assms(3) [of t u t'] z r Inr by simp
    qed
  qed
  then show ?thesis by simp
qed

lemma advances_drive:
  assumes "worker_ok wk" and "drive_generation wk g limit st = Some (x, s')"
  shows "\<exists>ks. advances ks (snd st) s' \<and> generation_work (grants_of wk) ks"
  using assms(2)
proof (induction rule: drive_induct)
  case (exit st x st')
  from advances_drive_step [OF assms(1), of g limit "fst st" "snd st" "Inl x" "fst st'" "snd st'"] exit
  show ?case using round_work(1) by fastforce
next
  case (step st u st' x s')
  from advances_drive_step [OF assms(1), of g limit "fst st" "snd st" "Inr u" "fst st'" "snd st'"] step(1)
  obtain ks where "advances ks (snd st) (snd st')" "round (grants_of wk) (Inr u) ks" by auto
  with step.IH show ?case using goes_on_trans round_work(2) by blast
qed

section \<open>Generation after generation\<close>

text \<open>
  The log of one generation: its process could not be started, or died again at once, or ran; then
  the record of the generation precedes all of its work, its process is gone before the record of its
  end, and that record is there unless the worker failed to write it.
\<close>

inductive generation_log :: "nat list \<Rightarrow> bool \<Rightarrow> effect list \<Rightarrow> bool" for gs where
  unstarted: "generation_log gs True []"
| unready: "generation_log gs True [ProcessStarted, ProcessEnded]"
| drove: "generation_work gs ks \<Longrightarrow>
    generation_log gs recorded (ProcessStarted # Committed g CommittedGeneration # ks @ ProcessEnded
      # (if recorded then [Committed g CommittedStop] else []))"

inductive worker_log :: "nat list \<Rightarrow> effect list \<Rightarrow> bool" for gs where
  none: "worker_log gs []"
| last_generation: "generation_log gs recorded ks \<Longrightarrow> worker_log gs ks"
| restarted: "generation_log gs True ks \<Longrightarrow> worker_log gs ls \<Longrightarrow> worker_log gs (ks @ ls)"

lemma ran_stop_generation:
  assumes "worker_ok wk" and "stop_generation wk g exit w = (r, w')"
  shows "\<exists>recorded. proceeds (ProcessEnded # (if recorded then [Committed g CommittedStop] else [])) w w'
    \<and> (\<not> recorded \<longrightarrow> (\<exists>e. r = ExitFatal e))"
proof -
  note others = worker_okD [OF assms(1)]
  let ?w = "if env_sink (wk_env wk) then world_tick (wk_env wk) w else w"
  have flush: "proceeds [] w ?w" using ran_tick [OF others] by simp
  obtain a w1 where a: "process_shutdown (wk_host wk) (wk_env wk) ?w = (a, w1)" by fastforce
  have down: "proceeds [ProcessEnded] w w1" by (rule ran_then [OF flush ran_process_shutdown [OF others a]])
  have stop: "proceeds (if isl b then [] else [Committed g CommittedStop]) w1 v"
    if "transact (wk_env wk) g CommittedStop (\<lambda>now. stop_plugin_generation now g x) w1 = (b, v)" for x b v
    using ran_transact [OF others _ that] fleet_step.generation_stopped by (auto split: if_splits)
  have both: "proceeds (ProcessEnded # (if \<not> isl b then [Committed g CommittedStop] else [])) w v"
    if "transact (wk_env wk) g CommittedStop (\<lambda>now. stop_plugin_generation now g x) w1 = (b, v)" for x b v
    using ran_trans [OF down stop [OF that]] by (simp split: if_splits)
  obtain x b v where t: "transact (wk_env wk) g CommittedStop (\<lambda>now. stop_plugin_generation now g x) w1 = (b, v)"
    and r: "(r, w') = (case b of Inl e \<Rightarrow> (ExitFatal (OperationalEvidence (''plugin generation stop '' @ g) e), v)
      | Inr _ \<Rightarrow> (exit, v))"
    using assms(2) a by (auto simp: stop_generation_def Let_def split: prod.splits sum.splits)
  show ?thesis
    using both [OF t] r by (intro exI [of _ "\<not> isl b"]) (auto split: sum.splits)
qed

lemma advances_described:
  assumes "worker_ok wk" and "run_described wk limit manifest pid description (report, w) = Some (exit, s')"
    and "proceeds [ProcessStarted] w0 w"
  shows "\<exists>ks recorded. advances ks (report, w0) s' \<and> generation_log (grants_of wk) recorded ks
    \<and> (\<not> recorded \<longrightarrow> (\<exists>e. exit = ExitFatal e))"
proof -
  note others = worker_okD [OF assms(1)]
  let ?g = "env_uuid (wk_env wk) (w_tick w)"
  obtain a w1 where a: "transact (wk_env wk) ?g CommittedGeneration (\<lambda>now.
      record_plugin_generation (host_interfaces_json (wk_host wk)) now
        (generation_record wk ?g manifest pid description)) w = (a, w1)" by fastforce
  have rec: "proceeds (if isl a then [] else [Committed ?g CommittedGeneration]) w w1"
    using ran_transact [OF others _ a] fleet_step.generation_recorded by (auto split: if_splits)
  show ?thesis
  proof (cases a)
    case (Inl e)
    obtain b w2 where b: "process_shutdown (wk_host wk) (wk_env wk) w1 = (b, w2)" by fastforce
    have "proceeds [ProcessStarted, ProcessEnded] w0 w2"
      using ran_trans [OF ran_quiet [OF assms(3)] ran_process_shutdown [OF others b]] rec Inl by simp
    then have "advances [ProcessStarted, ProcessEnded] (report, w0) (report, w2)"
      by (simp add: advances_def tally_refl)
    then show ?thesis
      using assms(2) a Inl b generation_log.unready by (auto simp: run_described_def Let_def)
  next
    case (Inr x)
    let ?id = "\<lparr>gi_owner_instance_id = ?g, gi_profile_digest = dr_profile_digest description,
      gi_compatibility_digest = generation_compatibility wk description\<rparr>"
    obtain e1 r2 w2 where drive: "drive_generation wk ?id limit (Map.empty, report, w1) = Some (e1, r2, w2)"
      and stop: "(let (exit, w) = stop_generation wk ?g e1 (world_tick (wk_env wk) w2) in Some (exit, r2, w)) = Some (exit, s')"
      using assms(2) a Inr by (auto simp: run_described_def Let_def bind_eq_Some_conv)
    obtain e2 w3 where st: "stop_generation wk ?g e1 (world_tick (wk_env wk) w2) = (e2, w3)" by fastforce
    then have s': "exit = e2" "s' = (r2, w3)" using stop by auto
    have start: "advances [ProcessStarted, Committed ?g CommittedGeneration] (report, w0) (report, w1)"
      using ran_trans [OF assms(3) rec] Inr by (simp add: advances_def tally_refl)
    from advances_drive [OF assms(1) drive] obtain ks where
      ks: "advances ks (report, w1) (r2, w2)" "generation_work (grants_of wk) ks" by auto
    from ran_stop_generation [OF assms(1) st] obtain recorded where
      rec: "proceeds (ProcessEnded # (if recorded then [Committed ?g CommittedStop] else [])) (world_tick (wk_env wk) w2) w3"
        "\<not> recorded \<longrightarrow> (\<exists>e. e2 = ExitFatal e)" by blast
    have "advances (ProcessEnded # (if recorded then [Committed ?g CommittedStop] else [])) (r2, w2) (r2, w3)"
      using ran_then [OF ran_tick [OF others] rec(1)] by (simp add: advances_def tally_refl)
    from goes_on_trans [OF goes_on_trans [OF start ks(1)] this]
    have "advances (ProcessStarted # Committed ?g CommittedGeneration # ks @ ProcessEnded
        # (if recorded then [Committed ?g CommittedStop] else [])) (report, w0) s'"
      unfolding s' by simp
    with generation_log.drove [OF ks(2)] rec(2) s'(1) show ?thesis by blast
  qed
qed

lemma advances_generation:
  assumes "worker_ok wk" and "run_generation wk limit s = Some (exit, s')"
  shows "\<exists>ks recorded. advances ks s s' \<and> generation_log (grants_of wk) recorded ks
    \<and> (\<not> recorded \<longrightarrow> (\<exists>e. exit = ExitFatal e))"
proof -
  note others = worker_okD [OF assms(1)]
  obtain report w where s: "s = (report, w)" by fastforce
  have counted: "advances ks (report, w) s2" if "advances ks (counted_generation report, w) s2" for ks s2
    using advances_quiet(1) [OF _ that, of "(report, w)"] by (simp add: advances_def tally_counted)
  obtain a w1 where a: "process_start (wk_host wk) (wk_env wk) (wc_plugin (wk_config wk)) w = (a, w1)" by fastforce
  note start = ran_process_start [OF others a]
  show ?thesis
  proof (cases a)
    case (Inl e)
    then have "exit = ExitRestart (''plugin startup failed: '' @ plugin_error_display e)" "s' = (report, w1)"
      using assms(2) s a by (auto simp: run_generation_def)
    moreover from start Inl have "advances [] s (report, w1) \<or> advances [ProcessStarted, ProcessEnded] s (report, w1)"
      by (auto simp: s advances_def tally_refl)
    ultimately show ?thesis using generation_log.unstarted generation_log.unready by blast
  next
    case (Inr p)
    obtain manifest pid where p: "p = (manifest, pid)" by fastforce
    have up: "proceeds [ProcessStarted] w w1" using start Inr by simp
    have ended: "advances [ProcessStarted, ProcessEnded] s (counted_generation report, v)"
      if "proceeds [ProcessEnded] u v" "proceeds [ProcessStarted] w u" for u v
      unfolding s using ran_trans [OF that(2,1)] by (intro counted) (simp add: advances_def tally_refl)
    show ?thesis
    proof (cases "harness_new manifest")
      case bad: (Inl e)
      have "advances [ProcessStarted, ProcessEnded] s s'"
        using assms(2) s a Inr p bad ended [OF ran_gone [OF others] up] by (auto simp: run_generation_def Let_def)
      then show ?thesis using generation_log.unready by blast
    next
      case good: (Inr u)
      obtain b w2 where b: "harness_describe (wk_env wk) (w1\<lparr>w_turn := None\<rparr>) = (b, w2)" by fastforce
      have up2: "proceeds [ProcessStarted] w w2"
        by (rule ran_quiet [OF ran_quiet [OF up ran_turn] ran_harness(1) [OF others b]])
      show ?thesis
      proof (cases b)
        case silent: (Inl e)
        obtain c w3 where c: "process_shutdown (wk_host wk) (wk_env wk) w2 = (c, w3)" by fastforce
        have "advances [ProcessStarted, ProcessEnded] s s'"
          using assms(2) s a Inr p good b silent c ended [OF ran_process_shutdown [OF others c] up2]
          by (auto simp: run_generation_def shutdown_generation_def Let_def)
        then show ?thesis using generation_log.unready by blast
      next
        case described: (Inr d)
        have "run_described wk limit manifest pid d (counted_generation report, w2) = Some (exit, s')"
          using assms(2) s a Inr p good b described by (simp add: run_generation_def Let_def)
        from advances_described [OF assms(1) this up2] show ?thesis unfolding s using counted by blast
      qed
    qed
  qed
qed

lemma run_generations_induct [consumes 1, case_names finished exited again]:
  assumes "run_generations wk limit s = Some (r, w')"
    and "\<And>s. cancelled_now wk (snd s) \<or> limit_reached (fst s) limit \<Longrightarrow> P s (Inr (fst s)) (snd s)"
    and "\<And>s exit s1 r w'. \<not> limit_reached (fst s) limit \<Longrightarrow> run_generation wk limit s = Some (exit, s1) \<Longrightarrow>
      r = Inr (fst s1) \<and> w' = snd s1 \<or> (\<exists>e. exit = ExitFatal e \<and> r = Inl e) \<and> w' = snd s1
        \<or> (\<exists>m. exit = ExitRestart m) \<and> r = Inr (counted_restart (fst s1)) \<and> w' = snd (wait_or_cancel wk (snd s1)) \<Longrightarrow>
      P s r w'"
    and "\<And>s m s1 r w'. \<not> limit_reached (fst s) limit \<Longrightarrow> run_generation wk limit s = Some (ExitRestart m, s1) \<Longrightarrow>
      P (counted_restart (fst s1), snd (wait_or_cancel wk (snd s1))) r w' \<Longrightarrow> P s r w'"
  shows "P s r w'"
proof -
  let ?P = "\<lambda>v n t y. v = wk \<longrightarrow> n = limit \<longrightarrow> P t (fst y) (snd y)"
  have "?P wk limit s (r, w')"
  proof (rule run_generations.raw_induct [of ?P, OF _ assms(1)], intro impI)
    fix f v n t y
    assume IH: "\<And>v n t y. f v n t = Some y \<Longrightarrow> ?P v n t y"
      and eq: "(if cancelled_now v (snd t) \<or> limit_reached (fst t) n then Some (Inr (fst t), snd t)
        else Option.bind (run_generation v n t) (\<lambda>(exit, s).
          case exit of
            ExitStopped \<Rightarrow> Some (Inr (fst s), snd s)
          | ExitRestart x \<Rightarrow>
              if cancelled_now v (snd s) \<or> limit_reached (fst s) n then Some (Inr (fst s), snd s)
              else if fst (wait_or_cancel v (snd s))
              then Some (Inr (counted_restart (fst s)), snd (wait_or_cancel v (snd s)))
              else f v n (counted_restart (fst s), snd (wait_or_cancel v (snd s)))
          | ExitFatal e \<Rightarrow> Some (Inl e, snd s))) = Some y"
      and same: "v = wk" "n = limit"
    show "P t (fst y) (snd y)"
    proof (cases "cancelled_now wk (snd t) \<or> limit_reached (fst t) limit")
      case True
      then show ?thesis using eq same assms(2) [of t] by auto
    next
      case False
      obtain z where z: "run_generation wk limit t = Some z"
        using eq same False by (cases "run_generation wk limit t") auto
      obtain e s1 where e: "z = (e, s1)" by (rule prod.exhaust)
      show ?thesis
      proof (cases "(\<exists>m. e = ExitRestart m) \<and> \<not> (cancelled_now wk (snd s1) \<or> limit_reached (fst s1) limit)
          \<and> \<not> fst (wait_or_cancel wk (snd s1))")
        case True
        then obtain m where m: "e = ExitRestart m" by blast
        then have "f wk limit (counted_restart (fst s1), snd (wait_or_cancel wk (snd s1))) = Some y"
          using eq same False z e True by simp
        from IH [OF this] show ?thesis using assms(4) [of t m s1] z e m False by simp
      next
        case False': False
        show ?thesis
          using eq same False z e False'
          by (intro assms(3) [of t e s1]) (auto split: generation_exit.split_asm if_split_asm)
      qed
    qed
  qed
  then show ?thesis by simp
qed

lemma advances_run:
  assumes "worker_ok wk" and "run_generations wk limit s = Some (r, w')"
  shows "\<exists>ks. proceeds ks (snd s) w' \<and> worker_log (grants_of wk) ks
    \<and> (\<forall>report. r = Inr report \<longrightarrow> tally (fst s) ks report)"
  using assms(2)
proof (induction rule: run_generations_induct)
  case (finished s)
  then show ?case by (intro exI [of _ "[]"]) (simp add: worker_log.none tally_refl)
next
  case (exited s exit s1 r w')
  obtain ks recorded where ks: "advances ks s s1" "generation_log (grants_of wk) recorded ks"
    using advances_generation [OF assms(1) exited(2)] by blast
  have "proceeds ks (snd s) w' \<and> (\<forall>report. r = Inr report \<longrightarrow> tally (fst s) ks report)"
    using exited(3) ks(1) ran_quiet [OF _ ran_wait [OF assms(1)], of ks "snd s" "snd s1"]
      tally_trans [OF _ tally_counted(5), of "fst s" ks "fst s1"]
    by (auto simp: advances_def)
  then show ?case using worker_log.last_generation [OF ks(2)] by blast
next
  case (again s m s1 r w')
  obtain ks where ks: "advances ks s s1" "generation_log (grants_of wk) True ks"
    using advances_generation [OF assms(1) again(2)] by (metis generation_exit.distinct(5))
  obtain ls where ls: "proceeds ls (snd (wait_or_cancel wk (snd s1))) w'" "worker_log (grants_of wk) ls"
    "\<forall>report. r = Inr report \<longrightarrow> tally (counted_restart (fst s1)) ls report" using again.IH by auto
  have "proceeds (ks @ ls) (snd s) w'"
    using ran_trans [OF ran_quiet [OF _ ran_wait [OF assms(1)]] ls(1)] ks(1) by (auto simp: advances_def)
  moreover have "tally (fst s) (ks @ ls) report" if "r = Inr report" for report
    using tally_trans [OF tally_trans [OF _ tally_counted(5)], of "fst s" ks "fst s1" ls report] ks(1) ls(3) that
    by (auto simp: advances_def)
  ultimately show ?case using worker_log.restarted [OF ks(2) ls(2)] by blast
qed

end
