(* ===== verification/Worker_Stop.thy ===== *)
theory Worker_Stop
  imports Worker_Run
begin

text \<open>
  What a run of the worker guarantees: its protocol, its report, and that it ends.
\<close>

section \<open>The protocol\<close>


section \<open>The report\<close>

definition within :: "u64 option \<Rightarrow> worker_report \<Rightarrow> bool" where
  "within limit report \<longleftrightarrow> (case limit of None \<Rightarrow> True | Some n \<Rightarrow> settled_turns report \<le> n)"

lemma round_counts:
  assumes "round gs r ks"
  shows "count_committed CommittedCompletion ks + count_committed CommittedBlock ks \<le> 1"
  using assms
  by (cases r) (auto simp: round_def served_def dest: leaves_counts(2) leaves_counts(2) [OF settles_leaves])

lemma drive_step_within:
  assumes "worker_ok wk" and "drive_step wk g limit st = Some (r, st')" and "within limit (fst (snd st))"
  shows "within limit (fst (snd st'))"
proof -
  obtain sessions report w where st: "st = (sessions, report, w)" by (metis prod.exhaust)
  obtain sessions' s' where st': "st' = (sessions', s')" by (rule prod.exhaust)
  show ?thesis
  proof (cases "cancelled_now wk w \<or> limit_reached report limit")
    case True
    then show ?thesis using assms(2,3) st by (auto simp: drive_step_def)
  next
    case False
    obtain ks where ks: "advances ks (report, w) s'" "round (grants_of wk) r ks"
      using advances_drive_step [OF assms(1), of g limit sessions "(report, w)"] assms(2) st st' by blast
    have "unat (settled_turns (fst s')) \<le> unat (settled_turns report) + 1"
      using ks(1) round_counts [OF ks(2)] by (auto simp: advances_def tally_def)
    then show ?thesis
      using False st' by (auto simp: within_def limit_reached_def word_le_nat_alt not_le split: option.splits)
  qed
qed

lemma drive_within:
  assumes "worker_ok wk" and "drive_generation wk g limit st = Some (x, s')" and "within limit (fst (snd st))"
  shows "within limit (fst s')"
  using assms(2,3)
proof (induction rule: drive_induct)
  case (exit st x st')
  then show ?case using drive_step_within [OF assms(1)] by blast
next
  case (step st u st' x s')
  then show ?case using drive_step_within [OF assms(1)] by blast
qed

lemma within_counted [simp]:
  "within limit (counted_generation report) = within limit report"
  "within limit (counted_restart report) = within limit report"
  by (simp_all add: within_def settled_turns_def counted_defs split: option.split)

lemma generation_within:
  assumes "worker_ok wk" and "run_generation wk limit s = Some (x, s')" and "within limit (fst s)"
  shows "within limit (fst s')"
proof -
  have described: "within limit (fst s')"
    if run: "run_described wk limit manifest pid d (report, w) = Some (x, s')" and start: "within limit report"
    for manifest pid d report w
  proof -
    let ?g = "env_uuid (wk_env wk) (w_tick w)"
    obtain a w1 where a: "transact (wk_env wk) ?g CommittedGeneration (\<lambda>now.
        record_plugin_generation (host_interfaces_json (wk_host wk)) now (generation_record wk ?g manifest pid d)) w
        = (a, w1)" by fastforce
    show ?thesis
    proof (cases a)
      case (Inl e)
      then show ?thesis using run start a by (auto simp: run_described_def Let_def split: prod.split_asm)
    next
      case (Inr y)
      let ?id = "\<lparr>gi_owner_instance_id = ?g, gi_profile_digest = dr_profile_digest d,
        gi_compatibility_digest = generation_compatibility wk d\<rparr>"
      obtain z where z: "drive_generation wk ?id limit (Map.empty, report, w1) = Some z"
        using run a Inr by (cases "drive_generation wk ?id limit (Map.empty, report, w1)")
          (auto simp: run_described_def Let_def)
      then have "fst s' = fst (snd z)" using run a Inr by (auto simp: run_described_def Let_def case_prod_beta)
      moreover obtain e r2 w2 where "z = (e, r2, w2)" by (metis prod.exhaust)
      moreover note z
      ultimately show ?thesis using drive_within [OF assms(1)] start by fastforce
    qed
  qed
  show ?thesis
    using assms(2,3) described
    by (auto simp: run_generation_def Let_def split: prod.splits sum.splits)
qed

lemma run_within:
  assumes "worker_ok wk" and "run_generations wk limit s = Some (Inr report, w')" and "within limit (fst s)"
  shows "within limit report"
proof -
  have "r = Inr report \<longrightarrow> within limit (fst s) \<longrightarrow> within limit report"
    if "run_generations wk limit s = Some (r, w')" for r
    using that
  proof (induction rule: run_generations_induct)
    case (finished s)
    then show ?case by simp
  next
    case (exited s exit s1 r w')
    then show ?case using generation_within [OF assms(1) exited(2)] by auto
  next
    case (again s m s1 r w')
    then show ?case using generation_within [OF assms(1) again(2)] by simp
  qed
  then show ?thesis using assms(2,3) by blast
qed

text \<open>
  C16: the report of a worker run is exact, up to the width of its counters: it counts the
  reservations that committed, the unarmed ones that were given back, and as settled turns the
  completions and blocks that committed.  A bounded run settles no more turns than it was allowed.
\<close>

theorem report_is_exact:
  assumes "others_ok (wk_env wk)" and "tokens_fresh (wk_host wk)"
    and "run_until wk limit w = Some (Inr report, w')"
  shows "\<exists>es. w_log w' = w_log w @ es
    \<and> unat (wr_reservations report) = min (2 ^ 64 - 1) (count_committed CommittedReservation es)
    \<and> unat (wr_pre_arm_retries report) = min (2 ^ 64 - 1) (count_committed CommittedRetry es)
    \<and> unat (settled_turns report) = min (2 ^ 64 - 1)
        (count_committed CommittedCompletion es + count_committed CommittedBlock es)
    \<and> (case limit of None \<Rightarrow> True | Some n \<Rightarrow> settled_turns report \<le> n)"
proof -
  have ok: "worker_ok wk" using assms(1,2) by (simp add: worker_ok_def)
  have run: "run_generations wk limit (default_report, w) = Some (Inr report, w')"
    using assms(3) by (auto simp: run_until_def split: if_splits)
  obtain ks where ks: "proceeds ks w w'" "tally default_report ks report"
    using advances_run [OF ok run] by auto
  obtain es where es: "w_log w' = w_log w @ es" "ks = filter decisive es" using ks(1) by (auto simp: proceeds_def)
  have zero: "settled_turns default_report = 0" by code_simp
  have "within limit default_report" by (simp add: within_def zero split: option.splits)
  then have "within limit report" using run_within [OF ok run] by simp
  then show ?thesis
    using ks(2) es zero count_decisive
    by (intro exI [of _ es]) (auto simp: tally_def within_def u64_top_def default_report_def)
qed

section \<open>The end\<close>

lemma proceeds_tick: "proceeds ks w w' \<Longrightarrow> w_tick w \<le> w_tick w'"
  by (simp add: proceeds_def)

lemma drive_step_tick:
  assumes "worker_ok wk" and "drive_step wk g limit (sessions, report, w) = Some (Inr u, sessions', report', w')"
  shows "w_tick w < w_tick w'"
proof -
  have go: "\<not> (cancelled_now wk w \<or> limit_reached report limit)"
    using assms(2) by (auto simp: drive_step_def split: if_splits)
  obtain a w1 where a: "reserve_next wk w = (a, w1)" by fastforce
  have later: "w_tick w < w_tick w1" by (rule ran_reserve(2) [OF assms(1) a])
  have "w_tick w1 \<le> w_tick w'"
  proof (cases a)
    case (Inl e)
    then show ?thesis using assms(2) go a by (simp add: drive_step_def)
  next
    case (Inr x)
    show ?thesis
    proof (cases x)
      case None
      then show ?thesis
        using assms(2) go a Inr proceeds_tick [OF ran_wait [OF assms(1)], of w1]
        by (auto simp: drive_step_def Let_def split: prod.splits)
    next
      case (Some i)
      then have "serve_reserved wk g i (sessions, counted_reservation report, w1) = Some (Inr u, sessions', report', w')"
        using assms(2) go a Inr by (simp add: drive_step_def)
      from advances_serve [OF assms(1) this] show ?thesis using proceeds_tick by (auto simp: advances_def)
    qed
  qed
  with later show ?thesis by simp
qed

text \<open>A turn ends when its deadlines find it waiting.\<close>

definition deadlines_fire :: "env \<Rightarrow> bool" where
  "deadlines_fire env \<longleftrightarrow> (\<forall>k. \<exists>n\<ge>k. \<not> env_ready env n \<and> env_wall_deadline env n)
     \<and> (\<forall>k. \<exists>n\<ge>k. \<not> env_ready env n \<and> env_cancel_deadline env n)"

lemma run_turn_some:
  assumes "deadlines_fire env" and "run_turn env turn w = None"
  shows False
  using run_turn_returns [of env turn w] assms unfolding deadlines_fire_def by fastforce

lemma execute_returns:
  assumes "deadlines_fire (wk_env wk)" and "execute_turn wk i prepared l x g s = None"
  shows False
  using assms(2) run_turn_some [OF assms(1)]
  by (auto simp: execute_turn_def Let_def bind_eq_None_conv split: prod.split_asm sum.split_asm)

lemma serve_returns:
  assumes "deadlines_fire (wk_env wk)" and "serve_reserved wk g i t = None"
  shows False
  using assms(2) execute_returns [OF assms(1)]
  by (auto simp: serve_reserved_def Let_def split: prod.split_asm sum.split_asm option.split_asm if_split_asm)

lemma drive_step_returns:
  assumes "deadlines_fire (wk_env wk)" and "drive_step wk g limit st = None"
  shows False
  using assms(2) serve_returns [OF assms(1)]
  by (auto simp: drive_step_def Let_def split: prod.split_asm sum.split_asm option.split_asm if_split_asm)

lemma drive_returns:
  assumes "worker_ok wk" and "deadlines_fire (wk_env wk)" and "\<And>n. m \<le> n \<Longrightarrow> host_cancelled (wk_host wk) n"
  shows "drive_generation wk g limit st = None \<Longrightarrow> False"
proof (induction "m - w_tick (snd (snd st))" arbitrary: st rule: less_induct)
  case less
  obtain z where z: "drive_step wk g limit st = Some z"
    using drive_step_returns [OF assms(2), of g limit st] by (cases "drive_step wk g limit st") simp_all
  obtain sessions report w where st: "st = (sessions, report, w)" by (metis prod.exhaust)
  obtain r sessions' report' w' where z': "z = (r, sessions', report', w')" by (metis prod.exhaust)
  show ?case
  proof (cases r)
    case (Inl e)
    then show ?thesis using z z' less.prems by (subst (asm) drive_generation.simps) simp
  next
    case (Inr u)
    have "\<not> host_cancelled (wk_host wk) (w_tick w)"
      using z z' Inr st by (auto simp: drive_step_def cancelled_now_def split: if_splits)
    then have "w_tick w < m" using assms(3) not_le by blast
    moreover have "w_tick w < w_tick w'" using drive_step_tick [OF assms(1)] z z' Inr st by blast
    moreover have "drive_generation wk g limit (sessions', report', w') = None"
      using z z' Inr less.prems by (subst (asm) drive_generation.simps) simp
    ultimately show ?thesis by (intro less.hyps [of "(sessions', report', w')"]) (simp_all add: st)
  qed
qed

lemma generation_returns:
  assumes "worker_ok wk" and "deadlines_fire (wk_env wk)" and "\<And>n. m \<le> n \<Longrightarrow> host_cancelled (wk_host wk) n"
    and "run_generation wk limit s = None"
  shows False
proof -
  have described: "run_described wk limit manifest pid d t = None \<Longrightarrow> False" for manifest pid d t
    using drive_returns [OF assms(1-3)]
    by (auto simp: run_described_def Let_def bind_eq_None_conv split: prod.split_asm sum.split_asm)
  show ?thesis
    using assms(4) described by (auto simp: run_generation_def Let_def split: prod.split_asm sum.split_asm)
qed

lemma run_returns:
  assumes "worker_ok wk" and "deadlines_fire (wk_env wk)" and "\<And>n. m \<le> n \<Longrightarrow> host_cancelled (wk_host wk) n"
  shows "run_generations wk limit s = None \<Longrightarrow> False"
proof (induction "m - w_tick (snd s)" arbitrary: s rule: less_induct)
  case less
  obtain z where z: "run_generation wk limit s = Some z"
    using generation_returns [OF assms, of m limit s] by (cases "run_generation wk limit s") simp_all
  obtain x s1 where z': "z = (x, s1)" by (rule prod.exhaust)
  let ?w = "snd (wait_or_cancel wk (snd s1))"
  have more: "\<not> (cancelled_now wk (snd s) \<or> limit_reached (fst s) limit)"
    and again: "run_generations wk limit (counted_restart (fst s1), ?w) = None"
    using less.prems z z' by (subst (asm) run_generations.simps, auto split: if_splits generation_exit.split_asm)+
  have "w_tick (snd s) < m" using more assms(3) not_le by (auto simp: cancelled_now_def)
  moreover obtain ks where "advances ks s s1" using advances_generation [OF assms(1)] z z' by blast
  then have "w_tick (snd s) \<le> w_tick (snd s1)" using proceeds_tick by (auto simp: advances_def)
  then have "w_tick (snd s) < w_tick ?w" by (simp add: wait_or_cancel_def Let_def)
  ultimately show ?case using again by (intro less.hyps [of "(counted_restart (fst s1), ?w)"]) simp_all
qed


end
