(* ===== verification/Worker_Bounds.thy ===== *)
theory Worker_Bounds
  imports Worker_Run Conversation Turn_Results
begin

text \<open>
  What the worker hands to an adapter is bounded and says what it leaves out; what a validated
  configuration guarantees.
\<close>

section \<open>Members\<close>

abbreviation member_ids :: "channel_member list \<Rightarrow> string list" where
  "member_ids ms \<equiv> map member_agent_id ms"

text \<open>What both loops keep: some of the members, each once.\<close>

definition some_members :: "channel_member list \<Rightarrow> channel_member list \<Rightarrow> bool" where
  "some_members ms bounded \<longleftrightarrow> set bounded \<subseteq> set ms \<and> distinct (member_ids bounded)"

lemma some_members_push [simp]:
  "some_members ms bounded \<Longrightarrow> m \<in> set ms \<Longrightarrow> some_members ms (push_context_member m bounded)"
  by (auto simp: some_members_def push_context_member_def)

lemma push_context_member_grows:
  "set bounded \<subseteq> set (push_context_member m bounded)"
  "member_agent_id m \<in> set (member_ids (push_context_member m bounded))"
  "length (push_context_member m bounded) \<le> Suc (length bounded)"
  by (auto simp: push_context_member_def)

lemma push_priority_keeps:
  assumes "some_members ms bounded"
  shows "some_members ms (push_priority ms p bounded)" "set bounded \<subseteq> set (push_priority ms p bounded)"
    "length (push_priority ms p bounded) \<le> Suc (length bounded)"
    "p \<in> set (member_ids ms) \<Longrightarrow> p \<in> set (member_ids (push_priority ms p bounded))"
proof -
  show "some_members ms (push_priority ms p bounded)"
    using assms by (auto simp: push_priority_def find_Some_iff split: option.split)
  show "set bounded \<subseteq> set (push_priority ms p bounded)"
    "length (push_priority ms p bounded) \<le> Suc (length bounded)"
    using push_context_member_grows(1,3) [where bounded = bounded] by (auto simp: push_priority_def split: option.split)
  show "p \<in> set (member_ids (push_priority ms p bounded))" if "p \<in> set (member_ids ms)"
  proof (cases "find (\<lambda>m. member_agent_id m = p) ms")
    case (Some m)
    then have "member_agent_id m = p" by (auto simp: find_Some_iff)
    then show ?thesis using Some push_context_member_grows(2) [of m bounded] by (simp add: push_priority_def)
  qed (use that in \<open>auto simp: find_None_iff\<close>)
qed

lemma priorities_kept:
  assumes "some_members ms bounded"
  shows "some_members ms (fold (push_priority ms) ps bounded)" "set bounded \<subseteq> set (fold (push_priority ms) ps bounded)"
    "length (fold (push_priority ms) ps bounded) \<le> length bounded + length ps"
    "p \<in> set ps \<Longrightarrow> p \<in> set (member_ids ms) \<Longrightarrow> p \<in> set (member_ids (fold (push_priority ms) ps bounded))"
proof -
  have "some_members ms (fold (push_priority ms) ps bounded) \<and> set bounded \<subseteq> set (fold (push_priority ms) ps bounded)
    \<and> length (fold (push_priority ms) ps bounded) \<le> length bounded + length ps
    \<and> (\<forall>p\<in>set ps. p \<in> set (member_ids ms) \<longrightarrow> p \<in> set (member_ids (fold (push_priority ms) ps bounded)))"
    using assms
  proof (induction ps arbitrary: bounded)
    case (Cons q ps)
    note one = push_priority_keeps [OF Cons.prems, of q] and rest = Cons.IH [OF push_priority_keeps(1) [OF Cons.prems, of q]]
    have "q \<in> set (member_ids ms) \<longrightarrow> q \<in> set (member_ids (fold (push_priority ms) ps (push_priority ms q bounded)))"
      using one(4) rest by (auto dest: subsetD)
    then show ?case using one rest by auto
  qed simp
  then show "some_members ms (fold (push_priority ms) ps bounded)" "set bounded \<subseteq> set (fold (push_priority ms) ps bounded)"
    "length (fold (push_priority ms) ps bounded) \<le> length bounded + length ps"
    "p \<in> set ps \<Longrightarrow> p \<in> set (member_ids ms) \<Longrightarrow> p \<in> set (member_ids (fold (push_priority ms) ps bounded))"
    by blast+
qed

lemma fill_context_kept:
  assumes "some_members all bounded" and "set ms \<subseteq> set all" and "length bounded \<le> MAX_CHANNEL_CONTEXT_MEMBERS"
  shows "some_members all (fill_context ms bounded) \<and> set bounded \<subseteq> set (fill_context ms bounded)
    \<and> length (fill_context ms bounded) \<le> MAX_CHANNEL_CONTEXT_MEMBERS
    \<and> (length (fill_context ms bounded) < MAX_CHANNEL_CONTEXT_MEMBERS
        \<longrightarrow> set (member_ids ms) \<subseteq> set (member_ids (fill_context ms bounded)))"
  using assms
proof (induction ms arbitrary: bounded)
  case (Cons m ms)
  show ?case
  proof (cases "length bounded = MAX_CHANNEL_CONTEXT_MEMBERS")
    case False
    note grows = push_context_member_grows [where bounded = bounded and m = m]
    have "some_members all (push_context_member m bounded)" "set ms \<subseteq> set all"
      "length (push_context_member m bounded) \<le> MAX_CHANNEL_CONTEXT_MEMBERS"
      using Cons.prems False grows(3) by simp_all
    note rest = Cons.IH [OF this]
    show ?thesis using False rest grows(1,2) by auto
  qed (use Cons.prems in simp)
qed simp

lemma length_some_members: "some_members ms bounded \<Longrightarrow> length bounded \<le> length ms"
  unfolding some_members_def
  by (metis card_length card_mono distinct_card distinct_map le_trans List.finite_set)

lemma bounded_members_exact:
  assumes "distinct (member_ids ms)" and "bounded_context_members ms i = (bounded, trunc)"
  shows "some_members ms bounded" "length bounded = min MAX_CHANNEL_CONTEXT_MEMBERS (length ms)"
    "trunc \<longleftrightarrow> MAX_CHANNEL_CONTEXT_MEMBERS < length ms"
    "\<forall>p\<in>set (priority_ids i). p \<in> set (member_ids ms) \<longrightarrow> p \<in> set (member_ids bounded)"
proof -
  let ?pri = "fold (push_priority ms) (priority_ids i) []"
  have nil: "some_members ms []" by (simp add: some_members_def)
  note pri = priorities_kept [OF nil, where ps = "priority_ids i"]
  have "length (priority_ids i) \<le> 3" by (simp add: priority_ids_def split: option.split)
  then have short: "length ?pri \<le> MAX_CHANNEL_CONTEXT_MEMBERS"
    using pri(3) by (simp add: MAX_CHANNEL_CONTEXT_MEMBERS_def)
  have eq: "bounded = fill_context ms ?pri" "trunc \<longleftrightarrow> length bounded < length ms"
    using assms(2) by (auto simp: bounded_context_members_def Let_def)
  note fill = fill_context_kept [OF pri(1) order_refl short, folded eq(1)]
  show some: "some_members ms bounded" using fill by blast
  have "length ms \<le> length bounded" if "length bounded < MAX_CHANNEL_CONTEXT_MEMBERS"
  proof -
    have "set (member_ids ms) \<subseteq> set (member_ids bounded)" using fill that by blast
    then have "card (set (member_ids ms)) \<le> card (set (member_ids bounded))" by (rule card_mono [OF List.finite_set])
    then show ?thesis using distinct_card [OF assms(1)] card_length [of "member_ids bounded"] by simp
  qed
  then show len: "length bounded = min MAX_CHANNEL_CONTEXT_MEMBERS (length ms)"
    using fill length_some_members [OF some] by linarith
  show "trunc \<longleftrightarrow> MAX_CHANNEL_CONTEXT_MEMBERS < length ms" using eq(2) len by auto
  show "\<forall>p\<in>set (priority_ids i). p \<in> set (member_ids ms) \<longrightarrow> p \<in> set (member_ids bounded)"
    using pri(4) fill by fastforce
qed

section \<open>History\<close>

definition history_bytes :: "(message \<Rightarrow> string option) \<Rightarrow> message list \<Rightarrow> nat" where
  "history_bytes to_vec ms = sum_list (map (message_bytes to_vec) ms)"

lemma checked_add_small:
  "checked_add_usize a b = Some n \<and> n \<le> MAX_CHANNEL_CONTEXT_HISTORY_BYTES
     \<longleftrightarrow> n = a + b \<and> a + b \<le> MAX_CHANNEL_CONTEXT_HISTORY_BYTES"
  by (auto simp: checked_add_usize_def MAX_CHANNEL_CONTEXT_HISTORY_BYTES_def split: if_splits)

lemma retain_history_simp:
  "retain_history to_vec e (m # ms) =
     (if e + message_bytes to_vec m \<le> MAX_CHANNEL_CONTEXT_HISTORY_BYTES
      then apfst ((#) m) (retain_history to_vec (e + message_bytes to_vec m) ms) else ([], True))"
  by (auto simp: checked_add_usize_def MAX_CHANNEL_CONTEXT_HISTORY_BYTES_def apfst_def map_prod_def split: prod.splits)

declare retain_history.simps(2) [simp del]

text \<open>The longest prefix that fits.\<close>

lemma retain_history_prefix:
  assumes "retain_history to_vec e ms = (kept, trunc)" and "e \<le> MAX_CHANNEL_CONTEXT_HISTORY_BYTES"
  shows "kept = take (length kept) ms" "e + history_bytes to_vec kept \<le> MAX_CHANNEL_CONTEXT_HISTORY_BYTES"
    "trunc \<longleftrightarrow> length kept < length ms"
    "trunc \<Longrightarrow> MAX_CHANNEL_CONTEXT_HISTORY_BYTES < e + history_bytes to_vec (take (Suc (length kept)) ms)"
proof -
  have "kept = take (length kept) ms \<and> e + history_bytes to_vec kept \<le> MAX_CHANNEL_CONTEXT_HISTORY_BYTES
    \<and> (trunc \<longleftrightarrow> length kept < length ms)
    \<and> (trunc \<longrightarrow> MAX_CHANNEL_CONTEXT_HISTORY_BYTES < e + history_bytes to_vec (take (Suc (length kept)) ms))"
    using assms
  proof (induction ms arbitrary: e kept trunc)
    case (Cons m ms)
    show ?case
    proof (cases "e + message_bytes to_vec m \<le> MAX_CHANNEL_CONTEXT_HISTORY_BYTES")
      case True
      then obtain k where k: "kept = m # k" "retain_history to_vec (e + message_bytes to_vec m) ms = (k, trunc)"
        using Cons.prems(1) by (auto simp: retain_history_simp apfst_def map_prod_def split: prod.split_asm)
      from Cons.IH [OF k(2) True] show ?thesis by (auto simp: k(1) history_bytes_def add.assoc)
    next
      case False
      then show ?thesis using Cons.prems by (auto simp: retain_history_simp history_bytes_def)
    qed
  qed (simp add: history_bytes_def)
  then show "kept = take (length kept) ms" "e + history_bytes to_vec kept \<le> MAX_CHANNEL_CONTEXT_HISTORY_BYTES"
    "trunc \<longleftrightarrow> length kept < length ms"
    "trunc \<Longrightarrow> MAX_CHANNEL_CONTEXT_HISTORY_BYTES < e + history_bytes to_vec (take (Suc (length kept)) ms)"
    by blast+
qed

text \<open>The last \<open>n\<close> elements.\<close>

abbreviation newest :: "nat \<Rightarrow> 'a list \<Rightarrow> 'a list" where
  "newest n xs \<equiv> drop (length xs - n) xs"

text \<open>What is kept of a channel: as much of its end as both bounds allow.\<close>

definition fits :: "(message \<Rightarrow> string option) \<Rightarrow> message list \<Rightarrow> bool" where
  "fits to_vec ms \<longleftrightarrow> length ms \<le> MAX_CHANNEL_CONTEXT_MESSAGES
     \<and> history_bytes to_vec ms \<le> MAX_CHANNEL_CONTEXT_HISTORY_BYTES"

definition longest_fitting :: "(message \<Rightarrow> string option) \<Rightarrow> message list \<Rightarrow> message list \<Rightarrow> bool" where
  "longest_fitting to_vec before kept \<longleftrightarrow> kept = newest (length kept) before \<and> fits to_vec kept
     \<and> (length kept < length before \<longrightarrow> \<not> fits to_vec (newest (Suc (length kept)) before))"

lemma history_bytes_rev [simp]: "history_bytes to_vec (rev ms) = history_bytes to_vec ms"
  by (simp add: history_bytes_def rev_map [symmetric])

lemma take_rev_newest: "take n (rev xs) = rev (newest n xs)"
  by (simp add: take_rev)

lemma bounded_history_longest:
  assumes "bounded_context_history to_vec hist = (kept, trunc)"
  shows "longest_fitting to_vec hist kept" "trunc \<longleftrightarrow> length kept < length hist"
proof -
  let ?M = MAX_CHANNEL_CONTEXT_MESSAGES
  let ?tail = "newest ?M hist"
  obtain k c where k: "retain_history to_vec 0 (rev ?tail) = (k, c)" by (rule prod.exhaust)
  have kept: "kept = rev k" "trunc \<longleftrightarrow> ?M < length hist \<or> c"
    using assms k by (auto simp: bounded_context_history_def Let_def)
  note r = retain_history_prefix [OF k, simplified]
  have len: "length k \<le> length ?tail" using r(1) by (metis length_rev length_take min.cobounded1 take_all_iff nle_le)
  have part: "take n (rev ?tail) = rev (newest n hist)" if "n \<le> length ?tail" for n
    using that unfolding take_rev_newest by (auto simp: min_def)
  have k': "k = rev (newest (length k) hist)" using r(1) part [OF len] by simp
  show "trunc \<longleftrightarrow> length kept < length hist" using kept r(3) len by auto
  have "\<not> fits to_vec (newest (Suc (length k)) hist)" if "length k < length hist"
  proof (cases c)
    case True
    then have "Suc (length k) \<le> length ?tail" using r(3) by simp
    then show ?thesis using r(4) [OF True] part by (simp add: fits_def)
  next
    case False
    then have "length k = ?M" using r(3) len that by auto
    then show ?thesis using that by (simp add: fits_def)
  qed
  moreover have "fits to_vec kept" using r(2) kept(1) len by (simp add: fits_def)
  moreover have "rev k = newest (length k) hist" using k' by (metis rev_rev_ident)
  ultimately show "longest_fitting to_vec hist kept"
    using kept(1) by (simp add: longest_fitting_def)
qed

text \<open>One message more than is kept at most is enough to read.\<close>

lemma longest_fitting_newest:
  assumes "longest_fitting to_vec (newest (Suc MAX_CHANNEL_CONTEXT_MESSAGES) before) kept"
  shows "longest_fitting to_vec before kept"
    and "length kept < length (newest (Suc MAX_CHANNEL_CONTEXT_MESSAGES) before) \<longleftrightarrow> length kept < length before"
proof -
  let ?M = MAX_CHANNEL_CONTEXT_MESSAGES
  let ?tail = "newest (Suc ?M) before"
  have le: "length kept \<le> ?M" using assms by (simp add: longest_fitting_def fits_def)
  have part: "newest n ?tail = newest n before" if "n \<le> Suc ?M" for n
  proof -
    have "length ?tail - n + (length before - Suc ?M) = length before - n" using that by auto
    then show ?thesis by simp
  qed
  show iff: "length kept < length ?tail \<longleftrightarrow> length kept < length before" using le by auto
  show "longest_fitting to_vec before kept"
    using assms iff le part [of "length kept"] part [of "Suc (length kept)"] by (simp add: longest_fitting_def)
qed

section \<open>The context of a turn\<close>

text \<open>The messages of a channel before a position.\<close>

definition channel_before :: "string \<Rightarrow> i64 \<Rightarrow> db \<Rightarrow> message list" where
  "channel_before cid seq d =
     map message_from_row (filter (\<lambda>m. m_channel_id m = cid \<and> m_seq m < seq) (messages d))"

lemma sort_descending:
  assumes "sorted_wrt (<) (map m_seq rs)"
  shows "sort_key (\<lambda>m. - m_seq m) rs = rev rs"
proof (rule properties_for_sort_key)
  have "sorted_wrt (\<lambda>a b. m_seq a < m_seq b) rs" using assms by (simp add: sorted_wrt_map)
  then have "sorted_wrt (\<lambda>a b. m_seq b < m_seq a) (rev rs)" by (simp add: sorted_wrt_rev)
  then show "sorted (map (\<lambda>m. - m_seq m) (rev rs))"
    unfolding sorted_map by (rule sorted_wrt_mono_rel [rotated]) simp
  have inj: "m_seq x = m_seq y \<Longrightarrow> x = y" if "x \<in> set rs" "y \<in> set rs" for x y
    using assms that by (auto simp: strict_sorted_iff distinct_map inj_on_def)
  show "filter (\<lambda>x. - m_seq k = - m_seq x) (rev rs) = filter (\<lambda>x. - m_seq k = - m_seq x) rs" for k
  proof -
    have "distinct rs" using assms by (simp add: strict_sorted_iff distinct_map)
    then have "length (filter (\<lambda>x. m_seq k = m_seq x) rs) \<le> 1"
      using inj by (induction rs) (auto simp: filter_empty_conv)
    then have "rev (filter (\<lambda>x. m_seq k = m_seq x) rs) = filter (\<lambda>x. m_seq k = m_seq x) rs"
      by (cases "filter (\<lambda>x. m_seq k = m_seq x) rs") simp_all
    then show ?thesis by (simp add: rev_filter)
  qed
qed simp

lemma recent_messages_newest:
  assumes "messages_inv d" and "list_recent_messages_before cid seq limit d = Inr hist"
  shows "hist = newest (clamp_page limit) (channel_before cid seq d)"
proof -
  have "sorted_wrt (<) (map m_seq (filter (\<lambda>m. m_channel_id m = cid \<and> m_seq m < seq) (messages d)))"
    using assms(1) by (simp add: messages_inv_def sorted_filter_table)
  then show ?thesis
    using assms(2) by (auto simp: list_recent_messages_before_def channel_before_def sort_descending take_rev_newest
      rev_map drop_map split: if_splits)
qed

text \<open>Every membership is listed once, with its agent.\<close>

lemma filter_unique: "unique_on key rs \<Longrightarrow> r \<in> set rs \<Longrightarrow> filter (\<lambda>x. key x = key r) rs = [r]"
  by (induction rs) (auto simp: filter_empty_conv rev_image_eqI)

lemma mset_map_sort: "mset (map f (sort_key k xs)) = mset (map f xs)"
  by simp

lemma members_of_participants:
  assumes "directory_inv d"
  shows "mset (member_ids (members_of cid d)) = mset (participants cid d)"
    and "distinct (member_ids (members_of cid d))"
proof -
  have one: "map (cm_agent_id \<circ> fst) (concat (map (\<lambda>a. if a_id a = cm_agent_id cm \<and> cm_channel_id cm = cid
        then [(cm, a)] else []) (agents d)))
      = (if cm_channel_id cm = cid then [cm_agent_id cm] else [])" if cm: "cm \<in> set (channel_members d)" for cm
  proof -
    obtain a where "a \<in> set (agents d)" "a_id a = cm_agent_id cm"
      using assms cm by (auto simp: directory_inv_def exists_defs)
    then have "filter (\<lambda>x. a_id x = cm_agent_id cm) (agents d) = [a]"
      using assms filter_unique [of a_id "agents d" a] by (auto simp: directory_inv_def)
    then show ?thesis
      by (simp add: map_concat comp_def if_distrib [of "map _"] concat_guarded cong: if_cong)
  qed
  have "map (cm_agent_id \<circ> fst) [(cm, a). cm \<leftarrow> cms, a \<leftarrow> agents d, a_id a = cm_agent_id cm \<and> cm_channel_id cm = cid]
    = map cm_agent_id (filter (\<lambda>cm. cm_channel_id cm = cid) cms)" if "set cms \<subseteq> set (channel_members d)" for cms
    using that one by (induction cms) (simp_all del: map_map)
  from this [OF order_refl] have "mset (member_ids (members_of cid d))
      = mset (map cm_agent_id (filter (\<lambda>cm. cm_channel_id cm = cid) (channel_members d)))"
    unfolding members_of_def map_map mset_map_sort
    by (simp only: comp_def member_of_def case_prod_beta channel_member.simps)
  then show eq: "mset (member_ids (members_of cid d)) = mset (participants cid d)"
    by (simp add: participants_def)
  have "distinct (map cm_agent_id (filter (\<lambda>cm. cm_channel_id cm = cid) (channel_members d)))"
    using assms by (auto simp: directory_inv_def unique_on_def distinct_map inj_on_def)
  then have "distinct (participants cid d)" by (simp add: participants_def)
  then show "distinct (member_ids (members_of cid d))" using eq by (metis mset_eq_imp_distinct_iff)
qed

text \<open>
  C18: the channel context of a turn is bounded, exact and honest about what it leaves out.  It lists
  every member of the channel once, or 64 of them, and then the agent itself, the sender and the
  recipient of its message are among them; its history is the longest end of the channel before that
  message which has at most 32 messages and 65,536 encoded bytes; either flag says just when something
  was left out.
\<close>

theorem turn_context_bounded:
  assumes "others_ok (wk_env wk)" and "fleet_reachable (w_db w)"
    and "channel_turn_context_read wk i w = (Inr ctx, w')"
    and "cid = msg_channel_id (inv_message i)"
    and "d = w_db (world_tick (wk_env wk) w)"
  shows "distinct (map member_agent_id (ctx_members ctx)) \<and> set (ctx_members ctx) \<subseteq> set (members_of cid d)
      \<and> length (ctx_members ctx) = min 64 (length (participants cid d))
      \<and> (ctx_members_truncated ctx \<longleftrightarrow> 64 < length (participants cid d))
      \<and> (\<forall>p\<in>set (priority_ids i) \<inter> set (participants cid d). p \<in> member_agent_id ` set (ctx_members ctx))
      \<and> longest_fitting (host_encode_message (wk_host wk)) (channel_before cid (msg_seq (inv_message i)) (w_db w'))
          (ctx_recent_history ctx)
      \<and> (ctx_recent_history_truncated ctx \<longleftrightarrow>
          length (ctx_recent_history ctx) < length (channel_before cid (msg_seq (inv_message i)) (w_db w')))"
proof -
  let ?env = "wk_env wk" and ?to = "host_encode_message (wk_host wk)"
  let ?w1 = "world_tick ?env w"
  let ?w2 = "world_tick ?env ?w1"
  have reach: "fleet_reachable (w_db ?w1)" "fleet_reachable (w_db ?w2)"
    using proceeds_reachable(1) ran_tick [OF assms(1)] assms(2) by blast+
  then have inv: "directory_inv (w_db ?w1)" "messages_inv (w_db ?w2)"
    using reachable_fleet(1) core_invD by (auto simp: channels_inv_def)
  obtain ms where ms: "list_channel_members cid (w_db ?w1) = Inr ms"
    using assms(3,4) by (cases "list_channel_members cid (w_db ?w1)")
      (auto simp: channel_turn_context_read_def reading_def Let_def)
  obtain bounded trunc where b: "bounded_context_members ms i = (bounded, trunc)" by (rule prod.exhaust)
  obtain hist where hist: "list_recent_messages_before cid (msg_seq (inv_message i)) 33 (w_db ?w2) = Inr hist"
    using assms(3,4) ms b
    by (cases "list_recent_messages_before cid (msg_seq (inv_message i)) 33 (w_db ?w2)")
      (auto simp: channel_turn_context_read_def reading_def Let_def MAX_CHANNEL_CONTEXT_MESSAGES_def)
  obtain kept c where k: "bounded_context_history ?to hist = (kept, c)" by (rule prod.exhaust)
  have ctx: "ctx_members ctx = bounded" "ctx_members_truncated ctx = trunc" "ctx_recent_history ctx = kept"
    "ctx_recent_history_truncated ctx = c" "w' = ?w2"
    using assms(3,4) ms b hist k
    by (auto simp: channel_turn_context_read_def reading_def Let_def MAX_CHANNEL_CONTEXT_MESSAGES_def)
  have "ms = members_of cid (w_db ?w1)"
  proof -
    obtain ch where "ch \<in> set (channels (w_db ?w1))" "c_id ch = cid"
      using ms by (auto simp: list_channel_members_def rows_affected_def filter_empty_conv split: if_splits)
    then show ?thesis using list_channel_members_total ms by fastforce
  qed
  note members = members_of_participants [OF inv(1), of cid, folded this]
  have ids: "length ms = length (participants cid d)" "set (member_ids ms) = set (participants cid d)"
    using members(1) assms(5) by (metis length_map size_mset, metis set_mset_mset)
  note bm = bounded_members_exact [OF members(2) b, unfolded ids MAX_CHANNEL_CONTEXT_MEMBERS_def]
  have "hist = newest (Suc MAX_CHANNEL_CONTEXT_MESSAGES) (channel_before cid (msg_seq (inv_message i)) (w_db ?w2))"
    using recent_messages_newest [OF inv(2) hist]
    by (simp add: MAX_CHANNEL_CONTEXT_MESSAGES_def clamp_page_def min_def max_def word_le_nat_alt)
  note h = bounded_history_longest [OF k, unfolded this] 
  show ?thesis
    unfolding ctx using bm longest_fitting_newest [OF h(1)] h(2) \<open>ms = _\<close> assms(5)
    by (auto simp: some_members_def)
qed

section \<open>A validated configuration\<close>

lemma bounded_reason_length: "length (bounded_reason reason) \<le> 4096"
  using boundary_below_le [of reason 4096] by (simp add: bounded_reason_def REASON_LIMIT_def)

lemma duration_ms_exact: "duration_ms d = Some ms \<Longrightarrow> unat ms = unat d div 1000000"
proof -
  assume "duration_ms d = Some ms"
  then have "d div 1000000 < 2 ^ 64" and ms: "ms = ucast (d div 1000000)" by (auto simp: duration_ms_def split: if_splits)
  then have "unat (d div 1000000) < 2 ^ 64" by (simp add: word_less_nat_alt)
  then show ?thesis by (simp add: ms unsigned_ucast_eq take_bit_nat_eq_self unat_div)
qed

lemma checked_add_u64_unat: "checked_add_u64 a b = Some c \<Longrightarrow> unat c = unat a + unat b"
proof -
  assume "checked_add_u64 a b = Some c"
  then have "c = a + b" "uint a + uint b < 2 ^ 64" by (auto simp: checked_add_u64_def split: if_splits)
  then have "unat a + unat b < 2 ^ LENGTH(64)"
    unfolding uint_nat by (simp add: of_nat_less_iff [symmetric, where ?'a = int])
  then show ?thesis using \<open>c = a + b\<close> unat_add_lem by blast
qed

lemma required_lease_exact:
  "required_lease policy = Some n \<Longrightarrow>
     unat n = unat (tp_wall_timeout_ms policy) + unat (tp_cancel_drain_timeout_ms policy) + 60000"
  using checked_add_u64_unat by (auto simp: required_lease_def LEASE_MARGIN_MS_def bind_eq_Some_conv)

lemma validate_lease_ok:
  assumes "validate_lease config = Inr ()"
  shows "0 < unat (validated_ms (wc_lease_duration config))" "unat (validated_ms (wc_lease_duration config)) \<le> 3600000"
    "unat (validated_ms (wc_pre_arm_retry_delay config)) \<le> 86400000"
    "unat (tp_wall_timeout_ms (wc_turn_policy config)) + unat (tp_cancel_drain_timeout_ms (wc_turn_policy config)) + 60000
      \<le> unat (validated_ms (wc_lease_duration config))"
    "unat (validated_ms (wc_lease_duration config)) = unat (wc_lease_duration config) div 1000000"
    "unat (validated_ms (wc_pre_arm_retry_delay config)) = unat (wc_pre_arm_retry_delay config) div 1000000"
proof -
  obtain l r n where l: "duration_ms (wc_lease_duration config) = Some l"
    "duration_ms (wc_pre_arm_retry_delay config) = Some r" "required_lease (wc_turn_policy config) = Some n"
    "l \<noteq> 0" "l \<le> 3600000" "r \<le> 86400000" "n \<le> l"
    using assms by (auto simp: validate_lease_def and_then_eq_Inr duration_ms_or_def ok_or_def invalid_def
        WORKER_MAX_LEASE_DURATION_MS_def WORKER_MAX_RETRY_DELAY_MS_def split: option.split_asm if_split_asm)
  then show "0 < unat (validated_ms (wc_lease_duration config))" "unat (validated_ms (wc_lease_duration config)) \<le> 3600000"
    "unat (validated_ms (wc_pre_arm_retry_delay config)) \<le> 86400000"
    "unat (tp_wall_timeout_ms (wc_turn_policy config)) + unat (tp_cancel_drain_timeout_ms (wc_turn_policy config)) + 60000
      \<le> unat (validated_ms (wc_lease_duration config))"
    "unat (validated_ms (wc_lease_duration config)) = unat (wc_lease_duration config) div 1000000"
    "unat (validated_ms (wc_pre_arm_retry_delay config)) = unat (wc_pre_arm_retry_delay config) div 1000000"
    using required_lease_exact [OF l(3)] duration_ms_exact [OF l(1)] duration_ms_exact [OF l(2)]
    by (simp_all add: validated_ms_def word_le_nat_alt unat_gt_0)
qed

text \<open>
  C19: a worker that its constructor accepts runs within bounds that the store and the harness accept.
  What it reserves with and what it gives back with are valid requests whatever the diagnostic says;
  its turn policy is one the harness client starts; its lease is the configured one, outlasts the
  wall timeout, the cancellation drain and a minute, without wrapping; permissions are granted
  without asking only inside a sandbox.
\<close>

theorem accepted_worker_is_bounded:
  assumes "worker_new env host config adapter = Inr wk"
  shows "validate_claim \<lparr>claim_limit = 1, claim_lease_duration_ms = validated_ms (wc_lease_duration (wk_config wk))\<rparr> = Inr ()
    \<and> (\<forall>token reason. \<not> trim_is_empty token \<longrightarrow>
         validate_retry \<lparr>retry_lease_token = token,
           retry_after_ms = validated_ms (wc_pre_arm_retry_delay (wk_config wk)),
           retry_error = Some (bounded_reason reason)\<rparr> = Inr ())
    \<and> (\<forall>i b ref prompt. let request = start_turn_request i b ref prompt (wc_turn_policy (wk_config wk)) in
         validate_fence (st_fence request) = Inr () \<longrightarrow> validate_session_ref ref = Inr () \<longrightarrow>
         validate_turn_source (st_source request) = Inr () \<longrightarrow> prompt \<noteq> [] \<longrightarrow>
         validate_start_request None request = Inr ())
    \<and> unat (validated_ms (wc_lease_duration (wk_config wk))) = unat (wc_lease_duration (wk_config wk)) div 1000000
    \<and> unat (tp_wall_timeout_ms (wc_turn_policy (wk_config wk)))
        + unat (tp_cancel_drain_timeout_ms (wc_turn_policy (wk_config wk))) + 60000
        \<le> unat (validated_ms (wc_lease_duration (wk_config wk)))
    \<and> (wc_permission_policy (wk_config wk) = PolicyAllowOnce \<longrightarrow> sandbox_profile_digest (wc_plugin (wk_config wk)) \<noteq> None)"
proof -
  have valid: "validate_config host (wk_config wk) = Inr ()"
    using assms by (auto simp: worker_new_def and_then_eq_Inr)
  let ?c = "wk_config wk"
  have parts: "validate_lease ?c = Inr ()" "validate_policy (wc_turn_policy ?c) = Inr ()"
    "wc_permission_policy ?c = PolicyAllowOnce \<Longrightarrow> sandbox_profile_digest (wc_plugin ?c) \<noteq> None"
    using valid by (auto simp: validate_config_def and_then_eq_Inr invalid_def split: if_split_asm)
  note lease = validate_lease_ok [OF parts(1)]
  have claim: "validate_claim \<lparr>claim_limit = 1, claim_lease_duration_ms = validated_ms (wc_lease_duration ?c)\<rparr> = Inr ()"
    using lease(1,2) by (auto simp: validate_claim_def MAX_CLAIM_LIMIT_def MAX_LEASE_DURATION_MS_def word_le_nat_alt
        word_less_nat_alt unat_gt_0)
  have retry: "validate_retry \<lparr>retry_lease_token = token, retry_after_ms = validated_ms (wc_pre_arm_retry_delay ?c),
      retry_error = Some (bounded_reason reason)\<rparr> = Inr ()" if "\<not> trim_is_empty token" for token reason
    using that lease(3) bounded_reason_length [of reason]
    by (auto simp: validate_retry_def validate_token_def MAX_RETRY_DELAY_MS_def MAX_ERROR_LENGTH_def word_less_nat_alt)
  have start: "validate_start_request None (start_turn_request i b ref prompt (wc_turn_policy ?c)) = Inr ()"
    if "validate_fence (st_fence (start_turn_request i b ref prompt (wc_turn_policy ?c))) = Inr ()"
      "validate_session_ref ref = Inr ()"
      "validate_turn_source (st_source (start_turn_request i b ref prompt (wc_turn_policy ?c))) = Inr ()" "prompt \<noteq> []"
    for i b ref prompt
    using that parts(2)
    by (auto simp: validate_start_request_def start_turn_request_def validate_policy_def invalid_def
        WORKER_MAX_CAPTURE_BYTES_def MAX_CAPTURE_BYTES_def split: if_split_asm)
  show ?thesis unfolding Let_def using claim retry start lease(4,5) parts(3) by blast
qed

end
