(* ===== verification/Worker_Example.thy ===== *)
theory Worker_Example
  imports Turn_Example Worker_Stop Worker_Bounds
begin

text \<open>
  A worker on the concrete store: it starts a plugin, reserves the message that waits for it, opens a
  session, runs one turn and stops.
\<close>

section \<open>The worker\<close>

definition ex_id :: "nat \<Rightarrow> string" where
  "ex_id n = CHR ''u'' # replicate n (CHR ''x'')"

definition ex_interface :: plugin_interface where
  "ex_interface = harness_interface"

definition ex_manifest :: plugin_manifest where
  "ex_manifest = \<lparr>pm_protocol_version = 1, pm_plugin = \<lparr>pi_id = ''p'', pi_name = ''P'', pi_version = ''1''\<rparr>,
     pm_interfaces = [ex_interface]\<rparr>"

text \<open>A token longer than every one in use is fresh.\<close>

definition ex_fresh_token :: "db \<Rightarrow> string" where
  "ex_fresh_token d = replicate (Suc (sum_list (map (\<lambda>r. case d_lease_token r of None \<Rightarrow> 0 | Some t \<Rightarrow> length t)
     (agent_deliveries d)))) (CHR ''t'')"

definition ex_host :: "nat \<Rightarrow> host" where
  "ex_host stop = \<lparr>host_is_file = (\<lambda>_. True), host_is_dir = (\<lambda>_. True), host_spawn = (\<lambda>_ _. Inr (Some 7)),
     host_initialize = (\<lambda>_ _. Inr ex_manifest), host_health = (\<lambda>_. Inr ''ok''), host_shutdown = (\<lambda>_. Inr True),
     host_exit = (\<lambda>_. Some (Inr (Some 0))), host_kill = (\<lambda>_. Inr None), host_cancelled = (\<lambda>n. stop \<le> n),
     host_wait_cancelled = (\<lambda>n. stop \<le> n), host_poll_due = (\<lambda>_. False),
     host_lease_token = (\<lambda>_. ex_fresh_token), host_encode_message = (\<lambda>_. Some ''{}''),
     host_interfaces_json = (\<lambda>_. ''[]'')\<rparr>"

definition ex_spec :: plugin_spec where
  "ex_spec = require_interface ex_interface (plugin_spec_new ''p'' ''/p'')"

definition ex_config :: worker_config where
  "ex_config = \<lparr>wc_agent_id = ''w'', wc_plugin = ex_spec, wc_working_directory = ''/w'',
     wc_additional_directories = [], wc_mcp_grants = [], wc_turn_grants = [],
     wc_compatibility_digest = None, wc_lease_duration = from_secs 120, wc_poll_interval = from_millis 10,
     wc_interrupt_on_new_message = False, wc_interrupt_poll_interval = from_millis 10,
     wc_restart_backoff = from_millis 10, wc_pre_arm_retry_delay = from_millis 10,
     wc_turn_policy = ex_policy, wc_permission_policy = PolicyDeny\<rparr>"

definition ex_adapter :: turn_adapter where
  "ex_adapter = \<lparr>adapter_acceptance = \<lparr>ia_schema_version = 1, ia_message_kinds = [''task'']\<rparr>,
     adapter_prepare = (\<lambda>i _. Inr \<lparr>pt_lane_policy = ''per-channel'', pt_lane_key = msg_channel_id (inv_message i),
       pt_prompt = [PromptText ''go''], pt_result_kind = ''done'', pt_result_capture = CaptureTranscript,
       pt_result_context = JNull\<rparr>)\<rparr>"

definition ex_run_env :: env where
  "ex_run_env = (ex_env True)\<lparr>env_sha256 := (\<lambda>_. ''h''), env_uuid := ex_id\<rparr>"

definition ex_worker :: "nat \<Rightarrow> worker" where
  "ex_worker stop = \<lparr>wk_env = ex_run_env, wk_host = ex_host stop, wk_config = ex_config, wk_adapter = ex_adapter\<rparr>"

text \<open>The world at a tick, with no turn and no grant.\<close>

definition ex_at :: "nat \<Rightarrow> db \<Rightarrow> effect list \<Rightarrow> world" where
  "ex_at n d es = \<lparr>w_tick = n, w_db = d, w_turn = None, w_brokers = (\<lambda>_. None), w_log = es\<rparr>"

lemma ex_at_simps [simp]:
  "world_tick ex_run_env (ex_at n d es) = ex_at (Suc n) d es" "emit e (ex_at n d es) = ex_at n d (es @ [e])"
  "w_tick (ex_at n d es) = n" "w_db (ex_at n d es) = d" "w_log (ex_at n d es) = es"
  "(ex_at n d es)\<lparr>w_db := d'\<rparr> = ex_at n d' es" "(ex_at n d es)\<lparr>w_turn := None\<rparr> = ex_at n d es"
  by (simp_all add: ex_at_def world_tick_def emit_def ex_run_env_def ex_env_def)

lemma ex_run_env_simps [simp]:
  "now_at ex_run_env (ex_at n d es) = 20 + int n" "env_uuid ex_run_env = ex_id" "\<not> env_sink ex_run_env"
  "env_describe ex_run_env n = Inr ex_description"
  by (simp_all add: now_at_def ex_run_env_def ex_env_def)

lemma ex_host_simps [simp]:
  "host_spawn (ex_host k) n p = Inr (Some 7)" "host_initialize (ex_host k) n p = Inr ex_manifest"
  "host_health (ex_host k) n = Inr ''ok''" "host_shutdown (ex_host k) n = Inr True"
  "host_exit (ex_host k) n = Some (Inr (Some 0))" "host_cancelled (ex_host k) n \<longleftrightarrow> k \<le> n"
  "host_lease_token (ex_host k) n d = ex_fresh_token d" "host_interfaces_json (ex_host k) is = ''[]''"
  by (simp_all add: ex_host_def)

lemma ex_worker_simps [simp]:
  "wk_env (ex_worker n) = ex_run_env" "wk_host (ex_worker n) = ex_host n" "wk_config (ex_worker n) = ex_config"
  "wk_adapter (ex_worker n) = ex_adapter"
  by (simp_all add: ex_worker_def)

section \<open>The stores of the run\<close>

definition ex_record :: new_plugin_generation where
  "ex_record = generation_record (ex_worker 8) (ex_id 4) ex_manifest (Some 7) ex_description"

definition ex_recorded :: db where
  "ex_recorded = ex_sent\<lparr>plugin_generations := [new_generation_row ex_record 5000 4096 25]\<rparr>"

definition ex_taken_row :: invocation_row where
  "ex_taken_row = ex_reservation\<lparr>i_id := ex_id 5, i_fence_token := ex_id 6, i_lease_expires_at_ms := 120026,
     i_reserved_at_ms := 26\<rparr>"

definition ex_taken_lease :: delivery_row where
  "ex_taken_lease = ex_lease\<lparr>d_lease_expires_at_ms := Some 120026\<rparr>"

definition ex_taken :: db where
  "ex_taken = ex_recorded\<lparr>agent_deliveries := [ex_taken_lease], invocations := [ex_taken_row]\<rparr>"

definition ex_taken_invocation :: invocation where
  "ex_taken_invocation = ex_invocation\<lparr>inv_id := ex_id 5, inv_fence_token := ex_id 6,
     inv_lease_expires_at_ms := 120026, inv_reserved_at_ms := 26\<rparr>"

definition ex_give_back :: retry_delivery_input where
  "ex_give_back = \<lparr>retry_lease_token = ''t'', retry_after_ms = 0,
     retry_error = Some (bounded_reason ''worker cancelled before dispatch'')\<rparr>"

definition ex_given_back :: db where
  "ex_given_back = ex_taken\<lparr>agent_deliveries := [ex_delivery\<lparr>d_attempt := 1, d_available_at_ms := 29,
       d_last_error := Some ''worker cancelled before dispatch'', d_last_settled_lease_token := Some ''t'',
       d_last_settlement := Some ''retry''\<rparr>],
     invocations := [ex_taken_row\<lparr>i_state := Terminal, i_terminal_at_ms := Some 29,
       i_execution_certainty := Some NotStarted, i_terminal_reason := Some ''retry''\<rparr>]\<rparr>"

definition ex_stop :: stop_plugin_generation_input where
  "ex_stop = \<lparr>stop_disposition = StopStopped, stop_reason = ''worker stopped routing work'',
     stop_shutdown_outcome = Graceful, stop_shutdown_exit_code = Some 0\<rparr>"

definition ex_ended :: db where
  "ex_ended = ex_given_back\<lparr>plugin_generations := map (stopped_row 34 ex_stop) (plugin_generations ex_given_back)\<rparr>"

lemma ex_run_commits:
  "map_sum id snd (record_plugin_generation (\<lambda>_. ''[]'') 25 ex_record ex_sent) = Inr ex_recorded"
  "reserve_invocations_by_kind ''t'' (\<lambda>_. ex_id 5) (\<lambda>_. ex_id 6) 26 ''w''
     \<lparr>claim_limit = 1, claim_lease_duration_ms = 120000\<rparr> [''task''] ex_recorded = Inr ([ex_taken_invocation], ex_taken)"
  "map_sum id snd (retry_delivery 29 ''w'' ''m'' ex_give_back ex_taken) = Inr ex_given_back"
  "map_sum id snd (stop_plugin_generation 34 (ex_id 4) ex_stop ex_given_back) = Inr ex_ended"
  by code_simp+

lemma ex_run_reads:
  "\<not> isl (list_channel_members ''c'' ex_taken)" "list_recent_messages_before ''c'' 1 33 ex_taken = Inr []"
  "ex_fresh_token ex_recorded = ''t''" "validated_ms (wc_lease_duration ex_config) = 120000"
  by code_simp+

lemma ex_lifecycle [simp]:
  "validate_spec (ex_host 8) ex_spec = Inr ()" "negotiate ex_manifest (spec_id ex_spec) (spec_required_interfaces ex_spec) = Inr ()"
  "harness_new ex_manifest = Inr ()" "validate_description ex_description = Inr ex_description"
  by code_simp+

lemma committed_store: "map_sum id snd r = Inr d \<Longrightarrow> \<exists>x. r = Inr (x, d)"
  by (cases r) auto

section \<open>The run, step by step\<close>

lemmas ticks = numeral_2_eq_2 [symmetric]

lemma ex_plugin_starts:
  "process_start (ex_host 8) ex_run_env ex_spec (ex_at 0 d []) = (Inr (ex_manifest, Some 7), ex_at 3 d [ProcessStarted])"
  "harness_describe ex_run_env (ex_at 3 d es) = (Inr ex_description, ex_at 4 d (es @ [SentDescribe]))"
  by (simp_all add: process_start_def initialize_def check_health_def rpc_call_def Let_def ticks
      harness_describe_def protocol_call_def)

lemma ex_generation_recorded:
  "\<exists>v. \<forall>es. transact ex_run_env (ex_id 4) CommittedGeneration (\<lambda>now.
      record_plugin_generation (host_interfaces_json (ex_host 8)) now ex_record) (ex_at 4 ex_sent es)
    = (Inr v, ex_at 5 ex_recorded (es @ [Committed (ex_id 4) CommittedGeneration]))"
proof -
  have fun_eq: "host_interfaces_json (ex_host 8) = (\<lambda>_. ''[]'')" by (simp add: ex_host_def)
  obtain v where "record_plugin_generation (\<lambda>_. ''[]'') 25 ex_record ex_sent = Inr (v, ex_recorded)"
    using committed_store [OF ex_run_commits(1)] by blast
  then show ?thesis by (simp add: transact_def Let_def fun_eq)
qed

lemma ex_reserves:
  "reserve_next (ex_worker 8) (ex_at 5 ex_recorded es)
    = (Inr (Some ex_taken_invocation), ex_at 6 ex_taken (es @ [Committed (ex_id 5) CommittedReservation]))"
proof -
  have "ex_fresh_token ex_recorded = ''t''" "wc_agent_id ex_config = ''w''"
    "ia_message_kinds (adapter_acceptance ex_adapter) = [''task'']" "inv_id ex_taken_invocation = ex_id 5"
    by (simp_all add: ex_run_reads ex_config_def ex_adapter_def ex_taken_invocation_def)
  then show ?thesis by (simp add: reserve_next_def Let_def ex_run_reads ex_run_commits(2))
qed

lemma ex_taken_parts [simp]:
  "inv_id ex_taken_invocation = ex_id 5" "inv_agent_id ex_taken_invocation = ''w''"
  "inv_lease_token ex_taken_invocation = ''t''" "msg_channel_id (inv_message ex_taken_invocation) = ''c''"
  "msg_seq (inv_message ex_taken_invocation) = 1" "msg_id (inv_message ex_taken_invocation) = ''m''"
  by (simp_all add: ex_taken_invocation_def ex_invocation_def message_from_row_def ex_task_def)

lemma ex_gives_back:
  "serve_reserved (ex_worker 8) g ex_taken_invocation (sessions, report, ex_at 6 ex_taken es)
    = Some (Inl ExitStopped, sessions, counted_retry report,
        ex_at 9 ex_given_back (es @ [Committed (ex_id 5) CommittedRetry]))"
proof -
  obtain ms where ms: "list_channel_members ''c'' ex_taken = Inr ms"
    using ex_run_reads(1) by (cases "list_channel_members ''c'' ex_taken") auto
  obtain x where x: "retry_delivery 29 ''w'' ''m'' ex_give_back ex_taken = Inr (x, ex_given_back)"
    using committed_store [OF ex_run_commits(3)] by blast
  have context_read: "\<exists>ctx. channel_turn_context_read (ex_worker 8) ex_taken_invocation (ex_at 6 ex_taken es)
      = (Inr ctx, ex_at 8 ex_taken es)"
    using ms ex_run_reads(2)
    by (auto simp: channel_turn_context_read_def reading_def Let_def MAX_CHANNEL_CONTEXT_MESSAGES_def split: prod.split)
  have prepare: "\<exists>p. prepare_reserved (ex_worker 8) ex_taken_invocation (report, ex_at 6 ex_taken es)
      = (Inr p, report, ex_at 8 ex_taken es)"
    using context_read
    by (auto simp: prepare_reserved_def ex_adapter_def validate_prepared_turn_def trim_is_empty_def)
  have "stop_unarmed (ex_worker 8) ex_taken_invocation (report, ex_at 8 ex_taken es)
      = (ExitStopped, counted_retry report, ex_at 9 ex_given_back (es @ [Committed (ex_id 5) CommittedRetry]))"
    using x by (simp add: stop_unarmed_def retry_unarmed_def transact_def Let_def ex_give_back_def)
  then show ?thesis using prepare by (auto simp: serve_reserved_def cancelled_now_def)
qed

lemma ex_stops:
  "stop_generation (ex_worker 8) (ex_id 4) ExitStopped (ex_at 10 ex_given_back es)
    = (ExitStopped, ex_at 14 ex_ended (es @ [ProcessEnded, Committed (ex_id 4) CommittedStop]))"
proof -
  obtain x where "stop_plugin_generation 34 (ex_id 4) ex_stop ex_given_back = Inr (x, ex_ended)"
    using committed_store [OF ex_run_commits(4)] by blast
  then show ?thesis
    by (simp add: stop_generation_def Let_def generation_exit_evidence_def process_shutdown_def rpc_call_def
        process_gone_def transact_def ex_stop_def)
qed

definition ex_report :: worker_report where
  "ex_report = counted_retry (counted_reservation (counted_generation default_report))"

definition ex_log :: "effect list" where
  "ex_log = [ProcessStarted, SentDescribe, Committed (ex_id 4) CommittedGeneration,
     Committed (ex_id 5) CommittedReservation, Committed (ex_id 5) CommittedRetry, ProcessEnded,
     Committed (ex_id 4) CommittedStop]"

lemma ex_worker_runs: "run_until (ex_worker 8) None (ex_at 0 ex_sent []) = Some (Inr ex_report, ex_at 14 ex_ended ex_log)"
proof -
  obtain v where recorded: "transact ex_run_env (ex_id 4) CommittedGeneration (\<lambda>now.
      record_plugin_generation (host_interfaces_json (ex_host 8)) now ex_record) (ex_at 4 ex_sent es)
    = (Inr v, ex_at 5 ex_recorded (es @ [Committed (ex_id 4) CommittedGeneration]))" for es
    using ex_generation_recorded by blast
  have driven: "drive_generation (ex_worker 8) g None (Map.empty, report, ex_at 5 ex_recorded es)
      = Some (ExitStopped, counted_retry (counted_reservation report), ex_at 9 ex_given_back
          (es @ [Committed (ex_id 5) CommittedReservation, Committed (ex_id 5) CommittedRetry]))" for g report es
    by (subst drive_generation.simps)
      (simp add: drive_step_def cancelled_now_def limit_reached_def ex_reserves ex_gives_back)
  have described: "run_described (ex_worker 8) None ex_manifest (Some 7) ex_description (report, ex_at 4 ex_sent es)
      = Some (ExitStopped, counted_retry (counted_reservation report), ex_at 14 ex_ended
          (es @ [Committed (ex_id 4) CommittedGeneration, Committed (ex_id 5) CommittedReservation,
             Committed (ex_id 5) CommittedRetry, ProcessEnded, Committed (ex_id 4) CommittedStop]))" for report es
    by (simp add: run_described_def Let_def recorded driven ex_stops ex_record_def [symmetric])
  have "wc_plugin ex_config = ex_spec" by (simp add: ex_config_def)
  then have "run_generation (ex_worker 8) None (default_report, ex_at 0 ex_sent [])
      = Some (ExitStopped, ex_report, ex_at 14 ex_ended ex_log)"
    by (simp add: run_generation_def Let_def ex_plugin_starts described ex_report_def ex_log_def)
  then show ?thesis
    by (subst run_until_def, subst run_generations.simps) (simp add: cancelled_now_def limit_reached_def)
qed

section \<open>The run in terms of its properties\<close>

lemma ex_run_others_ok: "others_ok ex_run_env"
  using ex_others_ok by (simp add: ex_run_env_def others_ok_def)

lemma ex_tokens_fresh: "tokens_fresh (ex_host k)"
proof -
  have "length t < length (ex_fresh_token d)" if r: "r \<in> set (agent_deliveries d)" "d_lease_token r = Some t" for r t d
  proof -
    have "length t \<in> set (map (\<lambda>r. case d_lease_token r of None \<Rightarrow> 0 | Some t \<Rightarrow> length t) (agent_deliveries d))"
      using r by force
    from member_le_sum_list [OF this] show ?thesis by (simp add: ex_fresh_token_def)
  qed
  then show ?thesis unfolding tokens_fresh_def token_fresh_def ex_host_simps by blast
qed


theorem report_is_exact_witness:
  "run_until (ex_worker 8) None (ex_at 0 ex_sent []) = Some (Inr ex_report, ex_at 14 ex_ended ex_log)
   \<and> unat (wr_reservations ex_report) = 1 \<and> unat (wr_pre_arm_retries ex_report) = 1
   \<and> unat (settled_turns ex_report) = 0"
  using report_is_exact [of "ex_worker 8" None "ex_at 0 ex_sent []", OF _ _ ex_worker_runs]
    ex_run_others_ok ex_tokens_fresh ex_worker_runs
  by (simp add: ex_log_def count_committed_def)


theorem turn_context_bounded_witness:
  "\<exists>ctx w'. channel_turn_context_read (ex_worker 8) ex_invocation (ex_at 6 ex_hosted []) = (Inr ctx, w')
     \<and> length (ctx_members ctx) = 2 \<and> \<not> ctx_members_truncated ctx \<and> ctx_recent_history ctx = []
     \<and> \<not> ctx_recent_history_truncated ctx"
proof -
  have parts: "msg_channel_id (inv_message ex_invocation) = ''c''" "msg_seq (inv_message ex_invocation) = 1"
    by (simp_all add: ex_invocation_def message_from_row_def ex_task_def)
  have reads: "\<not> isl (list_channel_members ''c'' ex_hosted)" "list_recent_messages_before ''c'' 1 33 ex_hosted = Inr []"
    "length (participants ''c'' ex_hosted) = 2" "channel_before ''c'' 1 ex_hosted = []"
    by code_simp+
  have "\<exists>ctx. channel_turn_context_read (ex_worker 8) ex_invocation (ex_at 6 ex_hosted [])
      = (Inr ctx, ex_at 8 ex_hosted [])"
    using reads(1,2) parts
    by (cases "list_channel_members ''c'' ex_hosted")
      (auto simp: channel_turn_context_read_def reading_def Let_def MAX_CHANNEL_CONTEXT_MESSAGES_def split: prod.split)
  then obtain ctx where ctx: "channel_turn_context_read (ex_worker 8) ex_invocation (ex_at 6 ex_hosted [])
      = (Inr ctx, ex_at 8 ex_hosted [])" by blast
  from turn_context_bounded [OF _ _ this refl refl] show ?thesis
    using ctx ex_run_others_ok ex_session_reachable(6) reads(3,4) parts
    by (auto simp: longest_fitting_def)
qed

theorem accepted_worker_is_bounded_witness:
  "worker_new ex_run_env (ex_host 8) ex_config ex_adapter = Inr (ex_worker 8)
   \<and> validate_claim \<lparr>claim_limit = 1, claim_lease_duration_ms = validated_ms (wc_lease_duration ex_config)\<rparr> = Inr ()
   \<and> unat (tp_wall_timeout_ms ex_policy) + unat (tp_cancel_drain_timeout_ms ex_policy) + 60000
       \<le> unat (validated_ms (wc_lease_duration ex_config))"
proof -
  have "validate_config (ex_host 8) ex_config = Inr ()" by code_simp
  then have new: "worker_new ex_run_env (ex_host 8) ex_config ex_adapter = Inr (ex_worker 8)"
    by (simp add: worker_new_def ex_worker_def)
  moreover have "wc_turn_policy ex_config = ex_policy" by (simp add: ex_config_def)
  ultimately show ?thesis using accepted_worker_is_bounded [OF new] by simp
qed

end
