(* ===== verification/Spec2Isabelle.thy ===== *)
theory Spec2Isabelle
  imports Witnesses Replay Edge_Cases Control_Example Browser_Example Worker_Example
begin

text \<open>
  \<^bold>\<open>fleetd\<close> is a control plane for cooperating software agents.  Agents share channels; a message appended to
  a channel is snapshotted into one delivery per inbox member; a worker leases deliveries, runs each as
  an invocation of a harness, possibly on a native session, and settles it.  What makes this hard is
  crashes: a lease may lapse while the work is running, and the program promises that work whose outcome
  is unknown is never silently run again.  All durable state is one SQLite database, changed only by
  transactions, so the development models the operations as functions on that database, and the worker
  above it as a program that interleaves those transactions with everybody else's and with what it says
  to a plugin.

  \<^bold>\<open>The parts and their theories.\<close>

  \<^item> \<open>Prelude\<close>: results, machine integers, byte strings, tables as lists of rows, and the interfaces
    \<open>enum_codec\<close>, \<open>transition_system\<close> and \<open>evolving_system\<close>.  \<open>Model\<close>: the wire types and errors of
    \<open>crates/proto\<close> and \<open>crates/kernel/src/error.rs\<close>.  \<open>Schema\<close>: the tables of \<open>crates/kernel/migrations\<close>;
    an insert enforces primary keys, unique indexes and references, the CHECK constraints are proved.
  \<^item> \<open>Channels\<close>, \<open>Messages\<close>, \<open>Delivery\<close>, \<open>Conversation\<close>: agents, channels and membership, the message
    log (\<open>crates/kernel/src/store\<close>), the delivery rows (\<open>delivery.rs\<close>), and the read models of
    \<open>crates/conversation\<close>.
  \<^item> \<open>Session_Fence\<close>, \<open>Invocation\<close>, \<open>Settlement\<close>, \<open>Session_Turns\<close>, \<open>Observations\<close>, \<open>Health\<close>: the
    execution crate (\<open>crates/execution/src\<close>): session bindings and their owner fence, invocations and
    the recovery of lapsed ones, settlement, turns on native sessions, the bounded evidence, health.
  \<^item> \<open>Registry\<close>, \<open>Triggers\<close>, \<open>Seats\<close>: credentials (\<open>crates/kernel/src/auth\<close>), inbound triggers and seat
    configurations.
  \<^item> \<open>Channel_Stream\<close>, \<open>Stream_Grants\<close>, \<open>Http_Api\<close>, \<open>Browser_Edge\<close>: the live streams, the single-use
    grants for browsers, the authenticated HTTP surface, and the edge at which a browser redeems a grant
    (\<open>crates/http/src\<close>); \<open>Browser_Session\<close> proves the edge.
  \<^item> \<open>Json_Value\<close>, \<open>Harness_Model\<close>, \<open>Harness_Client\<close>, \<open>Plugin_Process\<close>: the protocol with a plugin: its
    manifest, frames and transcripts (\<open>crates/proto\<close>), the typed harness client and the life of the
    process (\<open>crates/plugin-host/src\<close>).  \<open>Permission\<close> and \<open>Message_Grant\<close>: what a turn is allowed
    (\<open>permission.rs\<close>, \<open>message_grant.rs\<close>).  \<open>Controller\<close>: one managed turn (\<open>controller.rs\<close>).
    \<open>Worker_Context\<close> and \<open>Worker\<close>: the configuration of a worker, what it hands to its adapter, and its
    loop (\<open>worker.rs\<close>).
  \<^item> \<open>Fleet\<close> and \<open>Control\<close> put the operations together: a step is one committed transaction of any
    operation, with whatever arguments, clock and identifiers; \<open>Fleet\<close> on the core tables, \<open>Control\<close> with
    credentials, triggers and seats.  \<open>History\<close>, \<open>Sessions\<close>, \<open>Session_Fleet\<close> and \<open>Evidence\<close> prove what
    every step keeps: the invariants and the relation between the rows before and after.
  \<^item> \<open>Controller_Run\<close>, \<open>Controller_Outcome\<close>, \<open>Turn_Results\<close>: what a managed turn guarantees;
    \<open>Worker_Run\<close>, \<open>Worker_Stop\<close>, \<open>Worker_Bounds\<close>: what a worker does.
  \<^item> \<open>Replay\<close>, \<open>Authority\<close>, \<open>Http_Authority\<close>, \<open>Confinement\<close>, \<open>Edge_Cases\<close> and this theory hold the properties
    that span components; \<open>Example\<close>, \<open>Session_Example\<close>, \<open>Control_Example\<close>, \<open>Surface_Example\<close>,
    \<open>Browser_Example\<close>, \<open>Turn_Example\<close>, \<open>Worker_Example\<close> and \<open>Witnesses\<close> one concrete run on which they are evaluated.

  \<^bold>\<open>How the model reads.\<close>  A Rust function is a definition of the same name; \<open>Result\<close> is a sum whose left
  side is the error; a transaction maps a database to a value and a new database, or to an error, which
  rolls back.  A SQL statement is the list operation it stands for: an UPDATE is \<open>update_where\<close>, a
  SELECT a filter and a sort.  The clock, identifiers and entropy are arguments; SHA-256, base64 and the
  JSON encodings, which are libraries, are arguments too.  An \<open>i64\<close> is an integer, since the program only
  changes one by checked or saturating operations, which are written out; the \<open>u32\<close> and \<open>u64\<close> of the wire
  types are words.  A read outside a transaction takes a database of its own, which need not be the one
  the write starts from.  \<open>Channel_Stream\<close> reads and sends through an environment indexed by the number of
  actions so far; its replay loop is a partial function, and it is proved to return.  The controller and
  the worker run in a \<open>world\<close>: the database, the grants, a log of what was committed and sent, and a tick.
  Every await is a tick, at which the others may step the fleet; the answers of the plugin, the deadlines,
  the cancellation token and which branch of a \<open>select!\<close> is ready are functions of the tick, so a theorem
  holds whatever they are.  A panic is the value \<open>None\<close>, and so is a loop that never ends.

  \<^bold>\<open>What is shown.\<close>  An armed attempt is never redelivered by the fleet itself; settled work is final;
  deliveries follow their life cycle; a lane has one live session and a session's turn agrees with its
  attempt; completions, acknowledgements, appends and firings are safe to repeat; pages, streams, grants
  and unread counts lose and repeat nothing; revoked credentials are dead; capacity is bounded and never
  panics; and every HTTP request is one step of all this, confined to what its principal may reach.  A
  managed turn refines its protocol: armed before its one prompt, its grants revoked, its outcome durable;
  it returns once its deadlines fire.  A worker refines the protocol above that, reports exactly what it
  did, stops when it is cancelled, and hands on contexts within their bounds.

  \<^bold>\<open>Bounds and choices.\<close>  There is no fuel in the model.  A lease token is assumed fresh when it is drawn (a
  random UUID); nothing else is assumed of identifiers, and a clash is the database's uniqueness error.
  Overflow of AUTOINCREMENT keys is not modelled.

  \<^bold>\<open>Not modelled.\<close>  Child processes and their pipes, the harness and inference hosts and the plugins
  themselves, the operating-system sandbox, the scheduling of tasks, the exporter of telemetry, the command
  line, sockets and rendering: they are input and output around the operations above.  The manifest lists
  each part.
\<close>

section \<open>The life of an attempt\<close>

text \<open>
  C1: an attempt that was armed is never redelivered by the fleet itself.  In every reachable state,
  the delivery of an armed invocation is still leased to that invocation, or was acknowledged by it,
  or was blocked for exactly this lease; and then it stays blocked until the operator resolves that
  very block, dead if the operator abandoned it, and only a requeue lets it run again.
\<close>

theorem armed_attempt_never_redelivered:
  assumes "fleet_reachable d" and "i \<in> set (invocations d)" and "i_dispatch_armed_at_ms i \<noteq> None"
  shows "\<exists>r. delivery_at (i_message_seq i, i_agent_id i) d = Some r \<and>
    (case i_execution_certainty i of
       None \<Rightarrow> i_state i = DispatchArmed \<and> d_state r = Leased \<and> d_lease_token r = Some (i_lease_token i)
         \<and> d_lease_expires_at_ms r = Some (i_lease_expires_at_ms i) \<and> d_attempt r = i_delivery_attempt i
     | Some certainty \<Rightarrow> i_state i = Terminal \<and>
         (certainty = OutcomeKnown \<and> d_state r = Acknowledged
            \<and> d_last_settled_lease_token r = Some (i_lease_token i) \<and> d_attempt r = i_delivery_attempt i
          \<or> certainty = OutcomeUnknown \<and>
            (\<exists>b\<in>set (delivery_blocks d). b_message_seq b = i_message_seq i \<and> b_agent_id b = i_agent_id i
               \<and> b_lease_token b = i_lease_token i \<and> b_attempt b = i_delivery_attempt i
               \<and> (case b_resolution b of
                    None \<Rightarrow> d_state r = Blocked \<and> d_attempt r = i_delivery_attempt i
                  | Some resolution \<Rightarrow> resolution = ''abandoned'' \<and> d_state r = Dead
                      \<or> resolution = ''requeued'' \<and> i_delivery_attempt i \<le> d_attempt r))))"
proof -
  have core: "core_inv d" using assms(1) by (rule core.reachable_inv)
  have ok: "invocation_ok d i" using core_invD(5) [OF core] assms(2) by (rule invocation_okD)
  then have check: "invocation_check i" by (simp add: invocation_ok_def)
  show ?thesis
  proof (cases "i_state i")
    case Reserved
    then show ?thesis using check assms(3) by (simp add: invocation_check_def)
  next
    case DispatchArmed
    then have "fence_ok d i" using ok by (simp add: invocation_ok_def)
    then show ?thesis using check DispatchArmed by (auto simp: fence_ok_def invocation_key_def invocation_check_def)
  next
    case Terminal
    then have "outcome_ok d i" using ok by (simp add: invocation_ok_def)
    then obtain r where r: "delivery_at (invocation_key i) d = Some r"
      "i_execution_certainty i \<noteq> Some NotStarted"
      "i_execution_certainty i = Some OutcomeKnown \<longrightarrow> d_state r = Acknowledged
         \<and> d_last_settled_lease_token r = Some (i_lease_token i) \<and> d_attempt r = i_delivery_attempt i"
      "i_execution_certainty i = Some OutcomeUnknown \<longrightarrow>
         (\<exists>b\<in>set (delivery_blocks d). block_key b = invocation_key i
            \<and> b_lease_token b = i_lease_token i \<and> b_attempt b = i_delivery_attempt i)"
      unfolding outcome_ok_def using assms(3) by blast
    have "i_execution_certainty i \<noteq> None" using check Terminal by (simp add: invocation_check_def)
    then consider "i_execution_certainty i = Some OutcomeKnown" | "i_execution_certainty i = Some OutcomeUnknown"
      using r(2) by (cases "i_execution_certainty i") (auto intro: execution_certainty.exhaust)
    then show ?thesis
    proof cases
      case 1
      then show ?thesis using r Terminal by (auto simp: invocation_key_def)
    next
      case 2
      then obtain b where b: "b \<in> set (delivery_blocks d)" "block_key b = invocation_key i"
        "b_lease_token b = i_lease_token i" "b_attempt b = i_delivery_attempt i" using r(4) by blast
      obtain q where "delivery_at (block_key b) d = Some q" "block_link b q" "block_check b"
        using block_linked [OF core_invD(4) [OF core] b(1)] by blast
      then have link: "block_link b r" "block_check b" using b r by simp_all
      show ?thesis
        unfolding 2 option.case using r(1) b link Terminal
        by (intro exI [of _ r] conjI disjI2 bexI [of _ b])
          (auto simp: invocation_key_def block_key_def block_link_def block_check_def split: option.splits)
    qed
  qed
qed

theorem armed_attempt_never_redelivered_witness:
  "fleet_reachable ex_parked \<and> ex_parked_attempt \<in> set (invocations ex_parked)
   \<and> i_dispatch_armed_at_ms ex_parked_attempt \<noteq> None
   \<and> (\<exists>r. delivery_at (1, ''w'') ex_parked = Some r \<and> d_state r = Blocked \<and> d_attempt r = 1)"
  using armed_attempt_never_redelivered [OF ex_reachable(6), of ex_parked_attempt] ex_reachable(6)
  by (simp add: ex_parked_def ex_parked_attempt_def ex_attempt_def ex_reservation_def ex_block_row_def)

section \<open>Every reachable store\<close>

lemma delivery_row_exists: "delivery_at (n, a) d = Some r \<Longrightarrow> delivery_exists n a d"
  by (auto simp: delivery_exists_def delivery_key_def dest!: delivery_at_key)



text \<open>
  C6: a delivery is blocked exactly while one block record of it waits for the operator, and that
  record names the attempt and the lease that were blocked.
\<close>

theorem blocked_iff_one_open_block:
  assumes "fleet_reachable d" and "delivery_at k d = Some r"
  shows "d_state r = Blocked \<longleftrightarrow>
    (\<exists>!b. b \<in> set (delivery_blocks d) \<and> (b_message_seq b, b_agent_id b) = k \<and> b_resolution b = None
       \<and> b_attempt b = d_attempt r \<and> d_last_settled_lease_token r = Some (b_lease_token b))"
proof
  note inv = core_invD(4) [OF reachable_fleet(1) [OF assms(1)]]
  let ?open = "\<lambda>b. b \<in> set (delivery_blocks d) \<and> (b_message_seq b, b_agent_id b) = k \<and> b_resolution b = None
       \<and> b_attempt b = d_attempt r \<and> d_last_settled_lease_token r = Some (b_lease_token b)"
  have link: "block_link b r" if "b \<in> set (delivery_blocks d)" "block_key b = k" for b
    using block_linked [OF inv that(1)] that(2) assms(2) by force
  show "d_state r = Blocked \<Longrightarrow> \<exists>!b. ?open b"
  proof -
    assume "d_state r = Blocked"
    from blocked_has_block [OF inv assms(2) this] obtain b where
      b: "b \<in> set (delivery_blocks d)" "block_key b = k" "b_resolution b = None" by blast
    then have op: "?open b" using link [OF b(1,2)] by (simp add: block_link_def block_key_def)
    have u: "unique_on (\<lambda>b. (b_message_seq b, b_agent_id b, b_lease_token b)) (delivery_blocks d)"
      using inv by (simp add: blocks_inv_def)
    have "c = b" if c: "?open c" for c
    proof (rule unique_onD [OF u])
      show "c \<in> set (delivery_blocks d)" "b \<in> set (delivery_blocks d)" using c b by blast+
      have "(b_message_seq c, b_agent_id c) = k" "(b_message_seq b, b_agent_id b) = k"
        "Some (b_lease_token c) = Some (b_lease_token b)" using c op by (metis (no_types))+
      then show "(b_message_seq c, b_agent_id c, b_lease_token c) = (b_message_seq b, b_agent_id b, b_lease_token b)"
        by auto
    qed
    with op show ?thesis by blast
  qed
  assume "\<exists>!b. ?open b"
  then obtain b where "?open b" by blast
  then show "d_state r = Blocked" using link [of b] by (auto simp: block_link_def block_key_def)
qed

theorem blocked_iff_one_open_block_witness:
  "fleet_reachable ex_parked \<and> (\<exists>r. delivery_at (1, ''w'') ex_parked = Some r \<and> d_state r = Blocked
     \<and> (\<exists>!b. b \<in> set (delivery_blocks ex_parked) \<and> (b_message_seq b, b_agent_id b) = (1, ''w'')
          \<and> b_resolution b = None \<and> b_attempt b = d_attempt r \<and> d_last_settled_lease_token r = Some (b_lease_token b)))"
proof -
  obtain r where r: "delivery_at (1, ''w'') ex_parked = Some r" "d_state r = Blocked"
    by (simp add: ex_parked_def delivery_at_def delivery_key_def ex_delivery_def)
  show ?thesis
    using blocked_iff_one_open_block [OF ex_reachable(6) r(1)] ex_reachable(6) r by simp
qed

section \<open>Runs\<close>

text \<open>
  C3: whatever the operations of a run do, every delivery only takes the transitions of the abstract
  life cycle: leased with its attempt counted up, settled from the lease to acknowledged, pending or
  blocked, and from blocked only to pending or dead.
\<close>

theorem delivery_life_refined:
  assumes "fleet_reachable d" and "fleet_step\<^sup>*\<^sup>* d d'" and "delivery_at k d = Some r"
  shows "\<exists>r'. delivery_at k d' = Some r' \<and> life_step\<^sup>*\<^sup>* (d_state r, d_attempt r) (d_state r', d_attempt r')"
proof -
  have "evolves d d'" using run_history [OF assms(1,2)] by (simp add: fleet_history_def history_def)
  then obtain r' where "delivery_at k d' = Some r'" "delivery_kept r r'" using assms(3) unfolding evolves_def by blast
  then show ?thesis by (auto simp: delivery_kept_def phase_def)
qed

theorem delivery_life_refined_witness:
  "fleet_reachable ex_armed \<and> fleet_step\<^sup>*\<^sup>* ex_armed ex_parked \<and> delivery_at (1, ''w'') ex_armed = Some ex_lease
   \<and> (\<exists>r'. delivery_at (1, ''w'') ex_parked = Some r' \<and> life_step\<^sup>*\<^sup>* (Leased, 1) (d_state r', d_attempt r'))"
proof -
  have at: "delivery_at (1, ''w'') ex_armed = Some ex_lease" and st: "d_state ex_lease = Leased" "d_attempt ex_lease = 1"
    by code_simp+
  from delivery_life_refined [OF ex_reachable(5) r_into_rtranclp [of fleet_step, OF ex_steps(1)] at] show ?thesis
    using ex_reachable(5) ex_steps(1) at by (auto simp: st)
qed

text \<open>
  C2: what has been settled stays settled over every run.  Messages are only appended; an
  acknowledged or dead delivery, a resolved block, a terminal invocation, a retired binding, a
  closed turn, a terminal observation and a stopped generation never change again, and a read
  cursor never moves back.
\<close>

theorem settled_is_final:
  assumes "fleet_reachable d" and "fleet_step\<^sup>*\<^sup>* d d'"
  shows "(\<exists>ms. messages d' = messages d @ ms)
    \<and> (\<forall>k r. delivery_at k d = Some r \<and> d_state r \<in> {Acknowledged, Dead} \<longrightarrow> delivery_at k d' = Some r)
    \<and> (\<forall>b\<in>set (delivery_blocks d). b_resolution b \<noteq> None \<longrightarrow> b \<in> set (delivery_blocks d'))
    \<and> (\<forall>i\<in>set (invocations d). i_state i = Terminal \<longrightarrow> i \<in> set (invocations d'))
    \<and> (\<forall>s\<in>set (session_bindings d). s_state s = Retired \<longrightarrow> s \<in> set (session_bindings d'))
    \<and> (\<forall>t\<in>set (session_binding_turns d). t_state t \<noteq> TurnActive \<longrightarrow> t \<in> set (session_binding_turns d'))
    \<and> (\<forall>q\<in>set (invocation_observations d). o_terminal_at_ms q \<noteq> None \<longrightarrow> q \<in> set (invocation_observations d'))
    \<and> (\<forall>g\<in>set (plugin_generations d). g_state g = GenerationStopped \<longrightarrow> g \<in> set (plugin_generations d'))
    \<and> (\<forall>m\<in>set (channel_members d). \<exists>m'\<in>set (channel_members d'). cm_channel_id m' = cm_channel_id m
         \<and> cm_agent_id m' = cm_agent_id m \<and> cm_read_through_seq m \<le> cm_read_through_seq m')"
proof -
  have hist: "history d d'" "session_history d d'" "evidence_history d d'"
    using run_history [OF assms] by (simp_all add: fleet_history_def)
  have ev: "evolves d d'" and dir: "directory_kept d d'" using hist(1) by (simp_all add: history_def)
  have "\<exists>ms. messages d' = messages d @ ms" using ev by (simp add: evolves_def)
  moreover have "delivery_at k d' = Some r" if "delivery_at k d = Some r" "d_state r \<in> {Acknowledged, Dead}" for k r
    using ev that unfolding evolves_def delivery_kept_def by fastforce
  moreover have "b \<in> set (delivery_blocks d')" if "b \<in> set (delivery_blocks d)" "b_resolution b \<noteq> None" for b
    using ev that unfolding evolves_def block_kept_def by metis
  moreover have "i \<in> set (invocations d')" if "i \<in> set (invocations d)" "i_state i = Terminal" for i
    using hist(1) that unfolding history_def rows_kept_def invocation_kept_def by metis
  moreover have "s \<in> set (session_bindings d')" if "s \<in> set (session_bindings d)" "s_state s = Retired" for s
    using hist(2) that unfolding session_history_def rows_kept_def binding_kept_def by metis
  moreover have "t \<in> set (session_binding_turns d')" if "t \<in> set (session_binding_turns d)" "t_state t \<noteq> TurnActive" for t
    using hist(2) that unfolding session_history_def rows_kept_def turn_kept_def by metis
  moreover have "q \<in> set (invocation_observations d')"
    if "q \<in> set (invocation_observations d)" "o_terminal_at_ms q \<noteq> None" for q
    using hist(3) that unfolding evidence_history_def rows_kept_def observation_kept_def by metis
  moreover have "g \<in> set (plugin_generations d')" if "g \<in> set (plugin_generations d)" "g_state g = GenerationStopped" for g
    using hist(3) that unfolding evidence_history_def rows_kept_def generation_kept_def by metis
  moreover have "\<exists>m'\<in>set (channel_members d'). cm_channel_id m' = cm_channel_id m
         \<and> cm_agent_id m' = cm_agent_id m \<and> cm_read_through_seq m \<le> cm_read_through_seq m'"
    if "m \<in> set (channel_members d)" for m
    using dir that member_keptD unfolding directory_kept_def rows_kept_def by meson
  ultimately show ?thesis by blast
qed

theorem settled_is_final_witness:
  "fleet_reachable ex_parked \<and> fleet_step\<^sup>*\<^sup>* ex_parked ex_requeued \<and> ex_parked_attempt \<in> set (invocations ex_requeued)"
proof -
  have "ex_parked_attempt \<in> set (invocations ex_parked)" "i_state ex_parked_attempt = Terminal" by code_simp+
  then show ?thesis
    using settled_is_final [OF ex_reachable(6) r_into_rtranclp [of fleet_step, OF ex_steps(2)]] ex_reachable(6) ex_steps(2) by blast
qed

section \<open>Native sessions\<close>

text \<open>
  C4: a lane of an agent never has two live sessions: of all the bindings a lane ever had, at most
  one is not retired.
\<close>

theorem one_live_binding_per_lane:
  assumes "fleet_reachable d" and "s \<in> set (session_bindings d)" and "q \<in> set (session_bindings d)"
    and "s_agent_id s = s_agent_id q" and "s_lane_policy s = s_lane_policy q" and "s_lane_key s = s_lane_key q"
    and "s_state s \<noteq> Retired" and "s_state q \<noteq> Retired"
  shows "s = q"
proof -
  have "bindings_inv d" using reachable_fleet(2) [OF assms(1)] by (simp add: sessions_inv_def)
  then show ?thesis using assms(2-) by (simp add: bindings_inv_def lane_def)
qed

theorem one_live_binding_per_lane_witness:
  "fleet_reachable ex_opened \<and> hd (session_bindings ex_opened) \<in> set (session_bindings ex_opened)
   \<and> s_state (hd (session_bindings ex_opened)) \<noteq> Retired \<and> hd (session_bindings ex_opened) = ex_ready"
proof -
  let ?q = "hd (session_bindings ex_opened)"
  have "?q \<in> set (session_bindings ex_opened)" "ex_ready \<in> set (session_bindings ex_opened)"
    "s_agent_id ?q = s_agent_id ex_ready" "s_lane_policy ?q = s_lane_policy ex_ready" "s_lane_key ?q = s_lane_key ex_ready"
    "s_state ?q \<noteq> Retired" "s_state ex_ready \<noteq> Retired"
    by code_simp+
  from this(1,6) one_live_binding_per_lane [OF ex_session_reachable(1) this] ex_session_reachable(1) show ?thesis by blast
qed



text \<open>
  Every native turn is observed exactly once, under the very fence it was armed with, and no
  observation exists without its turn.
\<close>

theorem turn_observed_once:
  assumes "fleet_reachable d"
  shows "(\<forall>t\<in>set (session_binding_turns d). \<exists>!q. q \<in> set (invocation_observations d)
      \<and> o_invocation_id q = t_invocation_id t \<and> o_binding_id q = t_binding_id t
      \<and> o_binding_generation q = t_binding_generation t \<and> o_owner_epoch q = t_owner_epoch t)
    \<and> (\<forall>q\<in>set (invocation_observations d). \<exists>!t. t \<in> set (session_binding_turns d) \<and> t_invocation_id t = o_invocation_id q)"
proof -
  have ids: "observation_id ` set (invocation_observations d) = turn_ids d"
    and uq: "unique_on o_invocation_id (invocation_observations d)"
    using reachable_fleet(3) [OF assms] by (auto simp: evidence_inv_def observations_inv_def)
  have ut: "unique_on t_invocation_id (session_binding_turns d)"
    using reachable_fleet(2) [OF assms] by (simp add: sessions_inv_def turn_links_def)
  have "\<exists>!q. q \<in> set (invocation_observations d) \<and> o_invocation_id q = t_invocation_id t \<and> o_binding_id q = t_binding_id t
      \<and> o_binding_generation q = t_binding_generation t \<and> o_owner_epoch q = t_owner_epoch t"
    if "t \<in> set (session_binding_turns d)" for t
  proof -
    have "(t_invocation_id t, turn_key t, t_owner_epoch t) \<in> observation_id ` set (invocation_observations d)"
      unfolding ids using that by (auto simp: turn_ids_def)
    then obtain q where "q \<in> set (invocation_observations d)" "observation_id q = (t_invocation_id t, turn_key t, t_owner_epoch t)"
      by auto
    then show ?thesis using unique_onD [OF uq] by (auto simp: observation_id_def turn_key_def)
  qed
  moreover have "\<exists>!t. t \<in> set (session_binding_turns d) \<and> t_invocation_id t = o_invocation_id q"
    if "q \<in> set (invocation_observations d)" for q
  proof -
    have "observation_id q \<in> turn_ids d" using ids that by blast
    then obtain t where "t \<in> set (session_binding_turns d)" "t_invocation_id t = o_invocation_id q"
      by (auto simp: turn_ids_def observation_id_def)
    then show ?thesis using unique_onD [OF ut] by auto
  qed
  ultimately show ?thesis by blast
qed

theorem turn_observed_once_witness:
  "fleet_reachable ex_bound \<and> ex_turn \<in> set (session_binding_turns ex_bound)
   \<and> (\<exists>q. q \<in> set (invocation_observations ex_bound) \<and> o_invocation_id q = ''i'')"
proof -
  have t: "ex_turn \<in> set (session_binding_turns ex_bound)" "t_invocation_id ex_turn = ''i''" by code_simp+
  with turn_observed_once [OF ex_session_reachable(2)] ex_session_reachable(2) show ?thesis by fastforce
qed

section \<open>Repeating a settlement\<close>

text \<open>
  C20: a completion is safe to repeat.  After an invocation was completed, and whatever ran since,
  completing it again under the same tokens with the same result returns the first completion and
  writes nothing; with another kind or payload it is refused as a conflict.
\<close>

theorem completion_replays:
  assumes "fleet_reachable d" and "complete_invocation uuid msg_now now a iid inp d = Inr ((c, created), d1)"
    and "fleet_step\<^sup>*\<^sup>* d1 d2" and "validate_completion iid inp2 = Inr ()"
    and "complete_lease_token inp2 = complete_lease_token inp" and "complete_fence_token inp2 = complete_fence_token inp"
  shows "complete_invocation uuid2 msg_now2 now2 a iid inp2 d2 =
    (if complete_kind inp2 = complete_kind inp \<and> complete_payload inp2 = complete_payload inp then Inr ((c, False), d2)
     else Inl (Conflict ''invocation was already completed with a different result''))"
proof -
  have r1: "fleet_reachable d1" using assms(1,2) by (auto intro: reachable.step fleet_step.invocation_completed)
  have r2: "fleet_reachable d2" using run_reachable [OF assms(3) r1] .
  have "completed_as d1 a iid inp c"
    using complete_completed_as [OF reachable_fleet(1) [OF assms(1)]] assms(2) unfolding complete_invocation_def .
  moreover have "history d1 d2" using run_history [OF r1 assms(3)] by (simp add: fleet_history_def)
  ultimately have "completed_as d2 a iid inp c" by (rule completed_as_run)
  from completed_as_replays [OF reachable_fleet(1,2) [OF r2] this assms(4-6)] show ?thesis
    unfolding complete_invocation_def .
qed

theorem completion_replays_witness:
  "\<exists>c d1. complete_invocation ''r'' 40 40 ''w'' ''i'' ex_complete ex_armed = Inr ((c, True), d1)
     \<and> complete_invocation ''z'' 90 90 ''w'' ''i'' ex_complete d1 = Inr ((c, False), d1)"
proof -
  have "(case complete_invocation ''r'' 40 40 ''w'' ''i'' ex_complete ex_armed of Inl e \<Rightarrow> False | Inr ((c, created), d) \<Rightarrow> created)"
    by code_simp
  then obtain c d1 where c: "complete_invocation ''r'' 40 40 ''w'' ''i'' ex_complete ex_armed = Inr ((c, True), d1)"
    by (auto split: sum.splits prod.splits)
  have "validate_completion ''i'' ex_complete = Inr ()" by code_simp
  from completion_replays [OF ex_reachable(5) c rtranclp.rtrancl_refl this refl refl] c show ?thesis by auto
qed

text \<open>
  An acknowledgement is safe to repeat.  After a delivery was acknowledged, and whatever ran
  since, acknowledging it again succeeds under the same lease token and writes nothing, and under
  any other token it is a lease conflict.
\<close>

theorem acknowledgement_replays:
  assumes "fleet_reachable d" and "acknowledge_delivery now a mid t d = Inr ((), d1)"
    and "fleet_step\<^sup>*\<^sup>* d1 d2" and "validate_token t2 = Inr ()"
  shows "acknowledge_delivery now2 a mid t2 d2 = (if t2 = t then Inr ((), d2)
    else Inl (LeaseConflict ''lease is expired, invalid, or owned by another worker''))"
proof -
  have r1: "fleet_reachable d1" using assms(1,2) by (auto intro: reachable.step fleet_step.delivery_acknowledged)
  have r2: "fleet_reachable d2" using run_reachable [OF assms(3) r1] .
  have "evolves d1 d2" using run_history [OF r1 assms(3)] by (simp add: fleet_history_def history_def)
  from acknowledged_as_run [OF acknowledge_acknowledged_as [OF reachable_fleet(1) [OF assms(1)] assms(2)] this]
  show ?thesis by (rule acknowledged_as_replays [OF reachable_fleet(1) [OF r2] _ assms(4)])
qed

theorem acknowledgement_replays_witness:
  "\<exists>d1. acknowledge_delivery 30 ''w'' ''m'' ''t'' ex_claimed = Inr ((), d1)
     \<and> acknowledge_delivery 9000 ''w'' ''m'' ''u'' d1
        = Inl (LeaseConflict ''lease is expired, invalid, or owned by another worker'')"
proof -
  have "\<not> isl (acknowledge_delivery 30 ''w'' ''m'' ''t'' ex_claimed)" by code_simp
  then obtain d1 where ok: "acknowledge_delivery 30 ''w'' ''m'' ''t'' ex_claimed = Inr ((), d1)"
    by (cases "acknowledge_delivery 30 ''w'' ''m'' ''t'' ex_claimed") auto
  have "validate_token ''u'' = Inr ()" by code_simp
  from acknowledgement_replays [OF ex_reachable(3) ok rtranclp.rtrancl_refl this] ok show ?thesis by auto
qed

end
